(* ===== verification/Prelude.thy ===== *)
theory Prelude
  imports Main "HOL-Library.Word" "HOL-Library.Sublist"
begin

text \<open>
  Shared vocabulary of the development: octet strings with the two searches of
  \<open>std::string\<close> the sources use (\<open>find\<close> from a position, \<open>substr\<close>), the faults a C++ run
  can end in, a small binding operator over results that may be faults, and the collections
  of rewrite rules the component theories add to.
\<close>

section \<open>Collections\<close>

named_theorems octet_simps \<open>rewrites for searches in octet strings\<close>
named_theorems op_defs \<open>unfoldings of the operations of the interpreter\<close>
named_theorems machine_defs \<open>unfoldings of frames, continuations and the interpreter\<close>

section \<open>Machine types\<close>

type_synonym octets = string
type_synonym int32 = "32 word"

text \<open>
  What a C++ evaluation can end in besides a result: an exception that nothing under
  \<open>src/\<close> catches, a failed \<open>assert\<close>, undefined behaviour, or a recursion without end.
\<close>

datatype fault =
    BadVariantAccess
  | BadAnyCast
  | OutOfRange
  | NullDereference
  | AssertionFailed
  | EmptyStack
  | NonTermination

type_synonym 'a checked = "fault + 'a"

definition chk_bind :: "'a checked \<Rightarrow> ('a \<Rightarrow> 'b checked) \<Rightarrow> 'b checked" where
  "chk_bind m f = (case m of Inl e \<Rightarrow> Inl e | Inr x \<Rightarrow> f x)"

lemma chk_bind_Inl [simp]: "chk_bind (Inl e) f = Inl e"
  by (simp add: chk_bind_def)

lemma chk_bind_Inr [simp]: "chk_bind (Inr x) f = f x"
  by (simp add: chk_bind_def)

lemma chk_bind_eq_Inr: "chk_bind m f = Inr y \<longleftrightarrow> (\<exists>x. m = Inr x \<and> f x = Inr y)"
  by (cases m) auto

lemma chk_bind_eq_Inl: "chk_bind m f = Inl e \<longleftrightarrow> m = Inl e \<or> (\<exists>x. m = Inr x \<and> f x = Inl e)"
  by (cases m) auto

lemma chk_bind_assoc: "chk_bind (chk_bind m f) g = chk_bind m (\<lambda>x. chk_bind (f x) g)"
  by (cases m) auto

lemma chk_bind_cong [fundef_cong]:
  "m = m' \<Longrightarrow> (\<And>x. m' = Inr x \<Longrightarrow> f x = g x) \<Longrightarrow> chk_bind m f = chk_bind m' g"
  by (cases m') auto

definition chk_assert :: "bool \<Rightarrow> fault \<Rightarrow> unit checked" where
  "chk_assert b e = (if b then Inr () else Inl e)"

lemma chk_assert_simps [simp]:
  "chk_assert True e = Inr ()"
  "chk_assert False e = Inl e"
  by (simp_all add: chk_assert_def)

definition chk_the :: "'a option \<Rightarrow> fault \<Rightarrow> 'a checked" where
  "chk_the x e = (case x of None \<Rightarrow> Inl e | Some y \<Rightarrow> Inr y)"

lemma chk_the_simps [simp]:
  "chk_the None e = Inl e"
  "chk_the (Some y) e = Inr y"
  by (simp_all add: chk_the_def)

lemma chk_the_eq_Inr: "chk_the x e = Inr y \<longleftrightarrow> x = Some y"
  by (cases x) auto

section \<open>Searching octet strings\<close>

text \<open>\<open>find_sub p s\<close> is the position of the first occurrence of \<open>p\<close> in \<open>s\<close>.\<close>

primrec find_sub :: "'a list \<Rightarrow> 'a list \<Rightarrow> nat option" where
  "find_sub p [] = (if p = [] then Some 0 else None)"
| "find_sub p (c # t) = (if prefix p (c # t) then Some 0 else map_option Suc (find_sub p t))"

text \<open>\<open>s.find(p, pos)\<close>: \<open>None\<close> is \<open>npos\<close>.\<close>

definition find_from :: "'a list \<Rightarrow> 'a list \<Rightarrow> nat \<Rightarrow> nat option" where
  "find_from p s pos =
     (if pos \<le> length s then map_option (\<lambda>i. pos + i) (find_sub p (drop pos s)) else None)"

text \<open>\<open>s.substr(0, n)\<close> is \<open>take n s\<close>, \<open>s.substr(n)\<close> is \<open>drop n s\<close>.\<close>

lemma find_sub_prefix [octet_simps]: "prefix p s \<Longrightarrow> find_sub p s = Some 0"
  by (cases s) auto

lemma find_sub_SomeD:
  "find_sub p s = Some i \<Longrightarrow>
     i + length p \<le> length s \<and> prefix p (drop i s) \<and> (\<forall>j<i. \<not> prefix p (drop j s))"
proof (induction s arbitrary: i)
  case Nil
  then show ?case by (auto split: if_splits)
next
  case (Cons c t)
  show ?case
  proof (cases "prefix p (c # t)")
    case True
    with Cons.prems show ?thesis by (auto dest: prefix_length_le)
  next
    case False
    with Cons.prems obtain k where k: "find_sub p t = Some k" "i = Suc k" by auto
    from Cons.IH [OF k(1)] have
      "k + length p \<le> length t" "prefix p (drop k t)" "\<forall>j<k. \<not> prefix p (drop j t)" by auto
    with k(2) False show ?thesis by (auto simp: less_Suc_eq_0_disj)
  qed
qed

lemma find_sub_NoneD: "find_sub p s = None \<Longrightarrow> \<not> prefix p (drop j s)"
proof (induction s arbitrary: j)
  case Nil
  then show ?case by (auto split: if_splits)
next
  case (Cons c t)
  then show ?case by (cases j) (auto split: if_splits)
qed

lemma find_sub_SomeI:
  "prefix p (drop i s) \<Longrightarrow> i \<le> length s \<Longrightarrow> (\<And>j. j < i \<Longrightarrow> \<not> prefix p (drop j s)) \<Longrightarrow>
     find_sub p s = Some i"
proof (induction s arbitrary: i)
  case Nil
  then show ?case by auto
next
  case (Cons c t)
  show ?case
  proof (cases i)
    case 0
    with Cons.prems(1) show ?thesis by simp
  next
    case (Suc k)
    have "\<not> prefix p (c # t)" using Cons.prems(3) [of 0] Suc by simp
    moreover have "find_sub p t = Some k"
    proof (rule Cons.IH)
      show "prefix p (drop k t)" "k \<le> length t" using Cons.prems(1,2) Suc by simp_all
      show "\<not> prefix p (drop j t)" if "j < k" for j
        using Cons.prems(3) [of "Suc j"] that Suc by simp
    qed
    ultimately show ?thesis using Suc by simp
  qed
qed

lemma find_sub_eq_None_iff: "find_sub p s = None \<longleftrightarrow> \<not> sublist p s"
proof
  assume n: "find_sub p s = None"
  show "\<not> sublist p s"
  proof
    assume "sublist p s"
    then obtain xs ys where "s = xs @ p @ ys" by (auto simp: sublist_def)
    then have "prefix p (drop (length xs) s)" by simp
    with find_sub_NoneD [OF n] show False by blast
  qed
next
  assume "\<not> sublist p s"
  show "find_sub p s = None"
  proof (cases "find_sub p s")
    case (Some i)
    then have "prefix p (drop i s)" by (auto dest: find_sub_SomeD)
    then obtain zs where "drop i s = p @ zs" by (auto simp: prefix_def)
    then have "s = take i s @ p @ zs" by (metis append_take_drop_id)
    with \<open>\<not> sublist p s\<close> show ?thesis by (metis sublist_def)
  qed simp
qed

lemma find_sub_split: "find_sub p s = Some i \<Longrightarrow> s = take i s @ p @ drop (i + length p) s"
proof -
  assume "find_sub p s = Some i"
  then have "prefix p (drop i s)" by (auto dest: find_sub_SomeD)
  then obtain zs where z: "drop i s = p @ zs" by (auto simp: prefix_def)
  then have "drop (i + length p) s = zs"
    by (metis add.commute append_eq_conv_conj drop_drop)
  with z show "s = take i s @ p @ drop (i + length p) s" by (metis append_take_drop_id)
qed

lemma find_from_0 [simp]: "find_from p s 0 = find_sub p s"
  by (cases "find_sub p s") (simp_all add: find_from_def)

lemma find_from_bounds:
  "find_from p s pos = Some i \<Longrightarrow> pos \<le> i \<and> i + length p \<le> length s"
  by (auto simp: find_from_def dest!: find_sub_SomeD split: if_splits)

end
