(* ===== verification/Values.thy ===== *)
theory Values
  imports Prelude
begin

text \<open>
  The data of the interpreter: the operation tree (\<open>operation.hpp\<close>, \<open>optree.hpp\<close>), the
  runtime values (\<open>value.hpp\<close>), and what an operation answers (\<open>operationconcepts.hpp\<close>).
  A \<open>shared_ptr\<close> to immutable data is the data itself. A \<open>std::unordered_map\<close> that the
  code only looks up in is a map; one whose iteration order is visible is an association list
  in that order.
\<close>

section \<open>Operations and the operation tree\<close>

datatype transition_condition =
    EOFCondition
  | MatchUntilTerminator octets
  | StaticString octets

datatype operation =
    Op_Add
  | Op_DynamicList
  | Op_Eq
  | Op_FunctionCall
  | Op_FunctionCallForEach bool
  | Op_GenerateList
  | Op_If
  | Op_Int32Literal int32
  | Op_IntToAscii
  | Op_LesserEqual
  | Op_LexicalPadGet string
  | Op_LexicalPadInitialize string
  | Op_LexicalPadInitializeGlobal string
  | Op_LexicalPadSet string
  | Op_Multiply
  | Op_OpSequence
  | Op_ReadInt32Native
  | Op_ReadIntFromAscii
  | Op_ReadOctetsUntilTerminator octets "(octets \<times> octets) option"
  | Op_ReadStaticOctets octets
  | Op_StaticCallable optree "string list" bool
  | Op_Subtract
  | Op_TerminateListIfReadAhead octets
  | Op_UnaryCallback string
  | Op_WriteInt32Native
  | Op_WriteOctets
  | Op_WriteOctetsWithEscape octets octets
  | Op_WriteStaticOctets octets
  | Op_DictionaryInitialize
  | Op_DictionarySet string
  | Op_DictionaryGet string
  | Op_LexicalPadAsDict
  | Op_TransitionLookahead "(transition_condition \<times> string) list"
  | Op_StateMachineOperation "(string \<times> state_info) list"
and optree_node = OpTreeNode operation "optree_node list"
and optree = OpTree optree_node
and transition_info = TransitionInfo optree "string list" string
and state_info = StateInfo optree "(string \<times> transition_info) list"

type_synonym state_map = "(string \<times> state_info) list"
type_synonym state_transition_map = "(string \<times> transition_info) list"

primrec node_operation :: "optree_node \<Rightarrow> operation" where
  "node_operation (OpTreeNode op cs) = op"

primrec node_children :: "optree_node \<Rightarrow> optree_node list" where
  "node_children (OpTreeNode op cs) = cs"

primrec optree_root :: "optree \<Rightarrow> optree_node" where
  "optree_root (OpTree r) = r"

primrec ti_callback_optree :: "transition_info \<Rightarrow> optree" where
  "ti_callback_optree (TransitionInfo t ns tgt) = t"

primrec ti_argument_names :: "transition_info \<Rightarrow> string list" where
  "ti_argument_names (TransitionInfo t ns tgt) = ns"

primrec ti_target_state :: "transition_info \<Rightarrow> string" where
  "ti_target_state (TransitionInfo t ns tgt) = tgt"

primrec si_callback_optree :: "state_info \<Rightarrow> optree" where
  "si_callback_optree (StateInfo t ts) = t"

primrec si_transitions :: "state_info \<Rightarrow> state_transition_map" where
  "si_transitions (StateInfo t ts) = ts"

section \<open>Values\<close>

datatype runtime_error = TypeError | NameError | ProtocolMismatchError

datatype control_flow_instruction = InterruptGenerator

datatype callable = Callable
  (callable_tree: optree)
  (callable_argument_names: "string list")
  (callable_inherits_lexical_pad: bool)

text \<open>
  The type of callables is a parameter of the value type, so that the type's own set
  function collects the callables a value holds, at any depth.
\<close>

datatype 'c gvalue =
    VBool bool
  | VInt int32
  | VDictionary "string \<Rightarrow> 'c gvalue option"
  | VCallable 'c
  | VRuntimeError runtime_error
  | VControlFlowInstruction control_flow_instruction
  | VDynamicList "'c gvalue list"
  | VOctets octets

type_synonym "value" = "callable gvalue"
type_synonym dictionary = "string \<rightharpoonup> value"

text \<open>\<open>Callable(t)\<close>, the constructor with one argument.\<close>

definition callable_of_tree :: "optree \<Rightarrow> callable" where
  "callable_of_tree t = Callable t [] True"

section \<open>What an operation answers\<close>

datatype reason_for_blocked_operation =
    WaitingForCallback
  | WaitingCallbackData
  | WaitingForRead
  | WaitingForWrite
  | WaitingForCallableInvocation
  | WaitingForCallableResult

datatype op_result =
    ResValue "value"
  | ResBlocked reason_for_blocked_operation

fun is_error_or_control :: "value \<Rightarrow> bool" where
  "is_error_or_control (VRuntimeError e) = True"
| "is_error_or_control (VControlFlowInstruction c) = True"
| "is_error_or_control v = False"

section \<open>Well-formed trees\<close>

text \<open>
  \<open>std::tuple_size<typename O::Arguments>\<close> of each operation; \<open>None\<close> for the two
  operations of the \<open>DynamicInputOperationConcept\<close>, which take their children's results as
  a vector.
\<close>

fun op_arity :: "operation \<Rightarrow> nat option" where
  "op_arity Op_DynamicList = None"
| "op_arity Op_OpSequence = None"
| "op_arity Op_Add = Some 2"
| "op_arity Op_Eq = Some 2"
| "op_arity Op_FunctionCall = Some 2"
| "op_arity (Op_FunctionCallForEach b) = Some 2"
| "op_arity Op_GenerateList = Some 1"
| "op_arity Op_If = Some 3"
| "op_arity Op_IntToAscii = Some 1"
| "op_arity Op_LesserEqual = Some 2"
| "op_arity (Op_LexicalPadInitialize n) = Some 1"
| "op_arity (Op_LexicalPadInitializeGlobal n) = Some 1"
| "op_arity (Op_LexicalPadSet n) = Some 1"
| "op_arity Op_Multiply = Some 2"
| "op_arity Op_Subtract = Some 2"
| "op_arity (Op_UnaryCallback k) = Some 1"
| "op_arity Op_WriteInt32Native = Some 1"
| "op_arity Op_WriteOctets = Some 1"
| "op_arity (Op_WriteOctetsWithEscape c s) = Some 1"
| "op_arity (Op_DictionarySet k) = Some 2"
| "op_arity (Op_DictionaryGet k) = Some 1"
| "op_arity _ = Some 0"

text \<open>
  A tree is well formed when every node has at least as many children as its operation takes
  arguments, in the tree itself and in every tree an operation carries.
\<close>

primrec wf_op :: "operation \<Rightarrow> bool"
  and wf_node :: "optree_node \<Rightarrow> bool"
  and wf_tree :: "optree \<Rightarrow> bool"
  and wf_transition_info :: "transition_info \<Rightarrow> bool"
  and wf_state_info :: "state_info \<Rightarrow> bool" where
  "wf_op Op_Add = True"
| "wf_op Op_DynamicList = True"
| "wf_op Op_Eq = True"
| "wf_op Op_FunctionCall = True"
| "wf_op (Op_FunctionCallForEach b) = True"
| "wf_op Op_GenerateList = True"
| "wf_op Op_If = True"
| "wf_op (Op_Int32Literal i) = True"
| "wf_op Op_IntToAscii = True"
| "wf_op Op_LesserEqual = True"
| "wf_op (Op_LexicalPadGet n) = True"
| "wf_op (Op_LexicalPadInitialize n) = True"
| "wf_op (Op_LexicalPadInitializeGlobal n) = True"
| "wf_op (Op_LexicalPadSet n) = True"
| "wf_op Op_Multiply = True"
| "wf_op Op_OpSequence = True"
| "wf_op Op_ReadInt32Native = True"
| "wf_op Op_ReadIntFromAscii = True"
| "wf_op (Op_ReadOctetsUntilTerminator t e) = True"
| "wf_op (Op_ReadStaticOctets t) = True"
| "wf_op (Op_StaticCallable t ns i) = wf_tree t"
| "wf_op Op_Subtract = True"
| "wf_op (Op_TerminateListIfReadAhead t) = True"
| "wf_op (Op_UnaryCallback k) = True"
| "wf_op Op_WriteInt32Native = True"
| "wf_op Op_WriteOctets = True"
| "wf_op (Op_WriteOctetsWithEscape c s) = True"
| "wf_op (Op_WriteStaticOctets c) = True"
| "wf_op Op_DictionaryInitialize = True"
| "wf_op (Op_DictionarySet k) = True"
| "wf_op (Op_DictionaryGet k) = True"
| "wf_op Op_LexicalPadAsDict = True"
| "wf_op (Op_TransitionLookahead cs) = True"
| "wf_op (Op_StateMachineOperation m) = list_all (\<lambda>p. pred_prod (\<lambda>_. True) (\<lambda>b. b) p) (map (map_prod (\<lambda>s. s) wf_state_info) m)"
| "wf_node (OpTreeNode op cs) =
     (wf_op op
      \<and> (case op_arity op of None \<Rightarrow> True | Some n \<Rightarrow> n \<le> length cs)
      \<and> list_all (\<lambda>b. b) (map wf_node cs))"
| "wf_tree (OpTree r) = wf_node r"
| "wf_transition_info (TransitionInfo t ns tgt) = wf_tree t"
| "wf_state_info (StateInfo t ts) =
     (wf_tree t \<and> list_all (\<lambda>p. pred_prod (\<lambda>_. True) (\<lambda>b. b) p) (map (map_prod (\<lambda>s. s) wf_transition_info) ts))"

lemma wf_op_state_machine [simp]:
  "wf_op (Op_StateMachineOperation m) \<longleftrightarrow> (\<forall>(n, s) \<in> set m. wf_state_info s)"
  by (auto simp: list_all_iff)

lemma wf_state_info_iff [simp]:
  "wf_state_info (StateInfo t ts) \<longleftrightarrow> wf_tree t \<and> (\<forall>(n, i) \<in> set ts. wf_transition_info i)"
  by (auto simp: list_all_iff)

lemma wf_node_iff [simp]:
  "wf_node (OpTreeNode op cs) \<longleftrightarrow>
     wf_op op \<and> (\<forall>n. op_arity op = Some n \<longrightarrow> n \<le> length cs) \<and> (\<forall>c \<in> set cs. wf_node c)"
  by (auto simp: list_all_iff split: option.splits)

declare wf_node.simps [simp del]
declare wf_state_info.simps [simp del]
declare wf_op.simps(34) [simp del]

definition wf_callable :: "callable \<Rightarrow> bool" where
  "wf_callable c \<longleftrightarrow> wf_tree (callable_tree c)"

definition wf_value :: "value \<Rightarrow> bool" where
  "wf_value v \<longleftrightarrow> (\<forall>c \<in> set_gvalue v. wf_callable c)"

lemma wf_value_simps [simp]:
  "wf_value (VBool b)"
  "wf_value (VInt i)"
  "wf_value (VRuntimeError e)"
  "wf_value (VControlFlowInstruction c)"
  "wf_value (VOctets s)"
  "wf_value (VCallable k) \<longleftrightarrow> wf_callable k"
  "wf_value (VDynamicList vs) \<longleftrightarrow> (\<forall>v \<in> set vs. wf_value v)"
  by (auto simp: wf_value_def)

lemma wf_value_dictionary [simp]:
  "wf_value (VDictionary d) \<longleftrightarrow> (\<forall>k v. d k = Some v \<longrightarrow> wf_value v)"
  by (auto simp: wf_value_def)

end
