(* ===== verification/LexicalPad.thy ===== *)
theory LexicalPad
  imports Values
begin

text \<open>
  \<open>lexicalpad.cpp\<close>. Pads are shared and mutated through \<open>shared_ptr\<close>, so the model
  has an explicit store: a list of pads, a pad's address being its position. A pad is created
  after its parent, so a parent has the smaller address (\<open>pads_wf\<close>); \<open>get\<close>, \<open>set\<close> and
  \<open>initialize_global\<close> recurse along the parents. What they compute is stated against the
  environment a chain of pads stands for (\<open>pad_env\<close>); the interface the interpreter relies
  on is the locale \<open>scoped_environment\<close>.
\<close>

section \<open>The store of pads\<close>

record lexical_pad =
  pad_vars :: dictionary
  pad_parent :: "nat option"

type_synonym pads = "lexical_pad list"

definition new_pad :: "nat option \<Rightarrow> lexical_pad" where
  "new_pad par = \<lparr>pad_vars = Map.empty, pad_parent = par\<rparr>"

text \<open>\<open>make_shared<LexicalPad>(LexicalPad(parent))\<close>: the new store and the new address.\<close>

definition alloc_pad :: "pads \<Rightarrow> nat option \<Rightarrow> pads \<times> nat" where
  "alloc_pad ps par = (ps @ [new_pad par], length ps)"

definition pads_wf :: "pads \<Rightarrow> bool" where
  "pads_wf ps \<longleftrightarrow> (\<forall>a < length ps. \<forall>p. pad_parent (ps ! a) = Some p \<longrightarrow> p < a)"

section \<open>The operations\<close>

text \<open>\<open>it->second = v\<close> and \<open>pad.insert({name, v})\<close> on the map of one pad.\<close>

definition pad_bind :: "pads \<Rightarrow> nat \<Rightarrow> string \<Rightarrow> value \<Rightarrow> pads" where
  "pad_bind ps a n v = ps[a := (ps ! a)\<lparr>pad_vars := (pad_vars (ps ! a))(n \<mapsto> v)\<rparr>]"

function pad_get :: "pads \<Rightarrow> nat \<Rightarrow> string \<Rightarrow> value checked" where
  "pad_get ps a n =
     (if a < length ps then
        (case pad_vars (ps ! a) n of
           None \<Rightarrow>
             (case pad_parent (ps ! a) of
                Some p \<Rightarrow> if p < a then pad_get ps p n else Inl NonTermination
              | None \<Rightarrow> Inr (VRuntimeError NameError))
         | Some v \<Rightarrow> Inr v)
      else Inl NullDereference)"
  by pat_completeness auto
termination by (relation "measure (\<lambda>(ps, a, n). a)") auto

function pad_set :: "pads \<Rightarrow> nat \<Rightarrow> string \<Rightarrow> value \<Rightarrow> (value \<times> pads) checked" where
  "pad_set ps a n v =
     (if a < length ps then
        (case pad_vars (ps ! a) n of
           None \<Rightarrow>
             (case pad_parent (ps ! a) of
                Some p \<Rightarrow> if p < a then pad_set ps p n v else Inl NonTermination
              | None \<Rightarrow> Inr (VRuntimeError NameError, ps))
         | Some old \<Rightarrow>
             Inr (old, pad_bind ps a n v))
      else Inl NullDereference)"
  by pat_completeness auto
termination by (relation "measure (\<lambda>(ps, a, n, v). a)") auto

text \<open>\<open>pad.insert({name, v})\<close> keeps an entry that is already there.\<close>

definition pad_initialize :: "pads \<Rightarrow> nat \<Rightarrow> string \<Rightarrow> value \<Rightarrow> pads" where
  "pad_initialize ps a n v =
     (case pad_vars (ps ! a) n of
        None \<Rightarrow> pad_bind ps a n v
      | Some old \<Rightarrow> ps)"

function pad_initialize_global :: "pads \<Rightarrow> nat \<Rightarrow> string \<Rightarrow> value \<Rightarrow> pads checked" where
  "pad_initialize_global ps a n v =
     (if a < length ps then
        (case pad_parent (ps ! a) of
           Some p \<Rightarrow> if p < a then pad_initialize_global ps p n v else Inl NonTermination
         | None \<Rightarrow> Inr (pad_initialize ps a n v))
      else Inl NullDereference)"
  by pat_completeness auto
termination by (relation "measure (\<lambda>(ps, a, n, v). a)") auto

definition pad_as_dict :: "pads \<Rightarrow> nat \<Rightarrow> value checked" where
  "pad_as_dict ps a =
     (if a < length ps then Inr (VDictionary (pad_vars (ps ! a))) else Inl NullDereference)"

declare pad_get.simps [simp del] pad_set.simps [simp del] pad_initialize_global.simps [simp del]

section \<open>The environment a chain of pads stands for\<close>

function pad_env :: "pads \<Rightarrow> nat \<Rightarrow> dictionary" where
  "pad_env ps a =
     (case pad_parent (ps ! a) of
        None \<Rightarrow> pad_vars (ps ! a)
      | Some p \<Rightarrow> if p < a then pad_env ps p ++ pad_vars (ps ! a) else pad_vars (ps ! a))"
  by pat_completeness auto
termination by (relation "measure (\<lambda>(ps, a). a)") auto

declare pad_env.simps [simp del]

lemma pads_wfD: "pads_wf ps \<Longrightarrow> a < length ps \<Longrightarrow> pad_parent (ps ! a) = Some p \<Longrightarrow> p < a"
  by (auto simp: pads_wf_def)

lemma pads_wf_parent:
  "pads_wf ps \<Longrightarrow> a < length ps \<Longrightarrow> pad_parent (ps ! a) = Some p \<Longrightarrow> p < a \<and> p < length ps"
  by (auto dest: pads_wfD)

lemma pad_env_root: "pad_parent (ps ! a) = None \<Longrightarrow> pad_env ps a = pad_vars (ps ! a)"
  by (simp add: pad_env.simps [of ps a])

lemma pad_env_child:
  "pads_wf ps \<Longrightarrow> a < length ps \<Longrightarrow> pad_parent (ps ! a) = Some p \<Longrightarrow>
     pad_env ps a = pad_env ps p ++ pad_vars (ps ! a)"
  by (simp add: pad_env.simps [of ps a] pads_wfD)

text \<open>\<open>get\<close> terminates and returns the innermost binding, or \<open>NameError\<close>.\<close>

lemma pad_get_env:
  "pads_wf ps \<Longrightarrow> a < length ps \<Longrightarrow>
     pad_get ps a n = Inr (case pad_env ps a n of Some v \<Rightarrow> v | None \<Rightarrow> VRuntimeError NameError)"
proof (induction ps a n rule: pad_get.induct)
  case (1 ps a n)
  show ?case
  proof (cases "pad_parent (ps ! a)")
    case None
    with 1 show ?thesis
      by (auto simp: pad_get.simps [of ps a] pad_env_root split: option.splits)
  next
    case (Some p)
    with 1 show ?thesis
      by (auto simp: pad_get.simps [of ps a] pad_env_child map_add_def pads_wf_parent
          split: option.splits)
  qed
qed

text \<open>\<open>set\<close> changes one pad of the chain, and only where the name is already bound.\<close>

lemma pad_set_cases:
  "pads_wf ps \<Longrightarrow> a < length ps \<Longrightarrow>
     (pad_env ps a n = None \<and> pad_set ps a n v = Inr (VRuntimeError NameError, ps))
     \<or> (\<exists>b \<le> a. \<exists>old. pad_env ps a n = Some old \<and> pad_vars (ps ! b) n = Some old \<and>
          pad_set ps a n v = Inr (old, pad_bind ps b n v))"
proof (induction ps a n v rule: pad_set.induct)
  case (1 ps a n v)
  show ?case
  proof (cases "pad_vars (ps ! a) n")
    case (Some old)
    with "1.prems" have "pad_env ps a n = Some old"
      by (cases "pad_parent (ps ! a)") (auto simp: pad_env_root pad_env_child)
    with Some "1.prems" show ?thesis
      by (intro disjI2 exI [of _ a]) (simp add: pad_set.simps [of ps a])
  next
    case vars: None
    show ?thesis
    proof (cases "pad_parent (ps ! a)")
      case None
      with vars "1.prems" show ?thesis by (auto simp: pad_set.simps [of ps a] pad_env_root)
    next
      case (Some p)
      then have p: "p < a" using "1.prems" by (auto dest: pads_wfD)
      have env: "pad_env ps a n = pad_env ps p n"
        using "1.prems" Some vars by (simp add: pad_env_child map_add_def)
      have set: "pad_set ps a n v = pad_set ps p n v"
        using "1.prems" Some vars p by (simp add: pad_set.simps [of ps a])
      from "1.IH" [OF "1.prems"(2) vars Some p "1.prems"(1)] p "1.prems"(2)
      show ?thesis unfolding env set by (auto intro: order_trans [OF _ less_imp_le [OF p]])
    qed
  qed
qed

lemma pad_set_checked: "pads_wf ps \<Longrightarrow> a < length ps \<Longrightarrow> \<exists>r. pad_set ps a n v = Inr r"
  using pad_set_cases [of ps a n v] by blast

section \<open>What every operation keeps of the store\<close>

text \<open>The shape of a store: its length and its parents. Every operation keeps the shape.\<close>

definition same_shape :: "pads \<Rightarrow> pads \<Rightarrow> bool" where
  "same_shape ps qs \<longleftrightarrow>
     length qs = length ps \<and> (\<forall>a < length ps. pad_parent (qs ! a) = pad_parent (ps ! a))"

lemma same_shape_refl [simp]: "same_shape ps ps"
  by (simp add: same_shape_def)

lemma same_shape_wf: "same_shape ps qs \<Longrightarrow> pads_wf ps \<Longrightarrow> pads_wf qs"
  by (auto simp: same_shape_def pads_wf_def)

lemma same_shape_length: "same_shape ps qs \<Longrightarrow> length qs = length ps"
  by (simp add: same_shape_def)

lemma same_shape_trans: "same_shape ps qs \<Longrightarrow> same_shape qs rs \<Longrightarrow> same_shape ps rs"
  by (auto simp: same_shape_def)

lemma same_shape_bind [simp]: "same_shape ps (pad_bind ps b n v)"
  by (cases "b < length ps") (auto simp: same_shape_def pad_bind_def nth_list_update)

lemma pad_initialize_shape: "same_shape ps (pad_initialize ps a n v)"
  by (auto simp: pad_initialize_def split: option.splits)

lemma pad_set_shape: "pad_set ps a n v = Inr (r, qs) \<Longrightarrow> same_shape ps qs"
proof (induction ps a n v arbitrary: r qs rule: pad_set.induct)
  case (1 ps a n v)
  show ?case
    using "1.prems" "1.IH" by (auto simp: pad_set.simps [of ps a n v] split: if_splits option.splits)
qed

lemma pad_initialize_global_shape:
  "pad_initialize_global ps a n v = Inr qs \<Longrightarrow> same_shape ps qs"
proof (induction ps a n v arbitrary: qs rule: pad_initialize_global.induct)
  case (1 ps a n v)
  show ?case
    using "1.prems" "1.IH"
    by (auto simp: pad_initialize_global.simps [of ps a n v] pad_initialize_shape
        split: if_splits option.splits)
qed

lemma pad_initialize_global_checked:
  "pads_wf ps \<Longrightarrow> a < length ps \<Longrightarrow> \<exists>qs. pad_initialize_global ps a n v = Inr qs"
proof (induction ps a n v rule: pad_initialize_global.induct)
  case (1 ps a n v)
  show ?case
  proof (cases "pad_parent (ps ! a)")
    case None
    with "1.prems" show ?thesis by (simp add: pad_initialize_global.simps [of ps a n v])
  next
    case (Some p)
    with "1.prems" have "p < a" "p < length ps" by (auto dest: pads_wf_parent)
    with "1.IH" "1.prems" Some show ?thesis
      by (simp add: pad_initialize_global.simps [of ps a n v])
  qed
qed

lemma alloc_pad_wf:
  "pads_wf ps \<Longrightarrow> (\<forall>p. par = Some p \<longrightarrow> p < length ps) \<Longrightarrow> pads_wf (fst (alloc_pad ps par))"
  by (auto simp: alloc_pad_def pads_wf_def new_pad_def nth_append)

lemma pad_env_append:
  "pads_wf ps \<Longrightarrow> a < length ps \<Longrightarrow> pad_env (ps @ qs) a = pad_env ps a"
proof (induction a rule: less_induct)
  case (less a)
  show ?case
  proof (cases "pad_parent (ps ! a)")
    case None
    with less.prems show ?thesis by (simp add: pad_env_root nth_append)
  next
    case (Some p)
    with less.prems have "p < a" by (auto dest: pads_wfD)
    with less Some show ?thesis
      by (simp add: pad_env.simps [of "ps @ qs" a] pad_env.simps [of ps a] nth_append)
  qed
qed

text \<open>A chain does not see a pad that is younger than its first one.\<close>

lemma pad_env_update_above:
  "a < b \<Longrightarrow> pad_env (ps[b := x]) a = pad_env ps a"
proof (induction a rule: less_induct)
  case (less a)
  then show ?case
    by (auto simp: pad_env.simps [of "ps[b := x]" a] pad_env.simps [of ps a] split: option.splits)
qed

lemma pad_env_initialize:
  assumes "pads_wf ps" and "a < length ps"
  shows "pad_env (pad_initialize ps a n v) a =
    (if n \<in> dom (pad_vars (ps ! a)) then pad_env ps a else (pad_env ps a)(n \<mapsto> v))"
proof (cases "pad_vars (ps ! a) n")
  case (Some w)
  then show ?thesis by (auto simp: pad_initialize_def)
next
  case None
  show ?thesis
  proof (cases "pad_parent (ps ! a)")
    case None
    with \<open>pad_vars (ps ! a) n = None\<close> assms show ?thesis
      by (auto simp: pad_initialize_def pad_bind_def pad_env_root)
  next
    case (Some p)
    with assms have "p < a" by (auto dest: pads_wfD)
    with Some \<open>pad_vars (ps ! a) n = None\<close> assms show ?thesis
      by (auto simp: pad_initialize_def pad_bind_def pad_env.simps [of _ a] pad_env_update_above)
  qed
qed

lemma pad_vars_initialize:
  "a < length ps \<Longrightarrow> pad_vars (pad_initialize ps a n v ! a) =
    (if n \<in> dom (pad_vars (ps ! a)) then pad_vars (ps ! a) else (pad_vars (ps ! a))(n \<mapsto> v))"
  by (auto simp: pad_initialize_def pad_bind_def split: option.splits)

section \<open>The interface: a scope that names can be declared in\<close>

text \<open>
  What the interpreter needs of a pad when it binds the arguments of a call: declaring a name
  in a scope extends the scope's environment, unless the scope itself already binds the name.
\<close>

locale scoped_environment =
  fixes wf :: "'s \<Rightarrow> 'a \<Rightarrow> bool"
    and env :: "'s \<Rightarrow> 'a \<Rightarrow> string \<Rightarrow> 'v option"
    and own :: "'s \<Rightarrow> 'a \<Rightarrow> string \<Rightarrow> 'v option"
    and declare_in :: "'s \<Rightarrow> 'a \<Rightarrow> string \<Rightarrow> 'v \<Rightarrow> 's"
  assumes declare_wf: "wf s a \<Longrightarrow> wf (declare_in s a n v) a"
    and declare_own: "wf s a \<Longrightarrow> own (declare_in s a n v) a =
          (if n \<in> dom (own s a) then own s a else (own s a)(n \<mapsto> v))"
    and declare_env: "wf s a \<Longrightarrow> env (declare_in s a n v) a =
          (if n \<in> dom (own s a) then env s a else (env s a)(n \<mapsto> v))"
begin

lemma declare_list_env:
  "wf s a \<Longrightarrow> (\<And>n. n \<in> dom (own s a) \<Longrightarrow> env s a n = own s a n) \<Longrightarrow>
     env (foldl (\<lambda>s (n, v). declare_in s a n v) s nvs) a =
       (env s a) ++ map_of nvs ++ own s a"
proof (induction nvs arbitrary: s)
  case Nil
  show ?case
  proof
    fix n
    show "env (foldl (\<lambda>s (n, v). declare_in s a n v) s []) a n =
        (env s a ++ map_of [] ++ own s a) n"
      using Nil.prems(2) [of n] by (cases "own s a n") (auto simp: map_add_def)
  qed
next
  case (Cons nv nvs)
  obtain n v where nv: "nv = (n, v)" by (cases nv)
  let ?s = "declare_in s a n v"
  have agree: "m \<in> dom (own ?s a) \<Longrightarrow> env ?s a m = own ?s a m" for m
    using Cons.prems by (auto simp: declare_own declare_env split: if_splits)
  have "env (foldl (\<lambda>s (n, v). declare_in s a n v) ?s nvs) a = env ?s a ++ map_of nvs ++ own ?s a"
    using Cons.prems(1) agree by (intro Cons.IH) (auto intro: declare_wf)
  also have "\<dots> = env s a ++ map_of (nv # nvs) ++ own s a"
    using Cons.prems(1)
    by (intro ext) (auto simp: nv declare_own declare_env map_add_def split: option.splits)
  finally have step: "env (foldl (\<lambda>s (n, v). declare_in s a n v) ?s nvs) a =
      env s a ++ map_of (nv # nvs) ++ own s a" .
  have "foldl (\<lambda>s (n, v). declare_in s a n v) s (nv # nvs) =
      foldl (\<lambda>s (n, v). declare_in s a n v) ?s nvs"
    by (simp add: nv)
  with step show ?case by (simp only:)
qed

end

text \<open>The store of pads provides it: the laws are those of \<open>initialize\<close>.\<close>

definition valid_pad :: "pads \<Rightarrow> nat \<Rightarrow> bool" where
  "valid_pad ps a \<longleftrightarrow> pads_wf ps \<and> a < length ps"

interpretation pad_scope: scoped_environment valid_pad pad_env "\<lambda>ps a. pad_vars (ps ! a)" pad_initialize
proof
  fix ps :: pads and a n v
  assume "valid_pad ps a"
  then have wf: "pads_wf ps" "a < length ps" by (simp_all add: valid_pad_def)
  show "valid_pad (pad_initialize ps a n v) a"
    using wf pad_initialize_shape [of ps a n v]
    by (auto simp: valid_pad_def intro: same_shape_wf dest: same_shape_length)
  show "pad_vars (pad_initialize ps a n v ! a) =
      (if n \<in> dom (pad_vars (ps ! a)) then pad_vars (ps ! a) else (pad_vars (ps ! a))(n \<mapsto> v))"
    using wf by (rule_tac pad_vars_initialize)
  show "pad_env (pad_initialize ps a n v) a =
      (if n \<in> dom (pad_vars (ps ! a)) then pad_env ps a else (pad_env ps a)(n \<mapsto> v))"
    using wf by (rule pad_env_initialize)
qed

end
