(* ===== verification/PureOps.thy ===== *)
theory PureOps
  imports Values "HOL-Library.Char_ord"
begin

text \<open>
  The operations that only compute on their arguments: \<open>add.cpp\<close>, \<open>subtract.cpp\<close>,
  \<open>multiply.cpp\<close>, \<open>eq.cpp\<close>, \<open>lesserequal.cpp\<close>, \<open>inttoascii.cpp\<close>,
  \<open>int32literal.hpp\<close>, \<open>staticcallable.cpp\<close>, the dictionary operations,
  \<open>dynamiclist.cpp\<close> and \<open>opsequence.cpp\<close>. Each branch is the overload that C++
  resolution picks for the alternatives \<open>std::visit\<close> hands over. Signed overflow, undefined
  in C++, is the wrap-around of the two's complement machine.
\<close>

section \<open>Arithmetic and comparison\<close>

definition add_apply :: "value \<Rightarrow> value \<Rightarrow> value" where
  "add_apply lhs rhs =
     (case lhs of
        VInt l \<Rightarrow>
          (case rhs of
             VInt r \<Rightarrow> VInt (r + l)
           | VRuntimeError e \<Rightarrow> VRuntimeError e
           | VControlFlowInstruction c \<Rightarrow> VControlFlowInstruction c
           | _ \<Rightarrow> VRuntimeError TypeError)
      | VRuntimeError e \<Rightarrow> VRuntimeError e
      | VControlFlowInstruction c \<Rightarrow> VControlFlowInstruction c
      | _ \<Rightarrow> VRuntimeError TypeError)"

definition subtract_apply :: "value \<Rightarrow> value \<Rightarrow> value" where
  "subtract_apply lhs rhs =
     (case lhs of
        VInt l \<Rightarrow>
          (case rhs of
             VInt r \<Rightarrow> VInt (l - r)
           | VRuntimeError e \<Rightarrow> VRuntimeError e
           | VControlFlowInstruction c \<Rightarrow> VControlFlowInstruction c
           | _ \<Rightarrow> VRuntimeError TypeError)
      | VRuntimeError e \<Rightarrow> VRuntimeError e
      | VControlFlowInstruction c \<Rightarrow> VControlFlowInstruction c
      | _ \<Rightarrow> VRuntimeError TypeError)"

definition multiply_apply :: "value \<Rightarrow> value \<Rightarrow> value" where
  "multiply_apply lhs rhs =
     (case lhs of
        VInt l \<Rightarrow>
          (case rhs of
             VInt r \<Rightarrow> VInt (r * l)
           | VRuntimeError e \<Rightarrow> VRuntimeError e
           | VControlFlowInstruction c \<Rightarrow> VControlFlowInstruction c
           | _ \<Rightarrow> VRuntimeError TypeError)
      | VRuntimeError e \<Rightarrow> VRuntimeError e
      | VControlFlowInstruction c \<Rightarrow> VControlFlowInstruction c
      | _ \<Rightarrow> VRuntimeError TypeError)"

definition eq_apply :: "value \<Rightarrow> value \<Rightarrow> value" where
  "eq_apply lhs rhs =
     (case lhs of
        VInt l \<Rightarrow>
          (case rhs of
             VInt r \<Rightarrow> VBool (r = l)
           | VRuntimeError e \<Rightarrow> VRuntimeError e
           | VControlFlowInstruction c \<Rightarrow> VControlFlowInstruction c
           | _ \<Rightarrow> VRuntimeError TypeError)
      | VRuntimeError e \<Rightarrow> VRuntimeError e
      | VControlFlowInstruction c \<Rightarrow> VControlFlowInstruction c
      | _ \<Rightarrow> VRuntimeError TypeError)"

definition lesser_equal_apply :: "value \<Rightarrow> value \<Rightarrow> value" where
  "lesser_equal_apply lhs rhs =
     (case lhs of
        VInt l \<Rightarrow>
          (case rhs of
             VInt r \<Rightarrow> VBool (sint l \<le> sint r)
           | VRuntimeError e \<Rightarrow> VRuntimeError e
           | VControlFlowInstruction c \<Rightarrow> VControlFlowInstruction c
           | _ \<Rightarrow> VRuntimeError TypeError)
      | VRuntimeError e \<Rightarrow> VRuntimeError e
      | VControlFlowInstruction c \<Rightarrow> VControlFlowInstruction c
      | _ \<Rightarrow> VRuntimeError TypeError)"

section \<open>Literals and conversions\<close>

definition int32_literal_apply :: "int32 \<Rightarrow> value" where
  "int32_literal_apply v = VInt v"

definition static_callable_apply :: "optree \<Rightarrow> string list \<Rightarrow> bool \<Rightarrow> value" where
  "static_callable_apply t ns i = VCallable (Callable t ns i)"

text \<open>Decimal output of \<open>operator<<\<close>.\<close>

definition digit_char :: "nat \<Rightarrow> char" where
  "digit_char d = char_of (48 + d)"

fun decimal_nat :: "nat \<Rightarrow> octets" where
  "decimal_nat n =
     (if n < 10 then [digit_char n] else decimal_nat (n div 10) @ [digit_char (n mod 10)])"

declare decimal_nat.simps [simp del]

definition decimal_int :: "int \<Rightarrow> octets" where
  "decimal_int i = (if i < 0 then CHR ''-'' # decimal_nat (nat (- i)) else decimal_nat (nat i))"

definition int_to_ascii_apply :: "value \<Rightarrow> value" where
  "int_to_ascii_apply v =
     (case v of
        VInt i \<Rightarrow> VOctets (decimal_int (sint i))
      | VRuntimeError e \<Rightarrow> VRuntimeError e
      | VControlFlowInstruction c \<Rightarrow> VControlFlowInstruction c
      | _ \<Rightarrow> VRuntimeError TypeError)"

section \<open>Dictionaries, lists, sequences\<close>

definition dictionary_initialize_apply :: "value" where
  "dictionary_initialize_apply = VDictionary Map.empty"

definition dictionary_set_apply :: "string \<Rightarrow> value \<Rightarrow> value \<Rightarrow> value" where
  "dictionary_set_apply key dict v =
     (case dict of
        VDictionary d \<Rightarrow>
          (case v of
             VRuntimeError e \<Rightarrow> VRuntimeError e
           | _ \<Rightarrow> VDictionary (d(key \<mapsto> v)))
      | VRuntimeError e \<Rightarrow> VRuntimeError e
      | _ \<Rightarrow> VRuntimeError TypeError)"

text \<open>
  The arguments are a \<open>const Arguments &\<close>, so \<open>std::visit\<close> hands over a
  \<open>const RuntimeError &\<close>; the overload \<open>get(RuntimeError &)\<close> does not bind to it and
  \<open>get(auto &)\<close> answers.
\<close>

definition dictionary_get_apply :: "string \<Rightarrow> value \<Rightarrow> value" where
  "dictionary_get_apply key dict =
     (case dict of
        VDictionary d \<Rightarrow> (case d key of Some v \<Rightarrow> v | None \<Rightarrow> VRuntimeError NameError)
      | _ \<Rightarrow> VRuntimeError TypeError)"

definition dynamic_list_apply :: "value list \<Rightarrow> value" where
  "dynamic_list_apply args = VDynamicList args"

definition op_sequence_apply :: "value list \<Rightarrow> value" where
  "op_sequence_apply args = (if args = [] then VBool False else last args)"

lemmas pure_op_defs [op_defs] =
  add_apply_def subtract_apply_def multiply_apply_def eq_apply_def lesser_equal_apply_def
  int32_literal_apply_def static_callable_apply_def int_to_ascii_apply_def
  dictionary_initialize_apply_def dictionary_set_apply_def dictionary_get_apply_def
  dynamic_list_apply_def op_sequence_apply_def

section \<open>The contract of the binary operations on integers\<close>

text \<open>
  The five operations share their treatment of everything that is not a pair of integers: an
  error or control value on the left is the result whatever the right one is, one on the right
  is the result when the left one is an integer, anything else is a type error.
\<close>

locale int_operation =
  fixes apply_op :: "value \<Rightarrow> value \<Rightarrow> value" and f :: "int32 \<Rightarrow> int32 \<Rightarrow> value"
  assumes on_ints: "apply_op (VInt l) (VInt r) = f l r"
    and f_plain: "\<not> is_error_or_control (f l r)"
    and f_callables: "set_gvalue (f l r) = {}"
    and left_escapes: "is_error_or_control v \<Longrightarrow> apply_op v w = v"
    and right_escapes: "is_error_or_control w \<Longrightarrow> apply_op (VInt l) w = w"
    and otherwise: "\<not> is_error_or_control v \<Longrightarrow> (\<nexists>l. v = VInt l) \<Longrightarrow> apply_op v w = VRuntimeError TypeError"
    and right_type: "\<not> is_error_or_control w \<Longrightarrow> (\<nexists>r. w = VInt r) \<Longrightarrow>
          apply_op (VInt l) w = VRuntimeError TypeError"
begin

lemma result_cases:
  "(\<exists>l r. v = VInt l \<and> w = VInt r \<and> apply_op v w = f l r)
   \<or> is_error_or_control (apply_op v w)"
proof (cases "is_error_or_control v")
  case True
  then show ?thesis by (simp add: left_escapes)
next
  case v: False
  show ?thesis
  proof (cases "\<exists>l. v = VInt l")
    case True
    then obtain l where l: "v = VInt l" by blast
    show ?thesis
    proof (cases "is_error_or_control w")
      case True
      then show ?thesis by (simp add: l right_escapes)
    next
      case False
      then show ?thesis
        using right_type [of w l] on_ints l by (cases "\<exists>r. w = VInt r") auto
    qed
  next
    case False
    with v show ?thesis using otherwise [of v w] by simp
  qed
qed

lemma plain_result_iff:
  "\<not> is_error_or_control (apply_op v w) \<longleftrightarrow> (\<exists>l r. v = VInt l \<and> w = VInt r)"
proof
  assume "\<not> is_error_or_control (apply_op v w)"
  then show "\<exists>l r. v = VInt l \<and> w = VInt r"
    using result_cases [of v w] by blast
next
  assume "\<exists>l r. v = VInt l \<and> w = VInt r"
  then show "\<not> is_error_or_control (apply_op v w)"
    using f_plain by (auto simp: on_ints)
qed

lemma wf_result: "wf_value v \<Longrightarrow> wf_value w \<Longrightarrow> wf_value (apply_op v w)"
proof -
  assume "wf_value v" "wf_value w"
  have "is_error_or_control u \<Longrightarrow> wf_value u" for u by (cases u) auto
  then show "wf_value (apply_op v w)"
    using result_cases [of v w] f_callables by (auto simp: wf_value_def)
qed

end

interpretation add: int_operation add_apply "\<lambda>l r. VInt (r + l)"
  by unfold_locales (auto simp: op_defs split: gvalue.splits)

interpretation subtract: int_operation subtract_apply "\<lambda>l r. VInt (l - r)"
  by unfold_locales (auto simp: op_defs split: gvalue.splits)

interpretation multiply: int_operation multiply_apply "\<lambda>l r. VInt (r * l)"
  by unfold_locales (auto simp: op_defs split: gvalue.splits)

interpretation eq: int_operation eq_apply "\<lambda>l r. VBool (r = l)"
  by unfold_locales (auto simp: op_defs split: gvalue.splits)

interpretation lesser_equal: int_operation lesser_equal_apply "\<lambda>l r. VBool (sint l \<le> sint r)"
  by unfold_locales (auto simp: op_defs split: gvalue.splits)

section \<open>Well-formed results\<close>

lemma wf_static_callable: "wf_tree t \<Longrightarrow> wf_value (static_callable_apply t ns i)"
  by (simp add: static_callable_apply_def wf_callable_def)

lemma wf_int_to_ascii: "wf_value (int_to_ascii_apply v)"
  by (auto simp: int_to_ascii_apply_def split: gvalue.splits)

lemma wf_dictionary_set: "wf_value d \<Longrightarrow> wf_value v \<Longrightarrow> wf_value (dictionary_set_apply k d v)"
  by (cases d; cases v) (auto simp: dictionary_set_apply_def)

lemma wf_dictionary_get: "wf_value d \<Longrightarrow> wf_value (dictionary_get_apply k d)"
  by (cases d) (auto simp: dictionary_get_apply_def split: option.splits)

lemma wf_op_sequence: "\<forall>v \<in> set vs. wf_value v \<Longrightarrow> wf_value (op_sequence_apply vs)"
  by (auto simp: op_sequence_apply_def)

section \<open>Range facts\<close>

lemma sint_add_in_range:
  fixes a b :: int32
  assumes "- (2 ^ 31) \<le> sint a + sint b" and "sint a + sint b < 2 ^ 31"
  shows "sint (b + a) = sint a + sint b"
proof -
  have "sint (b + a) = signed_take_bit 31 (sint b + sint a)"
    by (simp add: signed_take_bit_add sint_word_ariths)
  also have "\<dots> = sint b + sint a"
    using assms by (intro signed_take_bit_int_eq_self) simp_all
  finally show ?thesis by simp
qed

section \<open>Decimal digits\<close>

definition is_digit :: "char \<Rightarrow> bool" where
  "is_digit c \<longleftrightarrow> CHR ''0'' \<le> c \<and> c \<le> CHR ''9''"

definition digit_value :: "char \<Rightarrow> nat" where
  "digit_value c = of_char c - 48"

definition digits_value :: "octets \<Rightarrow> nat" where
  "digits_value ds = foldl (\<lambda>acc c. 10 * acc + digit_value c) 0 ds"

lemma digit_value_char: "d < 10 \<Longrightarrow> digit_value (digit_char d) = d"
  by (simp add: digit_value_def digit_char_def)

lemma decimal_nat_value: "digits_value (decimal_nat n) = n"
proof (induction n rule: decimal_nat.induct)
  case (1 n)
  show ?case
  proof (cases "n < 10")
    case True
    then show ?thesis
      by (simp add: decimal_nat.simps [of n] digits_value_def digit_value_char)
  next
    case False
    with 1 have "digits_value (decimal_nat (n div 10)) = n div 10" by simp
    then show ?thesis
      using False by (simp add: decimal_nat.simps [of n] digits_value_def digit_value_char)
  qed
qed

lemma decimal_nat_nonempty: "decimal_nat n \<noteq> []"
  by (subst decimal_nat.simps) simp

end
