(* ===== verification/ReadOps.thy ===== *)
theory ReadOps
  imports PureOps
begin

text \<open>
  The operations that read: \<open>readint32native.cpp\<close>, \<open>readintfromascii.cpp\<close>,
  \<open>readstaticoctets.cpp\<close>, \<open>readoctetsuntilterminator.cpp\<close>,
  \<open>terminatelistifreadahead.cpp\<close> and \<open>transitionlookahead.cpp\<close>, each with its call
  operator (\<open>_run\<close>), \<open>handle_read\<close> (how much of the input it consumes, and its new
  context) and \<open>ready_to_evaluate\<close>. \<open>handle_eof\<close> is the same assignment in all of them.
  The locale \<open>read_operation\<close> is the contract the interpreter and the runner rely on.
\<close>

section \<open>The context of an input or output operation\<close>

text \<open>The iterator into the buffer is an index.\<close>

record io_ctx =
  io_buffer :: octets
  io_it :: nat
  io_ready :: bool
  io_eof :: bool

definition init_io :: io_ctx where
  "init_io = \<lparr>io_buffer = [], io_it = 0, io_ready = False, io_eof = False\<rparr>"

definition io_handle_eof :: "io_ctx \<Rightarrow> io_ctx" where
  "io_handle_eof c = c\<lparr>io_eof := True\<rparr>"

abbreviation mismatch :: op_result where
  "mismatch \<equiv> ResValue (VRuntimeError ProtocolMismatchError)"

section \<open>\<open>ReadInt32Native\<close>\<close>

text \<open>\<open>memcpy\<close> of four octets into an \<open>int\<close> on the little-endian targets of the build.\<close>

definition octet_of :: "char \<Rightarrow> int32" where
  "octet_of c = word_of_nat (of_char c)"

definition int32_of_octets :: "octets \<Rightarrow> int32" where
  "int32_of_octets b =
     octet_of (b ! 0) + 2 ^ 8 * octet_of (b ! 1) + 2 ^ 16 * octet_of (b ! 2) + 2 ^ 24 * octet_of (b ! 3)"

definition read_int32_run :: "io_ctx \<Rightarrow> op_result" where
  "read_int32_run c =
     (if length (io_buffer c) < 4
      then (if io_eof c then mismatch else ResBlocked WaitingForRead)
      else ResValue (VInt (int32_of_octets (io_buffer c))))"

definition read_int32_handle_read :: "io_ctx \<Rightarrow> octets \<Rightarrow> nat \<times> io_ctx" where
  "read_int32_handle_read c s =
     (let expecting = 4 - length (io_buffer c) in
      if expecting > 0 then
        (if length s > expecting
         then (expecting, c\<lparr>io_buffer := io_buffer c @ take expecting s\<rparr>)
         else (length s, c\<lparr>io_buffer := io_buffer c @ s\<rparr>))
      else (0, c))"

definition read_int32_ready :: "io_ctx \<Rightarrow> bool" where
  "read_int32_ready c \<longleftrightarrow> length (io_buffer c) \<ge> 4 \<or> io_eof c"

section \<open>\<open>ReadIntFromAscii\<close>\<close>

text \<open>
  \<open>strtol\<close> in base 10 on a 64-bit \<open>long\<close>: the value, and whether it reports \<open>ERANGE\<close>. The
  string ends at its first NUL. \<open>errno\<close> is never reset by the sources, so a report stays:
  \<open>erange\<close> is that flag of the thread.
\<close>

definition c_str :: "octets \<Rightarrow> octets" where
  "c_str s = takeWhile (\<lambda>c. c \<noteq> CHR 0x00) s"

definition is_space :: "char \<Rightarrow> bool" where
  "is_space c \<longleftrightarrow> c = CHR '' '' \<or> of_char c \<in> {9..13::nat}"

definition strtol_10 :: "octets \<Rightarrow> int \<times> bool" where
  "strtol_10 str =
     (let s = dropWhile is_space (c_str str);
          (neg, body) = (case s of
             c # t \<Rightarrow> if c = CHR ''-'' then (True, t) else if c = CHR ''+'' then (False, t) else (False, s)
           | [] \<Rightarrow> (False, []));
          n = int (digits_value (takeWhile is_digit body));
          v = (if neg then - n else n) in
      if v > 2 ^ 63 - 1 then (2 ^ 63 - 1, True)
      else if v < - (2 ^ 63) then (- (2 ^ 63), True)
      else (v, False))"

definition read_int_ascii_run :: "bool \<Rightarrow> io_ctx \<Rightarrow> op_result \<times> bool" where
  "read_int_ascii_run erange c =
     (if io_ready c then
        (if io_buffer c = ''0'' then (ResValue (VInt 0), erange)
         else
           (let (converted, range_error) = strtol_10 (io_buffer c);
                erange' = (erange \<or> range_error) in
            if converted = 0 then (mismatch, erange')
            else if erange' \<or> converted > 2 ^ 31 - 1 \<or> converted < - (2 ^ 31) then (mismatch, erange')
            else (ResValue (VInt (word_of_int converted)), erange')))
      else if io_eof c then (mismatch, erange)
      else (ResBlocked WaitingForRead, erange))"

text \<open>The scan accepts \<open>*it >= '0' && *it < '9'\<close>.\<close>

definition scanned_digit :: "char \<Rightarrow> bool" where
  "scanned_digit c \<longleftrightarrow> CHR ''0'' \<le> c \<and> c < CHR ''9''"

definition read_int_ascii_handle_read :: "io_ctx \<Rightarrow> octets \<Rightarrow> nat \<times> io_ctx" where
  "read_int_ascii_handle_read c s =
     (let consumed = length (takeWhile scanned_digit s) in
      if consumed \<noteq> length s
      then (consumed, c\<lparr>io_buffer := take consumed s, io_ready := True\<rparr>)
      else (0, c))"

definition read_int_ascii_ready :: "io_ctx \<Rightarrow> bool" where
  "read_int_ascii_ready c \<longleftrightarrow> io_ready c \<or> io_eof c"

section \<open>\<open>ReadStaticOctets\<close>\<close>

text \<open>\<open>strncmp(a, b, n) == 0\<close> on the \<open>c_str()\<close> of two strings.\<close>

fun strncmp_eq :: "octets \<Rightarrow> octets \<Rightarrow> nat \<Rightarrow> bool" where
  "strncmp_eq a b 0 = True"
| "strncmp_eq a b (Suc n) =
     (let x = (case a of [] \<Rightarrow> CHR 0x00 | c # t \<Rightarrow> c);
          y = (case b of [] \<Rightarrow> CHR 0x00 | c # t \<Rightarrow> c) in
      x = y \<and> (x = CHR 0x00 \<or> strncmp_eq (tl a) (tl b) n))"

definition read_static_run :: "octets \<Rightarrow> io_ctx \<Rightarrow> op_result" where
  "read_static_run contents c =
     (if length (io_buffer c) < length contents
      then (if io_eof c then mismatch else ResBlocked WaitingForRead)
      else if strncmp_eq (io_buffer c) contents (length contents)
      then ResValue (VBool True)
      else mismatch)"

definition read_static_handle_read :: "octets \<Rightarrow> io_ctx \<Rightarrow> octets \<Rightarrow> nat \<times> io_ctx" where
  "read_static_handle_read contents c s =
     (if length s < length contents then (0, c)
      else (length contents, c\<lparr>io_buffer := take (length contents) s\<rparr>))"

definition read_static_ready :: "octets \<Rightarrow> io_ctx \<Rightarrow> bool" where
  "read_static_ready contents c \<longleftrightarrow> length (io_buffer c) \<ge> length contents \<or> io_eof c"

section \<open>\<open>ReadOctetsUntilTerminator\<close>\<close>

definition read_until_run :: "io_ctx \<Rightarrow> op_result" where
  "read_until_run c =
     (if io_ready c then ResValue (VOctets (io_buffer c))
      else if io_eof c then mismatch
      else ResBlocked WaitingForRead)"

text \<open>
  The loop with an escape: the octets consumed (0 when the terminator has not come), and the
  context. An empty escape sequence is found again at the same position for ever.
\<close>

partial_function (option) read_escaped ::
  "octets \<Rightarrow> octets \<Rightarrow> octets \<Rightarrow> octets \<Rightarrow> nat \<Rightarrow> io_ctx \<Rightarrow> (nat \<times> io_ctx) option" where
  "read_escaped terminator esc_char esc_seq s pos c =
     (if pos < length s then
        (case (find_from terminator s pos, find_from esc_seq s pos) of
           (None, None) \<Rightarrow> Some (0, c)
         | (Some term_pos, None) \<Rightarrow>
             Some (term_pos + length terminator,
               c\<lparr>io_buffer := io_buffer c @ take (term_pos - pos) (drop pos s), io_ready := True\<rparr>)
         | (term, Some esc_pos) \<Rightarrow>
             (if term = None \<or> esc_pos \<le> the term
              then read_escaped terminator esc_char esc_seq s (esc_pos + length esc_seq)
                     (c\<lparr>io_buffer := io_buffer c @ take (esc_pos - pos) (drop pos s) @ esc_char\<rparr>)
              else Some (the term + length terminator,
                     c\<lparr>io_buffer := io_buffer c @ take (the term - pos) (drop pos s), io_ready := True\<rparr>)))
      else Some (0, c))"

definition read_until_handle_read ::
  "octets \<Rightarrow> (octets \<times> octets) option \<Rightarrow> io_ctx \<Rightarrow> octets \<Rightarrow> (nat \<times> io_ctx) checked" where
  "read_until_handle_read terminator escape c s =
     (case escape of
        Some (esc_char, esc_seq) \<Rightarrow> chk_the (read_escaped terminator esc_char esc_seq s 0 c) NonTermination
      | None \<Rightarrow>
          (case find_sub terminator s of
             None \<Rightarrow> Inr (0, c)
           | Some pos \<Rightarrow>
               Inr (pos + length terminator, c\<lparr>io_buffer := take pos s, io_ready := True\<rparr>)))"

definition read_until_ready :: "io_ctx \<Rightarrow> bool" where
  "read_until_ready c \<longleftrightarrow> io_ready c \<or> io_eof c"

section \<open>\<open>TerminateListIfReadAhead\<close>\<close>

definition terminate_list_run :: "octets \<Rightarrow> io_ctx \<Rightarrow> op_result" where
  "terminate_list_run terminator c =
     (if io_buffer c = [] then (if io_eof c then mismatch else ResBlocked WaitingForRead)
      else if length (io_buffer c) < length terminator then
        (if io_buffer c = take (length (io_buffer c)) terminator
         then (if io_eof c then mismatch else ResBlocked WaitingForRead)
         else ResValue (VBool False))
      else if take (length terminator) (io_buffer c) = terminator
      then ResValue (VControlFlowInstruction InterruptGenerator)
      else ResValue (VBool False))"

definition terminate_list_handle_read :: "octets \<Rightarrow> io_ctx \<Rightarrow> octets \<Rightarrow> nat \<times> io_ctx" where
  "terminate_list_handle_read terminator c s =
     (let c' = c\<lparr>io_buffer := s\<rparr> in
      if length (io_buffer c') \<ge> length terminator
         \<and> take (length terminator) (io_buffer c') = terminator
      then (length terminator, c') else (0, c'))"

definition terminate_list_ready :: "octets \<Rightarrow> io_ctx \<Rightarrow> bool" where
  "terminate_list_ready terminator c =
     (if io_buffer c = [] then io_eof c
      else if length (io_buffer c) < length terminator then
        (if io_buffer c = take (length (io_buffer c)) terminator then io_eof c else True)
      else True)"

section \<open>\<open>TransitionLookahead\<close>\<close>

text \<open>A condition's verdict: valid, and permanently invalid.\<close>

fun match_condition :: "io_ctx \<Rightarrow> transition_condition \<Rightarrow> bool \<times> bool" where
  "match_condition c EOFCondition =
     (if io_buffer c = []
      then (if io_eof c then (True, True) else (False, False))
      else (False, True))"
| "match_condition c (MatchUntilTerminator terminator) =
     (case find_sub terminator (io_buffer c) of
        Some pos \<Rightarrow> (True, False)
      | None \<Rightarrow> (False, io_eof c))"
| "match_condition c (StaticString str) =
     (if length (io_buffer c) \<le> length str then
        (if io_buffer c \<noteq> take (length (io_buffer c)) str then (False, True) else (False, io_eof c))
      else if take (length str) (io_buffer c) = str then (True, False) else (False, True))"

text \<open>The loop over the conditions: the target of the first valid one, and whether every
  condition looked at is permanently invalid.\<close>

fun scan_conditions ::
  "io_ctx \<Rightarrow> (transition_condition \<times> string) list \<Rightarrow> bool \<Rightarrow> string option \<times> bool" where
  "scan_conditions c [] all_invalid = (None, all_invalid)"
| "scan_conditions c ((cond, target) # conds) all_invalid =
     (let (valid, invalid) = match_condition c cond in
      if valid then (Some target, all_invalid)
      else scan_conditions c conds (all_invalid \<and> invalid))"

definition transition_lookahead_run ::
  "(transition_condition \<times> string) list \<Rightarrow> io_ctx \<Rightarrow> op_result" where
  "transition_lookahead_run conds c =
     (case scan_conditions c conds True of
        (Some target, _) \<Rightarrow> ResValue (VOctets target)
      | (None, True) \<Rightarrow> mismatch
      | (None, False) \<Rightarrow> ResBlocked WaitingForRead)"

definition transition_lookahead_handle_read :: "io_ctx \<Rightarrow> octets \<Rightarrow> nat \<times> io_ctx" where
  "transition_lookahead_handle_read c s = (0, c\<lparr>io_buffer := s\<rparr>)"

definition transition_lookahead_ready ::
  "(transition_condition \<times> string) list \<Rightarrow> io_ctx \<Rightarrow> bool" where
  "transition_lookahead_ready conds c =
     (case scan_conditions c conds True of
        (Some target, _) \<Rightarrow> True
      | (None, all_invalid) \<Rightarrow> all_invalid)"

lemmas read_op_defs [op_defs] =
  read_int32_run_def read_int32_handle_read_def read_int32_ready_def
  read_int_ascii_run_def read_int_ascii_handle_read_def read_int_ascii_ready_def
  read_static_run_def read_static_handle_read_def read_static_ready_def
  read_until_run_def read_until_handle_read_def read_until_ready_def
  terminate_list_run_def terminate_list_handle_read_def terminate_list_ready_def
  transition_lookahead_run_def transition_lookahead_handle_read_def transition_lookahead_ready_def


section \<open>The contract of a reading operation\<close>

text \<open>
  \<open>inv\<close> is what the operation keeps of its context. Reading consumes a prefix of what is
  offered, the operation waits for input exactly as long as it is not ready, and the end of
  the input makes it ready.
\<close>

locale read_operation =
  fixes run :: "io_ctx \<Rightarrow> op_result"
    and handle_read :: "io_ctx \<Rightarrow> octets \<Rightarrow> (nat \<times> io_ctx) checked"
    and ready :: "io_ctx \<Rightarrow> bool"
    and inv :: "io_ctx \<Rightarrow> bool"
  assumes inv_init: "inv init_io"
    and inv_eof: "inv c \<Longrightarrow> inv (io_handle_eof c)"
    and handle_read_ok: "inv c \<Longrightarrow>
          \<exists>n c'. handle_read c s = Inr (n, c') \<and> n \<le> length s \<and> inv c' \<and> io_eof c' = io_eof c"
    and run_ready: "ready c \<Longrightarrow> \<exists>v. run c = ResValue v \<and> wf_value v"
    and run_waits: "\<not> ready c \<Longrightarrow> run c = ResBlocked WaitingForRead"
    and eof_ready: "io_eof c \<Longrightarrow> ready c"
begin

lemma blocked_iff: "run c = ResBlocked r \<longleftrightarrow> \<not> ready c \<and> r = WaitingForRead"
  using run_ready [of c] run_waits [of c] by (cases "ready c") auto

lemma run_cases: "(\<exists>v. run c = ResValue v \<and> wf_value v) \<or> run c = ResBlocked WaitingForRead"
  using run_ready [of c] run_waits [of c] by blast

lemma after_eof: "\<exists>v. run (io_handle_eof c) = ResValue v \<and> wf_value v"
  by (intro run_ready eof_ready) (simp add: io_handle_eof_def)

lemma result_wf: "run c = ResValue v \<Longrightarrow> wf_value v"
  using run_ready [of c] run_waits [of c] by (cases "ready c") auto

lemma consumed_le: "inv c \<Longrightarrow> handle_read c s = Inr (n, c') \<Longrightarrow> n \<le> length s"
  using handle_read_ok [of c s] by auto

lemma keeps_inv: "inv c \<Longrightarrow> handle_read c s = Inr (n, c') \<Longrightarrow> inv c'"
  using handle_read_ok [of c s] by auto

end

lemma find_from_consumed:
  "find_from p s pos = Some i \<Longrightarrow> i + length p \<le> length s"
  by (auto dest: find_from_bounds)

text \<open>The loop with an escape ends when the escape sequence is not empty.\<close>

lemma read_escaped_Some:
  assumes "esc_seq \<noteq> []"
  shows "\<exists>n c'. read_escaped terminator esc_char esc_seq s pos c = Some (n, c')
           \<and> n \<le> length s \<and> io_eof c' = io_eof c"
proof (induction "length s - pos" arbitrary: pos c rule: less_induct)
  case less
  show ?case
  proof (cases "pos < length s")
    case False
    then show ?thesis by (subst read_escaped.simps) simp
  next
    case True
    show ?thesis
    proof (cases "find_from esc_seq s pos")
      case None
      then show ?thesis
        using True by (subst read_escaped.simps) (auto split: option.splits dest: find_from_consumed)
    next
      case (Some e)
      have "length s - (e + length esc_seq) < length s - pos"
        using True assms find_from_bounds [OF Some] by (cases esc_seq) auto
      note step = less [OF this]
      show ?thesis
        using True Some step
          [of "c\<lparr>io_buffer := io_buffer c @ take (e - pos) (drop pos s) @ esc_char\<rparr>"]
        by (subst read_escaped.simps) (auto split: option.splits dest: find_from_consumed)
    qed
  qed
qed

lemma scan_conditions_Cons:
  "scan_conditions c (p # conds) b =
     (if fst (match_condition c (fst p)) then (Some (snd p), b)
      else scan_conditions c conds (b \<and> snd (match_condition c (fst p))))"
  by (cases p) (simp add: split_def)

lemma scan_conditions_valid:
  "fst (scan_conditions c conds b) = None \<longleftrightarrow> (\<forall>p \<in> set conds. \<not> fst (match_condition c (fst p)))"
  by (induction conds arbitrary: b) (simp_all add: scan_conditions_Cons del: scan_conditions.simps(2))

lemma scan_conditions_invalid:
  "fst (scan_conditions c conds b) = None \<Longrightarrow>
     snd (scan_conditions c conds b) \<longleftrightarrow> b \<and> (\<forall>p \<in> set conds. snd (match_condition c (fst p)))"
  by (induction conds arbitrary: b)
    (auto simp add: scan_conditions_Cons simp del: scan_conditions.simps(2) split: if_splits)

lemma match_condition_eof: "io_eof c \<Longrightarrow> fst (match_condition c cond) \<or> snd (match_condition c cond)"
  by (cases cond) (auto split: option.splits)

lemma lookahead_ready_iff:
  "transition_lookahead_ready conds c \<longleftrightarrow>
     (\<exists>p \<in> set conds. fst (match_condition c (fst p)))
     \<or> (\<forall>p \<in> set conds. snd (match_condition c (fst p)))"
proof (cases "scan_conditions c conds True")
  case (Pair target b)
  then show ?thesis
    using scan_conditions_valid [of c conds True] scan_conditions_invalid [of c conds True]
    by (cases target) (auto simp: transition_lookahead_ready_def)
qed

interpretation read_int32: read_operation read_int32_run "\<lambda>c s. Inr (read_int32_handle_read c s)"
    read_int32_ready "\<lambda>c. length (io_buffer c) \<le> 4"
  by unfold_locales (auto simp: op_defs init_io_def io_handle_eof_def Let_def)

interpretation read_int: read_operation "\<lambda>c. fst (read_int_ascii_run e c)"
    "\<lambda>c s. Inr (read_int_ascii_handle_read c s)" read_int_ascii_ready "\<lambda>c. True" for e
  by unfold_locales
    (auto simp: op_defs Let_def init_io_def io_handle_eof_def length_takeWhile_le split: prod.splits)

interpretation read_static: read_operation "read_static_run contents"
    "\<lambda>c s. Inr (read_static_handle_read contents c s)" "read_static_ready contents" "\<lambda>c. True" for contents
  by unfold_locales (auto simp: op_defs init_io_def io_handle_eof_def)

lemma read_until_handle_ok:
  "(\<forall>ec es. escape = Some (ec, es) \<longrightarrow> es \<noteq> []) \<Longrightarrow>
    \<exists>n c'. read_until_handle_read terminator escape c s = Inr (n, c') \<and> n \<le> length s \<and> io_eof c' = io_eof c"
proof (cases escape)
  case None
  then show ?thesis
    by (auto simp: read_until_handle_read_def split: option.splits dest: find_sub_SomeD)
next
  case (Some p)
  obtain ec es where p: "p = (ec, es)" by (cases p)
  assume "\<forall>ec es. escape = Some (ec, es) \<longrightarrow> es \<noteq> []"
  then have "es \<noteq> []" using Some p by simp
  from read_escaped_Some [OF this, of terminator ec s 0 c] show ?thesis
    by (auto simp: read_until_handle_read_def Some p)
qed

interpretation terminate_list: read_operation "terminate_list_run terminator"
    "\<lambda>c s. Inr (terminate_list_handle_read terminator c s)" "terminate_list_ready terminator" "\<lambda>c. True" for terminator
  by unfold_locales (auto simp: op_defs init_io_def io_handle_eof_def Let_def split: if_splits)

text \<open>The operation that reads up to a terminator provides it when its escape sequence, if it
  has one, is not empty.\<close>

definition escape_ok :: "(octets \<times> octets) option \<Rightarrow> bool" where
  "escape_ok escape \<longleftrightarrow> (\<forall>ec es. escape = Some (ec, es) \<longrightarrow> es \<noteq> [])"

lemma read_until_contract:
  "escape_ok escape \<Longrightarrow>
     read_operation read_until_run (read_until_handle_read terminator escape) read_until_ready (\<lambda>c. True)"
  using read_until_handle_ok [of escape terminator]
  by unfold_locales (auto simp: escape_ok_def read_until_run_def read_until_ready_def)

interpretation read_until_plain: read_operation read_until_run "read_until_handle_read terminator None"
    read_until_ready "\<lambda>c. True" for terminator
  by (rule read_until_contract) (simp add: escape_ok_def)

interpretation lookahead: read_operation "transition_lookahead_run conds"
    "\<lambda>c s. Inr (transition_lookahead_handle_read c s)" "transition_lookahead_ready conds" "\<lambda>c. True" for conds
proof
  show "transition_lookahead_ready conds c" if "io_eof c" for c
    using match_condition_eof [OF that] by (fastforce simp: lookahead_ready_iff)
qed (auto simp: transition_lookahead_run_def transition_lookahead_ready_def
       transition_lookahead_handle_read_def split: prod.splits option.splits bool.splits)

end
