(* ===== verification/WriteOps.thy ===== *)
theory WriteOps
  imports ReadOps
begin

text \<open>
  The operations that write: \<open>writeint32native.cpp\<close>, \<open>writeoctets.cpp\<close>,
  \<open>writeoctetswithescape.cpp\<close> and \<open>writestaticoctets.cpp\<close>. A call fills the buffer the
  first time and then waits until every octet has been taken by \<open>handle_write\<close>. The locale
  \<open>write_operation\<close> states this for a payload; its client lemmas follow a whole sequence of
  partial writes.
\<close>

section \<open>What the four share\<close>

text \<open>The loop of \<open>handle_write\<close>: \<open>s\<close> counts down while the iterator is not at the end.\<close>

fun advance_it :: "nat \<Rightarrow> nat \<Rightarrow> nat \<Rightarrow> nat \<times> nat" where
  "advance_it end_it 0 it = (0, it)"
| "advance_it end_it (Suc s) it =
     (if it \<noteq> end_it
      then (let (consumed, it') = advance_it end_it s (Suc it) in (Suc consumed, it'))
      else (0, it))"

text \<open>The end of the call operator, from \<open>if (ctx.it != ctx.buffer.end())\<close>.\<close>

definition write_wait :: "io_ctx \<Rightarrow> op_result" where
  "write_wait c =
     (if io_it c \<noteq> length (io_buffer c)
      then (if io_eof c then mismatch else ResBlocked WaitingForWrite)
      else ResValue (VInt 0))"

definition write_get_buffer :: "io_ctx \<Rightarrow> octets" where
  "write_get_buffer c = drop (io_it c) (io_buffer c)"

section \<open>\<open>WriteInt32Native\<close>\<close>

definition octets_of_int32 :: "int32 \<Rightarrow> octets" where
  "octets_of_int32 v = map (\<lambda>i. char_of (unat (drop_bit (8 * i) v))) [0, 1, 2, 3]"

text \<open>\<open>std::get<int32_t>\<close> throws when the argument is not an integer.\<close>

definition write_int32_run :: "io_ctx \<Rightarrow> value \<Rightarrow> (op_result \<times> io_ctx) checked" where
  "write_int32_run c v =
     (if io_buffer c = [] then
        (case v of
           VInt i \<Rightarrow> let c' = c\<lparr>io_buffer := octets_of_int32 i, io_it := 0\<rparr> in Inr (write_wait c', c')
         | _ \<Rightarrow> Inl BadVariantAccess)
      else Inr (write_wait c, c))"

definition write_int32_handle_write :: "io_ctx \<Rightarrow> nat \<Rightarrow> nat \<times> io_ctx" where
  "write_int32_handle_write c s =
     (let (consumed, it) = advance_it (length (io_buffer c)) s (io_it c) in (consumed, c\<lparr>io_it := it\<rparr>))"

section \<open>\<open>WriteOctets\<close>\<close>

definition write_octets_run :: "io_ctx \<Rightarrow> value \<Rightarrow> op_result \<times> io_ctx" where
  "write_octets_run c v =
     (case v of
        VOctets s \<Rightarrow>
          (if s = [] then (ResValue (VInt 0), c)
           else
             (let c' = (if io_buffer c = [] then c\<lparr>io_buffer := s, io_it := 0\<rparr> else c) in
              (write_wait c', c')))
      | VRuntimeError e \<Rightarrow> (ResValue (VRuntimeError e), c)
      | VControlFlowInstruction i \<Rightarrow> (ResValue (VControlFlowInstruction i), c)
      | _ \<Rightarrow> (ResValue (VRuntimeError TypeError), c))"

definition write_octets_handle_write :: "io_ctx \<Rightarrow> nat \<Rightarrow> nat \<times> io_ctx" where
  "write_octets_handle_write c s =
     (let (consumed, it) = advance_it (length (io_buffer c)) s (io_it c) in (consumed, c\<lparr>io_it := it\<rparr>))"

section \<open>\<open>WriteOctetsWithEscape\<close>\<close>

text \<open>The replacement loop. An empty escape character is found at the same position for ever.\<close>

partial_function (option) apply_escape ::
  "octets \<Rightarrow> octets \<Rightarrow> octets \<Rightarrow> nat \<Rightarrow> octets \<Rightarrow> octets option" where
  "apply_escape s esc_char esc_seq pos result =
     (if pos < length s then
        (case find_from esc_char s pos of
           None \<Rightarrow> Some (result @ drop pos s)
         | Some esc_pos \<Rightarrow>
             apply_escape s esc_char esc_seq (esc_pos + length esc_char)
               (result @ take (esc_pos - pos) (drop pos s) @ esc_seq))
      else Some result)"

definition apply_escape_replacement :: "octets \<Rightarrow> octets \<Rightarrow> octets \<Rightarrow> octets checked" where
  "apply_escape_replacement s esc_char esc_seq =
     chk_the (apply_escape s esc_char esc_seq 0 []) NonTermination"

definition write_escaped_run ::
  "octets \<Rightarrow> octets \<Rightarrow> io_ctx \<Rightarrow> value \<Rightarrow> (op_result \<times> io_ctx) checked" where
  "write_escaped_run esc_char esc_seq c v =
     (case v of
        VOctets s \<Rightarrow>
          (if s = [] then Inr (ResValue (VInt 0), c)
           else if io_buffer c = [] then
             chk_bind (apply_escape_replacement s esc_char esc_seq)
               (\<lambda>b. let c' = c\<lparr>io_buffer := b, io_it := 0\<rparr> in Inr (write_wait c', c'))
           else Inr (write_wait c, c))
      | VRuntimeError e \<Rightarrow> Inr (ResValue (VRuntimeError e), c)
      | VControlFlowInstruction i \<Rightarrow> Inr (ResValue (VControlFlowInstruction i), c)
      | _ \<Rightarrow> Inr (ResValue (VRuntimeError TypeError), c))"

definition write_escaped_handle_write :: "io_ctx \<Rightarrow> nat \<Rightarrow> nat \<times> io_ctx" where
  "write_escaped_handle_write c s =
     (let (consumed, it) = advance_it (length (io_buffer c)) s (io_it c) in (consumed, c\<lparr>io_it := it\<rparr>))"

section \<open>\<open>WriteStaticOctets\<close>\<close>

definition write_static_run :: "octets \<Rightarrow> io_ctx \<Rightarrow> op_result \<times> io_ctx" where
  "write_static_run contents c =
     (let c' = (if io_buffer c = [] then c\<lparr>io_buffer := contents, io_it := 0\<rparr> else c) in
      (write_wait c', c'))"

definition write_static_handle_write :: "io_ctx \<Rightarrow> nat \<Rightarrow> nat \<times> io_ctx" where
  "write_static_handle_write c s =
     (let (consumed, it) = advance_it (length (io_buffer c)) s (io_it c) in (consumed, c\<lparr>io_it := it\<rparr>))"

lemmas write_op_defs [op_defs] =
  write_int32_run_def write_int32_handle_write_def write_octets_run_def write_octets_handle_write_def
  write_escaped_run_def write_escaped_handle_write_def write_static_run_def
  write_static_handle_write_def write_get_buffer_def

lemma advance_it_eq:
  "it \<le> end_it \<Longrightarrow> advance_it end_it s it = (min s (end_it - it), it + min s (end_it - it))"
proof (induction s arbitrary: it)
  case (Suc s)
  then show ?case by (cases "it = end_it") (auto simp: min_def)
qed simp

section \<open>The contract of a writing operation\<close>

text \<open>One round of the runner: offer the pending octets, take \<open>n\<close> of them. The octets taken and
  the context.\<close>

definition write_round :: "(io_ctx \<Rightarrow> nat \<Rightarrow> nat \<times> io_ctx) \<Rightarrow> nat \<Rightarrow> io_ctx \<Rightarrow> octets \<times> io_ctx" where
  "write_round handle n c =
     (let (k, c') = handle c n in (take k (write_get_buffer c), c'))"

primrec write_rounds :: "(io_ctx \<Rightarrow> nat \<Rightarrow> nat \<times> io_ctx) \<Rightarrow> nat list \<Rightarrow> io_ctx \<Rightarrow> octets \<times> io_ctx" where
  "write_rounds handle [] c = ([], c)"
| "write_rounds handle (n # ns) c =
     (let (out, c') = write_round handle n c; (out', c'') = write_rounds handle ns c' in (out @ out', c''))"

text \<open>
  \<open>run\<close> is the call with its argument fixed, \<open>payload\<close> what it has to send.
\<close>

locale write_operation =
  fixes run :: "io_ctx \<Rightarrow> (op_result \<times> io_ctx) checked"
    and handle_write :: "io_ctx \<Rightarrow> nat \<Rightarrow> nat \<times> io_ctx"
    and payload :: octets
  assumes payload_nonempty: "payload \<noteq> []"
    and run_fills: "io_buffer c = [] \<Longrightarrow>
          run c = (let c' = c\<lparr>io_buffer := payload, io_it := 0\<rparr> in Inr (write_wait c', c'))"
    and run_waits: "io_buffer c \<noteq> [] \<Longrightarrow> run c = Inr (write_wait c, c)"
    and handle_write_advances: "io_it c \<le> length (io_buffer c) \<Longrightarrow>
          handle_write c s = (min s (length (io_buffer c) - io_it c),
            c\<lparr>io_it := io_it c + min s (length (io_buffer c) - io_it c)\<rparr>)"
begin

definition sending :: "io_ctx \<Rightarrow> bool" where
  "sending c \<longleftrightarrow> io_buffer c = payload \<and> io_it c \<le> length payload"

lemma round_eq:
  "sending c \<Longrightarrow> write_round handle_write n c =
     (take n (drop (io_it c) payload), c\<lparr>io_it := io_it c + min n (length payload - io_it c)\<rparr>)"
  by (auto simp: write_round_def sending_def handle_write_advances write_get_buffer_def min_def)

lemma rounds_eq:
  "sending c \<Longrightarrow>
     write_rounds handle_write ns c =
       (take (sum_list ns) (drop (io_it c) payload),
        c\<lparr>io_it := io_it c + min (sum_list ns) (length payload - io_it c)\<rparr>)"
proof (induction ns arbitrary: c)
  case (Cons n ns)
  let ?c = "c\<lparr>io_it := io_it c + min n (length payload - io_it c)\<rparr>"
  have s: "sending ?c" using Cons.prems by (auto simp: sending_def)
  have out: "take n (drop (io_it c) payload) @
        take (sum_list ns) (drop (io_it c + min n (length payload - io_it c)) payload)
      = take (n + sum_list ns) (drop (io_it c) payload)"
    using Cons.prems by (cases "n \<le> length payload - io_it c") (auto simp: sending_def take_add add.commute)
  show ?case
    using Cons.IH [OF s] out Cons.prems by (simp add: round_eq sending_def)
qed simp

text \<open>The operation starts by asking to write, whatever the context's iterator was.\<close>

lemma starts:
  "io_buffer c = [] \<Longrightarrow> \<not> io_eof c \<Longrightarrow>
     \<exists>c'. run c = Inr (ResBlocked WaitingForWrite, c') \<and> sending c' \<and> io_it c' = 0"
  using payload_nonempty by (auto simp: run_fills Let_def write_wait_def sending_def)

text \<open>It is done exactly when the whole payload is out; before, it waits for the next write.\<close>

lemma after_rounds:
  assumes "sending c" and "io_it c = 0" and "\<not> io_eof c" and "write_rounds handle_write ns c = (out, c')"
  shows "out = take (sum_list ns) payload"
    and "run c' = Inr (if sum_list ns < length payload then ResBlocked WaitingForWrite else ResValue (VInt 0), c')"
proof -
  have eq: "out = take (sum_list ns) payload" "c' = c\<lparr>io_it := min (sum_list ns) (length payload)\<rparr>"
    using assms rounds_eq [OF assms(1), of ns] by auto
  from eq(1) show "out = take (sum_list ns) payload" .
  have "io_buffer c' \<noteq> []" using assms(1) eq(2) payload_nonempty by (simp add: sending_def)
  then show "run c' = Inr (if sum_list ns < length payload then ResBlocked WaitingForWrite else ResValue (VInt 0), c')"
    using assms(1,3) eq(2) by (auto simp: run_waits write_wait_def sending_def min_def)
qed

text \<open>The end of the connection while octets are pending is an error.\<close>

lemma eof_fails: "sending c \<Longrightarrow> io_it c < length payload \<Longrightarrow> run (io_handle_eof c) =
    Inr (mismatch, io_handle_eof c)"
  using payload_nonempty by (simp add: run_waits sending_def io_handle_eof_def write_wait_def)

end

interpretation write_int32: write_operation "\<lambda>c. write_int32_run c (VInt i)" write_int32_handle_write "octets_of_int32 i" for i
  by unfold_locales (auto simp: op_defs octets_of_int32_def Let_def advance_it_eq)

interpretation write_static: write_operation "\<lambda>c. Inr (write_static_run (x # xs) c)" write_static_handle_write "x # xs" for x xs
  by unfold_locales (auto simp: op_defs Let_def advance_it_eq)

interpretation write_octets: write_operation "\<lambda>c. Inr (write_octets_run c (VOctets (x # xs)))" write_octets_handle_write "x # xs" for x xs
  by unfold_locales (auto simp: op_defs Let_def advance_it_eq)

lemma write_escaped_contract:
  "apply_escape_replacement (x # xs) esc_char esc_seq = Inr b \<Longrightarrow> b \<noteq> [] \<Longrightarrow>
     write_operation (\<lambda>c. write_escaped_run esc_char esc_seq c (VOctets (x # xs))) write_escaped_handle_write b"
  by unfold_locales (auto simp: op_defs Let_def advance_it_eq)

end
