(* ===== verification/IoProps.thy ===== *)
theory IoProps
  imports WriteOps
begin

text \<open>
  What the reading and writing operations compute: the two native integer operations are
  inverse, the static string comparison, the octets up to a terminator with and without an
  escape, the decimal reader, the look-ahead.
\<close>

section \<open>Native integers\<close>

lemma octet_of_char_of: "octet_of (char_of n) = word_of_nat (n mod 256)"
  by (simp add: octet_of_def)

lemma nat_octets_sum:
  fixes n :: nat
  assumes "n < 2 ^ 32"
  shows "n mod 256 + 2 ^ 8 * (n div 2 ^ 8 mod 256) + 2 ^ 16 * (n div 2 ^ 16 mod 256)
           + 2 ^ 24 * (n div 2 ^ 24 mod 256) = n"
proof -
  have "n div 2 ^ 24 mod 256 = n div 2 ^ 24" using assms by simp
  moreover have "n mod 2 ^ 16 = n mod 2 ^ 8 + 2 ^ 8 * (n div 2 ^ 8 mod 2 ^ 8)"
    using mod_mult2_eq [of n "2 ^ 8" "2 ^ 8"] by simp
  moreover have "n mod 2 ^ 24 = n mod 2 ^ 16 + 2 ^ 16 * (n div 2 ^ 16 mod 2 ^ 8)"
    using mod_mult2_eq [of n "2 ^ 16" "2 ^ 8"] by simp
  moreover have "n = n mod 2 ^ 24 + 2 ^ 24 * (n div 2 ^ 24)" by simp
  ultimately show ?thesis by simp
qed

lemma int32_octets_roundtrip: "int32_of_octets (octets_of_int32 w) = w"
proof -
  let ?n = "unat w"
  have "?n < 2 ^ 32" using unsigned_less [of w, where 'a = nat] by simp
  from nat_octets_sum [OF this]
  have "word_of_nat (?n mod 256 + 2 ^ 8 * (?n div 2 ^ 8 mod 256) + 2 ^ 16 * (?n div 2 ^ 16 mod 256)
           + 2 ^ 24 * (?n div 2 ^ 24 mod 256)) = (word_of_nat ?n :: int32)"
    by (rule arg_cong)
  moreover have "unat (drop_bit k w) = ?n div 2 ^ k" for k
  proof -
    have "unat (drop_bit k w) = drop_bit k (unat w)"
      using unsigned_less [of w, where 'a = nat]
      by (simp only: unsigned_drop_bit_eq) (simp add: take_bit_nat_eq_self)
    then show ?thesis by (simp only: drop_bit_eq_div)
  qed
  ultimately show ?thesis
    by (simp add: int32_of_octets_def octets_of_int32_def octet_of_char_of)
qed

lemma length_octets_of_int32: "length (octets_of_int32 w) = 4"
  by (simp add: octets_of_int32_def)

text \<open>Reading in any fragments: what the buffer holds after a list of chunks.\<close>

fun feed :: "(io_ctx \<Rightarrow> octets \<Rightarrow> nat \<times> io_ctx) \<Rightarrow> octets list \<Rightarrow> io_ctx \<Rightarrow> octets \<Rightarrow> io_ctx \<times> octets" where
  "feed h [] c rest = (c, rest)"
| "feed h (s # ss) c rest = (let (n, c') = h c (rest @ s) in feed h ss c' (drop n (rest @ s)))"

lemma read_int32_handle_read_eq:
  "length (io_buffer c) \<le> 4 \<Longrightarrow> read_int32_handle_read c s =
     (min (4 - length (io_buffer c)) (length s),
      c\<lparr>io_buffer := io_buffer c @ take (4 - length (io_buffer c)) s\<rparr>)"
  by (auto simp: read_int32_handle_read_def Let_def min_def)

lemma read_int32_feed:
  "length (io_buffer c) \<le> 4 \<Longrightarrow> rest = [] \<or> length (io_buffer c) = 4 \<Longrightarrow>
     feed read_int32_handle_read ss c rest =
       (let all = io_buffer c @ rest @ concat ss in (c\<lparr>io_buffer := take 4 all\<rparr>, drop 4 all))"
proof (induction ss arbitrary: c rest)
  case Nil
  then show ?case by auto
next
  case (Cons s ss)
  let ?k = "4 - length (io_buffer c)"
  let ?c = "c\<lparr>io_buffer := io_buffer c @ take ?k (rest @ s)\<rparr>"
  have "drop (min ?k (length (rest @ s))) (rest @ s) = drop ?k (rest @ s)" by (simp add: min_def)
  moreover have "length (io_buffer ?c) \<le> 4" using Cons.prems by auto
  moreover have "drop ?k (rest @ s) = [] \<or> length (io_buffer ?c) = 4" using Cons.prems by auto
  moreover have all: "io_buffer ?c @ drop ?k (rest @ s) @ concat ss = io_buffer c @ rest @ concat (s # ss)"
    by (simp del: take_append drop_append)
  ultimately show ?case
    using Cons.IH [of ?c "drop ?k (rest @ s)"] Cons.prems(1) unfolding all
    by (simp add: read_int32_handle_read_eq Let_def del: take_append drop_append append_assoc)
qed


section \<open>Static strings\<close>

lemma strncmp_eq_prefix:
  "CHR 0x00 \<notin> set b \<Longrightarrow> length b \<le> length a \<Longrightarrow> strncmp_eq a b (length b) \<longleftrightarrow> take (length b) a = b"
proof (induction b arbitrary: a)
  case (Cons y b)
  then show ?case by (cases a) (auto simp: Let_def)
qed simp

lemma read_static_result:
  assumes "CHR 0x00 \<notin> set contents" and "length contents \<le> length s"
  shows "read_static_handle_read contents c s =
           (length contents, c\<lparr>io_buffer := take (length contents) s\<rparr>)"
    and "read_static_run contents (c\<lparr>io_buffer := take (length contents) s\<rparr>) =
           (if prefix contents s then ResValue (VBool True) else mismatch)"
proof -
  show "read_static_handle_read contents c s =
      (length contents, c\<lparr>io_buffer := take (length contents) s\<rparr>)"
    using assms(2) by (simp add: read_static_handle_read_def)
  have "take (length contents) s = contents \<longleftrightarrow> prefix contents s"
    by (metis append_eq_conv_conj prefix_def)
  then show "read_static_run contents (c\<lparr>io_buffer := take (length contents) s\<rparr>) =
      (if prefix contents s then ResValue (VBool True) else mismatch)"
    using assms strncmp_eq_prefix [OF assms(1), of "take (length contents) s"]
    by (simp add: read_static_run_def)
qed

section \<open>Octets up to a terminator\<close>

lemma find_sub_append_hd:
  assumes "p \<noteq> []" and "hd p \<notin> set payload"
  shows "find_sub p (payload @ p @ rest) = Some (length payload)"
proof (rule find_sub_SomeI)
  show "prefix p (drop (length payload) (payload @ p @ rest))" by simp
  show "\<not> prefix p (drop j (payload @ p @ rest))" if "j < length payload" for j
  proof
    assume "prefix p (drop j (payload @ p @ rest))"
    then have "hd p = hd (drop j (payload @ p @ rest))"
      using assms(1) by (auto simp: prefix_def)
    also have "\<dots> = payload ! j" using that by (simp add: hd_drop_conv_nth nth_append)
    finally show False using that assms(2) by (metis nth_mem)
  qed
qed simp

lemma read_until_plain_result:
  assumes "find_sub terminator s = Some i"
  shows "read_until_handle_read terminator None c s =
           Inr (i + length terminator, c\<lparr>io_buffer := take i s, io_ready := True\<rparr>)"
    and "read_until_run (c\<lparr>io_buffer := take i s, io_ready := True\<rparr>) = ResValue (VOctets (take i s))"
  using assms by (simp_all add: read_until_handle_read_def read_until_run_def)

text \<open>Without an escape the result does not depend on how the octets arrive: as long as the
  terminator is not there nothing is consumed and the context is unchanged.\<close>

lemma read_until_plain_waits:
  "\<not> sublist terminator s \<Longrightarrow> read_until_handle_read terminator None c s = Inr (0, c)"
  using find_sub_eq_None_iff [of terminator s] by (simp add: read_until_handle_read_def)

section \<open>Escapes\<close>

text \<open>The replacement as a function of what remains of the text.\<close>

lemma find_from_drop:
  "pos \<le> length s \<Longrightarrow> find_from p s pos = map_option (\<lambda>i. pos + i) (find_sub p (drop pos s))"
  by (simp add: find_from_def)

lemma apply_escape_done:
  "find_sub esc_char (drop pos s) = None \<Longrightarrow> pos \<le> length s \<Longrightarrow>
     apply_escape s esc_char esc_seq pos result = Some (result @ drop pos s)"
  by (subst apply_escape.simps) (simp add: find_from_drop)

lemma apply_escape_step:
  "find_sub esc_char (drop pos s) = Some i \<Longrightarrow> pos < length s \<Longrightarrow>
     apply_escape s esc_char esc_seq pos result =
       apply_escape s esc_char esc_seq (pos + i + length esc_char) (result @ take i (drop pos s) @ esc_seq)"
  by (subst apply_escape.simps) (simp add: find_from_drop)

text \<open>\<open>escapes esc_char esc_seq p w\<close>: \<open>w\<close> is \<open>p\<close> with every escape character, found from the
  left, replaced.\<close>

inductive escapes :: "octets \<Rightarrow> octets \<Rightarrow> octets \<Rightarrow> octets \<Rightarrow> bool" for esc_char esc_seq where
  escapes_last: "find_sub esc_char p = None \<Longrightarrow> escapes esc_char esc_seq p p"
| escapes_empty: "escapes esc_char esc_seq [] []"
| escapes_char: "find_sub esc_char p = Some i \<Longrightarrow> p \<noteq> [] \<Longrightarrow> escapes esc_char esc_seq (drop (i + length esc_char) p) w \<Longrightarrow>
    escapes esc_char esc_seq p (take i p @ esc_seq @ w)"

lemma apply_escape_escapes:
  assumes "esc_char \<noteq> []" and "pos \<le> length s"
  shows "\<exists>w. apply_escape s esc_char esc_seq pos result = Some (result @ w)
           \<and> escapes esc_char esc_seq (drop pos s) w"
  using assms(2)
proof (induction "length s - pos" arbitrary: pos result rule: less_induct)
  case less
  show ?case
  proof (cases "find_sub esc_char (drop pos s)")
    case None
    with less.prems show ?thesis by (auto simp: apply_escape_done intro: escapes_last)
  next
    case (Some i)
    from find_sub_SomeD [OF this] have b: "i + length esc_char \<le> length s - pos" by simp
    with assms(1) have pos: "pos < length s" by (cases "length s - pos") auto
    have "length s - (pos + i + length esc_char) < length s - pos"
      using assms(1) pos by (cases esc_char) auto
    moreover have "pos + i + length esc_char \<le> length s" using b pos by simp
    ultimately obtain w where
      "apply_escape s esc_char esc_seq (pos + i + length esc_char) (result @ take i (drop pos s) @ esc_seq)
         = Some ((result @ take i (drop pos s) @ esc_seq) @ w)"
      and w: "escapes esc_char esc_seq (drop (pos + i + length esc_char) s) w"
      using less.hyps [of "pos + i + length esc_char" "result @ take i (drop pos s) @ esc_seq"] by blast
    moreover have "escapes esc_char esc_seq (drop pos s) (take i (drop pos s) @ esc_seq @ w)"
      using Some w pos by (intro escapes_char) (simp_all add: add.commute add.left_commute)
    ultimately show ?thesis using apply_escape_step [OF Some pos, of esc_seq result] by auto
  qed
qed

lemma apply_escape_replacement_escapes:
  assumes "esc_char \<noteq> []"
  shows "\<exists>w. apply_escape_replacement s esc_char esc_seq = Inr w \<and> escapes esc_char esc_seq s w"
  using apply_escape_escapes [OF assms, of 0 s esc_seq "[]"] by (auto simp: apply_escape_replacement_def)


lemma find_sub_hd_ge:
  assumes "p \<noteq> []" and "hd p \<notin> set payload" and "find_sub p (payload @ r) = Some j"
  shows "length payload \<le> j"
proof (rule ccontr)
  assume "\<not> length payload \<le> j"
  then have j: "j < length payload" by simp
  have "prefix p (drop j (payload @ r))" using find_sub_SomeD [OF assms(3)] by simp
  then have "hd p = hd (drop j (payload @ r))" using assms(1) by (auto simp: prefix_def)
  also have "\<dots> = payload ! j" using j by (simp add: hd_drop_conv_nth nth_append)
  finally show False using j assms(2) by (metis nth_mem)
qed

text \<open>One turn of the reading loop, seen from the remaining input.\<close>

lemma read_escaped_terminator:
  assumes "pos < length s" and "find_sub terminator (drop pos s) = Some i"
    and "\<And>e. find_sub esc_seq (drop pos s) = Some e \<Longrightarrow> i < e"
  shows "read_escaped terminator esc_char esc_seq s pos c =
    Some (pos + i + length terminator, c\<lparr>io_buffer := io_buffer c @ take i (drop pos s), io_ready := True\<rparr>)"
  using assms
  by (subst read_escaped.simps) (auto simp: find_from_drop split: option.splits)

lemma read_escaped_escape:
  assumes "pos < length s" and "find_sub esc_seq (drop pos s) = Some e"
    and "\<And>i. find_sub terminator (drop pos s) = Some i \<Longrightarrow> e \<le> i"
  shows "read_escaped terminator esc_char esc_seq s pos c =
    read_escaped terminator esc_char esc_seq s (pos + e + length esc_seq)
      (c\<lparr>io_buffer := io_buffer c @ take e (drop pos s) @ esc_char\<rparr>)"
  using assms
  by (subst read_escaped.simps) (auto simp: find_from_drop split: option.splits)

lemma read_escaped_nothing:
  assumes "find_sub esc_seq (drop pos s) = None" and "find_sub terminator (drop pos s) = None"
  shows "read_escaped terminator esc_char esc_seq s pos c = Some (0, c)"
  using assms
  by (subst read_escaped.simps) (auto simp: find_from_drop split: option.splits)

lemma read_escaped_wire:
  assumes "escapes esc_char esc_seq payload w"
    and "terminator \<noteq> []" and "esc_seq \<noteq> []" and "\<not> prefix esc_seq (terminator @ rest)"
  shows "hd terminator \<notin> set payload \<Longrightarrow> hd esc_seq \<notin> set payload \<Longrightarrow>
     drop pos s = w @ terminator @ rest \<Longrightarrow>
     read_escaped terminator esc_char esc_seq s pos c =
       Some (pos + length w + length terminator, c\<lparr>io_buffer := io_buffer c @ payload, io_ready := True\<rparr>)"
  using assms(1)
proof (induction arbitrary: pos c rule: escapes.induct)
  case (escapes_last p)
  have pos: "pos < length s" using escapes_last.prems(3) assms(2) by (cases "pos < length s") auto
  have "length p < e" if e: "find_sub esc_seq (drop pos s) = Some e" for e
  proof -
    have "length p \<le> e"
      using find_sub_hd_ge [OF assms(3) escapes_last.prems(2)] e escapes_last.prems(3) by simp
    moreover have "e \<noteq> length p"
      using find_sub_SomeD [OF e] escapes_last.prems(3) assms(4) by auto
    ultimately show ?thesis by simp
  qed
  then show ?case
    using read_escaped_terminator [OF pos, of terminator "length p" esc_seq esc_char c]
      find_sub_append_hd [OF assms(2) escapes_last.prems(1)] escapes_last.prems(3) by simp
next
  case escapes_empty
  have pos: "pos < length s" using escapes_empty.prems(3) assms(2) by (cases "pos < length s") auto
  have "0 < e" if e: "find_sub esc_seq (drop pos s) = Some e" for e
    using find_sub_SomeD [OF e] escapes_empty.prems(3) assms(4) by (cases e) auto
  then show ?case
    using read_escaped_terminator [OF pos, of terminator 0 esc_seq esc_char c]
      find_sub_prefix [of terminator "terminator @ rest"] escapes_empty.prems(3) by simp
next
  case (escapes_char p i w)
  note d = escapes_char.prems(3)
  have pos: "pos < length s" using d assms(2) by (cases "pos < length s") auto
  have i: "i + length esc_char \<le> length p" "prefix esc_char (drop i p)"
    using find_sub_SomeD [OF escapes_char.hyps(1)] by auto
  let ?q = "take i p"
  have hds: "hd esc_seq \<notin> set ?q" "hd terminator \<notin> set ?q"
    using escapes_char.prems(1,2) by (auto dest: in_set_takeD)
  have e: "find_sub esc_seq (drop pos s) = Some i"
    using find_sub_append_hd [OF assms(3) hds(1)] d i(1) by (simp add: min_def)
  have len: "length ?q = i" using i(1) by simp
  have t: "i \<le> j" if "find_sub terminator (drop pos s) = Some j" for j
    using find_sub_hd_ge [OF assms(2) hds(2), of "esc_seq @ w @ terminator @ rest" j] that d
    by (simp add: len del: length_take)
  have rest: "drop (pos + i + length esc_seq) s = w @ terminator @ rest"
    using arg_cong [OF d, of "drop (i + length esc_seq)"] i(1) by (simp add: add.commute add.left_commute)
  have "p = ?q @ esc_char @ drop (i + length esc_char) p"
    by (rule find_sub_split [OF escapes_char.hyps(1)])
  moreover have "take i (drop pos s) = ?q" using d i(1) by simp
  moreover have "hd terminator \<notin> set (drop (i + length esc_char) p)" "hd esc_seq \<notin> set (drop (i + length esc_char) p)"
    using escapes_char.prems(1,2) by (auto dest: in_set_dropD)
  ultimately show ?case
    using read_escaped_escape [OF pos e t, where esc_char = esc_char and c = c] i(1)
      escapes_char.IH [OF _ _ rest, of "c\<lparr>io_buffer := io_buffer c @ ?q @ esc_char\<rparr>"]
    by simp
qed

text \<open>Writing with an escape and reading with the same escape are inverse when the text holds
  neither the first octet of the terminator nor that of the escape sequence.\<close>

lemma escape_roundtrip_wire:
  assumes "esc_char \<noteq> []" and "terminator \<noteq> []" and "esc_seq \<noteq> []"
    and "hd terminator \<notin> set payload" and "hd esc_seq \<notin> set payload"
    and "\<not> prefix esc_seq (terminator @ rest)"
  shows "\<exists>w. apply_escape_replacement payload esc_char esc_seq = Inr w
     \<and> read_until_handle_read terminator (Some (esc_char, esc_seq)) init_io (w @ terminator @ rest)
         = Inr (length w + length terminator, init_io\<lparr>io_buffer := payload, io_ready := True\<rparr>)"
proof -
  from apply_escape_replacement_escapes [OF assms(1)] obtain w where
    w: "apply_escape_replacement payload esc_char esc_seq = Inr w" "escapes esc_char esc_seq payload w"
    by blast
  from read_escaped_wire [OF w(2) assms(2,3,6,4,5), of 0 "w @ terminator @ rest" init_io] w(1)
  show ?thesis by (simp add: read_until_handle_read_def init_io_def)
qed


section \<open>Decimal integers\<close>

lemma is_digit_char: "d < 10 \<Longrightarrow> is_digit (digit_char d)"
  by (simp add: is_digit_def digit_char_def less_eq_char_def)

lemma decimal_nat_digits: "\<forall>c \<in> set (decimal_nat n). is_digit c"
proof (induction n rule: decimal_nat.induct)
  case (1 n)
  then show ?case
    by (cases "n < 10") (auto simp: decimal_nat.simps [of n] is_digit_char)
qed

lemma is_digit_not_special:
  "is_digit c \<Longrightarrow> c \<noteq> CHR 0x00 \<and> \<not> is_space c \<and> c \<noteq> CHR ''-'' \<and> c \<noteq> CHR ''+''"
  by (auto simp: is_digit_def is_space_def less_eq_char_def)

lemma strtol_10_digits:
  assumes "\<forall>c \<in> set ds. is_digit c" and "digits_value ds < 2 ^ 63"
  shows "strtol_10 ds = (int (digits_value ds), False)"
proof -
  have c: "c_str ds = ds"
    using assms(1) is_digit_not_special by (auto simp: c_str_def takeWhile_eq_all_conv)
  have s: "dropWhile is_space ds = ds"
    using assms(1) is_digit_not_special by (cases ds) auto
  have sign: "(case ds of c # t \<Rightarrow> if c = CHR ''-'' then (True, t) else if c = CHR ''+'' then (False, t) else (False, ds)
           | [] \<Rightarrow> (False, [])) = (False, ds)"
    using assms(1) is_digit_not_special by (cases ds) auto
  have t: "takeWhile is_digit ds = ds" using assms(1) by (simp add: takeWhile_eq_all_conv)
  have "int (digits_value ds) < 2 ^ 63" using assms(2) by simp
  then show ?thesis
    by (simp add: strtol_10_def c s sign t)
qed

lemma scanned_digit_eq: "scanned_digit c \<longleftrightarrow> is_digit c \<and> c \<noteq> CHR ''9''"
  by (auto simp: scanned_digit_def is_digit_def)

lemma read_int_ascii_consumes:
  assumes "\<forall>c \<in> set ds. is_digit c \<and> c \<noteq> CHR ''9''" and "\<not> scanned_digit x"
  shows "read_int_ascii_handle_read c (ds @ x # rest) =
    (length ds, c\<lparr>io_buffer := ds, io_ready := True\<rparr>)"
proof -
  have "takeWhile scanned_digit (ds @ x # rest) = ds"
    using assms by (simp add: scanned_digit_eq takeWhile_append2 cong: takeWhile_cong)
  then show ?thesis by (simp add: read_int_ascii_handle_read_def)
qed

lemma decimal_nat_0: "decimal_nat 0 = ''0''"
  by code_simp

lemma read_int_ascii_decimal:
  assumes "n < 2 ^ 31"
  shows "read_int_ascii_run False (c\<lparr>io_buffer := decimal_nat n, io_ready := True\<rparr>) =
    (ResValue (VInt (word_of_nat n)), False)"
proof (cases "decimal_nat n = ''0''")
  case True
  have "n = digits_value (decimal_nat n)" by (simp add: decimal_nat_value)
  also have "\<dots> = 0" by (simp add: True digits_value_def digit_value_def)
  finally have "n = 0" .
  moreover have "read_int_ascii_run False (c\<lparr>io_buffer := ''0'', io_ready := True\<rparr>) = (ResValue (VInt 0), False)"
    by (simp add: read_int_ascii_run_def)
  ultimately show ?thesis using True by simp
next
  case False
  have "n \<noteq> 0" using False decimal_nat_0 by (cases n) auto
  moreover have "strtol_10 (decimal_nat n) = (int n, False)"
    using strtol_10_digits [OF decimal_nat_digits, of n] assms by (simp add: decimal_nat_value)
  moreover have "int n \<le> 2 ^ 31 - 1" using assms by simp
  ultimately show ?thesis using False by (simp add: read_int_ascii_run_def)
qed

section \<open>The look-ahead\<close>

definition valid_targets :: "io_ctx \<Rightarrow> (transition_condition \<times> string) list \<Rightarrow> string set" where
  "valid_targets c conds = snd ` {p \<in> set conds. fst (match_condition c (fst p))}"

lemma scan_conditions_target:
  "fst (scan_conditions c conds b) = Some t \<Longrightarrow> t \<in> valid_targets c conds"
  by (induction conds arbitrary: b)
    (auto simp add: scan_conditions_Cons valid_targets_def simp del: scan_conditions.simps(2) split: if_splits)

lemma lookahead_cases:
  "(\<exists>t \<in> valid_targets c conds. transition_lookahead_run conds c = ResValue (VOctets t))
   \<or> valid_targets c conds = {} \<and> transition_lookahead_run conds c =
       (if \<forall>p \<in> set conds. snd (match_condition c (fst p)) then mismatch else ResBlocked WaitingForRead)"
proof (cases "scan_conditions c conds True")
  case (Pair target b)
  show ?thesis
  proof (cases target)
    case None
    then have "valid_targets c conds = {}"
      using Pair scan_conditions_valid [of c conds True] by (auto simp: valid_targets_def)
    moreover have "b \<longleftrightarrow> (\<forall>p \<in> set conds. snd (match_condition c (fst p)))"
      using Pair None scan_conditions_invalid [of c conds True] by simp
    ultimately show ?thesis
      using Pair None by (cases b) (auto simp: transition_lookahead_run_def)
  next
    case (Some t)
    then show ?thesis
      using Pair scan_conditions_target [of c conds True t] by (auto simp: transition_lookahead_run_def)
  qed
qed

text \<open>When the valid conditions agree on the target, the order of the conditions, which is the
  iteration order of a hash map, does not matter.\<close>

lemma lookahead_order:
  assumes "set conds' = set conds" and "\<And>t u. t \<in> valid_targets c conds \<Longrightarrow> u \<in> valid_targets c conds \<Longrightarrow> t = u"
  shows "transition_lookahead_run conds' c = transition_lookahead_run conds c"
proof -
  have v: "valid_targets c conds' = valid_targets c conds" by (simp add: valid_targets_def assms(1))
  from lookahead_cases [of c conds] lookahead_cases [of c conds'] show ?thesis
    unfolding v assms(1) using assms(2) by auto
qed

end
