(* ===== verification/ControlFlow.thy ===== *)
theory ControlFlow
  imports PureOps
begin

text \<open>
  The operations that call callables and the one that calls back into the program:
  \<open>functioncall.cpp\<close>, \<open>functioncallforeach.cpp\<close>, \<open>generatelist.cpp\<close>, \<open>if.cpp\<close>,
  \<open>statemachineoperation.cpp\<close> and \<open>unarycallback.cpp\<close>. A call operator either answers or
  says why it is blocked, and updates its context; the interpreter invokes the callable the
  context names and hands the result back. The locale \<open>control_flow_operation\<close> is that
  protocol.
\<close>

section \<open>Contexts\<close>

datatype processing_mode = ModeTransition | ModeState

record processing_info =
  pi_mode :: processing_mode
  pi_from_state :: "(string \<times> state_info) option"
  pi_transition :: "(string \<times> transition_info) option"
  pi_to_state :: "string \<times> state_info"

text \<open>\<open>None\<close> stands for an empty \<open>optional\<close>, a null pointer, an empty \<open>any\<close>.\<close>

record control_flow_ctx =
  cf_callable :: "value option"
  cf_value :: "value option"
  cf_arglist :: "value list option"
  cf_accumulator :: "value list option"
  cf_callable_invoked :: bool
  cf_info :: "processing_info option"

definition init_control_flow :: control_flow_ctx where
  "init_control_flow = \<lparr>cf_callable = None, cf_value = None, cf_arglist = None,
     cf_accumulator = None, cf_callable_invoked = False, cf_info = None\<rparr>"

record callback_ctx =
  cb_value :: "value option"
  cb_callback_called :: bool

definition init_callback :: callback_ctx where
  "init_callback = \<lparr>cb_value = None, cb_callback_called = False\<rparr>"

type_synonym cf_result = "(op_result \<times> control_flow_ctx) checked"

section \<open>\<open>UnaryCallback\<close>\<close>

definition unary_callback_run :: "callback_ctx \<Rightarrow> op_result" where
  "unary_callback_run c =
     (if \<not> cb_callback_called c then ResBlocked WaitingForCallback
      else (case cb_value c of
          None \<Rightarrow> ResBlocked WaitingCallbackData
        | Some v \<Rightarrow> ResValue v))"

definition unary_callback_set_return :: "callback_ctx \<Rightarrow> value \<Rightarrow> callback_ctx" where
  "unary_callback_set_return c v = c\<lparr>cb_value := Some v\<rparr>"

definition unary_callback_set_called :: "callback_ctx \<Rightarrow> callback_ctx" where
  "unary_callback_set_called c = c\<lparr>cb_callback_called := True\<rparr>"

section \<open>What the control flow operations share\<close>

text \<open>\<open>get_callable\<close>, \<open>set_callable_invoked\<close> and \<open>set_callable_return\<close> are the same code
  in all five.\<close>

definition cf_get_callable :: "control_flow_ctx \<Rightarrow> value checked" where
  "cf_get_callable c = chk_the (cf_callable c) AssertionFailed"

definition cf_set_callable_invoked :: "control_flow_ctx \<Rightarrow> control_flow_ctx" where
  "cf_set_callable_invoked c = c\<lparr>cf_callable_invoked := True\<rparr>"

definition cf_set_callable_return :: "control_flow_ctx \<Rightarrow> value \<Rightarrow> control_flow_ctx" where
  "cf_set_callable_return c v = c\<lparr>cf_value := Some v\<rparr>"

section \<open>\<open>FunctionCall\<close>\<close>

definition function_call :: "control_flow_ctx \<Rightarrow> value \<Rightarrow> value \<Rightarrow> op_result \<times> control_flow_ctx" where
  "function_call c f args =
     (case (f, args) of
        (VCallable k, VDynamicList vs) \<Rightarrow>
          (ResBlocked WaitingForCallableInvocation,
           c\<lparr>cf_callable := Some (VCallable k), cf_arglist := Some vs\<rparr>)
      | (VCallable k, VRuntimeError e) \<Rightarrow> (ResValue (VRuntimeError e), c)
      | _ \<Rightarrow> (ResValue (VRuntimeError TypeError), c))"

definition function_call_run :: "control_flow_ctx \<Rightarrow> value \<Rightarrow> value \<Rightarrow> cf_result" where
  "function_call_run c f args =
     (case cf_callable c of
        Some k \<Rightarrow>
          (if cf_callable_invoked c then
             (case cf_value c of
                Some v \<Rightarrow> Inr (ResValue v, c)
              | None \<Rightarrow> Inr (ResBlocked WaitingForCallableResult, c))
           else Inr (ResBlocked WaitingForCallableInvocation, c))
      | None \<Rightarrow> Inr (function_call c f args))"

definition function_call_argument_list :: "control_flow_ctx \<Rightarrow> value list option checked" where
  "function_call_argument_list c = Inr (cf_arglist c)"

section \<open>\<open>FunctionCallForEach\<close>\<close>

text \<open>
  The overload for a callable and any other value visits the value and calls again; the
  overload for the remaining alternatives is declared after it and is not found there, so
  that the call goes back to the same overload.
\<close>

definition function_call_for_each :: "control_flow_ctx \<Rightarrow> value \<Rightarrow> value \<Rightarrow> cf_result" where
  "function_call_for_each c f args =
     (case (f, args) of
        (VCallable k, VDynamicList vs) \<Rightarrow>
          Inr (ResBlocked WaitingForCallableInvocation,
           c\<lparr>cf_callable := Some (VCallable k), cf_arglist := Some vs, cf_accumulator := Some []\<rparr>)
      | (VCallable k, _) \<Rightarrow> Inl NonTermination
      | _ \<Rightarrow> Inr (ResValue (VRuntimeError TypeError), c))"

definition function_call_for_each_run :: "control_flow_ctx \<Rightarrow> value \<Rightarrow> value \<Rightarrow> cf_result" where
  "function_call_for_each_run c f args =
     (case cf_callable c of
        Some k \<Rightarrow>
          (if cf_callable_invoked c then
             (case cf_value c of
                Some v \<Rightarrow>
                  chk_bind (chk_the (cf_accumulator c) NullDereference) (\<lambda>acc.
                  chk_bind (chk_the (cf_arglist c) NullDereference) (\<lambda>vs.
                    let c' = c\<lparr>cf_accumulator := Some (acc @ [v])\<rparr> in
                    if length (acc @ [v]) < length vs
                    then Inr (ResBlocked WaitingForCallableInvocation,
                           c'\<lparr>cf_value := None, cf_callable_invoked := False\<rparr>)
                    else Inr (ResValue (VDynamicList (acc @ [v])), c')))
              | None \<Rightarrow> Inr (ResBlocked WaitingForCallableResult, c))
           else Inr (ResBlocked WaitingForCallableInvocation, c))
      | None \<Rightarrow> function_call_for_each c f args)"

definition function_call_for_each_argument_list ::
  "bool \<Rightarrow> control_flow_ctx \<Rightarrow> value list option checked" where
  "function_call_for_each_argument_list element_is_single_argument c =
     chk_bind (chk_the (cf_arglist c) NullDereference) (\<lambda>vs.
     chk_bind (chk_the (cf_accumulator c) NullDereference) (\<lambda>acc.
     chk_bind (if length acc < length vs then Inr (vs ! length acc) else Inl OutOfRange) (\<lambda>v.
       if element_is_single_argument then Inr (Some [v])
       else (case v of VDynamicList ws \<Rightarrow> Inr (Some ws) | _ \<Rightarrow> Inl BadVariantAccess))))"

section \<open>\<open>GenerateList\<close>\<close>

definition generate_list :: "control_flow_ctx \<Rightarrow> value \<Rightarrow> op_result \<times> control_flow_ctx" where
  "generate_list c f =
     (case f of
        VCallable k \<Rightarrow>
          (ResBlocked WaitingForCallableInvocation,
           c\<lparr>cf_callable := Some (VCallable k), cf_accumulator := Some []\<rparr>)
      | _ \<Rightarrow> (ResValue (VRuntimeError TypeError), c))"

definition generate_list_run :: "control_flow_ctx \<Rightarrow> value \<Rightarrow> cf_result" where
  "generate_list_run c f =
     (case cf_callable c of
        Some k \<Rightarrow>
          (if cf_callable_invoked c then
             (case cf_value c of
                Some v \<Rightarrow>
                  (case v of
                     VControlFlowInstruction InterruptGenerator \<Rightarrow>
                       chk_bind (chk_the (cf_accumulator c) NullDereference) (\<lambda>acc.
                         Inr (ResValue (VDynamicList acc), c))
                   | VRuntimeError e \<Rightarrow> Inr (ResValue (VRuntimeError e), c)
                   | _ \<Rightarrow>
                       chk_bind (chk_the (cf_accumulator c) NullDereference) (\<lambda>acc.
                         Inr (ResBlocked WaitingForCallableInvocation,
                           c\<lparr>cf_accumulator := Some (acc @ [v]), cf_callable_invoked := False, cf_value := None\<rparr>)))
              | None \<Rightarrow> Inr (ResBlocked WaitingForCallableResult, c))
           else Inr (ResBlocked WaitingForCallableInvocation, c))
      | None \<Rightarrow> Inr (generate_list c f))"

definition generate_list_argument_list :: "control_flow_ctx \<Rightarrow> value list option checked" where
  "generate_list_argument_list c = Inr (cf_arglist c)"

section \<open>\<open>If\<close>\<close>

text \<open>
  The overloads, in the order resolution finds them: a boolean condition looks at the first
  branch, a callable first branch looks at the second; an error or control value that is
  reached is the result, anything else is a type error.
\<close>

definition if_branches :: "control_flow_ctx \<Rightarrow> value \<Rightarrow> value \<Rightarrow> value \<Rightarrow> op_result \<times> control_flow_ctx" where
  "if_branches c cond th el =
     (case cond of
        VBool b \<Rightarrow>
          (case th of
             VCallable t \<Rightarrow>
               (case el of
                  VCallable e \<Rightarrow>
                    (ResBlocked WaitingForCallableInvocation,
                     c\<lparr>cf_callable := Some (VCallable (if b then t else e))\<rparr>)
                | VRuntimeError r \<Rightarrow> (ResValue (VRuntimeError r), c)
                | VControlFlowInstruction r \<Rightarrow> (ResValue (VControlFlowInstruction r), c)
                | _ \<Rightarrow> (ResValue (VRuntimeError TypeError), c))
           | VRuntimeError r \<Rightarrow> (ResValue (VRuntimeError r), c)
           | VControlFlowInstruction r \<Rightarrow> (ResValue (VControlFlowInstruction r), c)
           | _ \<Rightarrow> (ResValue (VRuntimeError TypeError), c))
      | VRuntimeError r \<Rightarrow> (ResValue (VRuntimeError r), c)
      | VControlFlowInstruction r \<Rightarrow> (ResValue (VControlFlowInstruction r), c)
      | _ \<Rightarrow> (ResValue (VRuntimeError TypeError), c))"

definition if_run :: "control_flow_ctx \<Rightarrow> value \<Rightarrow> value \<Rightarrow> value \<Rightarrow> cf_result" where
  "if_run c cond th el =
     (case cf_callable c of
        Some k \<Rightarrow>
          (if cf_callable_invoked c then
             (case cf_value c of
                Some v \<Rightarrow> Inr (ResValue v, c)
              | None \<Rightarrow> Inr (ResBlocked WaitingForCallableResult, c))
           else Inr (ResBlocked WaitingForCallableInvocation, c))
      | None \<Rightarrow> Inr (if_branches c cond th el))"

definition if_argument_list :: "control_flow_ctx \<Rightarrow> value list option checked" where
  "if_argument_list c = Inr (cf_arglist c)"


section \<open>\<open>StateMachineOperation\<close>\<close>

definition start_state_callback :: "control_flow_ctx \<Rightarrow> cf_result" where
  "start_state_callback c =
     chk_bind (chk_the (cf_info c) BadAnyCast) (\<lambda>info.
       let s = snd (pi_to_state info) in
       Inr (ResBlocked WaitingForCallableInvocation,
         c\<lparr>cf_callable := Some (VCallable (Callable (si_callback_optree s) [''dictionary''] True)),
           cf_value := None,
           cf_info := Some (info\<lparr>pi_mode := ModeState\<rparr>)\<rparr>))"

definition start_transition_callback :: "control_flow_ctx \<Rightarrow> cf_result" where
  "start_transition_callback c =
     chk_bind (chk_the (cf_info c) BadAnyCast) (\<lambda>info.
     chk_bind (chk_the (pi_transition info) AssertionFailed) (\<lambda>tp.
       let t = snd tp in
       Inr (ResBlocked WaitingForCallableInvocation,
         c\<lparr>cf_callable := Some (VCallable (Callable (ti_callback_optree t) (ti_argument_names t) True)),
           cf_value := None,
           cf_info := Some (info\<lparr>pi_mode := ModeTransition\<rparr>)\<rparr>)))"

text \<open>A member that is missing is \<open>false\<close>.\<close>

definition extract_arguments :: "string list \<Rightarrow> dictionary \<Rightarrow> value list" where
  "extract_arguments names d =
     map (\<lambda>n. case d n of None \<Rightarrow> VBool False | Some v \<Rightarrow> v) names"

definition process_state_return_with_args ::
  "control_flow_ctx \<Rightarrow> state_map \<Rightarrow> value \<Rightarrow> value \<Rightarrow> cf_result" where
  "process_state_return_with_args c states t d =
     (case (t, d) of
        (VOctets name, VDictionary dict) \<Rightarrow>
          chk_bind (chk_the (cf_info c) BadAnyCast) (\<lambda>info.
            if fst (pi_to_state info) = ''Closed'' then Inr (ResValue (VDictionary dict), c)
            else
              let s = snd (pi_to_state info);
                  info' = info\<lparr>pi_from_state := Some (pi_to_state info)\<rparr>;
                  c' = c\<lparr>cf_info := Some info'\<rparr> in
              (case map_of (si_transitions s) name of
                 None \<Rightarrow> Inr (ResValue (VRuntimeError NameError), c')
               | Some tr \<Rightarrow>
                   (case map_of states (ti_target_state tr) of
                      None \<Rightarrow> Inr (ResValue (VRuntimeError NameError), c')
                    | Some target \<Rightarrow>
                        start_transition_callback
                          (c'\<lparr>cf_accumulator := Some (extract_arguments (ti_argument_names tr) dict),
                            cf_info := Some (info'\<lparr>pi_transition := Some (name, tr),
                              pi_to_state := (ti_target_state tr, target)\<rparr>)\<rparr>))))
      | _ \<Rightarrow> Inr (ResValue (VRuntimeError TypeError), c))"

definition process_state_return :: "control_flow_ctx \<Rightarrow> state_map \<Rightarrow> cf_result" where
  "process_state_return c states =
     chk_bind (chk_the (cf_value c) AssertionFailed) (\<lambda>v.
       case v of
         VDynamicList vs \<Rightarrow>
           (case vs of
              [t, d] \<Rightarrow> process_state_return_with_args c states t d
            | _ \<Rightarrow> Inr (ResValue (VRuntimeError TypeError), c))
       | VRuntimeError e \<Rightarrow> Inr (ResValue (VRuntimeError e), c)
       | _ \<Rightarrow> Inr (ResValue (VRuntimeError TypeError), c))"

definition process_transition_return_with_args :: "control_flow_ctx \<Rightarrow> value \<Rightarrow> cf_result" where
  "process_transition_return_with_args c v =
     (case v of
        VDictionary d \<Rightarrow> start_state_callback (c\<lparr>cf_accumulator := Some [VDictionary d]\<rparr>)
      | VRuntimeError e \<Rightarrow> Inr (ResValue (VRuntimeError e), c)
      | _ \<Rightarrow> Inr (ResValue (VRuntimeError TypeError), c))"

definition process_transition_return :: "control_flow_ctx \<Rightarrow> cf_result" where
  "process_transition_return c =
     chk_bind (chk_the (cf_value c) AssertionFailed) (\<lambda>v.
       case v of
         VDynamicList vs \<Rightarrow>
           (case vs of
              [w] \<Rightarrow> process_transition_return_with_args c w
            | _ \<Rightarrow> Inr (ResValue (VRuntimeError TypeError), c))
       | VRuntimeError e \<Rightarrow> Inr (ResValue (VRuntimeError e), c)
       | _ \<Rightarrow> Inr (ResValue (VRuntimeError TypeError), c))"

definition state_machine_run :: "state_map \<Rightarrow> control_flow_ctx \<Rightarrow> cf_result" where
  "state_machine_run states c =
     (case cf_callable c of
        Some k \<Rightarrow>
          (if cf_callable_invoked c then
             (case cf_value c of
                Some v \<Rightarrow>
                  chk_bind (chk_the (cf_info c) BadAnyCast) (\<lambda>info.
                    if pi_mode info = ModeTransition then
                      (case pi_transition info of
                         None \<Rightarrow> Inr (ResValue (VRuntimeError NameError), c)
                       | Some t \<Rightarrow> process_transition_return c)
                    else process_state_return c states)
              | None \<Rightarrow> Inr (ResBlocked WaitingForCallableResult, c))
           else Inr (ResBlocked WaitingForCallableInvocation, c))
      | None \<Rightarrow>
          (case map_of states ''Open'' of
             None \<Rightarrow> Inr (ResValue (VRuntimeError NameError), c)
           | Some s \<Rightarrow>
               start_state_callback
                 (c\<lparr>cf_accumulator := Some [VDictionary Map.empty],
                   cf_info := Some \<lparr>pi_mode = ModeTransition, pi_from_state = None,
                     pi_transition = None, pi_to_state = (''Open'', s)\<rparr>\<rparr>)))"

definition state_machine_argument_list :: "control_flow_ctx \<Rightarrow> value list option checked" where
  "state_machine_argument_list c = Inr (cf_accumulator c)"

lemmas control_flow_defs [op_defs] =
  unary_callback_run_def unary_callback_set_return_def unary_callback_set_called_def
  cf_get_callable_def cf_set_callable_invoked_def cf_set_callable_return_def
  function_call_def function_call_run_def function_call_argument_list_def
  function_call_for_each_def function_call_for_each_run_def function_call_for_each_argument_list_def
  generate_list_def generate_list_run_def generate_list_argument_list_def
  if_branches_def if_run_def if_argument_list_def
  start_state_callback_def start_transition_callback_def process_state_return_with_args_def
  process_state_return_def process_transition_return_with_args_def process_transition_return_def
  state_machine_run_def state_machine_argument_list_def


section \<open>The protocol between the interpreter and a control flow operation\<close>

definition wf_processing_info :: "processing_info \<Rightarrow> bool" where
  "wf_processing_info i \<longleftrightarrow> wf_state_info (snd (pi_to_state i))
     \<and> (\<forall>t. pi_transition i = Some t \<longrightarrow> wf_transition_info (snd t))"

definition cf_wf :: "control_flow_ctx \<Rightarrow> bool" where
  "cf_wf c \<longleftrightarrow>
     (\<forall>v. cf_callable c = Some v \<longrightarrow> (\<exists>k. v = VCallable k \<and> wf_callable k))
     \<and> (\<forall>v. cf_value c = Some v \<longrightarrow> wf_value v)
     \<and> (\<forall>vs. cf_arglist c = Some vs \<longrightarrow> (\<forall>v \<in> set vs. wf_value v))
     \<and> (\<forall>vs. cf_accumulator c = Some vs \<longrightarrow> (\<forall>v \<in> set vs. wf_value v))
     \<and> (\<forall>i. cf_info c = Some i \<longrightarrow> wf_processing_info i)"

text \<open>Faults that would be a defect of the machine itself, whatever the program does.\<close>

definition machine_fault :: "fault \<Rightarrow> bool" where
  "machine_fault e \<longleftrightarrow> e \<in> {AssertionFailed, BadAnyCast, EmptyStack}"

text \<open>What a run may come to under an invariant \<open>I\<close>: a well-formed value, one of the two ways
  to be blocked (the callable being there when it is to be invoked), or a fault the program
  brought about.\<close>

definition cf_outcome :: "(control_flow_ctx \<Rightarrow> bool) \<Rightarrow> cf_result \<Rightarrow> bool" where
  "cf_outcome I x =
     (case x of
        Inl e \<Rightarrow> \<not> machine_fault e
      | Inr (ResValue v, c) \<Rightarrow> I c \<and> wf_value v
      | Inr (ResBlocked b, c) \<Rightarrow> I c
          \<and> (b = WaitingForCallableResult \<or> b = WaitingForCallableInvocation \<and> cf_callable c \<noteq> None))"

lemma cf_outcome_simps [simp]:
  "cf_outcome I (Inl e) \<longleftrightarrow> \<not> machine_fault e"
  "cf_outcome I (Inr (ResValue v, c)) \<longleftrightarrow> I c \<and> wf_value v"
  "cf_outcome I (Inr (ResBlocked WaitingForCallableResult, c)) \<longleftrightarrow> I c"
  "cf_outcome I (Inr (ResBlocked WaitingForCallableInvocation, c)) \<longleftrightarrow> I c \<and> cf_callable c \<noteq> None"
  by (simp_all add: cf_outcome_def)

lemma machine_fault_simps [simp]:
  "\<not> machine_fault BadVariantAccess"
  "\<not> machine_fault OutOfRange"
  "\<not> machine_fault NullDereference"
  "\<not> machine_fault NonTermination"
  by (simp_all add: machine_fault_def)

locale control_flow_operation =
  fixes run :: "'a \<Rightarrow> control_flow_ctx \<Rightarrow> cf_result"
    and argument_list :: "control_flow_ctx \<Rightarrow> value list option checked"
    and args_ok :: "'a \<Rightarrow> bool"
    and inv :: "control_flow_ctx \<Rightarrow> bool"
  assumes inv_wf: "inv c \<Longrightarrow> cf_wf c"
    and inv_init: "inv init_control_flow"
    and run_outcome: "args_ok a \<Longrightarrow> inv c \<Longrightarrow> cf_outcome inv (run a c)"
    and argument_list_ok: "inv c \<Longrightarrow> argument_list c = Inr (Some vs) \<Longrightarrow> \<forall>v \<in> set vs. wf_value v"
    and argument_list_fault: "inv c \<Longrightarrow> argument_list c = Inl e \<Longrightarrow> \<not> machine_fault e"
    and invoked_inv: "inv c \<Longrightarrow> inv (cf_set_callable_invoked c)"
    and return_inv: "inv c \<Longrightarrow> wf_value v \<Longrightarrow> inv (cf_set_callable_return c v)"
begin

lemma keeps_inv: "args_ok a \<Longrightarrow> inv c \<Longrightarrow> run a c = Inr (r, c') \<Longrightarrow> inv c'"
  using run_outcome [of a c] by (cases r) (auto simp: cf_outcome_def)

lemma invocation_callable:
  assumes "args_ok a" and "inv c" and "run a c = Inr (ResBlocked WaitingForCallableInvocation, c')"
  shows "\<exists>k. cf_get_callable c' = Inr (VCallable k) \<and> wf_callable k"
proof -
  have "cf_callable c' \<noteq> None" using run_outcome [OF assms(1,2)] assms(3) by simp
  moreover have "cf_wf c'" using keeps_inv [OF assms] inv_wf by simp
  ultimately show ?thesis by (auto simp: cf_wf_def cf_get_callable_def)
qed

lemma resumes:
  "args_ok a \<Longrightarrow> inv c \<Longrightarrow> run a c = Inr (r, c') \<Longrightarrow> wf_value v \<Longrightarrow>
     inv (cf_set_callable_return (cf_set_callable_invoked c') v)"
  by (blast intro: invoked_inv return_inv keeps_inv)

end

text \<open>What the operations without a state machine keep is \<open>cf_wf\<close>.\<close>

lemma cf_wf_init [simp]: "cf_wf init_control_flow"
  by (simp add: cf_wf_def init_control_flow_def)

lemma cf_wf_invoked [simp]: "cf_wf c \<Longrightarrow> cf_wf (cf_set_callable_invoked c)"
  by (simp add: cf_wf_def cf_set_callable_invoked_def)

lemma cf_wf_return [simp]: "cf_wf c \<Longrightarrow> wf_value v \<Longrightarrow> cf_wf (cf_set_callable_return c v)"
  by (simp add: cf_wf_def cf_set_callable_return_def)

lemma cf_wfD:
  "cf_wf c \<Longrightarrow> cf_value c = Some v \<Longrightarrow> wf_value v"
  "cf_wf c \<Longrightarrow> cf_arglist c = Some vs \<Longrightarrow> \<forall>v \<in> set vs. wf_value v"
  "cf_wf c \<Longrightarrow> cf_accumulator c = Some vs \<Longrightarrow> \<forall>v \<in> set vs. wf_value v"
  by (auto simp: cf_wf_def)

lemma function_call_outcome:
  "wf_value f \<Longrightarrow> wf_value args \<Longrightarrow> cf_wf c \<Longrightarrow> cf_outcome cf_wf (function_call_run c f args)"
  by (auto simp: function_call_run_def function_call_def cf_wfD split: option.split gvalue.split)
    (auto simp: cf_wf_def)

lemma if_outcome:
  "wf_value cond \<Longrightarrow> wf_value th \<Longrightarrow> wf_value el \<Longrightarrow> cf_wf c \<Longrightarrow>
     cf_outcome cf_wf (if_run c cond th el)"
  by (auto simp: if_run_def if_branches_def cf_wfD split: option.split gvalue.split)
    (auto simp: cf_wf_def)

lemma generate_list_outcome:
  "wf_value f \<Longrightarrow> cf_wf c \<Longrightarrow> cf_outcome cf_wf (generate_list_run c f)"
  by (cases "cf_accumulator c")
    (auto simp: generate_list_run_def generate_list_def cf_wf_def
      split: option.split gvalue.split control_flow_instruction.split)

lemma for_each_outcome:
  "wf_value f \<Longrightarrow> wf_value args \<Longrightarrow> cf_wf c \<Longrightarrow>
     cf_outcome cf_wf (function_call_for_each_run c f args)"
  by (cases "cf_accumulator c"; cases "cf_arglist c")
    (auto simp: function_call_for_each_run_def function_call_for_each_def cf_wf_def Let_def
      split: option.split gvalue.split)

interpretation function_call: control_flow_operation "\<lambda>(f, args) c. function_call_run c f args"
    function_call_argument_list "\<lambda>(f, args). wf_value f \<and> wf_value args" cf_wf
  by unfold_locales (auto simp: function_call_outcome function_call_argument_list_def dest: cf_wfD)

interpretation if_: control_flow_operation "\<lambda>(cond, th, el) c. if_run c cond th el"
    if_argument_list "\<lambda>(cond, th, el). wf_value cond \<and> wf_value th \<and> wf_value el" cf_wf
  by unfold_locales (auto simp: if_outcome if_argument_list_def dest: cf_wfD)

interpretation generate_list: control_flow_operation "\<lambda>f c. generate_list_run c f"
    generate_list_argument_list wf_value cf_wf
  by unfold_locales (auto simp: generate_list_outcome generate_list_argument_list_def dest: cf_wfD)

lemma for_each_argument_list_ok:
  assumes "cf_wf c" and "function_call_for_each_argument_list single c = Inr (Some vs)"
  shows "\<forall>v \<in> set vs. wf_value v"
proof -
  from assms(2) obtain ws n where ws: "cf_arglist c = Some ws" "n < length ws"
    and vs: "[ws ! n] = vs \<or> ws ! n = VDynamicList vs"
    by (auto simp: function_call_for_each_argument_list_def chk_bind_eq_Inr chk_the_eq_Inr
        split: if_splits gvalue.splits)
  have "wf_value (ws ! n)" using cf_wfD(2) [OF assms(1) ws(1)] nth_mem [OF ws(2)] by blast
  with vs show ?thesis by auto
qed

lemma for_each_argument_list_fault:
  "function_call_for_each_argument_list single c = Inl e \<Longrightarrow> \<not> machine_fault e"
  by (auto simp: function_call_for_each_argument_list_def chk_bind_eq_Inl chk_the_def
      split: if_splits gvalue.splits option.splits)

interpretation for_each: control_flow_operation "\<lambda>(f, args) c. function_call_for_each_run c f args"
    "function_call_for_each_argument_list single" "\<lambda>(f, args). wf_value f \<and> wf_value args" cf_wf for single
  by unfold_locales
    (auto simp: for_each_outcome dest: for_each_argument_list_ok for_each_argument_list_fault)

subsection \<open>The state machine\<close>

definition sm_wf :: "control_flow_ctx \<Rightarrow> bool" where
  "sm_wf c \<longleftrightarrow> cf_wf c \<and> (cf_callable c \<noteq> None \<longrightarrow> cf_info c \<noteq> None)"

definition wf_states :: "state_map \<Rightarrow> bool" where
  "wf_states states \<longleftrightarrow> (\<forall>(n, s) \<in> set states. wf_state_info s)"

lemma wf_states_map_of: "wf_states states \<Longrightarrow> map_of states n = Some s \<Longrightarrow> wf_state_info s"
  by (auto simp: wf_states_def dest: map_of_SomeD)

lemma wf_state_info_callback: "wf_state_info s \<Longrightarrow> wf_tree (si_callback_optree s)"
  by (cases s) simp

lemma wf_state_info_transition:
  "wf_state_info s \<Longrightarrow> map_of (si_transitions s) n = Some tr \<Longrightarrow> wf_transition_info tr"
  by (cases s) (auto dest: map_of_SomeD)

lemma wf_transition_info_callback: "wf_transition_info t \<Longrightarrow> wf_tree (ti_callback_optree t)"
  by (cases t) simp

text \<open>What a callback's start leaves behind.\<close>

lemma start_state_callback_ok:
  "cf_wf c \<Longrightarrow> cf_info c = Some i \<Longrightarrow>
     \<exists>c'. start_state_callback c = Inr (ResBlocked WaitingForCallableInvocation, c') \<and> sm_wf c'
        \<and> cf_callable c' \<noteq> None"
  by (auto simp: start_state_callback_def sm_wf_def cf_wf_def wf_processing_info_def wf_callable_def
      wf_state_info_callback Let_def)

lemma start_transition_callback_ok:
  "cf_wf c \<Longrightarrow> cf_info c = Some i \<Longrightarrow> pi_transition i = Some t \<Longrightarrow>
     \<exists>c'. start_transition_callback c = Inr (ResBlocked WaitingForCallableInvocation, c') \<and> sm_wf c'
        \<and> cf_callable c' \<noteq> None"
  by (cases t) (auto simp: start_transition_callback_def sm_wf_def cf_wf_def wf_processing_info_def wf_callable_def
      wf_transition_info_callback Let_def)

lemma extract_arguments_wf:
  "\<forall>k v. d k = Some v \<longrightarrow> wf_value v \<Longrightarrow> \<forall>v \<in> set (extract_arguments ns d). wf_value v"
  by (auto simp: extract_arguments_def split: option.splits)

lemma process_state_return_with_args_ok:
  assumes "sm_wf c" and "cf_info c \<noteq> None" and "wf_states states" and "wf_value t" and "wf_value d"
  shows "cf_outcome sm_wf (process_state_return_with_args c states t d)"
proof (cases "\<exists>name dict. t = VOctets name \<and> d = VDictionary dict")
  case False
  then show ?thesis
    using assms by (auto simp: process_state_return_with_args_def split: gvalue.splits)
next
  case True
  then obtain name dict where t: "t = VOctets name" "d = VDictionary dict" by blast
  from assms(2) obtain info where info: "cf_info c = Some info" by blast
  let ?i = "info\<lparr>pi_from_state := Some (pi_to_state info)\<rparr>"
  let ?c = "c\<lparr>cf_info := Some ?i\<rparr>"
  have wf: "wf_processing_info info" using assms(1) info by (simp add: sm_wf_def cf_wf_def)
  then have c: "sm_wf ?c" using assms(1) by (auto simp: sm_wf_def cf_wf_def wf_processing_info_def)
  have "cf_outcome sm_wf (start_transition_callback
      (?c\<lparr>cf_accumulator := Some (extract_arguments (ti_argument_names tr) dict),
        cf_info := Some (?i\<lparr>pi_transition := Some (name, tr), pi_to_state := (ti_target_state tr, target)\<rparr>)\<rparr>))"
    if tr: "map_of (si_transitions (snd (pi_to_state info))) name = Some tr"
      and target: "map_of states (ti_target_state tr) = Some target" for tr target
  proof -
    have "wf_transition_info tr"
      using wf tr by (auto simp: wf_processing_info_def intro: wf_state_info_transition)
    moreover have "wf_state_info target" using wf_states_map_of [OF assms(3) target] .
    ultimately have "cf_wf (?c\<lparr>cf_accumulator := Some (extract_arguments (ti_argument_names tr) dict),
        cf_info := Some (?i\<lparr>pi_transition := Some (name, tr), pi_to_state := (ti_target_state tr, target)\<rparr>)\<rparr>)"
      using c extract_arguments_wf [of dict] assms(5) t by (simp add: sm_wf_def cf_wf_def wf_processing_info_def)
    then show ?thesis
      using start_transition_callback_ok by fastforce
  qed
  then show ?thesis
    using assms(1,5) t info c
    by (auto simp: process_state_return_with_args_def Let_def split: option.splits)
qed

lemma process_state_return_ok:
  assumes "sm_wf c" and "cf_info c \<noteq> None" and "wf_states states" and "cf_value c = Some v"
  shows "cf_outcome sm_wf (process_state_return c states)"
proof -
  have "wf_value v" using assms(1,4) by (auto simp: sm_wf_def dest: cf_wfD)
  then show ?thesis
    using assms process_state_return_with_args_ok [OF assms(1-3)]
    by (auto simp: process_state_return_def split: gvalue.split list.split)
qed

lemma process_transition_return_ok:
  assumes "sm_wf c" and "cf_info c = Some i" and "cf_value c = Some v"
  shows "cf_outcome sm_wf (process_transition_return c)"
proof -
  have v: "wf_value v" using assms(1,3) by (auto simp: sm_wf_def dest: cf_wfD)
  have "cf_outcome sm_wf (start_state_callback (c\<lparr>cf_accumulator := Some [VDictionary d]\<rparr>))"
    if "wf_value (VDictionary d)" for d
  proof -
    have "cf_wf (c\<lparr>cf_accumulator := Some [VDictionary d]\<rparr>)"
      using assms(1) that by (simp add: sm_wf_def cf_wf_def)
    then show ?thesis using start_state_callback_ok assms(2) by fastforce
  qed
  then show ?thesis
    using assms v
    by (auto simp: process_transition_return_def process_transition_return_with_args_def
        split: gvalue.split list.split)
qed

lemma state_machine_outcome:
  assumes "wf_states states" and "sm_wf c"
  shows "cf_outcome sm_wf (state_machine_run states c)"
proof (cases "cf_callable c")
  case None
  have "cf_outcome sm_wf (start_state_callback
      (c\<lparr>cf_accumulator := Some [VDictionary Map.empty],
        cf_info := Some \<lparr>pi_mode = ModeTransition, pi_from_state = None,
          pi_transition = None, pi_to_state = (''Open'', s)\<rparr>\<rparr>))"
    if "map_of states ''Open'' = Some s" for s
  proof -
    have "cf_wf (c\<lparr>cf_accumulator := Some [VDictionary Map.empty],
        cf_info := Some \<lparr>pi_mode = ModeTransition, pi_from_state = None,
          pi_transition = None, pi_to_state = (''Open'', s)\<rparr>\<rparr>)"
      using assms wf_states_map_of [OF assms(1) that] by (simp add: sm_wf_def cf_wf_def wf_processing_info_def)
    then show ?thesis using start_state_callback_ok by fastforce
  qed
  then show ?thesis
    using None assms by (auto simp: state_machine_run_def split: option.split)
next
  case (Some k)
  then obtain i where "cf_info c = Some i" using assms(2) by (auto simp: sm_wf_def)
  then show ?thesis
    using Some assms process_state_return_ok process_transition_return_ok
    by (auto simp: state_machine_run_def split: option.split)
qed

interpretation state_machine: control_flow_operation state_machine_run
    state_machine_argument_list wf_states sm_wf
proof
  show "sm_wf (cf_set_callable_invoked c)" if "sm_wf c" for c
    using that by (auto simp: sm_wf_def) (simp_all add: cf_set_callable_invoked_def)
  show "sm_wf (cf_set_callable_return c v)" if "sm_wf c" "wf_value v" for c v
    using that by (auto simp: sm_wf_def) (simp_all add: cf_set_callable_return_def)
  show "sm_wf init_control_flow" by (simp add: sm_wf_def) (simp add: init_control_flow_def)
qed (auto simp: state_machine_outcome sm_wf_def state_machine_argument_list_def dest: cf_wfD)

end
