(* ===== verification/Frames.thy ===== *)
theory Frames
  imports LexicalPad IoProps ControlFlow
begin

text \<open>
  \<open>executionstackframe.cpp\<close>: a node of the tree with the results of its children so far, the
  context of its operation, and the pad it runs in. \<open>std::visit\<close> over the operation is a
  function by cases on it; the dispatch that \<open>continuation.cpp\<close> does on the same variant
  (\<open>handle_read\<close>, \<open>get_callable\<close> and so on) is here too.
\<close>

section \<open>Contexts and frames\<close>

datatype op_context =
    CtxNone
  | CtxCallback callback_ctx
  | CtxControlFlow control_flow_ctx
  | CtxIO io_ctx

text \<open>What a step can change besides the stacks: the pads, and the thread's \<open>errno\<close> as far as
  the sources look at it.\<close>

record globals =
  g_pads :: pads
  g_erange :: bool

record frame =
  fr_node :: optree_node
  fr_accumulator :: "value list"
  fr_ctx :: op_context
  fr_pad :: nat

fun is_control_flow_operation :: "operation \<Rightarrow> bool" where
  "is_control_flow_operation Op_FunctionCall = True"
| "is_control_flow_operation (Op_FunctionCallForEach single) = True"
| "is_control_flow_operation Op_GenerateList = True"
| "is_control_flow_operation Op_If = True"
| "is_control_flow_operation (Op_StateMachineOperation states) = True"
| "is_control_flow_operation _ = False"

fun is_io_operation :: "operation \<Rightarrow> bool" where
  "is_io_operation Op_ReadInt32Native = True"
| "is_io_operation Op_ReadIntFromAscii = True"
| "is_io_operation (Op_ReadOctetsUntilTerminator t e) = True"
| "is_io_operation (Op_ReadStaticOctets s) = True"
| "is_io_operation (Op_TerminateListIfReadAhead t) = True"
| "is_io_operation (Op_TransitionLookahead cs) = True"
| "is_io_operation Op_WriteInt32Native = True"
| "is_io_operation Op_WriteOctets = True"
| "is_io_operation (Op_WriteOctetsWithEscape ec es) = True"
| "is_io_operation (Op_WriteStaticOctets s) = True"
| "is_io_operation _ = False"

fun is_callback_operation :: "operation \<Rightarrow> bool" where
  "is_callback_operation (Op_UnaryCallback k) = True"
| "is_callback_operation _ = False"

definition initialize_context :: "operation \<Rightarrow> op_context" where
  "initialize_context op =
     (if is_control_flow_operation op then CtxControlFlow init_control_flow
      else if is_callback_operation op then CtxCallback init_callback
      else if is_io_operation op then CtxIO init_io
      else CtxNone)"

definition new_frame :: "optree_node \<Rightarrow> nat \<Rightarrow> frame" where
  "new_frame n p =
     \<lparr>fr_node = n, fr_accumulator = [], fr_ctx = initialize_context (node_operation n), fr_pad = p\<rparr>"

section \<open>Arguments\<close>

definition has_arguments_ready :: "frame \<Rightarrow> bool" where
  "has_arguments_ready f =
     (case op_arity (node_operation (fr_node f)) of
        Some n \<Rightarrow> \<not> length (fr_accumulator f) < n
      | None \<Rightarrow>
          (if length (fr_accumulator f) > 0 \<and> is_error_or_control (last (fr_accumulator f)) then True
           else \<not> length (fr_accumulator f) < length (node_children (fr_node f))))"

definition frame_push_back :: "frame \<Rightarrow> value \<Rightarrow> frame" where
  "frame_push_back f v = f\<lparr>fr_accumulator := fr_accumulator f @ [v]\<rparr>"

definition next_op :: "frame \<Rightarrow> optree_node checked" where
  "next_op f =
     chk_bind (chk_assert (\<not> has_arguments_ready f) AssertionFailed) (\<lambda>_.
     chk_bind (chk_assert (length (fr_accumulator f) < length (node_children (fr_node f))) AssertionFailed) (\<lambda>_.
       Inr (node_children (fr_node f) ! length (fr_accumulator f))))"

section \<open>Executing an operation\<close>

type_synonym exec_result = "(op_result \<times> op_context \<times> globals) checked"

text \<open>\<open>std::get\<close> of the context's alternative.\<close>

definition on_io :: "op_context \<Rightarrow> (io_ctx \<Rightarrow> ('b \<times> io_ctx) checked) \<Rightarrow> ('b \<times> op_context) checked" where
  "on_io ctx f =
     (case ctx of
        CtxIO c \<Rightarrow> chk_bind (f c) (\<lambda>(r, c'). Inr (r, CtxIO c'))
      | _ \<Rightarrow> Inl BadVariantAccess)"

definition on_control_flow ::
  "op_context \<Rightarrow> (control_flow_ctx \<Rightarrow> ('b \<times> control_flow_ctx) checked) \<Rightarrow> ('b \<times> op_context) checked" where
  "on_control_flow ctx f =
     (case ctx of
        CtxControlFlow c \<Rightarrow> chk_bind (f c) (\<lambda>(r, c'). Inr (r, CtxControlFlow c'))
      | _ \<Rightarrow> Inl BadVariantAccess)"

definition on_callback ::
  "op_context \<Rightarrow> (callback_ctx \<Rightarrow> 'b \<times> callback_ctx) \<Rightarrow> ('b \<times> op_context) checked" where
  "on_callback ctx f =
     (case ctx of
        CtxCallback c \<Rightarrow> (let (r, c') = f c in Inr (r, CtxCallback c'))
      | _ \<Rightarrow> Inl BadVariantAccess)"

text \<open>The three shapes of a result: a plain value, one with a new context, one with new pads.\<close>

definition plain :: "op_context \<Rightarrow> globals \<Rightarrow> value \<Rightarrow> exec_result" where
  "plain ctx g v = Inr (ResValue v, ctx, g)"

definition in_ctx :: "globals \<Rightarrow> (op_result \<times> op_context) checked \<Rightarrow> exec_result" where
  "in_ctx g x = chk_bind x (\<lambda>(r, ctx). Inr (r, ctx, g))"

definition in_pads :: "op_context \<Rightarrow> globals \<Rightarrow> (value \<times> pads) checked \<Rightarrow> exec_result" where
  "in_pads ctx g x = chk_bind x (\<lambda>(v, ps). Inr (ResValue v, ctx, g\<lparr>g_pads := ps\<rparr>))"

fun execute_specific_operation ::
  "operation \<Rightarrow> value list \<Rightarrow> op_context \<Rightarrow> nat \<Rightarrow> globals \<Rightarrow> exec_result" where
  "execute_specific_operation Op_Add vs ctx p g = plain ctx g (add_apply (vs ! 0) (vs ! 1))"
| "execute_specific_operation Op_DynamicList vs ctx p g = plain ctx g (dynamic_list_apply vs)"
| "execute_specific_operation Op_Eq vs ctx p g = plain ctx g (eq_apply (vs ! 0) (vs ! 1))"
| "execute_specific_operation Op_FunctionCall vs ctx p g =
     in_ctx g (on_control_flow ctx (\<lambda>c. function_call_run c (vs ! 0) (vs ! 1)))"
| "execute_specific_operation (Op_FunctionCallForEach single) vs ctx p g =
     in_ctx g (on_control_flow ctx (\<lambda>c. function_call_for_each_run c (vs ! 0) (vs ! 1)))"
| "execute_specific_operation Op_GenerateList vs ctx p g =
     in_ctx g (on_control_flow ctx (\<lambda>c. generate_list_run c (vs ! 0)))"
| "execute_specific_operation Op_If vs ctx p g =
     in_ctx g (on_control_flow ctx (\<lambda>c. if_run c (vs ! 0) (vs ! 1) (vs ! 2)))"
| "execute_specific_operation (Op_Int32Literal i) vs ctx p g = plain ctx g (int32_literal_apply i)"
| "execute_specific_operation Op_IntToAscii vs ctx p g = plain ctx g (int_to_ascii_apply (vs ! 0))"
| "execute_specific_operation Op_LesserEqual vs ctx p g = plain ctx g (lesser_equal_apply (vs ! 0) (vs ! 1))"
| "execute_specific_operation (Op_LexicalPadGet n) vs ctx p g =
     in_pads ctx g (chk_bind (pad_get (g_pads g) p n) (\<lambda>v. Inr (v, g_pads g)))"
| "execute_specific_operation (Op_LexicalPadInitialize n) vs ctx p g =
     in_pads ctx g (chk_bind (chk_assert (p < length (g_pads g)) NullDereference) (\<lambda>_.
       Inr (vs ! 0, pad_initialize (g_pads g) p n (vs ! 0))))"
| "execute_specific_operation (Op_LexicalPadInitializeGlobal n) vs ctx p g =
     in_pads ctx g (chk_bind (pad_initialize_global (g_pads g) p n (vs ! 0)) (\<lambda>ps. Inr (vs ! 0, ps)))"
| "execute_specific_operation (Op_LexicalPadSet n) vs ctx p g =
     in_pads ctx g (pad_set (g_pads g) p n (vs ! 0))"
| "execute_specific_operation Op_LexicalPadAsDict vs ctx p g =
     in_pads ctx g (chk_bind (pad_as_dict (g_pads g) p) (\<lambda>v. Inr (v, g_pads g)))"
| "execute_specific_operation Op_Multiply vs ctx p g = plain ctx g (multiply_apply (vs ! 0) (vs ! 1))"
| "execute_specific_operation Op_OpSequence vs ctx p g = plain ctx g (op_sequence_apply vs)"
| "execute_specific_operation Op_ReadInt32Native vs ctx p g =
     in_ctx g (on_io ctx (\<lambda>c. Inr (read_int32_run c, c)))"
| "execute_specific_operation Op_ReadIntFromAscii vs ctx p g =
     (case ctx of
        CtxIO c \<Rightarrow> (let (r, e) = read_int_ascii_run (g_erange g) c in Inr (r, ctx, g\<lparr>g_erange := e\<rparr>))
      | _ \<Rightarrow> Inl BadVariantAccess)"
| "execute_specific_operation (Op_ReadOctetsUntilTerminator t e) vs ctx p g =
     in_ctx g (on_io ctx (\<lambda>c. Inr (read_until_run c, c)))"
| "execute_specific_operation (Op_ReadStaticOctets s) vs ctx p g =
     in_ctx g (on_io ctx (\<lambda>c. Inr (read_static_run s c, c)))"
| "execute_specific_operation (Op_StaticCallable t ns i) vs ctx p g = plain ctx g (static_callable_apply t ns i)"
| "execute_specific_operation Op_Subtract vs ctx p g = plain ctx g (subtract_apply (vs ! 0) (vs ! 1))"
| "execute_specific_operation (Op_TerminateListIfReadAhead t) vs ctx p g =
     in_ctx g (on_io ctx (\<lambda>c. Inr (terminate_list_run t c, c)))"
| "execute_specific_operation (Op_UnaryCallback k) vs ctx p g =
     in_ctx g (on_callback ctx (\<lambda>c. (unary_callback_run c, c)))"
| "execute_specific_operation Op_WriteInt32Native vs ctx p g =
     in_ctx g (on_io ctx (\<lambda>c. write_int32_run c (vs ! 0)))"
| "execute_specific_operation Op_WriteOctets vs ctx p g =
     in_ctx g (on_io ctx (\<lambda>c. Inr (write_octets_run c (vs ! 0))))"
| "execute_specific_operation (Op_WriteOctetsWithEscape ec es) vs ctx p g =
     in_ctx g (on_io ctx (\<lambda>c. write_escaped_run ec es c (vs ! 0)))"
| "execute_specific_operation (Op_WriteStaticOctets s) vs ctx p g =
     in_ctx g (on_io ctx (\<lambda>c. Inr (write_static_run s c)))"
| "execute_specific_operation Op_DictionaryInitialize vs ctx p g = plain ctx g dictionary_initialize_apply"
| "execute_specific_operation (Op_DictionarySet k) vs ctx p g = plain ctx g (dictionary_set_apply k (vs ! 0) (vs ! 1))"
| "execute_specific_operation (Op_DictionaryGet k) vs ctx p g = plain ctx g (dictionary_get_apply k (vs ! 0))"
| "execute_specific_operation (Op_TransitionLookahead cs) vs ctx p g =
     in_ctx g (on_io ctx (\<lambda>c. Inr (transition_lookahead_run cs c, c)))"
| "execute_specific_operation (Op_StateMachineOperation states) vs ctx p g =
     in_ctx g (on_control_flow ctx (state_machine_run states))"

text \<open>\<open>make_argument_tuple\<close> reads the first arguments of the accumulator, which are there once
  \<open>has_arguments_ready\<close> holds.\<close>

definition execute :: "frame \<Rightarrow> globals \<Rightarrow> exec_result" where
  "execute f g =
     chk_bind (chk_assert (has_arguments_ready f) AssertionFailed) (\<lambda>_.
       execute_specific_operation (node_operation (fr_node f)) (fr_accumulator f) (fr_ctx f) (fr_pad f) g)"

end
