(* ===== verification/Continuation.thy ===== *)
theory Continuation
  imports Frames
begin

text \<open>
  \<open>continuation.cpp\<close>: a stack of frames over one operation tree. \<open>prepare\<close> descends into
  the children until the top frame has its arguments, \<open>step\<close> executes that frame and hands
  its value to the frame below. The events of the outside world (octets read or written, the
  end of the input, callbacks, callables) are passed to the operation of the top frame.
\<close>

section \<open>Dispatch on the operation of the top frame\<close>

text \<open>An operation without the event's concept ignores it.\<close>

fun op_handle_read :: "operation \<Rightarrow> op_context \<Rightarrow> octets \<Rightarrow> (nat \<times> op_context) checked" where
  "op_handle_read Op_ReadInt32Native ctx s = on_io ctx (\<lambda>c. Inr (read_int32_handle_read c s))"
| "op_handle_read Op_ReadIntFromAscii ctx s = on_io ctx (\<lambda>c. Inr (read_int_ascii_handle_read c s))"
| "op_handle_read (Op_ReadOctetsUntilTerminator t e) ctx s = on_io ctx (\<lambda>c. read_until_handle_read t e c s)"
| "op_handle_read (Op_ReadStaticOctets w) ctx s = on_io ctx (\<lambda>c. Inr (read_static_handle_read w c s))"
| "op_handle_read (Op_TerminateListIfReadAhead t) ctx s = on_io ctx (\<lambda>c. Inr (terminate_list_handle_read t c s))"
| "op_handle_read (Op_TransitionLookahead cs) ctx s = on_io ctx (\<lambda>c. Inr (transition_lookahead_handle_read c s))"
| "op_handle_read Op_WriteInt32Native ctx s = on_io ctx (\<lambda>c. Inr (0, c))"
| "op_handle_read Op_WriteOctets ctx s = on_io ctx (\<lambda>c. Inr (0, c))"
| "op_handle_read (Op_WriteOctetsWithEscape ec es) ctx s = on_io ctx (\<lambda>c. Inr (0, c))"
| "op_handle_read (Op_WriteStaticOctets w) ctx s = on_io ctx (\<lambda>c. Inr (0, c))"
| "op_handle_read _ ctx s = Inr (0, ctx)"

definition op_handle_eof :: "operation \<Rightarrow> op_context \<Rightarrow> (unit \<times> op_context) checked" where
  "op_handle_eof op ctx =
     (if is_io_operation op then on_io ctx (\<lambda>c. Inr ((), io_handle_eof c)) else Inr ((), ctx))"

fun op_get_write_buffer :: "operation \<Rightarrow> op_context \<Rightarrow> (octets \<times> op_context) checked" where
  "op_get_write_buffer Op_ReadInt32Native ctx = on_io ctx (\<lambda>c. Inr (io_buffer c, c))"
| "op_get_write_buffer Op_ReadIntFromAscii ctx = on_io ctx (\<lambda>c. Inr (io_buffer c, c))"
| "op_get_write_buffer (Op_ReadOctetsUntilTerminator t e) ctx = on_io ctx (\<lambda>c. Inr (io_buffer c, c))"
| "op_get_write_buffer (Op_ReadStaticOctets w) ctx = on_io ctx (\<lambda>c. Inr (io_buffer c, c))"
| "op_get_write_buffer (Op_TerminateListIfReadAhead t) ctx = on_io ctx (\<lambda>c. Inr (io_buffer c, c))"
| "op_get_write_buffer (Op_TransitionLookahead cs) ctx = on_io ctx (\<lambda>c. Inr ([], c))"
| "op_get_write_buffer Op_WriteInt32Native ctx = on_io ctx (\<lambda>c. Inr (write_get_buffer c, c))"
| "op_get_write_buffer Op_WriteOctets ctx = on_io ctx (\<lambda>c. Inr (write_get_buffer c, c))"
| "op_get_write_buffer (Op_WriteOctetsWithEscape ec es) ctx = on_io ctx (\<lambda>c. Inr (write_get_buffer c, c))"
| "op_get_write_buffer (Op_WriteStaticOctets w) ctx = on_io ctx (\<lambda>c. Inr (write_get_buffer c, c))"
| "op_get_write_buffer _ ctx = Inr ([], ctx)"

fun op_handle_write :: "operation \<Rightarrow> op_context \<Rightarrow> nat \<Rightarrow> (nat \<times> op_context) checked" where
  "op_handle_write Op_WriteInt32Native ctx n = on_io ctx (\<lambda>c. Inr (write_int32_handle_write c n))"
| "op_handle_write Op_WriteOctets ctx n = on_io ctx (\<lambda>c. Inr (write_octets_handle_write c n))"
| "op_handle_write (Op_WriteOctetsWithEscape ec es) ctx n = on_io ctx (\<lambda>c. Inr (write_escaped_handle_write c n))"
| "op_handle_write (Op_WriteStaticOctets w) ctx n = on_io ctx (\<lambda>c. Inr (write_static_handle_write c n))"
| "op_handle_write op ctx n =
     (if is_io_operation op then on_io ctx (\<lambda>c. Inr (0, c)) else Inr (0, ctx))"

fun op_ready_to_evaluate :: "operation \<Rightarrow> op_context \<Rightarrow> (bool \<times> op_context) checked" where
  "op_ready_to_evaluate Op_ReadInt32Native ctx = on_io ctx (\<lambda>c. Inr (read_int32_ready c, c))"
| "op_ready_to_evaluate Op_ReadIntFromAscii ctx = on_io ctx (\<lambda>c. Inr (read_int_ascii_ready c, c))"
| "op_ready_to_evaluate (Op_ReadOctetsUntilTerminator t e) ctx = on_io ctx (\<lambda>c. Inr (read_until_ready c, c))"
| "op_ready_to_evaluate (Op_ReadStaticOctets w) ctx = on_io ctx (\<lambda>c. Inr (read_static_ready w c, c))"
| "op_ready_to_evaluate (Op_TerminateListIfReadAhead t) ctx = on_io ctx (\<lambda>c. Inr (terminate_list_ready t c, c))"
| "op_ready_to_evaluate (Op_TransitionLookahead cs) ctx = on_io ctx (\<lambda>c. Inr (transition_lookahead_ready cs c, c))"
| "op_ready_to_evaluate op ctx =
     (if is_io_operation op then on_io ctx (\<lambda>c. Inr (True, c)) else Inr (True, ctx))"

definition op_get_callable :: "operation \<Rightarrow> op_context \<Rightarrow> (value \<times> op_context) checked" where
  "op_get_callable op ctx =
     (if is_control_flow_operation op
      then on_control_flow ctx (\<lambda>c. chk_bind (cf_get_callable c) (\<lambda>v. Inr (v, c)))
      else Inr (VRuntimeError TypeError, ctx))"

definition op_get_argument_list :: "operation \<Rightarrow> op_context \<Rightarrow> (value list option \<times> op_context) checked" where
  "op_get_argument_list op ctx =
     (let get = (\<lambda>f. on_control_flow ctx (\<lambda>c. chk_bind (f c) (\<lambda>vs. Inr (vs, c)))) in
      case op of
        Op_FunctionCall \<Rightarrow> get function_call_argument_list
      | Op_FunctionCallForEach single \<Rightarrow> get (function_call_for_each_argument_list single)
      | Op_GenerateList \<Rightarrow> get generate_list_argument_list
      | Op_If \<Rightarrow> get if_argument_list
      | Op_StateMachineOperation states \<Rightarrow> get state_machine_argument_list
      | _ \<Rightarrow> Inr (Some [], ctx))"

definition op_set_callable_invoked :: "operation \<Rightarrow> op_context \<Rightarrow> (unit \<times> op_context) checked" where
  "op_set_callable_invoked op ctx =
     (if is_control_flow_operation op
      then on_control_flow ctx (\<lambda>c. Inr ((), cf_set_callable_invoked c)) else Inr ((), ctx))"

definition op_set_callable_return :: "operation \<Rightarrow> op_context \<Rightarrow> value \<Rightarrow> (unit \<times> op_context) checked" where
  "op_set_callable_return op ctx v =
     (if is_control_flow_operation op
      then on_control_flow ctx (\<lambda>c. Inr ((), cf_set_callable_return c v)) else Inr ((), ctx))"

definition op_get_callback_key :: "operation \<Rightarrow> op_context \<Rightarrow> (string \<times> op_context) checked" where
  "op_get_callback_key op ctx =
     (case op of
        Op_UnaryCallback k \<Rightarrow> on_callback ctx (\<lambda>c. (k, c))
      | _ \<Rightarrow> Inr (''N/A'', ctx))"

definition op_set_callback_called :: "operation \<Rightarrow> op_context \<Rightarrow> (unit \<times> op_context) checked" where
  "op_set_callback_called op ctx =
     (if is_callback_operation op then on_callback ctx (\<lambda>c. ((), unary_callback_set_called c))
      else Inr ((), ctx))"

definition op_set_callback_return :: "operation \<Rightarrow> op_context \<Rightarrow> value \<Rightarrow> (unit \<times> op_context) checked" where
  "op_set_callback_return op ctx v =
     (if is_callback_operation op then on_callback ctx (\<lambda>c. ((), unary_callback_set_return c v))
      else Inr ((), ctx))"

section \<open>The continuation\<close>

datatype continuation_state = MissingArguments | Ready | Blocked | Exited

record continuation =
  ct_stack :: "frame list"
  ct_pad :: nat
  ct_state :: continuation_state
  ct_result :: op_result

definition new_continuation :: "optree \<Rightarrow> nat \<Rightarrow> continuation" where
  "new_continuation t p =
     \<lparr>ct_stack = [new_frame (optree_root t) p], ct_pad = p, ct_state = MissingArguments,
      ct_result = ResValue (VBool False)\<rparr>"

text \<open>\<open>stack.top()\<close>; on an empty stack it is undefined.\<close>

definition stack_top :: "'a list \<Rightarrow> 'a checked" where
  "stack_top st = (case st of [] \<Rightarrow> Inl EmptyStack | f # fs \<Rightarrow> Inr f)"

definition result_to_state :: "op_result \<Rightarrow> continuation_state" where
  "result_to_state r = (case r of ResValue v \<Rightarrow> Ready | ResBlocked b \<Rightarrow> Blocked)"

text \<open>The loop of \<open>prepare\<close>: the new top frame is the child of the old one, so it ends.\<close>

lemma next_op_child: "next_op f = Inr n \<Longrightarrow> n \<in> set (node_children (fr_node f))"
  by (auto simp: next_op_def chk_bind_eq_Inr chk_assert_def split: if_splits)

lemma size_child: "n \<in> set (node_children m) \<Longrightarrow> size n < size m"
  using size_list_estimation' [of n "node_children m" "size n" size] by (cases m) simp

function descend :: "frame list \<Rightarrow> frame list checked" where
  "descend [] = Inl EmptyStack"
| "descend (f # fs) =
     (if has_arguments_ready f then Inr (f # fs)
      else chk_bind (next_op f) (\<lambda>n. descend (new_frame n (fr_pad f) # f # fs)))"
  by pat_completeness auto
termination
proof (relation "measure (\<lambda>st. case st of [] \<Rightarrow> 0 | f # fs \<Rightarrow> size (fr_node f))")
  fix f :: frame and fs n
  assume "next_op f = Inr n"
  then show "(new_frame n (fr_pad f) # f # fs, f # fs)
      \<in> measure (\<lambda>st. case st of [] \<Rightarrow> 0 | f # fs \<Rightarrow> size (fr_node f))"
    by (simp add: new_frame_def next_op_child size_child)
qed simp

definition prepare :: "continuation \<Rightarrow> (continuation_state \<times> continuation) checked" where
  "prepare c =
     (if length (ct_stack c) > 0
      then chk_bind (descend (ct_stack c)) (\<lambda>st. Inr (Ready, c\<lparr>ct_stack := st\<rparr>))
      else Inr (Exited, c))"

definition continuation_step ::
  "continuation \<Rightarrow> globals \<Rightarrow> (continuation_state \<times> continuation \<times> globals) checked" where
  "continuation_step c g =
     chk_bind (prepare c) (\<lambda>(s, c).
       if s = Ready then
         chk_bind (stack_top (ct_stack c)) (\<lambda>f.
         chk_bind (execute f g) (\<lambda>(r, ctx, g').
           let st = f\<lparr>fr_ctx := ctx\<rparr> # tl (ct_stack c) in
           case r of
             ResBlocked b \<Rightarrow>
               Inr (Blocked, c\<lparr>ct_stack := st, ct_state := Blocked, ct_result := r\<rparr>, g')
           | ResValue v \<Rightarrow>
               (case tl st of
                  f' # fs \<Rightarrow>
                    Inr (Ready, c\<lparr>ct_stack := frame_push_back f' v # fs, ct_state := Ready, ct_result := r\<rparr>, g')
                | [] \<Rightarrow> Inr (Exited, c\<lparr>ct_stack := [], ct_state := Exited, ct_result := r\<rparr>, g'))))
       else Inr (s, c\<lparr>ct_state := s\<rparr>, g))"

section \<open>Events\<close>

text \<open>An event goes to the operation of the top frame and may change that frame's context.\<close>

definition on_top ::
  "continuation \<Rightarrow> (operation \<Rightarrow> op_context \<Rightarrow> ('b \<times> op_context) checked) \<Rightarrow> ('b \<times> continuation) checked" where
  "on_top c f =
     chk_bind (stack_top (ct_stack c)) (\<lambda>fr.
     chk_bind (f (node_operation (fr_node fr)) (fr_ctx fr)) (\<lambda>(r, ctx).
       Inr (r, c\<lparr>ct_stack := fr\<lparr>fr_ctx := ctx\<rparr> # tl (ct_stack c)\<rparr>)))"

definition ct_get_callback_key :: "continuation \<Rightarrow> (string \<times> continuation) checked" where
  "ct_get_callback_key c = on_top c op_get_callback_key"

definition ct_set_callback_called :: "continuation \<Rightarrow> (unit \<times> continuation) checked" where
  "ct_set_callback_called c = on_top c op_set_callback_called"

definition ct_get_callback_arguments :: "continuation \<Rightarrow> value list checked" where
  "ct_get_callback_arguments c = chk_bind (stack_top (ct_stack c)) (\<lambda>f. Inr (fr_accumulator f))"

definition ct_set_callback_return :: "continuation \<Rightarrow> value \<Rightarrow> (unit \<times> continuation) checked" where
  "ct_set_callback_return c v = on_top c (\<lambda>op ctx. op_set_callback_return op ctx v)"

definition ct_handle_read :: "continuation \<Rightarrow> octets \<Rightarrow> (nat \<times> continuation) checked" where
  "ct_handle_read c s = on_top c (\<lambda>op ctx. op_handle_read op ctx s)"

definition ct_get_write_buffer :: "continuation \<Rightarrow> (octets \<times> continuation) checked" where
  "ct_get_write_buffer c = on_top c op_get_write_buffer"

definition ct_handle_write :: "continuation \<Rightarrow> nat \<Rightarrow> (nat \<times> continuation) checked" where
  "ct_handle_write c n = on_top c (\<lambda>op ctx. op_handle_write op ctx n)"

definition ct_ready_to_evaluate :: "continuation \<Rightarrow> (bool \<times> continuation) checked" where
  "ct_ready_to_evaluate c = on_top c op_ready_to_evaluate"

definition ct_get_callable :: "continuation \<Rightarrow> (value \<times> continuation) checked" where
  "ct_get_callable c = on_top c op_get_callable"

definition ct_get_argument_list :: "continuation \<Rightarrow> (value list option \<times> continuation) checked" where
  "ct_get_argument_list c = on_top c op_get_argument_list"

definition ct_set_callable_invoked :: "continuation \<Rightarrow> (unit \<times> continuation) checked" where
  "ct_set_callable_invoked c = on_top c op_set_callable_invoked"

definition ct_set_callable_return :: "continuation \<Rightarrow> value \<Rightarrow> (unit \<times> continuation) checked" where
  "ct_set_callable_return c v = on_top (c\<lparr>ct_result := ResValue v\<rparr>) (\<lambda>op ctx. op_set_callable_return op ctx v)"

definition ct_handle_eof :: "continuation \<Rightarrow> (unit \<times> continuation) checked" where
  "ct_handle_eof c = on_top c op_handle_eof"

lemmas continuation_events [machine_defs] =
  ct_get_callback_key_def ct_set_callback_called_def ct_get_callback_arguments_def
  ct_set_callback_return_def ct_handle_read_def ct_get_write_buffer_def ct_handle_write_def
  ct_ready_to_evaluate_def ct_get_callable_def ct_get_argument_list_def
  ct_set_callable_invoked_def ct_set_callable_return_def ct_handle_eof_def

end
