(* ===== verification/Interpreter.thy ===== *)
theory Interpreter
  imports Continuation
begin

text \<open>
  \<open>interpreter.hpp\<close> and \<open>interpretedprogram.hpp\<close>: a stack of continuations. When the top one
  waits for a callable to be invoked, the interpreter makes a pad for the call, binds the
  arguments and pushes a continuation over the callable's tree; when the top one has run to
  its end, its value goes to the one below.
\<close>

record interpreter =
  in_rootpad :: nat
  in_stack :: "continuation list"
  in_globals :: globals

section \<open>Construction\<close>

definition get_instance :: "optree \<Rightarrow> bool \<Rightarrow> value option \<Rightarrow> interpreter checked" where
  "get_instance t erange arglist =
     (let (ps, rootpad) = alloc_pad [] None in
      chk_bind (case arglist of
          None \<Rightarrow> Inr ps
        | Some v \<Rightarrow> pad_initialize_global ps rootpad ''argv'' v) (\<lambda>ps.
        Inr \<lparr>in_rootpad = rootpad, in_stack = [new_continuation t rootpad],
             in_globals = \<lparr>g_pads = ps, g_erange = erange\<rparr>\<rparr>))"

section \<open>The step\<close>

text \<open>The loop that binds the arguments: it stops at the end of either list.\<close>

fun bind_arguments :: "pads \<Rightarrow> nat \<Rightarrow> string list \<Rightarrow> value list \<Rightarrow> pads" where
  "bind_arguments ps a (n # ns) (v # vs) = bind_arguments (pad_initialize ps a n v) a ns vs"
| "bind_arguments ps a ns vs = ps"

definition invoke_callable :: "interpreter \<Rightarrow> (continuation_state \<times> interpreter) checked" where
  "invoke_callable m =
     chk_bind (stack_top (in_stack m)) (\<lambda>c.
     chk_bind (ct_get_callable c) (\<lambda>(v, c).
       case v of
         VCallable k \<Rightarrow>
           chk_bind (ct_set_callable_invoked c) (\<lambda>(_, c).
             let parent = (if callable_inherits_lexical_pad k then ct_pad c else in_rootpad m);
                 (ps, pad) = alloc_pad (g_pads (in_globals m)) (Some parent) in
             chk_bind (ct_get_argument_list c) (\<lambda>(arglist, c).
             chk_bind (if callable_argument_names k = [] then Inr ps
                  else chk_bind (chk_the arglist NullDereference) (\<lambda>vs.
                    Inr (bind_arguments ps pad (callable_argument_names k) vs))) (\<lambda>ps.
             chk_bind (prepare (new_continuation (callable_tree k) pad)) (\<lambda>(s, c').
               Inr (s, m\<lparr>in_stack := c' # c # tl (in_stack m),
                        in_globals := (in_globals m)\<lparr>g_pads := ps\<rparr>\<rparr>)))))
       | _ \<Rightarrow> Inl BadVariantAccess))"

definition return_to_caller :: "interpreter \<Rightarrow> value \<Rightarrow> (continuation_state \<times> interpreter) checked" where
  "return_to_caller m r =
     chk_bind (stack_top (tl (in_stack m))) (\<lambda>c.
     chk_bind (ct_set_callable_return c r) (\<lambda>(_, c).
     chk_bind (prepare c) (\<lambda>(s, c).
       Inr (s, m\<lparr>in_stack := c # tl (tl (in_stack m))\<rparr>))))"

definition interpreter_step :: "interpreter \<Rightarrow> (continuation_state \<times> interpreter) checked" where
  "interpreter_step m =
     chk_bind (stack_top (in_stack m)) (\<lambda>c.
     chk_bind (continuation_step c (in_globals m)) (\<lambda>(s, c, g).
       let m' = m\<lparr>in_stack := c # tl (in_stack m), in_globals := g\<rparr> in
       if s = Blocked then
         (case ct_result c of
            ResBlocked WaitingForCallableInvocation \<Rightarrow> invoke_callable m'
          | ResBlocked b \<Rightarrow> Inr (s, m')
          | ResValue v \<Rightarrow> Inl BadVariantAccess)
       else if s = Exited then
         (case ct_result c of
            ResValue r \<Rightarrow> if length (in_stack m') > 1 then return_to_caller m' r else Inr (s, m')
          | ResBlocked b \<Rightarrow> Inl BadVariantAccess)
       else Inr (s, m')))"

section \<open>Events and observations\<close>

definition on_top_continuation ::
  "interpreter \<Rightarrow> (continuation \<Rightarrow> ('b \<times> continuation) checked) \<Rightarrow> ('b \<times> interpreter) checked" where
  "on_top_continuation m f =
     chk_bind (stack_top (in_stack m)) (\<lambda>c.
     chk_bind (f c) (\<lambda>(r, c'). Inr (r, m\<lparr>in_stack := c' # tl (in_stack m)\<rparr>)))"

definition in_result_to_state :: "interpreter \<Rightarrow> continuation_state checked" where
  "in_result_to_state m = chk_bind (stack_top (in_stack m)) (\<lambda>c. Inr (result_to_state (ct_result c)))"

definition in_get_result :: "interpreter \<Rightarrow> op_result checked" where
  "in_get_result m = chk_bind (stack_top (in_stack m)) (\<lambda>c. Inr (ct_result c))"

definition in_get_callback_key :: "interpreter \<Rightarrow> (string \<times> interpreter) checked" where
  "in_get_callback_key m = on_top_continuation m ct_get_callback_key"

definition in_set_callback_called :: "interpreter \<Rightarrow> (unit \<times> interpreter) checked" where
  "in_set_callback_called m = on_top_continuation m ct_set_callback_called"

definition in_get_callback_arguments :: "interpreter \<Rightarrow> value list checked" where
  "in_get_callback_arguments m = chk_bind (stack_top (in_stack m)) ct_get_callback_arguments"

definition in_set_callback_return :: "interpreter \<Rightarrow> value \<Rightarrow> (unit \<times> interpreter) checked" where
  "in_set_callback_return m v = on_top_continuation m (\<lambda>c. ct_set_callback_return c v)"

definition in_handle_read :: "interpreter \<Rightarrow> octets \<Rightarrow> (nat \<times> interpreter) checked" where
  "in_handle_read m s = on_top_continuation m (\<lambda>c. ct_handle_read c s)"

definition in_get_write_buffer :: "interpreter \<Rightarrow> (octets \<times> interpreter) checked" where
  "in_get_write_buffer m = on_top_continuation m ct_get_write_buffer"

definition in_handle_write :: "interpreter \<Rightarrow> nat \<Rightarrow> (nat \<times> interpreter) checked" where
  "in_handle_write m n = on_top_continuation m (\<lambda>c. ct_handle_write c n)"

definition in_handle_eof :: "interpreter \<Rightarrow> (unit \<times> interpreter) checked" where
  "in_handle_eof m = on_top_continuation m ct_handle_eof"

definition in_ready_to_evaluate :: "interpreter \<Rightarrow> (bool \<times> interpreter) checked" where
  "in_ready_to_evaluate m = on_top_continuation m ct_ready_to_evaluate"

lemmas interpreter_events [machine_defs] =
  in_get_callback_key_def in_set_callback_called_def in_set_callback_return_def in_handle_read_def
  in_get_write_buffer_def in_handle_write_def in_handle_eof_def in_ready_to_evaluate_def

end
