(* ===== verification/PadProps.thy ===== *)
theory PadProps
  imports Interpreter
begin

text \<open>
  What the pads compute, against the environment a chain of pads stands for: assignment,
  declaration, and the environment of a call.
\<close>

lemma pad_env_bind_root:
  "pad_parent (ps ! a) = None \<Longrightarrow> a < length ps \<Longrightarrow>
     pad_env (pad_bind ps a n v) a = (pad_env ps a)(n \<mapsto> v)"
  by (simp add: pad_bind_def pad_env_root)

lemma pad_env_bind_own:
  assumes "pads_wf ps" and "a < length ps"
  shows "pad_env (pad_bind ps a n v) a = (pad_env ps a)(n \<mapsto> v)"
proof (cases "pad_parent (ps ! a)")
  case None
  with assms show ?thesis by (simp add: pad_env_bind_root)
next
  case (Some p)
  with assms have "p < a" by (auto dest: pads_wfD)
  with Some assms show ?thesis
    by (simp add: pad_bind_def pad_env.simps [of _ a] pad_env_update_above)
qed

text \<open>The assignment changes the binding the chain sees, and nothing else of the environment.\<close>

lemma pad_set_env:
  "pads_wf ps \<Longrightarrow> a < length ps \<Longrightarrow> pad_env ps a n = Some old \<Longrightarrow>
     \<exists>qs. pad_set ps a n v = Inr (old, qs) \<and> pad_env qs a = (pad_env ps a)(n \<mapsto> v)"
proof (induction ps a n v rule: pad_set.induct)
  case (1 ps a n v)
  show ?case
  proof (cases "pad_vars (ps ! a) n")
    case (Some w)
    with "1.prems" have "w = old"
      by (cases "pad_parent (ps ! a)") (auto simp: pad_env_root pad_env_child)
    with Some "1.prems" have "pad_set ps a n v = Inr (old, pad_bind ps a n v)"
      by (simp add: pad_set.simps [of ps a])
    then show ?thesis using pad_env_bind_own [OF "1.prems"(1,2)] by blast
  next
    case vars: None
    show ?thesis
    proof (cases "pad_parent (ps ! a)")
      case None
      with vars "1.prems" show ?thesis by (simp add: pad_env_root)
    next
      case (Some p)
      then have p: "p < a" using "1.prems" by (auto dest: pads_wfD)
      have env: "pad_env ps a = pad_env ps p ++ pad_vars (ps ! a)"
        using "1.prems" Some by (simp add: pad_env_child)
      then have bound: "pad_env ps p n = Some old" using "1.prems"(3) vars by (simp add: map_add_def)
      have "p < length ps" using p "1.prems"(2) by simp
      with bound obtain qs where
        qs: "pad_set ps p n v = Inr (old, qs)" "pad_env qs p = (pad_env ps p)(n \<mapsto> v)"
        using "1.IH" [OF "1.prems"(2) vars Some p "1.prems"(1)] by blast
      from pad_set_shape [OF qs(1)] "1.prems" have q: "pads_wf qs" "a < length qs" "pad_parent (qs ! a) = Some p"
        using Some by (auto simp: same_shape_def intro: same_shape_wf [OF pad_set_shape [OF qs(1)]])
      from pad_set_cases [of ps p n v] "1.prems" p qs(1) bound obtain b where b: "b \<le> p" "qs = pad_bind ps b n v" by auto
      then have "pad_vars (qs ! a) = pad_vars (ps ! a)" using p by (simp add: pad_bind_def)
      then have "pad_env qs a = (pad_env ps a)(n \<mapsto> v)"
        using q vars pad_env_child [OF q] by (auto simp: env qs(2) map_add_def split: option.splits)
      moreover have "pad_set ps a n v = pad_set ps p n v"
        using "1.prems" Some vars p by (simp add: pad_set.simps [of ps a])
      ultimately show ?thesis using qs(1) by metis
    qed
  qed
qed

lemma pad_set_unbound:
  "pads_wf ps \<Longrightarrow> a < length ps \<Longrightarrow> pad_env ps a n = None \<Longrightarrow> pad_set ps a n v = Inr (VRuntimeError NameError, ps)"
  using pad_set_cases [of ps a n v] by auto

section \<open>The environment of a call\<close>

lemma bind_arguments_fold:
  "bind_arguments ps a ns vs = foldl (\<lambda>ps (n, v). pad_initialize ps a n v) ps (zip ns vs)"
  by (induction ps a ns vs rule: bind_arguments.induct) simp_all

lemma bind_arguments_env:
  assumes "pads_wf ps" and "a < length ps" and "pad_vars (ps ! a) = Map.empty"
  shows "pad_env (bind_arguments ps a ns vs) a = pad_env ps a ++ map_of (zip ns vs)"
  using pad_scope.declare_list_env [of ps a "zip ns vs"] assms
  by (simp add: bind_arguments_fold valid_pad_def)

lemma call_environment:
  assumes "pads_wf ps" and "parent < length ps" and "alloc_pad ps (Some parent) = (qs, pad)"
  shows "pad_env (bind_arguments qs pad ns vs) pad = pad_env ps parent ++ map_of (zip ns vs)"
proof -
  have qs: "qs = ps @ [new_pad (Some parent)]" "pad = length ps" using assms(3) by (auto simp: alloc_pad_def)
  have wf: "pads_wf qs" using alloc_pad_wf [OF assms(1), of "Some parent"] assms(2,3) by simp
  have par: "pad_parent (qs ! pad) = Some parent" "pad_vars (qs ! pad) = Map.empty"
    by (simp_all add: qs new_pad_def)
  then have "pad_parent (qs ! pad) = Some parent" "pad_vars (qs ! pad) = Map.empty" .
  moreover have "pad_env qs parent = pad_env ps parent" using assms(1,2) by (simp add: qs pad_env_append)
  moreover have pad: "pad < length qs" by (simp add: qs)
  ultimately have "pad_env qs pad = pad_env ps parent" using pad_env_child [OF wf pad] by simp
  with pad show ?thesis
    using bind_arguments_env [OF wf pad par(2)] by simp
qed

section \<open>Properties\<close>



text \<open>The pad of a call sees the arguments under their names, the first one where a name is
  declared twice, missing arguments being left out, over the environment the callable
  inherits.\<close>

theorem call_pad_environment:
  assumes "pads_wf ps" and "parent < length ps" and "alloc_pad ps (Some parent) = (qs, pad)"
  shows "pad_env (bind_arguments qs pad ns vs) pad = pad_env ps parent ++ map_of (zip ns vs)"
  using assms by (rule call_environment)

theorem call_pad_environment_witness:
  "pad_env (bind_arguments [new_pad None, new_pad (Some 0)] 1 [''a'', ''a'', ''b''] [VInt 1, VInt 2]) 1
     = [''a'' \<mapsto> VInt 1]"
proof -
  have "pads_wf [new_pad None]" by (simp add: pads_wf_def new_pad_def)
  moreover have "pad_env [new_pad None] 0 = Map.empty" by (simp add: pad_env.simps new_pad_def)
  moreover have "alloc_pad [new_pad None] (Some 0) = ([new_pad None, new_pad (Some 0)], 1)"
    by (simp add: alloc_pad_def)
  ultimately show ?thesis
    using call_pad_environment [of "[new_pad None]" 0 "[new_pad None, new_pad (Some 0)]" 1
        "[''a'', ''a'', ''b'']" "[VInt 1, VInt 2]"] by auto
qed

end
