(* ===== verification/IoTheorems.thy ===== *)
theory IoTheorems
  imports IoProps
begin

text \<open>The properties of the operations that read and write octets.\<close>

text \<open>C33: A native 32-bit integer written by \<open>WriteInt32Native\<close> is read back by
  \<open>ReadInt32Native\<close>, in whatever fragments the octets arrive and whatever follows them, and
  exactly its four octets are consumed.\<close>

theorem int32_wire_roundtrip:
  assumes "concat chunks = octets_of_int32 i @ rest" and "chunks \<noteq> []"
  shows "\<exists>c. feed read_int32_handle_read chunks init_io [] = (c, rest) \<and> read_int32_run c = ResValue (VInt i)"
proof -
  have "feed read_int32_handle_read chunks init_io [] = (init_io\<lparr>io_buffer := octets_of_int32 i\<rparr>, rest)"
    using read_int32_feed [of init_io "[]" chunks] assms(1) by (simp add: init_io_def Let_def length_octets_of_int32)
  then show ?thesis by (simp add: read_int32_run_def length_octets_of_int32 int32_octets_roundtrip)
qed

theorem int32_wire_roundtrip_witness:
  "\<exists>c. feed read_int32_handle_read [take 1 (octets_of_int32 7), drop 1 (octets_of_int32 7) @ ''x''] init_io []
     = (c, ''x'') \<and> read_int32_run c = ResValue (VInt 7)"
  by (rule int32_wire_roundtrip) simp_all

text \<open>\<open>WriteOctets\<close> sends its argument and nothing else: after any sequence of partial
  writes the octets taken are a prefix of the argument, and the operation is done exactly when
  they are all of it.\<close>

theorem write_octets_drains:
  assumes "s \<noteq> []"
  shows "write_octets_run init_io (VOctets s) =
           (ResBlocked WaitingForWrite, init_io\<lparr>io_buffer := s\<rparr>)
       \<and> (let (out, c) = write_rounds write_octets_handle_write ns (init_io\<lparr>io_buffer := s\<rparr>) in
           out = take (sum_list ns) s
           \<and> write_octets_run c (VOctets s) =
               (if sum_list ns < length s then ResBlocked WaitingForWrite else ResValue (VInt 0), c))"
proof -
  obtain x xs where s: "s = x # xs" using assms by (cases s) auto
  have first: "write_octets_run init_io (VOctets s) = (ResBlocked WaitingForWrite, init_io\<lparr>io_buffer := s\<rparr>)"
    by (simp add: s write_octets_run_def init_io_def write_wait_def)
  obtain out c where rounds: "write_rounds write_octets_handle_write ns (init_io\<lparr>io_buffer := s\<rparr>) = (out, c)" by fastforce
  have "write_octets.sending x xs (init_io\<lparr>io_buffer := s\<rparr>)"
    by (simp add: write_octets.sending_def s init_io_def)
  from write_octets.after_rounds [OF this _ _ rounds] rounds s
  have "out = take (sum_list ns) s
      \<and> write_octets_run c (VOctets s) =
           (if sum_list ns < length s then ResBlocked WaitingForWrite else ResValue (VInt 0), c)"
    by (simp add: init_io_def)
  with first rounds show ?thesis by simp
qed

theorem write_octets_drains_witness:
  "write_octets_run init_io (VOctets ''ab'') = (ResBlocked WaitingForWrite, init_io\<lparr>io_buffer := ''ab''\<rparr>)"
  using write_octets_drains [of "''ab''"] by simp

text \<open>\<open>ReadStaticOctets\<close> answers \<open>true\<close> exactly when the input starts with the expected
  octets, once enough of them are there, and consumes as many.\<close>

theorem read_static_compares:
  assumes "CHR 0x00 \<notin> set contents" and "length contents \<le> length s"
  shows "\<exists>c'. read_static_handle_read contents c s = (length contents, c')
     \<and> read_static_run contents c' = (if prefix contents s then ResValue (VBool True) else mismatch)"
  using read_static_result [OF assms] by blast

theorem read_static_compares_witness:
  "\<exists>c'. read_static_handle_read ''GET '' init_io ''GET /'' = (length ''GET '', c')
     \<and> read_static_run ''GET '' c' = ResValue (VBool True)"
  using read_static_compares [of "''GET ''" "''GET /''" init_io] by simp

text \<open>Without an escape \<open>ReadOctetsUntilTerminator\<close> keeps its context and consumes nothing
  as long as the terminator is missing, and then yields the octets before its first
  occurrence, consuming them and the terminator.\<close>

theorem read_until_first_terminator:
  "read_until_handle_read terminator None c s =
     (case find_sub terminator s of
        None \<Rightarrow> Inr (0, c)
      | Some i \<Rightarrow> Inr (i + length terminator, c\<lparr>io_buffer := take i s, io_ready := True\<rparr>))
   \<and> (sublist terminator s \<longrightarrow> (\<exists>i c'. read_until_handle_read terminator None c s = Inr (i + length terminator, c')
        \<and> read_until_run c' = ResValue (VOctets (take i s))
        \<and> s = take i s @ terminator @ drop (i + length terminator) s
        \<and> (\<forall>j < i. \<not> prefix terminator (drop j s))))"
proof (cases "find_sub terminator s")
  case None
  then show ?thesis using find_sub_eq_None_iff [of terminator s] by (simp add: read_until_handle_read_def)
next
  case (Some i)
  from find_sub_SomeD [OF this] find_sub_split [OF this] read_until_plain_result [OF this] show ?thesis
    by (auto simp: Some)
qed

theorem read_until_first_terminator_witness:
  "\<exists>i c'. read_until_handle_read [CHR '';''] None init_io ''a;b;'' = Inr (i + 1, c')
     \<and> read_until_run c' = ResValue (VOctets (take i ''a;b;''))"
proof -
  have "sublist [CHR '';''] ''a;b;''" by (simp add: sublist_Cons_right)
  with read_until_first_terminator [of "[CHR '';'']" init_io "''a;b;''"] show ?thesis by auto
qed



text \<open>With an escape the reader is not insensitive to how the input arrives: when an escape
  sequence is complete but the terminator is missing, the octets before it are appended to the
  buffer although none of them is consumed, and offering the input again appends them once
  more.\<close>

theorem escape_retry_duplicates:
  assumes "esc_seq \<noteq> []" and "find_sub esc_seq s = Some e"
    and "find_sub terminator s = None"
    and "find_sub esc_seq (drop (e + length esc_seq) s) = None"
    and "find_sub terminator (drop (e + length esc_seq) s) = None"
  shows "read_until_handle_read terminator (Some (esc_char, esc_seq)) c s =
           Inr (0, c\<lparr>io_buffer := io_buffer c @ take e s @ esc_char\<rparr>)
       \<and> read_until_handle_read terminator (Some (esc_char, esc_seq))
             (c\<lparr>io_buffer := io_buffer c @ take e s @ esc_char\<rparr>) s =
           Inr (0, c\<lparr>io_buffer := io_buffer c @ take e s @ esc_char @ take e s @ esc_char\<rparr>)"
proof -
  have pos: "0 < length s" using find_sub_SomeD [OF assms(2)] assms(1) by (cases s) auto
  have *: "read_until_handle_read terminator (Some (esc_char, esc_seq)) d s =
      Inr (0, d\<lparr>io_buffer := io_buffer d @ take e s @ esc_char\<rparr>)" for d
    using read_escaped_escape [OF pos, of esc_seq e terminator esc_char d] assms
      read_escaped_nothing [of esc_seq "e + length esc_seq" s terminator esc_char]
    by (simp add: read_until_handle_read_def)
  from * [of c] * [of "c\<lparr>io_buffer := io_buffer c @ take e s @ esc_char\<rparr>"] show ?thesis by simp
qed

theorem escape_retry_duplicates_witness:
  "read_until_handle_read '';'' (Some ('','', ''%2C'')) (init_io\<lparr>io_buffer := io_buffer init_io @ take 1 ''a%2Cb'' @ '',''\<rparr>) ''a%2Cb''
     = Inr (0, init_io\<lparr>io_buffer := io_buffer init_io @ take 1 ''a%2Cb'' @ '','' @ take 1 ''a%2Cb'' @ '',''\<rparr>)"
  by (rule conjunct2 [OF escape_retry_duplicates]) simp_all

text \<open>A non-negative integer whose decimal form has no digit 9 is written by \<open>IntToAscii\<close>
  and read back by \<open>ReadIntFromAscii\<close> once an octet that is not scanned follows, which is not
  consumed.\<close>

theorem decimal_roundtrip:
  assumes "n < 2 ^ 31" and "CHR ''9'' \<notin> set (decimal_nat n)" and "\<not> scanned_digit x"
  shows "int_to_ascii_apply (VInt (word_of_nat n)) = VOctets (decimal_nat n)
     \<and> (\<exists>c. read_int_ascii_handle_read init_io (decimal_nat n @ x # rest) = (length (decimal_nat n), c)
          \<and> read_int_ascii_run False c = (ResValue (VInt (word_of_nat n)), False))"
proof -
  have "sint (word_of_nat n :: int32) = int n"
    using assms(1) by (simp add: sint_uint unsigned_of_nat take_bit_nat_eq_self
        signed_take_bit_int_eq_self of_nat_take_bit [symmetric] signed_of_nat)
  then have "int_to_ascii_apply (VInt (word_of_nat n)) = VOctets (decimal_nat n)"
    by (simp add: int_to_ascii_apply_def decimal_int_def)
  moreover have "read_int_ascii_handle_read init_io (decimal_nat n @ x # rest) =
      (length (decimal_nat n), init_io\<lparr>io_buffer := decimal_nat n, io_ready := True\<rparr>)"
    using decimal_nat_digits [of n] assms(2,3) by (intro read_int_ascii_consumes) auto
  ultimately show ?thesis using read_int_ascii_decimal [OF assms(1), of init_io] by blast
qed

theorem decimal_roundtrip_witness:
  "\<exists>c. read_int_ascii_handle_read init_io (decimal_nat 207 @ CHR '';'' # []) = (length (decimal_nat 207), c)
          \<and> read_int_ascii_run False c = (ResValue (VInt (word_of_nat 207)), False)"
proof -
  have "CHR ''9'' \<notin> set (decimal_nat 207)" by code_simp
  moreover have "\<not> scanned_digit CHR '';''" by code_simp
  ultimately show ?thesis using decimal_roundtrip [of 207 "CHR '';''" "[]"] by simp
qed

text \<open>The reader does not scan the digit 9: of a number with that digit it takes the digits
  before it as the whole number and leaves the rest in the input.\<close>

theorem digit_nine_not_scanned:
  assumes "\<forall>c \<in> set ds. is_digit c \<and> c \<noteq> CHR ''9''"
  shows "read_int_ascii_handle_read c (ds @ CHR ''9'' # rest) =
      (length ds, c\<lparr>io_buffer := ds, io_ready := True\<rparr>)
     \<and> read_int_ascii_handle_read c (CHR ''9'' # rest) = (0, c\<lparr>io_buffer := [], io_ready := True\<rparr>)
         \<and> read_int_ascii_run False (c\<lparr>io_buffer := [], io_ready := True\<rparr>) = (mismatch, False)"
proof -
  have nine: "\<not> scanned_digit CHR ''9''" by code_simp
  have "strtol_10 [] = (0, False)" using strtol_10_digits [of "[]"] by (simp add: digits_value_def)
  then show ?thesis
    using read_int_ascii_consumes [OF assms nine] read_int_ascii_consumes [of "[]" "CHR ''9''" c rest] nine
    by (simp add: read_int_ascii_run_def)
qed

theorem digit_nine_not_scanned_witness:
  "read_int_ascii_handle_read init_io (''1'' @ CHR ''9'' # '';'') =
     (length ''1'', init_io\<lparr>io_buffer := ''1'', io_ready := True\<rparr>)"
  by (rule conjunct1 [OF digit_nine_not_scanned]) (auto simp: is_digit_def less_eq_char_def)

text \<open>Once \<open>errno\<close> holds a range error, from an earlier number that was too long, every
  later number but 0 is rejected, since \<open>errno\<close> is not reset before the conversion.\<close>

theorem stale_range_error_rejects:
  assumes "n < 2 ^ 31" and "n \<noteq> 0"
  shows "read_int_ascii_run True (c\<lparr>io_buffer := decimal_nat n, io_ready := True\<rparr>) = (mismatch, True)"
proof -
  have "decimal_nat n \<noteq> ''0''"
  proof
    assume "decimal_nat n = ''0''"
    then have "digits_value (decimal_nat n) = 0" by (simp add: digits_value_def digit_value_def)
    then show False using assms(2) by (simp add: decimal_nat_value)
  qed
  moreover have "strtol_10 (decimal_nat n) = (int n, False)"
    using strtol_10_digits [OF decimal_nat_digits, of n] assms by (simp add: decimal_nat_value)
  ultimately show ?thesis by (simp add: read_int_ascii_run_def)
qed

theorem stale_range_error_rejects_witness:
  "read_int_ascii_run True (init_io\<lparr>io_buffer := decimal_nat 5, io_ready := True\<rparr>) = (mismatch, True)"
  by (rule stale_range_error_rejects) simp_all

text \<open>The conditions of a look-ahead are kept in an unordered container; when those that
  hold agree on the target, its answer does not depend on the order they are tried in.\<close>

theorem lookahead_order_independent:
  assumes "set conds' = set conds"
    and "\<And>p q. p \<in> set conds \<Longrightarrow> q \<in> set conds \<Longrightarrow> fst (match_condition c (fst p)) \<Longrightarrow>
          fst (match_condition c (fst q)) \<Longrightarrow> snd p = snd q"
  shows "transition_lookahead_run conds' c = transition_lookahead_run conds c"
  using assms(1) by (rule lookahead_order) (use assms(2) in \<open>auto simp: valid_targets_def\<close>)

theorem lookahead_order_independent_witness:
  "transition_lookahead_run [(StaticString ''B'', ''b''), (StaticString ''A'', ''a'')] (init_io\<lparr>io_buffer := ''AX''\<rparr>)
     = transition_lookahead_run [(StaticString ''A'', ''a''), (StaticString ''B'', ''b'')] (init_io\<lparr>io_buffer := ''AX''\<rparr>)"
  by (rule lookahead_order_independent) (auto simp: init_io_def)

text \<open>A static condition that the input matches exactly to its last octet does not hold
  yet: the look-ahead waits for one more octet, and fails at the end of the input.\<close>

theorem lookahead_needs_one_more_octet:
  "transition_lookahead_run [(StaticString str, target)] (c\<lparr>io_buffer := str\<rparr>) =
     (if io_eof c then mismatch else ResBlocked WaitingForRead)"
  by (simp add: transition_lookahead_run_def)

end
