(* ===== verification/MachineInvariant.thy ===== *)
theory MachineInvariant
  imports Interpreter
begin

text \<open>
  The invariant of the abstract machine and its preservation: every tree, value, context and
  pad address the machine holds is well formed. From it follows that no run, whatever the
  program and the events, fails one of the machine's own assertions or casts.
\<close>

section \<open>Pads hold well-formed values\<close>

definition pads_ok :: "pads \<Rightarrow> bool" where
  "pads_ok ps \<longleftrightarrow> pads_wf ps \<and> (\<forall>a < length ps. \<forall>n v. pad_vars (ps ! a) n = Some v \<longrightarrow> wf_value v)"

lemma pads_okD: "pads_ok ps \<Longrightarrow> a < length ps \<Longrightarrow> pad_vars (ps ! a) n = Some v \<Longrightarrow> wf_value v"
  by (auto simp: pads_ok_def)

lemma pad_bind_ok: "pads_ok ps \<Longrightarrow> wf_value v \<Longrightarrow> pads_ok (pad_bind ps a n v)"
  using same_shape_wf [OF same_shape_bind, of ps a n v]
  by (cases "a < length ps") (auto simp: pads_ok_def pad_bind_def nth_list_update split: if_splits)

lemma pad_initialize_ok: "pads_ok ps \<Longrightarrow> wf_value v \<Longrightarrow> pads_ok (pad_initialize ps a n v)"
  by (auto simp: pad_initialize_def pad_bind_ok split: option.splits)

lemma pad_env_ok: "pads_ok ps \<Longrightarrow> a < length ps \<Longrightarrow> pad_env ps a n = Some v \<Longrightarrow> wf_value v"
proof (induction a rule: less_induct)
  case (less a)
  show ?case
  proof (cases "pad_parent (ps ! a)")
    case None
    with less.prems show ?thesis by (auto simp: pad_env_root dest: pads_okD)
  next
    case (Some p)
    then have "p < a" "p < length ps" using less.prems by (auto simp: pads_ok_def dest: pads_wf_parent)
    with less Some show ?thesis
      by (auto simp: pad_env_child pads_ok_def map_add_def split: option.splits)
  qed
qed

lemma pad_get_ok:
  "pads_ok ps \<Longrightarrow> a < length ps \<Longrightarrow> \<exists>v. pad_get ps a n = Inr v \<and> wf_value v"
  using pad_env_ok [of ps a n] by (auto simp: pad_get_env pads_ok_def split: option.splits)

lemma pad_set_ok:
  "pads_ok ps \<Longrightarrow> a < length ps \<Longrightarrow> wf_value v \<Longrightarrow>
     \<exists>r qs. pad_set ps a n v = Inr (r, qs) \<and> wf_value r \<and> pads_ok qs \<and> same_shape ps qs"
  using pad_set_cases [of ps a n v] pad_env_ok [of ps a n] pad_bind_ok [of ps v]
  by (auto simp: pads_ok_def)

lemma pad_initialize_global_values:
  "pads_ok ps \<Longrightarrow> wf_value v \<Longrightarrow> pad_initialize_global ps a n v = Inr qs \<Longrightarrow> pads_ok qs"
proof (induction ps a n v arbitrary: qs rule: pad_initialize_global.induct)
  case (1 ps a n v)
  show ?case
    using "1.prems" "1.IH"
    by (auto simp: pad_initialize_global.simps [of ps a n v] pad_initialize_ok split: if_splits option.splits)
qed

lemma pad_initialize_global_ok:
  "pads_ok ps \<Longrightarrow> a < length ps \<Longrightarrow> wf_value v \<Longrightarrow>
     \<exists>qs. pad_initialize_global ps a n v = Inr qs \<and> pads_ok qs \<and> same_shape ps qs"
  using pad_initialize_global_checked [of ps a n v] pad_initialize_global_values [of ps v a n]
    pad_initialize_global_shape [of ps a n v]
  by (auto simp: pads_ok_def)

lemma alloc_pad_ok:
  "pads_ok ps \<Longrightarrow> (\<forall>p. par = Some p \<longrightarrow> p < length ps) \<Longrightarrow> pads_ok (fst (alloc_pad ps par))"
  using alloc_pad_wf [of ps par]
  by (auto simp: pads_ok_def alloc_pad_def new_pad_def nth_append less_Suc_eq)

section \<open>Contexts and frames\<close>

definition ctx_ok :: "operation \<Rightarrow> op_context \<Rightarrow> bool" where
  "ctx_ok op ctx =
     (if is_control_flow_operation op then
        (\<exists>c. ctx = CtxControlFlow c \<and> (case op of Op_StateMachineOperation m \<Rightarrow> sm_wf c | _ \<Rightarrow> cf_wf c))
      else if is_callback_operation op then
        (\<exists>c. ctx = CtxCallback c \<and> (\<forall>v. cb_value c = Some v \<longrightarrow> wf_value v))
      else if is_io_operation op then
        (\<exists>c. ctx = CtxIO c \<and> (op = Op_ReadInt32Native \<longrightarrow> length (io_buffer c) \<le> 4))
      else True)"

lemma ctx_ok_init: "ctx_ok op (initialize_context op)"
  by (cases op) (auto simp: ctx_ok_def initialize_context_def init_callback_def init_io_def
      function_call.inv_init state_machine.inv_init)

definition frame_ok :: "pads \<Rightarrow> frame \<Rightarrow> bool" where
  "frame_ok ps f \<longleftrightarrow> wf_node (fr_node f) \<and> (\<forall>v \<in> set (fr_accumulator f). wf_value v)
     \<and> ctx_ok (node_operation (fr_node f)) (fr_ctx f) \<and> fr_pad f < length ps"

lemma new_frame_ok: "wf_node n \<Longrightarrow> p < length ps \<Longrightarrow> frame_ok ps (new_frame n p)"
  by (simp add: frame_ok_def new_frame_def ctx_ok_init)

lemma frame_push_back_ok: "frame_ok ps f \<Longrightarrow> wf_value v \<Longrightarrow> frame_ok ps (frame_push_back f v)"
  by (simp add: frame_ok_def frame_push_back_def)

lemma frame_ok_mono: "frame_ok ps f \<Longrightarrow> length ps \<le> length qs \<Longrightarrow> frame_ok qs f"
  by (auto simp: frame_ok_def)

section \<open>\<open>prepare\<close> always finds an operation to execute\<close>

lemma next_op_ok:
  assumes "wf_node (fr_node f)" and "\<not> has_arguments_ready f"
  shows "\<exists>n. next_op f = Inr n \<and> n \<in> set (node_children (fr_node f)) \<and> wf_node n"
proof -
  obtain op cs where n: "fr_node f = OpTreeNode op cs" by (cases "fr_node f")
  have len: "length (fr_accumulator f) < length cs"
    using assms by (auto simp: n has_arguments_ready_def split: option.splits if_splits)
  then have "next_op f = Inr (cs ! length (fr_accumulator f))"
    using assms(2) by (simp add: next_op_def n)
  then show ?thesis using assms(1) nth_mem [OF len] by (simp add: n)
qed

lemma descend_ok:
  "st \<noteq> [] \<Longrightarrow> \<forall>f \<in> set st. frame_ok ps f \<Longrightarrow>
     \<exists>f fs. descend st = Inr (f # fs) \<and> (\<forall>f \<in> set (f # fs). frame_ok ps f) \<and> has_arguments_ready f"
proof (induction st rule: descend.induct)
  case (2 f fs)
  show ?case
  proof (cases "has_arguments_ready f")
    case False
    from 2 have f: "frame_ok ps f" by simp
    then obtain n where n: "next_op f = Inr n" "wf_node n"
      using next_op_ok [of f] False by (auto simp: frame_ok_def)
    have "\<forall>f \<in> set (new_frame n (fr_pad f) # f # fs). frame_ok ps f"
      using 2(3) n(2) f by (auto simp: frame_ok_def [of ps f] intro: new_frame_ok)
    from "2.IH" [OF False n(1) _ this] show ?thesis using False n(1) by simp
  qed (use 2 in auto)
qed simp

section \<open>Executing\<close>

definition invocable :: "op_context \<Rightarrow> bool" where
  "invocable ctx \<longleftrightarrow> (\<exists>c. ctx = CtxControlFlow c \<and> cf_callable c \<noteq> None)"

definition globals_step :: "globals \<Rightarrow> globals \<Rightarrow> bool" where
  "globals_step g g' \<longleftrightarrow> pads_ok (g_pads g') \<and> same_shape (g_pads g) (g_pads g')"

definition exec_outcome :: "operation \<Rightarrow> globals \<Rightarrow> exec_result \<Rightarrow> bool" where
  "exec_outcome op g x =
     (case x of
        Inl e \<Rightarrow> \<not> machine_fault e
      | Inr (r, ctx, g') \<Rightarrow> ctx_ok op ctx \<and> globals_step g g'
          \<and> (case r of
               ResValue v \<Rightarrow> wf_value v
             | ResBlocked b \<Rightarrow> b = WaitingForCallableInvocation \<longrightarrow> is_control_flow_operation op \<and> invocable ctx))"

lemma exec_outcome_Inl [simp]: "exec_outcome op g (Inl e) \<longleftrightarrow> \<not> machine_fault e"
  by (simp add: exec_outcome_def)

lemma exec_plain:
  "pads_ok (g_pads g) \<Longrightarrow> ctx_ok op ctx \<Longrightarrow> wf_value v \<Longrightarrow> exec_outcome op g (plain ctx g v)"
  by (simp add: exec_outcome_def plain_def globals_step_def)

lemma exec_in_pads:
  "ctx_ok op ctx \<Longrightarrow> x = Inr (v, ps) \<Longrightarrow> wf_value v \<Longrightarrow> pads_ok ps \<Longrightarrow> same_shape (g_pads g) ps \<Longrightarrow>
     exec_outcome op g (in_pads ctx g x)"
  by (simp add: exec_outcome_def in_pads_def globals_step_def)

lemma exec_control_flow:
  assumes "pads_ok (g_pads g)" and "is_control_flow_operation op" and "ctx_ok op (CtxControlFlow c)"
    and "cf_outcome (\<lambda>c. ctx_ok op (CtxControlFlow c)) (f c)"
  shows "exec_outcome op g (in_ctx g (on_control_flow (CtxControlFlow c) f))"
  using assms
  by (auto simp: in_ctx_def on_control_flow_def exec_outcome_def globals_step_def cf_outcome_def invocable_def
      split: sum.splits op_result.splits)

text \<open>An operation on octets answers with a well-formed value or waits for octets.\<close>

definition io_outcome :: "operation \<Rightarrow> (op_result \<times> io_ctx) checked \<Rightarrow> bool" where
  "io_outcome op x =
     (case x of
        Inl e \<Rightarrow> \<not> machine_fault e
      | Inr (r, c) \<Rightarrow> ctx_ok op (CtxIO c)
          \<and> (case r of ResValue v \<Rightarrow> wf_value v | ResBlocked b \<Rightarrow> b \<in> {WaitingForRead, WaitingForWrite}))"

lemma exec_io:
  assumes "pads_ok (g_pads g)" and "io_outcome op (f c)"
  shows "exec_outcome op g (in_ctx g (on_io (CtxIO c) f))"
  using assms
  by (auto simp: in_ctx_def on_io_def exec_outcome_def globals_step_def io_outcome_def
      split: sum.splits op_result.splits)

lemma io_outcome_read:
  assumes "(\<exists>v. r = ResValue v \<and> wf_value v) \<or> r = ResBlocked WaitingForRead"
    and "ctx_ok op (CtxIO c)"
  shows "io_outcome op (Inr (r, c))"
  using assms by (auto simp: io_outcome_def)

lemma write_wait_cases:
  "write_wait c \<in> {mismatch, ResBlocked WaitingForWrite, ResValue (VInt 0)}"
  by (simp add: write_wait_def)

lemma io_outcome_write:
  assumes "r = write_wait c \<or> (\<exists>v. r = ResValue v \<and> wf_value v)"
    and "is_io_operation op" and "op \<noteq> Op_ReadInt32Native"
  shows "io_outcome op (Inr (r, c))"
proof -
  have "ctx_ok op (CtxIO c)" using assms(2,3) by (cases op) (auto simp: ctx_ok_def)
  then show ?thesis using assms(1) write_wait_cases [of c] by (auto simp: io_outcome_def)
qed

lemma write_octets_outcome:
  "wf_value v \<Longrightarrow> io_outcome Op_WriteOctets (Inr (write_octets_run c v))"
  by (auto simp: write_octets_run_def Let_def intro: io_outcome_write split: gvalue.splits)

lemma write_static_outcome: "io_outcome (Op_WriteStaticOctets s) (Inr (write_static_run s c))"
  by (auto simp: write_static_run_def Let_def intro: io_outcome_write)

lemma write_int32_outcome: "io_outcome Op_WriteInt32Native (write_int32_run c v)"
proof -
  have "io_outcome Op_WriteInt32Native (Inr (write_wait c', c'))" for c'
    by (rule io_outcome_write) auto
  moreover have "io_outcome Op_WriteInt32Native (Inl BadVariantAccess)" by (simp add: io_outcome_def)
  ultimately show ?thesis by (auto simp: write_int32_run_def Let_def split: gvalue.splits)
qed

lemma write_escaped_outcome:
  "wf_value v \<Longrightarrow> io_outcome (Op_WriteOctetsWithEscape ec es) (write_escaped_run ec es c v)"
proof -
  assume v: "wf_value v"
  have w: "io_outcome (Op_WriteOctetsWithEscape ec es) (Inr (write_wait c', c'))" for c'
    by (rule io_outcome_write) auto
  have "io_outcome (Op_WriteOctetsWithEscape ec es) (chk_bind (apply_escape_replacement s ec es)
          (\<lambda>b. let c' = c\<lparr>io_buffer := b, io_it := 0\<rparr> in Inr (write_wait c', c')))" for s
    using w by (cases "apply_escape s ec es 0 []")
      (auto simp: apply_escape_replacement_def Let_def io_outcome_def [of _ "Inl NonTermination"])
  then show ?thesis
    using w v by (auto simp: write_escaped_run_def intro: io_outcome_write split: gvalue.splits)
qed

lemma read_until_run_cases:
  "(\<exists>v. read_until_run c = ResValue v \<and> wf_value v) \<or> read_until_run c = ResBlocked WaitingForRead"
  by (simp add: read_until_run_def)

lemma argument_wf:
  "\<forall>n. op_arity op = Some n \<longrightarrow> n \<le> length vs \<Longrightarrow> \<forall>v \<in> set vs. wf_value v \<Longrightarrow>
     op_arity op = Some n \<Longrightarrow> i < n \<Longrightarrow> wf_value (vs ! i)"
  by (meson less_le_trans nth_mem)

lemma io_operation_outcome:
  assumes "is_io_operation op" and "ctx_ok op (CtxIO c)" and "pads_ok (g_pads g)"
    and "\<forall>n. op_arity op = Some n \<longrightarrow> n \<le> length vs" and "\<forall>v \<in> set vs. wf_value v"
  shows "exec_outcome op g (execute_specific_operation op vs (CtxIO c) p g)"
proof (cases op)
  case Op_ReadIntFromAscii
  obtain r e where r: "read_int_ascii_run (g_erange g) c = (r, e)" by fastforce
  then show ?thesis
    using read_int.run_cases [of "g_erange g" c] assms(2,3) Op_ReadIntFromAscii
    by (auto simp: exec_outcome_def globals_step_def)
qed (use assms argument_wf [OF assms(4,5), of 1 0] in \<open>auto intro!: exec_io io_outcome_read write_octets_outcome write_static_outcome
      write_int32_outcome write_escaped_outcome read_until_run_cases read_int32.run_cases
      read_static.run_cases terminate_list.run_cases lookahead.run_cases\<close>)

lemma control_flow_operation_outcome:
  assumes "is_control_flow_operation op" and "ctx_ok op (CtxControlFlow c)" and "pads_ok (g_pads g)"
    and "wf_op op"
    and "\<forall>n. op_arity op = Some n \<longrightarrow> n \<le> length vs" and "\<forall>v \<in> set vs. wf_value v"
  shows "exec_outcome op g (execute_specific_operation op vs (CtxControlFlow c) p g)"
proof -
  note v = argument_wf [OF assms(5,6)]
  note rules = exec_control_flow [OF assms(3) _ assms(2)] function_call_outcome for_each_outcome
    generate_list_outcome if_outcome state_machine_outcome
  show ?thesis
  proof (cases op)
    case Op_FunctionCall
    then show ?thesis
      using rules(1) [of "\<lambda>c. function_call_run c (vs ! 0) (vs ! 1)"] rules(2) [of "vs ! 0" "vs ! 1" c]
        assms(2) v [of 2 0] v [of 2 1] by (simp add: ctx_ok_def)
  next
    case (Op_FunctionCallForEach single)
    then show ?thesis
      using rules(1) [of "\<lambda>c. function_call_for_each_run c (vs ! 0) (vs ! 1)"] rules(3) [of "vs ! 0" "vs ! 1" c]
        assms(2) v [of 2 0] v [of 2 1] by (simp add: ctx_ok_def)
  next
    case Op_GenerateList
    then show ?thesis
      using rules(1) [of "\<lambda>c. generate_list_run c (vs ! 0)"] rules(4) [of "vs ! 0" c]
        assms(2) v [of 1 0] by (simp add: ctx_ok_def)
  next
    case Op_If
    then show ?thesis
      using rules(1) [of "\<lambda>c. if_run c (vs ! 0) (vs ! 1) (vs ! 2)"] rules(5) [of "vs ! 0" "vs ! 1" "vs ! 2" c]
        assms(2) v [of 3 0] v [of 3 1] v [of 3 2] by (simp add: ctx_ok_def)
  next
    case (Op_StateMachineOperation states)
    then show ?thesis
      using rules(1) [of "state_machine_run states"] rules(6) [of states c] assms(2,4)
      by (simp add: ctx_ok_def wf_states_def)
  qed (use assms(1) in auto)
qed

lemma wf_binary:
  "wf_value v \<Longrightarrow> wf_value w \<Longrightarrow> wf_value (add_apply v w) \<and> wf_value (subtract_apply v w)
     \<and> wf_value (multiply_apply v w) \<and> wf_value (eq_apply v w) \<and> wf_value (lesser_equal_apply v w)"
  by (simp add: add.wf_result subtract.wf_result multiply.wf_result eq.wf_result lesser_equal.wf_result)

lemma unary_callback_outcome:
  assumes "ctx_ok (Op_UnaryCallback k) ctx" and "pads_ok (g_pads g)"
  shows "exec_outcome (Op_UnaryCallback k) g
    (execute_specific_operation (Op_UnaryCallback k) vs ctx p g)"
  using assms
  by (auto simp: ctx_ok_def in_ctx_def on_callback_def exec_outcome_def globals_step_def unary_callback_run_def
      split: option.splits)

lemma plain_operation_outcome:
  assumes "\<not> is_control_flow_operation op" "\<not> is_io_operation op" "\<not> is_callback_operation op"
    and "ctx_ok op ctx" and "pads_ok (g_pads g)" and "wf_op op" and "p < length (g_pads g)"
    and "\<forall>n. op_arity op = Some n \<longrightarrow> n \<le> length vs" and "\<forall>v \<in> set vs. wf_value v"
  shows "exec_outcome op g (execute_specific_operation op vs ctx p g)"
proof -
  note v = argument_wf [OF assms(8,9)]
  note pd = exec_in_pads [OF assms(4)]
  show ?thesis
  proof (cases op)
    case (Op_LexicalPadGet n)
    then show ?thesis
      using pad_get_ok [OF assms(5,7), of n] pd [of _ _ "g_pads g" g] assms(5) by fastforce
  next
    case (Op_LexicalPadSet n)
    then have "wf_value (vs ! 0)" using v [of 1 0] by simp
    from pad_set_ok [OF assms(5,7) this, of n] show ?thesis using Op_LexicalPadSet pd by fastforce
  next
    case (Op_LexicalPadInitialize n)
    then have "wf_value (vs ! 0)" using v [of 1 0] by simp
    with pad_initialize_ok [OF assms(5) this, of p n] pad_initialize_shape [of "g_pads g" p n "vs ! 0"] show ?thesis
      using Op_LexicalPadInitialize assms(7)
        pd [of "Inr (vs ! 0, pad_initialize (g_pads g) p n (vs ! 0))"] by simp
  next
    case (Op_LexicalPadInitializeGlobal n)
    then have w: "wf_value (vs ! 0)" using v [of 1 0] by simp
    from pad_initialize_global_ok [OF assms(5,7) w, of n] show ?thesis
      using Op_LexicalPadInitializeGlobal w pd by fastforce
  next
    case Op_LexicalPadAsDict
    have "wf_value (VDictionary (pad_vars (g_pads g ! p)))"
      using assms(5,7) by (auto simp: pads_ok_def)
    then show ?thesis
      using Op_LexicalPadAsDict assms(5,7) pd [of "Inr (VDictionary (pad_vars (g_pads g ! p)), g_pads g)"]
      by (simp add: pad_as_dict_def)
  qed (use assms v [of 2 0] v [of 2 1] v [of 1 0] wf_binary [of "vs ! 0" "vs ! 1"] in
      \<open>auto intro!: exec_plain wf_int_to_ascii wf_static_callable wf_dictionary_set wf_dictionary_get wf_op_sequence
        simp: dynamic_list_apply_def int32_literal_apply_def dictionary_initialize_apply_def\<close>)
qed

lemma execute_outcome:
  assumes "frame_ok (g_pads g) f" and "pads_ok (g_pads g)" and "has_arguments_ready f"
  shows "exec_outcome (node_operation (fr_node f)) g (execute f g)"
proof -
  obtain op cs where n: "fr_node f = OpTreeNode op cs" by (cases "fr_node f")
  have ar: "\<forall>n. op_arity op = Some n \<longrightarrow> n \<le> length (fr_accumulator f)"
    using assms(3) by (auto simp: has_arguments_ready_def n)
  from assms(1) have w: "wf_op op" "\<forall>v \<in> set (fr_accumulator f). wf_value v" "ctx_ok op (fr_ctx f)"
      "fr_pad f < length (g_pads g)"
    by (simp_all add: frame_ok_def n)
  have e: "execute f g = execute_specific_operation op (fr_accumulator f) (fr_ctx f) (fr_pad f) g"
    using assms(3) by (simp add: execute_def n)
  show ?thesis
  proof (cases "is_control_flow_operation op")
    case True
    then obtain c where "fr_ctx f = CtxControlFlow c" using w(3) by (auto simp: ctx_ok_def)
    with control_flow_operation_outcome [OF True _ assms(2) w(1) ar w(2)] w(3) show ?thesis
      by (simp add: e n)
  next
    case cf: False
    show ?thesis
    proof (cases "is_callback_operation op")
      case True
      then obtain k where "op = Op_UnaryCallback k" by (cases op) auto
      with unary_callback_outcome w(3) assms(2) show ?thesis by (simp add: e n del: execute_specific_operation.simps)
    next
      case cb: False
      show ?thesis
      proof (cases "is_io_operation op")
        case True
        then obtain c where "fr_ctx f = CtxIO c" using w(3) cf cb by (auto simp: ctx_ok_def)
        with io_operation_outcome [OF True _ assms(2) ar w(2)] w(3) show ?thesis by (simp add: e n)
      next
        case False
        from plain_operation_outcome [OF cf False cb w(3) assms(2) w(1,4) ar w(2)] show ?thesis
          by (simp add: e n)
      qed
    qed
  qed
qed

section \<open>Continuations\<close>

definition continuation_ok :: "pads \<Rightarrow> continuation \<Rightarrow> bool" where
  "continuation_ok ps c \<longleftrightarrow> (\<forall>f \<in> set (ct_stack c). frame_ok ps f) \<and> ct_pad c < length ps
     \<and> (\<forall>v. ct_result c = ResValue v \<longrightarrow> wf_value v)
     \<and> (ct_stack c = [] \<longrightarrow> (\<exists>v. ct_result c = ResValue v))"

lemma continuation_ok_mono: "continuation_ok ps c \<Longrightarrow> length ps \<le> length qs \<Longrightarrow> continuation_ok qs c"
  by (auto simp: continuation_ok_def intro: frame_ok_mono)

lemma new_continuation_ok: "wf_tree t \<Longrightarrow> p < length ps \<Longrightarrow> continuation_ok ps (new_continuation t p)"
  by (cases t) (simp add: continuation_ok_def new_continuation_def new_frame_ok)

lemma prepare_ok:
  assumes "continuation_ok ps c" and "ct_stack c \<noteq> []"
  shows "\<exists>c' f fs. prepare c = Inr (Ready, c') \<and> continuation_ok ps c' \<and> ct_stack c' = f # fs \<and> has_arguments_ready f
     \<and> ct_result c' = ct_result c"
  using descend_ok [of "ct_stack c" ps] assms by (fastforce simp: prepare_def continuation_ok_def)

text \<open>What a step of a continuation may come to.\<close>

definition step_outcome ::
  "globals \<Rightarrow> (continuation_state \<times> continuation \<times> globals) checked \<Rightarrow> bool" where
  "step_outcome g x =
     (case x of
        Inl e \<Rightarrow> \<not> machine_fault e
      | Inr (s, c, g') \<Rightarrow> continuation_ok (g_pads g') c \<and> globals_step g g'
          \<and> (s = Blocked \<longrightarrow> (\<exists>b. ct_result c = ResBlocked b \<and>
                (b = WaitingForCallableInvocation \<longrightarrow>
                  (\<exists>f fs. ct_stack c = f # fs \<and> is_control_flow_operation (node_operation (fr_node f))
                    \<and> invocable (fr_ctx f)))))
          \<and> (s = Exited \<longrightarrow> (\<exists>v. ct_result c = ResValue v))
          \<and> (s \<noteq> Exited \<longrightarrow> ct_stack c \<noteq> []))"

lemma continuation_step_outcome:
  assumes "continuation_ok (g_pads g) c" and "pads_ok (g_pads g)"
  shows "step_outcome g (continuation_step c g)"
proof (cases "ct_stack c")
  case Nil
  with assms show ?thesis
    by (auto simp: continuation_step_def prepare_def step_outcome_def continuation_ok_def globals_step_def)
next
  case (Cons f0 fs0)
  then obtain c' f fs where p: "prepare c = Inr (Ready, c')" "continuation_ok (g_pads g) c'"
      "ct_stack c' = f # fs" "has_arguments_ready f"
    using prepare_ok [OF assms(1)] by (metis list.distinct(1))
  have fr: "frame_ok (g_pads g) f" "\<forall>f \<in> set fs. frame_ok (g_pads g) f" "ct_pad c' < length (g_pads g)"
    using p(2,3) by (auto simp: continuation_ok_def)
  note out = execute_outcome [OF fr(1) assms(2) p(4)]
  show ?thesis
  proof (cases "execute f g")
    case (Inl e)
    with out p show ?thesis by (simp add: continuation_step_def step_outcome_def stack_top_def)
  next
    case (Inr x)
    obtain r ctx g' where x: "x = (r, ctx, g')" by (cases x)
    from out have ctx: "ctx_ok (node_operation (fr_node f)) ctx" and gs: "globals_step g g'"
      by (simp_all add: Inr x exec_outcome_def)
    have len: "length (g_pads g') = length (g_pads g)"
      using gs by (simp add: globals_step_def same_shape_length)
    have f': "frame_ok (g_pads g') (f\<lparr>fr_ctx := ctx\<rparr>)" "\<forall>f \<in> set fs. frame_ok (g_pads g') f"
      using fr ctx len by (auto simp: frame_ok_def)
    show ?thesis
    proof (cases r)
      case (ResBlocked b)
      then show ?thesis
        using out p gs f' fr(3) len
        by (auto simp: continuation_step_def step_outcome_def stack_top_def Inr x exec_outcome_def continuation_ok_def)
    next
      case (ResValue v)
      then have "wf_value v" using out by (simp add: Inr x exec_outcome_def)
      then show ?thesis
        using ResValue p gs f' fr(3) len
        by (cases fs) (auto simp: continuation_step_def step_outcome_def stack_top_def Inr x continuation_ok_def
            frame_push_back_ok)
    qed
  qed
qed

section \<open>Events\<close>

definition event_ok :: "operation \<Rightarrow> ('b \<times> op_context) checked \<Rightarrow> bool" where
  "event_ok op x = (case x of Inl e \<Rightarrow> \<not> machine_fault e | Inr (r, ctx) \<Rightarrow> ctx_ok op ctx)"

lemma event_ok_Inl [simp]: "event_ok op (Inl e) \<longleftrightarrow> \<not> machine_fault e"
  by (simp add: event_ok_def)

lemma event_ok_Inr [simp]: "event_ok op (Inr (r, ctx)) \<longleftrightarrow> ctx_ok op ctx"
  by (simp add: event_ok_def)

lemma event_on_io:
  "ctx_ok op ctx \<Longrightarrow> is_io_operation op \<Longrightarrow>
     (\<And>c. ctx_ok op (CtxIO c) \<Longrightarrow> (case f c of Inl e \<Rightarrow> \<not> machine_fault e | Inr (r, c') \<Rightarrow> ctx_ok op (CtxIO c'))) \<Longrightarrow>
     event_ok op (on_io ctx f)"
  by (cases op; cases ctx) (fastforce simp: ctx_ok_def on_io_def event_ok_def split: sum.splits)+

lemma ctx_ok_io:
  "is_io_operation op \<Longrightarrow> ctx_ok op ctx \<longleftrightarrow>
     (\<exists>c. ctx = CtxIO c \<and> (op = Op_ReadInt32Native \<longrightarrow> length (io_buffer c) \<le> 4))"
  by (cases op) (auto simp: ctx_ok_def)

lemma op_handle_read_ok: "ctx_ok op ctx \<Longrightarrow> event_ok op (op_handle_read op ctx s)"
proof (cases "is_io_operation op")
  case True
  assume "ctx_ok op ctx"
  with True obtain c where c: "ctx = CtxIO c" "op = Op_ReadInt32Native \<longrightarrow> length (io_buffer c) \<le> 4"
    by (auto simp: ctx_ok_io)
  show ?thesis
  proof (cases op)
    case (Op_ReadOctetsUntilTerminator t e)
    have "\<not> machine_fault x" if "read_until_handle_read t e c s = Inl x" for x
      using that by (auto simp: read_until_handle_read_def chk_the_def split: option.splits)
    then show ?thesis
      using Op_ReadOctetsUntilTerminator c
      by (cases "read_until_handle_read t e c s") (auto simp: on_io_def ctx_ok_io)
  qed (use True c in \<open>auto simp: on_io_def ctx_ok_io read_int32_handle_read_def Let_def split: prod.split\<close>)
next
  case False
  moreover assume "ctx_ok op ctx"
  ultimately show ?thesis by (cases op) auto
qed

lemma op_handle_write_ok: "ctx_ok op ctx \<Longrightarrow> event_ok op (op_handle_write op ctx n)"
proof (cases "is_io_operation op")
  case True
  assume "ctx_ok op ctx"
  with True obtain c where c: "ctx = CtxIO c" "op = Op_ReadInt32Native \<longrightarrow> length (io_buffer c) \<le> 4"
    by (auto simp: ctx_ok_io)
  with True show ?thesis by (cases op) (auto simp: on_io_def ctx_ok_io split: prod.split)
next
  case False
  moreover assume "ctx_ok op ctx"
  ultimately show ?thesis by (cases op) auto
qed

lemma op_get_write_buffer_ok: "ctx_ok op ctx \<Longrightarrow> event_ok op (op_get_write_buffer op ctx)"
  by (cases op) (auto simp: on_io_def ctx_ok_io)

lemma op_ready_to_evaluate_ok: "ctx_ok op ctx \<Longrightarrow> event_ok op (op_ready_to_evaluate op ctx)"
  by (cases op) (auto simp: on_io_def ctx_ok_io)

lemma op_handle_eof_ok: "ctx_ok op ctx \<Longrightarrow> event_ok op (op_handle_eof op ctx)"
  by (auto simp: op_handle_eof_def on_io_def ctx_ok_io io_handle_eof_def)

lemma op_callback_ok:
  "ctx_ok op ctx \<Longrightarrow> event_ok op (op_set_callback_called op ctx)"
  "ctx_ok op ctx \<Longrightarrow> wf_value v \<Longrightarrow> event_ok op (op_set_callback_return op ctx v)"
  "ctx_ok op ctx \<Longrightarrow> event_ok op (op_get_callback_key op ctx)"
  by (cases op; auto simp: op_set_callback_called_def op_set_callback_return_def op_get_callback_key_def
      on_callback_def ctx_ok_def unary_callback_set_called_def unary_callback_set_return_def)+

lemma ctx_ok_control_flow:
  "is_control_flow_operation op \<Longrightarrow> ctx_ok op ctx \<longleftrightarrow>
     (\<exists>c. ctx = CtxControlFlow c \<and> (case op of Op_StateMachineOperation m \<Rightarrow> sm_wf c | _ \<Rightarrow> cf_wf c))"
  by (simp add: ctx_ok_def)

lemma op_set_callable_invoked_ok: "ctx_ok op ctx \<Longrightarrow> event_ok op (op_set_callable_invoked op ctx)"
  by (cases op) (auto simp: op_set_callable_invoked_def on_control_flow_def ctx_ok_control_flow
      state_machine.invoked_inv)

lemma op_set_callable_return_ok:
  "ctx_ok op ctx \<Longrightarrow> wf_value v \<Longrightarrow> event_ok op (op_set_callable_return op ctx v)"
  by (cases op) (auto simp: op_set_callable_return_def on_control_flow_def ctx_ok_control_flow
      state_machine.return_inv)

lemma ctx_ok_cf_wf: "ctx_ok op (CtxControlFlow c) \<Longrightarrow> is_control_flow_operation op \<Longrightarrow> cf_wf c"
  by (cases op) (auto simp: ctx_ok_def sm_wf_def)

lemma op_get_callable_ok:
  assumes "ctx_ok op ctx" and "is_control_flow_operation op" and "invocable ctx"
  shows "\<exists>k. op_get_callable op ctx = Inr (VCallable k, ctx) \<and> wf_callable k"
proof -
  from assms(3) obtain c where c: "ctx = CtxControlFlow c" "cf_callable c \<noteq> None"
    by (auto simp: invocable_def)
  with ctx_ok_cf_wf assms(1,2) have "cf_wf c" by simp
  with c assms(2) show ?thesis
    by (auto simp: op_get_callable_def on_control_flow_def cf_get_callable_def cf_wf_def)
qed

lemma on_control_flow_const:
  "on_control_flow (CtxControlFlow c) (\<lambda>c. chk_bind (f c) (\<lambda>vs. Inr (vs, c))) =
     chk_bind (f c) (\<lambda>vs. Inr (vs, CtxControlFlow c))"
  by (cases "f c") (simp_all add: on_control_flow_def)

lemma op_get_argument_list_ok:
  assumes "ctx_ok op ctx" and "is_control_flow_operation op"
  shows "case op_get_argument_list op ctx of
      Inl e \<Rightarrow> \<not> machine_fault e
    | Inr (vs, ctx') \<Rightarrow> ctx' = ctx \<and> (\<forall>ws. vs = Some ws \<longrightarrow> (\<forall>v \<in> set ws. wf_value v))"
proof -
  from assms obtain c where c: "ctx = CtxControlFlow c" by (auto simp: ctx_ok_def)
  with ctx_ok_cf_wf assms have wf: "cf_wf c" by simp
  have *: "case chk_bind (f c) (\<lambda>vs. Inr (vs, CtxControlFlow c)) of
      Inl e \<Rightarrow> \<not> machine_fault e
    | Inr (vs, ctx') \<Rightarrow> ctx' = ctx \<and> (\<forall>ws. vs = Some ws \<longrightarrow> (\<forall>v \<in> set ws. wf_value v))"
    if "\<And>e. f c = Inl e \<Longrightarrow> \<not> machine_fault e" and "\<And>ws. f c = Inr (Some ws) \<Longrightarrow> \<forall>v \<in> set ws. wf_value v" for f
    using that by (cases "f c") (auto simp: c)
  show ?thesis
  proof (cases op)
    case Op_FunctionCall
    then show ?thesis
      using * [of function_call_argument_list] wf
      by (simp add: op_get_argument_list_def c on_control_flow_const function_call_argument_list_def cf_wfD)
  next
    case (Op_FunctionCallForEach single)
    then show ?thesis
      using * [of "function_call_for_each_argument_list single"] for_each_argument_list_ok [OF wf, of single]
        for_each_argument_list_fault [of single c]
      by (simp add: op_get_argument_list_def c on_control_flow_const)
  next
    case Op_GenerateList
    then show ?thesis
      using * [of generate_list_argument_list] wf
      by (simp add: op_get_argument_list_def c on_control_flow_const generate_list_argument_list_def cf_wfD)
  next
    case Op_If
    then show ?thesis
      using * [of if_argument_list] wf
      by (simp add: op_get_argument_list_def c on_control_flow_const if_argument_list_def cf_wfD)
  next
    case (Op_StateMachineOperation states)
    then show ?thesis
      using * [of state_machine_argument_list] wf
      by (simp add: op_get_argument_list_def c on_control_flow_const state_machine_argument_list_def cf_wfD)
  qed (use assms(2) in auto)
qed

section \<open>The interpreter\<close>

lemma bind_arguments_ok:
  "pads_ok ps \<Longrightarrow> \<forall>v \<in> set vs. wf_value v \<Longrightarrow>
     pads_ok (bind_arguments ps a ns vs) \<and> same_shape ps (bind_arguments ps a ns vs)"
proof (induction ps a ns vs rule: bind_arguments.induct)
  case (1 ps a n ns v vs)
  then show ?case
    using pad_initialize_ok [of ps v a n] pad_initialize_shape [of ps a n v]
    by (auto intro: same_shape_trans)
qed auto

definition interpreter_ok :: "interpreter \<Rightarrow> bool" where
  "interpreter_ok m \<longleftrightarrow> pads_ok (g_pads (in_globals m)) \<and> in_rootpad m < length (g_pads (in_globals m))
     \<and> in_stack m \<noteq> [] \<and> (\<forall>c \<in> set (in_stack m). continuation_ok (g_pads (in_globals m)) c)
     \<and> (\<forall>c \<in> set (tl (in_stack m)). ct_stack c \<noteq> [])"

definition machine_outcome :: "('b \<times> interpreter) checked \<Rightarrow> bool" where
  "machine_outcome x = (case x of Inl e \<Rightarrow> \<not> machine_fault e | Inr (r, m) \<Rightarrow> interpreter_ok m)"

lemma machine_outcome_Inl [simp]: "machine_outcome (Inl e) \<longleftrightarrow> \<not> machine_fault e"
  by (simp add: machine_outcome_def)

lemma machine_outcome_Inr [simp]: "machine_outcome (Inr (r, m)) \<longleftrightarrow> interpreter_ok m"
  by (simp add: machine_outcome_def)

lemma on_top_ok:
  assumes "continuation_ok ps c" and "ct_stack c = f # fs"
    and "\<And>op ctx. ctx_ok op ctx \<Longrightarrow> event_ok op (ev op ctx)"
  shows "case on_top c ev of
      Inl e \<Rightarrow> \<not> machine_fault e
    | Inr (r, c') \<Rightarrow> continuation_ok ps c' \<and> ct_stack c' \<noteq> [] \<and> ct_result c' = ct_result c"
proof -
  have f: "frame_ok ps f" "\<forall>f \<in> set fs. frame_ok ps f" using assms(1,2) by (auto simp: continuation_ok_def)
  then have "event_ok (node_operation (fr_node f)) (ev (node_operation (fr_node f)) (fr_ctx f))"
    by (intro assms(3)) (simp add: frame_ok_def)
  then show ?thesis
    using assms(1,2) f
    by (cases "ev (node_operation (fr_node f)) (fr_ctx f)")
      (auto simp: on_top_def stack_top_def event_ok_def continuation_ok_def frame_ok_def)
qed

lemma on_top_continuation_ok:
  assumes "interpreter_ok m" and "ct_stack (hd (in_stack m)) \<noteq> []"
    and "\<And>ps c f fs. continuation_ok ps c \<Longrightarrow> ct_stack c = f # fs \<Longrightarrow>
        (case ev c of Inl e \<Rightarrow> \<not> machine_fault e
         | Inr (r, c') \<Rightarrow> continuation_ok ps c' \<and> ct_stack c' \<noteq> [] \<and> ct_result c' = ct_result c)"
  shows "machine_outcome (on_top_continuation m ev)"
proof -
  obtain c cs where st: "in_stack m = c # cs" using assms(1) by (cases "in_stack m") (auto simp: interpreter_ok_def)
  obtain f fs where "ct_stack c = f # fs" using assms(2) st by (cases "ct_stack c") auto
  with assms(3) [of "g_pads (in_globals m)" c f fs] assms(1) st show ?thesis
    by (cases "ev c") (auto simp: on_top_continuation_def stack_top_def interpreter_ok_def)
qed

text \<open>The parts of an invocation, one after the other.\<close>

lemma ct_get_callable_ok:
  assumes "continuation_ok ps c" and "ct_stack c = f # fs"
    and "is_control_flow_operation (node_operation (fr_node f))" and "invocable (fr_ctx f)"
  shows "\<exists>k. ct_get_callable c = Inr (VCallable k, c) \<and> wf_callable k"
proof -
  have "ctx_ok (node_operation (fr_node f)) (fr_ctx f)"
    using assms(1,2) by (simp add: continuation_ok_def frame_ok_def)
  from op_get_callable_ok [OF this assms(3,4)] assms(2) show ?thesis
    by (auto simp: ct_get_callable_def on_top_def stack_top_def)
qed

lemma ct_set_callable_invoked_ok:
  assumes "continuation_ok ps c" and "ct_stack c = f # fs"
    and "is_control_flow_operation (node_operation (fr_node f))"
  shows "\<exists>c' f'. ct_set_callable_invoked c = Inr ((), c') \<and> continuation_ok ps c' \<and> ct_stack c' = f' # fs
     \<and> fr_node f' = fr_node f \<and> ct_pad c' = ct_pad c"
proof -
  have "ctx_ok (node_operation (fr_node f)) (fr_ctx f)"
    using assms(1,2) by (simp add: continuation_ok_def frame_ok_def)
  then have "event_ok (node_operation (fr_node f)) (op_set_callable_invoked (node_operation (fr_node f)) (fr_ctx f))"
    by (rule op_set_callable_invoked_ok)
  moreover obtain ctx where "op_set_callable_invoked (node_operation (fr_node f)) (fr_ctx f) = Inr ((), ctx)"
    using \<open>ctx_ok _ _\<close> assms(3) by (auto simp: op_set_callable_invoked_def on_control_flow_def ctx_ok_control_flow)
  ultimately show ?thesis
    using assms(1,2) by (auto simp: ct_set_callable_invoked_def on_top_def stack_top_def continuation_ok_def frame_ok_def)
qed

lemma ct_get_argument_list_ok:
  assumes "continuation_ok ps c" and "ct_stack c = f # fs"
    and "is_control_flow_operation (node_operation (fr_node f))"
  shows "case ct_get_argument_list c of
      Inl e \<Rightarrow> \<not> machine_fault e
    | Inr (vs, c') \<Rightarrow> c' = c \<and> (\<forall>ws. vs = Some ws \<longrightarrow> (\<forall>v \<in> set ws. wf_value v))"
proof -
  have "ctx_ok (node_operation (fr_node f)) (fr_ctx f)"
    using assms(1,2) by (simp add: continuation_ok_def frame_ok_def)
  from op_get_argument_list_ok [OF this assms(3)] assms(2) show ?thesis
    by (cases "op_get_argument_list (node_operation (fr_node f)) (fr_ctx f)")
      (auto simp: ct_get_argument_list_def on_top_def stack_top_def)
qed

lemma invoke_callable_ok:
  assumes "interpreter_ok m" and "in_stack m = c # cs" and "ct_stack c = f # fs"
    and "is_control_flow_operation (node_operation (fr_node f))" and "invocable (fr_ctx f)"
  shows "machine_outcome (invoke_callable m)"
proof -
  let ?ps = "g_pads (in_globals m)"
  have c: "continuation_ok ?ps c" and cs: "\<forall>c \<in> set cs. continuation_ok ?ps c \<and> ct_stack c \<noteq> []"
    and ps: "pads_ok ?ps" "in_rootpad m < length ?ps"
    using assms(1,2) by (auto simp: interpreter_ok_def)
  from ct_get_callable_ok [OF c assms(3-5)] obtain k where
    k: "ct_get_callable c = Inr (VCallable k, c)" "wf_callable k" by blast
  from ct_set_callable_invoked_ok [OF c assms(3,4)] obtain c1 f1 where
    c1: "ct_set_callable_invoked c = Inr ((), c1)" "continuation_ok ?ps c1" "ct_stack c1 = f1 # fs"
      "fr_node f1 = fr_node f" "ct_pad c1 = ct_pad c" by blast
  define parent where "parent = (if callable_inherits_lexical_pad k then ct_pad c1 else in_rootpad m)"
  have parent: "parent < length ?ps" using c1(2) ps(2) by (simp add: parent_def continuation_ok_def)
  obtain qs pad where alloc: "alloc_pad ?ps (Some parent) = (qs, pad)" by fastforce
  have qs: "pads_ok qs" "pad < length qs" "length ?ps \<le> length qs"
    using alloc_pad_ok [OF ps(1), of "Some parent"] parent alloc by (auto simp: alloc_pad_def)
  note args = ct_get_argument_list_ok [OF c1(2,3)] assms(4)
  show ?thesis
  proof (cases "ct_get_argument_list c1")
    case (Inl e)
    then show ?thesis
      using args c1 k alloc assms(2)
      by (simp add: invoke_callable_def stack_top_def parent_def [symmetric])
  next
    case (Inr x)
    then obtain vs where vs: "ct_get_argument_list c1 = Inr (vs, c1)"
        "\<forall>ws. vs = Some ws \<longrightarrow> (\<forall>v \<in> set ws. wf_value v)"
      using args c1(4) by (cases x) auto
    let ?bind = "if callable_argument_names k = [] then Inr qs
        else chk_bind (chk_the vs NullDereference) (\<lambda>vs. Inr (bind_arguments qs pad (callable_argument_names k) vs))"
    have inv: "invoke_callable m = chk_bind ?bind (\<lambda>ps. chk_bind (prepare (new_continuation (callable_tree k) pad))
        (\<lambda>(s, c'). Inr (s, m\<lparr>in_stack := c' # c1 # cs, in_globals := (in_globals m)\<lparr>g_pads := ps\<rparr>\<rparr>)))"
      using c1(1) k(1) alloc assms(2) vs(1)
      by (simp add: invoke_callable_def stack_top_def parent_def [symmetric] split del: if_split)
    show ?thesis
    proof (cases ?bind)
      case (Inl e)
      then have "e = NullDereference" by (auto simp: chk_bind_eq_Inl chk_the_def split: if_splits option.splits)
      then show ?thesis using Inl by (simp only: inv chk_bind_Inl machine_outcome_Inl) simp
    next
      case (Inr rs)
      have rs: "pads_ok rs" "length rs = length qs"
        using Inr qs(1) vs(2) bind_arguments_ok [OF qs(1), of _ pad "callable_argument_names k"]
        by (auto simp: chk_bind_eq_Inr chk_the_eq_Inr same_shape_length split: if_splits)
      have "wf_tree (callable_tree k)" using k(2) by (simp add: wf_callable_def)
      then have "continuation_ok rs (new_continuation (callable_tree k) pad)"
        using rs(2) qs(2) by (simp add: new_continuation_ok)
      from prepare_ok [OF this] obtain c2 f2 fs2 where
        c2: "prepare (new_continuation (callable_tree k) pad) = Inr (Ready, c2)" "continuation_ok rs c2"
          "ct_stack c2 = f2 # fs2"
        by (auto simp: new_continuation_def)
      have "\<forall>c \<in> set (c1 # cs). continuation_ok rs c"
        using c1(2) cs qs(3) rs(2) by (auto intro: continuation_ok_mono)
      then show ?thesis
        using rs qs ps(2) cs c1(3) c2
        by (simp add: inv Inr interpreter_ok_def del: chk_bind_Inl)
    qed
  qed
qed

lemma return_to_caller_ok:
  assumes "interpreter_ok m" and "length (in_stack m) > 1" and "wf_value r"
  shows "machine_outcome (return_to_caller m r)"
proof -
  let ?ps = "g_pads (in_globals m)"
  from assms(2) obtain c0 c cs where st: "in_stack m = c0 # c # cs"
    by (cases "in_stack m"; cases "tl (in_stack m)") auto
  have c: "continuation_ok ?ps c" "ct_stack c \<noteq> []" using assms(1) st by (auto simp: interpreter_ok_def)
  let ?c = "c\<lparr>ct_result := ResValue r\<rparr>"
  have "continuation_ok ?ps ?c" using c assms(3) by (simp add: continuation_ok_def)
  moreover obtain f fs where "ct_stack ?c = f # fs" using c(2) by (cases "ct_stack c") auto
  ultimately have out: "case ct_set_callable_return c r of
      Inl e \<Rightarrow> \<not> machine_fault e
    | Inr (u, c') \<Rightarrow> continuation_ok ?ps c' \<and> ct_stack c' \<noteq> [] \<and> ct_result c' = ct_result ?c"
    unfolding ct_set_callable_return_def
    by (rule on_top_ok) (simp add: op_set_callable_return_ok assms(3))
  show ?thesis
  proof (cases "ct_set_callable_return c r")
    case (Inl e)
    then show ?thesis using out st by (simp add: return_to_caller_def stack_top_def)
  next
    case (Inr x)
    then obtain c' where c': "ct_set_callable_return c r = Inr ((), c')" "continuation_ok ?ps c'" "ct_stack c' \<noteq> []"
      using out by (cases x) auto
    from prepare_ok [OF c'(2,3)] obtain c'' f fs where
      "prepare c' = Inr (Ready, c'')" "continuation_ok ?ps c''" "ct_stack c'' = f # fs" by blast
    then show ?thesis
      using assms(1) st c' by (auto simp: return_to_caller_def stack_top_def interpreter_ok_def)
  qed
qed

text \<open>The step keeps the invariant, and no fault of it is the machine's own.\<close>

lemma interpreter_step_ok:
  assumes "interpreter_ok m"
  shows "machine_outcome (interpreter_step m)"
proof -
  obtain c cs where st: "in_stack m = c # cs" using assms by (cases "in_stack m") (auto simp: interpreter_ok_def)
  let ?g = "in_globals m"
  have c: "continuation_ok (g_pads ?g) c" "pads_ok (g_pads ?g)"
    and cs: "\<forall>c \<in> set cs. continuation_ok (g_pads ?g) c \<and> ct_stack c \<noteq> []"
    using assms st by (auto simp: interpreter_ok_def)
  note out = continuation_step_outcome [OF c]
  show ?thesis
  proof (cases "continuation_step c ?g")
    case (Inl e)
    with out st show ?thesis by (simp add: interpreter_step_def stack_top_def step_outcome_def)
  next
    case (Inr x)
    obtain s c' g' where x: "x = (s, c', g')" by (cases x)
    let ?m = "m\<lparr>in_stack := c' # cs, in_globals := g'\<rparr>"
    from out have c': "continuation_ok (g_pads g') c'" and g': "globals_step ?g g'"
      by (simp_all add: Inr x step_outcome_def)
    have len: "length (g_pads g') = length (g_pads ?g)" using g' by (simp add: globals_step_def same_shape_length)
    have m: "interpreter_ok ?m"
      using assms st c' g' cs len
      by (auto simp: interpreter_ok_def globals_step_def intro: continuation_ok_mono)
    have step: "interpreter_step m =
       (if s = Blocked then
         (case ct_result c' of
            ResBlocked WaitingForCallableInvocation \<Rightarrow> invoke_callable ?m
          | ResBlocked b \<Rightarrow> Inr (s, ?m)
          | ResValue v \<Rightarrow> Inl BadVariantAccess)
       else if s = Exited then
         (case ct_result c' of
            ResValue r \<Rightarrow> if length (in_stack ?m) > 1 then return_to_caller ?m r else Inr (s, ?m)
          | ResBlocked b \<Rightarrow> Inl BadVariantAccess)
       else Inr (s, ?m))"
      using Inr x st by (simp add: interpreter_step_def stack_top_def Let_def)
    show ?thesis
    proof (cases "s = Blocked")
      case True
      then obtain b where b: "ct_result c' = ResBlocked b" using out by (auto simp: Inr x step_outcome_def)
      show ?thesis
      proof (cases "b = WaitingForCallableInvocation")
        case inv: True
        then obtain f fs where "ct_stack c' = f # fs"
            "is_control_flow_operation (node_operation (fr_node f))" "invocable (fr_ctx f)"
          using out True b by (auto simp: Inr x step_outcome_def)
        then have "machine_outcome (invoke_callable ?m)" using m by (intro invoke_callable_ok) auto
        then show ?thesis using True b inv by (simp add: step)
      next
        case False
        then show ?thesis using True b m by (cases b) (simp_all add: step)
      qed
    next
      case False
      show ?thesis
      proof (cases "s = Exited")
        case True
        then obtain r where r: "ct_result c' = ResValue r" using out by (auto simp: Inr x step_outcome_def)
        then have "wf_value r" using c' by (simp add: continuation_ok_def)
        then have "length (in_stack ?m) > 1 \<Longrightarrow> machine_outcome (return_to_caller ?m r)"
          using m by (intro return_to_caller_ok)
        then show ?thesis using True r m by (cases cs) (simp_all add: step)
      qed (use False m in \<open>simp add: step\<close>)
    qed
  qed
qed

lemma get_instance_ok:
  assumes "wf_tree t" and "\<forall>v. arglist = Some v \<longrightarrow> wf_value v"
  shows "\<exists>m. get_instance t erange arglist = Inr m \<and> interpreter_ok m"
proof -
  obtain ps a where al: "alloc_pad [] None = (ps, a)" by fastforce
  have ps: "pads_ok ps" "a < length ps" using al by (auto simp: alloc_pad_def new_pad_def pads_ok_def pads_wf_def)
  have "\<exists>qs. (case arglist of None \<Rightarrow> Inr ps | Some v \<Rightarrow> pad_initialize_global ps a ''argv'' v) = Inr qs
      \<and> pads_ok qs \<and> a < length qs"
  proof (cases arglist)
    case (Some v)
    then obtain qs where "pad_initialize_global ps a ''argv'' v = Inr qs" "pads_ok qs" "same_shape ps qs"
      using pad_initialize_global_ok [OF ps, of v "''argv''"] assms(2) by blast
    with Some ps(2) same_shape_length [of ps qs] show ?thesis by simp
  qed (simp add: ps)
  then obtain qs where qs: "(case arglist of None \<Rightarrow> Inr ps | Some v \<Rightarrow> pad_initialize_global ps a ''argv'' v) = Inr qs"
      "pads_ok qs" "a < length qs" by blast
  then show ?thesis
    using al assms(1) by (simp add: get_instance_def interpreter_ok_def new_continuation_ok)
qed

section \<open>Reachable machines\<close>

text \<open>What can happen to an interpreter: it steps, or an event from outside reaches the
  operation it is blocked on.\<close>

inductive machine_step :: "interpreter \<Rightarrow> interpreter \<Rightarrow> bool" where
  ms_step: "interpreter_step m = Inr (s, m') \<Longrightarrow> machine_step m m'"
| ms_read: "in_handle_read m str = Inr (n, m') \<Longrightarrow> machine_step m m'"
| ms_write: "in_handle_write m k = Inr (n, m') \<Longrightarrow> machine_step m m'"
| ms_get_write_buffer: "in_get_write_buffer m = Inr (b, m') \<Longrightarrow> machine_step m m'"
| ms_eof: "in_handle_eof m = Inr (u, m') \<Longrightarrow> machine_step m m'"
| ms_callback_called: "in_set_callback_called m = Inr (u, m') \<Longrightarrow> machine_step m m'"
| ms_callback_return: "wf_value v \<Longrightarrow> in_set_callback_return m v = Inr (u, m') \<Longrightarrow> machine_step m m'"

inductive reachable :: "optree \<Rightarrow> value option \<Rightarrow> interpreter \<Rightarrow> bool" for t arglist where
  reachable_start: "get_instance t erange arglist = Inr m \<Longrightarrow> reachable t arglist m"
| reachable_next: "reachable t arglist m \<Longrightarrow> machine_step m m' \<Longrightarrow> reachable t arglist m'"

inductive_cases machine_stepE: "machine_step m m'"

lemma event_top_nonempty: "on_top_continuation m (\<lambda>c. on_top c ev) = Inr x \<Longrightarrow> ct_stack (hd (in_stack m)) \<noteq> []"
  by (cases "in_stack m")
    (auto simp: on_top_continuation_def on_top_def stack_top_def chk_bind_eq_Inr split: list.splits)

lemma event_keeps:
  assumes "interpreter_ok m" and "on_top_continuation m (\<lambda>c. on_top c ev) = Inr (r, m')"
    and "\<And>op ctx. ctx_ok op ctx \<Longrightarrow> event_ok op (ev op ctx)"
  shows "interpreter_ok m'"
proof -
  have "machine_outcome (on_top_continuation m (\<lambda>c. on_top c ev))"
    using assms(1) event_top_nonempty [OF assms(2)] on_top_ok [OF _ _ assms(3)]
    by (intro on_top_continuation_ok)
  then show ?thesis using assms(2) by simp
qed

lemma machine_step_ok: "machine_step m m' \<Longrightarrow> interpreter_ok m \<Longrightarrow> interpreter_ok m'"
proof (induction rule: machine_step.induct)
  case (ms_step m s m')
  then show ?case using interpreter_step_ok [of m] by simp
next
  case (ms_read m str n m')
  show ?case
    by (rule event_keeps [OF ms_read.prems ms_read.hyps [unfolded in_handle_read_def ct_handle_read_def]])
      (auto intro: op_handle_read_ok)
next
  case (ms_write m k n m')
  show ?case
    by (rule event_keeps [OF ms_write.prems ms_write.hyps [unfolded in_handle_write_def ct_handle_write_def]])
      (auto intro: op_handle_write_ok)
next
  case (ms_get_write_buffer m b m')
  show ?case
    by (rule event_keeps [OF ms_get_write_buffer.prems ms_get_write_buffer.hyps [unfolded in_get_write_buffer_def ct_get_write_buffer_def]])
      (auto intro: op_get_write_buffer_ok)
next
  case (ms_eof m u m')
  show ?case
    by (rule event_keeps [OF ms_eof.prems ms_eof.hyps [unfolded in_handle_eof_def ct_handle_eof_def]])
      (auto intro: op_handle_eof_ok)
next
  case (ms_callback_called m u m')
  show ?case
    by (rule event_keeps [OF ms_callback_called.prems ms_callback_called.hyps [unfolded in_set_callback_called_def ct_set_callback_called_def]])
      (auto intro: op_callback_ok)
next
  case (ms_callback_return v m u m')
  show ?case
    by (rule event_keeps [OF ms_callback_return.prems ms_callback_return.hyps(2) [unfolded in_set_callback_return_def ct_set_callback_return_def]])
      (auto intro: op_callback_ok ms_callback_return.hyps)
qed

lemma reachable_ok:
  assumes "wf_tree t" and "\<forall>v. arglist = Some v \<longrightarrow> wf_value v" and "reachable t arglist m"
  shows "interpreter_ok m"
  using assms(3)
proof induction
  case (reachable_start erange m)
  with get_instance_ok [OF assms(1,2), of erange] show ?case by simp
qed (rule machine_step_ok)

end
