(* ===== verification/MachineSemantics.thy ===== *)
theory MachineSemantics
  imports MachineInvariant
begin

text \<open>
  What the abstract machine computes. \<open>eval_node\<close> is the recursive evaluation of a tree whose
  operations neither block nor call: the children from left to right, an operation with a
  dynamic number of arguments stopping at the first error or control value, then the
  operation. The machine, which pushes and pops frames, comes to the same value and pads.
\<close>

section \<open>Recursive evaluation\<close>

definition strict_operation :: "operation \<Rightarrow> bool" where
  "strict_operation op \<longleftrightarrow> \<not> is_control_flow_operation op \<and> \<not> is_io_operation op \<and> \<not> is_callback_operation op"

fun strict_node :: "optree_node \<Rightarrow> bool" where
  "strict_node (OpTreeNode op cs) \<longleftrightarrow> strict_operation op \<and> (\<forall>c \<in> set cs. strict_node c)"

definition arguments_complete :: "operation \<Rightarrow> nat \<Rightarrow> value list \<Rightarrow> bool" where
  "arguments_complete op n vs =
     (case op_arity op of
        Some k \<Rightarrow> k \<le> length vs
      | None \<Rightarrow> vs \<noteq> [] \<and> is_error_or_control (last vs) \<or> n \<le> length vs)"

definition apply_operation :: "operation \<Rightarrow> value list \<Rightarrow> nat \<Rightarrow> globals \<Rightarrow> (value \<times> globals) checked" where
  "apply_operation op vs p g =
     chk_bind (execute_specific_operation op vs CtxNone p g) (\<lambda>(r, ctx, g').
       case r of ResValue v \<Rightarrow> Inr (v, g') | ResBlocked b \<Rightarrow> Inl AssertionFailed)"

text \<open>\<open>eval_list\<close> evaluates further children while the arguments are not complete; \<open>n\<close> is the
  number of children of the node.\<close>

fun eval_node :: "optree_node \<Rightarrow> nat \<Rightarrow> globals \<Rightarrow> (value \<times> globals) checked"
  and eval_list :: "optree_node list \<Rightarrow> operation \<Rightarrow> nat \<Rightarrow> value list \<Rightarrow> nat \<Rightarrow> globals \<Rightarrow>
        (value list \<times> globals) checked" where
  "eval_node (OpTreeNode op cs) p g =
     chk_bind (eval_list cs op (length cs) [] p g) (\<lambda>(vs, g'). apply_operation op vs p g')"
| "eval_list cs op n vs p g =
     (if arguments_complete op n vs then Inr (vs, g)
      else (case cs of
          [] \<Rightarrow> Inl AssertionFailed
        | c # cs' \<Rightarrow> chk_bind (eval_node c p g) (\<lambda>(v, g'). eval_list cs' op n (vs @ [v]) p g')))"

declare eval_list.simps [simp del]

section \<open>Runs of a continuation\<close>

text \<open>\<open>runs c g c' g'\<close>: steps that end \<open>Ready\<close> lead from one to the other, up to the descent
  that the next step begins with.\<close>

inductive runs :: "frame list \<Rightarrow> globals \<Rightarrow> frame list \<Rightarrow> globals \<Rightarrow> bool" where
  runs_refl: "runs st g st g"
| runs_descend: "\<not> has_arguments_ready f \<Longrightarrow> next_op f = Inr n \<Longrightarrow>
    runs (new_frame n (fr_pad f) # f # fs) g st g' \<Longrightarrow> runs (f # fs) g st g'"
| runs_execute: "has_arguments_ready f \<Longrightarrow> execute f g = Inr (ResValue v, ctx, g1) \<Longrightarrow>
    runs (frame_push_back f' v # fs) g1 st g' \<Longrightarrow> runs (f # f' # fs) g st g'"

lemma runs_trans: "runs st g st1 g1 \<Longrightarrow> runs st1 g1 st2 g2 \<Longrightarrow> runs st g st2 g2"
  by (induction rule: runs.induct) (auto intro: runs.intros)

lemma descend_not_ready:
  "\<not> has_arguments_ready f \<Longrightarrow> next_op f = Inr n \<Longrightarrow>
     descend (f # fs) = descend (new_frame n (fr_pad f) # f # fs)"
  by simp

primrec steps :: "nat \<Rightarrow> continuation \<Rightarrow> globals \<Rightarrow> (continuation_state \<times> continuation \<times> globals) checked" where
  "steps 0 c g = Inr (Ready, c, g)"
| "steps (Suc k) c g =
     chk_bind (continuation_step c g) (\<lambda>(s, c, g). if s = Ready then steps k c g else Inr (s, c, g))"

text \<open>Two continuations that differ in how far the descent has gone step alike.\<close>

lemma continuation_step_descend:
  assumes "descend (f # fs) = descend st" and "st \<noteq> []"
  shows "continuation_step (c\<lparr>ct_stack := f # fs\<rparr>) g = continuation_step (c\<lparr>ct_stack := st\<rparr>) g"
  using assms by (cases "descend st") (auto simp: continuation_step_def prepare_def)

lemma steps_descend:
  assumes "descend (f # fs) = descend st" and "st \<noteq> []"
  shows "steps (Suc k) (c\<lparr>ct_stack := f # fs\<rparr>) g = steps (Suc k) (c\<lparr>ct_stack := st\<rparr>) g"
  by (simp add: continuation_step_descend [OF assms])

lemma continuation_step_value:
  assumes "has_arguments_ready f" and "execute f g = Inr (ResValue v, ctx, g1)"
  shows "continuation_step (c\<lparr>ct_stack := f # f' # fs\<rparr>) g =
    Inr (Ready, c\<lparr>ct_stack := frame_push_back f' v # fs, ct_state := Ready, ct_result := ResValue v\<rparr>, g1)"
  using assms by (simp add: continuation_step_def prepare_def stack_top_def)

lemma steps_runs:
  "runs st g st' g' \<Longrightarrow> st' \<noteq> [] \<Longrightarrow>
     \<exists>k s r. \<forall>j. steps (k + Suc j) (c\<lparr>ct_stack := st\<rparr>) g = steps (Suc j) (c\<lparr>ct_stack := st', ct_state := s, ct_result := r\<rparr>) g'"
proof (induction arbitrary: c rule: runs.induct)
  case (runs_refl st g)
  have "c\<lparr>ct_stack := st, ct_state := ct_state c, ct_result := ct_result c\<rparr> = c\<lparr>ct_stack := st\<rparr>" by simp
  then show ?case by (metis add_0)
next
  case (runs_descend f n fs g st g')
  from runs_descend.IH [OF runs_descend.prems] obtain k s r where
    *: "\<And>j. steps (k + Suc j) (c\<lparr>ct_stack := new_frame n (fr_pad f) # f # fs\<rparr>) g =
      steps (Suc j) (c\<lparr>ct_stack := st, ct_state := s, ct_result := r\<rparr>) g'" by blast
  have "steps (k + Suc j) (c\<lparr>ct_stack := f # fs\<rparr>) g =
      steps (k + Suc j) (c\<lparr>ct_stack := new_frame n (fr_pad f) # f # fs\<rparr>) g" for j
    using steps_descend [OF descend_not_ready [OF runs_descend.hyps(1,2), of fs], where k = "k + j" and c = c and g = g] by simp
  with * show ?case by metis
next
  case (runs_execute f g v ctx g1 f' fs st g')
  let ?c = "c\<lparr>ct_state := Ready, ct_result := ResValue v\<rparr>"
  from runs_execute.IH [OF runs_execute.prems, of ?c] obtain k s r where
    *: "\<And>j. steps (k + Suc j) (?c\<lparr>ct_stack := frame_push_back f' v # fs\<rparr>) g1 =
      steps (Suc j) (?c\<lparr>ct_stack := st, ct_state := s, ct_result := r\<rparr>) g'" by blast
  have swap: "?c\<lparr>ct_stack := frame_push_back f' v # fs\<rparr> =
      c\<lparr>ct_stack := frame_push_back f' v # fs, ct_state := Ready, ct_result := ResValue v\<rparr>"
    by (cases c) simp
  have "steps (Suc k + Suc j) (c\<lparr>ct_stack := f # f' # fs\<rparr>) g =
      steps (Suc j) (c\<lparr>ct_stack := st, ct_state := s, ct_result := r\<rparr>) g'" for j
    using * [of j] swap continuation_step_value [OF runs_execute.hyps(1,2), where c = c and f' = f' and fs = fs] by simp
  then show ?case by blast
qed

section \<open>The simulation\<close>

lemma initialize_strict: "strict_operation op \<Longrightarrow> initialize_context op = CtxNone"
  by (simp add: strict_operation_def initialize_context_def)

lemma ready_complete:
  "has_arguments_ready f \<longleftrightarrow>
     arguments_complete (node_operation (fr_node f)) (length (node_children (fr_node f))) (fr_accumulator f)"
  by (auto simp: has_arguments_ready_def arguments_complete_def split: option.splits)

definition frame_of :: "operation \<Rightarrow> optree_node list \<Rightarrow> value list \<Rightarrow> nat \<Rightarrow> frame" where
  "frame_of op cs vs p = \<lparr>fr_node = OpTreeNode op cs, fr_accumulator = vs, fr_ctx = CtxNone, fr_pad = p\<rparr>"

lemma new_frame_strict: "strict_operation op \<Longrightarrow> new_frame (OpTreeNode op cs) p = frame_of op cs [] p"
  by (simp add: new_frame_def frame_of_def initialize_strict)

lemma frame_of_push [simp]: "frame_push_back (frame_of op cs vs p) v = frame_of op cs (vs @ [v]) p"
  by (simp add: frame_push_back_def frame_of_def)

lemma frame_of_ready: "has_arguments_ready (frame_of op cs vs p) \<longleftrightarrow> arguments_complete op (length cs) vs"
  by (simp add: ready_complete frame_of_def)

lemma frame_of_next:
  "\<not> arguments_complete op (length cs) vs \<Longrightarrow> length vs < length cs \<Longrightarrow>
     next_op (frame_of op cs vs p) = Inr (cs ! length vs)"
  by (simp add: next_op_def frame_of_ready) (simp add: frame_of_def)

lemma frame_of_execute:
  "arguments_complete op (length cs) vs \<Longrightarrow> apply_operation op vs p g = Inr (v, g') \<Longrightarrow>
     \<exists>ctx. execute (frame_of op cs vs p) g = Inr (ResValue v, ctx, g')"
  using op_result.exhaust
  by (auto simp: execute_def frame_of_ready)
    (auto simp: frame_of_def apply_operation_def chk_bind_eq_Inr split: op_result.splits dest: op_result.exhaust)

lemma eval_runs:
  "eval_node n p g = Inr (v, g') \<Longrightarrow> strict_node n \<Longrightarrow>
     runs (new_frame n p # f' # fs) g (frame_push_back f' v # fs) g'"
  "eval_list cs op m vs p g = Inr (ws, g') \<Longrightarrow> strict_operation op \<Longrightarrow> m = length all \<Longrightarrow>
     \<forall>c \<in> set all. strict_node c \<Longrightarrow> cs = drop (length vs) all \<Longrightarrow>
     runs (frame_of op all vs p # st) g (frame_of op all ws p # st) g'
     \<and> arguments_complete op m ws"
proof (induction n p g and cs op m vs p g arbitrary: v g' f' fs and all ws g' st rule: eval_node_eval_list.induct)
  case (1 op cs p g)
  from "1.prems"(1) obtain vs g1 where
    l: "eval_list cs op (length cs) [] p g = Inr (vs, g1)" and a: "apply_operation op vs p g1 = Inr (v, g')"
    by (auto simp: chk_bind_eq_Inr)
  have s: "strict_operation op" "\<forall>c \<in> set cs. strict_node c" using "1.prems"(2) by auto
  from "1.IH" [OF l s(1) refl s(2)] have
    r: "runs (frame_of op cs [] p # f' # fs) g (frame_of op cs vs p # f' # fs) g1"
    and c: "arguments_complete op (length cs) vs" by auto
  from frame_of_execute [OF c a] obtain ctx where "execute (frame_of op cs vs p) g1 = Inr (ResValue v, ctx, g')" ..
  then have "runs (frame_of op cs vs p # f' # fs) g1 (frame_push_back f' v # fs) g'"
    using c by (auto simp: frame_of_ready intro: runs_execute [OF _ _ runs_refl])
  with r show ?case using s(1) by (simp add: new_frame_strict runs_trans)
next
  case (2 cs op m vs p g)
  show ?case
  proof (cases "arguments_complete op m vs")
    case True
    then have "ws = vs" "g' = g" using "2.prems"(1) by (simp_all add: eval_list.simps [of cs op m])
    with True show ?thesis by (simp add: runs_refl)
  next
    case False
    with "2.prems"(1) obtain c cs' u g1 where
      cs: "cs = c # cs'" and n: "eval_node c p g = Inr (u, g1)"
      and l: "eval_list cs' op m (vs @ [u]) p g1 = Inr (ws, g')"
      by (auto simp: eval_list.simps [of cs] chk_bind_eq_Inr split: list.splits)
    have len: "length vs < length all" using "2.prems"(5) cs by (cases "length vs < length all") auto
    then have "drop (length vs) all = all ! length vs # drop (Suc (length vs)) all" by (simp add: Cons_nth_drop_Suc)
    then have c: "c = all ! length vs" and cs': "cs' = drop (length (vs @ [u])) all"
      using "2.prems"(5) cs by simp_all
    have strict: "strict_node c" using "2.prems"(4) len c by simp
    from "2.IH"(1) [OF False cs n strict] have
      r1: "runs (new_frame c p # frame_of op all vs p # st) g (frame_of op all (vs @ [u]) p # st) g1"
      by (metis frame_of_push)
    from "2.IH"(2) [OF False cs n refl l "2.prems"(2-4) cs'] have
      r2: "runs (frame_of op all (vs @ [u]) p # st) g1 (frame_of op all ws p # st) g'"
        "arguments_complete op m ws" by auto
    have nr: "\<not> has_arguments_ready (frame_of op all vs p)"
      using False "2.prems"(3) by (simp add: frame_of_ready)
    have nx: "next_op (frame_of op all vs p) = Inr c"
      using frame_of_next [of op all vs p] False "2.prems"(3) len c by simp
    have "fr_pad (frame_of op all vs p) = p" by (simp add: frame_of_def)
    with runs_trans [OF r1 r2(1)] have "runs (frame_of op all vs p # st) g (frame_of op all ws p # st) g'"
      using runs_descend [OF nr nx] by simp
    with r2(2) show ?thesis by simp
  qed
qed


text \<open>A whole tree: from a fresh continuation to its exit.\<close>

lemma eval_steps:
  assumes "eval_node n p g = Inr (v, g')" and "strict_node n"
  shows "\<exists>k c. steps k (new_continuation (OpTree n) p) g = Inr (Exited, c, g') \<and> ct_result c = ResValue v
     \<and> ct_stack c = []"
proof -
  obtain op cs where n: "n = OpTreeNode op cs" by (cases n)
  have s: "strict_operation op" "\<forall>c \<in> set cs. strict_node c" using assms(2) by (auto simp: n)
  from assms(1) obtain vs g1 where
    l: "eval_list cs op (length cs) [] p g = Inr (vs, g1)" and a: "apply_operation op vs p g1 = Inr (v, g')"
    by (auto simp: n chk_bind_eq_Inr)
  from eval_runs(2) [OF l s(1) refl s(2)] have
    r: "runs [frame_of op cs [] p] g [frame_of op cs vs p] g1" and c: "arguments_complete op (length cs) vs"
    by auto
  from frame_of_execute [OF c a] obtain ctx where e: "execute (frame_of op cs vs p) g1 = Inr (ResValue v, ctx, g')" ..
  define c0 where "c0 = new_continuation (OpTree n) p"
  have c0: "c0 = c0\<lparr>ct_stack := [frame_of op cs [] p]\<rparr>"
    using s(1) by (simp add: c0_def new_continuation_def n new_frame_strict)
  from steps_runs [OF r, of c0] obtain k st res where
    "\<forall>j. steps (k + Suc j) (c0\<lparr>ct_stack := [frame_of op cs [] p]\<rparr>) g =
      steps (Suc j) (c0\<lparr>ct_stack := [frame_of op cs vs p], ct_state := st, ct_result := res\<rparr>) g1" by auto
  then have "steps (k + Suc 0) c0 g = steps (Suc 0) (c0\<lparr>ct_stack := [frame_of op cs vs p], ct_state := st, ct_result := res\<rparr>) g1"
    unfolding c0 [symmetric] by blast
  also have "\<dots> = Inr (Exited, c0\<lparr>ct_stack := [], ct_state := Exited, ct_result := ResValue v\<rparr>, g')"
    using c e by (simp add: continuation_step_def prepare_def stack_top_def frame_of_ready)
  finally have exited: "steps (k + Suc 0) c0 g =
    Inr (Exited, c0\<lparr>ct_stack := [], ct_state := Exited, ct_result := ResValue v\<rparr>, g')" .
  show ?thesis
    using exited unfolding c0_def [symmetric]
    by (intro exI [of _ "k + Suc 0"] exI [of _ "c0\<lparr>ct_stack := [], ct_state := Exited, ct_result := ResValue v\<rparr>"])
      (simp del: steps.simps add_Suc_right)
qed

text \<open>Evaluation of a well-formed tree always has a result, and a well-formed one.\<close>

lemma apply_operation_ok:
  assumes "strict_operation op" and "wf_op op" and "pads_ok (g_pads g)" and "p < length (g_pads g)"
    and "\<forall>n. op_arity op = Some n \<longrightarrow> n \<le> length vs" and "\<forall>v \<in> set vs. wf_value v"
  shows "\<exists>v g'. apply_operation op vs p g = Inr (v, g') \<and> wf_value v \<and> globals_step g g'"
proof -
  have s: "\<not> is_control_flow_operation op" "\<not> is_io_operation op" "\<not> is_callback_operation op"
    using assms(1) by (auto simp: strict_operation_def)
  have "ctx_ok op CtxNone" using s by (simp add: ctx_ok_def)
  note out = plain_operation_outcome [OF s this assms(3,2,4,5,6)]
  have "\<exists>v ctx g'. execute_specific_operation op vs CtxNone p g = Inr (ResValue v, ctx, g')"
  proof (cases op)
    case (Op_LexicalPadGet n)
    then show ?thesis using pad_get_ok [OF assms(3,4), of n] by (auto simp: in_pads_def)
  next
    case (Op_LexicalPadSet n)
    then show ?thesis
      using pad_set_ok [OF assms(3,4), of "vs ! 0" n] argument_wf [OF assms(5,6), of 1 0] by (auto simp: in_pads_def)
  next
    case (Op_LexicalPadInitializeGlobal n)
    then show ?thesis
      using pad_initialize_global_ok [OF assms(3,4), of "vs ! 0" n] argument_wf [OF assms(5,6), of 1 0]
      by (auto simp: in_pads_def)
  qed (use s assms(4) in \<open>auto simp: plain_def in_pads_def pad_as_dict_def\<close>)
  then show ?thesis using out by (auto simp: apply_operation_def exec_outcome_def)
qed

lemma globals_step_trans: "globals_step g g1 \<Longrightarrow> globals_step g1 g2 \<Longrightarrow> globals_step g g2"
  by (auto simp: globals_step_def intro: same_shape_trans)

lemma complete_or_child:
  assumes "\<not> arguments_complete op n vs" and "\<forall>k. op_arity op = Some k \<longrightarrow> k \<le> n"
  shows "length vs < n"
  using assms by (cases "op_arity op") (auto simp: arguments_complete_def)

lemma eval_ok:
  "strict_node nd \<Longrightarrow> wf_node nd \<Longrightarrow> pads_ok (g_pads g) \<Longrightarrow> p < length (g_pads g) \<Longrightarrow>
     \<exists>v g'. eval_node nd p g = Inr (v, g') \<and> wf_value v \<and> globals_step g g'"
  "\<forall>c \<in> set cs. strict_node c \<and> wf_node c \<Longrightarrow> \<forall>k. op_arity op = Some k \<longrightarrow> k \<le> n \<Longrightarrow>
     length vs + length cs = n \<Longrightarrow> \<forall>v \<in> set vs. wf_value v \<Longrightarrow> pads_ok (g_pads g) \<Longrightarrow> p < length (g_pads g) \<Longrightarrow>
     \<exists>ws g'. eval_list cs op n vs p g = Inr (ws, g') \<and> (\<forall>v \<in> set ws. wf_value v) \<and> globals_step g g'
       \<and> arguments_complete op n ws"
proof (induction nd p g and cs op n vs p g rule: eval_node_eval_list.induct)
  case (1 op cs p g)
  from "1.prems" have w: "strict_operation op" "wf_op op" "\<forall>c \<in> set cs. strict_node c \<and> wf_node c"
    "\<forall>k. op_arity op = Some k \<longrightarrow> k \<le> length cs" by auto
  from "1.IH" [OF w(3,4) _ _ "1.prems"(3,4)] obtain vs g1 where
    l: "eval_list cs op (length cs) [] p g = Inr (vs, g1)" "\<forall>v \<in> set vs. wf_value v" "globals_step g g1"
      "arguments_complete op (length cs) vs" by auto
  from l(3) have g1: "pads_ok (g_pads g1)" "p < length (g_pads g1)"
    using "1.prems"(4) by (auto simp: globals_step_def dest: same_shape_length)
  have "\<forall>n. op_arity op = Some n \<longrightarrow> n \<le> length vs" using l(4) by (auto simp: arguments_complete_def)
  from apply_operation_ok [OF w(1,2) g1 this l(2)] l(1,3) show ?case
    by (auto intro: globals_step_trans)
next
  case (2 cs op n vs p g)
  show ?case
  proof (cases "arguments_complete op n vs")
    case True
    with "2.prems" show ?thesis by (simp add: eval_list.simps [of cs op n] globals_step_def)
  next
    case False
    with complete_or_child [OF False "2.prems"(2)] "2.prems"(3) obtain c cs' where cs: "cs = c # cs'"
      by (cases cs) auto
    have c: "strict_node c" "wf_node c" and cs': "\<forall>c \<in> set cs'. strict_node c \<and> wf_node c"
      using "2.prems"(1) by (auto simp: cs)
    from "2.IH"(1) [OF False cs c "2.prems"(5,6)] obtain v g1 where
      v: "eval_node c p g = Inr (v, g1)" "wf_value v" "globals_step g g1" by blast
    from v(3) have g1: "pads_ok (g_pads g1)" "p < length (g_pads g1)"
      using "2.prems"(6) by (auto simp: globals_step_def dest: same_shape_length)
    have len: "length (vs @ [v]) + length cs' = n" and wf: "\<forall>w \<in> set (vs @ [v]). wf_value w"
      using "2.prems"(3,4) v(2) by (simp_all add: cs)
    from "2.IH"(2) [OF False cs v(1) refl cs' "2.prems"(2) len wf g1] obtain ws g' where
      "eval_list cs' op n (vs @ [v]) p g1 = Inr (ws, g')" "\<forall>v \<in> set ws. wf_value v" "globals_step g1 g'"
        "arguments_complete op n ws" by blast
    with v cs False show ?thesis
      by (simp add: eval_list.simps [of "c # cs'" op n]) (blast intro: globals_step_trans)
  qed
qed

section \<open>Waiting for input\<close>

lemma cf_outcome_not_read: "cf_outcome I x \<Longrightarrow> x \<noteq> Inr (ResBlocked WaitingForRead, c)"
  by (auto simp: cf_outcome_def)

lemma waits_for_read:
  assumes "ctx_ok op ctx" and "wf_op op" and "\<forall>n. op_arity op = Some n \<longrightarrow> n \<le> length vs"
    and "\<forall>v \<in> set vs. wf_value v"
    and "execute_specific_operation op vs ctx p g = Inr (ResBlocked WaitingForRead, ctx', g')"
  shows "is_io_operation op \<and> (\<exists>c. ctx = CtxIO c \<and> \<not> io_eof c)"
proof (cases "is_control_flow_operation op")
  case True
  then obtain c where c: "ctx = CtxControlFlow c" using assms(1) by (auto simp: ctx_ok_def)
  note v = argument_wf [OF assms(3,4)]
  note no = cf_outcome_not_read
  have sm: "state_machine_run st c \<noteq> Inr (ResBlocked WaitingForRead, x)" if "wf_states st" "sm_wf c" for st x
    using no [OF state_machine_outcome [OF that]] .
  have False
    using assms(1,2,5) True c sm v [of 2 0] v [of 2 1] v [of 1 0] v [of 3 0] v [of 3 1] v [of 3 2]
      no [OF function_call_outcome, of "vs ! 0" "vs ! 1" c]
      no [OF for_each_outcome, of "vs ! 0" "vs ! 1" c]
      no [OF generate_list_outcome, of "vs ! 0" c]
      no [OF if_outcome, of "vs ! 0" "vs ! 1" "vs ! 2" c]
    by (cases op)
      (auto simp: ctx_ok_def in_ctx_def on_control_flow_def chk_bind_eq_Inr wf_states_def)
  then show ?thesis ..
next
  case cf: False
  show ?thesis
  proof (cases op)
    case (Op_UnaryCallback k)
    with assms(5) show ?thesis
      by (auto simp: in_ctx_def on_callback_def unary_callback_run_def chk_bind_eq_Inr
          split: op_context.splits if_splits option.splits)
  next
    case Op_ReadIntFromAscii
    then show ?thesis
      using assms(5) read_int.blocked_iff [of "g_erange g"] read_int.eof_ready
      by (auto split: op_context.splits prod.splits) (metis fst_conv)
  next
    case (Op_WriteOctets)
    with assms(5) show ?thesis
      by (auto simp: in_ctx_def on_io_def write_octets_run_def write_wait_def Let_def
          split: op_context.splits gvalue.splits if_splits)
  next
    case (Op_WriteStaticOctets s)
    with assms(5) show ?thesis
      by (auto simp: in_ctx_def on_io_def write_static_run_def write_wait_def Let_def
          split: op_context.splits if_splits)
  next
    case (Op_WriteOctetsWithEscape ec es)
    with assms(5) show ?thesis
      by (auto simp: in_ctx_def on_io_def write_escaped_run_def write_wait_def Let_def chk_bind_eq_Inr
          split: op_context.splits gvalue.splits if_splits)
  next
    case Op_WriteInt32Native
    with assms(5) show ?thesis
      by (auto simp: in_ctx_def on_io_def write_int32_run_def write_wait_def Let_def chk_bind_eq_Inr
          split: op_context.splits gvalue.splits if_splits)
  next
    case (Op_TransitionLookahead cs)
    then show ?thesis
      using assms(5) lookahead.blocked_iff [of cs] lookahead.eof_ready [of _ cs]
      by (auto simp: in_ctx_def on_io_def split: op_context.splits)
  next
    case (Op_TerminateListIfReadAhead t)
    then show ?thesis
      using assms(5) terminate_list.blocked_iff [of t] terminate_list.eof_ready [of _ t]
      by (auto simp: in_ctx_def on_io_def split: op_context.splits)
  next
    case (Op_ReadStaticOctets s)
    then show ?thesis
      using assms(5) read_static.blocked_iff [of s] read_static.eof_ready [of _ s]
      by (auto simp: in_ctx_def on_io_def split: op_context.splits)
  next
    case Op_ReadInt32Native
    then show ?thesis
      using assms(5) read_int32.blocked_iff read_int32.eof_ready
      by (auto simp: in_ctx_def on_io_def split: op_context.splits)
  next
    case (Op_ReadOctetsUntilTerminator t e)
    then show ?thesis
      using assms(5) read_until_plain.blocked_iff read_until_plain.eof_ready
      by (auto simp: in_ctx_def on_io_def split: op_context.splits)
  qed (use assms(5) cf in \<open>auto simp: plain_def in_pads_def chk_bind_eq_Inr\<close>)
qed

end
