(* ===== verification/MachineTheorems.thy ===== *)
theory MachineTheorems
  imports MachineSemantics
begin

text \<open>The properties of the control flow operations and of the machine as a whole.\<close>

section \<open>Driving a control flow operation\<close>

text \<open>The interpreter's side of the protocol: while the operation asks for its callable to be
  invoked, the next of the given values is what the callable returns. The answer and the
  values not used.\<close>

function drive :: "(control_flow_ctx \<Rightarrow> cf_result) \<Rightarrow> value list \<Rightarrow> control_flow_ctx \<Rightarrow>
    (op_result \<times> value list) checked" where
  "drive run vs c =
     chk_bind (run c) (\<lambda>(r, c').
       if r = ResBlocked WaitingForCallableInvocation then
         (case vs of
            [] \<Rightarrow> Inr (r, [])
          | v # vs' \<Rightarrow> drive run vs' (cf_set_callable_return (cf_set_callable_invoked c') v))
       else Inr (r, vs))"
  by pat_completeness auto
termination by (relation "measure (\<lambda>(run, vs, c). length vs)") auto

declare drive.simps [simp del]

text \<open>The context in which a list operation has collected \<open>acc\<close> and is handed \<open>v\<close>.\<close>

definition collecting :: "value \<Rightarrow> value list option \<Rightarrow> value list \<Rightarrow> value option \<Rightarrow> bool \<Rightarrow> control_flow_ctx" where
  "collecting k args acc v b = \<lparr>cf_callable = Some k, cf_value = v, cf_arglist = args,
     cf_accumulator = Some acc, cf_callable_invoked = b, cf_info = None\<rparr>"

lemma collecting_return [simp]:
  "cf_set_callable_return (cf_set_callable_invoked (collecting k args acc v b)) w = collecting k args acc (Some w) True"
  by (simp add: collecting_def cf_set_callable_return_def cf_set_callable_invoked_def)

lemma generate_list_collect:
  "\<not> is_error_or_control v \<Longrightarrow>
     generate_list_run (collecting k None acc (Some v) True) f =
       Inr (ResBlocked WaitingForCallableInvocation, collecting k None (acc @ [v]) None False)"
  by (cases v) (simp_all add: generate_list_run_def collecting_def)

text \<open>What ends a generated list: the interruption gives the list, an error itself.\<close>

definition list_end :: "value \<Rightarrow> value list \<Rightarrow> value" where
  "list_end e vs = (case e of VRuntimeError x \<Rightarrow> VRuntimeError x | _ \<Rightarrow> VDynamicList vs)"

definition ends_list :: "value \<Rightarrow> bool" where
  "ends_list e \<longleftrightarrow> e = VControlFlowInstruction InterruptGenerator \<or> (\<exists>x. e = VRuntimeError x)"

lemma generate_list_drive:
  "\<forall>v \<in> set vs. \<not> is_error_or_control v \<Longrightarrow> ends_list e \<Longrightarrow>
     drive (\<lambda>c. generate_list_run c f) (tl (vs @ e # rest)) (collecting k None acc (Some (hd (vs @ e # rest))) True) =
       Inr (ResValue (list_end e (acc @ vs)), rest)"
proof (induction vs arbitrary: acc)
  case Nil
  then show ?case
    by (auto simp: drive.simps generate_list_run_def collecting_def list_end_def ends_list_def)
next
  case (Cons v vs)
  then have "\<not> is_error_or_control v" by simp
  from generate_list_collect [OF this, of k acc f] Cons show ?case
    by (cases vs) (simp_all add: drive.simps [of _ _ "collecting k None acc (Some v) True"])
qed

lemma generate_list_drive_init:
  assumes "\<forall>v \<in> set vs. \<not> is_error_or_control v" and "ends_list e"
  shows "drive (\<lambda>c. generate_list_run c (VCallable k)) (vs @ e # rest) init_control_flow =
    Inr (ResValue (list_end e vs), rest)"
proof -
  have start: "generate_list_run init_control_flow (VCallable k) =
      Inr (ResBlocked WaitingForCallableInvocation, collecting (VCallable k) None [] None False)"
    by (simp add: generate_list_run_def generate_list_def init_control_flow_def collecting_def)
  from generate_list_drive [OF assms, of "VCallable k" rest "VCallable k" "[]"] show ?thesis
    by (cases vs) (simp_all add: drive.simps [of _ _ init_control_flow] start)
qed

lemma for_each_collect:
  "function_call_for_each_run (collecting k (Some xs) acc (Some v) True) f a =
     (if length acc + 1 < length xs
      then Inr (ResBlocked WaitingForCallableInvocation, collecting k (Some xs) (acc @ [v]) None False)
      else Inr (ResValue (VDynamicList (acc @ [v])), collecting k (Some xs) (acc @ [v]) (Some v) True))"
  by (simp add: function_call_for_each_run_def collecting_def Let_def)

lemma for_each_drive:
  "length acc + length (r # rs) = length xs \<Longrightarrow>
     drive (\<lambda>c. function_call_for_each_run c f a) (rs @ rest) (collecting k (Some xs) acc (Some r) True) =
       Inr (ResValue (VDynamicList (acc @ r # rs)), rest)"
proof (induction rs arbitrary: acc r)
  case Nil
  then show ?case
    by (simp add: drive.simps [of _ _ "collecting k (Some xs) acc (Some r) True"] for_each_collect)
next
  case (Cons s rs)
  then show ?case
    using Cons.IH [of "acc @ [r]" s]
    by (simp add: drive.simps [of _ _ "collecting k (Some xs) acc (Some r) True"] for_each_collect)
qed

section \<open>The state machine\<close>

text \<open>What the contexts of a state machine say about where it is.\<close>

definition sm_position :: "state_map \<Rightarrow> control_flow_ctx \<Rightarrow> bool" where
  "sm_position states c \<longleftrightarrow> (\<forall>i. cf_info c = Some i \<longrightarrow>
     map_of states (fst (pi_to_state i)) = Some (snd (pi_to_state i))
     \<and> (\<forall>n tr. pi_transition i = Some (n, tr) \<longrightarrow>
          (\<exists>from st. pi_from_state i = Some (from, st) \<and> map_of states from = Some st
             \<and> map_of (si_transitions st) n = Some tr \<and> fst (pi_to_state i) = ti_target_state tr)))"

text \<open>The contexts an operation over \<open>states\<close> goes through.\<close>

inductive sm_context :: "state_map \<Rightarrow> control_flow_ctx \<Rightarrow> bool" for states where
  sm_init: "sm_context states init_control_flow"
| sm_run: "sm_context states c \<Longrightarrow> state_machine_run states c = Inr (ResBlocked b, c') \<Longrightarrow> sm_context states c'"
| sm_invoked: "sm_context states c \<Longrightarrow> sm_context states (cf_set_callable_invoked c)"
| sm_return: "sm_context states c \<Longrightarrow> sm_context states (cf_set_callable_return c v)"

lemma start_state_info:
  "start_state_callback c = Inr (r, c') \<Longrightarrow>
     \<exists>i. cf_info c = Some i \<and> cf_info c' = Some (i\<lparr>pi_mode := ModeState\<rparr>)"
  by (auto simp: start_state_callback_def chk_bind_eq_Inr chk_the_eq_Inr Let_def)

lemma start_transition_info:
  "start_transition_callback c = Inr (r, c') \<Longrightarrow>
     \<exists>i. cf_info c = Some i \<and> cf_info c' = Some (i\<lparr>pi_mode := ModeTransition\<rparr>)"
  by (auto simp: start_transition_callback_def chk_bind_eq_Inr chk_the_eq_Inr Let_def)

lemma sm_position_mode: "sm_position states c \<Longrightarrow> cf_info c = Some i \<Longrightarrow> cf_info c' = Some (i\<lparr>pi_mode := m\<rparr>) \<Longrightarrow>
    sm_position states c'"
  by (simp add: sm_position_def)

lemma process_state_return_blocked:
  assumes "process_state_return c states = Inr (ResBlocked b, c')"
  shows "\<exists>name dict. process_state_return_with_args c states (VOctets name) (VDictionary dict) = Inr (ResBlocked b, c')"
proof -
  from assms obtain v where v: "cf_value c = Some v" by (cases "cf_value c") (auto simp: process_state_return_def)
  from assms v obtain vs where "v = VDynamicList vs" by (cases v) (auto simp: process_state_return_def)
  with assms v obtain x y where xy: "process_state_return_with_args c states x y = Inr (ResBlocked b, c')"
    by (auto simp: process_state_return_def split: list.splits)
  from xy obtain name where x: "x = VOctets name" by (cases x) (auto simp: process_state_return_with_args_def)
  from xy x obtain dict where "y = VDictionary dict" by (cases y) (auto simp: process_state_return_with_args_def)
  with xy x show ?thesis by blast
qed

lemma process_transition_return_blocked:
  assumes "process_transition_return c = Inr (ResBlocked b, c')"
  shows "\<exists>d. start_state_callback (c\<lparr>cf_accumulator := Some [VDictionary d]\<rparr>) = Inr (ResBlocked b, c')"
proof -
  from assms obtain v where v: "cf_value c = Some v" by (cases "cf_value c") (auto simp: process_transition_return_def)
  from assms v obtain vs where "v = VDynamicList vs" by (cases v) (auto simp: process_transition_return_def)
  with assms v obtain x where x: "process_transition_return_with_args c x = Inr (ResBlocked b, c')"
    by (auto simp: process_transition_return_def split: list.splits)
  then show ?thesis by (cases x) (auto simp: process_transition_return_with_args_def)
qed

lemma process_state_return_position:
  assumes "sm_position states c" and "process_state_return c states = Inr (ResBlocked b, c')"
  shows "sm_position states c'"
proof -
  from process_state_return_blocked [OF assms(2)] obtain name dict where
    args: "process_state_return_with_args c states (VOctets name) (VDictionary dict) = Inr (ResBlocked b, c')" by blast
  then obtain info tr target where
    info: "cf_info c = Some info" and tr: "map_of (si_transitions (snd (pi_to_state info))) name = Some tr"
    and target: "map_of states (ti_target_state tr) = Some target"
    and st: "start_transition_callback
       (c\<lparr>cf_accumulator := Some (extract_arguments (ti_argument_names tr) dict),
          cf_info := Some (info\<lparr>pi_from_state := Some (pi_to_state info), pi_transition := Some (name, tr),
              pi_to_state := (ti_target_state tr, target)\<rparr>)\<rparr>) = Inr (ResBlocked b, c')"
    by (auto simp: process_state_return_with_args_def chk_bind_eq_Inr chk_the_eq_Inr Let_def
        split: if_splits option.splits)
  have "map_of states (fst (pi_to_state info)) = Some (snd (pi_to_state info))"
    using assms(1) info by (simp add: sm_position_def)
  then show ?thesis
    using start_transition_info [OF st] tr target
    by (cases "pi_to_state info") (auto simp: sm_position_def)
qed

lemma process_transition_return_position:
  assumes "sm_position states c" and "process_transition_return c = Inr (ResBlocked b, c')"
  shows "sm_position states c'"
proof -
  from process_transition_return_blocked [OF assms(2)] obtain d where
    "start_state_callback (c\<lparr>cf_accumulator := Some [VDictionary d]\<rparr>) = Inr (ResBlocked b, c')" by blast
  from start_state_info [OF this] sm_position_mode [OF assms(1)] show ?thesis by auto
qed

lemma state_machine_run_position:
  assumes "sm_position states c" and "state_machine_run states c = Inr (ResBlocked b, c')"
  shows "sm_position states c'"
proof (cases "cf_callable c")
  case None
  from assms(2) None obtain s where s: "map_of states ''Open'' = Some s"
    and st: "start_state_callback (c\<lparr>cf_accumulator := Some [VDictionary Map.empty],
        cf_info := Some \<lparr>pi_mode = ModeTransition, pi_from_state = None,
          pi_transition = None, pi_to_state = (''Open'', s)\<rparr>\<rparr>) = Inr (ResBlocked b, c')"
    by (auto simp: state_machine_run_def split: option.splits)
  from start_state_info [OF st] s show ?thesis by (auto simp: sm_position_def)
next
  case (Some k)
  show ?thesis
  proof (cases "cf_callable_invoked c \<and> cf_value c \<noteq> None")
    case False
    then have "c' = c" using assms(2) Some by (auto simp: state_machine_run_def split: if_splits option.splits)
    with assms(1) show ?thesis by simp
  next
    case True
    with assms(2) Some obtain i where i: "cf_info c = Some i"
      by (cases "cf_info c") (auto simp: state_machine_run_def)
    show ?thesis
    proof (cases "pi_mode i = ModeTransition")
      case True
      then have "process_transition_return c = Inr (ResBlocked b, c')"
        using assms(2) Some i \<open>cf_callable_invoked c \<and> _\<close>
        by (cases "pi_transition i") (auto simp: state_machine_run_def)
      then show ?thesis by (rule process_transition_return_position [OF assms(1)])
    next
      case False
      then have "process_state_return c states = Inr (ResBlocked b, c')"
        using assms(2) Some i \<open>cf_callable_invoked c \<and> _\<close> by (auto simp: state_machine_run_def)
      then show ?thesis by (rule process_state_return_position [OF assms(1)])
    qed
  qed
qed

lemma sm_context_position: "sm_context states c \<Longrightarrow> sm_position states c"
proof (induction rule: sm_context.induct)
  case sm_init
  then show ?case by (simp add: sm_position_def init_control_flow_def)
next
  case (sm_run c b c')
  then show ?case by (blast intro: state_machine_run_position)
qed (simp_all add: sm_position_def cf_set_callable_invoked_def cf_set_callable_return_def)


section \<open>Properties\<close>

text \<open>A callable for the examples below.\<close>

abbreviation seven :: callable where
  "seven \<equiv> Callable (OpTree (OpTreeNode (Op_Int32Literal 7) [])) [] False"

text \<open>\<open>If\<close> invokes the first branch for true and the second for false, and only when both
  branches are callables; the first error or control value among condition, first and second
  branch is its result otherwise, looking at a branch only behind a boolean condition and, for
  the second, a callable first one.\<close>

theorem if_selects_branch:
  "if_run init_control_flow cond th el =
     (case (cond, th, el) of
        (VBool b, VCallable t, VCallable e) \<Rightarrow>
          Inr (ResBlocked WaitingForCallableInvocation,
            init_control_flow\<lparr>cf_callable := Some (VCallable (if b then t else e))\<rparr>)
      | _ \<Rightarrow>
          Inr (ResValue
            (if is_error_or_control cond then cond
             else if (\<exists>b. cond = VBool b) \<and> is_error_or_control th then th
             else if (\<exists>b. cond = VBool b) \<and> (\<exists>t. th = VCallable t) \<and> is_error_or_control el then el
             else VRuntimeError TypeError), init_control_flow))"
  by (cases cond; cases th; cases el) (simp_all add: if_run_def if_branches_def init_control_flow_def)

text \<open>\<open>GenerateList\<close> collects what its callable returns, in order, until the interruption,
  which ends the list, or an error, which is the result instead of the list; what the callable
  would return after that is not asked for.\<close>

theorem generate_list_collects:
  assumes "\<forall>v \<in> set vs. \<not> is_error_or_control v"
    and "e = VControlFlowInstruction InterruptGenerator \<or> (\<exists>x. e = VRuntimeError x)"
  shows "drive (\<lambda>c. generate_list_run c (VCallable k)) (vs @ e # rest) init_control_flow =
    Inr (ResValue (case e of VRuntimeError x \<Rightarrow> VRuntimeError x | _ \<Rightarrow> VDynamicList vs), rest)"
  using generate_list_drive_init [OF assms(1), of e k rest] assms(2)
  by (simp add: ends_list_def list_end_def)

theorem generate_list_collects_witness:
  "drive (\<lambda>c. generate_list_run c (VCallable seven))
     ([VInt 1, VInt 2] @ VControlFlowInstruction InterruptGenerator # [VInt 3]) init_control_flow =
   Inr (ResValue (VDynamicList [VInt 1, VInt 2]), [VInt 3])"
  using generate_list_collects [of "[VInt 1, VInt 2]" "VControlFlowInstruction InterruptGenerator"
    seven "[VInt 3]"]
  by simp

text \<open>\<open>FunctionCallForEach\<close> over a non-empty list invokes its callable once per element and
  yields the list of all results, errors among them included.\<close>

theorem for_each_collects_all:
  assumes "length rs = length xs" and "xs \<noteq> []"
  shows "drive (\<lambda>c. function_call_for_each_run c (VCallable k) (VDynamicList xs)) (rs @ rest) init_control_flow =
    Inr (ResValue (VDynamicList rs), rest)"
proof -
  obtain r rs' where rs: "rs = r # rs'" using assms by (cases rs) auto
  have start: "function_call_for_each_run init_control_flow (VCallable k) (VDynamicList xs) =
      Inr (ResBlocked WaitingForCallableInvocation, collecting (VCallable k) (Some xs) [] None False)"
    by (simp add: function_call_for_each_run_def function_call_for_each_def init_control_flow_def collecting_def)
  have "length ([] :: value list) + length (r # rs') = length xs" using assms(1) rs by simp
  from for_each_drive [OF this, of "VCallable k" "VDynamicList xs" rest "VCallable k"] show ?thesis
    by (simp add: drive.simps [of _ _ init_control_flow] start rs)
qed

theorem for_each_collects_all_witness:
  "drive (\<lambda>c. function_call_for_each_run c (VCallable seven) (VDynamicList [VInt 1, VInt 2]))
     ([VInt 5, VRuntimeError TypeError] @ []) init_control_flow =
   Inr (ResValue (VDynamicList [VInt 5, VRuntimeError TypeError]), [])"
  by (rule for_each_collects_all) simp_all

text \<open>On an empty list \<open>FunctionCallForEach\<close> asks for an invocation all the same, and the
  interpreter's request for the arguments reads beyond the end of the list; on a value that is
  not a list the call does not return.\<close>

theorem for_each_empty_list_faults:
  "(\<exists>c. function_call_for_each_run init_control_flow (VCallable k) (VDynamicList []) =
          Inr (ResBlocked WaitingForCallableInvocation, c)
        \<and> function_call_for_each_argument_list single c = Inl OutOfRange)
   \<and> (\<forall>v. (\<forall>vs. v \<noteq> VDynamicList vs) \<longrightarrow>
        function_call_for_each_run init_control_flow (VCallable k) v = Inl NonTermination)"
proof -
  have "function_call_for_each_run init_control_flow (VCallable k) v = Inl NonTermination"
    if "\<forall>vs. v \<noteq> VDynamicList vs" for v
    using that by (cases v) (simp_all add: function_call_for_each_run_def function_call_for_each_def init_control_flow_def)
  then show ?thesis
    by (simp add: function_call_for_each_run_def function_call_for_each_def init_control_flow_def
        function_call_for_each_argument_list_def)
qed

theorem for_each_empty_list_faults_witness:
  "function_call_for_each_run init_control_flow (VCallable seven) (VBool False) = Inl NonTermination"
  using for_each_empty_list_faults [of seven True] by simp



text \<open>C35: When the callback of a state other than \<open>Closed\<close> returns a transition's name and a
  dictionary, the machine goes to the transition's target and invokes its callback with the
  members the transition names as arguments, \<open>false\<close> for a missing one; a name that is not
  declared, or whose target is not, is a \<open>NameError\<close>. In \<open>Closed\<close> the dictionary is the
  result.\<close>

theorem state_machine_transition:
  assumes "cf_info c = Some i" and "pi_mode i = ModeState" and "cf_callable c \<noteq> None"
    and "cf_callable_invoked c" and "cf_value c = Some (VDynamicList [VOctets name, VDictionary d])"
  shows "case state_machine_run states c of
      Inl e \<Rightarrow> False
    | Inr (ResValue v, c') \<Rightarrow>
        (if fst (pi_to_state i) = ''Closed'' then v = VDictionary d
         else v = VRuntimeError NameError \<and>
           (case map_of (si_transitions (snd (pi_to_state i))) name of
              None \<Rightarrow> True | Some tr \<Rightarrow> map_of states (ti_target_state tr) = None))
    | Inr (ResBlocked b, c') \<Rightarrow>
        b = WaitingForCallableInvocation \<and> fst (pi_to_state i) \<noteq> ''Closed''
        \<and> (\<exists>tr target i'. map_of (si_transitions (snd (pi_to_state i))) name = Some tr
             \<and> map_of states (ti_target_state tr) = Some target
             \<and> cf_info c' = Some i' \<and> pi_to_state i' = (ti_target_state tr, target)
             \<and> pi_transition i' = Some (name, tr) \<and> pi_mode i' = ModeTransition
             \<and> cf_callable c' = Some (VCallable (Callable (ti_callback_optree tr) (ti_argument_names tr) True))
             \<and> state_machine_argument_list c' = Inr (Some (map (\<lambda>n. case d n of None \<Rightarrow> VBool False | Some v \<Rightarrow> v) (ti_argument_names tr))))"
  using assms
  by (auto simp: state_machine_run_def process_state_return_def process_state_return_with_args_def Let_def
      start_transition_callback_def state_machine_argument_list_def extract_arguments_def split: option.splits)

theorem state_machine_transition_witness:
  "\<exists>c'. state_machine_run [] (init_control_flow
      \<lparr>cf_info := Some \<lparr>pi_mode = ModeState, pi_from_state = None, pi_transition = None,
         pi_to_state = (''Closed'', StateInfo (OpTree (OpTreeNode Op_OpSequence [])) [])\<rparr>,
       cf_callable := Some (VBool True), cf_callable_invoked := True,
       cf_value := Some (VDynamicList [VOctets ''x'', VDictionary Map.empty])\<rparr>) = Inr (ResValue (VDictionary Map.empty), c')"
  (is "\<exists>c'. state_machine_run [] ?c = _")
proof -
  from state_machine_transition [of ?c _ "''x''" Map.empty "[]"] show ?thesis
    by (cases "state_machine_run [] ?c")
      (auto simp: state_machine_run_def process_state_return_def process_state_return_with_args_def)
qed

text \<open>C1: Whatever well-formed program the interpreter runs and whatever events reach it, its
  invariant holds, and no step fails an assertion or a cast of the machine itself or looks at
  the top of an empty stack.\<close>

theorem machine_safe:
  assumes "wf_tree t" and "\<forall>v. arglist = Some v \<longrightarrow> wf_value v" and "reachable t arglist m"
  shows "interpreter_ok m
     \<and> (\<forall>e. interpreter_step m = Inl e \<longrightarrow> e \<notin> {AssertionFailed, BadAnyCast, EmptyStack})"
  using reachable_ok [OF assms] interpreter_step_ok [of m]
  by (auto simp: machine_fault_def machine_outcome_def)

theorem machine_safe_witness:
  "\<exists>m. get_instance (OpTree (OpTreeNode Op_Add [OpTreeNode (Op_Int32Literal 1) [], OpTreeNode (Op_Int32Literal 2) []]))
     False None = Inr m \<and> interpreter_ok m"
proof -
  let ?t = "OpTree (OpTreeNode Op_Add [OpTreeNode (Op_Int32Literal 1) [], OpTreeNode (Op_Int32Literal 2) []])"
  obtain m where m: "get_instance ?t False None = Inr m" by (simp add: get_instance_def Let_def split_def)
  from machine_safe [of ?t None m] reachable_start [OF m] show ?thesis using m by simp
qed



text \<open>Preparing a continuation that has not exited ends with an operation on top whose
  arguments are there; the tree never runs out of children.\<close>

theorem prepare_finds_operation:
  assumes "continuation_ok ps c" and "ct_stack c \<noteq> []"
  shows "\<exists>c' f fs. prepare c = Inr (Ready, c') \<and> ct_stack c' = f # fs \<and> has_arguments_ready f"
  using prepare_ok [OF assms] by blast

theorem prepare_finds_operation_witness:
  "\<exists>c' f fs. prepare (new_continuation (OpTree (OpTreeNode Op_IntToAscii [OpTreeNode (Op_Int32Literal 1) []])) 0) =
     Inr (Ready, c') \<and> ct_stack c' = f # fs \<and> has_arguments_ready f"
  by (rule prepare_finds_operation [of "[new_pad None]"], rule new_continuation_ok)
    (simp_all add: new_continuation_def)

text \<open>C34: Once the end of the input has reached the operation a continuation is blocked on, its
  next step does not wait for input.\<close>

theorem eof_ends_reading:
  assumes "continuation_ok (g_pads g) c" and "ct_stack c = f # fs" and "has_arguments_ready f"
    and "ct_handle_eof c = Inr (u, c')" and "continuation_step c' g = Inr (s, c'', g')"
  shows "ct_result c'' \<noteq> ResBlocked WaitingForRead"
proof
  assume blocked: "ct_result c'' = ResBlocked WaitingForRead"
  obtain op cs where n: "fr_node f = OpTreeNode op cs" by (cases "fr_node f")
  have f: "ctx_ok op (fr_ctx f)" "wf_op op" "\<forall>v \<in> set (fr_accumulator f). wf_value v"
    using assms(1,2) by (simp_all add: continuation_ok_def frame_ok_def n)
  have ar: "\<forall>k. op_arity op = Some k \<longrightarrow> k \<le> length (fr_accumulator f)"
    using assms(3) by (auto simp: has_arguments_ready_def n)
  from assms(2,4) obtain ctx where
    ev: "op_handle_eof op (fr_ctx f) = Inr (u, ctx)" and c': "c' = c\<lparr>ct_stack := f\<lparr>fr_ctx := ctx\<rparr> # fs\<rparr>"
    by (auto simp: ct_handle_eof_def on_top_def stack_top_def chk_bind_eq_Inr n)
  have ctx: "ctx_ok op ctx" using op_handle_eof_ok [OF f(1)] ev by simp
  have eof: "is_io_operation op \<Longrightarrow> ctx = CtxIO d \<Longrightarrow> io_eof d" for d
    using ev f(1) by (auto simp: op_handle_eof_def on_io_def ctx_ok_io io_handle_eof_def)
  have ready: "has_arguments_ready (f\<lparr>fr_ctx := ctx\<rparr>)" using assms(3) by (auto simp: ready_complete)
  let ?f = "f\<lparr>fr_ctx := ctx\<rparr>"
  have prep: "prepare c' = Inr (Ready, c')" using ready by (simp add: prepare_def c')
  with assms(5) obtain x where x: "execute ?f g = Inr x"
    by (cases "execute ?f g") (simp_all add: continuation_step_def stack_top_def c')
  obtain r ctx' g1 where xs: "x = (r, ctx', g1)" by (cases x)
  have "ct_result c'' = r"
    using assms(5) prep x
    by (cases r; cases fs) (auto simp: continuation_step_def stack_top_def c' xs)
  moreover have "execute_specific_operation op (fr_accumulator f) ctx (fr_pad f) g = Inr (r, ctx', g1)"
    using x ready by (simp add: execute_def n xs)
  ultimately have "execute_specific_operation op (fr_accumulator f) ctx (fr_pad f) g = Inr (ct_result c'', ctx', g1)"
    by simp
  then have "is_io_operation op \<and> (\<exists>c. ctx = CtxIO c \<and> \<not> io_eof c)"
    using waits_for_read [OF ctx f(2) ar f(3)] blocked by simp
  with eof show False by blast
qed

theorem eof_ends_reading_witness:
  "\<exists>c' c'' s g'. ct_handle_eof (new_continuation (OpTree (OpTreeNode Op_ReadInt32Native [])) 0) = Inr ((), c')
     \<and> continuation_step c' \<lparr>g_pads = [new_pad None], g_erange = False\<rparr> = Inr (s, c'', g')
     \<and> ct_result c'' \<noteq> ResBlocked WaitingForRead"
proof -
  let ?n = "OpTreeNode Op_ReadInt32Native []"
  let ?c = "new_continuation (OpTree ?n) 0"
  let ?g = "\<lparr>g_pads = [new_pad None], g_erange = False\<rparr>"
  have ok: "continuation_ok (g_pads ?g) ?c" by (rule new_continuation_ok) simp_all
  have st: "ct_stack ?c = [new_frame ?n 0]" by (simp add: new_continuation_def)
  have ready: "has_arguments_ready (new_frame ?n 0)" by (simp add: has_arguments_ready_def new_frame_def)
  obtain c' where eof: "ct_handle_eof ?c = Inr ((), c')"
    and c': "c' = ?c\<lparr>ct_stack := [(new_frame ?n 0)\<lparr>fr_ctx := CtxIO (io_handle_eof init_io)\<rparr>]\<rparr>"
    by (simp add: ct_handle_eof_def on_top_def stack_top_def st op_handle_eof_def on_io_def)
      (simp add: new_frame_def initialize_context_def on_io_def)
  obtain s c'' g' where step: "continuation_step c' ?g = Inr (s, c'', g')"
    by (simp add: c' continuation_step_def prepare_def stack_top_def execute_def in_ctx_def on_io_def
        has_arguments_ready_def new_frame_def read_int32_run_def init_io_def io_handle_eof_def)
  from eof_ends_reading [OF ok st ready eof step] eof step show ?thesis by blast
qed

end
