(* ===== verification/Queues.thy ===== *)
theory Queues
  imports Prelude
begin

text \<open>
  The three templates of \<open>support/\<close>: the queue under a mutex, the notification signal, and the
  container replaced by compare-and-exchange. A member function that holds the lock for its
  whole body is one atomic step; the others are split where another thread can run.
\<close>

section \<open>MutexLockQueue\<close>

type_synonym 'a mutex_queue = "'a list"

definition queue_push_back :: "'a mutex_queue \<Rightarrow> 'a \<Rightarrow> 'a mutex_queue" where
  "queue_push_back q x = q @ [x]"

definition queue_push_front :: "'a mutex_queue \<Rightarrow> 'a \<Rightarrow> 'a mutex_queue" where
  "queue_push_front q x = x # q"

definition queue_pop :: "'a mutex_queue \<Rightarrow> 'a option \<times> 'a mutex_queue" where
  "queue_pop q = (case q of [] \<Rightarrow> (None, []) | x # t \<Rightarrow> (Some x, t))"

text \<open>
  What the clients of a queue of buffers rely on: the buffers it holds, in order, are an octet
  stream; \<open>push_back\<close> extends it at the end, \<open>pop\<close> removes its head buffer, and what is
  pushed at the front is read again before anything else.
\<close>

locale buffer_queue =
  fixes push_back :: "'q \<Rightarrow> 'a list \<Rightarrow> 'q"
    and push_front :: "'q \<Rightarrow> 'a list \<Rightarrow> 'q"
    and pop :: "'q \<Rightarrow> 'a list option \<times> 'q"
    and buffers :: "'q \<Rightarrow> 'a list list"
  assumes push_back_buffers: "buffers (push_back q x) = buffers q @ [x]"
    and push_front_buffers: "buffers (push_front q x) = x # buffers q"
    and pop_None: "fst (pop q) = None \<longleftrightarrow> buffers q = []"
    and pop_Some: "pop q = (Some x, q') \<Longrightarrow> buffers q = x # buffers q'"
    and pop_same: "pop q = (None, q') \<Longrightarrow> buffers q' = []"
begin

definition stream :: "'q \<Rightarrow> 'a list" where
  "stream q = concat (buffers q)"

lemma stream_push_back: "stream (push_back q x) = stream q @ x"
  by (simp add: stream_def push_back_buffers)

lemma stream_push_front: "stream (push_front q x) = x @ stream q"
  by (simp add: stream_def push_front_buffers)

lemma stream_pop: "pop q = (Some x, q') \<Longrightarrow> stream q = x @ stream q'"
  by (simp add: stream_def pop_Some)

lemma stream_pop_None: "pop q = (None, q') \<Longrightarrow> stream q = [] \<and> stream q' = []"
  using pop_None [of q] by (simp add: stream_def pop_same)

lemma give_back:
  assumes "pop q = (Some x, q')" "n \<le> length x"
  shows "stream (if n < length x then push_front q' (drop n x) else q') = drop n (stream q)"
  using assms by (auto simp: stream_pop stream_push_front)

lemma length_pop: "pop q = (Some x, q') \<Longrightarrow> length (buffers q') < length (buffers q)"
  by (simp add: pop_Some)

end

lemmas queue_defs = queue_push_back_def queue_push_front_def queue_pop_def

interpretation octet_queue: buffer_queue queue_push_back queue_push_front queue_pop "\<lambda>q. q"
  by unfold_locales (auto simp: queue_defs split: list.splits)

lemma octet_stream_concat [simp]: "octet_queue.stream = concat"
  by (rule ext) (simp add: octet_queue.stream_def)

section \<open>NotificationSignal\<close>

text \<open>
  \<open>notify\<close> stores the flag under the lock, releases it, and only then calls \<open>notify_all\<close>;
  \<open>wait\<close> tests the flag once, may release the lock by blocking on the condition variable,
  and clears the flag when it goes on, whatever woke it.
\<close>

record notification_signal =
  sig_notified :: bool
  sig_blocked :: bool

definition notification_signal_init :: notification_signal where
  "notification_signal_init = \<lparr>sig_notified = False, sig_blocked = False\<rparr>"

definition signal_store :: "notification_signal \<Rightarrow> notification_signal" where
  "signal_store s = s\<lparr>sig_notified := True\<rparr>"

definition signal_notify_all :: "notification_signal \<Rightarrow> notification_signal" where
  "signal_notify_all s = s\<lparr>sig_blocked := False\<rparr>"

definition signal_notify :: "notification_signal \<Rightarrow> notification_signal" where
  "signal_notify s = signal_notify_all (signal_store s)"

text \<open>The first half of \<open>wait\<close> says whether the caller goes on at once.\<close>

definition signal_wait :: "notification_signal \<Rightarrow> bool \<times> notification_signal" where
  "signal_wait s =
     (if \<not> sig_notified s then (False, s\<lparr>sig_blocked := True\<rparr>)
      else (True, s\<lparr>sig_notified := False\<rparr>))"

definition signal_woken :: "notification_signal \<Rightarrow> notification_signal" where
  "signal_woken s = s\<lparr>sig_notified := False, sig_blocked := False\<rparr>"

text \<open>
  The way the two loops of the runner and the event loop of the server use a signal: any number
  of producers push to a queue and then notify; one consumer takes from the queue, and waits
  when it found nothing. The producers are counted by how far they are in \<open>notify\<close>.
\<close>

datatype consumer_point = Looking | AboutToWait | Blocked_on_signal | Woken

record 'a handshake =
  hs_queue :: "'a mutex_queue"
  hs_signal :: notification_signal
  hs_to_store :: nat
  hs_to_wake :: nat
  hs_consumer :: consumer_point
  hs_taken :: "'a list"

definition handshake_init :: "'a handshake" where
  "handshake_init = \<lparr>hs_queue = [], hs_signal = notification_signal_init, hs_to_store = 0,
     hs_to_wake = 0, hs_consumer = Looking, hs_taken = []\<rparr>"

definition hs_push :: "'a \<Rightarrow> 'a handshake \<Rightarrow> 'a handshake" where
  "hs_push x h = h\<lparr>hs_queue := queue_push_back (hs_queue h) x, hs_to_store := Suc (hs_to_store h)\<rparr>"

definition hs_store :: "'a handshake \<Rightarrow> 'a handshake" where
  "hs_store h = h\<lparr>hs_signal := signal_store (hs_signal h), hs_to_store := hs_to_store h - 1,
     hs_to_wake := Suc (hs_to_wake h)\<rparr>"

definition hs_wake :: "'a handshake \<Rightarrow> 'a handshake" where
  "hs_wake h = h\<lparr>hs_signal := signal_notify_all (hs_signal h), hs_to_wake := hs_to_wake h - 1,
     hs_consumer := (if hs_consumer h = Blocked_on_signal then Woken else hs_consumer h)\<rparr>"

definition hs_take :: "'a handshake \<Rightarrow> 'a handshake" where
  "hs_take h = (case queue_pop (hs_queue h) of
       (Some x, q) \<Rightarrow> h\<lparr>hs_queue := q, hs_taken := hs_taken h @ [x]\<rparr>
     | (None, q) \<Rightarrow> h\<lparr>hs_consumer := AboutToWait\<rparr>)"

definition hs_wait :: "'a handshake \<Rightarrow> 'a handshake" where
  "hs_wait h = (case signal_wait (hs_signal h) of (goes_on, s) \<Rightarrow>
     h\<lparr>hs_signal := s, hs_consumer := (if goes_on then Looking else Blocked_on_signal)\<rparr>)"

definition hs_resume :: "'a handshake \<Rightarrow> 'a handshake" where
  "hs_resume h = h\<lparr>hs_signal := signal_woken (hs_signal h), hs_consumer := Looking\<rparr>"

inductive handshake_step :: "'a handshake \<Rightarrow> 'a handshake \<Rightarrow> bool" where
  step_push: "handshake_step h (hs_push x h)"
| step_store: "0 < hs_to_store h \<Longrightarrow> handshake_step h (hs_store h)"
| step_wake: "0 < hs_to_wake h \<Longrightarrow> handshake_step h (hs_wake h)"
| step_take: "hs_consumer h = Looking \<Longrightarrow> handshake_step h (hs_take h)"
| step_wait: "hs_consumer h = AboutToWait \<Longrightarrow> handshake_step h (hs_wait h)"
| step_resume: "hs_consumer h = Woken \<or> hs_consumer h = Blocked_on_signal \<Longrightarrow>
    handshake_step h (hs_resume h)"

lemmas handshake_defs = hs_push_def hs_store_def hs_wake_def hs_take_def hs_wait_def hs_resume_def
  signal_store_def signal_notify_all_def signal_wait_def signal_woken_def queue_defs
  handshake_init_def notification_signal_init_def

text \<open>
  No wake-up is lost: a consumer that goes to wait, or waits, while the queue is not empty has
  a producer that will still store the flag, or the flag itself, or a producer about to wake it.
\<close>

definition handshake_ok :: "'a handshake \<Rightarrow> bool" where
  "handshake_ok h \<longleftrightarrow> hs_queue h = [] \<or>
     (case hs_consumer h of
        AboutToWait \<Rightarrow> 0 < hs_to_store h \<or> sig_notified (hs_signal h)
      | Blocked_on_signal \<Rightarrow> 0 < hs_to_store h \<or> 0 < hs_to_wake h
      | _ \<Rightarrow> True)"

lemma handshake_step_ok: "handshake_step h h' \<Longrightarrow> handshake_ok h \<Longrightarrow> handshake_ok h'"
  by (induction rule: handshake_step.induct)
    (auto simp: handshake_ok_def handshake_defs split: list.splits consumer_point.splits)

lemma handshake_reachable_ok:
  assumes "handshake_step\<^sup>*\<^sup>* handshake_init h"
  shows "handshake_ok h"
  using assms
proof (induction rule: rtranclp_induct)
  case base
  show ?case by (simp add: handshake_ok_def handshake_init_def)
qed (rule handshake_step_ok)

section \<open>TransactionalContainer\<close>

text \<open>
  A container is a pointer to an immutable value; the compare-and-exchange compares the
  pointers. \<open>tc_heap\<close> holds every value ever allocated (a snapshot keeps its value alive, so
  no address is reused while a transaction holds it); \<open>tc_threads\<close> is, for each transaction
  in flight, the snapshot it loaded, with the function it applies. The list of committed
  functions is the history.
\<close>

record ('t, 'c) transactional_container =
  tc_heap :: "'c list"
  tc_pointer :: nat
  tc_threads :: "'t \<Rightarrow> (('c \<Rightarrow> 'c option) \<times> nat) option"
  tc_history :: "('c \<Rightarrow> 'c option) list"

definition tc_init :: "'c \<Rightarrow> ('t, 'c) transactional_container" where
  "tc_init c = \<lparr>tc_heap = [c], tc_pointer = 0, tc_threads = (\<lambda>_. None), tc_history = []\<rparr>"

definition tc_current :: "('t, 'c) transactional_container \<Rightarrow> 'c" where
  "tc_current t = tc_heap t ! tc_pointer t"

definition tc_load :: "'t \<Rightarrow> ('c \<Rightarrow> 'c option) \<Rightarrow> ('t, 'c) transactional_container
    \<Rightarrow> ('t, 'c) transactional_container" where
  "tc_load i f t = t\<lparr>tc_threads := (tc_threads t)(i := Some (f, tc_pointer t))\<rparr>"

text \<open>
  The rest of one round of \<open>do_transaction\<close>: the function is applied to the snapshot (\<open>None\<close>
  is an exception, which ends the transaction), then the exchange succeeds only when the
  pointer is still the snapshot; otherwise the transaction loads again.
\<close>

definition tc_commit :: "'t \<Rightarrow> ('t, 'c) transactional_container \<Rightarrow> ('t, 'c) transactional_container" where
  "tc_commit i t = (case tc_threads t i of
       None \<Rightarrow> t
     | Some (f, p) \<Rightarrow>
         (case f (tc_heap t ! p) of
            None \<Rightarrow> t\<lparr>tc_threads := (tc_threads t)(i := None)\<rparr>
          | Some c \<Rightarrow>
              if tc_pointer t = p then
                t\<lparr>tc_heap := tc_heap t @ [c], tc_pointer := length (tc_heap t),
                  tc_threads := (tc_threads t)(i := None), tc_history := tc_history t @ [f]\<rparr>
              else tc_load i f t))"

inductive tc_step :: "('t, 'c) transactional_container \<Rightarrow> ('t, 'c) transactional_container \<Rightarrow> bool" where
  tc_step_load: "tc_threads t i = None \<Longrightarrow> tc_step t (tc_load i f t)"
| tc_step_commit: "tc_step t (tc_commit i t)"
| tc_step_spurious: "tc_threads t i = Some (f, p) \<Longrightarrow> tc_step t (tc_load i f t)"

definition do_transaction :: "('c \<Rightarrow> 'c option) \<Rightarrow> 'c \<Rightarrow> 'c option \<times> 'c" where
  "do_transaction f c = (case f c of None \<Rightarrow> (None, c) | Some d \<Rightarrow> (Some d, d))"

definition tc_replay :: "'c \<Rightarrow> ('c \<Rightarrow> 'c option) list \<Rightarrow> 'c" where
  "tc_replay c fs = fold (\<lambda>f c. snd (do_transaction f c)) fs c"

definition tc_ok :: "'c \<Rightarrow> ('t, 'c) transactional_container \<Rightarrow> bool" where
  "tc_ok c t \<longleftrightarrow> tc_pointer t < length (tc_heap t) \<and> tc_current t = tc_replay c (tc_history t) \<and>
     (\<forall>i f p. tc_threads t i = Some (f, p) \<longrightarrow> p < length (tc_heap t))"

lemmas tc_defs = tc_load_def tc_commit_def tc_current_def tc_replay_def do_transaction_def tc_init_def

lemma tc_load_ok: "tc_ok c t \<Longrightarrow> tc_ok c (tc_load i f t)"
  by (auto simp: tc_ok_def tc_defs)

lemma tc_commit_ok:
  assumes ok: "tc_ok c t"
  shows "tc_ok c (tc_commit i t)"
proof (cases "tc_threads t i")
  case None
  with ok show ?thesis by (simp add: tc_commit_def)
next
  case (Some fp)
  then obtain f p where fp: "tc_threads t i = Some (f, p)" by (cases fp) auto
  show ?thesis
  proof (cases "f (tc_heap t ! p)")
    case None
    with ok fp show ?thesis by (auto simp: tc_ok_def tc_defs)
  next
    case (Some d)
    show ?thesis
    proof (cases "tc_pointer t = p")
      case True
      with ok fp Some show ?thesis
        by (auto simp: tc_ok_def tc_defs nth_append intro: less_SucI)
    next
      case False
      with ok fp Some show ?thesis by (simp add: tc_commit_def tc_load_ok)
    qed
  qed
qed

lemma tc_step_ok: "tc_step t t' \<Longrightarrow> tc_ok c t \<Longrightarrow> tc_ok c t'"
  by (induction rule: tc_step.induct) (simp_all add: tc_load_ok tc_commit_ok)

lemma tc_reachable_ok: "tc_step\<^sup>*\<^sup>* (tc_init c) t \<Longrightarrow> tc_ok c t"
proof (induction rule: rtranclp_induct)
  case base
  show ?case by (simp add: tc_ok_def tc_defs)
qed (rule tc_step_ok)

end
