(* ===== verification/Runner.thy ===== *)
theory Runner
  imports Queues MachineInvariant
begin

text \<open>
  \<open>interpretercontext.hpp\<close>, \<open>interpretercollection.hpp\<close>, \<open>interpretercollectionmanager.cpp\<close>
  and \<open>interpreterrunner.cpp\<close>: an interpreter with its queues to the event loop, the
  collection of interpreters by file descriptor, and the two loops that drive them. A handler
  is one atomic step with respect to the other threads, and so is a round of a loop for one
  interpreter. The contexts are shared objects: they live in a store, and a collection holds
  their addresses.
\<close>

section \<open>State\<close>

record interpreter_context =
  cx_interpreter :: interpreter
  cx_input_buffer :: "octets mutex_queue"
  cx_output_buffer :: "octets mutex_queue"
  cx_callback_request_queue :: "(string \<times> value list) mutex_queue"
  cx_callback_response_queue :: "value mutex_queue"
  cx_interpreter_result :: "op_result option"
  cx_eof :: bool
  cx_exited :: bool

definition new_context :: "interpreter \<Rightarrow> interpreter_context" where
  "new_context m = \<lparr>cx_interpreter = m, cx_input_buffer = [], cx_output_buffer = [],
     cx_callback_request_queue = [], cx_callback_response_queue = [],
     cx_interpreter_result = None, cx_eof = False, cx_exited = False\<rparr>"

record interpreter_signals =
  wake_up_interpreter :: notification_signal
  wake_up_for_output :: notification_signal
  wake_up_for_input :: notification_signal
  wake_up_for_callback :: notification_signal

definition new_signals :: interpreter_signals where
  "new_signals = \<lparr>wake_up_interpreter = notification_signal_init,
     wake_up_for_output = notification_signal_init, wake_up_for_input = notification_signal_init,
     wake_up_for_callback = notification_signal_init\<rparr>"

definition notify_interpreter :: "interpreter_signals \<Rightarrow> interpreter_signals" where
  "notify_interpreter s = s\<lparr>wake_up_interpreter := signal_notify (wake_up_interpreter s)\<rparr>"

definition notify_output :: "interpreter_signals \<Rightarrow> interpreter_signals" where
  "notify_output s = s\<lparr>wake_up_for_output := signal_notify (wake_up_for_output s)\<rparr>"

definition notify_input :: "interpreter_signals \<Rightarrow> interpreter_signals" where
  "notify_input s = s\<lparr>wake_up_for_input := signal_notify (wake_up_for_input s)\<rparr>"

definition notify_callback :: "interpreter_signals \<Rightarrow> interpreter_signals" where
  "notify_callback s = s\<lparr>wake_up_for_callback := signal_notify (wake_up_for_callback s)\<rparr>"

definition notify_everything :: "interpreter_signals \<Rightarrow> interpreter_signals" where
  "notify_everything s = notify_callback (notify_input (notify_output (notify_interpreter s)))"

section \<open>The blocked interpreter\<close>

datatype handle_blocked_result = StillBlocked | Unblocked | NeedsRetry

text \<open>The loop of \<open>handle_read\<close> that joins the buffers: nothing of \<open>joined\<close> was consumed so far.\<close>

function read_join :: "interpreter \<Rightarrow> octets mutex_queue \<Rightarrow> octets \<Rightarrow> bool
    \<Rightarrow> (handle_blocked_result \<times> interpreter \<times> octets mutex_queue) checked" where
  "read_join m q joined did_join =
     (case queue_pop q of
        (Some nextbuffer, q) \<Rightarrow>
          chk_bind (in_handle_read m (joined @ nextbuffer)) (\<lambda>(consumed, m).
            if consumed = 0 then read_join m q (joined @ nextbuffer) True
            else Inr (Unblocked, m,
              if consumed < length (joined @ nextbuffer)
              then queue_push_front q (drop consumed (joined @ nextbuffer)) else q))
      | (None, q) \<Rightarrow>
          let q = queue_push_front q joined in
          chk_bind (in_ready_to_evaluate m) (\<lambda>(ready, m).
            Inr (if ready then Unblocked else if did_join then NeedsRetry else StillBlocked, m, q)))"
  by pat_completeness auto
termination
  by (relation "measure (\<lambda>(m, q, joined, did_join). length q)") (auto simp: queue_pop_def split: list.splits)

declare read_join.simps [simp del]

definition handle_read :: "interpreter_context \<Rightarrow> interpreter_signals
    \<Rightarrow> (handle_blocked_result \<times> interpreter_context \<times> interpreter_signals) checked" where
  "handle_read context signals =
     (case queue_pop (cx_input_buffer context) of
        (Some buffer, q) \<Rightarrow>
          chk_bind (in_handle_read (cx_interpreter context) buffer) (\<lambda>(consumed, m).
            if consumed = 0 then
              chk_bind (read_join m q buffer False) (\<lambda>(r, m, q).
                Inr (r, context\<lparr>cx_interpreter := m, cx_input_buffer := q\<rparr>, signals))
            else Inr (Unblocked, context\<lparr>cx_interpreter := m, cx_input_buffer :=
                   if consumed < length buffer then queue_push_front q (drop consumed buffer) else q\<rparr>,
                 signals))
      | (None, q) \<Rightarrow>
          if cx_eof context then
            chk_bind (in_handle_eof (cx_interpreter context)) (\<lambda>(_, m).
              Inr (Unblocked, context\<lparr>cx_interpreter := m\<rparr>, signals))
          else Inr (StillBlocked, context, notify_output (notify_input signals)))"

definition handle_write :: "interpreter_context \<Rightarrow> interpreter_signals
    \<Rightarrow> (handle_blocked_result \<times> interpreter_context \<times> interpreter_signals) checked" where
  "handle_write context signals =
     (if cx_eof context then
        chk_bind (in_handle_eof (cx_interpreter context)) (\<lambda>(_, m).
          Inr (Unblocked, context\<lparr>cx_interpreter := m\<rparr>, notify_input (notify_output signals)))
      else
        chk_bind (in_get_write_buffer (cx_interpreter context)) (\<lambda>(buffer, m).
        chk_bind (in_handle_write m (length buffer)) (\<lambda>(_, m).
          Inr (Unblocked, context\<lparr>cx_interpreter := m,
                 cx_output_buffer := queue_push_back (cx_output_buffer context) buffer\<rparr>,
               notify_output signals))))"

definition handle_start_callback :: "interpreter_context \<Rightarrow> interpreter_signals
    \<Rightarrow> (handle_blocked_result \<times> interpreter_context \<times> interpreter_signals) checked" where
  "handle_start_callback context signals =
     chk_bind (in_get_callback_key (cx_interpreter context)) (\<lambda>(key, m).
     chk_bind (in_get_callback_arguments m) (\<lambda>args.
     chk_bind (in_set_callback_called m) (\<lambda>(_, m).
       Inr (Unblocked, context\<lparr>cx_interpreter := m,
              cx_callback_request_queue := queue_push_back (cx_callback_request_queue context) (key, args)\<rparr>,
            notify_callback signals))))"

definition handle_finish_callback :: "interpreter_context \<Rightarrow> interpreter_signals
    \<Rightarrow> (handle_blocked_result \<times> interpreter_context \<times> interpreter_signals) checked" where
  "handle_finish_callback context signals =
     (case queue_pop (cx_callback_response_queue context) of
        (Some v, q) \<Rightarrow>
          chk_bind (in_set_callback_return (cx_interpreter context) v) (\<lambda>(_, m).
            Inr (Unblocked, context\<lparr>cx_interpreter := m, cx_callback_response_queue := q\<rparr>, signals))
      | (None, q) \<Rightarrow> Inr (StillBlocked, context, signals))"

definition handle_blocked_interpreter :: "interpreter_context \<Rightarrow> interpreter_signals
    \<Rightarrow> (handle_blocked_result \<times> interpreter_context \<times> interpreter_signals) checked" where
  "handle_blocked_interpreter context signals =
     chk_bind (in_get_result (cx_interpreter context)) (\<lambda>r.
       case r of
         ResBlocked reason \<Rightarrow>
           (case reason of
              WaitingForRead \<Rightarrow> handle_read context signals
            | WaitingForWrite \<Rightarrow> handle_write context signals
            | WaitingForCallback \<Rightarrow> handle_start_callback context signals
            | WaitingCallbackData \<Rightarrow> handle_finish_callback context signals
            | WaitingForCallableInvocation \<Rightarrow> Inr (Unblocked, context, signals)
            | WaitingForCallableResult \<Rightarrow> Inr (Unblocked, context, signals))
       | ResValue v \<Rightarrow> Inr (Unblocked, context, signals))"

section \<open>The interpreter loop\<close>

text \<open>What one interpreter contributes to the counters of a round.\<close>

datatype served = Skipped | ServedReady | ServedBlocked handle_blocked_result | ServedExited

text \<open>\<open>set_value\<close> or \<open>set_exception\<close>: the future of the interpreter gets its result.\<close>

definition serve_interpreter :: "interpreter_context \<Rightarrow> interpreter_signals
    \<Rightarrow> (served \<times> interpreter_context \<times> interpreter_signals) checked" where
  "serve_interpreter context signals =
     (if cx_exited context then Inr (Skipped, context, signals)
      else
        chk_bind (interpreter_step (cx_interpreter context)) (\<lambda>(state, m).
          let context = context\<lparr>cx_interpreter := m\<rparr> in
          case state of
            MissingArguments \<Rightarrow> Inr (ServedReady, context, signals)
          | Ready \<Rightarrow> Inr (ServedReady, context, signals)
          | Blocked \<Rightarrow>
              chk_bind (handle_blocked_interpreter context signals) (\<lambda>(r, context, signals).
                Inr (ServedBlocked r, context, signals))
          | Exited \<Rightarrow>
              chk_bind (in_get_result m) (\<lambda>r.
                Inr (ServedExited, context\<lparr>cx_exited := True, cx_interpreter_result := Some r\<rparr>,
                     notify_everything signals))))"

record round_counters =
  active_interpreters :: nat
  ready_interpreters :: nat
  needs_retry :: bool

definition count_served :: "served \<Rightarrow> round_counters \<Rightarrow> round_counters" where
  "count_served s n = (case s of
       ServedReady \<Rightarrow> n\<lparr>active_interpreters := Suc (active_interpreters n),
                          ready_interpreters := Suc (ready_interpreters n)\<rparr>
     | ServedBlocked r \<Rightarrow>
         (let n = n\<lparr>active_interpreters := Suc (active_interpreters n)\<rparr> in
          case r of
            Unblocked \<Rightarrow> n\<lparr>ready_interpreters := Suc (ready_interpreters n)\<rparr>
          | NeedsRetry \<Rightarrow> n\<lparr>needs_retry := True\<rparr>
          | StillBlocked \<Rightarrow> n)
     | _ \<Rightarrow> n)"

type_synonym context_store = "interpreter_context list"

record interpreter_collection =
  interpreters :: "(int \<times> nat) list"
  signals_of :: interpreter_signals

fun serve_all :: "(int \<times> nat) list \<Rightarrow> context_store \<Rightarrow> interpreter_signals \<Rightarrow> round_counters
    \<Rightarrow> (context_store \<times> interpreter_signals \<times> round_counters) checked" where
  "serve_all [] store signals n = Inr (store, signals, n)"
| "serve_all ((fd, a) # rest) store signals n =
     chk_bind (serve_interpreter (store ! a) signals) (\<lambda>(s, context, signals).
       serve_all rest (store[a := context]) signals (count_served s n))"

datatype loop_decision = LoopBreak | LoopWait | LoopAgain

text \<open>\<open>same\<close> is whether the manager still has the collection this round went through.\<close>

definition interpreter_round :: "bool \<Rightarrow> bool \<Rightarrow> (int \<times> nat) list \<Rightarrow> context_store \<Rightarrow> interpreter_signals
    \<Rightarrow> (loop_decision \<times> context_store \<times> interpreter_signals) checked" where
  "interpreter_round exit_when_done same fds store signals =
     chk_bind (serve_all fds store signals
         \<lparr>active_interpreters = 0, ready_interpreters = 0, needs_retry = False\<rparr>)
       (\<lambda>(store, signals, n).
          if same then
            (if active_interpreters n = 0 then
               (if exit_when_done then
                  Inr (LoopBreak, store, notify_output (notify_input (notify_callback signals)))
                else Inr (LoopWait, store, signals))
             else if ready_interpreters n = 0 \<and> \<not> needs_retry n then Inr (LoopWait, store, signals)
             else Inr (LoopAgain, store, signals))
          else Inr (LoopAgain, store, signals))"

section \<open>The callback loop\<close>

type_synonym callback_map = "string \<rightharpoonup> (value list \<Rightarrow> value)"

definition answer_callback :: "callback_map \<Rightarrow> string \<times> value list \<Rightarrow> value" where
  "answer_callback callbacks request =
     (case callbacks (fst request) of
        None \<Rightarrow> VRuntimeError TypeError
      | Some fp \<Rightarrow> fp (snd request))"

definition serve_callback :: "callback_map \<Rightarrow> interpreter_context \<Rightarrow> interpreter_signals
    \<Rightarrow> bool \<times> interpreter_context \<times> interpreter_signals" where
  "serve_callback callbacks context signals =
     (case queue_pop (cx_callback_request_queue context) of
        (Some cbdata, q) \<Rightarrow>
          (True, context\<lparr>cx_callback_request_queue := q,
             cx_callback_response_queue :=
               queue_push_back (cx_callback_response_queue context) (answer_callback callbacks cbdata)\<rparr>,
           notify_interpreter signals)
      | (None, q) \<Rightarrow> (False, context, signals))"

fun serve_callbacks :: "callback_map \<Rightarrow> (int \<times> nat) list \<Rightarrow> context_store \<Rightarrow> interpreter_signals
    \<Rightarrow> nat \<Rightarrow> nat \<Rightarrow> context_store \<times> interpreter_signals \<times> nat \<times> nat" where
  "serve_callbacks callbacks [] store signals active called = (store, signals, active, called)"
| "serve_callbacks callbacks ((fd, a) # rest) store signals active called =
     (if cx_exited (store ! a) then serve_callbacks callbacks rest store signals active called
      else case serve_callback callbacks (store ! a) signals of
        (b, context, signals) \<Rightarrow>
          serve_callbacks callbacks rest (store[a := context]) signals (Suc active)
            (if b then Suc called else called))"

definition callback_round :: "callback_map \<Rightarrow> bool \<Rightarrow> bool \<Rightarrow> (int \<times> nat) list \<Rightarrow> context_store
    \<Rightarrow> interpreter_signals \<Rightarrow> loop_decision \<times> context_store \<times> interpreter_signals" where
  "callback_round callbacks exit_when_done same fds store signals =
     (case serve_callbacks callbacks fds store signals 0 0 of
        (store, signals, active, called) \<Rightarrow>
          if same then
            (if active = 0 then
               (if exit_when_done then
                  (LoopBreak, store, notify_output (notify_input (notify_interpreter signals)))
                else (LoopWait, store, signals))
             else if called = 0 then (LoopWait, store, signals)
             else (LoopAgain, store, signals))
          else (LoopAgain, store, signals))"

section \<open>The collection manager\<close>

text \<open>
  The function a transaction applies; \<open>None\<close> is the exception. The \<open>unordered_map\<close> is an
  association list in its iteration order, a new entry at any place of it; here at the front.
\<close>

definition erase_fd :: "int \<Rightarrow> (int \<times> nat) list \<Rightarrow> (int \<times> nat) list" where
  "erase_fd fd m = filter (\<lambda>(k, a). k \<noteq> fd) m"

definition insert_function :: "context_store \<Rightarrow> int \<Rightarrow> nat \<Rightarrow> interpreter_collection \<Rightarrow> interpreter_collection option" where
  "insert_function store fd ctx current =
     (case map_of (interpreters current) fd of
        Some old \<Rightarrow>
          if cx_exited (store ! old)
          then Some (current\<lparr>interpreters := (fd, ctx) # erase_fd fd (interpreters current)\<rparr>)
          else None
      | None \<Rightarrow> Some (current\<lparr>interpreters := (fd, ctx) # interpreters current\<rparr>))"

definition remove_function :: "int \<Rightarrow> interpreter_collection \<Rightarrow> interpreter_collection option" where
  "remove_function fd current = Some (current\<lparr>interpreters := erase_fd fd (interpreters current)\<rparr>)"

record manager =
  mg_store :: context_store
  mg_collection :: interpreter_collection

text \<open>The signals are shared by all versions of the collection: notifying them is done in place.\<close>

definition mg_notify :: "manager \<Rightarrow> manager" where
  "mg_notify mg = mg\<lparr>mg_collection := (mg_collection mg)
     \<lparr>signals_of := notify_everything (signals_of (mg_collection mg))\<rparr>\<rparr>"

definition insert_interpreter :: "int \<Rightarrow> optree \<Rightarrow> bool \<Rightarrow> value option \<Rightarrow> manager \<Rightarrow> (bool \<times> manager) checked" where
  "insert_interpreter fd program erange arglist mg =
     chk_bind (get_instance program erange arglist) (\<lambda>m.
       let mg = mg\<lparr>mg_store := mg_store mg @ [new_context m]\<rparr>;
           ctx = length (mg_store mg) - 1 in
       case do_transaction (insert_function (mg_store mg) fd ctx) (mg_collection mg) of
         (None, c) \<Rightarrow> Inr (False, mg)
       | (Some c, _) \<Rightarrow> Inr (True, mg_notify (mg\<lparr>mg_collection := c\<rparr>)))"

definition remove_interpreter :: "int \<Rightarrow> manager \<Rightarrow> manager" where
  "remove_interpreter fd mg = mg_notify (mg\<lparr>mg_collection := snd (do_transaction (remove_function fd) (mg_collection mg))\<rparr>)"

end
