(* ===== verification/RunnerLemmas.thy ===== *)
theory RunnerLemmas
  imports Runner
begin

text \<open>
  Facts about the handlers of the runner: what reading does to the stream of buffered octets,
  when a handler leaves its interpreter blocked, and that the interpreter's invariant survives
  every handler.
\<close>

section \<open>Observations of the top operation\<close>

lemma on_io_same: "on_io ctx (\<lambda>c. Inr (h c, c)) = Inr (b, ctx') \<Longrightarrow> ctx' = ctx"
  by (cases ctx) (auto simp: on_io_def)

lemma op_ready_same: "op_ready_to_evaluate op ctx = Inr (b, ctx') \<Longrightarrow> ctx' = ctx"
  by (cases op) (auto dest: on_io_same split: if_splits)

lemma in_ready_same:
  assumes "in_ready_to_evaluate m = Inr (b, m')"
  shows "m' = m"
  using assms
  by (cases "in_stack m"; cases "ct_stack (hd (in_stack m))")
    (auto simp: in_ready_to_evaluate_def on_top_continuation_def ct_ready_to_evaluate_def on_top_def
      stack_top_def chk_bind_eq_Inr dest!: op_ready_same)

lemma event_result:
  assumes "on_top_continuation m (\<lambda>c. on_top c ev) = Inr (r, m')"
  shows "in_get_result m' = in_get_result m"
  using assms
  by (cases "in_stack m"; cases "ct_stack (hd (in_stack m))")
    (auto simp: on_top_continuation_def on_top_def stack_top_def in_get_result_def chk_bind_eq_Inr)

lemma in_handle_read_result: "in_handle_read m s = Inr (n, m') \<Longrightarrow> in_get_result m' = in_get_result m"
  unfolding in_handle_read_def ct_handle_read_def by (rule event_result)

section \<open>Reading\<close>

text \<open>What \<open>handle_read\<close> promises of the stream: what left the buffers is what the
  operation said it had consumed.\<close>

definition read_outcome ::
  "octets \<Rightarrow> handle_blocked_result \<Rightarrow> interpreter \<Rightarrow> octets mutex_queue \<Rightarrow> bool" where
  "read_outcome str r m' q' \<longleftrightarrow>
     (\<exists>n. concat q' = drop n str \<and> (r \<noteq> Unblocked \<longrightarrow> n = 0)
        \<and> (n = 0 \<or> (\<exists>m0 buf k. prefix buf str \<and> in_handle_read m0 buf = Inr (k, m') \<and> n = min k (length buf))))"

lemma read_outcome_consumed:
  assumes "str = buf @ concat q" and "in_handle_read m0 buf = Inr (k, m')"
  shows "read_outcome str Unblocked m' (if k < length buf then queue_push_front q (drop k buf) else q)"
proof -
  have "concat (if k < length buf then queue_push_front q (drop k buf) else q) = drop (min k (length buf)) str"
    using assms(1) by (simp add: queue_defs min_def)
  moreover have "prefix buf str" using assms(1) by simp
  ultimately show ?thesis using assms(2) unfolding read_outcome_def by blast
qed

lemma read_join_Nil:
  "read_join m [] joined d =
     chk_bind (in_ready_to_evaluate m) (\<lambda>(ready, m).
       Inr (if ready then Unblocked else if d then NeedsRetry else StillBlocked, m, [joined]))"
  by (simp add: read_join.simps queue_defs)

lemma read_join_Cons:
  "read_join m (b # q) joined d =
     chk_bind (in_handle_read m (joined @ b)) (\<lambda>(k, m).
       if k = 0 then read_join m q (joined @ b) True
       else Inr (Unblocked, m,
         if k < length (joined @ b) then queue_push_front q (drop k (joined @ b)) else q))"
  by (simp add: read_join.simps [of _ "b # q"] queue_pop_def)

text \<open>One round of the loop on a buffer, as two cases.\<close>

lemma read_join_ConsE:
  assumes "read_join m (b # q) joined d = Inr (r, m', q')"
  obtains (again) m1 where "in_handle_read m (joined @ b) = Inr (0, m1)"
      "read_join m1 q (joined @ b) True = Inr (r, m', q')"
  | (consumed) k where "in_handle_read m (joined @ b) = Inr (k, m')" "k \<noteq> 0" "r = Unblocked"
      "q' = (if k < length (joined @ b) then queue_push_front q (drop k (joined @ b)) else q)"
proof -
  from assms obtain k m1 where rd: "in_handle_read m (joined @ b) = Inr (k, m1)"
    and cont: "(if k = 0 then read_join m1 q (joined @ b) True
       else Inr (Unblocked, m1, if k < length (joined @ b) then queue_push_front q (drop k (joined @ b)) else q))
       = Inr (r, m', q')"
    by (auto simp: read_join_Cons chk_bind_eq_Inr)
  show thesis
  proof (cases "k = 0")
    case True
    then show thesis using again [of m1] rd cont by simp
  next
    case False
    then show thesis using consumed [of k] rd cont by (simp split del: if_split)
  qed
qed

lemma read_join_outcome:
  "read_join m q joined d = Inr (r, m', q') \<Longrightarrow> read_outcome (joined @ concat q) r m' q'"
proof (induction q arbitrary: m joined d)
  case Nil
  then have "q' = [joined]" by (auto simp: read_join_Nil chk_bind_eq_Inr)
  then show ?case unfolding read_outcome_def by (intro exI [of _ 0]) simp
next
  case (Cons b q)
  from Cons.prems show ?case
  proof (cases rule: read_join_ConsE)
    case (again m1)
    from Cons.IH [OF again(2)] show ?thesis by simp
  next
    case (consumed k)
    from read_outcome_consumed [of "joined @ concat (b # q)" "joined @ b" q, OF _ consumed(1)] consumed(3,4)
    show ?thesis by simp
  qed
qed

lemma read_join_result:
  "read_join m q joined d = Inr (r, m', q') \<Longrightarrow> in_get_result m' = in_get_result m"
proof (induction q arbitrary: m joined d)
  case Nil
  then show ?case by (auto simp: read_join_Nil chk_bind_eq_Inr dest!: in_ready_same)
next
  case (Cons b q)
  from Cons.prems show ?case
  proof (cases rule: read_join_ConsE)
    case (again m1)
    from Cons.IH [OF again(2)] in_handle_read_result [OF again(1)] show ?thesis by simp
  next
    case (consumed k)
    from in_handle_read_result [OF consumed(1)] show ?thesis .
  qed
qed

text \<open>The join loop says \<open>StillBlocked\<close> only when it joined nothing.\<close>

lemma read_join_not_still_blocked:
  "read_join m q joined True = Inr (r, m', q') \<Longrightarrow> r \<noteq> StillBlocked"
proof (induction q arbitrary: m joined)
  case Nil
  then show ?case by (auto simp: read_join_Nil chk_bind_eq_Inr split: if_splits)
next
  case (Cons b q)
  from Cons.prems Cons.IH show ?case by (cases rule: read_join_ConsE) auto
qed

lemma read_join_still_blocked:
  assumes "read_join m q joined d = Inr (StillBlocked, m', q')"
  shows "q = [] \<and> m' = m \<and> q' = [joined] \<and> in_ready_to_evaluate m = Inr (False, m)"
proof (cases q)
  case Nil
  with assms obtain ready where "in_ready_to_evaluate m = Inr (ready, m')" "\<not> ready" "q' = [joined]"
    by (auto simp: read_join_Nil chk_bind_eq_Inr split: if_splits)
  with Nil in_ready_same [of m ready m'] show ?thesis by simp
next
  case (Cons b rest)
  from assms [unfolded Cons] show ?thesis
    by (cases rule: read_join_ConsE) (auto dest: read_join_not_still_blocked)
qed

section \<open>The invariant\<close>

lemmas in_handle_read_ok = machine_step_ok [OF ms_read]
lemmas in_handle_write_ok = machine_step_ok [OF ms_write]
lemmas in_get_write_buffer_ok = machine_step_ok [OF ms_get_write_buffer]
lemmas in_handle_eof_ok = machine_step_ok [OF ms_eof]
lemmas in_set_callback_called_ok = machine_step_ok [OF ms_callback_called]
lemmas in_set_callback_return_ok = machine_step_ok [OF ms_callback_return]

lemma read_join_ok:
  "read_join m q joined d = Inr (r, m', q') \<Longrightarrow> interpreter_ok m \<Longrightarrow> interpreter_ok m'"
proof (induction q arbitrary: m joined d)
  case Nil
  then show ?case by (auto simp: read_join_Nil chk_bind_eq_Inr dest!: in_ready_same)
next
  case (Cons b q)
  from Cons.prems(1) show ?case
  proof (cases rule: read_join_ConsE)
    case (again m1)
    from Cons.IH [OF again(2)] in_handle_read_ok [OF again(1) Cons.prems(2)] show ?thesis by simp
  next
    case (consumed k)
    from in_handle_read_ok [OF consumed(1) Cons.prems(2)] show ?thesis .
  qed
qed

text \<open>A context in order: its interpreter is, and the responses waiting for it are values.\<close>

definition context_ok :: "interpreter_context \<Rightarrow> bool" where
  "context_ok c \<longleftrightarrow> interpreter_ok (cx_interpreter c) \<and> (\<forall>v \<in> set (cx_callback_response_queue c). wf_value v)"

lemma handle_read_ok:
  assumes "handle_read c sg = Inr (r, c', sg')" and "context_ok c"
  shows "context_ok c'"
proof (cases "cx_input_buffer c")
  case Nil
  then show ?thesis
    using assms by (auto simp: handle_read_def queue_pop_def context_ok_def chk_bind_eq_Inr
        dest: in_handle_eof_ok split: if_splits)
next
  case (Cons b rest)
  with assms obtain k m1 where rd: "in_handle_read (cx_interpreter c) b = Inr (k, m1)"
    by (auto simp: handle_read_def queue_pop_def chk_bind_eq_Inr)
  have "interpreter_ok m1" using in_handle_read_ok [OF rd] assms(2) by (simp add: context_ok_def)
  then show ?thesis
    using assms Cons rd
    by (auto simp: handle_read_def queue_pop_def context_ok_def chk_bind_eq_Inr dest: read_join_ok split: if_splits)
qed

lemma handle_write_ok:
  assumes "handle_write c sg = Inr (r, c', sg')" and "context_ok c"
  shows "context_ok c'"
  using assms
  by (auto simp: handle_write_def context_ok_def chk_bind_eq_Inr
      dest: in_handle_eof_ok in_handle_write_ok in_get_write_buffer_ok split: if_splits)

lemma op_get_callback_key_ok:
  assumes "ctx_ok op ctx"
  shows "event_ok op (op_get_callback_key op ctx)"
  using assms by (rule op_callback_ok(3))

lemma in_get_callback_key_ok:
  assumes "in_get_callback_key m = Inr (k, m')" and "interpreter_ok m"
  shows "interpreter_ok m'"
  by (rule event_keeps [OF assms(2) assms(1) [unfolded in_get_callback_key_def ct_get_callback_key_def]])
    (rule op_get_callback_key_ok)

lemma handle_start_callback_ok:
  assumes "handle_start_callback c sg = Inr (r, c', sg')" and "context_ok c"
  shows "context_ok c'"
proof -
  from assms(1) obtain key m args u m' where
    "in_get_callback_key (cx_interpreter c) = Inr (key, m)" "in_set_callback_called m = Inr (u, m')"
    "c' = c\<lparr>cx_interpreter := m', cx_callback_request_queue := queue_push_back (cx_callback_request_queue c) (key, args)\<rparr>"
    by (auto simp: handle_start_callback_def chk_bind_eq_Inr)
  with assms(2) show ?thesis
    by (auto simp: context_ok_def dest: in_get_callback_key_ok in_set_callback_called_ok)
qed

lemma handle_finish_callback_ok:
  assumes "handle_finish_callback c sg = Inr (r, c', sg')" and "context_ok c"
  shows "context_ok c'"
  using assms
  by (auto simp: handle_finish_callback_def context_ok_def queue_pop_def chk_bind_eq_Inr
      dest: in_set_callback_return_ok split: list.splits)

lemma handle_blocked_interpreter_ok:
  assumes "handle_blocked_interpreter c sg = Inr (r, c', sg')" and "context_ok c"
  shows "context_ok c'"
proof -
  from assms(1) obtain res where res: "in_get_result (cx_interpreter c) = Inr res"
    by (auto simp: handle_blocked_interpreter_def chk_bind_eq_Inr)
  show ?thesis
  proof (cases res)
    case (ResValue v)
    with assms res show ?thesis by (simp add: handle_blocked_interpreter_def)
  next
    case (ResBlocked b)
    with assms res show ?thesis
      by (cases b) (auto simp: handle_blocked_interpreter_def dest: handle_read_ok handle_write_ok
          handle_start_callback_ok handle_finish_callback_ok)
  qed
qed

lemma serve_interpreter_ok:
  assumes "serve_interpreter c sg = Inr (s, c', sg')" and "context_ok c"
  shows "context_ok c'"
proof (cases "cx_exited c")
  case False
  with assms(1) obtain st m where step: "interpreter_step (cx_interpreter c) = Inr (st, m)"
    by (auto simp: serve_interpreter_def chk_bind_eq_Inr)
  have m: "context_ok (c\<lparr>cx_interpreter := m\<rparr>)"
    using assms(2) machine_step_ok [OF ms_step [OF step]] by (simp add: context_ok_def)
  show ?thesis
    using assms(1) False step m handle_blocked_interpreter_ok [OF _ m]
    by (cases st) (auto simp: serve_interpreter_def chk_bind_eq_Inr context_ok_def)
qed (use assms in \<open>simp add: serve_interpreter_def\<close>)

end
