(* ===== verification/RunnerTheorems.thy ===== *)
theory RunnerTheorems
  imports RunnerLemmas
begin

text \<open>
  The properties of the queues, the signals, the collection manager and the runner.
\<close>

section \<open>Queues and signals\<close>

text \<open>C23: No wake-up is lost between the producers of a queue and the loop that empties it:
  whenever the loop is blocked on the signal while the queue holds something, a producer is
  still inside \<open>notify\<close>, and as soon as every producer has left it the loop is not blocked.\<close>

theorem no_lost_wakeup:
  assumes "handshake_step\<^sup>*\<^sup>* handshake_init h" and "hs_queue h \<noteq> []"
    and "hs_consumer h = Blocked_on_signal"
  shows "0 < hs_to_store h \<or> 0 < hs_to_wake h"
  using handshake_reachable_ok [OF assms(1)] assms(2,3) by (simp add: handshake_ok_def)

lemma handshake_blocks:
  "handshake_step\<^sup>*\<^sup>* handshake_init (hs_push x (hs_wait (hs_take handshake_init)))"
proof -
  let ?a = "hs_take handshake_init" and ?b = "hs_wait (hs_take handshake_init)"
  have "handshake_step handshake_init ?a" by (rule step_take) (simp add: handshake_init_def)
  moreover have "handshake_step ?a ?b" by (rule step_wait) (simp add: handshake_defs)
  moreover have "handshake_step ?b (hs_push x ?b)" by (rule step_push)
  ultimately show ?thesis by (meson rtranclp.rtrancl_into_rtrancl rtranclp.rtrancl_refl)
qed

theorem no_lost_wakeup_witness:
  "0 < hs_to_store (hs_push True (hs_wait (hs_take handshake_init)))
   \<or> 0 < hs_to_wake (hs_push True (hs_wait (hs_take handshake_init)))"
  by (rule no_lost_wakeup [OF handshake_blocks]) (simp_all add: handshake_defs)

text \<open>C13: Transactions on a container are serialisable: whatever the interleaving of the loads
  and exchanges of any number of threads, the current value is that of running the committed
  functions one after the other.\<close>

theorem transactions_serialisable:
  assumes "tc_step\<^sup>*\<^sup>* (tc_init c) t"
  shows "tc_current t = tc_replay c (tc_history t)"
  using tc_reachable_ok [OF assms] by (simp add: tc_ok_def)

theorem transactions_serialisable_witness:
  "tc_current (tc_commit True (tc_load True (\<lambda>n. Some (Suc n)) (tc_init 3))) = tc_replay 3 [\<lambda>n. Some (Suc n)]"
proof -
  let ?a = "tc_load True (\<lambda>n. Some (Suc n)) (tc_init 3)"
  have "tc_step (tc_init 3) ?a" by (rule tc_step_load) (simp add: tc_init_def)
  moreover have "tc_step ?a (tc_commit True ?a)" by (rule tc_step_commit)
  ultimately have "tc_step\<^sup>*\<^sup>* (tc_init 3) (tc_commit True ?a)"
    by (meson rtranclp.rtrancl_into_rtrancl rtranclp.rtrancl_refl)
  from transactions_serialisable [OF this] show ?thesis by (simp add: tc_defs)
qed

section \<open>Collections\<close>

lemma map_of_erase_fd: "map_of (erase_fd fd m) = (map_of m)(fd := None)"
  by (induction m) (auto simp: erase_fd_def)

lemma mg_notify_simps [simp]:
  "mg_store (mg_notify mg) = mg_store mg"
  "interpreters (mg_collection (mg_notify mg)) = interpreters (mg_collection mg)"
  by (simp_all add: mg_notify_def)

lemma insert_interpreter_cases:
  assumes "get_instance program erange arglist = Inr m"
  shows "insert_interpreter fd program erange arglist mg =
    (let mg' = mg\<lparr>mg_store := mg_store mg @ [new_context m]\<rparr> in
     case insert_function (mg_store mg') fd (length (mg_store mg)) (mg_collection mg) of
       None \<Rightarrow> Inr (False, mg')
     | Some c \<Rightarrow> Inr (True, mg_notify (mg'\<lparr>mg_collection := c\<rparr>)))"
  using assms by (simp add: insert_interpreter_def do_transaction_def Let_def split: option.splits)

text \<open>C25: The manager is a map from file descriptors to interpreters: inserting under a free
  descriptor, or one whose interpreter has exited, binds it to the new interpreter and nothing
  else changes; inserting under one whose interpreter still runs fails and changes no binding;
  removing unbinds the descriptor.\<close>

theorem manager_refines_map:
  assumes "get_instance program erange arglist = Inr m"
    and "\<forall>a \<in> ran (map_of (interpreters (mg_collection mg))). a < length (mg_store mg)"
  shows "(case insert_interpreter fd program erange arglist mg of
       Inl e \<Rightarrow> False
     | Inr (ok, mg') \<Rightarrow>
         let old = map_of (interpreters (mg_collection mg)); new = map_of (interpreters (mg_collection mg')) in
         if \<exists>a. old fd = Some a \<and> \<not> cx_exited (mg_store mg ! a) then \<not> ok \<and> new = old
         else ok \<and> new = old(fd \<mapsto> length (mg_store mg)) \<and> mg_store mg' ! length (mg_store mg) = new_context m)
   \<and> map_of (interpreters (mg_collection (remove_interpreter fd mg))) =
       (map_of (interpreters (mg_collection mg)))(fd := None)"
proof
  have nth: "map_of (interpreters (mg_collection mg)) fd = Some a \<Longrightarrow>
      (mg_store mg @ [new_context m]) ! a = mg_store mg ! a" for a
    using assms(2) by (auto simp: nth_append ran_def)
  show "case insert_interpreter fd program erange arglist mg of
       Inl e \<Rightarrow> False
     | Inr (ok, mg') \<Rightarrow>
         let old = map_of (interpreters (mg_collection mg)); new = map_of (interpreters (mg_collection mg')) in
         if \<exists>a. old fd = Some a \<and> \<not> cx_exited (mg_store mg ! a) then \<not> ok \<and> new = old
         else ok \<and> new = old(fd \<mapsto> length (mg_store mg)) \<and> mg_store mg' ! length (mg_store mg) = new_context m"
  proof (cases "map_of (interpreters (mg_collection mg)) fd")
    case None
    then show ?thesis by (simp add: insert_interpreter_cases [OF assms(1)] insert_function_def)
  next
    case (Some a)
    then show ?thesis
      by (simp add: insert_interpreter_cases [OF assms(1)] insert_function_def nth map_of_erase_fd)
  qed
  show "map_of (interpreters (mg_collection (remove_interpreter fd mg))) =
       (map_of (interpreters (mg_collection mg)))(fd := None)"
    by (simp add: remove_interpreter_def remove_function_def do_transaction_def map_of_erase_fd)
qed

abbreviation empty_manager :: manager where
  "empty_manager \<equiv> \<lparr>mg_store = [], mg_collection = \<lparr>interpreters = [], signals_of = new_signals\<rparr>\<rparr>"

theorem manager_refines_map_witness:
  "\<exists>m. get_instance (OpTree (OpTreeNode Op_ReadInt32Native [])) False None = Inr m
     \<and> map_of (interpreters (mg_collection (remove_interpreter 7 empty_manager))) = (\<lambda>_. None)(7 := None)"
proof -
  obtain m where m: "get_instance (OpTree (OpTreeNode Op_ReadInt32Native [])) False None = Inr m"
    using get_instance_ok [of "OpTree (OpTreeNode Op_ReadInt32Native [])" None False] by auto
  show ?thesis using manager_refines_map [OF m, of empty_manager 7] m by simp
qed

section \<open>An interpreter blocked on one operation\<close>

definition blocked_machine :: "operation \<Rightarrow> op_context \<Rightarrow> reason_for_blocked_operation \<Rightarrow> interpreter" where
  "blocked_machine op ctx b =
     \<lparr>in_rootpad = 0,
      in_stack = [\<lparr>ct_stack = [(new_frame (OpTreeNode op []) 0)\<lparr>fr_ctx := ctx\<rparr>], ct_pad = 0,
                   ct_state = Blocked, ct_result = ResBlocked b\<rparr>],
      in_globals = \<lparr>g_pads = [new_pad None], g_erange = False\<rparr>\<rparr>"

lemma blocked_machine_events [simp]:
  "in_get_result (blocked_machine op ctx b) = Inr (ResBlocked b)"
  "in_handle_read (blocked_machine op ctx b) s =
     chk_bind (op_handle_read op ctx s) (\<lambda>(n, ctx). Inr (n, blocked_machine op ctx b))"
  "in_ready_to_evaluate (blocked_machine op ctx b) =
     chk_bind (op_ready_to_evaluate op ctx) (\<lambda>(r, ctx). Inr (r, blocked_machine op ctx b))"
  "in_get_write_buffer (blocked_machine op ctx b) =
     chk_bind (op_get_write_buffer op ctx) (\<lambda>(s, ctx). Inr (s, blocked_machine op ctx b))"
  "in_handle_write (blocked_machine op ctx b) n =
     chk_bind (op_handle_write op ctx n) (\<lambda>(k, ctx). Inr (k, blocked_machine op ctx b))"
  by (simp_all add: blocked_machine_def machine_defs on_top_continuation_def on_top_def stack_top_def
      in_get_result_def new_frame_def chk_bind_def split: sum.splits prod.splits)

section \<open>Handlers\<close>



text \<open>Writing hands the whole pending buffer of the operation to the output queue, after
  what is already there, and tells the operation that all of it was written; at the end of the
  connection nothing is queued and the operation is told of the end instead.\<close>

theorem handle_write_flushes:
  assumes "handle_write c sg = Inr (r, c', sg')"
  shows "if cx_eof c
    then octet_queue.stream (cx_output_buffer c') = octet_queue.stream (cx_output_buffer c)
      \<and> in_handle_eof (cx_interpreter c) = Inr ((), cx_interpreter c')
    else \<exists>buf m n. in_get_write_buffer (cx_interpreter c) = Inr (buf, m)
      \<and> octet_queue.stream (cx_output_buffer c') = octet_queue.stream (cx_output_buffer c) @ buf
      \<and> in_handle_write m (length buf) = Inr (n, cx_interpreter c')
      \<and> sig_notified (wake_up_for_output sg')"
  using assms octet_queue.stream_push_back
  by (auto simp: handle_write_def chk_bind_eq_Inr notify_output_def signal_notify_def signal_store_def
      signal_notify_all_def simp del: octet_stream_concat)

theorem handle_write_flushes_witness:
  "\<exists>c'. handle_write (new_context (blocked_machine (Op_WriteStaticOctets ''hi'')
       (CtxIO (init_io\<lparr>io_buffer := ''hi''\<rparr>)) WaitingForWrite)) new_signals = Inr (Unblocked, c', notify_output new_signals)
     \<and> octet_queue.stream (cx_output_buffer c') = ''hi''"
proof -
  let ?c = "new_context (blocked_machine (Op_WriteStaticOctets ''hi'')
       (CtxIO (init_io\<lparr>io_buffer := ''hi''\<rparr>)) WaitingForWrite)"
  obtain c' where wr: "handle_write ?c new_signals = Inr (Unblocked, c', notify_output new_signals)"
    by (simp add: handle_write_def new_context_def on_io_def write_static_handle_write_def
        write_get_buffer_def init_io_def)
  from handle_write_flushes [OF this] have "octet_queue.stream (cx_output_buffer c') = ''hi''"
    by (auto simp: new_context_def on_io_def write_get_buffer_def init_io_def)
  with wr show ?thesis by blast
qed

section \<open>The loops\<close>

text \<open>A context whose interpreter can do nothing before an event from outside.\<close>

definition waits_for_event :: "interpreter_context \<Rightarrow> bool" where
  "waits_for_event c \<longleftrightarrow>
     (in_get_result (cx_interpreter c) = Inr (ResBlocked WaitingForRead) \<and>
        (cx_input_buffer c = [] \<and> \<not> cx_eof c \<or>
         (\<exists>b m0. cx_input_buffer c = [b] \<and> in_handle_read m0 b = Inr (0, cx_interpreter c)
            \<and> in_ready_to_evaluate (cx_interpreter c) = Inr (False, cx_interpreter c))))
     \<or> in_get_result (cx_interpreter c) = Inr (ResBlocked WaitingCallbackData)
        \<and> cx_callback_response_queue c = []"

lemma handle_read_still_blocked:
  assumes "handle_read c sg = Inr (StillBlocked, c', sg')"
  shows "(c' = c \<and> cx_input_buffer c = [] \<and> \<not> cx_eof c) \<or>
    (\<exists>b m. cx_input_buffer c = [b] \<and> in_handle_read (cx_interpreter c) b = Inr (0, m)
       \<and> in_ready_to_evaluate m = Inr (False, m) \<and> c' = c\<lparr>cx_interpreter := m, cx_input_buffer := [b]\<rparr>)"
proof (cases "cx_input_buffer c")
  case Nil
  with assms show ?thesis by (auto simp: handle_read_def queue_pop_def chk_bind_eq_Inr split: if_splits)
next
  case (Cons b rest)
  with assms obtain m m' q' where rd: "in_handle_read (cx_interpreter c) b = Inr (0, m)"
    and join: "read_join m rest b False = Inr (StillBlocked, m', q')"
    and c': "c' = c\<lparr>cx_interpreter := m', cx_input_buffer := q'\<rparr>"
    by (auto simp: handle_read_def queue_pop_def chk_bind_eq_Inr split: if_splits)
  from read_join_still_blocked [OF join] Cons rd c' show ?thesis by auto
qed

lemma handle_blocked_still_blocked:
  assumes "handle_blocked_interpreter c sg = Inr (StillBlocked, c', sg')"
  shows "waits_for_event c'"
proof -
  from assms obtain res where res: "in_get_result (cx_interpreter c) = Inr res"
    by (auto simp: handle_blocked_interpreter_def chk_bind_eq_Inr)
  with assms obtain b where b: "res = ResBlocked b" by (cases res) (auto simp: handle_blocked_interpreter_def)
  show ?thesis
  proof (cases b)
    case WaitingForRead
    with assms res b have "handle_read c sg = Inr (StillBlocked, c', sg')"
      by (simp add: handle_blocked_interpreter_def)
    from handle_read_still_blocked [OF this] res b WaitingForRead show ?thesis
      by (auto simp: waits_for_event_def dest: in_handle_read_result)
  next
    case WaitingCallbackData
    with assms res b show ?thesis
      by (auto simp: handle_blocked_interpreter_def handle_finish_callback_def queue_pop_def
          waits_for_event_def chk_bind_eq_Inr split: list.splits)
  qed (use assms res b in \<open>auto simp: handle_blocked_interpreter_def handle_write_def
      handle_start_callback_def chk_bind_eq_Inr split: if_splits\<close>)
qed

lemma serve_interpreter_idle:
  assumes "serve_interpreter c sg = Inr (s, c', sg')"
    and "ready_interpreters (count_served s n) = 0" and "\<not> needs_retry (count_served s n)"
  shows "cx_exited c' \<or> waits_for_event c'"
proof (cases "cx_exited c")
  case False
  with assms(1) obtain st m where step: "interpreter_step (cx_interpreter c) = Inr (st, m)"
    by (auto simp: serve_interpreter_def chk_bind_eq_Inr)
  show ?thesis
  proof (cases st)
    case Blocked
    with assms(1) False step obtain r where r: "s = ServedBlocked r"
      "handle_blocked_interpreter (c\<lparr>cx_interpreter := m\<rparr>) sg = Inr (r, c', sg')"
      by (auto simp: serve_interpreter_def chk_bind_eq_Inr)
    with assms(2,3) have "r = StillBlocked" by (cases r) (simp_all add: count_served_def)
    with r handle_blocked_still_blocked show ?thesis by blast
  qed (use assms False step in \<open>auto simp: serve_interpreter_def count_served_def chk_bind_eq_Inr\<close>)
qed (use assms in \<open>simp add: serve_interpreter_def\<close>)

definition counters_ok :: "round_counters \<Rightarrow> bool" where
  "counters_ok n \<longleftrightarrow> ready_interpreters n \<le> active_interpreters n \<and> (needs_retry n \<longrightarrow> 0 < active_interpreters n)"

lemma count_served_ok: "counters_ok n \<Longrightarrow> counters_ok (count_served s n)"
  by (auto simp: counters_ok_def count_served_def Let_def split: served.splits handle_blocked_result.splits)

lemma count_served_mono:
  "ready_interpreters n \<le> ready_interpreters (count_served s n) \<and> (needs_retry n \<longrightarrow> needs_retry (count_served s n))"
  by (auto simp: count_served_def Let_def split: served.splits handle_blocked_result.splits)

lemma serve_all_idle:
  "serve_all fds store sg n = Inr (store', sg', n') \<Longrightarrow> distinct (map snd fds) \<Longrightarrow>
     \<forall>p \<in> set fds. snd p < length store \<Longrightarrow> counters_ok n \<Longrightarrow>
   counters_ok n' \<and> ready_interpreters n \<le> ready_interpreters n' \<and> (needs_retry n \<longrightarrow> needs_retry n')
   \<and> (\<forall>a. a \<notin> snd ` set fds \<longrightarrow> store' ! a = store ! a)
   \<and> (ready_interpreters n' = 0 \<and> \<not> needs_retry n' \<longrightarrow>
        (\<forall>p \<in> set fds. cx_exited (store' ! snd p) \<or> waits_for_event (store' ! snd p)))"
proof (induction fds arbitrary: store sg n)
  case Nil
  then show ?case by simp
next
  case (Cons p fds)
  obtain fd a where p: "p = (fd, a)" by (cases p)
  from Cons.prems(1) obtain s c' sg1 where one: "serve_interpreter (store ! a) sg = Inr (s, c', sg1)"
    and all: "serve_all fds (store[a := c']) sg1 (count_served s n) = Inr (store', sg', n')"
    by (auto simp: p chk_bind_eq_Inr)
  have d: "distinct (map snd fds)" "a \<notin> snd ` set fds" "a < length store"
    using Cons.prems(2,3) by (auto simp: p)
  from Cons.prems(3) have "\<forall>p \<in> set fds. snd p < length (store[a := c'])" by simp
  note ih = Cons.IH [OF all d(1) this count_served_ok [OF Cons.prems(4)]]
  from ih d have a: "store' ! a = c'" by auto
  have "cx_exited c' \<or> waits_for_event c'" if "ready_interpreters n' = 0" "\<not> needs_retry n'"
    by (rule serve_interpreter_idle [OF one, of n]) (use ih that in auto)
  moreover have "ready_interpreters n \<le> ready_interpreters n' \<and> (needs_retry n \<longrightarrow> needs_retry n')"
    using ih count_served_mono [of n s] by auto
  moreover have "store' ! i = store ! i" if "i \<notin> snd ` set (p # fds)" for i
    using ih that by (auto simp: p)
  ultimately show ?case using ih a by (auto simp: p)
qed

text \<open>C24: The interpreter loop goes to wait only when nothing is left to do: every interpreter
  of the collection has exited, or is blocked reading with no buffered input (or one buffer its
  operation can make nothing of), or is blocked on a callback whose response has not come.\<close>

theorem loop_waits_only_when_idle:
  assumes "interpreter_round exit_when_done same fds store sg = Inr (LoopWait, store', sg')"
    and "distinct (map snd fds)" and "\<forall>p \<in> set fds. snd p < length store"
  shows "\<forall>p \<in> set fds. cx_exited (store' ! snd p) \<or> waits_for_event (store' ! snd p)"
proof -
  let ?n = "\<lparr>active_interpreters = 0, ready_interpreters = 0, needs_retry = False\<rparr>"
  from assms(1) obtain n sg1 where all: "serve_all fds store sg ?n = Inr (store', sg1, n)"
    and w: "active_interpreters n = 0 \<or> ready_interpreters n = 0 \<and> \<not> needs_retry n"
    by (auto simp: interpreter_round_def chk_bind_eq_Inr split: if_splits)
  have "counters_ok ?n" by (simp add: counters_ok_def)
  from serve_all_idle [OF all assms(2,3) this] w show ?thesis by (auto simp: counters_ok_def)
qed

lemma blocked_machine_step:
  assumes "execute_specific_operation op [] ctx 0 \<lparr>g_pads = [new_pad None], g_erange = False\<rparr> =
      Inr (ResBlocked b, ctx, \<lparr>g_pads = [new_pad None], g_erange = False\<rparr>)"
    and "op_arity op = Some 0" and "b \<noteq> WaitingForCallableInvocation"
  shows "interpreter_step (blocked_machine op ctx b) = Inr (Blocked, blocked_machine op ctx b)"
  using assms
  by (cases b) (simp_all add: blocked_machine_def interpreter_step_def continuation_step_def prepare_def
      has_arguments_ready_def execute_def stack_top_def new_frame_def)

text \<open>An interpreter reading up to a terminator, with a message that has none.\<close>

abbreviation partial_message :: "octets \<Rightarrow> octets \<Rightarrow> bool \<Rightarrow> interpreter_context" where
  "partial_message t b eof \<equiv>
     (new_context (blocked_machine (Op_ReadOctetsUntilTerminator t None) (CtxIO init_io) WaitingForRead))
       \<lparr>cx_input_buffer := [b], cx_eof := eof\<rparr>"

lemma partial_message_served:
  assumes "find_sub t b = None"
  shows "serve_interpreter (partial_message t b eof) sg = Inr (ServedBlocked StillBlocked, partial_message t b eof, sg)"
proof -
  let ?m = "blocked_machine (Op_ReadOctetsUntilTerminator t None) (CtxIO init_io) WaitingForRead"
  have "interpreter_step ?m = Inr (Blocked, ?m)"
    by (rule blocked_machine_step) (simp_all add: on_io_def in_ctx_def read_until_run_def init_io_def)
  then show ?thesis
    using assms
    by (simp add: serve_interpreter_def new_context_def handle_blocked_interpreter_def handle_read_def
        queue_defs read_join_Nil on_io_def read_until_handle_read_def read_until_ready_def init_io_def)
qed

theorem loop_waits_only_when_idle_witness:
  "\<exists>store' sg'. interpreter_round False True [(3, 0)] [partial_message ''x'' ''ab'' False] new_signals = Inr (LoopWait, store', sg')
     \<and> (\<forall>p \<in> {(3 :: int, 0)}. cx_exited (store' ! snd p) \<or> waits_for_event (store' ! snd p))"
proof -
  have "find_sub ''x'' ''ab'' = None" by simp
  from partial_message_served [OF this] obtain store' sg' where
    round: "interpreter_round False True [(3, 0)] [partial_message ''x'' ''ab'' False] new_signals = Inr (LoopWait, store', sg')"
    by (simp add: interpreter_round_def count_served_def)
  from loop_waits_only_when_idle [OF round] round show ?thesis by auto
qed

text \<open>An incomplete message keeps the end of the connection from the interpreter: when the
  buffered octets hold no terminator, the handler puts them back and never tells the reading
  operation of the end of the input, so the loop waits for ever with the connection closed.\<close>

theorem eof_hidden_by_partial_message:
  assumes "find_sub t b = None"
  shows "serve_interpreter (partial_message t b True) sg = Inr (ServedBlocked StillBlocked, partial_message t b True, sg)
    \<and> interpreter_round exit_when_done True [(fd, 0)] [partial_message t b True] sg =
        Inr (LoopWait, [partial_message t b True], sg)"
  using partial_message_served [OF assms] by (simp add: interpreter_round_def count_served_def)

theorem eof_hidden_by_partial_message_witness:
  "interpreter_round True True [(3, 0)] [partial_message ''x'' ''ab'' True] new_signals =
     Inr (LoopWait, [partial_message ''x'' ''ab'' True], new_signals)"
  using eof_hidden_by_partial_message [of "''x''" "''ab''" new_signals True 3] by simp

text \<open>The first request of an interpreter is taken, and its answer appended to the responses.\<close>

definition callback_answered :: "callback_map \<Rightarrow> interpreter_context \<Rightarrow> interpreter_context \<Rightarrow> bool" where
  "callback_answered callbacks c c' \<longleftrightarrow>
     cx_callback_request_queue c' = drop 1 (cx_callback_request_queue c) \<and>
     cx_callback_response_queue c' = cx_callback_response_queue c @
       map (\<lambda>(k, vs). case callbacks k of None \<Rightarrow> VRuntimeError TypeError | Some f \<Rightarrow> f vs)
         (take 1 (cx_callback_request_queue c)) \<and>
     cx_interpreter c' = cx_interpreter c \<and> cx_input_buffer c' = cx_input_buffer c \<and>
     cx_output_buffer c' = cx_output_buffer c"

lemma serve_callback_answered:
  "serve_callback callbacks c sg = (b, c', sg') \<Longrightarrow>
     callback_answered callbacks c c' \<and> cx_exited c' = cx_exited c \<and> (\<not> b \<longrightarrow> c' = c \<and> cx_callback_request_queue c = [])"
  by (auto simp: serve_callback_def callback_answered_def answer_callback_def queue_defs
      split: list.splits option.splits)

lemma serve_callbacks_answered:
  "serve_callbacks callbacks fds store sg n k = (store', sg', n', k') \<Longrightarrow> distinct (map snd fds) \<Longrightarrow>
     \<forall>p \<in> set fds. snd p < length store \<Longrightarrow>
   (\<forall>a. a \<notin> snd ` set fds \<longrightarrow> store' ! a = store ! a) \<and> n \<le> n' \<and> k \<le> k'
   \<and> (\<forall>p \<in> set fds. if cx_exited (store ! snd p) then store' ! snd p = store ! snd p
        else callback_answered callbacks (store ! snd p) (store' ! snd p) \<and> n < n'
          \<and> (k' = k \<longrightarrow> cx_callback_request_queue (store ! snd p) = []))"
proof (induction fds arbitrary: store sg n k)
  case Nil
  then show ?case by simp
next
  case (Cons p fds)
  obtain fd a where p: "p = (fd, a)" by (cases p)
  have d: "distinct (map snd fds)" "a \<notin> snd ` set fds" "a < length store"
    and len: "\<forall>p \<in> set fds. snd p < length store"
    using Cons.prems(2,3) by (auto simp: p)
  show ?case
  proof (cases "cx_exited (store ! a)")
    case True
    with Cons.prems(1) have "serve_callbacks callbacks fds store sg n k = (store', sg', n', k')" by (simp add: p)
    from Cons.IH [OF this d(1) len] d True show ?thesis by (auto simp: p)
  next
    case False
    obtain b c' sg1 where one: "serve_callback callbacks (store ! a) sg = (b, c', sg1)"
      by (cases "serve_callback callbacks (store ! a) sg") auto
    with Cons.prems(1) False
    have all: "serve_callbacks callbacks fds (store[a := c']) sg1 (Suc n) (if b then Suc k else k) = (store', sg', n', k')"
      by (simp add: p)
    have len': "\<forall>p \<in> set fds. snd p < length (store[a := c'])" using len by simp
    note ih = Cons.IH [OF all d(1) len']
    have other: "store[a := c'] ! snd q = store ! snd q" if "q \<in> set fds" for q
      using that d(2) by (metis image_eqI nth_list_update_neq)
    have a: "store' ! a = c'" using ih d by auto
    have k: "k' = k \<Longrightarrow> \<not> b \<and> k' = (if b then Suc k else k)" using ih by (auto split: if_splits)
    have "callback_answered callbacks (store ! a) (store' ! a)
        \<and> (k' = k \<longrightarrow> cx_callback_request_queue (store ! a) = [])"
      using serve_callback_answered [OF one] a k by auto
    moreover have "if cx_exited (store ! snd q) then store' ! snd q = store ! snd q
        else callback_answered callbacks (store ! snd q) (store' ! snd q) \<and> n < n'
          \<and> (k' = k \<longrightarrow> cx_callback_request_queue (store ! snd q) = [])" if "q \<in> set fds" for q
      using ih that other [OF that] k by (auto split: if_splits)
    moreover have "store' ! i = store ! i" if "i \<notin> snd ` set (p # fds)" for i
      using ih that by (auto simp: p)
    moreover have "n < n'" "k \<le> k'" using ih by (auto split: if_splits)
    ultimately show ?thesis using False by (auto simp: p)
  qed
qed

text \<open>Every request for a callback is answered once and in order: a round of the callback
  loop takes the first request of each live interpreter and appends its answer, the function's
  result or \<open>TypeError\<close> for an unknown key, to that interpreter's responses; it waits only when
  no live interpreter has a request.\<close>

theorem callbacks_answered:
  assumes "callback_round callbacks exit_when_done same fds store sg = (d, store', sg')"
    and "distinct (map snd fds)" and "\<forall>p \<in> set fds. snd p < length store"
  shows "\<forall>p \<in> set fds.
     if cx_exited (store ! snd p) then store' ! snd p = store ! snd p
     else callback_answered callbacks (store ! snd p) (store' ! snd p)
       \<and> (d = LoopWait \<longrightarrow> cx_callback_request_queue (store ! snd p) = [])"
proof -
  obtain st sg1 n k where all: "serve_callbacks callbacks fds store sg 0 0 = (st, sg1, n, k)"
    by (cases "serve_callbacks callbacks fds store sg 0 0") auto
  with assms(1) have "store' = st" and w: "d = LoopWait \<Longrightarrow> n = 0 \<or> k = 0"
    by (auto simp: callback_round_def split: if_splits)
  with serve_callbacks_answered [OF all assms(2,3)] show ?thesis by (auto split: if_splits)
qed

theorem callbacks_answered_witness:
  "\<exists>store' sg'. callback_round (\<lambda>_. None) False True [(3, 0)]
       [(partial_message ''x'' ''ab'' False)\<lparr>cx_callback_request_queue := [(''k'', [])]\<rparr>] new_signals = (LoopAgain, store', sg')
     \<and> cx_callback_response_queue (store' ! 0) = [VRuntimeError TypeError]"
proof -
  let ?c = "(partial_message ''x'' ''ab'' False)\<lparr>cx_callback_request_queue := [(''k'', [])]\<rparr>"
  obtain store' sg' where
    round: "callback_round (\<lambda>_. None) False True [(3, 0)] [?c] new_signals = (LoopAgain, store', sg')"
    by (simp add: callback_round_def serve_callback_def queue_defs new_context_def)
  from callbacks_answered [OF round] have "callback_answered (\<lambda>_. None) ?c (store' ! 0)"
    by (simp add: new_context_def)
  with round show ?thesis by (auto simp: callback_answered_def new_context_def)
qed

lemma serve_all_ok:
  "serve_all fds store sg n = Inr (store', sg', n') \<Longrightarrow> \<forall>p \<in> set fds. snd p < length store \<Longrightarrow>
     \<forall>c \<in> set store. context_ok c \<Longrightarrow> \<forall>c \<in> set store'. context_ok c"
proof (induction fds arbitrary: store sg n)
  case (Cons p fds)
  obtain fd a where p: "p = (fd, a)" by (cases p)
  from Cons.prems(1) obtain s c' sg1 where one: "serve_interpreter (store ! a) sg = Inr (s, c', sg1)"
    and all: "serve_all fds (store[a := c']) sg1 (count_served s n) = Inr (store', sg', n')"
    by (auto simp: p chk_bind_eq_Inr)
  have "context_ok (store ! a)" using Cons.prems(2,3) by (simp add: p)
  from serve_interpreter_ok [OF one this] Cons.prems(3) have "\<forall>c \<in> set (store[a := c']). context_ok c"
    by (auto dest: set_update_subset_insert [THEN subsetD])
  with Cons.IH [OF all] Cons.prems(2) show ?case by simp
qed simp

lemma round_serves_all:
  assumes "interpreter_round exit_when_done same fds store sg = Inr (d, store', sg')"
  shows "\<exists>sg1 n. serve_all fds store sg
    \<lparr>active_interpreters = 0, ready_interpreters = 0, needs_retry = False\<rparr> = Inr (store', sg1, n)"
proof (cases "serve_all fds store sg \<lparr>active_interpreters = 0, ready_interpreters = 0, needs_retry = False\<rparr>")
  case (Inl e)
  with assms show ?thesis by (simp add: interpreter_round_def)
next
  case (Inr x)
  obtain st sg1 n where x: "x = (st, sg1, n)" by (cases x)
  from assms have "st = store'"
    unfolding interpreter_round_def Inr x chk_bind_Inr prod.case by (simp split: if_split_asm)
  with Inr x show ?thesis by blast
qed

lemma serve_callback_ok:
  assumes "serve_callback callbacks c sg = (b, c', sg')" and "context_ok c"
    and "\<forall>k f vs. callbacks k = Some f \<longrightarrow> wf_value (f vs)"
  shows "context_ok c'"
  using assms
  by (auto simp: serve_callback_def queue_defs context_ok_def answer_callback_def split: list.splits option.splits)

lemma serve_callbacks_ok:
  assumes "\<forall>k f vs. callbacks k = Some f \<longrightarrow> wf_value (f vs)"
  shows "serve_callbacks callbacks fds store sg n k = (store', sg', n', k') \<Longrightarrow>
     \<forall>p \<in> set fds. snd p < length store \<Longrightarrow> \<forall>c \<in> set store. context_ok c \<Longrightarrow> \<forall>c \<in> set store'. context_ok c"
proof (induction fds arbitrary: store sg n k)
  case (Cons p fds)
  obtain fd a where p: "p = (fd, a)" by (cases p)
  show ?case
  proof (cases "cx_exited (store ! a)")
    case True
    with Cons show ?thesis by (simp add: p)
  next
    case False
    obtain b c' sg1 where one: "serve_callback callbacks (store ! a) sg = (b, c', sg1)"
      by (cases "serve_callback callbacks (store ! a) sg") auto
    have "context_ok (store ! a)" using Cons.prems(2,3) by (simp add: p)
    from serve_callback_ok [OF one this assms] Cons.prems(3) have "\<forall>c \<in> set (store[a := c']). context_ok c"
      by (auto dest: set_update_subset_insert [THEN subsetD])
    with Cons.IH [of "store[a := c']"] Cons.prems(1,2) False one show ?thesis by (simp add: p)
  qed
qed simp

text \<open>The loops keep every interpreter in order: whatever the handlers do to an
  interpreter, its stack of continuations, its frames and its pads stay well formed, as long as
  the callbacks answer with values.\<close>

theorem loops_keep_interpreters:
  assumes "\<forall>c \<in> set store. context_ok c" and "\<forall>p \<in> set fds. snd p < length store"
    and "\<forall>k f vs. callbacks k = Some f \<longrightarrow> wf_value (f vs)"
  shows "(\<forall>d store' sg'. interpreter_round exit_when_done same fds store sg = Inr (d, store', sg') \<longrightarrow>
       (\<forall>c \<in> set store'. context_ok c))
    \<and> (\<forall>d store' sg'. callback_round callbacks exit_when_done same fds store sg = (d, store', sg') \<longrightarrow>
       (\<forall>c \<in> set store'. context_ok c))"
proof (intro conjI allI impI)
  fix d store' sg'
  assume "interpreter_round exit_when_done same fds store sg = Inr (d, store', sg')"
  from round_serves_all [OF this] obtain n sg1 where "serve_all fds store sg
      \<lparr>active_interpreters = 0, ready_interpreters = 0, needs_retry = False\<rparr> = Inr (store', sg1, n)" by blast
  from serve_all_ok [OF this assms(2,1)] show "\<forall>c \<in> set store'. context_ok c" .
next
  fix d store' sg'
  assume r: "callback_round callbacks exit_when_done same fds store sg = (d, store', sg')"
  obtain st sg1 n k where all: "serve_callbacks callbacks fds store sg 0 0 = (st, sg1, n, k)"
    by (cases "serve_callbacks callbacks fds store sg 0 0") auto
  with r have "store' = st" by (auto simp: callback_round_def split: if_splits)
  with serve_callbacks_ok [OF assms(3) all assms(2,1)] show "\<forall>c \<in> set store'. context_ok c" by simp
qed

theorem loops_keep_interpreters_witness:
  "\<exists>m. get_instance (OpTree (OpTreeNode Op_ReadInt32Native [])) False None = Inr m
     \<and> (\<forall>d store' sg'. interpreter_round False True [(3, 0)] [new_context m] new_signals = Inr (d, store', sg') \<longrightarrow>
          (\<forall>c \<in> set store'. context_ok c))"
proof -
  obtain m where m: "get_instance (OpTree (OpTreeNode Op_ReadInt32Native [])) False None = Inr m" "interpreter_ok m"
    using get_instance_ok [of "OpTree (OpTreeNode Op_ReadInt32Native [])" None False] by auto
  have "\<forall>c \<in> set [new_context m]. context_ok c" using m(2) by (simp add: context_ok_def new_context_def)
  moreover have "\<forall>p \<in> set [(3, 0)]. snd p < length [new_context m]" by simp
  moreover have "\<forall>k f vs. (\<lambda>_. None) k = Some f \<longrightarrow> wf_value (f vs)" by simp
  ultimately have "\<forall>d store' sg'. interpreter_round False True [(3, 0)] [new_context m] new_signals = Inr (d, store', sg') \<longrightarrow>
      (\<forall>c \<in> set store'. context_ok c)"
    by (rule loops_keep_interpreters [THEN conjunct1])
  with m(1) show ?thesis by blast
qed

end
