(* ===== verification/ParseTree.thy ===== *)
theory ParseTree
  imports Prelude "HOL-Library.List_Lexorder" "HOL-Library.Char_ord"
begin

text \<open>
  The tokens (\<open>lexer/token/*.hpp\<close>) and the parse tree (\<open>parser/tree/*.hpp\<close>). A
  \<open>std::map\<close> keyed by strings is the association list of its entries in the order of the
  keys, which is the order the code iterates in; \<open>emplace\<close> keeps the entry that is there.
\<close>

section \<open>Ordered maps\<close>

type_synonym 'a ordered_map = "(string \<times> 'a) list"

fun map_emplace :: "string \<Rightarrow> 'a \<Rightarrow> 'a ordered_map \<Rightarrow> 'a ordered_map" where
  "map_emplace k v [] = [(k, v)]"
| "map_emplace k v ((k', v') # m) =
     (if k < k' then (k, v) # (k', v') # m
      else if k = k' then (k', v') # m
      else (k', v') # map_emplace k v m)"

definition map_of_pairs :: "(string \<times> 'a) list \<Rightarrow> 'a ordered_map" where
  "map_of_pairs ps = fold (\<lambda>(k, v) m. map_emplace k v m) ps []"

definition ordered :: "'a ordered_map \<Rightarrow> bool" where
  "ordered m \<longleftrightarrow> sorted_wrt (<) (map fst m)"

lemma keys_map_emplace: "fst ` set (map_emplace k v m) = insert k (fst ` set m)"
  by (induction k v m rule: map_emplace.induct) auto

lemma ordered_map_emplace: "ordered m \<Longrightarrow> ordered (map_emplace k v m)"
proof (induction k v m rule: map_emplace.induct)
  case (2 k v k' v' m)
  then have "ordered m" "\<forall>x \<in> fst ` set m. k' < x" by (auto simp: ordered_def)
  with 2 show ?case
    using keys_map_emplace [of k v m] by (auto simp: ordered_def)
qed (simp add: ordered_def)

text \<open>Looking up in an ordered map after \<open>emplace\<close>: an existing binding wins.\<close>

lemma map_of_map_emplace:
  "ordered m \<Longrightarrow> map_of (map_emplace k v m) =
     (if k \<in> fst ` set m then map_of m else (map_of m)(k \<mapsto> v))"
proof (induction k v m rule: map_emplace.induct)
  case (2 k v k' v' m)
  then have "ordered m" and gt: "\<forall>x \<in> fst ` set m. k' < x" by (auto simp: ordered_def)
  with 2 show ?case by (fastforce simp: fun_eq_iff)
qed auto

lemma map_of_pairs_ordered: "ordered (map_of_pairs ps)"
proof -
  have "ordered m \<Longrightarrow> ordered (fold (\<lambda>(k, v) m. map_emplace k v m) ps m)" for m
    by (induction ps arbitrary: m) (auto simp: ordered_map_emplace)
  then show ?thesis by (simp add: map_of_pairs_def ordered_def)
qed

text \<open>The map of a list of pairs finds the first pair of a key.\<close>

lemma map_of_map_of_pairs: "map_of (map_of_pairs ps) = map_of ps"
proof -
  have "ordered m \<Longrightarrow> map_of (fold (\<lambda>(k, v) m. map_emplace k v m) ps m) = map_of ps ++ map_of m" for m
  proof (induction ps arbitrary: m)
    case (Cons p ps)
    obtain k v where p: "p = (k, v)" by (cases p)
    have "map_of (map_emplace k v m) = (if map_of m k = None then (map_of m)(k \<mapsto> v) else map_of m)"
      using map_of_map_emplace [OF Cons.prems, of k v] by (simp add: map_of_eq_None_iff)
    with Cons.IH [OF ordered_map_emplace [OF Cons.prems]] show ?case
      by (auto simp: p fun_eq_iff map_add_def split: option.splits)
  qed simp
  from this [of "[]"] show ?thesis by (simp add: map_of_pairs_def ordered_def)
qed

section \<open>Tokens\<close>

datatype token =
    T_Identifier string
  | T_For
  | T_In
  | T_Message
  | T_Parts
  | T_Terminator
  | T_Tokens
  | T_Integer int32
  | T_String string
  | T_Boolean bool
  | T_AngleBracketClose
  | T_AngleBracketOpen
  | T_Comma
  | T_Dot
  | T_CurlyBraceClose
  | T_CurlyBraceOpen
  | T_Equal
  | T_KeyValueSeparator
  | T_StatementEnd

section \<open>The parse tree\<close>

datatype identifier_reference = IdentifierReference
  (id_name: string)
  (id_member: "identifier_reference option")

datatype ptype = Type
  (type_name: identifier_reference)
  (type_parameters: "(string \<times> type_parameter_value) list")
and type_parameter_value =
    BooleanLiteral bool
  | IntegerLiteral int32
  | StringLiteral string
  | TypeValue ptype

type_synonym type_parameter_map = "type_parameter_value ordered_map"
type_synonym message_data = "ptype ordered_map"

record escape_replacement =
  er_character :: string
  er_sequence :: string

datatype token_part =
    TokenString string
  | TokenIdentifier identifier_reference

record token_sequence =
  ts_tokens :: "token_part list"
  ts_terminator :: "string option"
  ts_escape :: "escape_replacement option"

datatype token_sequence_option_value =
    OptionString string
  | OptionEscape escape_replacement

type_synonym token_sequence_options = "token_sequence_option_value ordered_map"

datatype message_part =
    PartTokens token_sequence
  | PartTerminator string
  | PartForLoop identifier_reference identifier_reference "message_part list" "string option"

type_synonym message_sequence = "message_part list"

record message =
  msg_name :: string
  msg_when :: identifier_reference
  msg_then :: identifier_reference
  msg_agent :: identifier_reference
  msg_data :: message_data
  msg_parts :: message_sequence

type_synonym protocol_description = "message ordered_map"

end
