(* ===== verification/Sema.thy ===== *)
theory Sema
  imports ParseTree "HOL-Library.AList"
begin

text \<open>
  \<open>sema/\<close>: the analysed protocol (\<open>sema/ast\<close>) and its construction from the parse tree.
  The two translations of message parts into actions are themselves recursive parsers, whose
  input are the parts; here they are written out as what they accept.
\<close>

section \<open>The analysed protocol\<close>

record escape_info =
  ei_character :: string
  ei_sequence :: string

datatype action =
    ReadStaticOctets octets
  | ReadOctetsUntilTerminator octets identifier_reference "escape_info option"
  | WriteFromIdentifier identifier_reference "escape_info option"
  | WriteStaticOctets octets
  | Loop identifier_reference identifier_reference octets "action list"

record abstract_transition =
  tr_data :: message_data
  tr_actions :: "action list"

datatype transition =
    ReadTransition abstract_transition
  | WriteTransition abstract_transition

text \<open>
  \<open>State\<close>, \<open>Agent\<close> and \<open>Protocol\<close>. An \<open>unordered_map\<close> is an association list in its
  iteration order, which is not specified.
\<close>

type_synonym state_transitions = "(string \<times> (transition \<times> string)) list"

record agent =
  ag_states :: "(string \<times> state_transitions) list"

record protocol =
  pr_client :: agent
  pr_server :: agent

section \<open>Reading: parts to actions\<close>

definition escape_info_of :: "escape_replacement \<Rightarrow> escape_info" where
  "escape_info_of e = \<lparr>ei_character = er_character e, ei_sequence = er_sequence e\<rparr>"

text \<open>\<open>IndividualTokenAction\<close> of the reading side, repeated to the end of the tokens.\<close>

fun read_token_actions :: "token_part list \<Rightarrow> action list option" where
  "read_token_actions [] = Some []"
| "read_token_actions (TokenString lit # ts) = map_option ((#) (ReadStaticOctets lit)) (read_token_actions ts)"
| "read_token_actions (TokenIdentifier i # TokenString lit # ts) =
     map_option ((#) (ReadOctetsUntilTerminator lit i None)) (read_token_actions ts)"
| "read_token_actions (TokenIdentifier i # ts) = None"

text \<open>\<open>TokenSequence::parse\<close>: an empty sequence has no match.\<close>

definition read_token_sequence :: "token_part list \<Rightarrow> action list option" where
  "read_token_sequence ts = (if ts = [] then None else read_token_actions ts)"

primrec apply_escape_to_read :: "escape_info \<Rightarrow> action \<Rightarrow> action" where
  "apply_escape_to_read e (ReadOctetsUntilTerminator t i x) = ReadOctetsUntilTerminator t i (Some e)"
| "apply_escape_to_read e (ReadStaticOctets s) = ReadStaticOctets s"
| "apply_escape_to_read e (WriteFromIdentifier i x) = WriteFromIdentifier i x"
| "apply_escape_to_read e (WriteStaticOctets s) = WriteStaticOctets s"
| "apply_escape_to_read e (Loop v c t as) = Loop v c t as"

definition escape_read_actions :: "escape_replacement option \<Rightarrow> action list \<Rightarrow> action list" where
  "escape_read_actions esc as = (case esc of None \<Rightarrow> as | Some e \<Rightarrow> map (apply_escape_to_read (escape_info_of e)) as)"

definition process_token_sequence :: "token_sequence \<Rightarrow> string \<Rightarrow> action list option" where
  "process_token_sequence s terminator =
     map_option (escape_read_actions (ts_escape s))
       (read_token_sequence (ts_tokens s @ [TokenString terminator]))"

definition read_final_token_sequence :: "token_sequence \<Rightarrow> action list option" where
  "read_final_token_sequence s =
     (case ts_terminator s of
        Some t \<Rightarrow> process_token_sequence s t
      | None \<Rightarrow> map_option (escape_read_actions (ts_escape s)) (read_token_sequence (ts_tokens s)))"

text \<open>
  \<open>PartSequenceToReadActions\<close>: fragments to the end of the parts. A token sequence is followed
  by a terminator or ends the parts; a loop is followed by a terminator; nothing else matches.
\<close>

fun parts_to_read_actions :: "message_sequence \<Rightarrow> action list option" where
  "parts_to_read_actions [] = Some []"
| "parts_to_read_actions [PartTokens s] = read_final_token_sequence s"
| "parts_to_read_actions (PartTokens s # PartTerminator t # ps) =
     (if ts_terminator s \<noteq> None then None
      else case process_token_sequence s t of
        None \<Rightarrow> None
      | Some as \<Rightarrow> map_option ((@) as) (parts_to_read_actions ps))"
| "parts_to_read_actions (PartForLoop v c block opt # PartTerminator t # ps) =
     (case parts_to_read_actions block of
        None \<Rightarrow> None
      | Some as \<Rightarrow> map_option ((#) (Loop v c t as)) (parts_to_read_actions ps))"
| "parts_to_read_actions ps = None"

section \<open>Writing: parts to actions\<close>

primrec write_token_action :: "token_part \<Rightarrow> action" where
  "write_token_action (TokenString lit) = WriteStaticOctets lit"
| "write_token_action (TokenIdentifier i) = WriteFromIdentifier i None"

definition write_token_sequence :: "token_part list \<Rightarrow> action list option" where
  "write_token_sequence ts = (if ts = [] then None else Some (map write_token_action ts))"

primrec apply_escape_to_write :: "escape_info \<Rightarrow> action \<Rightarrow> action" where
  "apply_escape_to_write e (WriteFromIdentifier i x) = WriteFromIdentifier i (Some e)"
| "apply_escape_to_write e (ReadStaticOctets s) = ReadStaticOctets s"
| "apply_escape_to_write e (ReadOctetsUntilTerminator t i x) = ReadOctetsUntilTerminator t i x"
| "apply_escape_to_write e (WriteStaticOctets s) = WriteStaticOctets s"
| "apply_escape_to_write e (Loop v c t as) = Loop v c t as"

definition escape_write_actions :: "escape_replacement option \<Rightarrow> action list \<Rightarrow> action list" where
  "escape_write_actions esc as = (case esc of None \<Rightarrow> as | Some e \<Rightarrow> map (apply_escape_to_write (escape_info_of e)) as)"

definition write_tokens :: "token_sequence \<Rightarrow> action list option" where
  "write_tokens s =
     (let full_sequence = ts_tokens s @ (case ts_terminator s of Some t \<Rightarrow> [TokenString t] | None \<Rightarrow> []) in
      map_option (escape_write_actions (ts_escape s)) (write_token_sequence full_sequence))"

fun parts_to_write_actions :: "message_sequence \<Rightarrow> action list option" where
  "parts_to_write_actions [] = Some []"
| "parts_to_write_actions (PartTokens s # ps) =
     (case write_tokens s of
        None \<Rightarrow> None
      | Some as \<Rightarrow> map_option ((@) as) (parts_to_write_actions ps))"
| "parts_to_write_actions (PartTerminator t # ps) =
     map_option ((#) (WriteStaticOctets t)) (parts_to_write_actions ps)"
| "parts_to_write_actions (PartForLoop v c block opt # PartTerminator t # ps) =
     (case parts_to_write_actions block of
        None \<Rightarrow> None
      | Some as \<Rightarrow> map_option ((#) (Loop v c t as)) (parts_to_write_actions ps))"
| "parts_to_write_actions (PartForLoop v c block opt # ps) = None"

section \<open>Agents\<close>

definition analyze_write_message :: "message \<Rightarrow> transition option" where
  "analyze_write_message m =
     map_option (\<lambda>as. WriteTransition \<lparr>tr_data = msg_data m, tr_actions = as\<rparr>) (parts_to_write_actions (msg_parts m))"

definition analyze_read_message :: "message \<Rightarrow> transition option" where
  "analyze_read_message m =
     map_option (\<lambda>as. ReadTransition \<lparr>tr_data = msg_data m, tr_actions = as\<rparr>) (parts_to_read_actions (msg_parts m))"

definition analyze_message :: "string \<Rightarrow> message \<Rightarrow> transition option" where
  "analyze_message agent_name m =
     (if id_name (msg_agent m) = agent_name then analyze_write_message m else analyze_read_message m)"

fun analyze_transitions :: "protocol_description \<Rightarrow> string \<Rightarrow> (string \<times> transition) list option" where
  "analyze_transitions [] agent_name = Some []"
| "analyze_transitions ((n, m) # ms) agent_name =
     (case analyze_message agent_name m of
        None \<Rightarrow> None
      | Some t \<Rightarrow> map_option ((#) (n, t)) (analyze_transitions ms agent_name))"

text \<open>Assembling the states: the loop over the messages, and \<open>operator[]\<close> on the maps.\<close>

definition create_state :: "string \<Rightarrow> (string \<times> state_transitions) list \<Rightarrow> (string \<times> state_transitions) list" where
  "create_state s states = (if map_of states s = None then states @ [(s, [])] else states)"

definition add_transition ::
  "string \<Rightarrow> string \<Rightarrow> transition \<times> string \<Rightarrow> (string \<times> state_transitions) list \<Rightarrow> (string \<times> state_transitions) list" where
  "add_transition s name x states =
     AList.update s (AList.update name x (the (map_of states s))) states"

fun assemble_states ::
  "(string \<times> transition) list \<Rightarrow> protocol_description \<Rightarrow> (string \<times> state_transitions) list
    \<Rightarrow> (string \<times> state_transitions) list" where
  "assemble_states transitions [] states = states"
| "assemble_states transitions ((n, m) # ms) states =
     (let when_state = id_name (msg_when m); then_state = id_name (msg_then m);
          states = create_state then_state (create_state when_state states) in
      assemble_states transitions ms
        (add_transition when_state n (the (map_of transitions n), then_state) states))"

definition analyze_agent :: "protocol_description \<Rightarrow> string \<Rightarrow> agent option" where
  "analyze_agent p agent_name =
     map_option (\<lambda>transitions. \<lparr>ag_states = assemble_states transitions p []\<rparr>) (analyze_transitions p agent_name)"

definition analyze :: "protocol_description \<Rightarrow> protocol option" where
  "analyze p =
     (case (analyze_agent p ''Client'', analyze_agent p ''Server'') of
        (Some c, Some s) \<Rightarrow> Some \<lparr>pr_client = c, pr_server = s\<rparr>
      | _ \<Rightarrow> None)"

end
