(* ===== verification/Generate.thy ===== *)
theory Generate
  imports Sema Values
begin

text \<open>
  \<open>generate.cpp\<close>: from an analysed protocol to the operation tree of an agent. Failing is
  \<open>None\<close>, as \<open>std::nullopt\<close> in the code; looking into a tuple member that is not a type is an
  exception of \<open>std::get\<close>.
\<close>

section \<open>Results\<close>

type_synonym 'a generated = "'a option checked"

definition gen_bind :: "'a generated \<Rightarrow> ('a \<Rightarrow> 'b generated) \<Rightarrow> 'b generated" where
  "gen_bind m f = chk_bind m (\<lambda>x. case x of None \<Rightarrow> Inr None | Some y \<Rightarrow> f y)"

definition gen_opt :: "'a option \<Rightarrow> 'a generated" where
  "gen_opt x = Inr x"

abbreviation gen_return :: "'a \<Rightarrow> 'a generated" where
  "gen_return x \<equiv> Inr (Some x)"

lemma gen_bind_simps [simp]:
  "gen_bind (Inl e) f = Inl e"
  "gen_bind (Inr None) f = Inr None"
  "gen_bind (Inr (Some x)) f = f x"
  by (simp_all add: gen_bind_def)

lemma gen_bind_eq_Some: "gen_bind m f = Inr (Some y) \<longleftrightarrow> (\<exists>x. m = Inr (Some x) \<and> f x = Inr (Some y))"
  by (auto simp: gen_bind_def chk_bind_eq_Inr split: option.splits)

lemma gen_opt_simps [simp]: "gen_opt x = Inr (Some y) \<longleftrightarrow> x = Some y" "gen_opt (Some z) = Inr (Some z)" "gen_opt None = Inr None"
  by (simp_all add: gen_opt_def)

lemma gen_bind_cong [fundef_cong]:
  "m = m' \<Longrightarrow> (\<And>x. m' = Inr (Some x) \<Longrightarrow> f x = g x) \<Longrightarrow> gen_bind m f = gen_bind m' g"
  by (auto simp: gen_bind_def chk_bind_def split: sum.splits option.splits)

section \<open>Types in scope\<close>

type_synonym extract_type_closure = "string \<Rightarrow> ptype option"

definition element_type :: "ptype \<Rightarrow> type_parameter_value option" where
  "element_type t = map_of (type_parameters t) ''element_type''"

definition create_get_type_wrapper ::
  "extract_type_closure \<Rightarrow> string \<Rightarrow> string \<Rightarrow> extract_type_closure option" where
  "create_get_type_wrapper get_type variable collection =
     (case get_type collection of
        None \<Rightarrow> None
      | Some t \<Rightarrow>
          (case element_type t of
             None \<Rightarrow> None
           | Some e \<Rightarrow>
               Some (\<lambda>name. if name = variable
                 then (case e of TypeValue et \<Rightarrow> Some et | _ \<Rightarrow> None)
                 else get_type name)))"

definition extract_argument_names :: "message_data \<Rightarrow> string list" where
  "extract_argument_names d = map fst d"

definition extract_type_of :: "message_data \<Rightarrow> extract_type_closure" where
  "extract_type_of d name = map_of d name"

section \<open>Accessing a variable\<close>

text \<open>\<open>value_to_write\<close> is the closure that makes the tree of the value to store, if there is one.\<close>

fun recursive_variable_access ::
  "ptype \<Rightarrow> identifier_reference \<Rightarrow> optree_node \<Rightarrow> (ptype \<Rightarrow> optree_node option) option
    \<Rightarrow> (optree_node \<times> ptype) generated" where
  "recursive_variable_access t (IdentifierReference n member) current_access value_to_write =
     gen_bind (gen_opt (map_of (type_parameters t) n)) (\<lambda>p.
       case p of
         TypeValue member_type \<Rightarrow>
           (case member of
              None \<Rightarrow>
                (case value_to_write of
                   Some w \<Rightarrow>
                     gen_bind (gen_opt (w member_type)) (\<lambda>value_access.
                       gen_return (OpTreeNode (Op_DictionarySet n) [current_access, value_access], member_type))
                 | None \<Rightarrow>
                     gen_return (OpTreeNode (Op_DictionaryGet n) [current_access], member_type))
            | Some m \<Rightarrow>
                if id_name (type_name member_type) = ''tuple'' then
                  recursive_variable_access member_type m (OpTreeNode (Op_DictionaryGet n) [current_access]) value_to_write
                else Inr None)
       | _ \<Rightarrow> Inl BadVariantAccess)"

section \<open>Values and octets\<close>

definition write_octets_from_value :: "ptype \<Rightarrow> optree_node \<Rightarrow> escape_info option \<Rightarrow> optree_node option" where
  "write_octets_from_value t v escape =
     (if id_name (type_name t) = ''int'' then
        (case escape of
           Some e \<Rightarrow> Some (OpTreeNode (Op_WriteOctetsWithEscape (ei_character e) (ei_sequence e)) [OpTreeNode Op_IntToAscii [v]])
         | None \<Rightarrow> Some (OpTreeNode Op_WriteOctets [OpTreeNode Op_IntToAscii [v]]))
      else if id_name (type_name t) = ''str'' then
        (case escape of
           Some e \<Rightarrow> Some (OpTreeNode (Op_WriteOctetsWithEscape (ei_character e) (ei_sequence e)) [v])
         | None \<Rightarrow> Some (OpTreeNode Op_WriteOctets [v]))
      else None)"

definition escape_pair :: "escape_info option \<Rightarrow> (octets \<times> octets) option" where
  "escape_pair escape = map_option (\<lambda>e. (ei_character e, ei_sequence e)) escape"

definition read_value_from_octets :: "ptype \<Rightarrow> octets \<Rightarrow> escape_info option \<Rightarrow> optree_node option" where
  "read_value_from_octets t terminator escape =
     (if id_name (type_name t) = ''int'' then
        Some (OpTreeNode Op_ReadIntFromAscii [OpTreeNode (Op_ReadOctetsUntilTerminator terminator (escape_pair escape)) []])
      else if id_name (type_name t) = ''str'' then
        Some (OpTreeNode (Op_ReadOctetsUntilTerminator terminator (escape_pair escape)) [])
      else None)"

section \<open>Actions\<close>

text \<open>The two kinds of transition the overloads of \<open>visit_action\<close> are for.\<close>

datatype transition_type = Read | Write

definition initialize_loop_variable :: "extract_type_closure \<Rightarrow> string \<Rightarrow> string \<Rightarrow> optree_node option" where
  "initialize_loop_variable get_type collection variable =
     (case get_type collection of
        None \<Rightarrow> None
      | Some t \<Rightarrow>
          if id_name (type_name t) = ''array'' then
            (case element_type t of
               Some (TypeValue et) \<Rightarrow>
                 if id_name (type_name et) = ''tuple''
                 then Some (OpTreeNode (Op_LexicalPadInitialize variable) [OpTreeNode Op_DictionaryInitialize []])
                 else None
             | _ \<Rightarrow> None)
          else None)"

definition visit_read_until ::
  "extract_type_closure \<Rightarrow> octets \<Rightarrow> identifier_reference \<Rightarrow> escape_info option \<Rightarrow> optree_node generated" where
  "visit_read_until get_type terminator i escape =
     gen_bind (gen_opt (get_type (id_name i))) (\<lambda>t.
       case id_member i of
         None \<Rightarrow>
           gen_bind (gen_opt (read_value_from_octets t terminator escape)) (\<lambda>n.
             gen_return (OpTreeNode (Op_LexicalPadSet (id_name i)) [n]))
       | Some member \<Rightarrow>
           gen_bind (recursive_variable_access t member (OpTreeNode (Op_LexicalPadGet (id_name i)) [])
               (Some (\<lambda>t. read_value_from_octets t terminator escape))) (\<lambda>(last_access, last_type).
             gen_return (OpTreeNode (Op_LexicalPadSet (id_name i)) [last_access])))"

definition visit_write_from_identifier ::
  "extract_type_closure \<Rightarrow> identifier_reference \<Rightarrow> escape_info option \<Rightarrow> optree_node generated" where
  "visit_write_from_identifier get_type i escape =
     gen_bind (gen_opt (get_type (id_name i))) (\<lambda>t.
       let variable_access = OpTreeNode (Op_LexicalPadGet (id_name i)) [] in
       case id_member i of
         Some member \<Rightarrow>
           gen_bind (recursive_variable_access t member variable_access None) (\<lambda>(last_access, last_type).
             gen_opt (write_octets_from_value last_type last_access escape))
       | None \<Rightarrow> gen_opt (write_octets_from_value t variable_access escape))"

definition write_loop :: "string \<Rightarrow> string \<Rightarrow> octets \<Rightarrow> optree_node list \<Rightarrow> optree_node" where
  "write_loop variable collection terminator ops =
     (let loop_optree = OpTree (OpTreeNode Op_OpSequence ops) in
      OpTreeNode Op_OpSequence
        [OpTreeNode (Op_FunctionCallForEach True)
           [OpTreeNode (Op_StaticCallable loop_optree [variable] True) [],
            OpTreeNode (Op_LexicalPadGet collection) []],
         OpTreeNode (Op_WriteStaticOctets terminator) []])"

definition read_loop :: "string \<Rightarrow> string \<Rightarrow> octets \<Rightarrow> optree_node \<Rightarrow> optree_node list \<Rightarrow> optree_node" where
  "read_loop variable collection terminator initialize ops =
     (let loop_optree = OpTree (OpTreeNode Op_OpSequence
            [initialize,
             OpTreeNode Op_OpSequence ops,
             OpTreeNode (Op_TerminateListIfReadAhead terminator) [],
             OpTreeNode (Op_LexicalPadGet variable) []]) in
      OpTreeNode (Op_LexicalPadSet collection)
        [OpTreeNode Op_GenerateList [OpTreeNode (Op_StaticCallable loop_optree [] True) []]])"

text \<open>An action that does not belong to the kind of transition has no tree.\<close>

fun visit_action :: "transition_type \<Rightarrow> extract_type_closure \<Rightarrow> action \<Rightarrow> optree_node generated"
  and actions_to_optreenodes :: "transition_type \<Rightarrow> extract_type_closure \<Rightarrow> action list \<Rightarrow> optree_node list generated" where
  "visit_action Read get_type (ReadOctetsUntilTerminator t i e) = visit_read_until get_type t i e"
| "visit_action Read get_type (ReadStaticOctets s) = gen_return (OpTreeNode (Op_ReadStaticOctets s) [])"
| "visit_action Write get_type (WriteFromIdentifier i e) = visit_write_from_identifier get_type i e"
| "visit_action Write get_type (WriteStaticOctets s) = gen_return (OpTreeNode (Op_WriteStaticOctets s) [])"
| "visit_action k get_type (Loop v c t as) =
     gen_bind (gen_opt (create_get_type_wrapper get_type (id_name v) (id_name c))) (\<lambda>wrapper.
     gen_bind (actions_to_optreenodes k wrapper as) (\<lambda>ops.
       case k of
         Write \<Rightarrow> gen_return (write_loop (id_name v) (id_name c) t ops)
       | Read \<Rightarrow>
           gen_bind (gen_opt (initialize_loop_variable wrapper (id_name c) (id_name v))) (\<lambda>initialize.
             gen_return (read_loop (id_name v) (id_name c) t initialize ops))))"
| "visit_action k get_type a = Inr None"
| "actions_to_optreenodes k get_type [] = gen_return []"
| "actions_to_optreenodes k get_type (a # as) =
     gen_bind (visit_action k get_type a) (\<lambda>op.
     gen_bind (actions_to_optreenodes k get_type as) (\<lambda>ops.
       gen_return (op # ops)))"

section \<open>Transitions\<close>

definition generate_transition_optree :: "transition_type \<Rightarrow> abstract_transition \<Rightarrow> optree generated" where
  "generate_transition_optree k t =
     gen_bind (actions_to_optreenodes k (extract_type_of (tr_data t)) (tr_actions t)) (\<lambda>ops.
       gen_return (OpTree (OpTreeNode Op_OpSequence
         [OpTreeNode Op_OpSequence ops,
          OpTreeNode Op_DynamicList [OpTreeNode Op_LexicalPadAsDict []]])))"

definition generate_transition_info :: "transition_type \<Rightarrow> abstract_transition \<Rightarrow> string \<Rightarrow> transition_info generated" where
  "generate_transition_info k t target_state =
     gen_bind (generate_transition_optree k t) (\<lambda>optree.
       gen_return (TransitionInfo optree (extract_argument_names (tr_data t)) target_state))"

definition visit_transition :: "transition \<Rightarrow> string \<Rightarrow> (transition_type \<times> transition_info) generated" where
  "visit_transition t target_state =
     (case t of
        WriteTransition a \<Rightarrow> gen_bind (generate_transition_info Write a target_state) (\<lambda>i. gen_return (Write, i))
      | ReadTransition a \<Rightarrow> gen_bind (generate_transition_info Read a target_state) (\<lambda>i. gen_return (Read, i)))"

text \<open>What a read transition begins with.\<close>

fun action_condition :: "action \<Rightarrow> transition_condition option" where
  "action_condition (ReadOctetsUntilTerminator t i e) = Some (MatchUntilTerminator t)"
| "action_condition (ReadStaticOctets s) = Some (StaticString s)"
| "action_condition (Loop v c t []) = None"
| "action_condition (Loop v c t (a # as)) = action_condition a"
| "action_condition (WriteFromIdentifier i e) = None"
| "action_condition (WriteStaticOctets s) = None"

definition get_transition_condition :: "transition \<Rightarrow> transition_condition option" where
  "get_transition_condition t =
     (case t of
        WriteTransition a \<Rightarrow> None
      | ReadTransition a \<Rightarrow> (case tr_actions a of [] \<Rightarrow> None | x # xs \<Rightarrow> action_condition x))"

fun read_state_conditions :: "state_transitions \<Rightarrow> (transition_condition \<times> string) list option" where
  "read_state_conditions [] = Some []"
| "read_state_conditions ((n, (t, target_state)) # ts) =
     (case (if target_state = ''Closed'' then Some EOFCondition else get_transition_condition t) of
        None \<Rightarrow> None
      | Some c \<Rightarrow> map_option ((#) (c, n)) (read_state_conditions ts))"

definition generate_read_state_callback :: "state_transitions \<Rightarrow> optree option" where
  "generate_read_state_callback ts =
     (case read_state_conditions ts of
        None \<Rightarrow> None
      | Some [] \<Rightarrow> None
      | Some conditions \<Rightarrow>
          Some (OpTree (OpTreeNode Op_DynamicList
            [OpTreeNode (Op_TransitionLookahead conditions) [], OpTreeNode (Op_LexicalPadGet ''dictionary'') []])))"

section \<open>States\<close>

definition unary_callback_optree :: "string \<Rightarrow> optree" where
  "unary_callback_optree s = OpTree (OpTreeNode (Op_UnaryCallback s) [OpTreeNode (Op_LexicalPadGet ''dictionary'') []])"

text \<open>The inner loop: all transitions of a state have to be of the same kind.\<close>

fun construct_transitions ::
  "state_transitions \<Rightarrow> state_transition_map \<Rightarrow> transition_type option
    \<Rightarrow> (state_transition_map \<times> transition_type option) generated" where
  "construct_transitions [] m k = gen_return (m, k)"
| "construct_transitions ((n, (t, target_state)) # ts) m k =
     gen_bind (visit_transition t target_state) (\<lambda>(transition_type, info).
       if k \<noteq> None \<and> k \<noteq> Some transition_type then Inr None
       else construct_transitions ts (AList.update n info m) (Some transition_type))"

definition construct_state_info :: "string \<Rightarrow> state_transitions \<Rightarrow> state_info generated" where
  "construct_state_info s ts =
     gen_bind (construct_transitions ts [] None) (\<lambda>(transitions, k).
       if s \<noteq> ''Closed'' then
         (case (case k of None \<Rightarrow> Read | Some k \<Rightarrow> k) of
            Read \<Rightarrow>
              gen_bind (gen_opt (generate_read_state_callback ts)) (\<lambda>optree.
                gen_return (StateInfo optree transitions))
          | Write \<Rightarrow> gen_return (StateInfo (unary_callback_optree s) transitions))
       else gen_return (StateInfo (unary_callback_optree s) transitions))"

fun construct_states :: "(string \<times> state_transitions) list \<Rightarrow> state_map \<Rightarrow> state_map generated" where
  "construct_states [] m = gen_return m"
| "construct_states ((s, ts) # states) m =
     gen_bind (construct_state_info s ts) (\<lambda>info. construct_states states (AList.update s info m))"

definition construct_state_map :: "(string \<times> state_transitions) list \<Rightarrow> state_map generated" where
  "construct_state_map states =
     gen_bind (construct_states states []) (\<lambda>m. if m = [] then Inr None else gen_return m)"

section \<open>Agents\<close>

definition agent_optree :: "agent \<Rightarrow> optree generated" where
  "agent_optree a =
     gen_bind (construct_state_map (ag_states a)) (\<lambda>m.
       gen_return (OpTree (OpTreeNode (Op_StateMachineOperation m) [])))"

definition generate_client :: "protocol \<Rightarrow> optree generated" where
  "generate_client p = agent_optree (pr_client p)"

definition generate_server :: "protocol \<Rightarrow> optree generated" where
  "generate_server p = agent_optree (pr_server p)"

end
