(* ===== verification/SemaLemmas.thy ===== *)
theory SemaLemmas
  imports Sema
begin

text \<open>
  Lemmas on the semantic analysis: the two translations of a message describe one wire format,
  and the states of an agent are the messages, keyed by their states.
\<close>

section \<open>Both directions of a message\<close>

text \<open>The actions that write what an action reads.\<close>

fun write_of_read :: "action \<Rightarrow> action list" where
  "write_of_read (ReadStaticOctets s) = [WriteStaticOctets s]"
| "write_of_read (ReadOctetsUntilTerminator t i e) = [WriteFromIdentifier i e, WriteStaticOctets t]"
| "write_of_read (Loop v c t as) = [Loop v c t (concat (map write_of_read as))]"
| "write_of_read (WriteFromIdentifier i e) = []"
| "write_of_read (WriteStaticOctets s) = []"

abbreviation write_of_reads :: "action list \<Rightarrow> action list" where
  "write_of_reads as \<equiv> concat (map write_of_read as)"

text \<open>No token sequence is empty; the grammar sees to it.\<close>

fun tokens_present :: "message_part \<Rightarrow> bool" where
  "tokens_present (PartTokens s) \<longleftrightarrow> ts_tokens s \<noteq> []"
| "tokens_present (PartTerminator t) \<longleftrightarrow> True"
| "tokens_present (PartForLoop v c block opt) \<longleftrightarrow> (\<forall>p \<in> set block. tokens_present p)"

lemma read_token_actions_write:
  "read_token_actions ts = Some as \<Longrightarrow> map write_token_action ts = write_of_reads as"
  by (induction ts arbitrary: as rule: read_token_actions.induct) auto

lemma read_token_actions_no_loop:
  "read_token_actions ts = Some as \<Longrightarrow> a \<in> set as \<Longrightarrow>
     write_of_read (apply_escape_to_read e a) = map (apply_escape_to_write e) (write_of_read a)"
  by (induction ts arbitrary: as rule: read_token_actions.induct) auto

lemma read_tokens_write:
  assumes "read_token_actions ts = Some as"
  shows "escape_write_actions esc (map write_token_action ts) = write_of_reads (escape_read_actions esc as)"
proof -
  have "map (apply_escape_to_write e) (write_of_reads bs) = write_of_reads (map (apply_escape_to_read e) bs)"
    if "set bs \<subseteq> set as" for e bs
    using that by (induction bs) (simp_all add: read_token_actions_no_loop [OF assms])
  then show ?thesis
    by (simp add: read_token_actions_write [OF assms] escape_write_actions_def escape_read_actions_def
        split: option.split)
qed

lemma process_token_sequence_write:
  assumes "process_token_sequence s t = Some as"
  shows "write_of_reads as = escape_write_actions (ts_escape s) (map write_token_action (ts_tokens s) @ [WriteStaticOctets t])"
  using assms read_tokens_write [of "ts_tokens s @ [TokenString t]" _ "ts_escape s"]
  by (auto simp: process_token_sequence_def read_token_sequence_def)

lemma escape_write_append:
  "escape_write_actions esc (as @ bs) = escape_write_actions esc as @ escape_write_actions esc bs"
  by (simp add: escape_write_actions_def split: option.split)

lemma escape_write_static [simp]: "escape_write_actions esc [WriteStaticOctets t] = [WriteStaticOctets t]"
  by (simp add: escape_write_actions_def split: option.split)

lemma write_mirror:
  assumes "parts_to_read_actions ps = Some as" and "\<forall>p \<in> set ps. tokens_present p"
  shows "parts_to_write_actions ps = Some (write_of_reads as)"
  using assms
proof (induction ps arbitrary: as rule: parts_to_read_actions.induct)
  case (2 s)
  show ?case
  proof (cases "ts_terminator s")
    case None
    with 2 obtain bs where bs: "read_token_actions (ts_tokens s) = Some bs"
        "as = escape_read_actions (ts_escape s) bs"
      by (auto simp: read_final_token_sequence_def read_token_sequence_def)
    with read_tokens_write [OF bs(1), of "ts_escape s"] None 2 show ?thesis
      by (simp add: write_tokens_def write_token_sequence_def)
  next
    case (Some t)
    with 2 have "process_token_sequence s t = Some as" by (simp add: read_final_token_sequence_def)
    from process_token_sequence_write [OF this] Some show ?thesis
      by (simp add: write_tokens_def write_token_sequence_def)
  qed
next
  case (3 s t ps)
  then obtain bs cs where bs: "process_token_sequence s t = Some bs" and cs: "parts_to_read_actions ps = Some cs"
    and as: "as = bs @ cs" and no: "ts_terminator s = None"
    by (auto split: if_splits option.splits)
  from 3(1) [OF _ bs cs] no 3(3) have "parts_to_write_actions ps = Some (write_of_reads cs)" by simp
  with process_token_sequence_write [OF bs] no 3(3) show ?case
    by (simp add: as write_tokens_def write_token_sequence_def escape_write_append)
next
  case (4 v c block opt t ps)
  then show ?case by (auto split: option.splits)
qed auto

section \<open>The states of an agent\<close>

definition state_lookup :: "(string \<times> state_transitions) list \<Rightarrow> string \<Rightarrow> string \<Rightarrow> (transition \<times> string) option" where
  "state_lookup st s n = (case map_of st s of None \<Rightarrow> None | Some ts \<Rightarrow> map_of ts n)"

lemma create_state_lookup [simp]: "state_lookup (create_state t st) s n = state_lookup st s n"
  by (auto simp: state_lookup_def create_state_def map_add_def split: option.splits)

lemma create_state_dom: "map_of (create_state t st) s = None \<longleftrightarrow> s \<noteq> t \<and> map_of st s = None"
  by (auto simp: create_state_def map_add_def split: option.splits)

lemma add_transition_lookup:
  assumes "map_of st w \<noteq> None"
  shows "state_lookup (add_transition w m x st) s n = (if s = w \<and> n = m then Some x else state_lookup st s n)"
  using assms by (auto simp: state_lookup_def add_transition_def AList.update_conv')

lemma add_transition_dom:
  "map_of st w \<noteq> None \<Longrightarrow> map_of (add_transition w m x st) s = None \<longleftrightarrow> map_of st s = None"
  by (auto simp: add_transition_def AList.update_conv')

lemma assemble_states_lookup:
  assumes "distinct (map fst ms)"
  shows "state_lookup (assemble_states tr ms st) s n =
    (case map_of ms n of
       Some m \<Rightarrow> if id_name (msg_when m) = s then Some (the (map_of tr n), id_name (msg_then m)) else state_lookup st s n
     | None \<Rightarrow> state_lookup st s n)"
  using assms
proof (induction ms arbitrary: st)
  case (Cons p ms)
  obtain k m where p: "p = (k, m)" by (cases p)
  let ?st = "create_state (id_name (msg_then m)) (create_state (id_name (msg_when m)) st)"
  have "map_of ?st (id_name (msg_when m)) \<noteq> None" by (simp add: create_state_dom)
  note add = add_transition_lookup [OF this]
  have "map_of ms k = None" using Cons.prems by (simp add: p map_of_eq_None_iff)
  with Cons show ?case by (auto simp: p add Let_def split: option.split)
qed simp

lemma assemble_states_dom:
  "map_of (assemble_states tr ms st) s \<noteq> None \<longleftrightarrow>
     map_of st s \<noteq> None \<or> (\<exists>(n, m) \<in> set ms. s = id_name (msg_when m) \<or> s = id_name (msg_then m))"
proof (induction ms arbitrary: st)
  case (Cons p ms)
  obtain k m where p: "p = (k, m)" by (cases p)
  let ?st = "create_state (id_name (msg_then m)) (create_state (id_name (msg_when m)) st)"
  have "map_of ?st (id_name (msg_when m)) \<noteq> None" by (simp add: create_state_dom)
  note add = add_transition_dom [OF this]
  show ?case by (simp add: p Let_def Cons.IH add create_state_dom del: not_None_eq) auto
qed simp

lemma analyze_transitions_map:
  "analyze_transitions ms a = Some ts \<Longrightarrow> map_of ts n = (case map_of ms n of None \<Rightarrow> None | Some m \<Rightarrow> analyze_message a m)"
  by (induction ms a arbitrary: ts rule: analyze_transitions.induct) (auto split: option.splits)

lemma analyze_agent_spec:
  assumes "analyze_agent p agent_name = Some a" and "ordered p"
  shows "(map_of (ag_states a) s \<noteq> None \<longleftrightarrow>
       (\<exists>(n, m) \<in> set p. s = id_name (msg_when m) \<or> s = id_name (msg_then m)))
    \<and> state_lookup (ag_states a) s n =
       (case map_of p n of
          Some m \<Rightarrow> if id_name (msg_when m) = s
            then Some (the (analyze_message agent_name m), id_name (msg_then m)) else None
        | None \<Rightarrow> None)
    \<and> (\<forall>m. map_of p n = Some m \<longrightarrow> analyze_message agent_name m \<noteq> None)"
proof -
  from assms(1) obtain tr where tr: "analyze_transitions p agent_name = Some tr"
    and a: "ag_states a = assemble_states tr p []"
    by (auto simp: analyze_agent_def)
  have "distinct (map fst p)" using assms(2) by (simp add: ordered_def strict_sorted_iff)
  note look = assemble_states_lookup [OF this, of tr "[]" s n]
  have "state_lookup [] s n = None" by (simp add: state_lookup_def)
  moreover have "analyze_message agent_name m \<noteq> None" if "map_of p n = Some m" for m
  proof -
    have "map_of tr n \<noteq> None"
      using tr that
      by (induction p agent_name arbitrary: tr rule: analyze_transitions.induct) (auto split: option.splits if_splits)
    with analyze_transitions_map [OF tr, of n] that show ?thesis by simp
  qed
  ultimately show ?thesis
    using look assemble_states_dom [of tr p "[]" s] analyze_transitions_map [OF tr, of n]
    by (auto simp: a split: option.splits)
qed

end
