(* ===== verification/FrontEndTheorems.thy ===== *)
theory FrontEndTheorems
  imports Generate MachineInvariant SemaLemmas
begin

text \<open>
  The properties of the semantic analysis and of the generation of operation trees.
\<close>

section \<open>Both directions of a message\<close>

text \<open>C12: The two directions of a message agree on the wire format: whatever parts the reading
  agent accepts, the writing agent accepts too, and what it writes is, action by action and
  through loops, what the reader reads: the same static octets, each identifier with the same
  escape before the terminator that ends it.\<close>

theorem write_actions_mirror_read_actions:
  assumes "parts_to_read_actions ps = Some as" and "\<forall>p \<in> set ps. tokens_present p"
  shows "parts_to_write_actions ps = Some (write_of_reads as)"
  using assms by (rule write_mirror)

abbreviation example_parts :: message_sequence where
  "example_parts \<equiv>
     [PartTokens \<lparr>ts_tokens = [TokenIdentifier (IdentifierReference ''verb'' None)], ts_terminator = None, ts_escape = None\<rparr>,
      PartTerminator '' '',
      PartForLoop (IdentifierReference ''h'' None) (IdentifierReference ''hs'' None)
        [PartTokens \<lparr>ts_tokens = [TokenIdentifier (IdentifierReference ''h'' None)], ts_terminator = Some ''.'',
           ts_escape = Some \<lparr>er_character = ''a'', er_sequence = ''bb''\<rparr>\<rparr>] None,
      PartTerminator ''!'']"

theorem write_actions_mirror_read_actions_witness:
  "parts_to_write_actions example_parts = Some
     [WriteFromIdentifier (IdentifierReference ''verb'' None) None, WriteStaticOctets '' '',
      Loop (IdentifierReference ''h'' None) (IdentifierReference ''hs'' None) ''!''
        [WriteFromIdentifier (IdentifierReference ''h'' None) (Some \<lparr>ei_character = ''a'', ei_sequence = ''bb''\<rparr>),
         WriteStaticOctets ''.'']]"
proof -
  have "parts_to_read_actions example_parts = Some
     [ReadOctetsUntilTerminator '' '' (IdentifierReference ''verb'' None) None,
      Loop (IdentifierReference ''h'' None) (IdentifierReference ''hs'' None) ''!''
        [ReadOctetsUntilTerminator ''.'' (IdentifierReference ''h'' None) (Some \<lparr>ei_character = ''a'', ei_sequence = ''bb''\<rparr>)]]"
    by (simp add: process_token_sequence_def read_token_sequence_def read_final_token_sequence_def
        escape_read_actions_def escape_info_of_def)
  from write_actions_mirror_read_actions [OF this] show ?thesis by simp
qed

section \<open>The states of an agent\<close>

text \<open>C27: Analysis keeps exactly the messages: an agent has a state for each state some message
  names, and under the name of a message, in the state the message starts from and in no other,
  it has the message's transition, to write for the agent the message names and to read for any
  other, with the message's target.\<close>

theorem analyze_agent_states:
  assumes "analyze_agent p agent_name = Some a" and "ordered p"
  shows "(map_of (ag_states a) s \<noteq> None \<longleftrightarrow>
       (\<exists>(n, m) \<in> set p. s = id_name (msg_when m) \<or> s = id_name (msg_then m)))
    \<and> state_lookup (ag_states a) s n =
       (case map_of p n of
          Some m \<Rightarrow> if id_name (msg_when m) = s
            then Some (the (analyze_message agent_name m), id_name (msg_then m)) else None
        | None \<Rightarrow> None)
    \<and> (\<forall>m. map_of p n = Some m \<longrightarrow> analyze_message agent_name m \<noteq> None)"
  using assms by (rule analyze_agent_spec)

abbreviation hello :: message where
  "hello \<equiv> \<lparr>msg_name = ''Hello'', msg_when = IdentifierReference ''Open'' None,
     msg_then = IdentifierReference ''Closed'' None, msg_agent = IdentifierReference ''Client'' None,
     msg_data = [(''n'', Type (IdentifierReference ''str'' None) [])],
     msg_parts = [PartTokens \<lparr>ts_tokens = [TokenIdentifier (IdentifierReference ''n'' None)], ts_terminator = None, ts_escape = None\<rparr>,
       PartTerminator ''.'']\<rparr>"

theorem analyze_agent_states_witness:
  "\<exists>a. analyze_agent [(''Hello'', hello)] ''Client'' = Some a
     \<and> map_of (ag_states a) ''Closed'' \<noteq> None \<and> map_of (ag_states a) ''Elsewhere'' = None"
proof -
  obtain a where a: "analyze_agent [(''Hello'', hello)] ''Client'' = Some a"
    by (simp add: analyze_agent_def analyze_message_def analyze_write_message_def write_tokens_def
        write_token_sequence_def)
  have "ordered [(''Hello'', hello)]" by (simp add: ordered_def)
  from analyze_agent_states [OF a this, of "''Closed''"] analyze_agent_states [OF a this, of "''Elsewhere''"] a
  show ?thesis by (auto simp del: not_None_eq)
qed

section \<open>Generated trees\<close>

lemma recursive_variable_access_wf:
  "recursive_variable_access t i cur w = Inr (Some (n, t')) \<Longrightarrow> wf_node cur \<Longrightarrow>
     (\<forall>f t n. w = Some f \<longrightarrow> f t = Some n \<longrightarrow> wf_node n) \<Longrightarrow> wf_node n"
proof (induction t i cur w rule: recursive_variable_access.induct)
  case (1 t n' member cur w)
  from "1.prems"(1) obtain p where p: "map_of (type_parameters t) n' = Some p"
    by (cases "map_of (type_parameters t) n'") simp_all
  with "1.prems"(1) obtain mt where mt: "map_of (type_parameters t) n' = Some (TypeValue mt)"
    by (cases p) (simp_all add: gen_opt_def)
  show ?case
  proof (cases member)
    case None
    with "1.prems" mt show ?thesis
      by (cases w) (auto simp: gen_bind_eq_Some)
  next
    case (Some m)
    with "1.prems"(1) mt have tu: "id_name (type_name mt) = ''tuple''"
      and rec: "recursive_variable_access mt m (OpTreeNode (Op_DictionaryGet n') [cur]) w = Inr (Some (n, t'))"
      by (auto split: if_splits)
    from "1.IH" [OF _ _ Some tu rec] mt "1.prems"(2,3) show ?thesis by simp
  qed
qed

lemma read_value_wf: "read_value_from_octets t s e = Some n \<Longrightarrow> wf_node n"
  by (auto simp: read_value_from_octets_def split: if_splits)

lemma write_value_wf: "write_octets_from_value t v e = Some n \<Longrightarrow> wf_node v \<Longrightarrow> wf_node n"
  by (auto simp: write_octets_from_value_def split: if_splits option.splits)

lemma visit_read_until_wf:
  assumes "visit_read_until g t i e = Inr (Some n)"
  shows "wf_node n"
proof (cases "id_member i")
  case None
  with assms show ?thesis
    by (auto simp: visit_read_until_def gen_bind_eq_Some dest: read_value_wf)
next
  case (Some m)
  with assms obtain ty la lt where la: "recursive_variable_access ty m (OpTreeNode (Op_LexicalPadGet (id_name i)) [])
      (Some (\<lambda>ty. read_value_from_octets ty t e)) = Inr (Some (la, lt))"
    and n: "n = OpTreeNode (Op_LexicalPadSet (id_name i)) [la]"
    by (auto simp: visit_read_until_def gen_bind_eq_Some)
  have "wf_node la" by (rule recursive_variable_access_wf [OF la]) (auto intro: read_value_wf)
  with n show ?thesis by simp
qed

lemma visit_write_wf:
  assumes "visit_write_from_identifier g i e = Inr (Some n)"
  shows "wf_node n"
proof (cases "id_member i")
  case None
  with assms show ?thesis
    by (auto simp: visit_write_from_identifier_def gen_bind_eq_Some intro: write_value_wf)
next
  case (Some m)
  with assms obtain t la lt where "recursive_variable_access t m (OpTreeNode (Op_LexicalPadGet (id_name i)) []) None = Inr (Some (la, lt))"
    "write_octets_from_value lt la e = Some n"
    by (auto simp: visit_write_from_identifier_def gen_bind_eq_Some)
  with recursive_variable_access_wf [of t m _ None la lt] show ?thesis by (auto intro: write_value_wf)
qed

lemma initialize_loop_variable_wf: "initialize_loop_variable g c v = Some n \<Longrightarrow> wf_node n"
  by (auto simp: initialize_loop_variable_def split: option.splits if_splits type_parameter_value.splits)

lemma visit_action_wf:
  "visit_action k g a = Inr (Some n) \<Longrightarrow> wf_node n"
  "actions_to_optreenodes k g as = Inr (Some ns) \<Longrightarrow> \<forall>n \<in> set ns. wf_node n"
proof (induction k g a and k g as arbitrary: n and ns rule: visit_action_actions_to_optreenodes.induct)
  case (5 k g v c t as)
  then obtain w ops where w: "create_get_type_wrapper g (id_name v) (id_name c) = Some w"
    and ops: "actions_to_optreenodes k w as = Inr (Some ops)"
    and n: "(case k of Write \<Rightarrow> gen_return (write_loop (id_name v) (id_name c) t ops)
       | Read \<Rightarrow> gen_bind (gen_opt (initialize_loop_variable w (id_name c) (id_name v))) (\<lambda>initialize.
             gen_return (read_loop (id_name v) (id_name c) t initialize ops))) = Inr (Some n)"
    by (auto simp: gen_bind_eq_Some)
  have "\<forall>n \<in> set ops. wf_node n" using 5(1) [of w ops] w ops by simp
  with n show ?case
    by (cases k) (auto simp: gen_bind_eq_Some write_loop_def read_loop_def dest: initialize_loop_variable_wf)
qed (auto simp: gen_bind_eq_Some dest: visit_read_until_wf visit_write_wf)

lemma visit_transition_wf: "visit_transition t s = Inr (Some (k, i)) \<Longrightarrow> wf_transition_info i"
  by (cases t) (auto simp: visit_transition_def generate_transition_info_def generate_transition_optree_def
      gen_bind_eq_Some dest: visit_action_wf)

lemma set_update: "set (AList.update k v m) \<subseteq> insert (k, v) (set m)"
  by (induction m) auto

lemma construct_transitions_wf:
  "construct_transitions ts m k = Inr (Some (m', k')) \<Longrightarrow> \<forall>(n, i) \<in> set m. wf_transition_info i \<Longrightarrow>
     \<forall>(n, i) \<in> set m'. wf_transition_info i"
proof (induction ts m k rule: construct_transitions.induct)
  case (2 n t tgt ts m k)
  then obtain ty i where v: "visit_transition t tgt = Inr (Some (ty, i))"
    and same: "\<not> (k \<noteq> None \<and> k \<noteq> Some ty)"
    and c: "construct_transitions ts (AList.update n i m) (Some ty) = Inr (Some (m', k'))"
    by (auto simp: gen_bind_eq_Some split: if_splits)
  have "\<forall>(n, i) \<in> set (AList.update n i m). wf_transition_info i"
    using visit_transition_wf [OF v] 2(3) set_update [of n i m] by auto
  with "2.IH" [of "(ty, i)" ty i] v same c show ?case by simp
qed simp

lemma unary_callback_wf: "wf_tree (unary_callback_optree s)"
  by (simp add: unary_callback_optree_def)

lemma construct_state_info_wf:
  assumes "construct_state_info s ts = Inr (Some i)"
  shows "wf_state_info i"
proof -
  from assms obtain m k where c: "construct_transitions ts [] None = Inr (Some (m, k))"
    and "i = StateInfo (unary_callback_optree s) m \<or>
      (\<exists>t. generate_read_state_callback ts = Some t \<and> i = StateInfo t m)"
    by (auto simp: construct_state_info_def gen_bind_eq_Some split: if_splits transition_type.splits)
  moreover have "\<forall>(n, i) \<in> set m. wf_transition_info i" using construct_transitions_wf [OF c] by simp
  ultimately show ?thesis
    by (auto simp: unary_callback_wf generate_read_state_callback_def split: option.splits list.splits)
qed

lemma construct_states_wf:
  "construct_states ss m = Inr (Some m') \<Longrightarrow> \<forall>(n, i) \<in> set m. wf_state_info i \<Longrightarrow> \<forall>(n, i) \<in> set m'. wf_state_info i"
proof (induction ss m rule: construct_states.induct)
  case (2 s ts ss m)
  then obtain i where i: "construct_state_info s ts = Inr (Some i)"
    and c: "construct_states ss (AList.update s i m) = Inr (Some m')"
    by (auto simp: gen_bind_eq_Some)
  have "\<forall>(n, i) \<in> set (AList.update s i m). wf_state_info i"
    using construct_state_info_wf [OF i] 2(3) set_update [of s i m] by auto
  with "2.IH" [of i] i c show ?case by simp
qed simp

lemma agent_optree_wf: "agent_optree a = Inr (Some t) \<Longrightarrow> wf_tree t"
  by (auto simp: agent_optree_def construct_state_map_def gen_bind_eq_Some dest: construct_states_wf split: if_splits)

text \<open>The agent and the tree of the example message.\<close>

abbreviation hello_states :: "(string \<times> state_transitions) list" where
  "hello_states \<equiv> [(''Open'', [(''Hello'', (WriteTransition \<lparr>tr_data = msg_data hello,
      tr_actions = [WriteFromIdentifier (IdentifierReference ''n'' None) None, WriteStaticOctets ''.'']\<rparr>, ''Closed''))]),
    (''Closed'', [])]"

lemma hello_agent: "analyze_agent [(''Hello'', hello)] ''Client'' = Some a \<Longrightarrow> ag_states a = hello_states"
  by (auto simp: analyze_agent_def analyze_message_def analyze_write_message_def write_tokens_def
      write_token_sequence_def create_state_def add_transition_def escape_write_actions_def Let_def)

lemma hello_agent_optree: "ag_states a = hello_states \<Longrightarrow> \<exists>t. agent_optree a = Inr (Some t)"
  by (simp add: agent_optree_def construct_state_map_def construct_state_info_def visit_transition_def
      generate_transition_info_def generate_transition_optree_def visit_write_from_identifier_def
      extract_type_of_def write_octets_from_value_def)



section \<open>The generated state machine\<close>

definition is_write :: "transition \<Rightarrow> bool" where
  "is_write t = (case t of WriteTransition a \<Rightarrow> True | ReadTransition a \<Rightarrow> False)"

lemma visit_transition_kind:
  "visit_transition t s = Inr (Some (k, i)) \<Longrightarrow> (k = Write \<longleftrightarrow> is_write t) \<and> ti_target_state i = s"
  by (cases t) (auto simp: visit_transition_def generate_transition_info_def gen_bind_eq_Some is_write_def)

lemma construct_transitions_targets:
  "construct_transitions ts m k = Inr (Some (m', k')) \<Longrightarrow> distinct (map fst ts) \<Longrightarrow>
     (\<forall>n. map_option ti_target_state (map_of m' n) =
        (case map_of ts n of Some x \<Rightarrow> Some (snd x) | None \<Rightarrow> map_option ti_target_state (map_of m n)))
     \<and> (\<forall>(n, x) \<in> set ts. k' = Some (if is_write (fst x) then Write else Read))
     \<and> (ts = [] \<longrightarrow> k' = k) \<and> (k \<noteq> None \<longrightarrow> k' = k)"
proof (induction ts m k rule: construct_transitions.induct)
  case (2 n t tgt ts m k)
  then obtain ty i where v: "visit_transition t tgt = Inr (Some (ty, i))"
    and same: "\<not> (k \<noteq> None \<and> k \<noteq> Some ty)"
    and c: "construct_transitions ts (AList.update n i m) (Some ty) = Inr (Some (m', k'))"
    by (auto simp: gen_bind_eq_Some split: if_splits)
  have d: "distinct (map fst ts)" "map_of ts n = None" using 2(3) by (auto simp: map_of_eq_None_iff)
  have k: "k' = Some ty" and ih: "\<forall>n'. map_option ti_target_state (map_of m' n') =
        (case map_of ts n' of Some x \<Rightarrow> Some (snd x) | None \<Rightarrow> map_option ti_target_state (map_of (AList.update n i m) n'))"
      "\<forall>(n, x) \<in> set ts. k' = Some (if is_write (fst x) then Write else Read)"
    using "2.IH" [of "(ty, i)" ty i] v same c d(1) by auto
  have "ty = (if is_write t then Write else Read)" "ti_target_state i = tgt"
    using visit_transition_kind [OF v] by (cases ty; auto)+
  then show ?case using k ih same d(2) by (auto simp: AList.update_conv' split: option.split)
qed auto

lemma construct_state_info_targets:
  assumes "construct_state_info s ts = Inr (Some (StateInfo cb m))" and "distinct (map fst ts)"
  shows "map_option ti_target_state (map_of m n) = map_option snd (map_of ts n)
    \<and> ((\<forall>(n, x) \<in> set ts. is_write (fst x)) \<or> (\<forall>(n, x) \<in> set ts. \<not> is_write (fst x)))
    \<and> (s \<noteq> ''Closed'' \<longrightarrow> ts \<noteq> [] \<and>
         (if is_write (fst (snd (hd ts))) then cb = unary_callback_optree s
          else generate_read_state_callback ts = Some cb))"
proof -
  from assms(1) obtain k where c: "construct_transitions ts [] None = Inr (Some (m, k))"
    and k: "s \<noteq> ''Closed'' \<longrightarrow> (case (case k of None \<Rightarrow> Read | Some k \<Rightarrow> k) of
        Write \<Rightarrow> cb = unary_callback_optree s | Read \<Rightarrow> generate_read_state_callback ts = Some cb)"
    by (auto simp: construct_state_info_def gen_bind_eq_Some split: if_splits transition_type.splits option.splits)
  note t = construct_transitions_targets [OF c assms(2)]
  have "generate_read_state_callback [] = None" by (simp add: generate_read_state_callback_def)
  with t k show ?thesis
    by (cases ts) (auto split: option.splits transition_type.splits if_splits)
qed

lemma construct_states_targets:
  "construct_states ss m = Inr (Some m') \<Longrightarrow> distinct (map fst ss) \<Longrightarrow>
     map_of m' s = (case map_of ss s of
        Some ts \<Rightarrow> (case construct_state_info s ts of Inr x \<Rightarrow> x | Inl e \<Rightarrow> None)
      | None \<Rightarrow> map_of m s)
     \<and> (\<forall>ts. map_of ss s = Some ts \<longrightarrow> (\<exists>i. construct_state_info s ts = Inr (Some i)))"
proof (induction ss m rule: construct_states.induct)
  case (2 s' ts ss m)
  then obtain i where i: "construct_state_info s' ts = Inr (Some i)"
    and c: "construct_states ss (AList.update s' i m) = Inr (Some m')"
    by (auto simp: gen_bind_eq_Some)
  have d: "distinct (map fst ss)" "map_of ss s' = None" using 2(3) by (auto simp: map_of_eq_None_iff)
  with "2.IH" [of i] i c show ?case by (auto simp: AList.update_conv' split: option.split)
qed simp

text \<open>What the state map holds for a state of the agent.\<close>

definition follows_state :: "state_map \<Rightarrow> string \<Rightarrow> state_transitions \<Rightarrow> bool" where
  "follows_state m s ts \<longleftrightarrow> (\<exists>cb tm. map_of m s = Some (StateInfo cb tm)
     \<and> (\<forall>n. map_option ti_target_state (map_of tm n) = map_option snd (map_of ts n))
     \<and> ((\<forall>(n, x) \<in> set ts. is_write (fst x)) \<or> (\<forall>(n, x) \<in> set ts. \<not> is_write (fst x)))
     \<and> (s \<noteq> ''Closed'' \<longrightarrow> ts \<noteq> [] \<and>
          (if is_write (fst (snd (hd ts))) then cb = unary_callback_optree s
           else generate_read_state_callback ts = Some cb)))"

text \<open>C21: The generated tree is a state machine over the analysed states: under each name a state
  has exactly the agent's transitions, with the agent's targets; the transitions of a state are
  all writes or all reads; and a state other than \<open>Closed\<close> has transitions, and calls back the
  application under its own name when they are writes, or looks ahead in the input when they
  are reads.\<close>

theorem generated_machine_follows_agent:
  assumes "agent_optree a = Inr (Some t)" and "distinct (map fst (ag_states a))"
    and "\<forall>(s, ts) \<in> set (ag_states a). distinct (map fst ts)"
  shows "\<exists>m. t = OpTree (OpTreeNode (Op_StateMachineOperation m) []) \<and>
    (\<forall>s. case map_of (ag_states a) s of None \<Rightarrow> map_of m s = None | Some ts \<Rightarrow> follows_state m s ts)"
proof -
  from assms(1) obtain m where m: "construct_states (ag_states a) [] = Inr (Some m)"
    and t: "t = OpTree (OpTreeNode (Op_StateMachineOperation m) [])"
    by (auto simp: agent_optree_def construct_state_map_def gen_bind_eq_Some split: if_splits)
  have "case map_of (ag_states a) s of None \<Rightarrow> map_of m s = None | Some ts \<Rightarrow> follows_state m s ts" for s
  proof (cases "map_of (ag_states a) s")
    case None
    with construct_states_targets [OF m assms(2), of s] show ?thesis by simp
  next
    case (Some ts)
    then have d: "distinct (map fst ts)" using assms(3) by (auto dest: map_of_SomeD)
    from construct_states_targets [OF m assms(2), of s] Some obtain i where
      i: "construct_state_info s ts = Inr (Some i)" "map_of m s = Some i" by auto
    obtain cb tm where "i = StateInfo cb tm" by (cases i)
    with i Some construct_state_info_targets [of s ts cb tm, OF _ d] show ?thesis by (simp add: follows_state_def)
  qed
  with t show ?thesis by blast
qed

theorem generated_machine_follows_agent_witness:
  "\<exists>a t m ts. analyze_agent [(''Hello'', hello)] ''Client'' = Some a \<and> agent_optree a = Inr (Some t)
     \<and> t = OpTree (OpTreeNode (Op_StateMachineOperation m) [])
     \<and> map_of ts ''Hello'' \<noteq> None \<and> follows_state m ''Open'' ts"
proof -
  obtain a where a: "analyze_agent [(''Hello'', hello)] ''Client'' = Some a"
    by (simp add: analyze_agent_def analyze_message_def analyze_write_message_def write_tokens_def
        write_token_sequence_def)
  have st: "ag_states a = hello_states" using a by (rule hello_agent)
  obtain t where t: "agent_optree a = Inr (Some t)" using hello_agent_optree [OF st] by blast
  have "distinct (map fst (ag_states a))" "\<forall>(s, ts) \<in> set (ag_states a). distinct (map fst ts)"
    by (simp_all add: st)
  from generated_machine_follows_agent [OF t this] obtain m where
    m: "t = OpTree (OpTreeNode (Op_StateMachineOperation m) [])"
    and all: "\<forall>s. case map_of (ag_states a) s of None \<Rightarrow> map_of m s = None | Some ts \<Rightarrow> follows_state m s ts"
    by blast
  from all [THEN spec, of "''Open''"] have "follows_state m ''Open'' (snd (hd hello_states))" by (simp add: st)
  moreover have "map_of (snd (hd hello_states)) ''Hello'' \<noteq> None" by simp
  ultimately show ?thesis using a t m by blast
qed

text \<open>A message that closes the connection is never read: in a state all of whose messages
  lead to \<open>Closed\<close>, any octet that arrives, be it the message's own, makes the generated
  lookahead answer with a protocol mismatch; only the end of the input is accepted.\<close>

theorem closing_message_never_read:
  assumes "generate_read_state_callback ts = Some t" and "\<forall>(n, x) \<in> set ts. snd x = ''Closed''"
  shows "\<exists>cs. t = OpTree (OpTreeNode Op_DynamicList
       [OpTreeNode (Op_TransitionLookahead cs) [], OpTreeNode (Op_LexicalPadGet ''dictionary'') []])
    \<and> (\<forall>c. transition_lookahead_run cs c =
          (if io_buffer c \<noteq> [] then mismatch
           else if io_eof c then ResValue (VOctets (fst (hd ts))) else ResBlocked WaitingForRead))"
proof -
  have conds: "read_state_conditions ts = Some (map (\<lambda>(n, x). (EOFCondition, n)) ts)"
    using assms(2) by (induction ts rule: read_state_conditions.induct) auto
  have scan: "io_buffer c \<noteq> [] \<Longrightarrow> scan_conditions c (map (\<lambda>(n, x). (EOFCondition, n)) ts) b = (None, b)" for c b
    by (induction ts arbitrary: b) auto
  have wait: "io_buffer c = [] \<Longrightarrow> \<not> io_eof c \<Longrightarrow>
      scan_conditions c (map (\<lambda>(n, x). (EOFCondition, n)) us) False = (None, False)" for c and us :: state_transitions
    by (induction us) auto
  from assms(1) conds obtain p ps where ts: "ts = p # ps" by (cases ts) (auto simp: generate_read_state_callback_def)
  then have "t = OpTree (OpTreeNode Op_DynamicList
      [OpTreeNode (Op_TransitionLookahead (map (\<lambda>(n, x). (EOFCondition, n)) ts)) [], OpTreeNode (Op_LexicalPadGet ''dictionary'') []])"
    using assms(1) conds by (auto simp: generate_read_state_callback_def)
  moreover have "transition_lookahead_run (map (\<lambda>(n, x). (EOFCondition, n)) ts) c =
      (if io_buffer c \<noteq> [] then mismatch
       else if io_eof c then ResValue (VOctets (fst (hd ts))) else ResBlocked WaitingForRead)" for c
    using scan [of c True] wait [of c ps] by (auto simp: transition_lookahead_run_def ts split: prod.splits)
  ultimately show ?thesis by blast
qed

theorem closing_message_never_read_witness:
  "\<exists>t cs. generate_read_state_callback [(''Bye'', (ReadTransition \<lparr>tr_data = [], tr_actions = [ReadStaticOctets ''bye'']\<rparr>, ''Closed''))]
       = Some t \<and> transition_lookahead_run cs (init_io\<lparr>io_buffer := ''bye''\<rparr>) = mismatch"
proof -
  let ?ts = "[(''Bye'', (ReadTransition \<lparr>tr_data = [], tr_actions = [ReadStaticOctets ''bye'']\<rparr>, ''Closed''))]"
  obtain t where t: "generate_read_state_callback ?ts = Some t" by (simp add: generate_read_state_callback_def)
  from closing_message_never_read [OF t] obtain cs where "\<forall>c. transition_lookahead_run cs c =
      (if io_buffer c \<noteq> [] then mismatch
       else if io_eof c then ResValue (VOctets (fst (hd ?ts))) else ResBlocked WaitingForRead)" by auto
  then have "transition_lookahead_run cs (init_io\<lparr>io_buffer := ''bye''\<rparr>) = mismatch" by simp
  with t show ?thesis by blast
qed

end
