(* ===== verification/Grammar.thy ===== *)
theory Grammar
  imports ParseTree "HOL-Library.Monad_Syntax"
begin

text \<open>
  \<open>parser/\<close>: the recursive descent parser. \<open>RecursiveParser::parse\<close> of
  \<open>parser/support/recursiveparser.hpp\<close> decides by overload resolution what to do with the
  nodes matched so far; for each class of \<open>parser/grammar\<close> these decisions are known when the
  code is compiled, and its parser is written here with them made: a token is matched by
  pattern, \<open>recurse_one\<close> and \<open>recurse_maybe\<close> are case distinctions on the other parser's
  answer, \<open>recurse_any\<close> and \<open>recurse_many\<close> are the combinators below. Arguments for which
  no overload exists do not parse. A parser that fails leaves its caller where it was. The
  engine with its overload resolution is in \<open>ParserEngine\<close> and the overloads are in
  \<open>GrammarClasses\<close>; \<open>EngineTheorems\<close> proves that the parsers here are what they compute.
\<close>

section \<open>The engine\<close>

type_synonym 'a parser = "token list \<Rightarrow> ('a \<times> token list) option"

definition map_node :: "('a \<Rightarrow> 'b) \<Rightarrow> 'a parser \<Rightarrow> 'b parser" where
  "map_node f p ts = map_option (\<lambda>(x, r). (f x, r)) (p ts)"

text \<open>\<open>try_parse_any\<close>: the alternatives in turn, each from the same position.\<close>

fun recurse_any :: "'a parser list \<Rightarrow> 'a parser" where
  "recurse_any [] ts = None"
| "recurse_any (p # ps) ts = (case p ts of Some x \<Rightarrow> Some x | None \<Rightarrow> recurse_any ps ts)"

text \<open>
  The loop of \<open>recurse_many\<close>. A node that consumes nothing would be matched for ever; the
  items of the grammar all consume, and then the guard is always true.
\<close>

function recurse_many :: "'a parser \<Rightarrow> token list \<Rightarrow> 'a list \<times> token list" where
  "recurse_many p ts =
     (if ts = [] then ([], [])
      else case p ts of
        None \<Rightarrow> ([], ts)
      | Some (x, r) \<Rightarrow>
          if length r < length ts then (let (xs, r') = recurse_many p r in (x # xs, r'))
          else ([x], r))"
  by pat_completeness auto
termination
  by (relation "measure (\<lambda>(p, ts). length ts)") auto

text \<open>The same with a separator, which is consumed before the next item is tried.\<close>

function recurse_many_separated :: "token \<Rightarrow> 'a parser \<Rightarrow> token list \<Rightarrow> 'a list \<times> token list" where
  "recurse_many_separated sep p ts =
     (if ts = [] then ([], [])
      else case p ts of
        None \<Rightarrow> ([], ts)
      | Some (x, r) \<Rightarrow>
          if r \<noteq> [] \<and> hd r = sep \<and> length r \<le> length ts
          then (let (xs, r') = recurse_many_separated sep p (tl r) in (x # xs, r'))
          else ([x], r))"
  by pat_completeness auto
termination
  by (relation "measure (\<lambda>(sep, p, ts). length ts)") (auto simp: neq_Nil_conv)

declare recurse_many.simps [simp del] recurse_many_separated.simps [simp del]

lemma recurse_any_cong [fundef_cong]:
  "ts = ts' \<Longrightarrow> list_all2 (\<lambda>p q. p ts' = q ts') ps qs \<Longrightarrow> recurse_any ps ts = recurse_any qs ts'"
  by (induction ps arbitrary: qs) (auto simp: list_all2_Cons1 split: option.split)

lemma recurse_many_cong [fundef_cong]:
  assumes "ts = ts'" and "\<And>s. length s \<le> length ts' \<Longrightarrow> p s = q s"
  shows "recurse_many p ts = recurse_many q ts'"
  using assms(2) unfolding assms(1)
proof (induction p ts' rule: recurse_many.induct)
  case (1 p ts)
  show ?case
  proof (cases "ts = [] \<or> p ts = None")
    case True
    with "1.prems" [of ts] show ?thesis by (auto simp: recurse_many.simps [of _ ts])
  next
    case False
    then obtain x r where x: "ts \<noteq> []" "p ts = Some (x, r)" by auto
    have "recurse_many p r = recurse_many q r" if "length r < length ts"
      by (rule "1.IH" [OF x(1,2) refl that]) (use "1.prems" that in auto)
    with x "1.prems" [of ts] show ?thesis by (simp add: recurse_many.simps [of _ ts])
  qed
qed

lemma recurse_many_separated_cong [fundef_cong]:
  assumes "ts = ts'" and "\<And>s. length s \<le> length ts' \<Longrightarrow> p s = q s"
  shows "recurse_many_separated sep p ts = recurse_many_separated sep q ts'"
  using assms(2) unfolding assms(1)
proof (induction sep p ts' rule: recurse_many_separated.induct)
  case (1 sep p ts)
  show ?case
  proof (cases "ts = [] \<or> p ts = None")
    case True
    with "1.prems" [of ts] show ?thesis by (auto simp: recurse_many_separated.simps [of _ _ ts])
  next
    case False
    then obtain x r where x: "ts \<noteq> []" "p ts = Some (x, r)" by auto
    have "recurse_many_separated sep p (tl r) = recurse_many_separated sep q (tl r)"
      if c: "r \<noteq> [] \<and> hd r = sep \<and> length r \<le> length ts"
      by (rule "1.IH" [OF x(1,2) refl c]) (use "1.prems" c in auto)
    with x "1.prems" [of ts] show ?thesis by (simp add: recurse_many_separated.simps [of _ _ ts])
  qed
qed

text \<open>One token, as \<open>partial_match\<close> takes it and the next overload asks for it.\<close>

definition expect :: "token \<Rightarrow> token list \<Rightarrow> token list option" where
  "expect t ts = (case ts of [] \<Rightarrow> None | t' # r \<Rightarrow> if t' = t then Some r else None)"

definition take_identifier :: "string parser" where
  "take_identifier ts = (case ts of T_Identifier i # r \<Rightarrow> Some (i, r) | _ \<Rightarrow> None)"

definition take_string :: "string parser" where
  "take_string ts = (case ts of T_String s # r \<Rightarrow> Some (s, r) | _ \<Rightarrow> None)"

lemma expect_eq_Some [simp]: "expect t ts = Some r \<longleftrightarrow> ts = t # r"
  by (auto simp: expect_def split: list.split)

lemma expect_Cons [simp]: "expect t (t' # r) = (if t' = t then Some r else None)"
  by (simp add: expect_def)

lemma take_identifier_eq_Some [simp]: "take_identifier ts = Some (i, r) \<longleftrightarrow> ts = T_Identifier i # r"
  by (auto simp: take_identifier_def split: list.split token.split)

lemma take_identifier_Cons [simp]: "take_identifier (T_Identifier i # r) = Some (i, r)"
  by (simp add: take_identifier_def)

lemma take_string_eq_Some [simp]: "take_string ts = Some (i, r) \<longleftrightarrow> ts = T_String i # r"
  by (auto simp: take_string_def split: list.split token.split)

lemma take_string_Cons [simp]: "take_string (T_String i # r) = Some (i, r)"
  by (simp add: take_string_def)

section \<open>Identifiers and literals\<close>

text \<open>\<open>IdentifierReference\<close> and \<open>IdentifierMemberAccess\<close>.\<close>

function parse_identifier_reference :: "identifier_reference parser" where
  "parse_identifier_reference ts =
     do {
       (i, r) \<leftarrow> take_identifier ts;
       case (do { r' \<leftarrow> expect T_Dot r; parse_identifier_reference r' }) of
         None \<Rightarrow> Some (IdentifierReference i None, r)
       | Some (m, r') \<Rightarrow> Some (IdentifierReference i (Some m), r')
     }"
  by pat_completeness auto
termination
  by (relation "measure length") auto

declare parse_identifier_reference.simps [simp del]

definition parse_boolean_literal :: "bool parser" where
  "parse_boolean_literal ts = (case ts of T_Boolean b # r \<Rightarrow> Some (b, r) | _ \<Rightarrow> None)"

definition parse_integer_literal :: "int32 parser" where
  "parse_integer_literal ts = (case ts of T_Integer i # r \<Rightarrow> Some (i, r) | _ \<Rightarrow> None)"

definition parse_string_literal :: "string parser" where
  "parse_string_literal ts = take_string ts"

section \<open>Types\<close>

definition parse_type_parameter_value :: "ptype parser \<Rightarrow> type_parameter_value parser" where
  "parse_type_parameter_value p =
     recurse_any [map_node TypeValue p, map_node BooleanLiteral parse_boolean_literal,
       map_node StringLiteral parse_string_literal, map_node IntegerLiteral parse_integer_literal]"

definition parse_type_parameter :: "ptype parser \<Rightarrow> (string \<times> type_parameter_value) parser" where
  "parse_type_parameter p ts =
     do {
       (i, r) \<leftarrow> take_identifier ts;
       r \<leftarrow> expect T_Equal r;
       (v, r) \<leftarrow> parse_type_parameter_value p r;
       Some ((i, v), r)
     }"

definition parse_type_parameters :: "ptype parser \<Rightarrow> type_parameter_map parser" where
  "parse_type_parameters p ts =
     do {
       r \<leftarrow> expect T_AngleBracketOpen ts;
       let (qs, r) = recurse_many_separated T_Comma (parse_type_parameter p) r;
       if qs = [] then None
       else do {
         r \<leftarrow> expect T_AngleBracketClose r;
         Some (map_of_pairs qs, r)
       }
     }"

lemma parse_type_parameter_cong:
  "(\<And>s. length s < length ts \<Longrightarrow> p s = q s) \<Longrightarrow> parse_type_parameter p ts = parse_type_parameter q ts"
  by (auto simp: parse_type_parameter_def parse_type_parameter_value_def map_node_def intro!: bind_option_cong)

lemma parse_type_parameters_cong [fundef_cong]:
  assumes "ts = ts'" and "\<And>s. length s < length ts' \<Longrightarrow> p s = q s"
  shows "parse_type_parameters p ts = parse_type_parameters q ts'"
proof -
  have "recurse_many_separated T_Comma (parse_type_parameter p) r = recurse_many_separated T_Comma (parse_type_parameter q) r"
    if "expect T_AngleBracketOpen ts' = Some r" for r
    by (rule recurse_many_separated_cong [OF refl], rule parse_type_parameter_cong) (use assms that in auto)
  with assms(1) show ?thesis by (auto simp: parse_type_parameters_def intro!: bind_option_cong)
qed

function parse_type :: "ptype parser" where
  "parse_type ts =
     do {
       (i, r) \<leftarrow> take_identifier ts;
       case parse_type_parameters parse_type r of
         None \<Rightarrow> Some (Type (IdentifierReference i None) [], r)
       | Some (m, r') \<Rightarrow> Some (Type (IdentifierReference i None) m, r')
     }"
  by pat_completeness auto
termination
  by (relation "measure length") auto

declare parse_type.simps [simp del]

section \<open>Parts of a message\<close>

definition parse_token_part :: "token_part parser" where
  "parse_token_part = recurse_any [map_node TokenString parse_string_literal,
     map_node TokenIdentifier parse_identifier_reference]"

definition parse_escape_replacement :: "escape_replacement parser" where
  "parse_escape_replacement ts =
     do {
       (i, r) \<leftarrow> take_identifier ts;
       if i \<noteq> ''replace'' then None
       else do {
         r \<leftarrow> expect T_AngleBracketOpen r;
         (c, r) \<leftarrow> take_string r;
         r \<leftarrow> expect T_Comma r;
         (s, r) \<leftarrow> take_string r;
         r \<leftarrow> expect T_AngleBracketClose r;
         Some (\<lparr>er_character = c, er_sequence = s\<rparr>, r)
       }
     }"

definition parse_option_value :: "token_sequence_option_value parser" where
  "parse_option_value = recurse_any [map_node OptionString parse_string_literal,
     map_node OptionEscape parse_escape_replacement]"

text \<open>The name of an option: an identifier, or the keyword \<open>terminator\<close>.\<close>

definition parse_option_name :: "string parser" where
  "parse_option_name ts =
     (case ts of
        T_Identifier i # r \<Rightarrow> Some (i, r)
      | T_Terminator # r \<Rightarrow> Some (''terminator'', r)
      | _ \<Rightarrow> None)"

definition parse_option :: "(string \<times> token_sequence_option_value) parser" where
  "parse_option ts =
     do {
       (i, r) \<leftarrow> parse_option_name ts;
       r \<leftarrow> expect T_Equal r;
       (v, r) \<leftarrow> parse_option_value r;
       Some ((i, v), r)
     }"

definition parse_options :: "token_sequence_options parser" where
  "parse_options ts =
     do {
       r \<leftarrow> expect T_AngleBracketOpen ts;
       let (qs, r) = recurse_many_separated T_Comma parse_option r;
       if qs = [] then None
       else do {
         r \<leftarrow> expect T_AngleBracketClose r;
         Some (map_of_pairs qs, r)
       }
     }"

definition parse_token_block :: "token_part list parser" where
  "parse_token_block ts =
     do {
       r \<leftarrow> expect T_CurlyBraceOpen ts;
       let (qs, r) = recurse_many parse_token_part r;
       if qs = [] then None
       else do {
         r \<leftarrow> expect T_CurlyBraceClose r;
         Some (qs, r)
       }
     }"

definition option_terminator :: "token_sequence_options \<Rightarrow> string option" where
  "option_terminator m = (case map_of m ''terminator'' of Some (OptionString s) \<Rightarrow> Some s | _ \<Rightarrow> None)"

definition option_escape :: "token_sequence_options \<Rightarrow> escape_replacement option" where
  "option_escape m = (case map_of m ''escape'' of Some (OptionEscape e) \<Rightarrow> Some e | _ \<Rightarrow> None)"

definition parse_token_sequence :: "token_sequence parser" where
  "parse_token_sequence ts =
     do {
       r \<leftarrow> expect T_Tokens ts;
       case parse_options r of
         None \<Rightarrow> map_node (\<lambda>ps. \<lparr>ts_tokens = ps, ts_terminator = None, ts_escape = None\<rparr>) parse_token_block r
       | Some (m, r') \<Rightarrow>
           map_node (\<lambda>ps. \<lparr>ts_tokens = ps, ts_terminator = option_terminator m, ts_escape = option_escape m\<rparr>)
             parse_token_block r'
     }"

definition parse_terminator :: "string parser" where
  "parse_terminator ts =
     do {
       r \<leftarrow> expect T_Terminator ts;
       r \<leftarrow> expect T_CurlyBraceOpen r;
       (s, r) \<leftarrow> parse_string_literal r;
       r \<leftarrow> expect T_CurlyBraceClose r;
       Some (s, r)
     }"

text \<open>
  \<open>MessageForLoop\<close>. The options parse to a pointer to a constant map, and the overloads for a
  loop with options take a pointer to a map that is not constant: there is no match.
\<close>

definition parse_for_loop :: "message_sequence parser \<Rightarrow> message_part parser" where
  "parse_for_loop p ts =
     do {
       r \<leftarrow> expect T_For ts;
       if parse_options r \<noteq> None then None
       else do {
         (v, r) \<leftarrow> parse_identifier_reference r;
         r \<leftarrow> expect T_In r;
         (c, r) \<leftarrow> parse_identifier_reference r;
         r \<leftarrow> expect T_CurlyBraceOpen r;
         (block, r) \<leftarrow> p r;
         r \<leftarrow> expect T_CurlyBraceClose r;
         Some (PartForLoop v c block None, r)
       }
     }"

definition parse_message_part :: "message_sequence parser \<Rightarrow> message_part parser" where
  "parse_message_part p = recurse_any [map_node PartTokens parse_token_sequence,
     map_node PartTerminator parse_terminator, parse_for_loop p]"

text \<open>Every item of the grammar consumes a token: then the loops end, and the guard holds.\<close>

lemma parse_identifier_reference_shorter:
  "parse_identifier_reference ts = Some (x, r) \<Longrightarrow> length r < length ts"
proof (induction ts arbitrary: x r rule: parse_identifier_reference.induct)
  case (1 ts)
  from "1.prems" obtain i r0 where ts: "ts = T_Identifier i # r0"
    and rest: "(case (do { r' \<leftarrow> expect T_Dot r0; parse_identifier_reference r' }) of
         None \<Rightarrow> Some (IdentifierReference i None, r0)
       | Some (m, r') \<Rightarrow> Some (IdentifierReference i (Some m), r')) = Some (x, r)"
    by (subst (asm) parse_identifier_reference.simps) (auto simp: bind_eq_Some_conv)
  show ?case
  proof (cases "do { r' \<leftarrow> expect T_Dot r0; parse_identifier_reference r' }")
    case None
    with rest ts show ?thesis by simp
  next
    case (Some y)
    then obtain r' where r': "r0 = T_Dot # r'" "parse_identifier_reference r' = Some y"
      by (auto simp: bind_eq_Some_conv)
    with rest Some have "y = (the (id_member x), r)" by (cases y) auto
    with "1.IH" [of "(i, r0)" i r0 r'] r' ts show ?thesis by fastforce
  qed
qed

lemma parse_for_loop_cong:
  assumes "\<And>s. length s < length ts \<Longrightarrow> p s = q s"
  shows "parse_for_loop p ts = parse_for_loop q ts"
proof -
  have "p r2 = q r2"
    if "ts = T_For # r" "parse_identifier_reference r = Some (v, T_In # r1)"
      "parse_identifier_reference r1 = Some (c, T_CurlyBraceOpen # r2)" for v r1 c r2 r
    using assms [of r2] parse_identifier_reference_shorter [OF that(2)]
      parse_identifier_reference_shorter [OF that(3)] that(1) by simp
  then show ?thesis by (auto simp: parse_for_loop_def intro!: bind_option_cong)
qed

lemma parse_message_part_cong [fundef_cong]:
  assumes "ts = ts'" and "\<And>s. length s < length ts' \<Longrightarrow> p s = q s"
  shows "parse_message_part p ts = parse_message_part q ts'"
  using parse_for_loop_cong [of ts' p q] assms by (simp add: parse_message_part_def split: option.split)

function parse_message_sequence :: "message_sequence parser" where
  "parse_message_sequence ts =
     (let (qs, r) = recurse_many (\<lambda>s. parse_message_part parse_message_sequence s) ts in
      if qs = [] then None else Some (qs, r))"
  by pat_completeness auto
termination
  by (relation "measure length") auto

declare parse_message_sequence.simps [simp del]

definition parse_message_parts :: "message_sequence parser" where
  "parse_message_parts ts =
     do {
       r \<leftarrow> expect T_Parts ts;
       r \<leftarrow> expect T_CurlyBraceOpen r;
       (ps, r) \<leftarrow> parse_message_sequence r;
       r \<leftarrow> expect T_CurlyBraceClose r;
       Some (ps, r)
     }"

section \<open>Messages\<close>

definition parse_message_data_pair :: "(string \<times> ptype) parser" where
  "parse_message_data_pair ts =
     do {
       (i, r) \<leftarrow> take_identifier ts;
       r \<leftarrow> expect T_KeyValueSeparator r;
       (t, r) \<leftarrow> parse_type r;
       r \<leftarrow> expect T_StatementEnd r;
       Some ((i, t), r)
     }"

definition parse_message_data :: "message_data parser" where
  "parse_message_data ts =
     do {
       (i, r) \<leftarrow> take_identifier ts;
       if i \<noteq> ''data'' then None
       else do {
         r \<leftarrow> expect T_KeyValueSeparator r;
         r \<leftarrow> expect T_CurlyBraceOpen r;
         let (qs, r) = recurse_many parse_message_data_pair r;
         if qs = [] then None
         else do {
           r \<leftarrow> expect T_CurlyBraceClose r;
           Some (map_of_pairs qs, r)
         }
       }
     }"

text \<open>The loop over the attributes: a later one of the same name wins.\<close>

definition attribute :: "string \<Rightarrow> (string \<times> ptype) list \<Rightarrow> identifier_reference option" where
  "attribute k attributes = map_option type_name (map_of (rev attributes) k)"

definition make_message ::
  "string \<Rightarrow> (string \<times> ptype) list \<Rightarrow> message_data \<Rightarrow> message_sequence \<Rightarrow> message option" where
  "make_message n attributes d ps =
     do {
       w \<leftarrow> attribute ''when'' attributes;
       t \<leftarrow> attribute ''then'' attributes;
       a \<leftarrow> attribute ''agent'' attributes;
       Some \<lparr>msg_name = n, msg_when = w, msg_then = t, msg_agent = a, msg_data = d, msg_parts = ps\<rparr>
     }"

definition parse_message :: "message parser" where
  "parse_message ts =
     do {
       r \<leftarrow> expect T_Message ts;
       (n, r) \<leftarrow> parse_string_literal r;
       r \<leftarrow> expect T_CurlyBraceOpen r;
       let (attributes, r) = recurse_many parse_message_data_pair r;
       if attributes = [] then None
       else case parse_message_data r of
         None \<Rightarrow>
           do {
             r \<leftarrow> expect T_CurlyBraceClose r;
             m \<leftarrow> make_message n attributes [] [];
             Some (m, r)
           }
       | Some (d, r) \<Rightarrow>
           do {
             (ps, r) \<leftarrow> parse_message_parts r;
             r \<leftarrow> expect T_CurlyBraceClose r;
             m \<leftarrow> make_message n attributes d ps;
             Some (m, r)
           }
     }"

definition parse_protocol_description :: "protocol_description parser" where
  "parse_protocol_description ts =
     (let (messages, r) = recurse_many parse_message ts in
      if messages = [] then None
      else Some (map_of_pairs (map (\<lambda>m. (msg_name m, m)) messages), r))"

text \<open>\<open>parse.cpp\<close>: the whole input has to be used.\<close>

definition parse :: "token list \<Rightarrow> protocol_description option" where
  "parse ts = (case parse_protocol_description ts of Some (p, []) \<Rightarrow> Some p | _ \<Rightarrow> None)"

end
