(* ===== verification/GrammarLemmas.thy ===== *)
theory GrammarLemmas
  imports Grammar
begin

text \<open>
  What the items of a repetition owe to \<open>recurse_many\<close>: that each consumes a token. The laws
  of the loops are proved from that once, and the items of the grammar are shown to keep it.
\<close>

section \<open>Repetition of consuming items\<close>

locale item_parser =
  fixes p :: "'a parser"
  assumes consumes: "p ts = Some (x, r) \<Longrightarrow> length r < length ts"
begin

lemma none_at_end: "p [] = None"
proof (cases "p []")
  case (Some y)
  then show ?thesis using consumes [of "[]" "fst y" "snd y"] by simp
qed

lemma many_unfold:
  "recurse_many p ts =
     (case p ts of None \<Rightarrow> ([], ts) | Some (x, r) \<Rightarrow> (let (xs, r') = recurse_many p r in (x # xs, r')))"
  using consumes [of ts] by (auto simp: recurse_many.simps [of p ts] none_at_end split: option.split)

lemma many_shorter: "recurse_many p ts = (xs, r) \<Longrightarrow> length r + length xs \<le> length ts"
proof (induction ts arbitrary: xs r rule: measure_induct_rule [of length])
  case (less ts)
  show ?case
  proof (cases "p ts")
    case None
    with less.prems show ?thesis by (simp add: many_unfold [of ts])
  next
    case (Some y)
    obtain x s where y: "y = (x, s)" by (cases y)
    obtain ys r' where ys: "recurse_many p s = (ys, r')" by (cases "recurse_many p s")
    have "length s < length ts" using consumes Some y by simp
    moreover from less.IH [OF this ys] have "length r' + length ys \<le> length s" .
    ultimately show ?thesis using less.prems Some y ys by (auto simp: many_unfold [of ts])
  qed
qed

lemma many_items: "recurse_many p ts = (xs, r) \<Longrightarrow> x \<in> set xs \<Longrightarrow>
    \<exists>s s'. p s = Some (x, s') \<and> length s \<le> length ts"
proof (induction ts arbitrary: xs r rule: measure_induct_rule [of length])
  case (less ts)
  show ?case
  proof (cases "p ts")
    case None
    with less.prems show ?thesis by (simp add: many_unfold [of ts])
  next
    case (Some y)
    obtain z s where y: "y = (z, s)" by (cases y)
    obtain ys r' where ys: "recurse_many p s = (ys, r')" by (cases "recurse_many p s")
    have "xs = z # ys" using less.prems(1) Some y ys by (simp add: many_unfold [of ts])
    then have "x = z \<or> x \<in> set ys" using less.prems(2) by auto
    moreover have "length s < length ts" using consumes [of ts z s] Some y by simp
    ultimately show ?thesis using less.IH [OF _ ys] Some y by (meson le_refl less_imp_le_nat order.trans)
  qed
qed

lemma many_of_items:
  assumes "\<And>x s. x \<in> set xs \<Longrightarrow> follow s \<Longrightarrow> p (f x @ s) = Some (x, s) \<and> follow (f x @ s)"
    and "follow r" and "p r = None"
  shows "recurse_many p (concat (map f xs) @ r) = (xs, r)"
proof -
  have "recurse_many p (concat (map f xs) @ r) = (xs, r) \<and> follow (concat (map f xs) @ r)"
    using assms(1)
  proof (induction xs)
    case Nil
    then show ?case by (simp add: many_unfold [of r] assms(2,3))
  next
    case (Cons x xs)
    then show ?case by (simp add: many_unfold [of "f x @ _"])
  qed
  then show ?thesis by blast
qed

lemma separated_unfold:
  "recurse_many_separated sep p ts =
     (case p ts of
        None \<Rightarrow> ([], ts)
      | Some (x, r) \<Rightarrow>
          if r \<noteq> [] \<and> hd r = sep then (let (xs, r') = recurse_many_separated sep p (tl r) in (x # xs, r'))
          else ([x], r))"
  using consumes [of ts]
  by (auto simp: recurse_many_separated.simps [of sep p ts] none_at_end split: option.split)

lemma separated_shorter: "recurse_many_separated sep p ts = (xs, r) \<Longrightarrow> length r + length xs \<le> length ts"
proof (induction ts arbitrary: xs r rule: measure_induct_rule [of length])
  case (less ts)
  show ?case
  proof (cases "p ts")
    case None
    with less.prems show ?thesis by (simp add: separated_unfold [of _ ts])
  next
    case (Some y)
    obtain x s where y: "y = (x, s)" by (cases y)
    obtain ys r' where ys: "recurse_many_separated sep p (tl s) = (ys, r')"
      by (cases "recurse_many_separated sep p (tl s)")
    have s: "length s < length ts" using consumes Some y by simp
    show ?thesis
    proof (cases "s \<noteq> [] \<and> hd s = sep")
      case True
      have "length (tl s) < length ts" using s by simp
      from less.IH [OF this ys] True less.prems Some y ys s show ?thesis
        by (auto simp: separated_unfold [of _ ts] neq_Nil_conv)
    next
      case False
      with less.prems Some y s show ?thesis by (auto simp: separated_unfold [of _ ts] Suc_le_eq)
    qed
  qed
qed

lemma separated_items: "recurse_many_separated sep p ts = (xs, r) \<Longrightarrow> x \<in> set xs \<Longrightarrow>
    \<exists>s s'. p s = Some (x, s') \<and> length s \<le> length ts"
proof (induction ts arbitrary: xs r rule: measure_induct_rule [of length])
  case (less ts)
  show ?case
  proof (cases "p ts")
    case None
    with less.prems show ?thesis by (simp add: separated_unfold [of _ ts])
  next
    case (Some y)
    obtain z s where y: "y = (z, s)" by (cases y)
    obtain ys r' where ys: "recurse_many_separated sep p (tl s) = (ys, r')"
      by (cases "recurse_many_separated sep p (tl s)")
    have sh: "length (tl s) < length ts" using consumes [of ts z s] Some y by simp
    note ih = less.IH [OF sh ys]
    have "x = z \<or> x \<in> set ys"
      using less.prems Some y ys by (auto simp: separated_unfold [of _ ts] split: if_splits)
    with ih sh Some y show ?thesis by (meson le_refl less_imp_le_nat order.trans)
  qed
qed

end

text \<open>The same for the items of a repetition and for their tokens, with a separator.\<close>

fun separated :: "'b \<Rightarrow> ('a \<Rightarrow> 'b list) \<Rightarrow> 'a list \<Rightarrow> 'b list" where
  "separated sep f [] = []"
| "separated sep f [x] = f x"
| "separated sep f (x # xs) = f x @ sep # separated sep f xs"

context item_parser
begin

lemma separated_of_items:
  assumes "\<And>x s. x \<in> set xs \<Longrightarrow> s \<noteq> [] \<and> hd s \<in> {sep, close} \<Longrightarrow> p (f x @ s) = Some (x, s)"
    and "xs \<noteq> []" and "close \<noteq> sep"
  shows "recurse_many_separated sep p (separated sep f xs @ close # r) = (xs, close # r)"
  using assms
proof (induction sep f xs rule: separated.induct)
  case (2 sep f x)
  then show ?case by (simp add: separated_unfold [of _ "f x @ _"])
next
  case (3 sep f x y ys)
  then have "recurse_many_separated sep p (separated sep f (y # ys) @ close # r) = (y # ys, close # r)" by simp
  with 3(2) show ?case by (simp add: separated_unfold [of _ "f x @ _"])
qed simp

end

section \<open>The items of the grammar\<close>

definition shortens :: "'a parser \<Rightarrow> bool" where
  "shortens p \<longleftrightarrow> (\<forall>ts x r. p ts = Some (x, r) \<longrightarrow> length r < length ts)"

lemma shortens_item: "shortens p \<Longrightarrow> item_parser p"
  by unfold_locales (auto simp: shortens_def)

lemma shortens_any: "\<forall>p \<in> set ps. shortens p \<Longrightarrow> shortens (recurse_any ps)"
  by (induction ps) (auto simp: shortens_def split: option.splits)

lemma shortens_map: "shortens p \<Longrightarrow> shortens (map_node f p)"
  by (auto simp: shortens_def map_node_def)

lemma shortens_string: "shortens parse_string_literal"
  by (auto simp: shortens_def parse_string_literal_def)

lemma shortens_boolean: "shortens parse_boolean_literal"
  by (auto simp: shortens_def parse_boolean_literal_def split: list.splits token.splits)

lemma shortens_integer: "shortens parse_integer_literal"
  by (auto simp: shortens_def parse_integer_literal_def split: list.splits token.splits)

lemma shortens_identifier: "shortens parse_identifier_reference"
  by (auto simp: shortens_def parse_identifier_reference_shorter)

lemmas shortens_literals = shortens_string shortens_boolean shortens_integer shortens_identifier

lemma shortens_token_part: "shortens parse_token_part"
  unfolding parse_token_part_def by (rule shortens_any) (simp add: shortens_map shortens_literals)

interpretation token_part: item_parser parse_token_part
  by (rule shortens_item, rule shortens_token_part)

lemma shortens_escape: "shortens parse_escape_replacement"
  by (auto simp: shortens_def parse_escape_replacement_def bind_eq_Some_conv split: if_splits)

lemma shortens_option_value: "shortens parse_option_value"
  unfolding parse_option_value_def by (rule shortens_any) (simp add: shortens_map shortens_literals shortens_escape)

lemma parse_option_name_shorter: "parse_option_name ts = Some (x, r) \<Longrightarrow> length r < length ts"
  by (auto simp: parse_option_name_def split: list.splits token.splits)

lemma shortens_option: "shortens parse_option"
  using shortens_option_value
  by (fastforce simp: shortens_def parse_option_def bind_eq_Some_conv dest: parse_option_name_shorter)

interpretation option_item: item_parser parse_option
  by (rule shortens_item, rule shortens_option)

lemma parse_options_eq:
  "parse_options ts = Some (x, r) \<longleftrightarrow>
     (\<exists>r0 qs. ts = T_AngleBracketOpen # r0 \<and> qs \<noteq> [] \<and> x = map_of_pairs qs
        \<and> recurse_many_separated T_Comma parse_option r0 = (qs, T_AngleBracketClose # r))"
  by (auto simp: parse_options_def bind_eq_Some_conv split_beta Let_def prod_eq_iff)

lemma parse_token_block_eq:
  "parse_token_block ts = Some (x, r) \<longleftrightarrow>
     (\<exists>r0. ts = T_CurlyBraceOpen # r0 \<and> x \<noteq> [] \<and> recurse_many parse_token_part r0 = (x, T_CurlyBraceClose # r))"
  by (auto simp: parse_token_block_def bind_eq_Some_conv split_beta Let_def prod_eq_iff)

lemma shortens_options: "shortens parse_options"
  using option_item.separated_shorter by (fastforce simp: shortens_def parse_options_eq)

lemma shortens_token_block: "shortens parse_token_block"
  using token_part.many_shorter by (fastforce simp: shortens_def parse_token_block_eq)

lemma shortens_token_sequence: "shortens parse_token_sequence"
  using shortens_options shortens_token_block
  by (fastforce simp: shortens_def parse_token_sequence_def bind_eq_Some_conv map_node_def split: option.splits)

lemma shortens_terminator: "shortens parse_terminator"
  by (auto simp: shortens_def parse_terminator_def parse_string_literal_def bind_eq_Some_conv)

text \<open>The parsers that take another parser keep what it keeps, up to the length in question.\<close>

lemma parse_type_parameters_eq:
  "parse_type_parameters p ts = Some (x, r) \<longleftrightarrow>
     (\<exists>r0 qs. ts = T_AngleBracketOpen # r0 \<and> qs \<noteq> [] \<and> x = map_of_pairs qs
        \<and> recurse_many_separated T_Comma (parse_type_parameter p) r0 = (qs, T_AngleBracketClose # r))"
  by (auto simp: parse_type_parameters_def bind_eq_Some_conv split_beta Let_def prod_eq_iff)

definition limit :: "nat \<Rightarrow> 'a parser \<Rightarrow> 'a parser" where
  "limit n p ts = (if length ts < n then p ts else None)"

text \<open>Cutting a parser off above a length makes it one that shortens everywhere.\<close>

lemma shortens_limit: "(\<And>ts x r. length ts < n \<Longrightarrow> p ts = Some (x, r) \<Longrightarrow> length r < length ts) \<Longrightarrow> shortens (limit n p)"
  by (auto simp: shortens_def limit_def split: if_splits)

lemma shortens_type_parameter: "shortens p \<Longrightarrow> shortens (parse_type_parameter p)"
proof -
  assume "shortens p"
  then have "shortens (parse_type_parameter_value p)"
    unfolding parse_type_parameter_value_def by (intro shortens_any) (simp add: shortens_map shortens_literals)
  then show ?thesis by (fastforce simp: shortens_def parse_type_parameter_def bind_eq_Some_conv)
qed

lemma shortens_type_parameters:
  assumes "shortens p"
  shows "shortens (parse_type_parameters p)"
  unfolding shortens_def
proof (intro allI impI)
  fix ts x r
  assume "parse_type_parameters p ts = Some (x, r)"
  then obtain r0 qs where "ts = T_AngleBracketOpen # r0"
    and "recurse_many_separated T_Comma (parse_type_parameter p) r0 = (qs, T_AngleBracketClose # r)"
    unfolding parse_type_parameters_eq by blast
  with item_parser.separated_shorter [OF shortens_item [OF shortens_type_parameter [OF assms]], of T_Comma r0]
  show "length r < length ts" by fastforce
qed

lemma parse_type_shorter: "parse_type ts = Some (x, r) \<Longrightarrow> length r < length ts"
proof (induction ts arbitrary: x r rule: measure_induct_rule [of length])
  case (less ts)
  have lim: "shortens (limit (length ts) parse_type)" by (rule shortens_limit) (rule less.IH)
  from less.prems obtain i s where ts: "ts = T_Identifier i # s"
    and rest: "(case parse_type_parameters parse_type s of
         None \<Rightarrow> Some (Type (IdentifierReference i None) [], s)
       | Some (m, r') \<Rightarrow> Some (Type (IdentifierReference i None) m, r')) = Some (x, r)"
    by (subst (asm) parse_type.simps) (auto simp: bind_eq_Some_conv)
  have "parse_type_parameters parse_type s = parse_type_parameters (limit (length ts) parse_type) s"
    by (rule parse_type_parameters_cong) (simp_all add: limit_def ts)
  with rest shortens_type_parameters [OF lim] ts show ?case
    by (fastforce simp: shortens_def split: option.splits)
qed

interpretation type_parameter: item_parser "parse_type_parameter parse_type"
  by (rule shortens_item, rule shortens_type_parameter) (simp add: shortens_def parse_type_shorter)

lemma shortens_for_loop: "shortens p \<Longrightarrow> shortens (parse_for_loop p)"
  by (fastforce simp: shortens_def parse_for_loop_def bind_eq_Some_conv split: if_splits
      dest: parse_identifier_reference_shorter)

lemma shortens_message_part: "shortens p \<Longrightarrow> shortens (parse_message_part p)"
  unfolding parse_message_part_def
  by (rule shortens_any) (simp add: shortens_map shortens_token_sequence shortens_terminator shortens_for_loop)

lemma parse_message_sequence_eq:
  "parse_message_sequence ts = Some (x, r) \<longleftrightarrow>
     x \<noteq> [] \<and> recurse_many (parse_message_part parse_message_sequence) ts = (x, r)"
  by (subst parse_message_sequence.simps) (auto simp: split_beta Let_def prod_eq_iff)

lemma parse_message_sequence_shorter: "parse_message_sequence ts = Some (x, r) \<Longrightarrow> length r < length ts"
proof (induction ts arbitrary: x r rule: measure_induct_rule [of length])
  case (less ts)
  let ?p = "parse_message_part (limit (length ts) parse_message_sequence)"
  have "shortens ?p" by (rule shortens_message_part, rule shortens_limit) (rule less.IH)
  note shorter = item_parser.many_shorter [OF shortens_item [OF this]]
  have "recurse_many (parse_message_part parse_message_sequence) ts = recurse_many ?p ts"
    by (rule recurse_many_cong [OF refl], rule parse_message_part_cong) (simp_all add: limit_def)
  with less.prems shorter [of ts x r] show ?case by (cases x) (simp_all add: parse_message_sequence_eq)
qed

interpretation message_part: item_parser "parse_message_part parse_message_sequence"
  by (rule shortens_item, rule shortens_message_part) (simp add: shortens_def parse_message_sequence_shorter)

lemma shortens_message_parts: "shortens parse_message_parts"
  by (fastforce simp: shortens_def parse_message_parts_def bind_eq_Some_conv dest: parse_message_sequence_shorter)

lemma shortens_data_pair: "shortens parse_message_data_pair"
  by (fastforce simp: shortens_def parse_message_data_pair_def bind_eq_Some_conv dest: parse_type_shorter)

interpretation data_pair: item_parser parse_message_data_pair
  by (rule shortens_item, rule shortens_data_pair)

lemma parse_message_data_eq:
  "parse_message_data ts = Some (x, r) \<longleftrightarrow>
     (\<exists>r0 qs. ts = T_Identifier ''data'' # T_KeyValueSeparator # T_CurlyBraceOpen # r0 \<and> qs \<noteq> [] \<and> x = map_of_pairs qs
        \<and> recurse_many parse_message_data_pair r0 = (qs, T_CurlyBraceClose # r))"
  by (auto simp: parse_message_data_def bind_eq_Some_conv split_beta Let_def prod_eq_iff)

lemma shortens_message_data: "shortens parse_message_data"
  using data_pair.many_shorter by (fastforce simp: shortens_def parse_message_data_eq)

lemma parse_message_cases:
  assumes "parse_message ts = Some (m, r)"
  obtains n r0 attributes r1 where "ts = T_Message # T_String n # T_CurlyBraceOpen # r0"
      "recurse_many parse_message_data_pair r0 = (attributes, r1)" "attributes \<noteq> []"
      "parse_message_data r1 = None" "r1 = T_CurlyBraceClose # r" "make_message n attributes [] [] = Some m"
  | n r0 attributes r1 d r2 ps where "ts = T_Message # T_String n # T_CurlyBraceOpen # r0"
      "recurse_many parse_message_data_pair r0 = (attributes, r1)" "attributes \<noteq> []"
      "parse_message_data r1 = Some (d, r2)" "parse_message_parts r2 = Some (ps, T_CurlyBraceClose # r)"
      "make_message n attributes d ps = Some m"
proof -
  from assms obtain n r0 where ts: "ts = T_Message # T_String n # T_CurlyBraceOpen # r0"
    by (auto simp: parse_message_def parse_string_literal_def bind_eq_Some_conv)
  obtain attributes r1 where at: "recurse_many parse_message_data_pair r0 = (attributes, r1)"
    by (cases "recurse_many parse_message_data_pair r0")
  show thesis
  proof (cases "parse_message_data r1")
    case None
    with assms ts at that(1) show thesis
      by (auto simp: parse_message_def parse_string_literal_def bind_eq_Some_conv split: if_splits)
  next
    case (Some y)
    with assms ts at that(2) show thesis
      by (cases y) (auto simp: parse_message_def parse_string_literal_def bind_eq_Some_conv split: if_splits)
  qed
qed

lemma shortens_message: "shortens parse_message"
  unfolding shortens_def
proof (intro allI impI)
  fix ts m r
  assume "parse_message ts = Some (m, r)"
  then show "length r < length ts"
  proof (cases rule: parse_message_cases)
    case (1 n r0 attributes r1)
    with data_pair.many_shorter [of r0 attributes r1] show ?thesis by simp
  next
    case (2 n r0 attributes r1 d r2 ps)
    with data_pair.many_shorter [of r0 attributes r1] shortens_message_data shortens_message_parts show ?thesis
      by (fastforce simp: shortens_def)
  qed
qed

interpretation message_item: item_parser parse_message
  by (rule shortens_item, rule shortens_message)

end
