(* ===== verification/GrammarTheorems.thy ===== *)
theory GrammarTheorems
  imports GrammarLemmas FrontEndTheorems
begin

text \<open>
  The properties of the parser: it reads back what is printed, what it answers is well formed,
  and the options of a loop are not accepted.
\<close>

section \<open>Printing a parse tree\<close>

lemma separated_cong [fundef_cong]:
  "xs = ys \<Longrightarrow> (\<And>x. x \<in> set ys \<Longrightarrow> f x = g x) \<Longrightarrow> separated sep f xs = separated sep g ys"
  by (induction xs arbitrary: ys rule: induct_list012) auto

fun tokens_of_identifier :: "identifier_reference \<Rightarrow> token list" where
  "tokens_of_identifier (IdentifierReference n None) = [T_Identifier n]"
| "tokens_of_identifier (IdentifierReference n (Some m)) = T_Identifier n # T_Dot # tokens_of_identifier m"

fun tokens_of_type :: "ptype \<Rightarrow> token list" and tokens_of_value :: "type_parameter_value \<Rightarrow> token list" where
  "tokens_of_type (Type n ps) =
     T_Identifier (id_name n) #
     (if ps = [] then []
      else T_AngleBracketOpen # separated T_Comma (\<lambda>(k, v). T_Identifier k # T_Equal # tokens_of_value v) ps
        @ [T_AngleBracketClose])"
| "tokens_of_value (BooleanLiteral b) = [T_Boolean b]"
| "tokens_of_value (IntegerLiteral i) = [T_Integer i]"
| "tokens_of_value (StringLiteral s) = [T_String s]"
| "tokens_of_value (TypeValue t) = tokens_of_type t"

fun tokens_of_token_part :: "token_part \<Rightarrow> token list" where
  "tokens_of_token_part (TokenString s) = [T_String s]"
| "tokens_of_token_part (TokenIdentifier i) = tokens_of_identifier i"

fun tokens_of_option_value :: "token_sequence_option_value \<Rightarrow> token list" where
  "tokens_of_option_value (OptionString s) = [T_String s]"
| "tokens_of_option_value (OptionEscape e) =
     [T_Identifier ''replace'', T_AngleBracketOpen, T_String (er_character e), T_Comma,
      T_String (er_sequence e), T_AngleBracketClose]"

definition token_options :: "token_sequence \<Rightarrow> (string \<times> token_sequence_option_value) list" where
  "token_options s =
     (case ts_terminator s of None \<Rightarrow> [] | Some t \<Rightarrow> [(''terminator'', OptionString t)])
     @ (case ts_escape s of None \<Rightarrow> [] | Some e \<Rightarrow> [(''escape'', OptionEscape e)])"

text \<open>The name of an option, which is a keyword when it is \<open>terminator\<close>.\<close>

definition option_name_token :: "string \<Rightarrow> token" where
  "option_name_token k = (if k = ''terminator'' then T_Terminator else T_Identifier k)"

definition tokens_of_option :: "string \<times> token_sequence_option_value \<Rightarrow> token list" where
  "tokens_of_option p = option_name_token (fst p) # T_Equal # tokens_of_option_value (snd p)"

definition tokens_of_options :: "(string \<times> token_sequence_option_value) list \<Rightarrow> token list" where
  "tokens_of_options os =
     (if os = [] then []
      else T_AngleBracketOpen # separated T_Comma tokens_of_option os @ [T_AngleBracketClose])"

definition tokens_of_token_sequence :: "token_sequence \<Rightarrow> token list" where
  "tokens_of_token_sequence s =
     T_Tokens # tokens_of_options (token_options s)
       @ T_CurlyBraceOpen # concat (map tokens_of_token_part (ts_tokens s)) @ [T_CurlyBraceClose]"

fun tokens_of_part :: "message_part \<Rightarrow> token list" where
  "tokens_of_part (PartTokens s) = tokens_of_token_sequence s"
| "tokens_of_part (PartTerminator t) = [T_Terminator, T_CurlyBraceOpen, T_String t, T_CurlyBraceClose]"
| "tokens_of_part (PartForLoop v c block opt) =
     T_For # tokens_of_identifier v @ T_In # tokens_of_identifier c
       @ T_CurlyBraceOpen # concat (map tokens_of_part block) @ [T_CurlyBraceClose]"

definition tokens_of_data_pair :: "string \<times> ptype \<Rightarrow> token list" where
  "tokens_of_data_pair p = T_Identifier (fst p) # T_KeyValueSeparator # tokens_of_type (snd p) @ [T_StatementEnd]"

definition tokens_of_message :: "message \<Rightarrow> token list" where
  "tokens_of_message m =
     T_Message # T_String (msg_name m) # T_CurlyBraceOpen
     # concat (map tokens_of_data_pair
         [(''when'', Type (msg_when m) []), (''then'', Type (msg_then m) []), (''agent'', Type (msg_agent m) [])])
     @ (if msg_data m = [] then []
        else T_Identifier ''data'' # T_KeyValueSeparator # T_CurlyBraceOpen
          # concat (map tokens_of_data_pair (msg_data m)) @ [T_CurlyBraceClose]
          @ T_Parts # T_CurlyBraceOpen # concat (map tokens_of_part (msg_parts m)) @ [T_CurlyBraceClose])
     @ [T_CurlyBraceClose]"

definition tokens_of_protocol :: "protocol_description \<Rightarrow> token list" where
  "tokens_of_protocol p = concat (map (tokens_of_message \<circ> snd) p)"

section \<open>What can be written in the language\<close>

fun wf_type :: "ptype \<Rightarrow> bool" and wf_type_value :: "type_parameter_value \<Rightarrow> bool" where
  "wf_type (Type n ps) \<longleftrightarrow> id_member n = None \<and> ordered ps \<and> (\<forall>p \<in> set ps. wf_type_value (snd p))"
| "wf_type_value (TypeValue t) \<longleftrightarrow> wf_type t"
| "wf_type_value v \<longleftrightarrow> True"

fun wf_part :: "message_part \<Rightarrow> bool" where
  "wf_part (PartTokens s) \<longleftrightarrow> ts_tokens s \<noteq> []"
| "wf_part (PartTerminator t) \<longleftrightarrow> True"
| "wf_part (PartForLoop v c block opt) \<longleftrightarrow> opt = None \<and> block \<noteq> [] \<and> (\<forall>p \<in> set block. wf_part p)"

definition wf_message :: "message \<Rightarrow> bool" where
  "wf_message m \<longleftrightarrow> id_member (msg_when m) = None \<and> id_member (msg_then m) = None \<and> id_member (msg_agent m) = None
     \<and> (msg_data m = [] \<longleftrightarrow> msg_parts m = []) \<and> ordered (msg_data m) \<and> (\<forall>(k, t) \<in> set (msg_data m). wf_type t)
     \<and> (\<forall>p \<in> set (msg_parts m). wf_part p)"

definition wf_protocol :: "protocol_description \<Rightarrow> bool" where
  "wf_protocol p \<longleftrightarrow> p \<noteq> [] \<and> ordered p \<and> (\<forall>(n, m) \<in> set p. msg_name m = n \<and> wf_message m)"

section \<open>The round trip\<close>

lemma map_emplace_last: "ordered (m @ [(k, v)]) \<Longrightarrow> map_emplace k v m = m @ [(k, v)]"
proof (induction m)
  case (Cons p m)
  obtain k' v' where p: "p = (k', v')" by (cases p)
  from Cons.prems have "ordered (m @ [(k, v)])" "k' < k" by (auto simp: p ordered_def)
  with Cons.IH show ?case by (auto simp: p)
qed simp

lemma map_of_pairs_id: "ordered ps \<Longrightarrow> map_of_pairs ps = ps"
proof -
  have "ordered (m @ ps) \<Longrightarrow> fold (\<lambda>(k, v) m. map_emplace k v m) ps m = m @ ps" for m
  proof (induction ps arbitrary: m)
    case (Cons p ps)
    obtain k v where p: "p = (k, v)" by (cases p)
    have "ordered (m @ [(k, v)])" using Cons.prems by (auto simp: p ordered_def sorted_wrt_append)
    with Cons.IH [of "m @ [(k, v)]"] Cons.prems show ?case by (simp add: p map_emplace_last)
  qed simp
  from this [of "[]"] show "ordered ps \<Longrightarrow> map_of_pairs ps = ps" by (simp add: map_of_pairs_def)
qed

lemma identifier_roundtrip:
  "\<forall>s. r \<noteq> T_Dot # s \<Longrightarrow> parse_identifier_reference (tokens_of_identifier i @ r) = Some (i, r)"
proof (induction i rule: tokens_of_identifier.induct)
  case (1 n)
  then show ?case
    by (subst parse_identifier_reference.simps) (cases "expect T_Dot r"; auto)
next
  case (2 n m)
  then show ?case by (subst parse_identifier_reference.simps) simp
qed

lemma identifier_no_match:
  "\<forall>i s. r \<noteq> T_Identifier i # s \<Longrightarrow> parse_identifier_reference r = None"
  by (subst parse_identifier_reference.simps) (cases "take_identifier r"; auto)

lemma type_no_match: "\<forall>i s. r \<noteq> T_Identifier i # s \<Longrightarrow> parse_type r = None"
  by (subst parse_type.simps) (cases "take_identifier r"; auto)

lemma type_roundtrip:
  "wf_type t \<Longrightarrow> \<forall>s. r \<noteq> T_AngleBracketOpen # s \<Longrightarrow> parse_type (tokens_of_type t @ r) = Some (t, r)"
  "wf_type_value v \<Longrightarrow> \<forall>s. r \<noteq> T_AngleBracketOpen # s \<Longrightarrow>
     parse_type_parameter_value parse_type (tokens_of_value v @ r) = Some (v, r)"
proof (induction t and v arbitrary: r and r rule: tokens_of_type_tokens_of_value.induct)
  case (1 n ps)
  obtain i where n: "n = IdentifierReference i None" using "1.prems"(1) by (cases n) simp
  show ?case
  proof (cases "ps = []")
    case True
    have "parse_type_parameters parse_type r = None"
      using "1.prems"(2) by (cases "expect T_AngleBracketOpen r") (auto simp: parse_type_parameters_def)
    with True n show ?thesis by (subst parse_type.simps) simp
  next
    case False
    let ?f = "\<lambda>(k, v). T_Identifier k # T_Equal # tokens_of_value v"
    have "parse_type_parameter parse_type (?f x @ s) = Some (x, s)"
      if "x \<in> set ps" "s \<noteq> [] \<and> hd s \<in> {T_Comma, T_AngleBracketClose}" for x s
    proof -
      obtain k v where x: "x = (k, v)" by (cases x)
      have "wf_type_value v" using "1.prems"(1) that(1) x by auto
      moreover have "\<forall>s'. s \<noteq> T_AngleBracketOpen # s'" using that(2) by auto
      ultimately have "parse_type_parameter_value parse_type (tokens_of_value v @ s) = Some (v, s)"
        using "1.IH" False that(1) x by blast
      with x show ?thesis by (simp add: parse_type_parameter_def)
    qed
    from type_parameter.separated_of_items [where close = T_AngleBracketClose and r = r, OF this False]
    have "recurse_many_separated T_Comma (parse_type_parameter parse_type)
        (separated T_Comma ?f ps @ T_AngleBracketClose # r) = (ps, T_AngleBracketClose # r)" by simp
    with False n "1.prems"(1) show ?thesis
      by (subst parse_type.simps) (simp add: parse_type_parameters_def map_of_pairs_id)
  qed
next
  case (5 t)
  then have "parse_type (tokens_of_type t @ r) = Some (t, r)" by simp
  then show ?case by (simp add: parse_type_parameter_value_def map_node_def)
qed (simp_all add: parse_type_parameter_value_def map_node_def type_no_match parse_boolean_literal_def
      parse_integer_literal_def parse_string_literal_def take_string_def)

lemma token_part_roundtrip:
  assumes "\<forall>s. r \<noteq> T_Dot # s"
  shows "parse_token_part (tokens_of_token_part p @ r) = Some (p, r) \<and> (\<forall>s. tokens_of_token_part p @ r \<noteq> T_Dot # s)"
proof (cases p)
  case (TokenString s)
  then show ?thesis by (simp add: parse_token_part_def map_node_def parse_string_literal_def)
next
  case (TokenIdentifier i)
  have hd: "\<exists>n s. tokens_of_identifier i @ r = T_Identifier n # s" by (cases i rule: tokens_of_identifier.cases) simp_all
  then have "take_string (tokens_of_identifier i @ r) = None" by (auto simp: take_string_def)
  with TokenIdentifier identifier_roundtrip [OF assms, of i] hd show ?thesis
    by (auto simp: parse_token_part_def map_node_def parse_string_literal_def)
qed

lemma token_block_roundtrip:
  assumes "ps \<noteq> []"
  shows "parse_token_block (T_CurlyBraceOpen # concat (map tokens_of_token_part ps) @ T_CurlyBraceClose # r) = Some (ps, r)"
proof -
  have "parse_token_part (T_CurlyBraceClose # r) = None"
    by (simp add: parse_token_part_def map_node_def parse_string_literal_def take_string_def identifier_no_match)
  then have "recurse_many parse_token_part (concat (map tokens_of_token_part ps) @ T_CurlyBraceClose # r) = (ps, T_CurlyBraceClose # r)"
    by (intro token_part.many_of_items [where follow = "\<lambda>r. \<forall>s. r \<noteq> T_Dot # s"] token_part_roundtrip) auto
  with assms show ?thesis by (simp add: parse_token_block_eq)
qed

lemma option_roundtrip: "parse_option (tokens_of_option p @ r) = Some (p, r)"
  by (cases p; cases "snd p")
    (auto simp: parse_option_def tokens_of_option_def option_name_token_def parse_option_name_def
      parse_option_value_def map_node_def parse_string_literal_def parse_escape_replacement_def take_string_def)

lemma options_roundtrip:
  assumes "os \<noteq> []"
  shows "parse_options (tokens_of_options os @ r) = Some (map_of_pairs os, r)"
proof -
  have "recurse_many_separated T_Comma parse_option (separated T_Comma tokens_of_option os @ T_AngleBracketClose # r)
      = (os, T_AngleBracketClose # r)"
    by (rule option_item.separated_of_items) (simp_all add: option_roundtrip assms)
  with assms show ?thesis by (simp add: parse_options_eq tokens_of_options_def)
qed

lemma options_no_match: "\<forall>s. r \<noteq> T_AngleBracketOpen # s \<Longrightarrow> parse_options r = None"
  by (cases "expect T_AngleBracketOpen r") (auto simp: parse_options_def)

lemma option_terminator_roundtrip: "option_terminator (map_of_pairs (token_options s)) = ts_terminator s"
  by (simp add: option_terminator_def map_of_map_of_pairs token_options_def map_add_def split: option.split)

lemma option_escape_roundtrip: "option_escape (map_of_pairs (token_options s)) = ts_escape s"
  by (simp add: option_escape_def map_of_map_of_pairs token_options_def map_add_def split: option.split)

lemma token_sequence_roundtrip:
  assumes "ts_tokens s \<noteq> []"
  shows "parse_token_sequence (tokens_of_token_sequence s @ r) = Some (s, r)"
proof (cases "token_options s = []")
  case True
  then have "ts_terminator s = None" "ts_escape s = None" by (auto simp: token_options_def split: option.splits)
  moreover have "parse_options (T_CurlyBraceOpen # u) = None" for u by (rule options_no_match) simp
  ultimately show ?thesis
    using True token_block_roundtrip [OF assms, of r]
    by (simp add: parse_token_sequence_def tokens_of_token_sequence_def tokens_of_options_def map_node_def)
next
  case False
  from options_roundtrip [OF False] token_block_roundtrip [OF assms, of r] show ?thesis
    by (simp add: parse_token_sequence_def tokens_of_token_sequence_def map_node_def
        option_terminator_roundtrip option_escape_roundtrip)
qed

lemma sequence_of_parts:
  assumes "\<And>p s. p \<in> set ps \<Longrightarrow> parse_message_part parse_message_sequence (tokens_of_part p @ s) = Some (p, s)"
    and "ps \<noteq> []"
  shows "parse_message_sequence (concat (map tokens_of_part ps) @ T_CurlyBraceClose # r) = Some (ps, T_CurlyBraceClose # r)"
proof -
  have "parse_message_part parse_message_sequence (T_CurlyBraceClose # r) = None"
    by (simp add: parse_message_part_def map_node_def parse_token_sequence_def parse_terminator_def parse_for_loop_def)
  then have "recurse_many (parse_message_part parse_message_sequence) (concat (map tokens_of_part ps) @ T_CurlyBraceClose # r)
      = (ps, T_CurlyBraceClose # r)"
    by (intro message_part.many_of_items [where follow = "\<lambda>_. True"]) (simp_all add: assms(1))
  with assms(2) show ?thesis by (simp add: parse_message_sequence_eq)
qed

lemma part_roundtrip: "wf_part p \<Longrightarrow> parse_message_part parse_message_sequence (tokens_of_part p @ r) = Some (p, r)"
proof (induction p arbitrary: r rule: wf_part.induct)
  case (1 s)
  then show ?case by (simp add: parse_message_part_def map_node_def token_sequence_roundtrip)
next
  case (2 t)
  then show ?case
    by (simp add: parse_message_part_def map_node_def parse_token_sequence_def parse_terminator_def parse_string_literal_def)
next
  case (3 v c block opt)
  have seq: "parse_message_sequence (concat (map tokens_of_part block) @ T_CurlyBraceClose # r) = Some (block, T_CurlyBraceClose # r)"
    by (rule sequence_of_parts) (use 3 in auto)
  have "parse_options (tokens_of_identifier v @ u) = None" for u
    by (rule options_no_match) (cases v rule: tokens_of_identifier.cases; simp)
  with 3(2) seq show ?case
    by (simp add: parse_message_part_def map_node_def parse_token_sequence_def parse_terminator_def
        parse_for_loop_def identifier_roundtrip)
qed

lemma data_pair_roundtrip:
  assumes "wf_type (snd p)"
  shows "parse_message_data_pair (tokens_of_data_pair p @ r) = Some (p, r)"
  using type_roundtrip(1) [OF assms, of "T_StatementEnd # r"]
  by (cases p) (simp add: parse_message_data_pair_def tokens_of_data_pair_def)

lemma data_pairs_roundtrip:
  assumes "\<forall>p \<in> set ps. wf_type (snd p)" and "parse_message_data_pair r = None"
  shows "recurse_many parse_message_data_pair (concat (map tokens_of_data_pair ps) @ r) = (ps, r)"
  using assms by (intro data_pair.many_of_items [where follow = "\<lambda>_. True"]) (simp_all add: data_pair_roundtrip)

lemma make_message_attributes:
  "make_message n [(''when'', Type w []), (''then'', Type t []), (''agent'', Type a [])] d ps =
     Some \<lparr>msg_name = n, msg_when = w, msg_then = t, msg_agent = a, msg_data = d, msg_parts = ps\<rparr>"
  by (simp add: make_message_def attribute_def)

lemma parts_roundtrip:
  assumes "\<forall>p \<in> set ps. wf_part p" and "ps \<noteq> []"
  shows "parse_message_parts (T_Parts # T_CurlyBraceOpen # concat (map tokens_of_part ps) @ T_CurlyBraceClose # r) = Some (ps, r)"
  using sequence_of_parts [OF _ assms(2), of r] assms(1) part_roundtrip by (simp add: parse_message_parts_def)

lemma data_roundtrip:
  assumes "\<forall>(k, t) \<in> set d. wf_type t" and "ordered d" and "d \<noteq> []"
  shows "parse_message_data (T_Identifier ''data'' # T_KeyValueSeparator # T_CurlyBraceOpen
     # concat (map tokens_of_data_pair d) @ T_CurlyBraceClose # r) = Some (d, r)"
proof -
  have "recurse_many parse_message_data_pair (concat (map tokens_of_data_pair d) @ T_CurlyBraceClose # r) = (d, T_CurlyBraceClose # r)"
    by (rule data_pairs_roundtrip) (use assms(1) in \<open>auto simp: parse_message_data_pair_def take_identifier_def\<close>)
  with assms(2,3) show ?thesis by (simp add: parse_message_data_eq map_of_pairs_id)
qed

lemma message_roundtrip:
  assumes "wf_message m"
  shows "parse_message (tokens_of_message m @ r) = Some (m, r)"
proof -
  let ?as = "[(''when'', Type (msg_when m) []), (''then'', Type (msg_then m) []), (''agent'', Type (msg_agent m) [])]"
  have wf: "\<forall>p \<in> set ?as. wf_type (snd p)" using assms by (simp add: wf_message_def ordered_def)
  have no_pair: "parse_message_data_pair (T_CurlyBraceClose # s) = None"
    "parse_message_data_pair (T_Identifier ''data'' # T_KeyValueSeparator # T_CurlyBraceOpen # s) = None" for s
    by (simp_all add: parse_message_data_pair_def take_identifier_def type_no_match)
  show ?thesis
  proof (cases "msg_data m = []")
    case True
    then have "msg_parts m = []" using assms by (simp add: wf_message_def)
    have "recurse_many parse_message_data_pair (concat (map tokens_of_data_pair ?as) @ T_CurlyBraceClose # r) = (?as, T_CurlyBraceClose # r)"
      by (rule data_pairs_roundtrip [OF wf no_pair(1)])
    moreover have "parse_message_data (T_CurlyBraceClose # r) = None" by (simp add: parse_message_data_def take_identifier_def)
    moreover have "tokens_of_message m @ r = T_Message # T_String (msg_name m) # T_CurlyBraceOpen
        # concat (map tokens_of_data_pair ?as) @ T_CurlyBraceClose # r"
      using True by (simp add: tokens_of_message_def)
    ultimately show ?thesis
      using True \<open>msg_parts m = []\<close>
      by (simp only: parse_message_def) (simp add: parse_string_literal_def make_message_attributes del: list.map concat.simps)
  next
    case False
    let ?rest = "T_Parts # T_CurlyBraceOpen # concat (map tokens_of_part (msg_parts m)) @ T_CurlyBraceClose # T_CurlyBraceClose # r"
    let ?d = "T_Identifier ''data'' # T_KeyValueSeparator # T_CurlyBraceOpen
        # concat (map tokens_of_data_pair (msg_data m)) @ T_CurlyBraceClose # ?rest"
    have "recurse_many parse_message_data_pair (concat (map tokens_of_data_pair ?as) @ ?d) = (?as, ?d)"
      by (rule data_pairs_roundtrip [OF wf no_pair(2)])
    moreover have "parse_message_data ?d = Some (msg_data m, ?rest)"
      by (rule data_roundtrip) (use assms False in \<open>auto simp: wf_message_def\<close>)
    moreover have "parse_message_parts ?rest = Some (msg_parts m, T_CurlyBraceClose # r)"
      by (rule parts_roundtrip) (use assms False in \<open>auto simp: wf_message_def\<close>)
    moreover have "tokens_of_message m @ r = T_Message # T_String (msg_name m) # T_CurlyBraceOpen
        # concat (map tokens_of_data_pair ?as) @ ?d"
      using False by (simp add: tokens_of_message_def)
    ultimately show ?thesis
      by (simp only: parse_message_def) (simp add: parse_string_literal_def make_message_attributes del: list.map concat.simps)
  qed
qed

lemma parse_printed:
  assumes "wf_protocol p"
  shows "parse (tokens_of_protocol p) = Some p"
proof -
  have "parse_message [] = None" by (simp add: parse_message_def expect_def)
  moreover have "wf_message m" if "m \<in> snd ` set p" for m using assms that by (auto simp: wf_protocol_def)
  ultimately have "recurse_many parse_message (concat (map tokens_of_message (map snd p)) @ []) = (map snd p, [])"
    by (intro message_item.many_of_items [where follow = "\<lambda>_. True"]) (auto simp: message_roundtrip)
  moreover have "map (\<lambda>m. (msg_name m, m)) (map snd p) = p"
    unfolding map_map by (rule map_idI) (use assms in \<open>auto simp: wf_protocol_def\<close>)
  ultimately show ?thesis
    using assms
    by (simp add: parse_def parse_protocol_description_def tokens_of_protocol_def wf_protocol_def map_of_pairs_id comp_def)
qed

text \<open>C4: The parser reads back every protocol that can be written: printing a well-formed
  protocol and parsing the tokens gives the same protocol.\<close>

theorem parse_print:
  assumes "wf_protocol p"
  shows "parse (tokens_of_protocol p) = Some p"
  using assms by (rule parse_printed)

theorem parse_print_witness:
  "parse (tokens_of_protocol [(''Hello'', hello)]) = Some [(''Hello'', hello)]"
  by (rule parse_print) (simp add: wf_protocol_def wf_message_def ordered_def)

section \<open>What the parser answers\<close>

lemma set_map_emplace: "set (map_emplace k v m) \<subseteq> insert (k, v) (set m)"
  by (induction k v m rule: map_emplace.induct) auto

lemma set_map_of_pairs: "set (map_of_pairs ps) \<subseteq> set ps"
proof -
  have "set (fold (\<lambda>(k, v) m. map_emplace k v m) ps m) \<subseteq> set ps \<union> set m" for m
  proof (induction ps arbitrary: m)
    case (Cons p ps)
    obtain k v where p: "p = (k, v)" by (cases p)
    from Cons.IH [of "map_emplace k v m"] set_map_emplace [of k v m] show ?case by (auto simp: p)
  qed simp
  from this [of "[]"] show ?thesis by (simp add: map_of_pairs_def)
qed

lemma map_of_pairs_nonempty: "ps \<noteq> [] \<Longrightarrow> map_of_pairs ps \<noteq> []"
proof
  assume "ps \<noteq> []" "map_of_pairs ps = []"
  then have "map_of ps (fst (hd ps)) = None" using map_of_map_of_pairs [of ps] by simp
  with \<open>ps \<noteq> []\<close> show False by (cases ps) auto
qed

lemma parse_type_parameter_SomeD:
  "parse_type_parameter p ts = Some (x, r) \<Longrightarrow> \<exists>i s. ts = T_Identifier i # T_Equal # s \<and> fst x = i \<and>
     (parse_type_parameter_value p s = Some (snd x, r))"
  by (auto simp: parse_type_parameter_def bind_eq_Some_conv)

lemma parse_type_parameter_value_cases:
  "parse_type_parameter_value p s = Some (v, r) \<Longrightarrow>
     (\<exists>t. v = TypeValue t \<and> p s = Some (t, r)) \<or> (\<forall>t. v \<noteq> TypeValue t)"
  by (auto simp: parse_type_parameter_value_def map_node_def split: option.splits)

lemma parse_type_wf: "parse_type ts = Some (t, r) \<Longrightarrow> wf_type t"
proof (induction ts arbitrary: t r rule: measure_induct_rule [of length])
  case (less ts)
  from less.prems obtain i s where ts: "ts = T_Identifier i # s"
    and rest: "(case parse_type_parameters parse_type s of
         None \<Rightarrow> Some (Type (IdentifierReference i None) [], s)
       | Some (m, r') \<Rightarrow> Some (Type (IdentifierReference i None) m, r')) = Some (t, r)"
    by (subst (asm) parse_type.simps) (auto simp: bind_eq_Some_conv)
  show ?case
  proof (cases "parse_type_parameters parse_type s")
    case None
    with rest show ?thesis by (auto simp: ordered_def)
  next
    case (Some y)
    with rest obtain m where y: "parse_type_parameters parse_type s = Some (m, r)"
      and t: "t = Type (IdentifierReference i None) m" by (cases y) auto
    from y obtain r0 qs where s: "s = T_AngleBracketOpen # r0" and m: "m = map_of_pairs qs"
      and qs: "recurse_many_separated T_Comma (parse_type_parameter parse_type) r0 = (qs, T_AngleBracketClose # r)"
      by (auto simp: parse_type_parameters_eq)
    have "wf_type_value (snd q)" if q: "q \<in> set qs" for q
    proof -
      from type_parameter.separated_items [OF qs q] obtain u u' where
        u: "parse_type_parameter parse_type u = Some (q, u')" "length u \<le> length r0" by blast
      from parse_type_parameter_SomeD [OF u(1)] obtain w where
        w: "parse_type_parameter_value parse_type w = Some (snd q, u')" "length w < length u" by auto
      then have "length w < length ts" using u(2) ts s by simp
      with parse_type_parameter_value_cases [OF w(1)] less.IH [of w] show ?thesis
        by (cases "snd q") auto
    qed
    moreover have "set m \<subseteq> set qs" unfolding m by (rule set_map_of_pairs)
    ultimately show ?thesis by (auto simp: t m map_of_pairs_ordered)
  qed
qed

lemma parse_part_wf:
  "parse_message_part parse_message_sequence ts = Some (p, r) \<Longrightarrow> wf_part p"
proof (induction ts arbitrary: p r rule: measure_induct_rule [of length])
  case (less ts)
  from less.prems consider
      (tokens) s where "parse_token_sequence ts = Some (s, r)" "p = PartTokens s"
    | (terminator) t where "p = PartTerminator t"
    | (loop) "parse_for_loop parse_message_sequence ts = Some (p, r)"
    by (auto simp: parse_message_part_def map_node_def split: option.splits)
  then show ?case
  proof cases
    case tokens
    then show ?thesis
      by (auto simp: parse_token_sequence_def bind_eq_Some_conv map_node_def parse_token_block_eq split: option.splits)
  next
    case loop
    then obtain r0 v r1 c r2 block where "ts = T_For # r0"
        "parse_identifier_reference r0 = Some (v, T_In # r1)"
        "parse_identifier_reference r1 = Some (c, T_CurlyBraceOpen # r2)"
        "parse_message_sequence r2 = Some (block, T_CurlyBraceClose # r)" "p = PartForLoop v c block None"
      by (auto simp: parse_for_loop_def bind_eq_Some_conv split: if_splits)
    note l = this
    have short: "length r2 < length ts"
      using parse_identifier_reference_shorter [OF l(2)] parse_identifier_reference_shorter [OF l(3)] l(1) by simp
    from l(4) have block: "block \<noteq> []"
        "recurse_many (parse_message_part parse_message_sequence) r2 = (block, T_CurlyBraceClose # r)"
      by (auto simp: parse_message_sequence_eq)
    have "wf_part q" if "q \<in> set block" for q
      using message_part.many_items [OF block(2) that] less.IH short by (meson order.strict_trans1)
    with block(1) l(5) show ?thesis by simp
  qed simp
qed

lemma parse_data_pair_wf: "parse_message_data_pair ts = Some (p, r) \<Longrightarrow> wf_type (snd p)"
  by (auto simp: parse_message_data_pair_def bind_eq_Some_conv dest: parse_type_wf)

lemma type_name_plain: "wf_type t \<Longrightarrow> id_member (type_name t) = None"
  by (cases t) simp

lemma make_message_wf:
  assumes "make_message n as d ps = Some m" and "\<forall>p \<in> set as. wf_type (snd p)"
    and "d = [] \<longleftrightarrow> ps = []" and "ordered d" and "\<forall>q \<in> set d. wf_type (snd q)" and "\<forall>p \<in> set ps. wf_part p"
  shows "wf_message m \<and> msg_name m = n"
proof -
  have "id_member i = None" if "attribute k as = Some i" for k i
  proof -
    from that obtain t where "map_of (rev as) k = Some t" "i = type_name t" by (auto simp: attribute_def)
    with assms(2) show ?thesis by (force dest!: map_of_SomeD intro: type_name_plain)
  qed
  with assms show ?thesis by (auto simp: make_message_def bind_eq_Some_conv wf_message_def split_beta)
qed

lemma parse_message_wf:
  assumes "parse_message ts = Some (m, r)"
  shows "wf_message m"
  using assms
proof (cases rule: parse_message_cases)
  case (1 n r0 as r1)
  have "\<forall>p \<in> set as. wf_type (snd p)" using data_pair.many_items [OF 1(2)] parse_data_pair_wf by blast
  from make_message_wf [OF 1(6) this] show ?thesis by (simp add: ordered_def)
next
  case (2 n r0 as r1 d r2 ps)
  have as: "\<forall>p \<in> set as. wf_type (snd p)" using data_pair.many_items [OF 2(2)] parse_data_pair_wf by blast
  from 2(4) obtain u qs where qs: "qs \<noteq> []" "d = map_of_pairs qs"
      "recurse_many parse_message_data_pair u = (qs, T_CurlyBraceClose # r2)"
    by (auto simp: parse_message_data_eq)
  have "\<forall>p \<in> set qs. wf_type (snd p)" using data_pair.many_items [OF qs(3)] parse_data_pair_wf by blast
  then have d: "\<forall>q \<in> set d. wf_type (snd q)" using set_map_of_pairs [of qs] unfolding qs(2) by blast
  have "d \<noteq> []" unfolding qs(2) by (rule map_of_pairs_nonempty [OF qs(1)])
  moreover from 2(5) obtain u' where u': "ps \<noteq> []"
      "recurse_many (parse_message_part parse_message_sequence) u' = (ps, T_CurlyBraceClose # T_CurlyBraceClose # r)"
    by (auto simp: parse_message_parts_def bind_eq_Some_conv parse_message_sequence_eq)
  moreover have "\<forall>p \<in> set ps. wf_part p" using message_part.many_items [OF u'(2)] parse_part_wf by blast
  ultimately show ?thesis using make_message_wf [OF 2(6) as _ _ d] qs(2) by (simp add: map_of_pairs_ordered)
qed

text \<open>What the parser answers is well formed: the messages are under their names, in order,
  every message has plain state and agent names, and no block of tokens and no loop is empty,
  which is what analysis and the printing of a protocol rely on.\<close>

theorem parse_well_formed:
  assumes "parse ts = Some p"
  shows "wf_protocol p \<and> (\<forall>(n, m) \<in> set p. \<forall>q \<in> set (msg_parts m). tokens_present q)"
proof -
  from assms obtain ms where ms: "recurse_many parse_message ts = (ms, [])" "ms \<noteq> []"
    and p: "p = map_of_pairs (map (\<lambda>m. (msg_name m, m)) ms)"
    by (auto simp: parse_def parse_protocol_description_def split: option.splits list.splits prod.splits if_splits)
  have wf: "\<forall>m \<in> set ms. wf_message m" using message_item.many_items [OF ms(1)] parse_message_wf by blast
  have sub: "set p \<subseteq> set (map (\<lambda>m. (msg_name m, m)) ms)" unfolding p by (rule set_map_of_pairs)
  have "wf_part q \<Longrightarrow> tokens_present q" for q by (induction q rule: wf_part.induct) auto
  then show ?thesis
    using wf sub ms(2) map_of_pairs_nonempty [of "map (\<lambda>m. (msg_name m, m)) ms"]
    by (auto simp: wf_protocol_def p map_of_pairs_ordered wf_message_def)
qed

theorem parse_well_formed_witness:
  "wf_protocol [(''Hello'', hello)]"
proof -
  have "parse (tokens_of_message hello) = Some [(''Hello'', hello)]"
    using message_roundtrip [of hello "[]"] message_item.none_at_end
    by (simp add: parse_def parse_protocol_description_def message_item.many_unfold [of "tokens_of_message hello"]
        message_item.many_unfold [of "[]"] wf_message_def ordered_def map_of_pairs_def)
  from parse_well_formed [OF this] show ?thesis by blast
qed

text \<open>A loop with options has no parse: whatever follows the angle bracket after \<open>for\<close>, the
  part is rejected, although the overloads of \<open>MessageForLoop\<close> are there to read it.\<close>

theorem loop_options_rejected:
  "parse_message_part parse_message_sequence (T_For # T_AngleBracketOpen # r) = None"
proof -
  have "parse_identifier_reference (T_AngleBracketOpen # r) = None" by (rule identifier_no_match) simp
  then show ?thesis
    by (simp add: parse_message_part_def map_node_def parse_token_sequence_def parse_terminator_def parse_for_loop_def)
qed

end
