(* ===== verification/ParserEngine.thy ===== *)
theory ParserEngine
  imports Prelude "HOL-Library.Monad_Syntax"
begin

text \<open>
  \<open>parser/support/recursiveparser.hpp\<close>: \<open>RecursiveParser\<close>, for any set of parser classes. A
  class offers overloads of the static functions \<open>partial_match\<close>,
  \<open>conditional_partial_match\<close>, \<open>recurse_one\<close>, \<open>recurse_maybe\<close>, \<open>recurse_any\<close>,
  \<open>recurse_many\<close> and \<open>match\<close>; \<open>parse\<close> is given what has been matched so far as its
  arguments, and the first of these functions that can be called with them says what to do
  next. A function's overloads are a table here: for each, the types of its parameters (a
  predicate on the argument that is passed) and what a call of it gives. The recursion of
  \<open>parse\<close> need not end for every set of classes: a run that does not is \<open>None\<close>.
\<close>

section \<open>Overloads\<close>

text \<open>
  What \<open>parse\<close> passes on: a token, a node, \<open>std::nullopt\<close>, \<open>EndOfInput\<close>, a vector of nodes
  of one type, and a vector of variants.
\<close>

datatype ('t, 'n) arg =
    Token 't
  | Node 'n
  | Nullopt
  | EndOfInput
  | Nodes "'n list"
  | Variants "'n list"

type_synonym ('t, 'n) param = "('t, 'n) arg \<Rightarrow> bool"
type_synonym ('t, 'n, 'r) overloads = "(('t, 'n) param list \<times> 'r) list"

definition viable :: "('t, 'n) param list \<Rightarrow> ('t, 'n) arg list \<Rightarrow> bool" where
  "viable ps as \<longleftrightarrow> list_all2 (\<lambda>p a. p a) ps as"

text \<open>The call has to be well formed: no overload or more than one, and it is not.\<close>

definition resolve :: "('t, 'n, 'r) overloads \<Rightarrow> ('t, 'n) arg list \<Rightarrow> 'r option" where
  "resolve os as = (case filter (\<lambda>(ps, r). viable ps as) os of [(ps, r)] \<Rightarrow> Some r | _ \<Rightarrow> None)"

text \<open>The static functions of a class.\<close>

record ('c, 't, 'n) parser_class =
  partial_match :: "('t, 'n, unit) overloads"
  conditional_partial_match :: "('t, 'n, ('t, 'n) arg list \<Rightarrow> bool) overloads"
  recurse_one :: "('t, 'n, 'c) overloads"
  recurse_maybe :: "('t, 'n, 'c) overloads"
  recurse_any_of :: "('t, 'n, 'c list) overloads"
  recurse_many_of :: "('t, 'n, 'c) overloads"
  recurse_many_has_separator :: "('t, 'n, unit) overloads"
  recurse_many_separator :: "('t, 'n, unit) overloads"
  match_tokens :: "('t, 'n, ('t, 'n) arg list \<Rightarrow> 'n option) overloads"

text \<open>The classes that refer to each other, and the index of a node in its variant.\<close>

record ('c, 't, 'n) parser_context =
  parser_of :: "'c \<Rightarrow> ('c, 't, 'n) parser_class"
  node_index :: "'n \<Rightarrow> nat"

section \<open>The decision\<close>

text \<open>The chain of \<open>if constexpr\<close>, which looks at the types of the arguments alone.\<close>

datatype ('c, 't, 'n) decision =
    PartialMatch
  | ConditionalMatch "('t, 'n) arg list \<Rightarrow> bool"
  | RecurseOne 'c
  | RecurseMaybe 'c
  | RecurseAny "'c list"
  | RecurseMany 'c
  | Match "('t, 'n) arg list \<Rightarrow> 'n option"
  | Unknown

definition decide :: "('c, 't, 'n) parser_context \<Rightarrow> 'c \<Rightarrow> ('t, 'n) arg list \<Rightarrow> ('c, 't, 'n) decision" where
  "decide G c as =
     (case resolve (partial_match (parser_of G c)) as of Some _ \<Rightarrow> PartialMatch | None \<Rightarrow>
      case resolve (conditional_partial_match (parser_of G c)) as of Some p \<Rightarrow> ConditionalMatch p | None \<Rightarrow>
      case resolve (recurse_one (parser_of G c)) as of Some d \<Rightarrow> RecurseOne d | None \<Rightarrow>
      case resolve (recurse_maybe (parser_of G c)) as of Some d \<Rightarrow> RecurseMaybe d | None \<Rightarrow>
      case resolve (recurse_any_of (parser_of G c)) as of Some ds \<Rightarrow> RecurseAny ds | None \<Rightarrow>
      case resolve (recurse_many_of (parser_of G c)) as of Some d \<Rightarrow> RecurseMany d | None \<Rightarrow>
      case resolve (match_tokens (parser_of G c)) as of Some f \<Rightarrow> Match f | None \<Rightarrow> Unknown)"

definition has_separator :: "('c, 't, 'n) parser_context \<Rightarrow> 'c \<Rightarrow> ('t, 'n) arg list \<Rightarrow> bool" where
  "has_separator G c as \<longleftrightarrow> resolve (recurse_many_has_separator (parser_of G c)) as \<noteq> None"

definition is_separator :: "('c, 't, 'n) parser_context \<Rightarrow> 'c \<Rightarrow> ('t, 'n) arg list \<Rightarrow> 't \<Rightarrow> bool" where
  "is_separator G c as t \<longleftrightarrow> resolve (recurse_many_separator (parser_of G c)) (as @ [Token t]) \<noteq> None"

section \<open>The result of a parser\<close>

record ('t, 'n) parse_state_return =
  psr_node :: "'n option"
  psr_begin :: "'t list"

abbreviation no_node :: "'t list \<Rightarrow> ('t, 'n) parse_state_return" where
  "no_node ts \<equiv> \<lparr>psr_node = None, psr_begin = ts\<rparr>"

fun get_common_variant_index :: "('n \<Rightarrow> nat) \<Rightarrow> 'n list \<Rightarrow> nat option" where
  "get_common_variant_index f [] = None"
| "get_common_variant_index f (n # ns) = (if list_all (\<lambda>m. f m = f n) (n # ns) then Some (f n) else None)"

text \<open>The vector that the nodes of \<open>recurse_many\<close> are passed on as.\<close>

definition node_vector :: "('c, 't, 'n) parser_context \<Rightarrow> 'n list \<Rightarrow> ('t, 'n) arg" where
  "node_vector G ns = (case get_common_variant_index (node_index G) ns of Some _ \<Rightarrow> Nodes ns | None \<Rightarrow> Variants ns)"

section \<open>The recursion\<close>

text \<open>
  Where the recursion is: at \<open>C::parse(begin, end, args...)\<close>, at \<open>try_parse_any\<close> of the classes
  of a tuple, or in the loop of \<open>recurse_many\<close> of a class and its arguments, with the class of
  the items and the items so far. \<open>end\<close> is the end of the list of tokens.
\<close>

datatype ('c, 't, 'n) call =
    Parse 'c "('t, 'n) arg list"
  | TryParseAny "'c list"
  | ManyLoop 'c "('t, 'n) arg list" 'c "'n list"

text \<open>How the loop goes on once it has an item: the end of the input, or no separator, ends it.\<close>

definition after_item ::
  "('c, 't, 'n) parser_context \<Rightarrow> 'c \<Rightarrow> ('t, 'n) arg list \<Rightarrow> 'c \<Rightarrow> 'n list \<Rightarrow> 't list \<Rightarrow> ('c, 't, 'n) call \<times> 't list" where
  "after_item G c as d ns ts =
     (case ts of
        [] \<Rightarrow> (Parse c (as @ [node_vector G ns]), [])
      | t # r \<Rightarrow>
          if \<not> has_separator G c as then (ManyLoop c as d ns, ts)
          else if is_separator G c as t then (ManyLoop c as d ns, r)
          else (Parse c (as @ [node_vector G ns]), ts))"

partial_function (option) run_engine ::
  "('c, 't, 'n) parser_context \<Rightarrow> ('c, 't, 'n) call \<Rightarrow> 't list \<Rightarrow> ('t, 'n) parse_state_return option" where
  "run_engine G f ts =
     (case f of
        Parse c as \<Rightarrow>
          (case decide G c as of
             PartialMatch \<Rightarrow>
               (case ts of
                  [] \<Rightarrow> run_engine G (Parse c (as @ [EndOfInput])) []
                | t # r \<Rightarrow> run_engine G (Parse c (as @ [Token t])) r)
           | ConditionalMatch p \<Rightarrow>
               (case ts of
                  [] \<Rightarrow> run_engine G (Parse c (as @ [EndOfInput])) []
                | t # r \<Rightarrow> if p as then run_engine G (Parse c (as @ [Token t])) r else Some (no_node ts))
           | RecurseOne d \<Rightarrow>
               do {
                 r \<leftarrow> run_engine G (Parse d []) ts;
                 case psr_node r of
                   None \<Rightarrow> Some r
                 | Some n \<Rightarrow> run_engine G (Parse c (as @ [Node n])) (psr_begin r)
               }
           | RecurseMaybe d \<Rightarrow>
               do {
                 r \<leftarrow> run_engine G (Parse d []) ts;
                 case psr_node r of
                   None \<Rightarrow> run_engine G (Parse c (as @ [Nullopt])) ts
                 | Some n \<Rightarrow> run_engine G (Parse c (as @ [Node n])) (psr_begin r)
               }
           | RecurseAny ds \<Rightarrow>
               do {
                 r \<leftarrow> run_engine G (TryParseAny ds) ts;
                 case psr_node r of
                   None \<Rightarrow> Some r
                 | Some n \<Rightarrow> run_engine G (Parse c (as @ [Node n])) (psr_begin r)
               }
           | RecurseMany d \<Rightarrow> run_engine G (ManyLoop c as d []) ts
           | Match m \<Rightarrow> Some \<lparr>psr_node = m as, psr_begin = ts\<rparr>
           | Unknown \<Rightarrow> Some (no_node ts))
      | TryParseAny ds \<Rightarrow>
          (case ds of
             [] \<Rightarrow> Some (no_node ts)
           | d # ds' \<Rightarrow>
               do {
                 r \<leftarrow> run_engine G (Parse d []) ts;
                 if ds' = [] \<or> psr_node r \<noteq> None then Some r else run_engine G (TryParseAny ds') ts
               })
      | ManyLoop c as d ns \<Rightarrow>
          if ts = [] then run_engine G (Parse c (as @ [node_vector G ns])) ts
          else
            do {
              r \<leftarrow> run_engine G (Parse d []) ts;
              case psr_node r of
                None \<Rightarrow> run_engine G (Parse c (as @ [node_vector G ns])) ts
              | Some n \<Rightarrow>
                  (let next = after_item G c as d (ns @ [n]) (psr_begin r) in run_engine G (fst next) (snd next))
            })"


section \<open>What a call answers\<close>

definition answer :: "('t, 'n) parse_state_return \<Rightarrow> ('n \<times> 't list) option" where
  "answer r = map_option (\<lambda>n. (n, psr_begin r)) (psr_node r)"

definition parses ::
  "('c, 't, 'n) parser_context \<Rightarrow> 'c \<Rightarrow> ('t, 'n) arg list \<Rightarrow> 't list \<Rightarrow> ('n \<times> 't list) option option" where
  "parses G c as ts = map_option answer (run_engine G (Parse c as) ts)"

definition parses_any ::
  "('c, 't, 'n) parser_context \<Rightarrow> 'c list \<Rightarrow> 't list \<Rightarrow> ('n \<times> 't list) option option" where
  "parses_any G ds ts = map_option answer (run_engine G (TryParseAny ds) ts)"

definition parses_many ::
  "('c, 't, 'n) parser_context \<Rightarrow> 'c \<Rightarrow> ('t, 'n) arg list \<Rightarrow> 'c \<Rightarrow> 'n list \<Rightarrow> 't list \<Rightarrow> ('n \<times> 't list) option option" where
  "parses_many G c as d ns ts = map_option answer (run_engine G (ManyLoop c as d ns) ts)"

lemma answer_cases:
  "answer r = None \<longleftrightarrow> psr_node r = None"
  "answer r = Some (n, ts) \<longleftrightarrow> psr_node r = Some n \<and> psr_begin r = ts"
  by (auto simp: answer_def)

lemma parses_SomeD:
  assumes "parses G d [] ts = Some x"
  obtains r where "run_engine G (Parse d []) ts = Some r" "answer r = x"
  using assms by (auto simp: parses_def)

text \<open>The answer, by the decision that is taken for the arguments.\<close>

lemma parses_unknown: "decide G c as = Unknown \<Longrightarrow> parses G c as ts = Some None"
  by (simp add: parses_def run_engine.simps [of G "Parse c as"] answer_def)

lemma parses_match:
  "decide G c as = Match m \<Longrightarrow> parses G c as ts = Some (map_option (\<lambda>n. (n, ts)) (m as))"
  by (simp add: parses_def run_engine.simps [of G "Parse c as"] answer_def)

lemma parses_end:
  "decide G c as = PartialMatch \<Longrightarrow> parses G c as [] = parses G c (as @ [EndOfInput]) []"
  by (simp add: parses_def run_engine.simps [of G "Parse c as"])

lemma parses_token:
  "decide G c as = PartialMatch \<Longrightarrow> parses G c as (t # ts) = parses G c (as @ [Token t]) ts"
  by (simp add: parses_def run_engine.simps [of G "Parse c as"])

lemma parses_conditional_end:
  "decide G c as = ConditionalMatch p \<Longrightarrow> parses G c as [] = parses G c (as @ [EndOfInput]) []"
  by (simp add: parses_def run_engine.simps [of G "Parse c as"])

lemma parses_conditional_token:
  "decide G c as = ConditionalMatch p \<Longrightarrow>
     parses G c as (t # ts) = (if p as then parses G c (as @ [Token t]) ts else Some None)"
  by (simp add: parses_def run_engine.simps [of G "Parse c as"] answer_def)

lemma parses_one:
  assumes "decide G c as = RecurseOne d" "parses G d [] ts = Some x"
  shows "parses G c as ts = (case x of None \<Rightarrow> Some None | Some (n, r) \<Rightarrow> parses G c (as @ [Node n]) r)"
  using assms(1) by (auto simp: parses_def run_engine.simps [of G "Parse c as"] answer_def split: option.split
      intro: parses_SomeD [OF assms(2)])

lemma parses_maybe:
  assumes "decide G c as = RecurseMaybe d" "parses G d [] ts = Some x"
  shows "parses G c as ts =
    (case x of None \<Rightarrow> parses G c (as @ [Nullopt]) ts | Some (n, r) \<Rightarrow> parses G c (as @ [Node n]) r)"
  using assms(1) by (auto simp: parses_def run_engine.simps [of G "Parse c as"] answer_def split: option.split
      intro: parses_SomeD [OF assms(2)])

lemma parses_recurse_any:
  assumes "decide G c as = RecurseAny ds" "parses_any G ds ts = Some x"
  shows "parses G c as ts = (case x of None \<Rightarrow> Some None | Some (n, r) \<Rightarrow> parses G c (as @ [Node n]) r)"
  using assms by (auto simp: parses_def parses_any_def run_engine.simps [of G "Parse c as"] answer_def
      split: option.split)

lemma parses_any_Nil: "parses_any G [] ts = Some None"
  by (simp add: parses_any_def run_engine.simps [of G "TryParseAny []"] answer_def)

text \<open>The alternatives in turn, whether or not the last one is set apart as the code does.\<close>

lemma parses_any_Cons:
  assumes "parses G d [] ts = Some x"
  shows "parses_any G (d # ds) ts = (case x of None \<Rightarrow> parses_any G ds ts | Some y \<Rightarrow> Some (Some y))"
proof -
  obtain r where r: "run_engine G (Parse d []) ts = Some r" "answer r = x"
    using assms by (rule parses_SomeD)
  then have "parses_any G (d # ds) ts = (if ds = [] \<or> x \<noteq> None then Some x else parses_any G ds ts)"
    by (auto simp: parses_any_def run_engine.simps [of G "TryParseAny (d # ds)"] answer_def)
  then show ?thesis by (auto simp: parses_any_Nil split: option.split)
qed

lemma parses_recurse_many:
  "decide G c as = RecurseMany d \<Longrightarrow> parses G c as ts = parses_many G c as d [] ts"
  by (simp add: parses_def parses_many_def run_engine.simps [of G "Parse c as"])

lemma parses_many_end: "parses_many G c as d ns [] = parses G c (as @ [node_vector G ns]) []"
  by (simp add: parses_def parses_many_def run_engine.simps [of G "ManyLoop c as d ns"])

text \<open>One round of the loop.\<close>

definition run_next :: "('c, 't, 'n) parser_context \<Rightarrow> ('c, 't, 'n) call \<times> 't list \<Rightarrow> ('n \<times> 't list) option option" where
  "run_next G next = map_option answer (run_engine G (fst next) (snd next))"

lemma run_next_simps [simp]:
  "run_next G (Parse c as, ts) = parses G c as ts"
  "run_next G (ManyLoop c as d ns, ts) = parses_many G c as d ns ts"
  by (simp_all add: run_next_def parses_def parses_many_def)

lemma parses_many_step:
  assumes "ts \<noteq> []" "parses G d [] ts = Some x"
  shows "parses_many G c as d ns ts =
    (case x of
       None \<Rightarrow> parses G c (as @ [node_vector G ns]) ts
     | Some (n, r) \<Rightarrow> run_next G (after_item G c as d (ns @ [n]) r))"
proof -
  obtain r where "run_engine G (Parse d []) ts = Some r" "answer r = x"
    using assms(2) by (rule parses_SomeD)
  with assms(1) show ?thesis
    by (auto simp: parses_def parses_many_def run_next_def run_engine.simps [of G "ManyLoop c as d ns"] answer_def
        Let_def split: option.split)
qed

end
