(* ===== verification/GrammarClasses.thy ===== *)
theory GrammarClasses
  imports ParserEngine Grammar
begin

text \<open>
  The classes of \<open>parser/grammar/*.hpp\<close> for the engine of \<open>ParserEngine\<close>: each is the table of
  its overloads, a parameter list for each, in the order of the file. The nodes are
  \<open>NodeVariant\<close> of \<open>traits.hpp\<close>. A shared pointer to a constant converts from one to a
  variable, and not the other way round; a variant converts from any of its alternatives.
\<close>

section \<open>Nodes and parameters\<close>

datatype (discs_sels) node =
    N_BooleanLiteral bool
  | N_IdentifierReference identifier_reference
  | N_IntegerLiteral int32
  | N_StringLiteral string
  | N_Type ptype
  | N_TypeParameterPair "string \<times> type_parameter_value"
  | N_TypeParameterMap type_parameter_map
  | N_TokenSequence token_sequence
  | N_TokenPart token_part
  | N_EscapeReplacement escape_replacement
  | N_TokenSequenceOptionValue token_sequence_option_value
  | N_TokenSequenceOptionPair "string \<times> token_sequence_option_value"
  | N_TokenSequenceOptionsMap token_sequence_options
  | N_Terminator string
  | N_ProtocolDescription protocol_description
  | N_MessageSequence message_sequence
  | N_MessagePart message_part
  | N_MessageForLoop identifier_reference identifier_reference message_sequence "string option"
  | N_MessageDataPair "string \<times> ptype"
  | N_MessageData message_data
  | N_Message message

fun variant_index :: "node \<Rightarrow> nat" where
  "variant_index (N_BooleanLiteral _) = 0"
| "variant_index (N_IdentifierReference _) = 1"
| "variant_index (N_IntegerLiteral _) = 2"
| "variant_index (N_StringLiteral _) = 3"
| "variant_index (N_Type _) = 4"
| "variant_index (N_TypeParameterPair _) = 5"
| "variant_index (N_TypeParameterMap _) = 6"
| "variant_index (N_TokenSequence _) = 7"
| "variant_index (N_TokenPart _) = 8"
| "variant_index (N_EscapeReplacement _) = 9"
| "variant_index (N_TokenSequenceOptionValue _) = 10"
| "variant_index (N_TokenSequenceOptionPair _) = 11"
| "variant_index (N_TokenSequenceOptionsMap _) = 12"
| "variant_index (N_Terminator _) = 13"
| "variant_index (N_ProtocolDescription _) = 14"
| "variant_index (N_MessageSequence _) = 15"
| "variant_index (N_MessagePart _) = 16"
| "variant_index (N_MessageForLoop _ _ _ _) = 17"
| "variant_index (N_MessageDataPair _) = 18"
| "variant_index (N_MessageData _) = 19"
| "variant_index (N_Message _) = 20"

type_synonym node_arg = "(token, node) arg"
type_synonym node_param = "(token, node) param"

text \<open>A token of a class without and with a value.\<close>

definition tok :: "token \<Rightarrow> node_param" where
  "tok t a \<longleftrightarrow> a = Token t"

definition tok_identifier :: node_param where
  "tok_identifier a = (case a of Token (T_Identifier _) \<Rightarrow> True | _ \<Rightarrow> False)"

definition tok_string :: node_param where
  "tok_string a = (case a of Token (T_String _) \<Rightarrow> True | _ \<Rightarrow> False)"

definition tok_integer :: node_param where
  "tok_integer a = (case a of Token (T_Integer _) \<Rightarrow> True | _ \<Rightarrow> False)"

definition tok_boolean :: node_param where
  "tok_boolean a = (case a of Token (T_Boolean _) \<Rightarrow> True | _ \<Rightarrow> False)"

definition nullopt :: node_param where
  "nullopt a \<longleftrightarrow> a = Nullopt"

text \<open>\<open>std::shared_ptr<const X>\<close> and \<open>std::shared_ptr<X>\<close>: only two nodes are of the second type.\<close>

definition points_to_const :: "node \<Rightarrow> bool" where
  "points_to_const n \<longleftrightarrow> \<not> is_N_EscapeReplacement n \<and> \<not> is_N_TokenSequenceOptionValue n"

definition const_ptr :: "(node \<Rightarrow> bool) \<Rightarrow> node_param" where
  "const_ptr is a = (case a of Node n \<Rightarrow> is n | _ \<Rightarrow> False)"

definition ptr :: "(node \<Rightarrow> bool) \<Rightarrow> node_param" where
  "ptr is a = (case a of Node n \<Rightarrow> is n \<and> \<not> points_to_const n | _ \<Rightarrow> False)"

definition vector_of :: "(node \<Rightarrow> bool) \<Rightarrow> node_param" where
  "vector_of is a = (case a of Nodes ns \<Rightarrow> ns \<noteq> [] \<and> list_all is ns | _ \<Rightarrow> False)"

text \<open>A parameter of type \<open>auto\<close>.\<close>

definition auto_param :: node_param where
  "auto_param a = True"

definition no_overloads :: "('c, 't, 'n) parser_class" where
  "no_overloads = \<lparr>partial_match = [], conditional_partial_match = [], recurse_one = [], recurse_maybe = [],
     recurse_any_of = [], recurse_many_of = [], recurse_many_has_separator = [],
     recurse_many_separator = [], match_tokens = []\<rparr>"

datatype grammar_class =
    C_IdentifierMemberAccess
  | C_IdentifierReference
  | C_BooleanLiteral
  | C_IntegerLiteral
  | C_StringLiteral
  | C_TypeParameterValue
  | C_TypeParameter
  | C_TypeParameters
  | C_Type
  | C_TokenPart
  | C_EscapeReplacement
  | C_TokenSequenceOptionValue
  | C_TokenSequenceOption
  | C_TokenSequenceOptions
  | C_TokenSequence
  | C_Terminator
  | C_MessageForLoop
  | C_MessagePart
  | C_MessageSequence
  | C_MessageParts
  | C_MessageDataPair
  | C_MessageData
  | C_Message
  | C_ProtocolDescription

type_synonym grammar_parser = "(grammar_class, token, node) parser_class"

section \<open>\<open>identifier.hpp\<close>\<close>

definition identifier_member_access_parser :: grammar_parser where
  "identifier_member_access_parser = no_overloads\<lparr>
     partial_match := [([], ())],
     recurse_one := [([tok T_Dot], C_IdentifierReference)],
     match_tokens :=
       [([tok T_Dot, const_ptr is_N_IdentifierReference],
         \<lambda>as. case as of [_, Node member] \<Rightarrow> Some member | _ \<Rightarrow> None)]\<rparr>"

definition identifier_reference_parser :: grammar_parser where
  "identifier_reference_parser = no_overloads\<lparr>
     partial_match := [([], ())],
     recurse_maybe := [([tok_identifier], C_IdentifierMemberAccess)],
     match_tokens :=
       [([tok_identifier, nullopt],
         \<lambda>as. case as of [Token (T_Identifier i), _] \<Rightarrow> Some (N_IdentifierReference (IdentifierReference i None))
           | _ \<Rightarrow> None),
        ([tok_identifier, const_ptr is_N_IdentifierReference],
         \<lambda>as. case as of [Token (T_Identifier i), Node (N_IdentifierReference member)] \<Rightarrow>
             Some (N_IdentifierReference (IdentifierReference i (Some member)))
           | _ \<Rightarrow> None)]\<rparr>"

section \<open>\<open>literals.hpp\<close>\<close>

definition boolean_literal_parser :: grammar_parser where
  "boolean_literal_parser = no_overloads\<lparr>
     partial_match := [([], ())],
     match_tokens :=
       [([tok_boolean], \<lambda>as. case as of [Token (T_Boolean b)] \<Rightarrow> Some (N_BooleanLiteral b) | _ \<Rightarrow> None)]\<rparr>"

definition integer_literal_parser :: grammar_parser where
  "integer_literal_parser = no_overloads\<lparr>
     partial_match := [([], ())],
     match_tokens :=
       [([tok_integer], \<lambda>as. case as of [Token (T_Integer i)] \<Rightarrow> Some (N_IntegerLiteral i) | _ \<Rightarrow> None)]\<rparr>"

definition string_literal_parser :: grammar_parser where
  "string_literal_parser = no_overloads\<lparr>
     partial_match := [([], ())],
     match_tokens :=
       [([tok_string], \<lambda>as. case as of [Token (T_String s)] \<Rightarrow> Some (N_StringLiteral s) | _ \<Rightarrow> None)]\<rparr>"

section \<open>\<open>typeparameter.hpp\<close>\<close>

text \<open>\<open>tree::TypeParameterValue\<close>: a variant of pointers to literals and types.\<close>

definition type_parameter_value_variant :: node_param where
  "type_parameter_value_variant = const_ptr (\<lambda>n. is_N_BooleanLiteral n \<or> is_N_IntegerLiteral n \<or> is_N_StringLiteral n \<or> is_N_Type n)"

fun to_type_parameter_value :: "node \<Rightarrow> type_parameter_value option" where
  "to_type_parameter_value (N_BooleanLiteral b) = Some (BooleanLiteral b)"
| "to_type_parameter_value (N_IntegerLiteral i) = Some (IntegerLiteral i)"
| "to_type_parameter_value (N_StringLiteral s) = Some (StringLiteral s)"
| "to_type_parameter_value (N_Type t) = Some (TypeValue t)"
| "to_type_parameter_value _ = None"

definition type_parameter_value_parser :: grammar_parser where
  "type_parameter_value_parser = no_overloads\<lparr>
     recurse_any_of := [([], [C_Type, C_BooleanLiteral, C_StringLiteral, C_IntegerLiteral])],
     match_tokens := [([type_parameter_value_variant], \<lambda>as. case as of [Node m] \<Rightarrow> Some m | _ \<Rightarrow> None)]\<rparr>"

definition type_parameter_parser :: grammar_parser where
  "type_parameter_parser = no_overloads\<lparr>
     partial_match := [([], ()), ([tok_identifier], ())],
     recurse_one := [([tok_identifier, tok T_Equal], C_TypeParameterValue)],
     match_tokens :=
       [([tok_identifier, tok T_Equal, type_parameter_value_variant],
         \<lambda>as. case as of [Token (T_Identifier i), _, Node m] \<Rightarrow>
             map_option (\<lambda>v. N_TypeParameterPair (i, v)) (to_type_parameter_value m)
           | _ \<Rightarrow> None)]\<rparr>"

definition type_parameters_parser :: grammar_parser where
  "type_parameters_parser = no_overloads\<lparr>
     partial_match := [([], ()), ([tok T_AngleBracketOpen, auto_param], ())],
     recurse_many_of := [([tok T_AngleBracketOpen], C_TypeParameter)],
     recurse_many_has_separator := [([tok T_AngleBracketOpen], ())],
     recurse_many_separator := [([tok T_AngleBracketOpen, tok T_Comma], ())],
     match_tokens :=
       [([tok T_AngleBracketOpen, vector_of is_N_TypeParameterPair, tok T_AngleBracketClose],
         \<lambda>as. case as of [_, Nodes m, _] \<Rightarrow> Some (N_TypeParameterMap (map_of_pairs (map un_N_TypeParameterPair m)))
           | _ \<Rightarrow> None)]\<rparr>"

definition type_parser :: grammar_parser where
  "type_parser = no_overloads\<lparr>
     partial_match := [([], ())],
     recurse_maybe := [([tok_identifier], C_TypeParameters)],
     match_tokens :=
       [([tok_identifier, nullopt],
         \<lambda>as. case as of [Token (T_Identifier i), _] \<Rightarrow> Some (N_Type (Type (IdentifierReference i None) []))
           | _ \<Rightarrow> None),
        ([tok_identifier, const_ptr is_N_TypeParameterMap],
         \<lambda>as. case as of [Token (T_Identifier i), Node (N_TypeParameterMap parameters)] \<Rightarrow>
             Some (N_Type (Type (IdentifierReference i None) parameters))
           | _ \<Rightarrow> None)]\<rparr>"

section \<open>\<open>tokenparts.hpp\<close>\<close>

text \<open>\<open>tree::TokenPart\<close>, a variant of pointers.\<close>

definition token_part_variant :: node_param where
  "token_part_variant = const_ptr (\<lambda>n. is_N_StringLiteral n \<or> is_N_IdentifierReference n)"

definition token_part_parser :: grammar_parser where
  "token_part_parser = no_overloads\<lparr>
     recurse_any_of := [([], [C_StringLiteral, C_IdentifierReference])],
     match_tokens :=
       [([token_part_variant],
         \<lambda>as. case as of
             [Node (N_StringLiteral s)] \<Rightarrow> Some (N_TokenPart (TokenString s))
           | [Node (N_IdentifierReference i)] \<Rightarrow> Some (N_TokenPart (TokenIdentifier i))
           | _ \<Rightarrow> None)]\<rparr>"

definition escape_replacement_parser :: grammar_parser where
  "escape_replacement_parser = no_overloads\<lparr>
     partial_match :=
       [([], ()),
        ([tok_identifier, tok T_AngleBracketOpen], ()),
        ([tok_identifier, tok T_AngleBracketOpen, tok_string], ()),
        ([tok_identifier, tok T_AngleBracketOpen, tok_string, tok T_Comma], ()),
        ([tok_identifier, tok T_AngleBracketOpen, tok_string, tok T_Comma, tok_string], ())],
     conditional_partial_match :=
       [([tok_identifier], \<lambda>as. case as of [Token (T_Identifier i)] \<Rightarrow> i = ''replace'' | _ \<Rightarrow> False)],
     match_tokens :=
       [([tok_identifier, tok T_AngleBracketOpen, tok_string, tok T_Comma, tok_string, tok T_AngleBracketClose],
         \<lambda>as. case as of [_, _, Token (T_String character), _, Token (T_String sequence), _] \<Rightarrow>
             Some (N_EscapeReplacement \<lparr>er_character = character, er_sequence = sequence\<rparr>)
           | _ \<Rightarrow> None)]\<rparr>"

definition token_sequence_option_value_parser :: grammar_parser where
  "token_sequence_option_value_parser = no_overloads\<lparr>
     recurse_any_of := [([], [C_StringLiteral, C_EscapeReplacement])],
     match_tokens :=
       [([const_ptr is_N_StringLiteral],
         \<lambda>as. case as of [Node (N_StringLiteral str)] \<Rightarrow> Some (N_TokenSequenceOptionValue (OptionString str))
           | _ \<Rightarrow> None),
        ([ptr is_N_EscapeReplacement],
         \<lambda>as. case as of [Node (N_EscapeReplacement esc)] \<Rightarrow> Some (N_TokenSequenceOptionValue (OptionEscape esc))
           | _ \<Rightarrow> None)]\<rparr>"

definition token_sequence_option_parser :: grammar_parser where
  "token_sequence_option_parser = no_overloads\<lparr>
     partial_match := [([], ()), ([tok_identifier], ()), ([tok T_Terminator], ())],
     recurse_one :=
       [([tok_identifier, tok T_Equal], C_TokenSequenceOptionValue),
        ([tok T_Terminator, tok T_Equal], C_TokenSequenceOptionValue)],
     match_tokens :=
       [([tok_identifier, tok T_Equal, ptr is_N_TokenSequenceOptionValue],
         \<lambda>as. case as of [Token (T_Identifier i), _, Node (N_TokenSequenceOptionValue v)] \<Rightarrow>
             Some (N_TokenSequenceOptionPair (i, v))
           | _ \<Rightarrow> None),
        ([tok T_Terminator, tok T_Equal, ptr is_N_TokenSequenceOptionValue],
         \<lambda>as. case as of [_, _, Node (N_TokenSequenceOptionValue v)] \<Rightarrow>
             Some (N_TokenSequenceOptionPair (''terminator'', v))
           | _ \<Rightarrow> None)]\<rparr>"

definition token_sequence_options_parser :: grammar_parser where
  "token_sequence_options_parser = no_overloads\<lparr>
     partial_match := [([], ()), ([tok T_AngleBracketOpen, auto_param], ())],
     recurse_many_of := [([tok T_AngleBracketOpen], C_TokenSequenceOption)],
     recurse_many_has_separator := [([tok T_AngleBracketOpen], ())],
     recurse_many_separator := [([tok T_AngleBracketOpen, tok T_Comma], ())],
     match_tokens :=
       [([tok T_AngleBracketOpen, vector_of is_N_TokenSequenceOptionPair, tok T_AngleBracketClose],
         \<lambda>as. case as of [_, Nodes m, _] \<Rightarrow>
             Some (N_TokenSequenceOptionsMap (map_of_pairs (map un_N_TokenSequenceOptionPair m)))
           | _ \<Rightarrow> None)]\<rparr>"

definition token_sequence_parser :: grammar_parser where
  "token_sequence_parser = no_overloads\<lparr>
     partial_match :=
       [([], ()),
        ([tok T_Tokens, nullopt], ()),
        ([tok T_Tokens, nullopt, tok T_CurlyBraceOpen, vector_of is_N_TokenPart], ()),
        ([tok T_Tokens, const_ptr is_N_TokenSequenceOptionsMap], ()),
        ([tok T_Tokens, const_ptr is_N_TokenSequenceOptionsMap, tok T_CurlyBraceOpen, vector_of is_N_TokenPart], ())],
     recurse_maybe := [([tok T_Tokens], C_TokenSequenceOptions)],
     recurse_many_of :=
       [([tok T_Tokens, nullopt, tok T_CurlyBraceOpen], C_TokenPart),
        ([tok T_Tokens, const_ptr is_N_TokenSequenceOptionsMap, tok T_CurlyBraceOpen], C_TokenPart)],
     match_tokens :=
       [([tok T_Tokens, nullopt, tok T_CurlyBraceOpen, vector_of is_N_TokenPart, tok T_CurlyBraceClose],
         \<lambda>as. case as of [_, _, _, Nodes parts, _] \<Rightarrow>
             Some (N_TokenSequence \<lparr>ts_tokens = map un_N_TokenPart parts, ts_terminator = None, ts_escape = None\<rparr>)
           | _ \<Rightarrow> None),
        ([tok T_Tokens, const_ptr is_N_TokenSequenceOptionsMap, tok T_CurlyBraceOpen, vector_of is_N_TokenPart,
          tok T_CurlyBraceClose],
         \<lambda>as. case as of [_, Node (N_TokenSequenceOptionsMap options), _, Nodes parts, _] \<Rightarrow>
             Some (N_TokenSequence \<lparr>ts_tokens = map un_N_TokenPart parts,
               ts_terminator = option_terminator options, ts_escape = option_escape options\<rparr>)
           | _ \<Rightarrow> None)]\<rparr>"

definition terminator_parser :: grammar_parser where
  "terminator_parser = no_overloads\<lparr>
     partial_match :=
       [([], ()), ([tok T_Terminator], ()), ([tok T_Terminator, tok T_CurlyBraceOpen, const_ptr is_N_StringLiteral], ())],
     recurse_one := [([tok T_Terminator, tok T_CurlyBraceOpen], C_StringLiteral)],
     match_tokens :=
       [([tok T_Terminator, tok T_CurlyBraceOpen, const_ptr is_N_StringLiteral, tok T_CurlyBraceClose],
         \<lambda>as. case as of [_, _, Node (N_StringLiteral literal), _] \<Rightarrow> Some (N_Terminator literal) | _ \<Rightarrow> None)]\<rparr>"

section \<open>\<open>messagesequence.hpp\<close>\<close>

text \<open>
  \<open>MessageForLoop\<close>. The overloads for a loop with options take a pointer to a variable map,
  the node of the options is a pointer to a constant one.
\<close>

definition message_for_loop_parser :: grammar_parser where
  "message_for_loop_parser = no_overloads\<lparr>
     partial_match :=
       [([], ()),
        ([tok T_For, nullopt, const_ptr is_N_IdentifierReference], ()),
        ([tok T_For, nullopt, const_ptr is_N_IdentifierReference, tok T_In, const_ptr is_N_IdentifierReference], ()),
        ([tok T_For, nullopt, const_ptr is_N_IdentifierReference, tok T_In, const_ptr is_N_IdentifierReference,
          tok T_CurlyBraceOpen, const_ptr is_N_MessageSequence], ()),
        ([tok T_For, ptr is_N_TokenSequenceOptionsMap, const_ptr is_N_IdentifierReference], ()),
        ([tok T_For, ptr is_N_TokenSequenceOptionsMap, const_ptr is_N_IdentifierReference, tok T_In,
          const_ptr is_N_IdentifierReference], ()),
        ([tok T_For, ptr is_N_TokenSequenceOptionsMap, const_ptr is_N_IdentifierReference, tok T_In,
          const_ptr is_N_IdentifierReference, tok T_CurlyBraceOpen, const_ptr is_N_MessageSequence], ())],
     recurse_maybe := [([tok T_For], C_TokenSequenceOptions)],
     recurse_one :=
       [([tok T_For, nullopt], C_IdentifierReference),
        ([tok T_For, nullopt, const_ptr is_N_IdentifierReference, tok T_In], C_IdentifierReference),
        ([tok T_For, nullopt, const_ptr is_N_IdentifierReference, tok T_In, const_ptr is_N_IdentifierReference,
          tok T_CurlyBraceOpen], C_MessageSequence),
        ([tok T_For, ptr is_N_TokenSequenceOptionsMap], C_IdentifierReference),
        ([tok T_For, ptr is_N_TokenSequenceOptionsMap, const_ptr is_N_IdentifierReference, tok T_In],
         C_IdentifierReference),
        ([tok T_For, ptr is_N_TokenSequenceOptionsMap, const_ptr is_N_IdentifierReference, tok T_In,
          const_ptr is_N_IdentifierReference, tok T_CurlyBraceOpen], C_MessageSequence)],
     match_tokens :=
       [([tok T_For, nullopt, const_ptr is_N_IdentifierReference, tok T_In, const_ptr is_N_IdentifierReference,
          tok T_CurlyBraceOpen, const_ptr is_N_MessageSequence, tok T_CurlyBraceClose],
         \<lambda>as. case as of
             [_, _, Node (N_IdentifierReference i), _, Node (N_IdentifierReference j), _, Node (N_MessageSequence ps), _] \<Rightarrow>
               Some (N_MessageForLoop i j ps None)
           | _ \<Rightarrow> None),
        ([tok T_For, ptr is_N_TokenSequenceOptionsMap, const_ptr is_N_IdentifierReference, tok T_In,
          const_ptr is_N_IdentifierReference, tok T_CurlyBraceOpen, const_ptr is_N_MessageSequence,
          tok T_CurlyBraceClose],
         \<lambda>as. case as of
             [_, Node (N_TokenSequenceOptionsMap options), Node (N_IdentifierReference i), _,
              Node (N_IdentifierReference j), _, Node (N_MessageSequence ps), _] \<Rightarrow>
               Some (N_MessageForLoop i j ps (option_terminator options))
           | _ \<Rightarrow> None)]\<rparr>"

text \<open>\<open>tree::MessagePart\<close>, a variant of pointers.\<close>

definition message_part_variant :: node_param where
  "message_part_variant = const_ptr (\<lambda>n. is_N_TokenSequence n \<or> is_N_Terminator n \<or> is_N_MessageForLoop n)"

definition message_part_parser :: grammar_parser where
  "message_part_parser = no_overloads\<lparr>
     recurse_any_of := [([], [C_TokenSequence, C_Terminator, C_MessageForLoop])],
     match_tokens :=
       [([message_part_variant],
         \<lambda>as. case as of
             [Node (N_TokenSequence s)] \<Rightarrow> Some (N_MessagePart (PartTokens s))
           | [Node (N_Terminator t)] \<Rightarrow> Some (N_MessagePart (PartTerminator t))
           | [Node (N_MessageForLoop i j ps t)] \<Rightarrow> Some (N_MessagePart (PartForLoop i j ps t))
           | _ \<Rightarrow> None)]\<rparr>"

definition message_sequence_parser :: grammar_parser where
  "message_sequence_parser = no_overloads\<lparr>
     recurse_many_of := [([], C_MessagePart)],
     match_tokens :=
       [([vector_of is_N_MessagePart],
         \<lambda>as. case as of [Nodes parts] \<Rightarrow> Some (N_MessageSequence (map un_N_MessagePart parts)) | _ \<Rightarrow> None)]\<rparr>"

definition message_parts_parser :: grammar_parser where
  "message_parts_parser = no_overloads\<lparr>
     partial_match :=
       [([], ()), ([tok T_Parts], ()), ([tok T_Parts, tok T_CurlyBraceOpen, const_ptr is_N_MessageSequence], ())],
     recurse_one := [([tok T_Parts, tok T_CurlyBraceOpen], C_MessageSequence)],
     match_tokens :=
       [([tok T_Parts, tok T_CurlyBraceOpen, const_ptr is_N_MessageSequence, tok T_CurlyBraceClose],
         \<lambda>as. case as of [_, _, Node parts, _] \<Rightarrow> Some parts | _ \<Rightarrow> None)]\<rparr>"

section \<open>\<open>messagedata.hpp\<close>\<close>

definition message_data_pair_parser :: grammar_parser where
  "message_data_pair_parser = no_overloads\<lparr>
     partial_match :=
       [([], ()), ([tok_identifier], ()), ([tok_identifier, tok T_KeyValueSeparator, const_ptr is_N_Type], ())],
     recurse_one := [([tok_identifier, tok T_KeyValueSeparator], C_Type)],
     match_tokens :=
       [([tok_identifier, tok T_KeyValueSeparator, const_ptr is_N_Type, tok T_StatementEnd],
         \<lambda>as. case as of [Token (T_Identifier i), _, Node (N_Type t), _] \<Rightarrow> Some (N_MessageDataPair (i, t))
           | _ \<Rightarrow> None)]\<rparr>"

definition message_data_parser :: grammar_parser where
  "message_data_parser = no_overloads\<lparr>
     partial_match :=
       [([], ()),
        ([tok_identifier, tok T_KeyValueSeparator], ()),
        ([tok_identifier, tok T_KeyValueSeparator, tok T_CurlyBraceOpen, vector_of is_N_MessageDataPair], ())],
     conditional_partial_match :=
       [([tok_identifier], \<lambda>as. case as of [Token (T_Identifier i)] \<Rightarrow> i = ''data'' | _ \<Rightarrow> False)],
     recurse_many_of := [([tok_identifier, tok T_KeyValueSeparator, tok T_CurlyBraceOpen], C_MessageDataPair)],
     match_tokens :=
       [([tok_identifier, tok T_KeyValueSeparator, tok T_CurlyBraceOpen, vector_of is_N_MessageDataPair,
          tok T_CurlyBraceClose],
         \<lambda>as. case as of [_, _, _, Nodes pairs, _] \<Rightarrow>
             Some (N_MessageData (map_of_pairs (map un_N_MessageDataPair pairs)))
           | _ \<Rightarrow> None)]\<rparr>"

section \<open>\<open>message.hpp\<close>\<close>

text \<open>The loop over the attributes: what it has set so far of \<open>when\<close>, \<open>then\<close> and \<open>agent\<close>.\<close>

type_synonym seen_attributes =
  "identifier_reference option \<times> identifier_reference option \<times> identifier_reference option"

fun note_attribute :: "string \<times> ptype \<Rightarrow> seen_attributes \<Rightarrow> seen_attributes" where
  "note_attribute (k, ty) (w, t, a) =
     (if k = ''when'' then (Some (type_name ty), t, a)
      else if k = ''then'' then (w, Some (type_name ty), a)
      else if k = ''agent'' then (w, t, Some (type_name ty))
      else (w, t, a))"

definition build_message ::
  "string \<Rightarrow> (string \<times> ptype) list \<Rightarrow> message_data \<Rightarrow> message_sequence \<Rightarrow> message option" where
  "build_message n attributes d ps =
     (case fold note_attribute attributes (None, None, None) of
        (Some w, Some t, Some a) \<Rightarrow>
          Some \<lparr>msg_name = n, msg_when = w, msg_then = t, msg_agent = a, msg_data = d, msg_parts = ps\<rparr>
      | _ \<Rightarrow> None)"

definition protocol_message_parser :: grammar_parser where
  "protocol_message_parser = no_overloads\<lparr>
     partial_match :=
       [([], ()),
        ([tok T_Message, const_ptr is_N_StringLiteral], ()),
        ([tok T_Message, const_ptr is_N_StringLiteral, tok T_CurlyBraceOpen, vector_of is_N_MessageDataPair, nullopt], ()),
        ([tok T_Message, const_ptr is_N_StringLiteral, tok T_CurlyBraceOpen, vector_of is_N_MessageDataPair,
          const_ptr is_N_MessageData, const_ptr is_N_MessageSequence], ())],
     recurse_one :=
       [([tok T_Message], C_StringLiteral),
        ([tok T_Message, const_ptr is_N_StringLiteral, tok T_CurlyBraceOpen, vector_of is_N_MessageDataPair,
          const_ptr is_N_MessageData], C_MessageParts)],
     recurse_maybe :=
       [([tok T_Message, const_ptr is_N_StringLiteral, tok T_CurlyBraceOpen, vector_of is_N_MessageDataPair],
         C_MessageData)],
     recurse_many_of := [([tok T_Message, const_ptr is_N_StringLiteral, tok T_CurlyBraceOpen], C_MessageDataPair)],
     match_tokens :=
       [([tok T_Message, const_ptr is_N_StringLiteral, tok T_CurlyBraceOpen, vector_of is_N_MessageDataPair, nullopt,
          tok T_CurlyBraceClose],
         \<lambda>as. case as of [_, Node (N_StringLiteral n), _, Nodes attributes, _, _] \<Rightarrow>
             map_option N_Message (build_message n (map un_N_MessageDataPair attributes) [] [])
           | _ \<Rightarrow> None),
        ([tok T_Message, const_ptr is_N_StringLiteral, tok T_CurlyBraceOpen, vector_of is_N_MessageDataPair,
          const_ptr is_N_MessageData, const_ptr is_N_MessageSequence, tok T_CurlyBraceClose],
         \<lambda>as. case as of
             [_, Node (N_StringLiteral n), _, Nodes attributes, Node (N_MessageData d), Node (N_MessageSequence ps), _] \<Rightarrow>
               map_option N_Message (build_message n (map un_N_MessageDataPair attributes) d ps)
           | _ \<Rightarrow> None)]\<rparr>"

section \<open>\<open>protocoldescription.hpp\<close>\<close>

definition protocol_description_parser :: grammar_parser where
  "protocol_description_parser = no_overloads\<lparr>
     recurse_many_of := [([], C_Message)],
     match_tokens :=
       [([vector_of is_N_Message],
         \<lambda>as. case as of [Nodes messages] \<Rightarrow>
             Some (N_ProtocolDescription (map_of_pairs (map (\<lambda>n. (msg_name (un_N_Message n), un_N_Message n)) messages)))
           | _ \<Rightarrow> None)]\<rparr>"

section \<open>The grammar\<close>

fun grammar_parser_of :: "grammar_class \<Rightarrow> grammar_parser" where
  "grammar_parser_of C_IdentifierMemberAccess = identifier_member_access_parser"
| "grammar_parser_of C_IdentifierReference = identifier_reference_parser"
| "grammar_parser_of C_BooleanLiteral = boolean_literal_parser"
| "grammar_parser_of C_IntegerLiteral = integer_literal_parser"
| "grammar_parser_of C_StringLiteral = string_literal_parser"
| "grammar_parser_of C_TypeParameterValue = type_parameter_value_parser"
| "grammar_parser_of C_TypeParameter = type_parameter_parser"
| "grammar_parser_of C_TypeParameters = type_parameters_parser"
| "grammar_parser_of C_Type = type_parser"
| "grammar_parser_of C_TokenPart = token_part_parser"
| "grammar_parser_of C_EscapeReplacement = escape_replacement_parser"
| "grammar_parser_of C_TokenSequenceOptionValue = token_sequence_option_value_parser"
| "grammar_parser_of C_TokenSequenceOption = token_sequence_option_parser"
| "grammar_parser_of C_TokenSequenceOptions = token_sequence_options_parser"
| "grammar_parser_of C_TokenSequence = token_sequence_parser"
| "grammar_parser_of C_Terminator = terminator_parser"
| "grammar_parser_of C_MessageForLoop = message_for_loop_parser"
| "grammar_parser_of C_MessagePart = message_part_parser"
| "grammar_parser_of C_MessageSequence = message_sequence_parser"
| "grammar_parser_of C_MessageParts = message_parts_parser"
| "grammar_parser_of C_MessageDataPair = message_data_pair_parser"
| "grammar_parser_of C_MessageData = message_data_parser"
| "grammar_parser_of C_Message = protocol_message_parser"
| "grammar_parser_of C_ProtocolDescription = protocol_description_parser"

definition protocol_grammar :: "(grammar_class, token, node) parser_context" where
  "protocol_grammar = \<lparr>parser_of = grammar_parser_of, node_index = variant_index\<rparr>"

text \<open>
  \<open>parse.cpp\<close> on the engine: the whole input has to be used, and the node has to be there. A
  parser that does not return is \<open>None\<close>.
\<close>

definition parse_tokens :: "token list \<Rightarrow> protocol_description option option" where
  "parse_tokens ts =
     (case run_engine protocol_grammar (Parse C_ProtocolDescription []) ts of
        None \<Rightarrow> None
      | Some result \<Rightarrow>
          Some (if psr_begin result \<noteq> [] then None
                else case psr_node result of Some (N_ProtocolDescription p) \<Rightarrow> Some p | _ \<Rightarrow> None))"

end
