(* ===== verification/EngineLemmas.thy ===== *)
theory EngineLemmas
  imports GrammarClasses GrammarLemmas
begin

text \<open>
  Running the engine on the grammar. What is decided for the arguments of a class is computed
  from its table by the simplifier; the lemmas below say what a call answers when it goes on
  with one token, with a node of another class, or with a vector of items, in terms of the
  parsers of \<open>Grammar\<close>. The classes for identifiers, literals and types are settled here.
\<close>

section \<open>Computing the decisions\<close>

abbreviation PG :: "(grammar_class, token, node) parser_context" where
  "PG \<equiv> protocol_grammar"

lemmas class_tables =
  identifier_member_access_parser_def identifier_reference_parser_def boolean_literal_parser_def
  integer_literal_parser_def string_literal_parser_def type_parameter_value_parser_def
  type_parameter_parser_def type_parameters_parser_def type_parser_def token_part_parser_def
  escape_replacement_parser_def token_sequence_option_value_parser_def token_sequence_option_parser_def
  token_sequence_options_parser_def token_sequence_parser_def terminator_parser_def
  message_for_loop_parser_def message_part_parser_def message_sequence_parser_def message_parts_parser_def
  message_data_pair_parser_def message_data_parser_def protocol_message_parser_def protocol_description_parser_def

lemmas parameters =
  tok_def tok_identifier_def tok_string_def tok_integer_def tok_boolean_def nullopt_def const_ptr_def ptr_def
  points_to_const_def vector_of_def auto_param_def type_parameter_value_variant_def token_part_variant_def
  message_part_variant_def

lemma parser_of_grammar: "parser_of protocol_grammar = grammar_parser_of"
  by (simp add: protocol_grammar_def)

lemmas decisions = decide_def resolve_def viable_def has_separator_def is_separator_def
  parser_of_grammar no_overloads_def class_tables parameters



text \<open>A property of every token, a case for each class of tokens.\<close>

lemma all_tokens:
  "(\<forall>t. P t) \<longleftrightarrow>
     (\<forall>i. P (T_Identifier i)) \<and> (\<forall>i. P (T_Integer i)) \<and> (\<forall>s. P (T_String s)) \<and> (\<forall>b. P (T_Boolean b))
     \<and> list_all P [T_For, T_In, T_Message, T_Parts, T_Terminator, T_Tokens, T_AngleBracketClose, T_AngleBracketOpen,
         T_Comma, T_Dot, T_CurlyBraceClose, T_CurlyBraceOpen, T_Equal, T_KeyValueSeparator, T_StatementEnd]"
proof (intro iffI allI)
  fix t
  assume "(\<forall>i. P (T_Identifier i)) \<and> (\<forall>i. P (T_Integer i)) \<and> (\<forall>s. P (T_String s)) \<and> (\<forall>b. P (T_Boolean b))
     \<and> list_all P [T_For, T_In, T_Message, T_Parts, T_Terminator, T_Tokens, T_AngleBracketClose, T_AngleBracketOpen,
         T_Comma, T_Dot, T_CurlyBraceClose, T_CurlyBraceOpen, T_Equal, T_KeyValueSeparator, T_StatementEnd]"
  then show "P t" by (cases t) simp_all
qed simp

section \<open>Calls and parsers\<close>

text \<open>An argument list that goes on with one token only, or with none.\<close>

definition only_token :: "grammar_class \<Rightarrow> node_arg list \<Rightarrow> (token \<Rightarrow> bool) \<Rightarrow> bool" where
  "only_token c as q \<longleftrightarrow> decide PG c as = PartialMatch \<and> decide PG c (as @ [EndOfInput]) = Unknown
     \<and> (\<forall>t. q t \<or> decide PG c (as @ [Token t]) = Unknown)"

lemma parses_expect:
  assumes "only_token c as (\<lambda>t. t = k)"
  shows "parses PG c as ts = (case expect k ts of None \<Rightarrow> Some None | Some r \<Rightarrow> parses PG c (as @ [Token k]) r)"
proof (cases ts)
  case (Cons t r)
  from assms have "t = k \<or> decide PG c (as @ [Token t]) = Unknown" by (simp add: only_token_def)
  with assms show ?thesis by (auto simp: Cons only_token_def parses_token parses_unknown)
qed (use assms in \<open>simp add: only_token_def expect_def parses_end parses_unknown\<close>)


lemma parses_identifier:
  assumes "only_token c as (\<lambda>t. tok_identifier (Token t))"
  shows "parses PG c as ts =
    (case take_identifier ts of None \<Rightarrow> Some None | Some (i, r) \<Rightarrow> parses PG c (as @ [Token (T_Identifier i)]) r)"
proof (cases ts)
  case (Cons t r)
  from assms have "tok_identifier (Token t) \<or> decide PG c (as @ [Token t]) = Unknown" by (simp add: only_token_def)
  with assms show ?thesis
    by (cases t) (simp_all add: Cons only_token_def parses_token parses_unknown take_identifier_def tok_identifier_def)
qed (use assms in \<open>simp add: only_token_def take_identifier_def parses_end parses_unknown\<close>)

lemma parses_string_token:
  assumes "only_token c as (\<lambda>t. tok_string (Token t))"
  shows "parses PG c as ts =
    (case take_string ts of None \<Rightarrow> Some None | Some (i, r) \<Rightarrow> parses PG c (as @ [Token (T_String i)]) r)"
proof (cases ts)
  case (Cons t r)
  from assms have "tok_string (Token t) \<or> decide PG c (as @ [Token t]) = Unknown" by (simp add: only_token_def)
  with assms show ?thesis
    by (cases t) (simp_all add: Cons only_token_def parses_token parses_unknown take_string_def tok_string_def)
qed (use assms in \<open>simp add: only_token_def take_string_def parses_end parses_unknown\<close>)

text \<open>A class and a parser agree on an input: the same nodes, and the same rest.\<close>

definition agrees :: "grammar_class \<Rightarrow> ('a \<Rightarrow> node) \<Rightarrow> 'a parser \<Rightarrow> token list \<Rightarrow> bool" where
  "agrees c f p ts \<longleftrightarrow> parses PG c [] ts = Some (map_node f p ts)"

lemma agreesD: "agrees c f p ts \<Longrightarrow> parses PG c [] ts = Some (map_node f p ts)"
  by (simp add: agrees_def)

lemma parses_one_agrees:
  assumes "decide PG c as = RecurseOne d" "agrees d f p ts"
  shows "parses PG c as ts = (case p ts of None \<Rightarrow> Some None | Some (x, r) \<Rightarrow> parses PG c (as @ [Node (f x)]) r)"
  using parses_one [OF assms(1) agreesD [OF assms(2)]] by (simp add: map_node_def split: option.split)

lemma parses_maybe_agrees:
  assumes "decide PG c as = RecurseMaybe d" "agrees d f p ts"
  shows "parses PG c as ts =
    (case p ts of None \<Rightarrow> parses PG c (as @ [Nullopt]) ts | Some (x, r) \<Rightarrow> parses PG c (as @ [Node (f x)]) r)"
  using parses_maybe [OF assms(1) agreesD [OF assms(2)]] by (simp add: map_node_def split: option.split)

text \<open>A tuple of classes is the list of their parsers, the values of a node a common type.\<close>

lemma parses_any_agrees:
  assumes "list_all2 (\<lambda>d p. agrees d f p ts) ds ps"
  shows "parses_any PG ds ts = Some (map_node f (recurse_any ps) ts)"
  using assms
proof (induction ds ps rule: list_all2_induct)
  case Nil
  then show ?case by (simp add: parses_any_Nil map_node_def)
next
  case (Cons d ds p ps)
  then show ?case by (auto simp: parses_any_Cons [OF agreesD [OF Cons(1)]] map_node_def split: option.split)
qed

lemma parses_recurse_any_agrees:
  assumes "decide PG c as = RecurseAny ds" "list_all2 (\<lambda>d p. agrees d f p ts) ds ps"
  shows "parses PG c as ts =
    (case recurse_any ps ts of None \<Rightarrow> Some None | Some (x, r) \<Rightarrow> parses PG c (as @ [Node (f x)]) r)"
  using parses_recurse_any [OF assms(1) parses_any_agrees [OF assms(2)]] by (simp add: map_node_def split: option.split)

text \<open>The vector of some items of a class, as it is passed on.\<close>

definition vector :: "('a \<Rightarrow> node) \<Rightarrow> 'a list \<Rightarrow> node_arg" where
  "vector f xs = (if xs = [] then Variants [] else Nodes (map f xs))"

lemma node_vector_map:
  assumes "\<And>x y. variant_index (f x) = variant_index (f y)"
  shows "node_vector PG (map f xs) = vector f xs"
  using assms by (cases xs) (auto simp: node_vector_def vector_def protocol_grammar_def list_all_iff)

text \<open>The loop of \<open>recurse_many\<close> is the one on parsers.\<close>

lemma parses_many_agrees:
  assumes "item_parser p" "\<not> has_separator PG c as" "\<And>s. length s \<le> length ts \<Longrightarrow> agrees d f p s"
  shows "parses_many PG c as d ns ts =
    (let (xs, r) = recurse_many p ts in parses PG c (as @ [node_vector PG (ns @ map f xs)]) r)"
  using assms(3)
proof (induction ts arbitrary: ns rule: measure_induct_rule [of length])
  case (less ts)
  note consumes = item_parser.consumes [OF assms(1)] and many_unfold = item_parser.many_unfold [OF assms(1)]
    and none_at_end = item_parser.none_at_end [OF assms(1)]
  show ?case
  proof (cases "ts = []")
    case True
    then show ?thesis by (simp add: parses_many_end many_unfold none_at_end)
  next
    case False
    note step = parses_many_step [OF False agreesD [OF less.prems [OF order.refl]], of c as ns]
    show ?thesis
    proof (cases "p ts")
      case None
      with step show ?thesis by (simp add: many_unfold [of ts] map_node_def)
    next
      case (Some y)
      obtain x r where y: "y = (x, r)" by (cases y)
      have r: "length r < length ts" using consumes Some y by simp
      have "parses_many PG c as d (ns @ [f x]) r =
          (let (xs, s) = recurse_many p r in parses PG c (as @ [node_vector PG (ns @ map f (x # xs))]) s)"
        using less.IH [OF r, of "ns @ [f x]"] less.prems r by simp
      moreover have "run_next PG (after_item PG c as d (ns @ [f x]) r) = parses_many PG c as d (ns @ [f x]) r"
        by (cases r) (simp_all add: after_item_def assms(2) parses_many_end)
      ultimately show ?thesis using step Some y by (simp add: many_unfold [of ts] map_node_def split_beta)
    qed
  qed
qed


lemma parses_separated_agrees:
  assumes "item_parser p" "has_separator PG c as" "\<And>t. is_separator PG c as t \<longleftrightarrow> t = sep"
    "\<And>s. length s \<le> length ts \<Longrightarrow> agrees d f p s"
  shows "parses_many PG c as d ns ts =
    (let (xs, r) = recurse_many_separated sep p ts in parses PG c (as @ [node_vector PG (ns @ map f xs)]) r)"
  using assms(4)
proof (induction ts arbitrary: ns rule: measure_induct_rule [of length])
  case (less ts)
  note consumes = item_parser.consumes [OF assms(1)] and unfold = item_parser.separated_unfold [OF assms(1)]
    and none_at_end = item_parser.none_at_end [OF assms(1)]
  show ?case
  proof (cases "ts = []")
    case True
    then show ?thesis by (simp add: parses_many_end unfold none_at_end)
  next
    case False
    note step = parses_many_step [OF False agreesD [OF less.prems [OF order.refl]], of c as ns]
    show ?thesis
    proof (cases "p ts")
      case None
      with step show ?thesis by (simp add: unfold [of _ ts] map_node_def)
    next
      case (Some y)
      obtain x r where y: "y = (x, r)" by (cases y)
      have r: "length r < length ts" using consumes Some y by simp
      show ?thesis
      proof (cases "r \<noteq> [] \<and> hd r = sep")
        case True
        then obtain s where s: "r = sep # s" by (cases r) auto
        have "parses_many PG c as d (ns @ [f x]) s =
            (let (xs, s) = recurse_many_separated sep p s in parses PG c (as @ [node_vector PG (ns @ map f (x # xs))]) s)"
          using less.IH [of s "ns @ [f x]"] less.prems r s by simp
        with step Some y s show ?thesis
          by (simp add: unfold [of _ ts] map_node_def split_beta after_item_def assms(2,3))
      next
        case False
        then have "after_item PG c as d (ns @ [f x]) r = (Parse c (as @ [node_vector PG (ns @ [f x])]), r)"
          by (auto simp: after_item_def assms(2,3) split: list.split)
        with False step Some y show ?thesis by (auto simp: unfold [of _ ts] map_node_def)
      qed
    qed
  qed
qed

section \<open>Identifiers and literals\<close>

lemma only_tokens:
  "only_token C_IdentifierMemberAccess [] (\<lambda>t. t = T_Dot)"
  "only_token C_IdentifierReference [] (\<lambda>t. tok_identifier (Token t))"
  by (simp_all add: only_token_def decisions all_tokens)

lemmas engine = decisions parses_match parses_unknown map_node_def

lemma agrees_identifier: "agrees C_IdentifierReference N_IdentifierReference parse_identifier_reference ts"
proof (induction ts rule: measure_induct_rule [of length])
  case (less ts)
  have member: "agrees C_IdentifierMemberAccess N_IdentifierReference
      (\<lambda>r. do { r' \<leftarrow> expect T_Dot r; parse_identifier_reference r' }) r" if "length r < length ts" for r
  proof -
    have "agrees C_IdentifierReference N_IdentifierReference parse_identifier_reference r'" if "r = T_Dot # r'" for r'
      using less \<open>length r < length ts\<close> that by simp
    note one = parses_one_agrees [of C_IdentifierMemberAccess "[Token T_Dot]", OF _ this]
    show ?thesis unfolding agrees_def
      by (subst parses_expect [OF only_tokens(1)]) (auto simp: one engine split: option.split Option.bind_split)
  qed
  note maybe = parses_maybe_agrees [where d = C_IdentifierMemberAccess, OF _ member]
  show ?case unfolding agrees_def
    by (subst parses_identifier [OF only_tokens(2)])
       (auto simp: maybe engine parse_identifier_reference.simps [of ts] split: option.split Option.bind_split)
qed

lemma agrees_literals:
  "agrees C_BooleanLiteral N_BooleanLiteral parse_boolean_literal ts"
  "agrees C_IntegerLiteral N_IntegerLiteral parse_integer_literal ts"
  "agrees C_StringLiteral N_StringLiteral parse_string_literal ts"
proof -
  show "agrees C_BooleanLiteral N_BooleanLiteral parse_boolean_literal ts"
  proof (cases ts)
    case (Cons t r)
    then show ?thesis by (cases t) (simp_all add: agrees_def parses_token engine parse_boolean_literal_def)
  qed (simp add: agrees_def parses_end engine parse_boolean_literal_def)
  show "agrees C_IntegerLiteral N_IntegerLiteral parse_integer_literal ts"
  proof (cases ts)
    case (Cons t r)
    then show ?thesis by (cases t) (simp_all add: agrees_def parses_token engine parse_integer_literal_def)
  qed (simp add: agrees_def parses_end engine parse_integer_literal_def)
  have "only_token C_StringLiteral [] (\<lambda>t. tok_string (Token t))"
    by (simp add: only_token_def decisions all_tokens)
  then show "agrees C_StringLiteral N_StringLiteral parse_string_literal ts"
    unfolding agrees_def by (subst parses_string_token)
      (auto simp: engine parse_string_literal_def split: option.split)
qed

text \<open>A parser whose alternatives are values of one type, under another node.\<close>

lemma agrees_map: "agrees c g (map_node f p) ts \<longleftrightarrow> agrees c (\<lambda>x. g (f x)) p ts"
  by (simp add: agrees_def map_node_def option.map_comp comp_def case_prod_unfold)

lemma agrees_token_part: "agrees C_TokenPart N_TokenPart parse_token_part ts"
proof -
  let ?f = "\<lambda>p. case p of TokenString s \<Rightarrow> N_StringLiteral s | TokenIdentifier i \<Rightarrow> N_IdentifierReference i"
  have "list_all2 (\<lambda>d p. agrees d ?f p ts) [C_StringLiteral, C_IdentifierReference]
      [map_node TokenString parse_string_literal, map_node TokenIdentifier parse_identifier_reference]"
    by (simp add: agrees_map agrees_literals agrees_identifier)
  note any = parses_recurse_any_agrees [of C_TokenPart "[]", OF _ this]
  show ?thesis unfolding agrees_def
    by (subst any) (auto simp: engine parse_token_part_def split: option.split token_part.split)
qed


section \<open>Types\<close>

fun node_of_value :: "type_parameter_value \<Rightarrow> node" where
  "node_of_value (BooleanLiteral b) = N_BooleanLiteral b"
| "node_of_value (IntegerLiteral i) = N_IntegerLiteral i"
| "node_of_value (StringLiteral s) = N_StringLiteral s"
| "node_of_value (TypeValue t) = N_Type t"

lemma agrees_type_parameter_value:
  assumes "agrees C_Type N_Type p ts"
  shows "agrees C_TypeParameterValue node_of_value (parse_type_parameter_value p) ts"
proof -
  have "list_all2 (\<lambda>d p. agrees d node_of_value p ts) [C_Type, C_BooleanLiteral, C_StringLiteral, C_IntegerLiteral]
      [map_node TypeValue p, map_node BooleanLiteral parse_boolean_literal,
       map_node StringLiteral parse_string_literal, map_node IntegerLiteral parse_integer_literal]"
    by (simp add: agrees_map agrees_literals assms)
  note any = parses_recurse_any_agrees [of C_TypeParameterValue "[]", OF _ this]
  have built: "parses PG C_TypeParameterValue [Node (node_of_value v)] r = Some (Some (node_of_value v, r))" for v r
    by (cases v) (simp_all add: engine)
  show ?thesis unfolding agrees_def
    by (subst any) (auto simp: decisions map_node_def built parse_type_parameter_value_def split: option.split)
qed

lemma only_tokens_type:
  "only_token C_TypeParameter [] (\<lambda>t. tok_identifier (Token t))"
  "only_token C_TypeParameter [Token (T_Identifier i)] (\<lambda>t. t = T_Equal)"
  "only_token C_TypeParameters [] (\<lambda>t. t = T_AngleBracketOpen)"
  "only_token C_TypeParameters [Token T_AngleBracketOpen, vector N_TypeParameterPair (x # xs)] (\<lambda>t. t = T_AngleBracketClose)"
  "only_token C_Type [] (\<lambda>t. tok_identifier (Token t))"
  by (simp_all add: only_token_def decisions all_tokens vector_def list_all_iff)

lemma agrees_type_parameter:
  assumes "\<And>s. length s < length ts \<Longrightarrow> agrees C_Type N_Type p s"
  shows "agrees C_TypeParameter N_TypeParameterPair (parse_type_parameter p) ts"
proof -
  note one = parses_one_agrees [where d = C_TypeParameterValue and p = "parse_type_parameter_value p",
      OF _ agrees_type_parameter_value]
  have built: "parses PG C_TypeParameter [Token (T_Identifier i), Token T_Equal, Node (node_of_value v)] r =
      Some (Some (N_TypeParameterPair (i, v), r))" for i v r
    by (cases v) (simp_all add: engine)
  show ?thesis unfolding agrees_def
    by (subst parses_identifier [OF only_tokens_type(1)])
       (auto simp: parses_expect [OF only_tokens_type(2)] one assms built decisions map_node_def parse_type_parameter_def
         split: option.split Option.bind_split)
qed


text \<open>
  A vector of items and the token that closes it. No item, and there is no overload: at once,
  or, where the overload takes a vector of any type, after the next token.
\<close>

lemma parses_vector_close:
  assumes "decide PG c (as @ [vector f []]) = Unknown \<or> only_token c (as @ [vector f []]) (\<lambda>t. False)"
    and "\<And>x xs. only_token c (as @ [vector f (x # xs)]) (\<lambda>t. t = k)"
    and "\<And>x xs. decide PG c (as @ [vector f (x # xs), Token k]) = Match m"
  shows "parses PG c (as @ [vector f xs]) ts =
    (if xs = [] then Some None
     else Some (case expect k ts of None \<Rightarrow> None | Some r \<Rightarrow> map_option (\<lambda>n. (n, r)) (m (as @ [vector f xs, Token k]))))"
proof (cases xs)
  case Nil
  show ?thesis
  proof (cases ts)
    case (Cons t r)
    with assms(1) Nil show ?thesis by (auto simp: only_token_def parses_token parses_unknown)
  qed (use assms(1) Nil in \<open>auto simp: only_token_def parses_end parses_unknown\<close>)
next
  case (Cons y ys)
  show ?thesis unfolding Cons
    by (subst parses_expect [OF assms(2)]) (simp add: parses_match assms(3) split: option.split)
qed

text \<open>A repetition, with the vector that its items are passed on as.\<close>

lemma parses_items:
  assumes "item_parser p" "decide PG c as = RecurseMany d" "\<not> has_separator PG c as"
    "\<And>s. length s \<le> length ts \<Longrightarrow> agrees d f p s" "\<And>x y. variant_index (f x) = variant_index (f y)"
  shows "parses PG c as ts = (let (xs, r) = recurse_many p ts in parses PG c (as @ [vector f xs]) r)"
  using parses_recurse_many [OF assms(2), of ts] parses_many_agrees [OF assms(1,3,4), where ns = "[]"] assms(5)
  by (simp add: node_vector_map [where f = f])

lemma parses_separated_items:
  assumes "item_parser p" "decide PG c as = RecurseMany d" "has_separator PG c as"
    "\<And>t. is_separator PG c as t \<longleftrightarrow> t = sep"
    "\<And>s. length s \<le> length ts \<Longrightarrow> agrees d f p s" "\<And>x y. variant_index (f x) = variant_index (f y)"
  shows "parses PG c as ts = (let (xs, r) = recurse_many_separated sep p ts in parses PG c (as @ [vector f xs]) r)"
  using parses_recurse_many [OF assms(2), of ts] parses_separated_agrees [OF assms(1,3,4,5), where ns = "[]"] assms(6)
  by (simp add: node_vector_map [where f = f])

lemma agrees_type_parameters:
  assumes "\<And>s. length s < length ts \<Longrightarrow> agrees C_Type N_Type parse_type s"
  shows "agrees C_TypeParameters N_TypeParameterMap (parse_type_parameters parse_type) ts"
proof -
  have items: "parses PG C_TypeParameters [Token T_AngleBracketOpen] r =
      (let (qs, s) = recurse_many_separated T_Comma (parse_type_parameter parse_type) r in
       parses PG C_TypeParameters ([Token T_AngleBracketOpen] @ [vector N_TypeParameterPair qs]) s)"
    if "length r < length ts" for r
    by (rule parses_separated_items [OF type_parameter.item_parser_axioms])
       (use assms that in \<open>auto simp: decisions intro!: agrees_type_parameter\<close>)
  have close: "parses PG C_TypeParameters ([Token T_AngleBracketOpen] @ [vector N_TypeParameterPair qs]) s =
      (if qs = [] then Some None
       else Some (map_option (\<lambda>r. (N_TypeParameterMap (map_of_pairs qs), r)) (expect T_AngleBracketClose s)))" for qs s
    by (subst parses_vector_close)
       (auto simp: decisions only_token_def all_tokens vector_def list_all_iff comp_def split: option.split)
  show ?thesis unfolding agrees_def
    by (subst parses_expect [OF only_tokens_type(3)])
       (auto simp: items close [simplified] map_node_def parse_type_parameters_def split: option.split Option.bind_split prod.split)
qed

lemma agrees_type: "agrees C_Type N_Type parse_type ts"
proof (induction ts rule: measure_induct_rule [of length])
  case (less ts)
  note maybe = parses_maybe_agrees [where d = C_TypeParameters, OF _ agrees_type_parameters]
  show ?case unfolding agrees_def
    by (subst parses_identifier [OF only_tokens_type(5)])
       (auto simp: maybe less engine parse_type.simps [of ts] split: option.split Option.bind_split)
qed

end
