(* ===== verification/EngineTheorems.thy ===== *)
theory EngineTheorems
  imports EngineLemmas
begin

text \<open>
  The rest of the grammar on the engine: the parts of a message, messages and the description
  of a protocol. The parser of \<open>Grammar\<close> is what the recursion of \<open>RecursiveParser\<close> computes
  from the overloads of the classes, and that recursion ends on every input.
\<close>

section \<open>Parts of a message\<close>

lemma only_tokens_escape:
  "only_token C_EscapeReplacement [] (\<lambda>t. tok_identifier (Token t))"
  "only_token C_EscapeReplacement [Token (T_Identifier i), Token T_AngleBracketOpen] (\<lambda>t. tok_string (Token t))"
  "only_token C_EscapeReplacement [Token (T_Identifier i), Token T_AngleBracketOpen, Token (T_String s)] (\<lambda>t. t = T_Comma)"
  "only_token C_EscapeReplacement [Token (T_Identifier i), Token T_AngleBracketOpen, Token (T_String s), Token T_Comma]
     (\<lambda>t. tok_string (Token t))"
  "only_token C_EscapeReplacement
     [Token (T_Identifier i), Token T_AngleBracketOpen, Token (T_String s), Token T_Comma, Token (T_String s')]
     (\<lambda>t. t = T_AngleBracketClose)"
  by (simp_all add: only_token_def decisions all_tokens)

text \<open>The token after a name that is asked for first.\<close>

lemma parses_conditional_expect:
  assumes "decide PG c as = ConditionalMatch p" "decide PG c (as @ [EndOfInput]) = Unknown"
    "\<forall>t. t = k \<or> decide PG c (as @ [Token t]) = Unknown"
  shows "parses PG c as ts =
    (if p as then case expect k ts of None \<Rightarrow> Some None | Some r \<Rightarrow> parses PG c (as @ [Token k]) r else Some None)"
proof (cases ts)
  case (Cons t r)
  from assms(3) have "t = k \<or> decide PG c (as @ [Token t]) = Unknown" by blast
  with assms show ?thesis by (auto simp: Cons parses_conditional_token parses_unknown)
qed (use assms in \<open>simp add: expect_def parses_conditional_end parses_unknown\<close>)

lemma agrees_escape: "agrees C_EscapeReplacement N_EscapeReplacement parse_escape_replacement ts"
proof -
  have name: "parses PG C_EscapeReplacement [Token (T_Identifier i)] r =
      (if i = ''replace'' then case expect T_AngleBracketOpen r of None \<Rightarrow> Some None
         | Some r \<Rightarrow> parses PG C_EscapeReplacement [Token (T_Identifier i), Token T_AngleBracketOpen] r
       else Some None)" for i r
    by (subst parses_conditional_expect [where k = T_AngleBracketOpen])
       (auto simp: decisions all_tokens split: option.split)
  show ?thesis unfolding agrees_def
    by (subst parses_identifier [OF only_tokens_escape(1)])
       (auto simp: name parses_string_token [OF only_tokens_escape(2)] parses_expect [OF only_tokens_escape(3)]
         parses_string_token [OF only_tokens_escape(4)] parses_expect [OF only_tokens_escape(5)]
         engine parse_escape_replacement_def split: option.split Option.bind_split)
qed

fun node_of_option :: "token_sequence_option_value \<Rightarrow> node" where
  "node_of_option (OptionString s) = N_StringLiteral s"
| "node_of_option (OptionEscape e) = N_EscapeReplacement e"

lemma agrees_option_value: "agrees C_TokenSequenceOptionValue N_TokenSequenceOptionValue parse_option_value ts"
proof -
  have "list_all2 (\<lambda>d p. agrees d node_of_option p ts) [C_StringLiteral, C_EscapeReplacement]
      [map_node OptionString parse_string_literal, map_node OptionEscape parse_escape_replacement]"
    by (simp add: agrees_map agrees_literals agrees_escape)
  note any = parses_recurse_any_agrees [of C_TokenSequenceOptionValue "[]", OF _ this]
  have built: "parses PG C_TokenSequenceOptionValue [Node (node_of_option v)] r =
      Some (Some (N_TokenSequenceOptionValue v, r))" for v r
    by (cases v) (simp_all add: engine)
  show ?thesis unfolding agrees_def
    by (subst any) (auto simp: decisions map_node_def built parse_option_value_def split: option.split)
qed

text \<open>The name of an option may be the keyword.\<close>

lemma parses_option_name:
  "parses PG C_TokenSequenceOption [] ts =
     (case parse_option_name ts of None \<Rightarrow> Some None
      | Some (i, r) \<Rightarrow> parses PG C_TokenSequenceOption
          [Token (if hd ts = T_Terminator then T_Terminator else T_Identifier i)] r)"
proof (cases ts)
  case (Cons t r)
  then show ?thesis by (cases t) (simp_all add: decisions parses_token parses_unknown parse_option_name_def)
qed (simp add: decisions parses_end parses_unknown parse_option_name_def)

lemma only_tokens_option:
  "only_token C_TokenSequenceOption [Token (T_Identifier i)] (\<lambda>t. t = T_Equal)"
  "only_token C_TokenSequenceOption [Token T_Terminator] (\<lambda>t. t = T_Equal)"
  "only_token C_TokenSequenceOptions [] (\<lambda>t. t = T_AngleBracketOpen)"
  by (simp_all add: only_token_def decisions all_tokens)

lemma agrees_option: "agrees C_TokenSequenceOption N_TokenSequenceOptionPair parse_option ts"
proof -
  note one = parses_one_agrees [where d = C_TokenSequenceOptionValue, OF _ agrees_option_value]
  have after: "parses PG C_TokenSequenceOption [Token (T_Identifier i)] r = map_option (map_option (\<lambda>(v, s). (N_TokenSequenceOptionPair (i, v), s)))
      (Some (do { r \<leftarrow> expect T_Equal r; parse_option_value r }))"
    "parses PG C_TokenSequenceOption [Token T_Terminator] r = map_option (map_option (\<lambda>(v, s). (N_TokenSequenceOptionPair (''terminator'', v), s)))
      (Some (do { r \<leftarrow> expect T_Equal r; parse_option_value r }))" for i r
    by (subst parses_expect [OF only_tokens_option(1)], auto simp: one engine split: option.split)
       (subst parses_expect [OF only_tokens_option(2)], auto simp: one engine split: option.split)
  show ?thesis unfolding agrees_def
    by (subst parses_option_name)
       (auto simp: after map_node_def parse_option_def parse_option_name_def split: list.splits token.splits option.split Option.bind_split)
qed

lemma agrees_options: "agrees C_TokenSequenceOptions N_TokenSequenceOptionsMap parse_options ts"
proof -
  have items: "parses PG C_TokenSequenceOptions [Token T_AngleBracketOpen] r =
      (let (qs, s) = recurse_many_separated T_Comma parse_option r in
       parses PG C_TokenSequenceOptions ([Token T_AngleBracketOpen] @ [vector N_TokenSequenceOptionPair qs]) s)" for r
    by (rule parses_separated_items [OF option_item.item_parser_axioms])
       (auto simp: decisions intro!: agrees_option)
  have close: "parses PG C_TokenSequenceOptions ([Token T_AngleBracketOpen] @ [vector N_TokenSequenceOptionPair qs]) s =
      (if qs = [] then Some None
       else Some (map_option (\<lambda>r. (N_TokenSequenceOptionsMap (map_of_pairs qs), r)) (expect T_AngleBracketClose s)))" for qs s
    by (subst parses_vector_close)
       (auto simp: decisions only_token_def all_tokens vector_def list_all_iff comp_def split: option.split)
  show ?thesis unfolding agrees_def
    by (subst parses_expect [OF only_tokens_option(3)])
       (auto simp: items close [simplified] map_node_def parse_options_def split: option.split Option.bind_split prod.split)
qed

lemma only_tokens_sequence:
  "only_token C_TokenSequence [] (\<lambda>t. t = T_Tokens)"
  "only_token C_TokenSequence [Token T_Tokens, Nullopt] (\<lambda>t. t = T_CurlyBraceOpen)"
  "only_token C_TokenSequence [Token T_Tokens, Node (N_TokenSequenceOptionsMap m)] (\<lambda>t. t = T_CurlyBraceOpen)"
  "only_token C_Terminator [] (\<lambda>t. t = T_Terminator)"
  "only_token C_Terminator [Token T_Terminator] (\<lambda>t. t = T_CurlyBraceOpen)"
  "only_token C_Terminator [Token T_Terminator, Token T_CurlyBraceOpen, Node (N_StringLiteral s)] (\<lambda>t. t = T_CurlyBraceClose)"
  by (simp_all add: only_token_def decisions all_tokens)

text \<open>The block of a token sequence, without and with options.\<close>

lemma parses_token_block:
  assumes "a = Nullopt \<and> e = None \<and> t = None
    \<or> (\<exists>m. a = Node (N_TokenSequenceOptionsMap m) \<and> t = option_terminator m \<and> e = option_escape m)"
  shows "parses PG C_TokenSequence [Token T_Tokens, a] ts =
    Some (map_node (\<lambda>ps. N_TokenSequence \<lparr>ts_tokens = ps, ts_terminator = t, ts_escape = e\<rparr>) parse_token_block ts)"
proof -
  have opens: "only_token C_TokenSequence [Token T_Tokens, a] (\<lambda>t. t = T_CurlyBraceOpen)"
    using assms only_tokens_sequence by auto
  have items: "parses PG C_TokenSequence [Token T_Tokens, a, Token T_CurlyBraceOpen] r =
      (let (qs, s) = recurse_many parse_token_part r in
       parses PG C_TokenSequence ([Token T_Tokens, a, Token T_CurlyBraceOpen] @ [vector N_TokenPart qs]) s)" for r
    by (rule parses_items [OF token_part.item_parser_axioms])
       (use assms in \<open>auto simp: decisions intro!: agrees_token_part\<close>)
  have close: "parses PG C_TokenSequence ([Token T_Tokens, a, Token T_CurlyBraceOpen] @ [vector N_TokenPart qs]) s =
      (if qs = [] then Some None
       else Some (map_option (\<lambda>r. (N_TokenSequence \<lparr>ts_tokens = qs, ts_terminator = t, ts_escape = e\<rparr>, r))
         (expect T_CurlyBraceClose s)))" for qs s
    using assms
    by (elim disjE conjE exE; hypsubst; subst parses_vector_close)
       (auto simp: decisions only_token_def all_tokens vector_def list_all_iff comp_def split: option.split)
  show ?thesis
    by (subst parses_expect [OF opens])
       (auto simp: items close [simplified] map_node_def parse_token_block_def split: option.split Option.bind_split prod.split)
qed

lemma agrees_token_sequence: "agrees C_TokenSequence N_TokenSequence parse_token_sequence ts"
proof -
  note maybe = parses_maybe_agrees [where d = C_TokenSequenceOptions, OF _ agrees_options]
  show ?thesis unfolding agrees_def
    by (subst parses_expect [OF only_tokens_sequence(1)])
       (auto simp: maybe decisions parses_token_block map_node_def option.map_comp comp_def case_prod_unfold
         parse_token_sequence_def split: option.split Option.bind_split)
qed

lemma agrees_terminator: "agrees C_Terminator N_Terminator parse_terminator ts"
proof -
  note one = parses_one_agrees [where d = C_StringLiteral, OF _ agrees_literals(3)]
  show ?thesis unfolding agrees_def
    by (subst parses_expect [OF only_tokens_sequence(4)])
       (auto simp: parses_expect [OF only_tokens_sequence(5)] one parses_expect [OF only_tokens_sequence(6)] engine
         parse_terminator_def split: option.split Option.bind_split)
qed

fun node_of_part :: "message_part \<Rightarrow> node" where
  "node_of_part (PartTokens s) = N_TokenSequence s"
| "node_of_part (PartTerminator t) = N_Terminator t"
| "node_of_part (PartForLoop i j ps t) = N_MessageForLoop i j ps t"

lemma only_tokens_loop:
  "only_token C_MessageForLoop [] (\<lambda>t. t = T_For)"
  "only_token C_MessageForLoop [Token T_For, Nullopt, Node (N_IdentifierReference i)] (\<lambda>t. t = T_In)"
  "only_token C_MessageForLoop [Token T_For, Nullopt, Node (N_IdentifierReference i), Token T_In, Node (N_IdentifierReference j)]
     (\<lambda>t. t = T_CurlyBraceOpen)"
  "only_token C_MessageForLoop [Token T_For, Nullopt, Node (N_IdentifierReference i), Token T_In, Node (N_IdentifierReference j),
     Token T_CurlyBraceOpen, Node (N_MessageSequence ps)] (\<lambda>t. t = T_CurlyBraceClose)"
  "only_token C_MessageParts [] (\<lambda>t. t = T_Parts)"
  "only_token C_MessageParts [Token T_Parts] (\<lambda>t. t = T_CurlyBraceOpen)"
  "only_token C_MessageParts [Token T_Parts, Token T_CurlyBraceOpen, Node (N_MessageSequence ps)] (\<lambda>t. t = T_CurlyBraceClose)"
  by (simp_all add: only_token_def decisions all_tokens)

text \<open>A loop with options has no overload to go on with.\<close>

lemma loop_with_options_unknown:
  "decide PG C_MessageForLoop [Token T_For, Node (N_TokenSequenceOptionsMap m)] = Unknown"
  by (simp add: decisions)

lemma agrees_for_loop:
  assumes "\<And>s. length s < length ts \<Longrightarrow> agrees C_MessageSequence N_MessageSequence p s"
  shows "agrees C_MessageForLoop node_of_part (parse_for_loop p) ts"
proof -
  note maybe = parses_maybe_agrees [where d = C_TokenSequenceOptions, OF _ agrees_options]
    and reference = parses_one_agrees [where d = C_IdentifierReference, OF _ agrees_identifier]
    and block = parses_one_agrees [where d = C_MessageSequence and f = N_MessageSequence and p = p]
  have loop: "parses PG C_MessageForLoop [Token T_For, Nullopt] r =
      Some (map_node node_of_part (\<lambda>r. do {
         (v, r) \<leftarrow> parse_identifier_reference r;
         r \<leftarrow> expect T_In r;
         (c, r) \<leftarrow> parse_identifier_reference r;
         r \<leftarrow> expect T_CurlyBraceOpen r;
         (block, r) \<leftarrow> p r;
         r \<leftarrow> expect T_CurlyBraceClose r;
         Some (PartForLoop v c block None, r)
       }) r)" if "length r < length ts" for r
  proof -
    have shorter: "agrees C_MessageSequence N_MessageSequence p r2"
      if "parse_identifier_reference r = Some (v, T_In # r1)"
        "parse_identifier_reference r1 = Some (c, T_CurlyBraceOpen # r2)" for v r1 c r2
      by (rule assms)
         (use \<open>length r < length ts\<close> parse_identifier_reference_shorter [OF that(1)]
           parse_identifier_reference_shorter [OF that(2)] in simp)
    show ?thesis
      by (auto simp: reference parses_expect [OF only_tokens_loop(2)] parses_expect [OF only_tokens_loop(3)] block shorter
          parses_expect [OF only_tokens_loop(4)] engine split: option.split Option.bind_split)
  qed
  show ?thesis unfolding agrees_def
    by (subst parses_expect [OF only_tokens_loop(1)])
       (auto simp: maybe loop engine parse_for_loop_def split: option.split)
qed

lemma agrees_message_part:
  assumes "\<And>s. length s < length ts \<Longrightarrow> agrees C_MessageSequence N_MessageSequence p s"
  shows "agrees C_MessagePart N_MessagePart (parse_message_part p) ts"
proof -
  have "list_all2 (\<lambda>d p. agrees d node_of_part p ts) [C_TokenSequence, C_Terminator, C_MessageForLoop]
      [map_node PartTokens parse_token_sequence, map_node PartTerminator parse_terminator, parse_for_loop p]"
    by (simp add: agrees_map agrees_token_sequence agrees_terminator agrees_for_loop assms)
  note any = parses_recurse_any_agrees [of C_MessagePart "[]", OF _ this]
  have built: "parses PG C_MessagePart [Node (node_of_part v)] r = Some (Some (N_MessagePart v, r))" for v r
    by (cases v) (simp_all add: engine)
  show ?thesis unfolding agrees_def
    by (subst any) (auto simp: decisions map_node_def built parse_message_part_def split: option.split)
qed

lemma agrees_message_sequence: "agrees C_MessageSequence N_MessageSequence parse_message_sequence ts"
proof (induction ts rule: measure_induct_rule [of length])
  case (less ts)
  have items: "parses PG C_MessageSequence [] ts =
      (let (qs, s) = recurse_many (parse_message_part parse_message_sequence) ts in
       parses PG C_MessageSequence ([] @ [vector N_MessagePart qs]) s)"
    by (rule parses_items [OF message_part.item_parser_axioms])
       (use less in \<open>auto simp: decisions intro!: agrees_message_part\<close>)
  show ?case unfolding agrees_def
    by (subst items) (auto simp: engine vector_def list_all_iff comp_def parse_message_sequence.simps [of ts] split: prod.split)
qed

lemma agrees_message_parts: "agrees C_MessageParts N_MessageSequence parse_message_parts ts"
proof -
  note one = parses_one_agrees [where d = C_MessageSequence, OF _ agrees_message_sequence]
  show ?thesis unfolding agrees_def
    by (subst parses_expect [OF only_tokens_loop(5)])
       (auto simp: parses_expect [OF only_tokens_loop(6)] one parses_expect [OF only_tokens_loop(7)] engine
         parse_message_parts_def split: option.split Option.bind_split)
qed

section \<open>Messages\<close>

lemma only_tokens_message:
  "only_token C_MessageDataPair [] (\<lambda>t. tok_identifier (Token t))"
  "only_token C_MessageDataPair [Token (T_Identifier i)] (\<lambda>t. t = T_KeyValueSeparator)"
  "only_token C_MessageDataPair [Token (T_Identifier i), Token T_KeyValueSeparator, Node (N_Type ty)] (\<lambda>t. t = T_StatementEnd)"
  "only_token C_MessageData [] (\<lambda>t. tok_identifier (Token t))"
  "only_token C_MessageData [Token (T_Identifier i), Token T_KeyValueSeparator] (\<lambda>t. t = T_CurlyBraceOpen)"
  "only_token C_Message [] (\<lambda>t. t = T_Message)"
  "only_token C_Message [Token T_Message, Node (N_StringLiteral n)] (\<lambda>t. t = T_CurlyBraceOpen)"
  "only_token C_Message [Token T_Message, Node (N_StringLiteral n), Token T_CurlyBraceOpen,
     vector N_MessageDataPair (x # xs), Nullopt] (\<lambda>t. t = T_CurlyBraceClose)"
  "only_token C_Message [Token T_Message, Node (N_StringLiteral n), Token T_CurlyBraceOpen,
     vector N_MessageDataPair (x # xs), Node (N_MessageData d), Node (N_MessageSequence ps)] (\<lambda>t. t = T_CurlyBraceClose)"
  by (simp_all add: only_token_def decisions all_tokens vector_def list_all_iff)

lemma agrees_data_pair: "agrees C_MessageDataPair N_MessageDataPair parse_message_data_pair ts"
proof -
  note one = parses_one_agrees [where d = C_Type, OF _ agrees_type]
  show ?thesis unfolding agrees_def
    by (subst parses_identifier [OF only_tokens_message(1)])
       (auto simp: parses_expect [OF only_tokens_message(2)] one parses_expect [OF only_tokens_message(3)] engine
         parse_message_data_pair_def split: option.split Option.bind_split)
qed

lemma agrees_message_data: "agrees C_MessageData N_MessageData parse_message_data ts"
proof -
  have name: "parses PG C_MessageData [Token (T_Identifier i)] r =
      (if i = ''data'' then case expect T_KeyValueSeparator r of None \<Rightarrow> Some None
         | Some r \<Rightarrow> parses PG C_MessageData [Token (T_Identifier i), Token T_KeyValueSeparator] r
       else Some None)" for i r
    by (subst parses_conditional_expect [where k = T_KeyValueSeparator])
       (auto simp: decisions all_tokens split: option.split)
  have items: "parses PG C_MessageData [Token (T_Identifier i), Token T_KeyValueSeparator, Token T_CurlyBraceOpen] r =
      (let (qs, s) = recurse_many parse_message_data_pair r in
       parses PG C_MessageData ([Token (T_Identifier i), Token T_KeyValueSeparator, Token T_CurlyBraceOpen]
         @ [vector N_MessageDataPair qs]) s)" for i r
    by (rule parses_items [OF data_pair.item_parser_axioms])
       (auto simp: decisions intro!: agrees_data_pair)
  have close: "parses PG C_MessageData ([Token (T_Identifier i), Token T_KeyValueSeparator, Token T_CurlyBraceOpen]
        @ [vector N_MessageDataPair qs]) s =
      (if qs = [] then Some None
       else Some (map_option (\<lambda>r. (N_MessageData (map_of_pairs qs), r)) (expect T_CurlyBraceClose s)))" for i qs s
    by (subst parses_vector_close)
       (auto simp: decisions only_token_def all_tokens vector_def list_all_iff comp_def split: option.split)
  show ?thesis unfolding agrees_def
    by (subst parses_identifier [OF only_tokens_message(4)])
       (auto simp: name parses_expect [OF only_tokens_message(5)] items close [simplified] map_node_def
         parse_message_data_def split: option.split Option.bind_split prod.split)
qed

text \<open>The loop over the attributes finds the last of each name.\<close>

lemma note_attributes:
  "fold note_attribute ps (None, None, None) = (attribute ''when'' ps, attribute ''then'' ps, attribute ''agent'' ps)"
proof (induction ps rule: rev_induct)
  case (snoc p ps)
  then show ?case by (cases p) (simp add: attribute_def)
qed (simp add: attribute_def)

lemma build_message_eq: "build_message = make_message"
  by (intro ext) (auto simp: build_message_def make_message_def note_attributes split: option.split Option.bind_split)

text \<open>After the attributes: the end of the message, or its data and its parts.\<close>

lemma parses_after_attributes:
  assumes "attributes \<noteq> []"
  shows "parses PG C_Message [Token T_Message, Node (N_StringLiteral n), Token T_CurlyBraceOpen,
      vector N_MessageDataPair attributes] ts =
    Some (map_node N_Message (\<lambda>r. case parse_message_data r of
         None \<Rightarrow> do { r \<leftarrow> expect T_CurlyBraceClose r; m \<leftarrow> make_message n attributes [] []; Some (m, r) }
       | Some (d, r) \<Rightarrow>
           do { (ps, r) \<leftarrow> parse_message_parts r; r \<leftarrow> expect T_CurlyBraceClose r; m \<leftarrow> make_message n attributes d ps; Some (m, r) }) ts)"
proof -
  obtain x xs where attributes: "attributes = x # xs" using assms by (cases attributes) auto
  note maybe = parses_maybe_agrees [where d = C_MessageData, OF _ agrees_message_data]
    and one = parses_one_agrees [where d = C_MessageParts, OF _ agrees_message_parts]
  have vector: "vector N_MessageDataPair (y # ys) = Nodes (N_MessageDataPair y # map N_MessageDataPair ys)" for y ys by (simp add: vector_def)
  show ?thesis unfolding attributes
    by (auto simp: maybe one parses_expect [OF only_tokens_message(8) [unfolded vector]]
        parses_expect [OF only_tokens_message(9) [unfolded vector]] vector
        engine list_all_iff comp_def build_message_eq split: option.split Option.bind_split)
qed

lemma agrees_message: "agrees C_Message N_Message parse_message ts"
proof -
  note one = parses_one_agrees [where d = C_StringLiteral, OF _ agrees_literals(3)]
  have items: "parses PG C_Message [Token T_Message, Node (N_StringLiteral n), Token T_CurlyBraceOpen] r =
      (let (qs, s) = recurse_many parse_message_data_pair r in
       parses PG C_Message ([Token T_Message, Node (N_StringLiteral n), Token T_CurlyBraceOpen]
         @ [vector N_MessageDataPair qs]) s)" for n r
    by (rule parses_items [OF data_pair.item_parser_axioms])
       (auto simp: decisions intro!: agrees_data_pair)
  have none: "parses PG C_Message [Token T_Message, Node (N_StringLiteral n), Token T_CurlyBraceOpen,
      vector N_MessageDataPair []] s = Some None" for n s
    by (rule parses_unknown) (simp add: decisions vector_def)
  show ?thesis unfolding agrees_def
    by (subst parses_expect [OF only_tokens_message(6)])
       (auto simp: one parses_expect [OF only_tokens_message(7)] items none parses_after_attributes decisions map_node_def
         parse_message_def split: option.split Option.bind_split prod.split)
qed

lemma agrees_protocol: "agrees C_ProtocolDescription N_ProtocolDescription parse_protocol_description ts"
proof -
  have items: "parses PG C_ProtocolDescription [] ts =
      (let (qs, s) = recurse_many parse_message ts in parses PG C_ProtocolDescription ([] @ [vector N_Message qs]) s)"
    by (rule parses_items [OF message_item.item_parser_axioms]) (auto simp: decisions intro!: agrees_message)
  show ?thesis unfolding agrees_def
    by (subst items) (auto simp: engine vector_def list_all_iff comp_def parse_protocol_description_def split: prod.split)
qed

section \<open>The whole input\<close>

text \<open>C5: For every list of tokens the recursion of \<open>RecursiveParser\<close>, driven by the overloads that
  the classes of \<open>parser/grammar\<close> declare, returns, and \<open>parse\<close> answers with the description that the
  recursive descent parser of \<open>Grammar\<close> finds, or with nothing where that finds none.\<close>

theorem engine_parses: "parse_tokens ts = Some (parse ts)"
proof -
  obtain r where r: "run_engine PG (Parse C_ProtocolDescription []) ts = Some r"
    "answer r = map_node N_ProtocolDescription parse_protocol_description ts"
    using agrees_protocol [of ts] unfolding agrees_def by (rule parses_SomeD)
  then show ?thesis
    by (auto simp: parse_tokens_def parse_def answer_def map_node_def split: option.splits list.splits node.splits)
qed

end
