(* ===== verification/Lexer.thy ===== *)
theory Lexer
  imports ParseTree ReadOps
begin

text \<open>
  The lexer (\<open>lexer/tokenize.cpp\<close>). The scanner is generated by lexertl, which is not part of the
  repository: \<open>lookup\<close> is an argument of the definitions, and the locale \<open>scanner\<close> states what its
  documentation promises. A pattern is the regular expression its text stands for; the language
  of an expression and a matcher by derivatives give the promise its meaning and an instance.
\<close>

section \<open>Regular expressions\<close>

datatype regex =
    Never
  | Blank
  | OneOf "char \<Rightarrow> bool"
  | Followed regex regex
  | Either regex regex
  | Repeat regex

definition one_char :: "char \<Rightarrow> regex" where
  "one_char c = OneOf (\<lambda>d. d = c)"

definition word_of :: "string \<Rightarrow> regex" where
  "word_of w = foldr (\<lambda>c. Followed (one_char c)) w Blank"

definition at_least_one :: "regex \<Rightarrow> regex" where
  "at_least_one r = Followed r (Repeat r)"

section \<open>The rules\<close>

definition is_letter :: "char \<Rightarrow> bool" where
  "is_letter c \<longleftrightarrow> (CHR ''a'' \<le> c \<and> c \<le> CHR ''z'') \<or> (CHR ''A'' \<le> c \<and> c \<le> CHR ''Z'')"

definition is_word_char :: "char \<Rightarrow> bool" where
  "is_word_char c \<longleftrightarrow> is_letter c \<or> is_digit c \<or> c = CHR ''_''"

definition is_blank :: "char \<Rightarrow> bool" where
  "is_blank c \<longleftrightarrow> c = CHR '' '' \<or> c = CHR 0x09 \<or> c = CHR 0x0A"

abbreviation quote :: char where
  "quote \<equiv> CHR 0x22"

abbreviation backslash :: char where
  "backslash \<equiv> CHR 0x5C"

definition integer_pattern :: regex where
  "integer_pattern = at_least_one (OneOf is_digit)"

definition string_unit :: regex where
  "string_unit = Either
     (Followed (one_char backslash) (OneOf (\<lambda>c. c = quote \<or> c = backslash \<or> c = CHR ''n'' \<or> c = CHR ''t'' \<or> c = CHR ''r'')))
     (OneOf (\<lambda>c. c \<noteq> quote \<and> c \<noteq> backslash))"

definition string_pattern :: regex where
  "string_pattern = Followed (one_char quote) (Followed (Repeat string_unit) (one_char quote))"

definition comment_pattern :: regex where
  "comment_pattern = Followed (word_of ''//'') (Repeat (OneOf (\<lambda>c. c \<noteq> CHR 0x0A)))"

definition blank_pattern :: regex where
  "blank_pattern = at_least_one (OneOf is_blank)"

definition identifier_pattern :: regex where
  "identifier_pattern = Followed (OneOf is_letter) (Repeat (OneOf is_word_char))"

fun unescape_string :: "string \<Rightarrow> string" where
  "unescape_string [] = []"
| "unescape_string [c] = [c]"
| "unescape_string (c # d # s) =
     (if c = backslash then
        (if d = CHR ''n'' then CHR 0x0A else if d = CHR ''t'' then CHR 0x09 else if d = CHR ''r'' then CHR 0x0D else d)
          # unescape_string s
      else c # unescape_string (d # s))"

text \<open>\<open>std::atoi\<close> is the conversion of what \<open>strtol\<close> answers to an \<open>int\<close>.\<close>

definition atoi :: "string \<Rightarrow> int32" where
  "atoi str = word_of_int (fst (strtol_10 str))"

text \<open>A rule is its pattern and what its pusher appends to the tokens.\<close>

definition token_rules :: "(regex \<times> (string \<Rightarrow> token list)) list" where
  "token_rules =
    [(word_of ''True'', \<lambda>str. [T_Boolean True]),
     (word_of ''False'', \<lambda>str. [T_Boolean False]),
     (word_of ''for'', \<lambda>str. [T_For]),
     (word_of ''in'', \<lambda>str. [T_In]),
     (word_of ''message'', \<lambda>str. [T_Message]),
     (word_of ''parts'', \<lambda>str. [T_Parts]),
     (word_of ''terminator'', \<lambda>str. [T_Terminator]),
     (word_of ''tokens'', \<lambda>str. [T_Tokens]),
     (integer_pattern, \<lambda>str. [T_Integer (atoi str)]),
     (string_pattern, \<lambda>str. [T_String (unescape_string (take (length str - 2) (drop 1 str)))]),
     (word_of ''>'', \<lambda>str. [T_AngleBracketClose]),
     (word_of ''<'', \<lambda>str. [T_AngleBracketOpen]),
     (word_of '','', \<lambda>str. [T_Comma]),
     (word_of ''}'', \<lambda>str. [T_CurlyBraceClose]),
     (word_of ''{'', \<lambda>str. [T_CurlyBraceOpen]),
     (word_of ''='', \<lambda>str. [T_Equal]),
     (word_of '':'', \<lambda>str. [T_KeyValueSeparator]),
     (word_of '';'', \<lambda>str. [T_StatementEnd]),
     (word_of ''.'', \<lambda>str. [T_Dot]),
     (comment_pattern, \<lambda>str. []),
     (blank_pattern, \<lambda>str. []),
     (identifier_pattern, \<lambda>str. [T_Identifier str])]"

section \<open>\<open>tokenize\<close>\<close>

text \<open>What \<open>lexertl::lookup\<close> leaves in \<open>results\<close>: the id 0 at the end of the input, \<open>npos()\<close>, or the id
  of a rule, which counts from 1, and the length of the text it matched.\<close>

datatype lookup_result = EndOfInput | NoRule | Matched nat nat

type_synonym lookup = "regex list \<Rightarrow> string \<Rightarrow> lookup_result"

definition push_token :: "nat \<Rightarrow> string \<Rightarrow> token list \<Rightarrow> token list" where
  "push_token rid str tokens =
     (let rule_id = rid - 1 in
      if rule_id < length token_rules then tokens @ snd (token_rules ! rule_id) str else tokens)"

text \<open>The outer \<open>None\<close> is a loop that does not end, the inner one \<open>std::nullopt\<close>.\<close>

partial_function (option) tokenize_loop :: "lookup \<Rightarrow> string \<Rightarrow> token list \<Rightarrow> token list option option" where
  "tokenize_loop lookup input tokens =
     (case lookup (map fst token_rules) input of
        EndOfInput \<Rightarrow> Some (Some tokens)
      | NoRule \<Rightarrow> Some None
      | Matched rid n \<Rightarrow> tokenize_loop lookup (drop n input) (push_token rid (take n input) tokens))"

definition tokenize :: "lookup \<Rightarrow> string \<Rightarrow> token list option option" where
  "tokenize lookup input = tokenize_loop lookup input []"

section \<open>What is promised of \<open>lookup\<close>\<close>

inductive_set repeated :: "string set \<Rightarrow> string set" for A where
  repeated_none: "[] \<in> repeated A"
| repeated_more: "u \<in> A \<Longrightarrow> w \<in> repeated A \<Longrightarrow> u @ w \<in> repeated A"

primrec language :: "regex \<Rightarrow> string set" where
  "language Never = {}"
| "language Blank = {[]}"
| "language (OneOf P) = {[c] | c. P c}"
| "language (Followed r s) = {u @ w | u w. u \<in> language r \<and> w \<in> language s}"
| "language (Either r s) = language r \<union> language s"
| "language (Repeat r) = repeated (language r)"

text \<open>The first of the rules that match the longest text at the start of the input.\<close>

definition longest_first :: "regex list \<Rightarrow> string \<Rightarrow> nat \<Rightarrow> nat \<Rightarrow> bool" where
  "longest_first rs input rid n \<longleftrightarrow>
     0 < n \<and> n \<le> length input \<and> 0 < rid \<and> rid \<le> length rs
     \<and> take n input \<in> language (rs ! (rid - 1))
     \<and> (\<forall>j < rid - 1. take n input \<notin> language (rs ! j))
     \<and> (\<forall>m r. n < m \<and> m \<le> length input \<and> r \<in> set rs \<longrightarrow> take m input \<notin> language r)"

definition no_rule_matches :: "regex list \<Rightarrow> string \<Rightarrow> bool" where
  "no_rule_matches rs input \<longleftrightarrow> (\<forall>m r. 0 < m \<and> m \<le> length input \<and> r \<in> set rs \<longrightarrow> take m input \<notin> language r)"

locale scanner =
  fixes lookup :: lookup
  assumes at_end: "lookup rs [] = EndOfInput"
    and matched: "longest_first rs input rid n \<Longrightarrow> lookup rs input = Matched rid n"
    and unmatched: "input \<noteq> [] \<Longrightarrow> no_rule_matches rs input \<Longrightarrow> lookup rs input = NoRule"

section \<open>A scanner by derivatives\<close>

primrec nullable :: "regex \<Rightarrow> bool" where
  "nullable Never = False"
| "nullable Blank = True"
| "nullable (OneOf P) = False"
| "nullable (Followed r s) = (nullable r \<and> nullable s)"
| "nullable (Either r s) = (nullable r \<or> nullable s)"
| "nullable (Repeat r) = True"

primrec after_char :: "char \<Rightarrow> regex \<Rightarrow> regex" where
  "after_char c Never = Never"
| "after_char c Blank = Never"
| "after_char c (OneOf P) = (if P c then Blank else Never)"
| "after_char c (Followed r s) =
     (if nullable r then Either (Followed (after_char c r) s) (after_char c s) else Followed (after_char c r) s)"
| "after_char c (Either r s) = Either (after_char c r) (after_char c s)"
| "after_char c (Repeat r) = Followed (after_char c r) (Repeat r)"

definition matches_all :: "regex \<Rightarrow> string \<Rightarrow> bool" where
  "matches_all r w = nullable (fold after_char w r)"

definition first_rule :: "regex list \<Rightarrow> string \<Rightarrow> nat option" where
  "first_rule rs w = find (\<lambda>k. matches_all (rs ! k) w) [0..<length rs]"

fun lookup_upto :: "regex list \<Rightarrow> string \<Rightarrow> nat \<Rightarrow> lookup_result" where
  "lookup_upto rs input 0 = NoRule"
| "lookup_upto rs input (Suc n) =
     (case first_rule rs (take (Suc n) input) of
        Some k \<Rightarrow> Matched (Suc k) (Suc n)
      | None \<Rightarrow> lookup_upto rs input n)"

definition derivative_lookup :: lookup where
  "derivative_lookup rs input = (if input = [] then EndOfInput else lookup_upto rs input (length input))"

lemma nullable_language: "nullable r \<longleftrightarrow> [] \<in> language r"
  by (induction r) (auto intro: repeated_none)

lemma repeated_Cons: "c # w \<in> repeated A \<longleftrightarrow> (\<exists>u v. w = u @ v \<and> c # u \<in> A \<and> v \<in> repeated A)"
proof
  assume "c # w \<in> repeated A"
  then show "\<exists>u v. w = u @ v \<and> c # u \<in> A \<and> v \<in> repeated A"
  proof (induction "c # w")
    case (repeated_more u v)
    then show ?case by (cases u) auto
  qed
next
  assume "\<exists>u v. w = u @ v \<and> c # u \<in> A \<and> v \<in> repeated A"
  then show "c # w \<in> repeated A" using repeated_more [of "c # _"] by fastforce
qed

lemma language_after_char: "w \<in> language (after_char c r) \<longleftrightarrow> c # w \<in> language r"
proof (induction r arbitrary: w)
  case (Followed r s)
  have "c # w \<in> language (Followed r s) \<longleftrightarrow>
      ([] \<in> language r \<and> c # w \<in> language s) \<or> (\<exists>u v. w = u @ v \<and> c # u \<in> language r \<and> v \<in> language s)"
    by (auto simp: Cons_eq_append_conv)
  with Followed show ?case by (auto simp: nullable_language)
qed (auto simp: repeated_Cons)

lemma matches_all_language: "matches_all r w \<longleftrightarrow> w \<in> language r"
  by (induction w arbitrary: r) (auto simp: matches_all_def nullable_language language_after_char)

lemma first_rule_spec:
  "first_rule rs w = Some k \<longleftrightarrow> k < length rs \<and> w \<in> language (rs ! k) \<and> (\<forall>j < k. w \<notin> language (rs ! j))"
  "first_rule rs w = None \<longleftrightarrow> (\<forall>r \<in> set rs. w \<notin> language r)"
proof -
  show "first_rule rs w = Some k \<longleftrightarrow> k < length rs \<and> w \<in> language (rs ! k) \<and> (\<forall>j < k. w \<notin> language (rs ! j))"
    by (auto simp: first_rule_def find_Some_iff matches_all_language intro!: exI [of _ k])
  show "first_rule rs w = None \<longleftrightarrow> (\<forall>r \<in> set rs. w \<notin> language r)"
    by (force simp: first_rule_def find_None_iff matches_all_language in_set_conv_nth)
qed

lemma lookup_upto_matched:
  assumes "longest_first rs input rid n" and "n \<le> k" and "k \<le> length input"
  shows "lookup_upto rs input k = Matched rid n"
  using assms(2,3)
proof (induction k)
  case 0
  with assms(1) show ?case by (simp add: longest_first_def)
next
  case (Suc k)
  show ?case
  proof (cases "n = Suc k")
    case True
    with assms(1) have "first_rule rs (take (Suc k) input) = Some (rid - 1)" "0 < rid"
      by (auto simp: longest_first_def first_rule_spec)
    with True show ?thesis by simp
  next
    case False
    with Suc have "first_rule rs (take (Suc k) input) = None"
      using assms(1) by (auto simp: longest_first_def first_rule_spec)
    with Suc False show ?thesis by simp
  qed
qed

lemma lookup_upto_unmatched: "no_rule_matches rs input \<Longrightarrow> k \<le> length input \<Longrightarrow> lookup_upto rs input k = NoRule"
proof (induction k)
  case (Suc k)
  then have "first_rule rs (take (Suc k) input) = None" by (simp add: no_rule_matches_def first_rule_spec(2))
  with Suc show ?case by simp
qed simp

interpretation derivative: scanner derivative_lookup
proof
  show "derivative_lookup rs [] = EndOfInput" for rs by (simp add: derivative_lookup_def)
  show "derivative_lookup rs input = Matched rid n" if "longest_first rs input rid n" for rs input rid n
    using lookup_upto_matched [OF that, of "length input"] that by (auto simp: derivative_lookup_def longest_first_def)
  show "derivative_lookup rs input = NoRule" if "input \<noteq> []" "no_rule_matches rs input" for rs input
    using lookup_upto_unmatched [OF that(2), of "length input"] that(1) by (simp add: derivative_lookup_def)
qed

end
