(* ===== verification/LexerLemmas.thy ===== *)
theory LexerLemmas
  imports Lexer IoProps
begin

text \<open>
  What the rules of the lexer match, and what a scanner finds at the start of a printed token.
\<close>

section \<open>The languages of the rules\<close>

lemma language_word: "language (word_of w) = {w}"
  by (induction w) (auto simp: word_of_def one_char_def)

lemma repeated_chars: "w \<in> repeated {[c] | c. P c} \<longleftrightarrow> (\<forall>c \<in> set w. P c)"
  by (induction w) (auto intro: repeated_none simp: repeated_Cons)

lemma language_repeat_chars: "w \<in> language (Repeat (OneOf P)) \<longleftrightarrow> (\<forall>c \<in> set w. P c)"
  by (simp add: repeated_chars)

lemma language_char_first: "w \<in> language (Followed (OneOf P) r) \<longleftrightarrow> (\<exists>c s. w = c # s \<and> P c \<and> s \<in> language r)"
  by (auto intro: exI [of _ "[_]"])

lemma language_at_least_one: "w \<in> language (at_least_one (OneOf P)) \<longleftrightarrow> w \<noteq> [] \<and> (\<forall>c \<in> set w. P c)"
  unfolding at_least_one_def language_char_first language_repeat_chars by (cases w) auto

lemma language_identifier: "w \<in> language identifier_pattern \<longleftrightarrow> (\<exists>c s. w = c # s \<and> is_letter c \<and> (\<forall>d \<in> set s. is_word_char d))"
  unfolding identifier_pattern_def language_char_first language_repeat_chars ..

lemma language_comment: "w \<in> language comment_pattern \<longleftrightarrow> (\<exists>s. w = ''//'' @ s \<and> (\<forall>c \<in> set s. c \<noteq> CHR 0x0A))"
  by (auto simp: comment_pattern_def language_word repeated_chars)

text \<open>What follows the opening quotation mark of a literal, up to its end.\<close>

fun literal_rest :: "string \<Rightarrow> bool" where
  "literal_rest [] = False"
| "literal_rest (c # s) =
     (if c = quote then s = []
      else if c = backslash then
        (case s of
           [] \<Rightarrow> False
         | d # s' \<Rightarrow> (d = quote \<or> d = backslash \<or> d = CHR ''n'' \<or> d = CHR ''t'' \<or> d = CHR ''r'') \<and> literal_rest s')
      else literal_rest s)"

lemma literal_rest_repeated:
  assumes "u \<in> repeated (language string_unit)"
  shows "literal_rest (u @ w) \<longleftrightarrow> literal_rest w"
  using assms by induction (auto simp: string_unit_def one_char_def)

lemma literal_rest_units: "literal_rest w \<Longrightarrow> \<exists>u. w = u @ [quote] \<and> u \<in> repeated (language string_unit)"
proof (induction w rule: literal_rest.induct)
  case (2 c s)
  show ?case
  proof (cases "c = quote")
    case True
    with 2 show ?thesis by (auto intro: repeated_none)
  next
    case False
    show ?thesis
    proof (cases "c = backslash")
      case True
      with False 2 obtain d s' where s: "s = d # s'" "literal_rest s'"
          "d = quote \<or> d = backslash \<or> d = CHR ''n'' \<or> d = CHR ''t'' \<or> d = CHR ''r''"
        by (auto split: list.splits)
      with 2(1) False True obtain u where u: "s' = u @ [quote]" "u \<in> repeated (language string_unit)" by auto
      have "[c, d] \<in> language string_unit" using s True by (auto simp: string_unit_def one_char_def)
      from repeated_more [OF this u(2)] s u(1) show ?thesis by (intro exI [of _ "[c, d] @ u"]) simp
    next
      case nb: False
      with False 2 obtain u where u: "s = u @ [quote]" "u \<in> repeated (language string_unit)" by auto
      have "[c] \<in> language string_unit" using False nb by (auto simp: string_unit_def)
      from repeated_more [OF this u(2)] u(1) show ?thesis by (intro exI [of _ "[c] @ u"]) simp
    qed
  qed
qed simp

lemma language_string: "w \<in> language string_pattern \<longleftrightarrow> (\<exists>s. w = quote # s \<and> literal_rest s)"
proof
  assume "w \<in> language string_pattern"
  then obtain u where "w = quote # u @ [quote]" "u \<in> repeated (language string_unit)"
    by (auto simp: string_pattern_def one_char_def)
  then show "\<exists>s. w = quote # s \<and> literal_rest s" by (simp add: literal_rest_repeated)
next
  assume "\<exists>s. w = quote # s \<and> literal_rest s"
  then obtain u where "w = quote # u @ [quote]" "u \<in> repeated (language string_unit)"
    using literal_rest_units by blast
  then show "w \<in> language string_pattern" by (auto simp: string_pattern_def one_char_def)
qed

lemma literal_rest_ends: "literal_rest w \<Longrightarrow> literal_rest (w @ x) \<Longrightarrow> x = []"
  by (induction w rule: literal_rest.induct) (auto split: if_splits list.splits)

section \<open>Printing tokens\<close>

definition escape_literal :: "string \<Rightarrow> string" where
  "escape_literal s = concat (map (\<lambda>c. if c = quote \<or> c = backslash then [backslash, c] else [c]) s)"

primrec token_text :: "token \<Rightarrow> string" where
  "token_text (T_Identifier n) = n"
| "token_text T_For = ''for''"
| "token_text T_In = ''in''"
| "token_text T_Message = ''message''"
| "token_text T_Parts = ''parts''"
| "token_text T_Terminator = ''terminator''"
| "token_text T_Tokens = ''tokens''"
| "token_text (T_Integer i) = decimal_nat (nat (sint i))"
| "token_text (T_String s) = quote # escape_literal s @ [quote]"
| "token_text (T_Boolean b) = (if b then ''True'' else ''False'')"
| "token_text T_AngleBracketClose = ''>''"
| "token_text T_AngleBracketOpen = ''<''"
| "token_text T_Comma = '',''"
| "token_text T_Dot = ''.''"
| "token_text T_CurlyBraceClose = ''}''"
| "token_text T_CurlyBraceOpen = ''{''"
| "token_text T_Equal = ''=''"
| "token_text T_KeyValueSeparator = '':''"
| "token_text T_StatementEnd = '';''"

definition words :: "string list" where
  "words = [''True'', ''False'', ''for'', ''in'', ''message'', ''parts'', ''terminator'', ''tokens'']"

text \<open>Tokens the language can write: identifiers that are not words of the language, and integers
  without a sign.\<close>

fun lexable :: "token \<Rightarrow> bool" where
  "lexable (T_Identifier n) \<longleftrightarrow> n \<noteq> [] \<and> is_letter (hd n) \<and> (\<forall>c \<in> set n. is_word_char c) \<and> n \<notin> set words"
| "lexable (T_Integer i) \<longleftrightarrow> 0 \<le> sint i"
| "lexable t \<longleftrightarrow> True"

lemma escape_literal_simps:
  "escape_literal [] = []"
  "escape_literal (c # s) = (if c = quote \<or> c = backslash then [backslash, c] else [c]) @ escape_literal s"
  by (simp_all add: escape_literal_def)

lemma literal_rest_escape: "literal_rest (escape_literal s @ [quote])"
  by (induction s) (simp_all add: escape_literal_simps)

lemma unescape_escape: "unescape_string (escape_literal s) = s"
proof (induction s)
  case (Cons c s)
  show ?case
  proof (cases "c = quote \<or> c = backslash")
    case True
    then have "c \<noteq> CHR ''n''" "c \<noteq> CHR ''t''" "c \<noteq> CHR ''r''" by auto
    with True Cons show ?thesis by (simp add: escape_literal_simps)
  next
    case False
    with Cons show ?thesis by (cases "escape_literal s") (simp_all add: escape_literal_simps)
  qed
qed (simp add: escape_literal_simps)

lemma atoi_decimal: "0 \<le> sint i \<Longrightarrow> atoi (decimal_nat (nat (sint i))) = i"
proof -
  assume i: "0 \<le> sint i"
  have "sint i < 2 ^ 31" using sint_lt [of i] by simp
  then have "digits_value (decimal_nat (nat (sint i))) < 2 ^ 63" using i by (simp add: decimal_nat_value nat_less_iff)
  then have "strtol_10 (decimal_nat (nat (sint i))) = (int (digits_value (decimal_nat (nat (sint i)))), False)"
    by (intro strtol_10_digits decimal_nat_digits) simp_all
  with i show ?thesis by (simp add: atoi_def decimal_nat_value)
qed

section \<open>A token at the start of the input\<close>

abbreviation patterns :: "regex list" where
  "patterns \<equiv> map fst token_rules"

definition punctuation :: "string list" where
  "punctuation = [''>'', ''<'', '','', ''}'', ''{'', ''='', '':'', '';'', ''.'']"

lemma patterns_unfold:
  "patterns = map word_of words @ [integer_pattern, string_pattern] @ map word_of punctuation
     @ [comment_pattern, blank_pattern, identifier_pattern]"
  by (simp add: token_rules_def words_def punctuation_def)

lemmas pattern_languages = language_word language_string language_comment language_identifier
  language_at_least_one [of _ is_digit, folded integer_pattern_def]
  language_at_least_one [of _ is_blank, folded blank_pattern_def]

lemma char_classes:
  "is_letter c \<Longrightarrow> \<not> is_digit c \<and> \<not> is_blank c \<and> c \<noteq> quote \<and> c \<noteq> CHR ''/'' \<and> c \<notin> set (concat punctuation)"
  "is_digit c \<Longrightarrow> \<not> is_letter c \<and> \<not> is_blank c \<and> c \<noteq> quote \<and> c \<noteq> CHR ''/'' \<and> c \<notin> set (concat punctuation)"
  "\<not> is_digit (CHR '' '')" "\<not> is_word_char (CHR '' '')" "\<not> is_letter quote" "\<not> is_digit quote"
  by (auto simp: is_letter_def is_digit_def is_blank_def is_word_char_def less_eq_char_def punctuation_def)

lemma words_letters: "w \<in> set words \<Longrightarrow> w \<noteq> [] \<and> (\<forall>c \<in> set w. is_letter c)"
  by (auto simp: words_def is_letter_def less_eq_char_def)

text \<open>No rule matches beyond a blank that follows a token.\<close>

lemma blank_ends_token:
  assumes "w \<noteq> []" and "\<not> is_blank (hd w)" and "hd w \<noteq> CHR ''/''" and "hd w = quote \<Longrightarrow> literal_rest (tl w)"
    and "r \<in> set patterns"
  shows "w @ CHR '' '' # z \<notin> language r"
proof
  assume l: "w @ CHR '' '' # z \<in> language r"
  obtain c s where w: "w = c # s" using assms(1) by (cases w) auto
  have "\<not> is_letter (CHR '' '')" by (simp add: is_letter_def less_eq_char_def)
  then have "w @ CHR '' '' # z \<notin> set words" using words_letters [of "w @ CHR '' '' # z"] by auto
  moreover have "w @ CHR '' '' # z \<notin> set punctuation" by (auto simp: punctuation_def Cons_eq_append_conv append_eq_Cons_conv)
  ultimately consider "r = integer_pattern" | "r = string_pattern" | "r = comment_pattern" | "r = blank_pattern" | "r = identifier_pattern"
    using assms(5) l by (auto simp: patterns_unfold language_word)
  then show False
  proof cases
    case 2
    with l assms(4) literal_rest_ends [of s "CHR '' '' # z"] show False by (auto simp: pattern_languages w)
  qed (use l assms(2,3) char_classes(3,4) in \<open>auto simp: pattern_languages w Cons_eq_append_conv\<close>)
qed

text \<open>The rule of each token.\<close>

primrec rule_of :: "token \<Rightarrow> nat" where
  "rule_of (T_Boolean b) = (if b then 0 else 1)"
| "rule_of T_For = 2"
| "rule_of T_In = 3"
| "rule_of T_Message = 4"
| "rule_of T_Parts = 5"
| "rule_of T_Terminator = 6"
| "rule_of T_Tokens = 7"
| "rule_of (T_Integer i) = 8"
| "rule_of (T_String s) = 9"
| "rule_of T_AngleBracketClose = 10"
| "rule_of T_AngleBracketOpen = 11"
| "rule_of T_Comma = 12"
| "rule_of T_CurlyBraceClose = 13"
| "rule_of T_CurlyBraceOpen = 14"
| "rule_of T_Equal = 15"
| "rule_of T_KeyValueSeparator = 16"
| "rule_of T_StatementEnd = 17"
| "rule_of T_Dot = 18"
| "rule_of (T_Identifier n) = 21"

lemma rule_of_push: "lexable t \<Longrightarrow> push_token (Suc (rule_of t)) (token_text t) ts = ts @ [t]"
  by (cases t) (simp_all add: push_token_def token_rules_def unescape_escape atoi_decimal)

lemma token_text_start:
  assumes "lexable t"
  shows "token_text t \<noteq> []" and "\<not> is_blank (hd (token_text t))" and "hd (token_text t) \<noteq> CHR ''/''"
    and "hd (token_text t) = quote \<Longrightarrow> literal_rest (tl (token_text t))"
proof -
  have d: "decimal_nat n \<noteq> [] \<and> is_digit (hd (decimal_nat n))" for n
    using decimal_nat_digits [of n] decimal_nat_nonempty [of n] by (cases "decimal_nat n") auto
  have "token_text t \<noteq> [] \<and> \<not> is_blank (hd (token_text t)) \<and> hd (token_text t) \<noteq> CHR ''/''
      \<and> (hd (token_text t) = quote \<longrightarrow> literal_rest (tl (token_text t)))"
  proof (cases t)
    case (T_Identifier n)
    with assms char_classes(1) show ?thesis by auto
  next
    case (T_Integer i)
    with d char_classes(2) show ?thesis by auto
  qed (simp_all add: is_blank_def literal_rest_escape)
  then show "token_text t \<noteq> []" and "\<not> is_blank (hd (token_text t))" and "hd (token_text t) \<noteq> CHR ''/''"
    and "hd (token_text t) = quote \<Longrightarrow> literal_rest (tl (token_text t))" by blast+
qed

lemma token_rule:
  assumes "lexable t"
  shows "token_text t \<in> language (patterns ! rule_of t)" and "\<forall>r \<in> set (take (rule_of t) patterns). token_text t \<notin> language r"
proof -
  have p: "patterns = [word_of ''True'', word_of ''False'', word_of ''for'', word_of ''in'', word_of ''message'', word_of ''parts'',
      word_of ''terminator'', word_of ''tokens'', integer_pattern, string_pattern, word_of ''>'', word_of ''<'', word_of '','',
      word_of ''}'', word_of ''{'', word_of ''='', word_of '':'', word_of '';'', word_of ''.'', comment_pattern, blank_pattern,
      identifier_pattern]"
    by (simp add: token_rules_def)
  have d: "decimal_nat n = c # s \<Longrightarrow> is_digit c" for n c s using decimal_nat_digits [of n] by auto
  have digit: "\<not> is_digit c" if "\<exists>w \<in> set words. \<exists>s. w = c # s" for c
    using that char_classes(1) words_letters by fastforce
  have "token_text t \<in> language (patterns ! rule_of t) \<and> (\<forall>r \<in> set (take (rule_of t) patterns). token_text t \<notin> language r)"
  proof (cases t)
    case (T_Identifier n)
    with assms obtain c s where n: "n = c # s" "is_letter c" "\<forall>d \<in> set s. is_word_char d" "n \<notin> set words" by (cases n) auto
    have c: "\<not> is_digit c" "\<not> is_blank c" "c \<noteq> quote" "c \<noteq> CHR ''/''" "c \<notin> set (concat punctuation)" using char_classes(1) [OF n(2)] by auto
    have "n \<in> language identifier_pattern" using n(1-3) by (simp add: language_identifier)
    moreover have "\<forall>w \<in> set punctuation. n \<noteq> w" using c(5) n(1) by (auto simp: punctuation_def)
    moreover have "\<forall>r \<in> {integer_pattern, string_pattern, comment_pattern, blank_pattern}. n \<notin> language r"
      using c(1-4) n(1) by (auto simp: pattern_languages)
    moreover have "patterns ! 21 = identifier_pattern" by (simp add: p)
    moreover have "take 21 patterns = map word_of words @ [integer_pattern, string_pattern] @ map word_of punctuation @ [comment_pattern, blank_pattern]"
      by (simp add: patterns_unfold words_def punctuation_def)
    ultimately show ?thesis using n(4) by (auto simp: T_Identifier language_word)
  next
    case (T_Integer i)
    obtain c s where i: "decimal_nat (nat (sint i)) = c # s" using decimal_nat_nonempty by (cases "decimal_nat (nat (sint i))") auto
    have "token_text t \<in> language integer_pattern"
      using decimal_nat_digits decimal_nat_nonempty by (simp add: T_Integer pattern_languages)
    moreover have "token_text t \<noteq> w" if "w \<in> set words" for w using digit [of c] d [OF i] that i by (auto simp: T_Integer)
    moreover have "patterns ! 8 = integer_pattern" by (simp add: p)
    moreover have "take 8 patterns = map word_of words" by (simp add: patterns_unfold words_def)
    ultimately show ?thesis by (auto simp: T_Integer language_word)
  next
    case (T_String s)
    have "token_text t \<in> language string_pattern" using literal_rest_escape by (simp add: T_String pattern_languages)
    moreover have "token_text t \<noteq> w" if "w \<in> set words" for w
      using words_letters [OF that] char_classes(5) by (auto simp: T_String)
    moreover have "patterns ! 9 = string_pattern" by (simp add: p)
    moreover have "take 9 patterns = map word_of words @ [integer_pattern]" by (simp add: patterns_unfold words_def)
    ultimately show ?thesis using char_classes(6) by (auto simp: T_String language_word pattern_languages)
  qed (simp_all add: p language_word pattern_languages char_classes(1) is_digit_def less_eq_char_def)
  then show "token_text t \<in> language (patterns ! rule_of t)" and "\<forall>r \<in> set (take (rule_of t) patterns). token_text t \<notin> language r"
    by blast+
qed

lemma longest_firstI:
  assumes "w \<noteq> []" and "k < length rs" and "w \<in> language (rs ! k)" and "\<forall>r \<in> set (take k rs). w \<notin> language r"
    and "\<And>r y. r \<in> set rs \<Longrightarrow> y \<noteq> [] \<Longrightarrow> prefix y x \<Longrightarrow> w @ y \<notin> language r"
  shows "longest_first rs (w @ x) (Suc k) (length w)"
proof -
  have "w \<notin> language (rs ! j)" if "j < k" for j
    using assms(2,4) that nth_mem [of j "take k rs"] by simp
  moreover have "take m (w @ x) \<notin> language r" if "length w < m" "m \<le> length (w @ x)" "r \<in> set rs" for m r
  proof -
    have "x \<noteq> []" using that(1,2) by auto
    with assms(5) [OF that(3), of "take (m - length w) x"] that(1,2) show ?thesis by (simp add: take_is_prefix)
  qed
  ultimately show ?thesis using assms(1-3) by (simp add: longest_first_def)
qed

lemma token_found:
  assumes "lexable t"
  shows "longest_first patterns (token_text t @ CHR '' '' # rest) (Suc (rule_of t)) (length (token_text t))"
proof (rule longest_firstI)
  show "rule_of t < length patterns" by (cases t) (simp_all add: token_rules_def)
  show "token_text t @ y \<notin> language r" if "r \<in> set patterns" "y \<noteq> []" "prefix y (CHR '' '' # rest)" for r y
    using blank_ends_token [OF token_text_start [OF assms] that(1)] that(2,3) by (cases y) auto
qed (use assms token_text_start token_rule in auto)

lemma blank_found:
  assumes "rest = [] \<or> \<not> is_blank (hd rest)"
  shows "longest_first patterns (CHR '' '' # rest) 21 1"
proof -
  have s: "\<not> is_digit (CHR '' '')" "\<not> is_letter (CHR '' '')" "is_blank (CHR '' '')"
    by (simp_all add: is_digit_def is_letter_def is_blank_def less_eq_char_def)
  have other: "CHR '' '' # y \<notin> language r" if "r \<in> set patterns" "r \<noteq> blank_pattern" for r y
  proof -
    have "CHR '' '' # y \<notin> set words" using words_letters [of "CHR '' '' # y"] s(2) by auto
    moreover have "CHR '' '' # y \<notin> set punctuation" by (simp add: punctuation_def)
    ultimately show ?thesis using that s by (auto simp: patterns_unfold pattern_languages)
  qed
  have "longest_first patterns ([CHR '' ''] @ rest) (Suc 20) (length [CHR '' ''])"
  proof (rule longest_firstI)
    show "20 < length patterns" by (simp add: token_rules_def)
    show "[CHR '' ''] \<in> language (patterns ! 20)" using s(3) by (simp add: token_rules_def pattern_languages)
    have "take 20 patterns = map word_of words @ [integer_pattern, string_pattern] @ map word_of punctuation @ [comment_pattern]"
      by (simp add: patterns_unfold words_def punctuation_def)
    moreover have "\<forall>w \<in> set words \<union> set punctuation. w \<noteq> [CHR '' '']" by (simp add: words_def punctuation_def)
    ultimately show "\<forall>r \<in> set (take 20 patterns). [CHR '' ''] \<notin> language r" using s by (auto simp: pattern_languages)
    show "[CHR '' ''] @ y \<notin> language r" if "r \<in> set patterns" "y \<noteq> []" "prefix y rest" for r y
    proof (cases "r = blank_pattern")
      case True
      have "hd y = hd rest" "rest \<noteq> []" using that(2,3) by (auto simp: prefix_def)
      with assms that(2) True show ?thesis by (cases y) (auto simp: pattern_languages)
    qed (use other that(1) in simp)
  qed simp
  then show ?thesis by simp
qed

section \<open>Printed tokens are read back\<close>

definition source_of_tokens :: "token list \<Rightarrow> string" where
  "source_of_tokens ts = concat (map (\<lambda>t. token_text t @ '' '') ts)"

lemma source_start: "\<forall>t \<in> set ts. lexable t \<Longrightarrow> source_of_tokens ts = [] \<or> \<not> is_blank (hd (source_of_tokens ts))"
  using token_text_start(1,2) by (cases ts) (auto simp: source_of_tokens_def)

context scanner
begin

lemma loop_matched: "longest_first patterns input n k \<Longrightarrow>
    tokenize_loop lookup input ts = tokenize_loop lookup (drop k input) (push_token n (take k input) ts)"
  by (subst tokenize_loop.simps) (simp add: matched)

lemma loop_end: "tokenize_loop lookup [] ts = Some (Some ts)"
  by (subst tokenize_loop.simps) (simp add: at_end)

lemma loop_unmatched: "input \<noteq> [] \<Longrightarrow> no_rule_matches patterns input \<Longrightarrow> tokenize_loop lookup input ts = Some None"
  by (subst tokenize_loop.simps) (simp add: unmatched)

lemma tokenize_source: "\<forall>t \<in> set ts. lexable t \<Longrightarrow> tokenize lookup (source_of_tokens ts) = Some (Some ts)"
proof -
  have "\<forall>t \<in> set ts. lexable t \<Longrightarrow> tokenize_loop lookup (source_of_tokens ts) us = Some (Some (us @ ts))" for us
  proof (induction ts arbitrary: us)
    case Nil
    then show ?case by (simp add: source_of_tokens_def loop_end)
  next
    case (Cons t ts)
    have s: "source_of_tokens (t # ts) = token_text t @ CHR '' '' # source_of_tokens ts" by (simp add: source_of_tokens_def)
    have t: "lexable t" using Cons.prems by simp
    have "tokenize_loop lookup (source_of_tokens (t # ts)) us = tokenize_loop lookup (CHR '' '' # source_of_tokens ts) (us @ [t])"
      unfolding s using loop_matched [OF token_found [OF t]] rule_of_push [OF t] by simp
    also have "\<dots> = tokenize_loop lookup (source_of_tokens ts) (us @ [t])"
      using loop_matched [OF blank_found [OF source_start]] Cons.prems by (simp add: push_token_def token_rules_def)
    finally show ?case using Cons by simp
  qed
  then show "\<forall>t \<in> set ts. lexable t \<Longrightarrow> tokenize lookup (source_of_tokens ts) = Some (Some ts)" by (simp add: tokenize_def)
qed

end

end
