(* ===== verification/InterpretedProgram.thy ===== *)
theory InterpretedProgram
  imports Lexer Grammar Generate
begin

text \<open>
  \<open>interpretedprogram.cpp\<close>: from the text of a protocol to the operation tree of one of its
  agents. The contents of the file are an argument, \<open>None\<close> when it cannot be opened. The outer
  \<open>None\<close> is a scanner that does not come to the end of the text.
\<close>

definition parse_protocol_from_source :: "lookup \<Rightarrow> string \<Rightarrow> protocol option option" where
  "parse_protocol_from_source lookup source =
     (case tokenize lookup source of
        None \<Rightarrow> None
      | Some None \<Rightarrow> Some None
      | Some (Some tokens) \<Rightarrow>
          Some (case parse tokens of None \<Rightarrow> None | Some ast \<Rightarrow> analyze ast))"

definition generate_client_from_source :: "lookup \<Rightarrow> string \<Rightarrow> optree generated option" where
  "generate_client_from_source lookup source =
     map_option (\<lambda>p. case p of None \<Rightarrow> Inr None | Some protocol \<Rightarrow> generate_client protocol)
       (parse_protocol_from_source lookup source)"

definition generate_server_from_source :: "lookup \<Rightarrow> string \<Rightarrow> optree generated option" where
  "generate_server_from_source lookup source =
     map_option (\<lambda>p. case p of None \<Rightarrow> Inr None | Some protocol \<Rightarrow> generate_server protocol)
       (parse_protocol_from_source lookup source)"

definition generate_client_from_file :: "lookup \<Rightarrow> string option \<Rightarrow> optree generated option" where
  "generate_client_from_file lookup contents =
     (case contents of None \<Rightarrow> Some (Inr None) | Some content \<Rightarrow> generate_client_from_source lookup content)"

definition generate_server_from_file :: "lookup \<Rightarrow> string option \<Rightarrow> optree generated option" where
  "generate_server_from_file lookup contents =
     (case contents of None \<Rightarrow> Some (Inr None) | Some content \<Rightarrow> generate_server_from_source lookup content)"

end
