(* ===== verification/SourceTheorems.thy ===== *)
theory SourceTheorems
  imports LexerLemmas GrammarTheorems InterpretedProgram
begin

text \<open>
  The properties of the lexer and of the way from the text of a protocol to a program, for any
  scanner that keeps the promises of \<open>scanner\<close>.
\<close>

section \<open>Lexemes\<close>

text \<open>The text cut into lexemes, each with the rule that matched it, and the rest that was not cut.\<close>

inductive chopped :: "string \<Rightarrow> (nat \<times> string) list \<Rightarrow> string \<Rightarrow> bool" where
  chopped_stop: "chopped input [] input"
| chopped_next: "longest_first patterns input k n \<Longrightarrow> chopped (drop n input) ls rest \<Longrightarrow>
    chopped input ((k, take n input) # ls) rest"

lemma chopped_concat: "chopped input ls rest \<Longrightarrow> input = concat (map snd ls) @ rest"
proof (induction rule: chopped.induct)
  case (chopped_next input k n ls rest)
  then show ?case by (metis append_assoc append_take_drop_id concat.simps(2) list.simps(9) snd_conv)
qed simp

lemma longest_first_exists:
  assumes "\<not> no_rule_matches rs input"
  shows "\<exists>k n. longest_first rs input k n"
proof -
  let ?P = "\<lambda>m. 0 < m \<and> m \<le> length input \<and> (\<exists>r \<in> set rs. take m input \<in> language r)"
  define n where "n = (GREATEST m. ?P m)"
  from assms obtain m where m: "?P m" unfolding no_rule_matches_def by blast
  have n: "?P n" unfolding n_def by (rule GreatestI_nat [of ?P m "length input"]) (use m in simp_all)
  have most: "m \<le> n" if "?P m" for m
    unfolding n_def by (rule Greatest_le_nat [of ?P m "length input"]) (use that in simp_all)
  have longer: "take m input \<notin> language r" if "n < m" "m \<le> length input" "r \<in> set rs" for m r
  proof
    assume "take m input \<in> language r"
    with that(3) have "\<exists>r \<in> set rs. take m input \<in> language r" by blast
    moreover have "0 < m" using that(1) by simp
    ultimately have "m \<le> n" using that(2) by (intro most) blast
    with that(1) show False by simp
  qed
  let ?Q = "\<lambda>j. j < length rs \<and> take n input \<in> language (rs ! j)"
  define j where "j = (LEAST j. ?Q j)"
  from n obtain i where i: "i < length rs \<and> take n input \<in> language (rs ! i)" by (metis in_set_conv_nth)
  have j: "j < length rs \<and> take n input \<in> language (rs ! j)" unfolding j_def by (rule LeastI [of ?Q, OF i])
  have "take n input \<notin> language (rs ! i)" if "i < j" for i
  proof -
    have "\<not> ?Q i" using not_less_Least [of i ?Q] that unfolding j_def by blast
    with that j show ?thesis by simp
  qed
  with n j longer have "longest_first rs input (Suc j) n" by (simp add: longest_first_def)
  then show ?thesis by blast
qed

lemma push_token_append: "push_token k s ts = ts @ push_token k s []"
  by (simp add: push_token_def Let_def)

definition tokens_of_lexemes :: "(nat \<times> string) list \<Rightarrow> token list" where
  "tokens_of_lexemes ls = concat (map (\<lambda>(k, s). push_token k s []) ls)"

context scanner
begin

lemma loop_chops:
  "\<exists>ls rest. chopped input ls rest \<and> (rest = [] \<or> no_rule_matches patterns rest)
    \<and> tokenize_loop lookup input ts = Some (if rest = [] then Some (ts @ tokens_of_lexemes ls) else None)"
proof (induction input arbitrary: ts rule: measure_induct_rule [of length])
  case (less input)
  consider "input = []" | "input \<noteq> []" "no_rule_matches patterns input" | "input \<noteq> []" "\<not> no_rule_matches patterns input" by blast
  then show ?case
  proof cases
    case 1
    then show ?thesis
      by (intro exI [of _ "[]"]) (auto simp: loop_end tokens_of_lexemes_def intro: chopped_stop)
  next
    case 2
    then show ?thesis
      by (intro exI [of _ "[]"] exI [of _ input]) (auto simp: loop_unmatched intro: chopped_stop)
  next
    case 3
    then obtain k n where kn: "longest_first patterns input k n" using longest_first_exists by blast
    then have "0 < n" "n \<le> length input" unfolding longest_first_def by blast+
    then have "length (drop n input) < length input" by simp
    from less [OF this, of "push_token k (take n input) ts"] obtain ls rest where
      ls: "chopped (drop n input) ls rest" "rest = [] \<or> no_rule_matches patterns rest"
        "tokenize_loop lookup (drop n input) (push_token k (take n input) ts) =
           Some (if rest = [] then Some (push_token k (take n input) ts @ tokens_of_lexemes ls) else None)" by blast
    have "push_token k (take n input) ts @ tokens_of_lexemes ls = ts @ tokens_of_lexemes ((k, take n input) # ls)"
      by (subst push_token_append) (simp add: tokens_of_lexemes_def)
    with ls chopped_next [OF kn ls(1)] loop_matched [OF kn, of ts] show ?thesis by auto
  qed
qed

lemma tokenize_chops:
  "\<exists>ls rest. chopped input ls rest \<and> input = concat (map snd ls) @ rest \<and> (rest = [] \<or> no_rule_matches patterns rest)
    \<and> tokenize lookup input = Some (if rest = [] then Some (tokens_of_lexemes ls) else None)"
  using loop_chops [of input "[]"] chopped_concat by (fastforce simp: tokenize_def)

end

text \<open>C19: With a scanner that keeps its promises the lexer comes to an end on every text. It cuts the
  text into lexemes, each the longest text some rule matches there and with the first of these rules,
  and answers their tokens; when no rule matches before the end of the text, it answers no tokens.\<close>

theorem tokenize_longest_lexemes:
  assumes "scanner lookup"
  shows "\<exists>ls rest. chopped input ls rest \<and> input = concat (map snd ls) @ rest \<and> (rest = [] \<or> no_rule_matches patterns rest)
    \<and> tokenize lookup input = Some (if rest = [] then Some (tokens_of_lexemes ls) else None)"
  using assms by (rule scanner.tokenize_chops)

theorem tokenize_longest_lexemes_witness:
  "\<exists>ls rest. chopped ''for forms'' ls rest \<and> ''for forms'' = concat (map snd ls) @ rest
    \<and> tokenize derivative_lookup ''for forms'' = Some (if rest = [] then Some (tokens_of_lexemes ls) else None)"
  using tokenize_longest_lexemes [OF derivative.scanner_axioms, of "''for forms''"] by blast

section \<open>From the text to the program\<close>

definition source_of_protocol :: "protocol_description \<Rightarrow> string" where
  "source_of_protocol p = source_of_tokens (tokens_of_protocol p)"

lemma parse_source:
  assumes "scanner lookup" and "wf_protocol p" and "\<forall>t \<in> set (tokens_of_protocol p). lexable t"
  shows "parse_protocol_from_source lookup (source_of_protocol p) = Some (analyze p)"
  using scanner.tokenize_source [OF assms(1,3)] parse_printed [OF assms(2)]
  by (simp add: parse_protocol_from_source_def source_of_protocol_def)



end
