(* ===== verification/CppText.thy ===== *)
theory CppText
  imports ParseTree PureOps
begin

text \<open>
  \<open>codegen/outputcontext.cpp\<close> and the text the code generator writes. A chain of
  \<open><<\<close> that ends in a line break is a \<open>line\<close>. The second half is the view of a C++ compiler
  on this text, as far as it is needed to say that a generated file is well formed: the value
  of a string literal, and the nesting of brackets outside literals and comments.
\<close>

section \<open>Output\<close>

definition line :: "string list \<Rightarrow> string" where
  "line ss = concat ss @ [CHR 0x0A]"

definition lines :: "string list list \<Rightarrow> string" where
  "lines ls = concat (map line ls)"

text \<open>The character classes of the C locale.\<close>

definition is_upper :: "char \<Rightarrow> bool" where
  "is_upper c \<longleftrightarrow> CHR ''A'' \<le> c \<and> c \<le> CHR ''Z''"

definition is_lower :: "char \<Rightarrow> bool" where
  "is_lower c \<longleftrightarrow> CHR ''a'' \<le> c \<and> c \<le> CHR ''z''"

definition is_decimal :: "char \<Rightarrow> bool" where
  "is_decimal c \<longleftrightarrow> CHR ''0'' \<le> c \<and> c \<le> CHR ''9''"

definition is_alnum :: "char \<Rightarrow> bool" where
  "is_alnum c \<longleftrightarrow> is_upper c \<or> is_lower c \<or> is_decimal c"

definition is_print :: "char \<Rightarrow> bool" where
  "is_print c \<longleftrightarrow> CHR '' '' \<le> c \<and> c \<le> CHR ''~''"

definition to_upper :: "char \<Rightarrow> char" where
  "to_upper c = (if is_lower c then char_of (of_char c - 32 :: nat) else c)"

section \<open>\<open>OutputContext\<close>\<close>

record output_context =
  target_namespace :: string

definition open_namespace :: "output_context \<Rightarrow> string" where
  "open_namespace ctx = line [''namespace '', target_namespace ctx, '' {'']"

definition close_namespace :: "output_context \<Rightarrow> string" where
  "close_namespace ctx = line [''} // namespace '', target_namespace ctx]"

definition guard_char :: "char \<Rightarrow> char" where
  "guard_char c =
     (if c = CHR '':'' \<or> c = CHR ''/'' \<or> c = CHR 0x5C \<or> c = CHR ''.'' then CHR ''_'' else to_upper c)"

text \<open>The loop that removes consecutive underscores.\<close>

fun collapse_underscores :: "bool \<Rightarrow> string \<Rightarrow> string" where
  "collapse_underscores last_was_underscore [] = []"
| "collapse_underscores last_was_underscore (c # cs) =
     (if c = CHR ''_'' then
        (if last_was_underscore then collapse_underscores True cs
         else c # collapse_underscores True cs)
      else c # collapse_underscores False cs)"

definition header_guard :: "output_context \<Rightarrow> string \<Rightarrow> string" where
  "header_guard ctx filename =
     ''GENERATED_'' @ collapse_underscores False
       (map guard_char (target_namespace ctx @ ''_'' @ filename))"

definition hex_digit :: "nat \<Rightarrow> char" where
  "hex_digit n = (if n < 10 then char_of (48 + n) else char_of (87 + n))"

definition escape_char :: "char \<Rightarrow> string" where
  "escape_char c =
     (if c = CHR 0x0D then [CHR 0x5C, CHR ''r'']
      else if c = CHR 0x0A then [CHR 0x5C, CHR ''n'']
      else if c = CHR 0x09 then [CHR 0x5C, CHR ''t'']
      else if c = CHR 0x5C then [CHR 0x5C, CHR 0x5C]
      else if c = CHR 0x22 then [CHR 0x5C, CHR 0x22]
      else if is_print c then [c]
      else [CHR 0x5C, CHR ''x'', hex_digit (of_char c div 16), hex_digit (of_char c mod 16)])"

definition escape_string_literal :: "string \<Rightarrow> string" where
  "escape_string_literal s = [CHR 0x22] @ concat (map escape_char s) @ [CHR 0x22]"

section \<open>What a compiler reads\<close>

text \<open>
  The value of a narrow string literal. A simple escape stands for one character; \<open>\\x\<close> takes
  every hexadecimal digit that follows, and is an error when the value is no character.
\<close>

definition hex_value :: "char \<Rightarrow> nat option" where
  "hex_value c =
     (if is_decimal c then Some (of_char c - 48)
      else if CHR ''a'' \<le> c \<and> c \<le> CHR ''f'' then Some (of_char c - 87)
      else if CHR ''A'' \<le> c \<and> c \<le> CHR ''F'' then Some (of_char c - 55)
      else None)"

definition simple_escape :: "char \<Rightarrow> char option" where
  "simple_escape c =
     (if c = CHR ''r'' then Some (CHR 0x0D)
      else if c = CHR ''n'' then Some (CHR 0x0A)
      else if c = CHR ''t'' then Some (CHR 0x09)
      else if c = CHR 0x5C \<or> c = CHR 0x22 then Some c
      else None)"

text \<open>\<open>lit_hex\<close> is inside a hexadecimal escape whose value so far is \<open>v\<close>.\<close>

datatype literal_state = InLiteral | InEscape | InHexStart | InHex nat

fun literal_value :: "literal_state \<Rightarrow> string \<Rightarrow> string option" where
  "literal_value st [] = None"
| "literal_value InEscape (c # cs) =
     (if c = CHR ''x'' then literal_value InHexStart cs
      else case simple_escape c of None \<Rightarrow> None | Some x \<Rightarrow> map_option ((#) x) (literal_value InLiteral cs))"
| "literal_value InHexStart (c # cs) = (case hex_value c of None \<Rightarrow> None | Some v \<Rightarrow> literal_value (InHex v) cs)"
| "literal_value InLiteral (c # cs) =
     (if c = CHR 0x22 then (if cs = [] then Some [] else None)
      else if c = CHR 0x5C then literal_value InEscape cs
      else if c = CHR 0x0A then None
      else map_option ((#) c) (literal_value InLiteral cs))"
| "literal_value (InHex v) (c # cs) =
     (case hex_value c of
        Some d \<Rightarrow> literal_value (InHex (16 * v + d)) cs
      | None \<Rightarrow>
          if 256 \<le> v then None
          else map_option ((#) (char_of v))
            (if c = CHR 0x22 then (if cs = [] then Some [] else None)
             else if c = CHR 0x5C then literal_value InEscape cs
             else if c = CHR 0x0A then None
             else map_option ((#) c) (literal_value InLiteral cs)))"

definition cpp_literal_value :: "string \<Rightarrow> string option" where
  "cpp_literal_value s = (case s of c # cs \<Rightarrow> if c = CHR 0x22 then literal_value InLiteral cs else None | [] \<Rightarrow> None)"

section \<open>Brackets\<close>

text \<open>
  A scanner for generated files: brackets nest outside string literals and comments, and a
  backslash at the end of a line comment continues it. A character literal, or a line break in
  a string literal, stops the scanner.
\<close>

datatype char_class = Plain | Open char | Close char | Quote | Backslash | SlashChar | Star | Newline | Apostrophe

definition class_of :: "char \<Rightarrow> char_class" where
  "class_of c =
     (if c = CHR ''{'' then Open (CHR ''}'') else if c = CHR ''('' then Open (CHR '')'')
      else if c = CHR ''['' then Open (CHR '']'')
      else if c = CHR ''}'' \<or> c = CHR '')'' \<or> c = CHR '']'' then Close c
      else if c = CHR 0x22 then Quote else if c = CHR 0x5C then Backslash
      else if c = CHR ''/'' then SlashChar else if c = CHR ''*'' then Star
      else if c = CHR 0x0A then Newline else if c = CHR 0x27 then Apostrophe
      else Plain)"

datatype scan_mode = Code | Slash | LineComment | BlockComment | BlockStar | CommentEscape | InString | InStringEscape

text \<open>The mode and the brackets still to close; \<open>None\<close> when the text is not well formed.\<close>

type_synonym scan_state = "(scan_mode \<times> char list) option"

fun scan_code :: "char list \<Rightarrow> char_class \<Rightarrow> scan_state" where
  "scan_code st (Open c) = Some (Code, c # st)"
| "scan_code (c' # st) (Close c) = (if c = c' then Some (Code, st) else None)"
| "scan_code [] (Close c) = None"
| "scan_code st Quote = Some (InString, st)"
| "scan_code st SlashChar = Some (Slash, st)"
| "scan_code st Apostrophe = None"
| "scan_code st Backslash = None"
| "scan_code st _ = Some (Code, st)"

fun scan_class :: "scan_mode \<Rightarrow> char list \<Rightarrow> char_class \<Rightarrow> scan_state" where
  "scan_class Code st k = scan_code st k"
| "scan_class Slash st SlashChar = Some (LineComment, st)"
| "scan_class Slash st Star = Some (BlockComment, st)"
| "scan_class Slash st k = scan_code st k"
| "scan_class LineComment st Newline = Some (Code, st)"
| "scan_class LineComment st Backslash = Some (CommentEscape, st)"
| "scan_class LineComment st _ = Some (LineComment, st)"
| "scan_class CommentEscape st Backslash = Some (CommentEscape, st)"
| "scan_class CommentEscape st _ = Some (LineComment, st)"
| "scan_class BlockComment st Star = Some (BlockStar, st)"
| "scan_class BlockComment st _ = Some (BlockComment, st)"
| "scan_class BlockStar st SlashChar = Some (Code, st)"
| "scan_class BlockStar st Star = Some (BlockStar, st)"
| "scan_class BlockStar st _ = Some (BlockComment, st)"
| "scan_class InString st Quote = Some (Code, st)"
| "scan_class InString st Backslash = Some (InStringEscape, st)"
| "scan_class InString st Newline = None"
| "scan_class InString st _ = Some (InString, st)"
| "scan_class InStringEscape st Newline = None"
| "scan_class InStringEscape st _ = Some (InString, st)"

fun scan :: "scan_state \<Rightarrow> string \<Rightarrow> scan_state" where
  "scan None cs = None"
| "scan (Some (m, st)) [] = Some (m, st)"
| "scan (Some (m, st)) (c # cs) = scan (scan_class m st (class_of c)) cs"

definition balanced :: "string \<Rightarrow> bool" where
  "balanced s \<longleftrightarrow> scan (Some (Code, [])) s = Some (Code, [])"

text \<open>The classes one by one: scanning a fixed line of a template is then one lookup per character.\<close>

lemma class_of_simps [simp]:
  "class_of (CHR '' '') = Plain" "class_of (CHR ''!'') = Plain" "class_of (CHR ''#'') = Plain"
  "class_of (CHR ''$'') = Plain" "class_of (CHR ''%'') = Plain" "class_of (CHR ''&'') = Plain"
  "class_of (CHR ''+'') = Plain" "class_of (CHR '','') = Plain" "class_of (CHR ''-'') = Plain"
  "class_of (CHR ''.'') = Plain" "class_of (CHR ''0'') = Plain" "class_of (CHR ''1'') = Plain"
  "class_of (CHR ''2'') = Plain" "class_of (CHR ''3'') = Plain" "class_of (CHR ''4'') = Plain"
  "class_of (CHR ''5'') = Plain" "class_of (CHR ''6'') = Plain" "class_of (CHR ''7'') = Plain"
  "class_of (CHR ''8'') = Plain" "class_of (CHR ''9'') = Plain" "class_of (CHR '':'') = Plain"
  "class_of (CHR '';'') = Plain" "class_of (CHR ''<'') = Plain" "class_of (CHR ''='') = Plain"
  "class_of (CHR ''>'') = Plain" "class_of (CHR ''?'') = Plain" "class_of (CHR ''@'') = Plain"
  "class_of (CHR ''A'') = Plain" "class_of (CHR ''B'') = Plain" "class_of (CHR ''C'') = Plain"
  "class_of (CHR ''D'') = Plain" "class_of (CHR ''E'') = Plain" "class_of (CHR ''F'') = Plain"
  "class_of (CHR ''G'') = Plain" "class_of (CHR ''H'') = Plain" "class_of (CHR ''I'') = Plain"
  "class_of (CHR ''J'') = Plain" "class_of (CHR ''K'') = Plain" "class_of (CHR ''L'') = Plain"
  "class_of (CHR ''M'') = Plain" "class_of (CHR ''N'') = Plain" "class_of (CHR ''O'') = Plain"
  "class_of (CHR ''P'') = Plain" "class_of (CHR ''Q'') = Plain" "class_of (CHR ''R'') = Plain"
  "class_of (CHR ''S'') = Plain" "class_of (CHR ''T'') = Plain" "class_of (CHR ''U'') = Plain"
  "class_of (CHR ''V'') = Plain" "class_of (CHR ''W'') = Plain" "class_of (CHR ''X'') = Plain"
  "class_of (CHR ''Y'') = Plain" "class_of (CHR ''Z'') = Plain" "class_of (CHR ''^'') = Plain"
  "class_of (CHR ''_'') = Plain" "class_of (CHR ''`'') = Plain" "class_of (CHR ''a'') = Plain"
  "class_of (CHR ''b'') = Plain" "class_of (CHR ''c'') = Plain" "class_of (CHR ''d'') = Plain"
  "class_of (CHR ''e'') = Plain" "class_of (CHR ''f'') = Plain" "class_of (CHR ''g'') = Plain"
  "class_of (CHR ''h'') = Plain" "class_of (CHR ''i'') = Plain" "class_of (CHR ''j'') = Plain"
  "class_of (CHR ''k'') = Plain" "class_of (CHR ''l'') = Plain" "class_of (CHR ''m'') = Plain"
  "class_of (CHR ''n'') = Plain" "class_of (CHR ''o'') = Plain" "class_of (CHR ''p'') = Plain"
  "class_of (CHR ''q'') = Plain" "class_of (CHR ''r'') = Plain" "class_of (CHR ''s'') = Plain"
  "class_of (CHR ''t'') = Plain" "class_of (CHR ''u'') = Plain" "class_of (CHR ''v'') = Plain"
  "class_of (CHR ''w'') = Plain" "class_of (CHR ''x'') = Plain" "class_of (CHR ''y'') = Plain"
  "class_of (CHR ''z'') = Plain" "class_of (CHR ''|'') = Plain" "class_of (CHR ''~'') = Plain"
  "class_of (CHR ''{'') = Open (CHR ''}'')" "class_of (CHR ''('') = Open (CHR '')'')"
  "class_of (CHR ''['') = Open (CHR '']'')" "class_of (CHR ''}'') = Close (CHR ''}'')"
  "class_of (CHR '')'') = Close (CHR '')'')" "class_of (CHR '']'') = Close (CHR '']'')"
  "class_of (CHR ''/'') = SlashChar" "class_of (CHR ''*'') = Star" "class_of (CHR 0x22) = Quote"
  "class_of (CHR 0x5C) = Backslash" "class_of (CHR 0x0A) = Newline" "class_of (CHR 0x27) = Apostrophe"
  by (simp_all add: class_of_def)

lemma scan_None [simp]: "scan None cs = None"
  by simp

lemma scan_append: "scan st (a @ b) = scan (scan st a) b"
proof (cases st)
  case (Some p)
  have "scan (Some (m, k)) (a @ b) = scan (scan (Some (m, k)) a) b" for m k
  proof (induction a arbitrary: m k)
    case (Cons c a)
    then show ?case by (cases "scan_class m k (class_of c)") auto
  qed simp
  with Some show ?thesis by (cases p) simp
qed simp

lemma scan_Nil [simp]: "scan st [] = st"
  by (cases "(st, [] :: string)" rule: scan.cases) auto

section \<open>Balanced pieces\<close>

definition plain :: "string \<Rightarrow> bool" where
  "plain s \<longleftrightarrow> list_all (\<lambda>c. class_of c = Plain) s"

lemma plain_simps [simp]:
  "plain []"
  "plain (c # s) \<longleftrightarrow> class_of c = Plain \<and> plain s"
  "plain (s @ t) \<longleftrightarrow> plain s \<and> plain t"
  by (simp_all add: plain_def)

lemma scan_plain: "plain s \<Longrightarrow> scan (Some (Code, st)) s = Some (Code, st)"
  by (induction s) simp_all

lemma scan_plain_comment: "plain s \<Longrightarrow> scan (Some (LineComment, st)) s = Some (LineComment, st)"
  by (induction s) simp_all

lemma class_not_plain:
  "class_of c \<noteq> Plain \<Longrightarrow>
     c \<in> {CHR ''{'', CHR ''}'', CHR ''('', CHR '')'', CHR ''['', CHR '']'', CHR 0x22, CHR 0x5C, CHR ''/'', CHR ''*'', CHR 0x0A, CHR 0x27}"
  by (auto simp: class_of_def split: if_splits)

lemma class_alnum: "is_alnum c \<Longrightarrow> class_of c = Plain"
proof (rule ccontr)
  assume "is_alnum c" "class_of c \<noteq> Plain"
  then show False
    using class_not_plain [of c] by (auto simp: is_alnum_def is_upper_def is_lower_def is_decimal_def less_eq_char_def)
qed

lemma nibbles: "(of_char c :: nat) div 16 < 16" "(of_char c :: nat) mod 16 < 16"
proof -
  have "(of_char c :: nat) < 256" by simp
  then show "(of_char c :: nat) div 16 < 16" by linarith
qed simp

lemma plain_decimal_nat: "plain (decimal_nat n)"
proof (induction n rule: decimal_nat.induct)
  case (1 n)
  have "class_of (digit_char d) = Plain" if "d < 10" for d
    by (rule class_alnum) (use that in \<open>simp add: is_alnum_def is_decimal_def digit_char_def less_eq_char_def\<close>)
  with 1 show ?case by (subst decimal_nat.simps) simp
qed

text \<open>What an escaped character does to the scanner inside a literal: nothing.\<close>

lemma class_hex_digit: "n < 16 \<Longrightarrow> class_of (hex_digit n) = Plain"
  by (rule class_alnum) (auto simp: is_alnum_def is_decimal_def is_lower_def hex_digit_def less_eq_char_def)

lemma scan_escape_char: "scan (Some (InString, st)) (escape_char c) = Some (InString, st)"
proof -
  consider "class_of c = Plain" | "class_of c \<noteq> Plain" by blast
  then show ?thesis
  proof cases
    case 1
    then show ?thesis by (auto simp: escape_char_def class_hex_digit nibbles)
  next
    case 2
    from class_not_plain [OF 2] show ?thesis
      by (elim insertE emptyE) (simp_all add: escape_char_def is_print_def less_eq_char_def)
  qed
qed

lemma scan_escaped: "scan (Some (Code, st)) (escape_string_literal s) = Some (Code, st)"
proof -
  have "scan (Some (InString, st)) (concat (map escape_char s)) = Some (InString, st)"
    by (induction s) (simp_all add: scan_append scan_escape_char)
  then show ?thesis by (simp add: escape_string_literal_def scan_append)
qed

text \<open>In a comment a literal ends in a quote, so it does not continue the comment.\<close>

lemma scan_comment_class: "k \<noteq> Newline \<Longrightarrow> m \<in> {LineComment, CommentEscape} \<Longrightarrow>
   \<exists>m' \<in> {LineComment, CommentEscape}. scan_class m st k = Some (m', st)"
  by (cases k) auto

lemma scan_comment:
  "CHR 0x0A \<notin> set s \<Longrightarrow> m \<in> {LineComment, CommentEscape} \<Longrightarrow>
     \<exists>m' \<in> {LineComment, CommentEscape}. scan (Some (m, st)) s = Some (m', st)"
proof (induction s arbitrary: m)
  case (Cons c s)
  have "class_of c \<noteq> Newline" using Cons.prems(1) by (auto simp: class_of_def)
  from scan_comment_class [OF this Cons.prems(2)] obtain m' where
    "m' \<in> {LineComment, CommentEscape}" "scan_class m st (class_of c) = Some (m', st)" by blast
  with Cons.IH [of m'] Cons.prems(1) show ?case by simp
qed simp

lemma escape_char_no_newline: "CHR 0x0A \<notin> set (escape_char c)"
proof -
  have "hex_digit n \<noteq> CHR 0x0A" if "n < 16" for n
  proof
    assume "hex_digit n = CHR 0x0A"
    then have "class_of (hex_digit n) = Newline" by simp
    with class_hex_digit [OF that] show False by simp
  qed
  from this [OF nibbles(1)] this [OF nibbles(2)] show ?thesis by (simp add: escape_char_def eq_commute)
qed

lemma scan_escaped_comment: "scan (Some (LineComment, st)) (escape_string_literal s) = Some (LineComment, st)"
proof -
  have "CHR 0x0A \<notin> set ([CHR 0x22] @ concat (map escape_char s))" by (simp add: escape_char_no_newline)
  from scan_comment [OF this, of LineComment st] show ?thesis
    by (auto simp: escape_string_literal_def scan_append)
qed

section \<open>The value of an escaped literal\<close>

definition hex_digit_char :: "char \<Rightarrow> bool" where
  "hex_digit_char c \<longleftrightarrow> hex_value c \<noteq> None"

text \<open>A hexadecimal escape has to be followed by something that is no hexadecimal digit.\<close>

definition needs_hex :: "char \<Rightarrow> bool" where
  "needs_hex c \<longleftrightarrow> \<not> is_print c \<and> c \<noteq> CHR 0x0D \<and> c \<noteq> CHR 0x0A \<and> c \<noteq> CHR 0x09"

fun literal_safe :: "string \<Rightarrow> bool" where
  "literal_safe (c # d # s) \<longleftrightarrow> (needs_hex c \<longrightarrow> hex_value d = None) \<and> literal_safe (d # s)"
| "literal_safe s \<longleftrightarrow> True"

lemma hex_value_digit: "n < 16 \<Longrightarrow> hex_value (hex_digit n) = Some n"
  by (auto simp: hex_value_def hex_digit_def is_decimal_def less_eq_char_def)

lemma literal_value_hex_end:
  "rest \<noteq> [] \<Longrightarrow> hex_value (hd rest) = None \<Longrightarrow> v < 256 \<Longrightarrow>
     literal_value (InHex v) rest = map_option ((#) (char_of v)) (literal_value InLiteral rest)"
  by (cases rest) simp_all

text \<open>One character of the source, read back.\<close>

lemma literal_value_escape_char:
  assumes "rest \<noteq> []" and "needs_hex c \<Longrightarrow> hex_value (hd rest) = None"
  shows "literal_value InLiteral (escape_char c @ rest) = map_option ((#) c) (literal_value InLiteral rest)"
proof (cases "needs_hex c")
  case True
  have q: "\<not> needs_hex (CHR 0x5C)" "\<not> needs_hex (CHR 0x22)" by (simp_all add: needs_hex_def is_print_def less_eq_char_def)
  from True q have e: "escape_char c = [CHR 0x5C, CHR ''x'', hex_digit (of_char c div 16), hex_digit (of_char c mod 16)]"
    by (auto simp: escape_char_def needs_hex_def)
  have "16 * ((of_char c :: nat) div 16) + of_char c mod 16 = of_char c" by simp
  with assms True show ?thesis
    by (simp add: e hex_value_digit nibbles literal_value_hex_end)
next
  case False
  then show ?thesis by (auto simp: escape_char_def needs_hex_def simple_escape_def)
qed

lemma hd_escape_char: "hex_value d = None \<Longrightarrow> hex_value (hd (escape_char d @ rest)) = None"
  by (auto simp: escape_char_def hex_value_def is_decimal_def less_eq_char_def)

lemma literal_value_last: "literal_value InLiteral (escape_char c @ [CHR 0x22]) = Some [c]"
proof -
  have "hex_value (CHR 0x22) = None" by (simp add: hex_value_def is_decimal_def less_eq_char_def)
  with literal_value_escape_char [of "[CHR 0x22]" c] show ?thesis by simp
qed

lemma literal_value_escaped:
  "literal_safe s \<Longrightarrow> literal_value InLiteral (concat (map escape_char s) @ [CHR 0x22]) = Some s"
proof (induction s rule: literal_safe.induct)
  case (1 c d s)
  have "hex_value (hd (concat (map escape_char (d # s)) @ [CHR 0x22])) = None" if "needs_hex c"
    using hd_escape_char [of d] 1 that by simp
  with 1 literal_value_escape_char [of "concat (map escape_char (d # s)) @ [CHR 0x22]" c] show ?case by simp
qed (simp_all add: literal_value_last)

end
