(* ===== verification/TypeMapping.thy ===== *)
theory TypeMapping
  imports CppText
begin

text \<open>
  \<open>codegen/typemapping.cpp\<close>: the C++ type of a DSL type, with the structs it needs, and the
  C++ identifier of a message and of a state.
\<close>

record type_mapping =
  cpp_type :: string
  auxiliary_definitions :: string
  is_struct :: bool

section \<open>Parameters of a type\<close>

definition get_bool_param :: "type_parameter_map \<Rightarrow> string \<Rightarrow> bool option" where
  "get_bool_param params name = (case map_of params name of Some (BooleanLiteral b) \<Rightarrow> Some b | _ \<Rightarrow> None)"

definition get_int_param :: "type_parameter_map \<Rightarrow> string \<Rightarrow> int32 option" where
  "get_int_param params name = (case map_of params name of Some (IntegerLiteral i) \<Rightarrow> Some i | _ \<Rightarrow> None)"

definition value_or :: "'a option \<Rightarrow> 'a \<Rightarrow> 'a" where
  "value_or x d = (case x of Some y \<Rightarrow> y | None \<Rightarrow> d)"

section \<open>The mapping\<close>

definition map_int_type :: "type_parameter_map \<Rightarrow> type_mapping" where
  "map_int_type params =
     (let is_unsigned = value_or (get_bool_param params ''unsigned'') False;
          bits = value_or (get_int_param params ''bits'') 32;
          t = (if is_unsigned then
                 (if bits = 8 then ''uint8_t'' else if bits = 16 then ''uint16_t''
                  else if bits = 32 then ''uint32_t'' else if bits = 64 then ''uint64_t'' else ''uint32_t'')
               else
                 (if bits = 8 then ''int8_t'' else if bits = 16 then ''int16_t''
                  else if bits = 32 then ''int32_t'' else if bits = 64 then ''int64_t'' else ''int32_t'')) in
      \<lparr>cpp_type = t, auxiliary_definitions = [], is_struct = False\<rparr>)"

definition map_str_type :: type_mapping where
  "map_str_type = \<lparr>cpp_type = ''std::string'', auxiliary_definitions = [], is_struct = False\<rparr>"

definition array_of_mapping :: "type_mapping \<Rightarrow> type_mapping" where
  "array_of_mapping m =
     \<lparr>cpp_type = ''std::vector<'' @ cpp_type m @ ''>'', auxiliary_definitions = auxiliary_definitions m, is_struct = False\<rparr>"

definition struct_name_of :: "string \<Rightarrow> string" where
  "struct_name_of struct_name_prefix = (if struct_name_prefix = [] then ''TupleData'' else struct_name_prefix)"

lemma size_map_of: "map_of params k = Some v \<Longrightarrow> size v \<le> size_list (size_prod (\<lambda>_. 0) size) params"
  by (induction params) (auto split: if_splits)

text \<open>
  \<open>type_to_cpp\<close> with \<open>map_array_type\<close>, and the loop of \<open>map_tuple_type\<close> over the fields,
  which answers the nested definitions and the member declarations.
\<close>

function (sequential) type_to_cpp :: "ptype \<Rightarrow> string \<Rightarrow> type_mapping option"
  and map_tuple_fields :: "type_parameter_map \<Rightarrow> string \<Rightarrow> (string \<times> string) option"
where
  "type_to_cpp (Type name params) struct_name_prefix =
     (if id_name name = ''int'' then Some (map_int_type params)
      else if id_name name = ''str'' then Some map_str_type
      else if id_name name = ''array'' then
        (case map_of params ''element_type'' of
           Some (TypeValue t) \<Rightarrow> map_option array_of_mapping (type_to_cpp t (struct_name_prefix @ ''Element''))
         | _ \<Rightarrow> None)
      else if id_name name = ''tuple'' then
        (if params = [] then None
         else
           (let struct_name = struct_name_of struct_name_prefix in
            case map_tuple_fields params struct_name of
              None \<Rightarrow> None
            | Some (nested_defs, members) \<Rightarrow>
                Some \<lparr>cpp_type = struct_name,
                  auxiliary_definitions = nested_defs @ line [''struct '', struct_name, '' {''] @ members @ line [''};''],
                  is_struct = True\<rparr>))
      else None)"
| "map_tuple_fields [] struct_name = Some ([], [])"
| "map_tuple_fields ((field_name, TypeValue field_type) # params) struct_name =
     (case type_to_cpp field_type (struct_name @ ''_'' @ field_name) of
        None \<Rightarrow> None
      | Some m \<Rightarrow>
          (case map_tuple_fields params struct_name of
             None \<Rightarrow> None
           | Some (nested_defs, members) \<Rightarrow>
               Some ((if auxiliary_definitions m = [] then [] else line [auxiliary_definitions m]) @ nested_defs,
                 line [''    '', cpp_type m, '' '', field_name, '';''] @ members)))"
| "map_tuple_fields ((field_name, field_value) # params) struct_name = map_tuple_fields params struct_name"
  by pat_completeness auto

termination
  by (relation "measure (case_sum (\<lambda>(t, _). size t) (\<lambda>(ps, _). size_list (size_prod (\<lambda>_. 0) size) ps))")
    (auto dest!: size_map_of)

section \<open>Identifiers\<close>

fun message_identifier :: "bool \<Rightarrow> string \<Rightarrow> string" where
  "message_identifier capitalize_next [] = []"
| "message_identifier capitalize_next (c # cs) =
     (if c = CHR '' '' \<or> c = CHR ''-'' \<or> c = CHR ''_'' then message_identifier True cs
      else if is_alnum c then (if capitalize_next then to_upper c else c) # message_identifier False cs
      else message_identifier capitalize_next cs)"

definition message_name_to_identifier :: "string \<Rightarrow> string" where
  "message_name_to_identifier name = message_identifier True name"

definition state_name_to_identifier :: "string \<Rightarrow> string" where
  "state_name_to_identifier name =
     (let result = filter (\<lambda>c. is_alnum c \<or> c = CHR ''_'') name in
      if result \<noteq> [] \<and> is_decimal (hd result) then CHR ''_'' # result else result)"

end
