(* ===== verification/ProtocolInfo.thy ===== *)
theory ProtocolInfo
  imports TypeMapping Sema
begin

text \<open>
  \<open>codegen/protocolinfo.cpp\<close>: what the generators use of a protocol, collected from the
  states of both agents, the client first.
\<close>

record message_info =
  mi_name :: string
  mi_identifier :: string
  mi_when_state :: string
  mi_then_state :: string
  mi_agent :: string
  mi_data :: message_data

text \<open>\<open>ReadTransitionInfo\<close> and \<open>WriteTransitionInfo\<close> have the same members.\<close>

record transition_info =
  ti_message_name :: string
  ti_identifier :: string
  ti_when_state :: string
  ti_then_state :: string
  ti_agent :: string
  ti_actions :: "action list"
  ti_data :: message_data

record protocol_info =
  pi_states :: "string list"
  pi_messages :: "message_info list"
  pi_read_transitions :: "transition_info list"
  pi_write_transitions :: "transition_info list"

section \<open>States\<close>

text \<open>A \<open>std::set\<close> is its elements in order.\<close>

fun set_insert :: "string \<Rightarrow> string list \<Rightarrow> string list" where
  "set_insert k [] = [k]"
| "set_insert k (k' # s) = (if k < k' then k # k' # s else if k = k' then k' # s else k' # set_insert k s)"

definition insert_targets :: "state_transitions \<Rightarrow> string list \<Rightarrow> string list" where
  "insert_targets ts states = fold (\<lambda>t. set_insert (snd (snd t))) ts states"

definition collect_agent_states :: "agent \<Rightarrow> string list \<Rightarrow> string list" where
  "collect_agent_states a states =
     fold (\<lambda>s states. insert_targets (snd s) (set_insert (fst s) states)) (ag_states a) states"

definition collect_states :: "protocol \<Rightarrow> string list" where
  "collect_states p = collect_agent_states (pr_server p) (collect_agent_states (pr_client p) [])"

section \<open>Messages and transitions\<close>

definition transition_of :: "transition \<Rightarrow> abstract_transition" where
  "transition_of t = (case t of ReadTransition a \<Rightarrow> a | WriteTransition a \<Rightarrow> a)"

definition is_read_transition :: "transition \<Rightarrow> bool" where
  "is_read_transition t = (case t of ReadTransition a \<Rightarrow> True | WriteTransition a \<Rightarrow> False)"

definition message_info_of :: "string \<Rightarrow> string \<Rightarrow> string \<times> transition \<times> string \<Rightarrow> message_info" where
  "message_info_of agent_name state_name = (\<lambda>(msg_name, transition, target_state).
     \<lparr>mi_name = msg_name, mi_identifier = message_name_to_identifier msg_name, mi_when_state = state_name,
      mi_then_state = target_state, mi_agent = agent_name, mi_data = tr_data (transition_of transition)\<rparr>)"

definition transition_info_of :: "string \<Rightarrow> string \<Rightarrow> string \<times> transition \<times> string \<Rightarrow> transition_info" where
  "transition_info_of agent_name state_name = (\<lambda>(msg_name, transition, target_state).
     \<lparr>ti_message_name = msg_name, ti_identifier = message_name_to_identifier msg_name, ti_when_state = state_name,
      ti_then_state = target_state, ti_agent = agent_name, ti_actions = tr_actions (transition_of transition),
      ti_data = tr_data (transition_of transition)\<rparr>)"

text \<open>The loop over the states of an agent and their transitions.\<close>

definition agent_entries :: "agent \<Rightarrow> (string \<times> string \<times> transition \<times> string) list" where
  "agent_entries a = concat (map (\<lambda>(state_name, ts). map (Pair state_name) ts) (ag_states a))"

text \<open>\<open>process_agent\<close> of the three collections: a name that was seen is skipped.\<close>

fun collect_unseen ::
  "(string \<times> transition \<times> string \<Rightarrow> bool) \<Rightarrow> (string \<Rightarrow> string \<times> transition \<times> string \<Rightarrow> 'a)
    \<Rightarrow> (string \<times> string \<times> transition \<times> string) list \<Rightarrow> string list \<times> 'a list \<Rightarrow> string list \<times> 'a list"
where
  "collect_unseen wanted info_of [] acc = acc"
| "collect_unseen wanted info_of ((state_name, t) # es) (seen, infos) =
     (if wanted t \<and> fst t \<notin> set seen
      then collect_unseen wanted info_of es (fst t # seen, infos @ [info_of state_name t])
      else collect_unseen wanted info_of es (seen, infos))"

definition collect_infos ::
  "(string \<times> transition \<times> string \<Rightarrow> bool) \<Rightarrow> (string \<Rightarrow> string \<Rightarrow> string \<times> transition \<times> string \<Rightarrow> 'a)
    \<Rightarrow> protocol \<Rightarrow> 'a list"
where
  "collect_infos wanted info_of p =
     snd (collect_unseen wanted (info_of ''Server'') (agent_entries (pr_server p))
       (collect_unseen wanted (info_of ''Client'') (agent_entries (pr_client p)) ([], [])))"

definition collect_messages :: "protocol \<Rightarrow> message_info list" where
  "collect_messages p = collect_infos (\<lambda>t. True) message_info_of p"

definition collect_read_transitions :: "protocol \<Rightarrow> transition_info list" where
  "collect_read_transitions p = collect_infos (\<lambda>(n, t, target). is_read_transition t) transition_info_of p"

definition collect_write_transitions :: "protocol \<Rightarrow> transition_info list" where
  "collect_write_transitions p = collect_infos (\<lambda>(n, t, target). \<not> is_read_transition t) transition_info_of p"

definition protocol_info :: "protocol \<Rightarrow> protocol_info" where
  "protocol_info p =
     \<lparr>pi_states = collect_states p, pi_messages = collect_messages p,
      pi_read_transitions = collect_read_transitions p, pi_write_transitions = collect_write_transitions p\<rparr>"

section \<open>Grouping\<close>

text \<open>\<open>map[key].push_back(x)\<close> on a \<open>std::map\<close> of vectors, as every generator uses it.\<close>

fun map_push :: "string \<Rightarrow> 'a \<Rightarrow> 'a list ordered_map \<Rightarrow> 'a list ordered_map" where
  "map_push k x [] = [(k, [x])]"
| "map_push k x ((k', xs) # m) =
     (if k < k' then (k, [x]) # (k', xs) # m
      else if k = k' then (k', xs @ [x]) # m
      else (k', xs) # map_push k x m)"

definition group_by :: "('a \<Rightarrow> string) \<Rightarrow> 'a list \<Rightarrow> 'a list ordered_map" where
  "group_by key xs = fold (\<lambda>x m. map_push (key x) x m) xs []"

end
