(* ===== verification/GenerateTypes.thy ===== *)
theory GenerateTypes
  imports ProtocolInfo
begin

text \<open>
  \<open>codegen/generate_data_types.cpp\<close> and \<open>codegen/generate_states.cpp\<close>: the structs for the
  data of the messages, and the enumeration of the states with what can leave and enter them.
\<close>

record generated =
  gen_header :: string
  gen_source :: string
  gen_errors :: "string list"

section \<open>Data types\<close>

text \<open>The loop over the members of a message: the auxiliary definitions, the members, the errors.\<close>

fun message_fields :: "message_info \<Rightarrow> message_data \<Rightarrow> string \<times> string \<times> string list" where
  "message_fields msg [] = ([], [], [])"
| "message_fields msg ((field_name, field_type) # data) =
     (let (auxiliary, members, errors) = message_fields msg data in
      case type_to_cpp field_type (mi_identifier msg @ ''_'' @ field_name) of
        None \<Rightarrow> (auxiliary, members,
          (''Failed to map type for field '' @ [CHR 0x27] @ field_name @ [CHR 0x27] @ '' in message '' @ [CHR 0x27] @ mi_name msg @ [CHR 0x27]) # errors)
      | Some mapping \<Rightarrow>
          ((if auxiliary_definitions mapping = [] then [] else line [auxiliary_definitions mapping]) @ auxiliary,
           line [''    '', cpp_type mapping, '' '', field_name, '';''] @ members, errors))"

definition generate_struct :: "message_info \<Rightarrow> string \<times> string list" where
  "generate_struct msg =
     (if mi_data msg = []
      then (lines [[''struct '', mi_identifier msg, ''Data {''], [''};''], []], [])
      else
        (let (auxiliary, members, errors) = message_fields msg (mi_data msg) in
         ((if auxiliary = [] then [] else line [''// Auxiliary types for '', mi_identifier msg, ''Data''] @ auxiliary)
          @ line [''struct '', mi_identifier msg, ''Data {''] @ members @ lines [[''};''], []], errors)))"

definition generate_data_types :: "output_context \<Rightarrow> protocol_info \<Rightarrow> generated" where
  "generate_data_types ctx info =
     (let guard = header_guard ctx ''data_types.hpp'';
          structs = map generate_struct (pi_messages info) in
      \<lparr>gen_header =
         lines [[''#ifndef '', guard], [''#define '', guard], [], [''#include <cstdint>''], [''#include <memory>''],
           [''#include <string>''], [''#include <vector>''], []]
         @ open_namespace ctx @ line []
         @ concat (map fst structs)
         @ close_namespace ctx
         @ lines [[], [''#endif // '', guard]],
       gen_source =
         lines [[''#include '', [CHR 0x22], ''data_types.hpp'', [CHR 0x22]], []]
         @ open_namespace ctx
         @ lines [[], [''// Data type implementations (if needed)''], []]
         @ close_namespace ctx,
       gen_errors = concat (map snd structs)\<rparr>)"

section \<open>States\<close>

fun variant_members :: "message_info list \<Rightarrow> string" where
  "variant_members [] = []"
| "variant_members (m # ms) =
     line [''    '', mi_identifier m, ''Data'', (if ms = [] then [] else '','')] @ variant_members ms"

definition state_variant :: "string \<Rightarrow> string \<Rightarrow> string \<times> message_info list \<Rightarrow> string" where
  "state_variant caption kind = (\<lambda>(state_name, state_messages).
     if state_messages = [] then []
     else
       lines [[''// '', caption, '' state '', state_name],
         [''using '', state_name_to_identifier state_name, kind, '' = std::variant<'']]
       @ variant_members state_messages
       @ lines [[''>;''], []])"

definition generate_states :: "output_context \<Rightarrow> protocol_info \<Rightarrow> generated" where
  "generate_states ctx info =
     (let guard = header_guard ctx ''states.hpp'';
          messages_from_state = group_by mi_when_state (pi_messages info);
          messages_to_state = group_by mi_then_state (pi_messages info) in
      \<lparr>gen_header =
         lines [[''#ifndef '', guard], [''#define '', guard], [], [''#include <variant>''],
           [''#include '', [CHR 0x22], ''data_types.hpp'', [CHR 0x22]], []]
         @ open_namespace ctx
         @ lines [[], [''enum class State {'']]
         @ lines (map (\<lambda>s. [''    '', state_name_to_identifier s, '','']) (pi_states info))
         @ lines [[''};''], []]
         @ concat (map (state_variant ''Possible transitions from'' ''Output'') messages_from_state)
         @ concat (map (state_variant ''Possible inputs when entering'' ''Input'') messages_to_state)
         @ close_namespace ctx
         @ lines [[], [''#endif // '', guard]],
       gen_source =
         lines [[''#include '', [CHR 0x22], ''states.hpp'', [CHR 0x22]], []]
         @ open_namespace ctx
         @ lines [[], [''// State-related implementations (if needed)''], []]
         @ close_namespace ctx,
       gen_errors = []\<rparr>)"

end
