(* ===== verification/GenerateSerializer.thy ===== *)
theory GenerateSerializer
  imports GenerateTypes
begin

text \<open>
  \<open>codegen/generate_serializer.cpp\<close>: for each message an agent writes, a class that hands out
  the octets of the message chunk by chunk.
\<close>

section \<open>Expressions\<close>

definition is_numeric_field :: "message_data \<Rightarrow> string \<Rightarrow> bool" where
  "is_numeric_field data field_name =
     (case map_of data field_name of None \<Rightarrow> False | Some t \<Rightarrow> id_name (type_name t) = ''int'')"

definition generate_write_expression :: "message_data \<Rightarrow> string \<Rightarrow> string \<Rightarrow> string" where
  "generate_write_expression data field_name access_expr =
     (if is_numeric_field data field_name then ''std::to_string('' @ access_expr @ '')'' else access_expr)"

text \<open>\<open>field.find('.')\<close> and the two \<open>substr\<close>: the parts before and after the first dot.\<close>

fun split_dot :: "string \<Rightarrow> (string \<times> string) option" where
  "split_dot [] = None"
| "split_dot (c # cs) = (if c = CHR ''.'' then Some ([], cs) else map_option (\<lambda>(a, b). (c # a, b)) (split_dot cs))"

definition generate_escape_replacement_code :: "string \<Rightarrow> string \<Rightarrow> escape_info \<Rightarrow> string" where
  "generate_escape_replacement_code indent source_expr escape =
     (let escape_char_escaped = escape_string_literal (ei_character escape);
          escape_seq_escaped = escape_string_literal (ei_sequence escape) in
      lines
       [[indent, ''// Apply escape replacement: '', escape_char_escaped, '' -> '', escape_seq_escaped],
        [indent, ''{''],
        [indent, ''    std::string temp = '', source_expr, '';''],
        [indent, ''    std::string result;''],
        [indent, ''    result.reserve(temp.size() * 2); // Estimate''],
        [indent, ''    static const char escape_char[] = '', escape_char_escaped, '';''],
        [indent, ''    static const char escape_seq[] = '', escape_seq_escaped, '';''],
        [indent, ''    constexpr size_t escape_char_len = '', decimal_nat (length (ei_character escape)), '';''],
        [indent, ''    constexpr size_t escape_seq_len = '', decimal_nat (length (ei_sequence escape)), '';''],
        [indent, ''    size_t pos = 0;''],
        [indent, ''    while (pos < temp.size()) {''],
        [indent, ''        if (pos + escape_char_len <= temp.size() &&''],
        [indent, ''            std::memcmp(temp.data() + pos, escape_char, escape_char_len) == 0) {''],
        [indent, ''            result.append(escape_seq, escape_seq_len);''],
        [indent, ''            pos += escape_char_len;''],
        [indent, ''        } else {''],
        [indent, ''            result += temp[pos];''],
        [indent, ''            ++pos;''],
        [indent, ''        }''],
        [indent, ''    }''],
        [indent, ''    current_chunk_ = std::move(result);''],
        [indent, ''}'']])"

definition generate_chunk :: "string \<Rightarrow> string \<Rightarrow> escape_info option \<Rightarrow> string" where
  "generate_chunk indent expr escape =
     (case escape of
        Some e \<Rightarrow> generate_escape_replacement_code indent expr e
      | None \<Rightarrow> line [indent, ''current_chunk_ = '', expr, '';''])"

section \<open>The class of a message\<close>

definition generate_message_serializer_header :: "transition_info \<Rightarrow> string" where
  "generate_message_serializer_header wt =
     (let i = ti_identifier wt in
      lines
       [[''// Serializer for message: '', ti_message_name wt],
        [''class '', i, ''Serializer {''],
        [''public:''],
        [''    '', i, ''Serializer() = default;''],
        [''    ''],
        [''    // Set the data to serialize''],
        [''    void set_data(const '', i, ''Data& data);''],
        [''    void set_data('', i, ''Data&& data);''],
        [''    ''],
        [''    // Reset the serializer to initial state''],
        [''    void reset();''],
        [''    ''],
        [''    // Check if serialization is complete''],
        [''    bool is_complete() const { return complete_; }''],
        [''    ''],
        [''    // Get the next chunk of output bytes''],
        [''    // Returns the bytes to write. Empty string means no more data available.''],
        [''    std::string_view next_chunk();''],
        [''    ''],
        [''    // Mark that the last chunk was successfully written''],
        [''    void advance();''],
        [],
        [''private:''],
        [''    '', i, ''Data data_;''],
        [''    bool complete_ = true;''],
        [''    bool has_data_ = false;''],
        [''    size_t stage_ = 0;''],
        [''    size_t loop_index_ = 0;''],
        [''    size_t loop_stage_ = 0;''],
        [''    std::string current_chunk_;''],
        [''};''],
        []])"

definition generate_message_serializer_set_data :: "transition_info \<Rightarrow> string" where
  "generate_message_serializer_set_data wt =
     (let i = ti_identifier wt in
      lines
       [[''void '', i, ''Serializer::set_data(const '', i, ''Data& data) {''],
        [''    data_ = data;''],
        [''    has_data_ = true;''],
        [''    complete_ = false;''],
        [''    stage_ = 0;''],
        [''    loop_index_ = 0;''],
        [''    loop_stage_ = 0;''],
        [''}''],
        [],
        [''void '', i, ''Serializer::set_data('', i, ''Data&& data) {''],
        [''    data_ = std::move(data);''],
        [''    has_data_ = true;''],
        [''    complete_ = false;''],
        [''    stage_ = 0;''],
        [''    loop_index_ = 0;''],
        [''    loop_stage_ = 0;''],
        [''}''],
        []])"

definition generate_message_serializer_reset :: "transition_info \<Rightarrow> string" where
  "generate_message_serializer_reset wt =
     lines
       [[''void '', ti_identifier wt, ''Serializer::reset() {''],
        [''    data_ = {};''],
        [''    has_data_ = false;''],
        [''    complete_ = true;''],
        [''    stage_ = 0;''],
        [''    loop_index_ = 0;''],
        [''    loop_stage_ = 0;''],
        [''    current_chunk_.clear();''],
        [''}''],
        []]"

section \<open>\<open>next_chunk\<close>\<close>

text \<open>The cases of the switch inside a loop over \<open>array_field\<close>.\<close>

fun generate_loop_cases :: "string \<Rightarrow> nat \<Rightarrow> action list \<Rightarrow> string" where
  "generate_loop_cases array_field loop_stage [] = []"
| "generate_loop_cases array_field loop_stage (la # actions) =
     line [''        case '', decimal_nat loop_stage, '':'']
     @ (case la of
          WriteStaticOctets octets \<Rightarrow>
            lines [[''            current_chunk_ = '', escape_string_literal octets, '';''], [''            break;'']]
        | WriteFromIdentifier identifier escape \<Rightarrow>
            (let field = id_name identifier;
                 access_expr =
                   (case split_dot field of
                      Some (_, member_name) \<Rightarrow> ''data_.'' @ array_field @ ''[loop_index_].'' @ member_name
                    | None \<Rightarrow> ''data_.'' @ field) in
             generate_chunk ''            '' access_expr escape @ line [''            break;''])
        | _ \<Rightarrow> [])
     @ generate_loop_cases array_field (Suc loop_stage) actions"

definition generate_chunk_action :: "transition_info \<Rightarrow> action \<Rightarrow> string" where
  "generate_chunk_action wt a =
     (case a of
        WriteStaticOctets octets \<Rightarrow>
          lines
           [[''        // Write static octets''],
            [''        current_chunk_ = '', escape_string_literal octets, '';''],
            [''        break;'']]
      | WriteFromIdentifier identifier escape \<Rightarrow>
          (let field = id_name identifier in
           (case split_dot field of
              Some (array_name, member_name) \<Rightarrow>
                line [''        // Write from nested identifier: '', field]
                @ generate_chunk ''        '' (''data_.'' @ array_name @ ''[loop_index_].'' @ member_name) escape
            | None \<Rightarrow>
                line [''        // Write from identifier: '', field]
                @ generate_chunk ''        '' (generate_write_expression (ti_data wt) field (''data_.'' @ field)) escape)
           @ line [''        break;''])
      | Loop variable collection terminator actions \<Rightarrow>
          (let array_field = id_name collection in
           lines
            [[''        // Loop over: '', array_field],
             [''        if (loop_index_ >= data_.'', array_field, ''.size()) {''],
             [''            // Loop complete, advance to next stage''],
             [''            loop_index_ = 0;''],
             [''            loop_stage_ = 0;''],
             [''            ++stage_;''],
             [''            return next_chunk();  // Recurse to next stage''],
             [''        }''],
             [''        ''],
             [''        switch (loop_stage_) {'']]
           @ generate_loop_cases array_field 0 actions
           @ lines
            [[''        default:''],
             [''            // All loop stages done for this element''],
             [''            ++loop_index_;''],
             [''            loop_stage_ = 0;''],
             [''            return next_chunk();  // Recurse''],
             [''        }''],
             [''        break;'']])
      | _ \<Rightarrow> [])"

fun generate_chunk_cases :: "transition_info \<Rightarrow> nat \<Rightarrow> action list \<Rightarrow> string" where
  "generate_chunk_cases wt stage [] = []"
| "generate_chunk_cases wt stage (a # actions) =
     line [''    case '', decimal_nat stage, '':''] @ generate_chunk_action wt a @ generate_chunk_cases wt (Suc stage) actions"

definition generate_message_serializer_next_chunk :: "transition_info \<Rightarrow> string" where
  "generate_message_serializer_next_chunk wt =
     lines
       [[''std::string_view '', ti_identifier wt, ''Serializer::next_chunk() {''],
        [''    if (complete_ || !has_data_) {''],
        [''        return {};''],
        [''    }''],
        [''    ''],
        [''    current_chunk_.clear();''],
        [''    ''],
        [''    switch (stage_) {'']]
     @ generate_chunk_cases wt 0 (ti_actions wt)
     @ lines
       [[''    default:''],
        [''        complete_ = true;''],
        [''        return {};''],
        [''    }''],
        [''    ''],
        [''    return current_chunk_;''],
        [''}''],
        []]"

section \<open>\<open>advance\<close>\<close>

fun generate_advance_cases :: "nat \<Rightarrow> action list \<Rightarrow> string" where
  "generate_advance_cases stage [] = []"
| "generate_advance_cases stage (a # actions) =
     (case a of
        Loop variable collection terminator loop_actions \<Rightarrow>
          lines
           [[''    case '', decimal_nat stage, '':''],
            [''        // Loop stage - advance within loop''],
            [''        ++loop_stage_;''],
            [''        if (loop_stage_ >= '', decimal_nat (length loop_actions), '') {''],
            [''            ++loop_index_;''],
            [''            loop_stage_ = 0;''],
            [''        }''],
            [''        break;'']]
      | _ \<Rightarrow> [])
     @ generate_advance_cases (Suc stage) actions"

definition generate_message_serializer_advance :: "transition_info \<Rightarrow> string" where
  "generate_message_serializer_advance wt =
     lines
       [[''void '', ti_identifier wt, ''Serializer::advance() {''],
        [''    if (complete_) return;''],
        [''    ''],
        [''    switch (stage_) {'']]
     @ generate_advance_cases 0 (ti_actions wt)
     @ lines
       [[''    default:''],
        [''        ++stage_;''],
        [''        if (stage_ >= '', decimal_nat (length (ti_actions wt)), '') {''],
        [''            complete_ = true;''],
        [''        }''],
        [''        break;''],
        [''    }''],
        [''}''],
        []]"

section \<open>The files\<close>

definition generate_serializer :: "output_context \<Rightarrow> protocol_info \<Rightarrow> generated" where
  "generate_serializer ctx info =
     (let guard = header_guard ctx ''serializer.hpp'' in
      \<lparr>gen_header =
         lines
          [[''// This file is auto-generated. Do not edit.''],
           [],
           [''#ifndef '', guard],
           [''#define '', guard],
           [],
           [''#include <cstddef>''],
           [''#include <string>''],
           [''#include <string_view>''],
           [''#include <utility>''],
           [''#include '', [CHR 0x22], ''data_types.hpp'', [CHR 0x22]],
           [''#include '', [CHR 0x22], ''states.hpp'', [CHR 0x22]],
           []]
         @ open_namespace ctx @ line []
         @ concat (map generate_message_serializer_header (pi_write_transitions info))
         @ lines
          [[''// Main protocol serializer - provides unified interface''],
           [''class Serializer {''],
           [''public:''],
           [''    Serializer() = default;''],
           [''    ''],
           [''    // Reset the serializer''],
           [''    void reset();''],
           [''    ''],
           [''    // Check if serialization is complete''],
           [''    bool is_complete() const { return is_complete_; }''],
           [],
           [''private:''],
           [''    bool is_complete_ = true;''],
           [''};''],
           []]
         @ close_namespace ctx
         @ lines [[], [''#endif // '', guard]],
       gen_source =
         lines
          [[''// This file is auto-generated. Do not edit.''],
           [],
           [''#include '', [CHR 0x22], ''serializer.hpp'', [CHR 0x22]],
           [''#include <cstring>''],
           []]
         @ open_namespace ctx @ line []
         @ concat (map (\<lambda>wt. generate_message_serializer_set_data wt @ generate_message_serializer_reset wt
             @ generate_message_serializer_next_chunk wt @ generate_message_serializer_advance wt)
             (pi_write_transitions info))
         @ lines
          [[''void Serializer::reset() {''],
           [''    is_complete_ = true;''],
           [''}''],
           []]
         @ close_namespace ctx,
       gen_errors = []\<rparr>)"

end
