(* ===== verification/GenerateParser.thy ===== *)
theory GenerateParser
  imports GenerateTypes
begin

text \<open>
  \<open>codegen/generate_parser.cpp\<close>: for each message an agent reads, a class that takes the
  octets of the message as they arrive, and one parser that picks among them.
\<close>

section \<open>The class of a message\<close>

text \<open>The identifiers of the inner reads of a loop.\<close>

definition inner_identifiers :: "action list \<Rightarrow> string list" where
  "inner_identifiers actions =
     concat (map (\<lambda>a. case a of ReadOctetsUntilTerminator t identifier e \<Rightarrow> [id_name identifier] | _ \<Rightarrow> []) actions)"

definition generate_buffer_members :: "transition_info \<Rightarrow> action \<Rightarrow> string" where
  "generate_buffer_members rt a =
     (case a of
        ReadOctetsUntilTerminator terminator identifier escape \<Rightarrow>
          line [''    std::string '', id_name identifier, ''_buffer_;'']
      | Loop variable collection terminator actions \<Rightarrow>
          lines
           [[''    std::vector<'', ti_identifier rt, ''_'', id_name collection, ''Element> '', id_name collection, ''_buffer_;''],
            [''    size_t loop_'', id_name collection, ''_stage_ = 0;'']]
          @ lines (map (\<lambda>i. [''    std::string loop_'', id_name collection, ''_'', i, ''_buffer_;'']) (inner_identifiers actions))
      | _ \<Rightarrow> [])"

definition generate_message_parser_header :: "transition_info \<Rightarrow> string" where
  "generate_message_parser_header rt =
     (let i = ti_identifier rt in
      lines
       [[''// Parser for message: '', ti_message_name rt],
        [''class '', i, ''Parser {''],
        [''public:''],
        [''    '', i, ''Parser() = default;''],
        [''    ''],
        [''    // Reset the parser to initial state''],
        [''    void reset();''],
        [''    ''],
        [''    // Parse input bytes, returns result with status and bytes consumed''],
        [''    ParseResult parse(std::string_view input);''],
        [''    ''],
        [''    // Check if parsing is complete''],
        [''    bool is_complete() const { return complete_; }''],
        [''    ''],
        [''    // Signal end-of-file on input stream''],
        [''    void on_eof() { eof_received_ = true; }''],
        [''    ''],
        [''    // Take the parsed data (only valid when complete)''],
        [''    '', i, ''Data take_data();''],
        [],
        [''private:''],
        [''    bool complete_ = false;''],
        [''    bool eof_received_ = false;''],
        [''    size_t stage_ = 0;'']]
      @ concat (map (generate_buffer_members rt) (ti_actions rt))
      @ lines [[''};''], []])"

definition generate_buffer_resets :: "action \<Rightarrow> string" where
  "generate_buffer_resets a =
     (case a of
        ReadOctetsUntilTerminator terminator identifier escape \<Rightarrow>
          line [''    '', id_name identifier, ''_buffer_.clear();'']
      | Loop variable collection terminator actions \<Rightarrow>
          lines
           [[''    '', id_name collection, ''_buffer_.clear();''],
            [''    loop_'', id_name collection, ''_stage_ = 0;'']]
          @ lines (map (\<lambda>i. [''    loop_'', id_name collection, ''_'', i, ''_buffer_.clear();'']) (inner_identifiers actions))
      | _ \<Rightarrow> [])"

definition generate_message_parser_reset :: "transition_info \<Rightarrow> string" where
  "generate_message_parser_reset rt =
     lines
      [[''void '', ti_identifier rt, ''Parser::reset() {''],
       [''    complete_ = false;''],
       [''    eof_received_ = false;''],
       [''    stage_ = 0;'']]
     @ concat (map generate_buffer_resets (ti_actions rt))
     @ lines [[''}''], []]"

section \<open>\<open>parse\<close>\<close>

definition generate_match_static :: "octets \<Rightarrow> string" where
  "generate_match_static octets =
     (let escaped = escape_string_literal octets in
      lines
       [[''            // Match static octets: '', escaped],
        [''            constexpr size_t len = '', decimal_nat (length octets), '';''],
        [''            if (input.size() < len) {''],
        [''                return {ParseStatus::NeedMoreData, total_consumed};''],
        [''            }''],
        [''            static const char expected[] = '', escaped, '';''],
        [''            if (std::memcmp(input.data(), expected, len) != 0) {''],
        [''                return {ParseStatus::Error, total_consumed};''],
        [''            }''],
        [''            input.remove_prefix(len);''],
        [''            total_consumed += len;''],
        [''            ++stage_;''],
        [''            break;'']])"

definition generate_search_escaped :: "string \<Rightarrow> string" where
  "generate_search_escaped buffer =
     lines
      [[''                while (pos + term_len <= input.size()) {''],
       [''                    // Check for escape sequence first''],
       [''                    if (pos + escape_seq_len <= input.size() &&''],
       [''                        std::memcmp(input.data() + pos, escape_seq, escape_seq_len) == 0) {''],
       [''                        // Found escape - buffer data before it, add replacement char, skip escape''],
       [''                        '', buffer, ''_buffer_.append(input.data(), pos);''],
       [''                        '', buffer, ''_buffer_.append(escape_char, escape_char_len);''],
       [''                        input.remove_prefix(pos + escape_seq_len);''],
       [''                        total_consumed += pos + escape_seq_len;''],
       [''                        pos = 0; // Reset position for new search''],
       [''                        continue;''],
       [''                    }''],
       [''                    // Check for terminator''],
       [''                    if (std::memcmp(input.data() + pos, terminator, term_len) == 0) {''],
       [''                        found = true;''],
       [''                        break;''],
       [''                    }''],
       [''                    ++pos;''],
       [''                }'']]"

definition generate_search_plain :: string where
  "generate_search_plain =
     lines
      [[''                while (pos + term_len <= input.size()) {''],
       [''                    if (std::memcmp(input.data() + pos, terminator, term_len) == 0) {''],
       [''                        found = true;''],
       [''                        break;''],
       [''                    }''],
       [''                    ++pos;''],
       [''                }'']]"

definition generate_read_until :: "octets \<Rightarrow> string \<Rightarrow> escape_info option \<Rightarrow> string" where
  "generate_read_until terminator buffer escape =
     (let escaped = escape_string_literal terminator in
      line [''            // Read until terminator: '', escaped,
        (case escape of
           None \<Rightarrow> []
         | Some e \<Rightarrow> '' (escape: replace '' @ escape_string_literal (ei_character e) @ '' with ''
             @ escape_string_literal (ei_sequence e) @ '')'')]
      @ lines
       [[''            {''],
        [''                constexpr size_t term_len = '', decimal_nat (length terminator), '';''],
        [''                static const char terminator[] = '', escaped, '';'']]
      @ (case escape of
           None \<Rightarrow> []
         | Some e \<Rightarrow>
             lines
              [[''                constexpr size_t escape_seq_len = '', decimal_nat (length (ei_sequence e)), '';''],
               [''                static const char escape_seq[] = '', escape_string_literal (ei_sequence e), '';''],
               [''                static const char escape_char[] = '', escape_string_literal (ei_character e), '';''],
               [''                constexpr size_t escape_char_len = '', decimal_nat (length (ei_character e)), '';'']])
      @ lines
       [[''                ''],
        [''                // Search for terminator in input''],
        [''                size_t pos = 0;''],
        [''                bool found = false;'']]
      @ (case escape of None \<Rightarrow> generate_search_plain | Some e \<Rightarrow> generate_search_escaped buffer)
      @ lines
       [[''                ''],
        [''                if (found) {''],
        [''                    '', buffer, ''_buffer_.append(input.data(), pos);''],
        [''                    input.remove_prefix(pos + term_len);''],
        [''                    total_consumed += pos + term_len;''],
        [''                    ++stage_;''],
        [''                } else {''],
        [''                    // Buffer what we have and wait for more''],
        [''                    '', buffer, ''_buffer_.append(input.data(), input.size());''],
        [''                    total_consumed += input.size();''],
        [''                    return {ParseStatus::NeedMoreData, total_consumed};''],
        [''                }''],
        [''            }''],
        [''            break;'']])"

definition generate_inner_case :: "string \<Rightarrow> action \<Rightarrow> string" where
  "generate_inner_case collection_name a =
     (case a of
        ReadStaticOctets octets \<Rightarrow>
          (let escaped = escape_string_literal octets in
           lines
            [[''                    // Match static octets: '', escaped],
             [''                    constexpr size_t len = '', decimal_nat (length octets), '';''],
             [''                    if (input.size() < len) {''],
             [''                        return {ParseStatus::NeedMoreData, total_consumed};''],
             [''                    }''],
             [''                    static const char expected[] = '', escaped, '';''],
             [''                    if (std::memcmp(input.data(), expected, len) != 0) {''],
             [''                        return {ParseStatus::Error, total_consumed};''],
             [''                    }''],
             [''                    input.remove_prefix(len);''],
             [''                    total_consumed += len;''],
             [''                    ++loop_'', collection_name, ''_stage_;''],
             [''                    break;'']])
      | ReadOctetsUntilTerminator terminator identifier escape \<Rightarrow>
          (let escaped = escape_string_literal terminator;
               buffer_name = ''loop_'' @ collection_name @ ''_'' @ id_name identifier @ ''_buffer_'' in
           lines
            [[''                    // Read until terminator: '', escaped],
             [''                    {''],
             [''                        constexpr size_t elem_term_len = '', decimal_nat (length terminator), '';''],
             [''                        static const char elem_terminator[] = '', escaped, '';''],
             [''                        size_t pos = 0;''],
             [''                        bool found = false;''],
             [''                        while (pos + elem_term_len <= input.size()) {''],
             [''                            if (std::memcmp(input.data() + pos, elem_terminator, elem_term_len) == 0) {''],
             [''                                found = true;''],
             [''                                break;''],
             [''                            }''],
             [''                            ++pos;''],
             [''                        }''],
             [''                        if (found) {''],
             [''                            '', buffer_name, ''.append(input.data(), pos);''],
             [''                            input.remove_prefix(pos + elem_term_len);''],
             [''                            total_consumed += pos + elem_term_len;''],
             [''                            ++loop_'', collection_name, ''_stage_;''],
             [''                        } else {''],
             [''                            '', buffer_name, ''.append(input.data(), input.size());''],
             [''                            total_consumed += input.size();''],
             [''                            return {ParseStatus::NeedMoreData, total_consumed};''],
             [''                        }''],
             [''                    }''],
             [''                    break;'']])
      | _ \<Rightarrow> [])"

fun generate_inner_cases :: "string \<Rightarrow> nat \<Rightarrow> action list \<Rightarrow> string" where
  "generate_inner_cases collection_name inner_stage [] = []"
| "generate_inner_cases collection_name inner_stage (a # actions) =
     line [''                case '', decimal_nat inner_stage, '': {'']
     @ generate_inner_case collection_name a
     @ line [''                }'']
     @ generate_inner_cases collection_name (Suc inner_stage) actions"

definition generate_loop :: "transition_info \<Rightarrow> string \<Rightarrow> octets \<Rightarrow> action list \<Rightarrow> string" where
  "generate_loop rt collection_name terminator actions =
     lines
      [[''            // Loop parsing for collection: '', collection_name],
       [''            {''],
       [''                constexpr size_t term_len = '', decimal_nat (length terminator), '';''],
       [''                static const char loop_terminator[] = '', escape_string_literal terminator, '';''],
       [''                ''],
       [''                // Check if we'', [CHR 0x27], ''ve hit the loop terminator''],
       [''                if (input.size() >= term_len && ''],
       [''                    std::memcmp(input.data(), loop_terminator, term_len) == 0) {''],
       [''                    // End of loop''],
       [''                    input.remove_prefix(term_len);''],
       [''                    total_consumed += term_len;''],
       [''                    ++stage_;''],
       [''                    break;''],
       [''                }''],
       [''                ''],
       [''                // Need at least some data to parse element''],
       [''                if (input.empty()) {''],
       [''                    return {ParseStatus::NeedMoreData, total_consumed};''],
       [''                }''],
       [''                ''],
       [''                // Parse one element''],
       [''                switch (loop_'', collection_name, ''_stage_) {'']]
     @ generate_inner_cases collection_name 0 actions
     @ lines
      [[''                default: {''],
       [''                    // Element complete, add to collection''],
       [''                    '', ti_identifier rt, ''_'', collection_name, ''Element elem;'']]
     @ lines (concat (map (\<lambda>i.
         [[''                    elem.'', i, '' = std::move(loop_'', collection_name, ''_'', i, ''_buffer_);''],
          [''                    loop_'', collection_name, ''_'', i, ''_buffer_.clear();'']])
         (inner_identifiers actions)))
     @ lines
      [[''                    '', collection_name, ''_buffer_.push_back(std::move(elem));''],
       [''                    loop_'', collection_name, ''_stage_ = 0;''],
       [''                    break;''],
       [''                }''],
       [''                }''],
       [''            }''],
       [''            break;'']]"

definition generate_parse_action :: "transition_info \<Rightarrow> action \<Rightarrow> string" where
  "generate_parse_action rt a =
     (case a of
        ReadStaticOctets octets \<Rightarrow> generate_match_static octets
      | ReadOctetsUntilTerminator terminator identifier escape \<Rightarrow> generate_read_until terminator (id_name identifier) escape
      | Loop variable collection terminator actions \<Rightarrow> generate_loop rt (id_name collection) terminator actions
      | _ \<Rightarrow> [])"

fun generate_parse_cases :: "transition_info \<Rightarrow> nat \<Rightarrow> action list \<Rightarrow> string" where
  "generate_parse_cases rt stage [] = []"
| "generate_parse_cases rt stage (a # actions) =
     line [''        case '', decimal_nat stage, '': {'']
     @ generate_parse_action rt a
     @ line [''        }'']
     @ generate_parse_cases rt (Suc stage) actions"

definition generate_message_parser_parse :: "transition_info \<Rightarrow> string" where
  "generate_message_parser_parse rt =
     lines
      [[''ParseResult '', ti_identifier rt, ''Parser::parse(std::string_view input) {''],
       [''    size_t total_consumed = 0;''],
       [''    ''],
       [''    while (!complete_) {''],
       [''        switch (stage_) {'']]
     @ generate_parse_cases rt 0 (ti_actions rt)
     @ lines
      [[''        default:''],
       [''            complete_ = true;''],
       [''            break;''],
       [''        }''],
       [''    }''],
       [''    ''],
       [''    return {ParseStatus::Complete, total_consumed};''],
       [''}''],
       []]"

section \<open>\<open>take_data\<close>\<close>

definition get_field_cpp_type :: "transition_info \<Rightarrow> string \<Rightarrow> string" where
  "get_field_cpp_type rt field_name =
     (case map_of (ti_data rt) field_name of
        None \<Rightarrow> ''std::string''
      | Some t \<Rightarrow> (case type_to_cpp t [] of None \<Rightarrow> ''std::string'' | Some m \<Rightarrow> cpp_type m))"

definition is_numeric_type :: "string \<Rightarrow> bool" where
  "is_numeric_type t \<longleftrightarrow> t \<in> {''uint8_t'', ''int8_t'', ''uint16_t'', ''int16_t'', ''uint32_t'', ''int32_t'', ''uint64_t'', ''int64_t''}"

definition generate_take_action :: "transition_info \<Rightarrow> action \<Rightarrow> string" where
  "generate_take_action rt a =
     (case a of
        ReadOctetsUntilTerminator terminator identifier escape \<Rightarrow>
          (let field_name = id_name identifier;
               t = get_field_cpp_type rt field_name in
           if is_numeric_type t then
             lines
              [[''    if (!'', field_name, ''_buffer_.empty()) {''],
               [''        data.'', field_name, '' = static_cast<'', t,
                 (if prefix ''uint'' t then ''>(std::stoul('' else ''>(std::stol(''), field_name, ''_buffer_));''],
               [''    } else {''],
               [''        data.'', field_name, '' = 0;''],
               [''    }'']]
           else line [''    data.'', field_name, '' = std::move('', field_name, ''_buffer_);''])
      | Loop variable collection terminator actions \<Rightarrow>
          line [''    data.'', id_name collection, '' = std::move('', id_name collection, ''_buffer_);'']
      | _ \<Rightarrow> [])"

definition generate_message_parser_take_data :: "transition_info \<Rightarrow> string" where
  "generate_message_parser_take_data rt =
     lines
      [[ti_identifier rt, ''Data '', ti_identifier rt, ''Parser::take_data() {''],
       [''    '', ti_identifier rt, ''Data data;'']]
     @ concat (map (generate_take_action rt) (ti_actions rt))
     @ lines
      [[''    reset();''],
       [''    return data;''],
       [''}''],
       []]"

end
