(* ===== verification/GenerateDispatch.thy ===== *)
theory GenerateDispatch
  imports GenerateParser
begin

text \<open>
  The rest of \<open>codegen/generate_parser.cpp\<close>: the parser of a protocol, which picks the parser
  of a message by the state and, where it can, by the first octets.
\<close>

section \<open>Picking a message\<close>

definition get_lookahead_prefix :: "transition_info \<Rightarrow> octets" where
  "get_lookahead_prefix rt = (case ti_actions rt of ReadStaticOctets octets # _ \<Rightarrow> octets | _ \<Rightarrow> [])"

text \<open>A parser is its transition with its index among the read transitions.\<close>

type_synonym indexed_transition = "nat \<times> transition_info"

definition parsers_for_state :: "transition_info list \<Rightarrow> indexed_transition list ordered_map" where
  "parsers_for_state reads = group_by (\<lambda>(i, rt). ti_when_state rt) (enumerate 0 reads)"

text \<open>The loop that checks the prefixes for being non-empty and unique.\<close>

fun can_use_lookahead :: "octets list \<Rightarrow> octets list \<Rightarrow> bool" where
  "can_use_lookahead seen_prefixes [] \<longleftrightarrow> True"
| "can_use_lookahead seen_prefixes (p # ps) \<longleftrightarrow>
     p \<noteq> [] \<and> p \<notin> set seen_prefixes \<and> can_use_lookahead (p # seen_prefixes) ps"

definition min_lookahead_length :: "octets list \<Rightarrow> nat" where
  "min_lookahead_length ps = fold (\<lambda>p n. max n (length p)) ps 1"

definition generate_dispatch_one :: "indexed_transition \<Rightarrow> string" where
  "generate_dispatch_one = (\<lambda>(idx, rt).
     lines
      [[''        result = '', ti_identifier rt, ''_parser_.parse(input);''],
       [''        if (result.status == ParseStatus::Complete) {''],
       [''            has_message_ = true;''],
       [''            active_parser_ = '', decimal_nat idx, '';''],
       [''        }'']])"

fun generate_lookahead_branches :: "bool \<Rightarrow> indexed_transition list \<Rightarrow> string" where
  "generate_lookahead_branches first [] = []"
| "generate_lookahead_branches first ((idx, rt) # ps) =
     (let p = get_lookahead_prefix rt in
      lines
       [[(if first then ''        if ('' else '' else if (''), ''std::memcmp(input.data(), '', escape_string_literal p,
           '', '', decimal_nat (length p), '') == 0) {''],
        [''            result = '', ti_identifier rt, ''_parser_.parse(input);''],
        [''            if (result.status == ParseStatus::Complete) {''],
        [''                has_message_ = true;''],
        [''                active_parser_ = '', decimal_nat idx, '';''],
        [''            }'']]
      @ ''        }''
      @ generate_lookahead_branches False ps)"

definition generate_dispatch_lookahead :: "indexed_transition list \<Rightarrow> string" where
  "generate_dispatch_lookahead ps =
     lines
      [[''        // Use lookahead to select parser based on first bytes''],
       [''        if (input.size() < '', decimal_nat (min_lookahead_length (map (get_lookahead_prefix \<circ> snd) ps)), '') {''],
       [''            return {ParseStatus::NeedMoreData, 0};''],
       [''        }'']]
     @ generate_lookahead_branches True ps
     @ lines
      [['' else {''],
       [''            return {ParseStatus::Error, 0};''],
       [''        }'']]"

text \<open>The fallback: each parser after the one before it has failed.\<close>

fun generate_fallback_branches :: "transition_info \<Rightarrow> indexed_transition list \<Rightarrow> string" where
  "generate_fallback_branches previous [] = []"
| "generate_fallback_branches previous ((idx, rt) # ps) =
     lines
      [['' else if (result.status == ParseStatus::Error) {''],
       [''            // Try next parser''],
       [''            '', ti_identifier previous, ''_parser_.reset();''],
       [''            result = '', ti_identifier rt, ''_parser_.parse(input);''],
       [''            if (result.status == ParseStatus::Complete) {''],
       [''                has_message_ = true;''],
       [''                active_parser_ = '', decimal_nat idx, '';''],
       [''            }'']]
     @ ''        }''
     @ generate_fallback_branches rt ps"

definition generate_dispatch_fallback :: "indexed_transition list \<Rightarrow> string" where
  "generate_dispatch_fallback ps =
     line [''        // Try each possible message parser for this state'']
     @ (case ps of
          [] \<Rightarrow> []
        | (idx, rt) # rest \<Rightarrow>
            lines
             [[''        result = '', ti_identifier rt, ''_parser_.parse(input);''],
              [''        if (result.status == ParseStatus::Complete) {''],
              [''            has_message_ = true;''],
              [''            active_parser_ = '', decimal_nat idx, '';'']]
            @ ''        }''
            @ generate_fallback_branches rt rest)
     @ line []"

definition generate_dispatch_case :: "string \<times> indexed_transition list \<Rightarrow> string" where
  "generate_dispatch_case = (\<lambda>(state_name, ps).
     line [''    case State::'', state_name_to_identifier state_name, '': {'']
     @ (case ps of
          [p] \<Rightarrow> generate_dispatch_one p
        | _ \<Rightarrow>
            if can_use_lookahead [] (map (get_lookahead_prefix \<circ> snd) ps)
            then generate_dispatch_lookahead ps else generate_dispatch_fallback ps)
     @ lines
      [[''        break;''],
       [''    }'']])"

definition generate_parser_dispatch :: "transition_info list \<Rightarrow> string" where
  "generate_parser_dispatch reads =
     lines
      [[''ParseResult Parser::parse(std::string_view input) {''],
       [''    ParseResult result;''],
       [''    ''],
       [''    switch (current_state_) {'']]
     @ concat (map generate_dispatch_case (parsers_for_state reads))
     @ lines
      [[''    default:''],
       [''        return {ParseStatus::Error, 0};''],
       [''    }''],
       [''    ''],
       [''    return result;''],
       [''}''],
       []]"

section \<open>The files\<close>

definition generate_parser_class :: "protocol_info \<Rightarrow> string" where
  "generate_parser_class info =
     lines
      [[''// Main protocol parser - dispatches to message-specific parsers''],
       [''class Parser {''],
       [''public:''],
       [''    Parser() = default;''],
       [''    ''],
       [''    // Set the current state for parsing context''],
       [''    void set_state(State state) { current_state_ = state; }''],
       [''    State get_state() const { return current_state_; }''],
       [''    ''],
       [''    // Parse input bytes''],
       [''    ParseResult parse(std::string_view input);''],
       [''    ''],
       [''    // Get current parsing status without consuming more input''],
       [''    ParseStatus status() const;''],
       [''    ''],
       [''    // Check if a complete message is available''],
       [''    bool has_message() const { return has_message_; }''],
       [''    ''],
       [''    // Get the active parser index (for retrieving parsed data)''],
       [''    // Index values:'']]
     @ lines (map (\<lambda>(i, rt). [''    //   '', decimal_nat i, '' = '', ti_identifier rt]) (enumerate 0 (pi_read_transitions info)))
     @ lines
      [[''    size_t active_parser_index() const { return active_parser_; }''],
       [''    '']]
     @ lines (concat (map (\<lambda>(i, rt).
         [[''    // Take parsed '', ti_identifier rt, '' data (only valid when active_parser_index() == '', decimal_nat i, '')''],
          [''    '', ti_identifier rt, ''Data take_'', ti_identifier rt, ''();'']])
         (enumerate 0 (pi_read_transitions info))))
     @ lines
      [[''    ''],
       [''    // Signal end of input stream (for protocols that use EOF as terminator)''],
       [''    void on_eof();''],
       [''    ''],
       [''    // Check if EOF has been received''],
       [''    bool eof_received() const { return eof_received_; }''],
       [''    ''],
       [''    // Reset the parser''],
       [''    void reset();''],
       [],
       [''private:''],
       (case pi_states info of
          s # _ \<Rightarrow> [''    State current_state_ = State::'', state_name_to_identifier s, '';'']
        | [] \<Rightarrow> [''    State current_state_{};'']),
       [''    bool has_message_ = false;''],
       [''    bool eof_received_ = false;''],
       [''    size_t active_parser_ = 0;'']]
     @ lines (map (\<lambda>rt. [''    '', ti_identifier rt, ''Parser '', ti_identifier rt, ''_parser_;'']) (pi_read_transitions info))
     @ lines [[''};''], []]"

text \<open>The methods after \<open>Parser::parse\<close>: taking a message, the status, the end of the input, reset.\<close>

definition generate_parser_methods :: "transition_info list \<Rightarrow> string" where
  "generate_parser_methods reads =
     lines (concat (map (\<lambda>rt.
           [[ti_identifier rt, ''Data Parser::take_'', ti_identifier rt, ''() {''],
            [''    has_message_ = false;''],
            [''    return '', ti_identifier rt, ''_parser_.take_data();''],
            [''}''],
            []]) reads))
     @ lines
        [[''ParseStatus Parser::status() const {''],
         [''    if (has_message_) {''],
         [''        return ParseStatus::Complete;''],
         [''    }''],
         [''    return ParseStatus::NeedMoreData;''],
         [''}''],
         [],
         [''void Parser::on_eof() {''],
         [''    // EOF can be a valid terminator for some protocols''],
         [''    // Mark the stream as ended - individual parsers may use this''],
         [''    // to complete parsing if they were waiting for more data''],
         [''    eof_received_ = true;''],
         [''}''],
         [],
         [''void Parser::reset() {''],
         [''    has_message_ = false;''],
         [''    eof_received_ = false;'']]
     @ lines (map (\<lambda>rt. [''    '', ti_identifier rt, ''_parser_.reset();'']) reads)
     @ lines [[''}''], []]"

definition generate_parser :: "output_context \<Rightarrow> protocol_info \<Rightarrow> generated" where
  "generate_parser ctx info =
     (let guard = header_guard ctx ''parser.hpp''; reads = pi_read_transitions info in
      \<lparr>gen_header =
         lines
          [[''// Auto-generated by NetworkProtocolDSL - do not edit''],
           [''#ifndef '', guard],
           [''#define '', guard],
           [],
           [''#include <cstddef>''],
           [''#include <optional>''],
           [''#include <string>''],
           [''#include <string_view>''],
           [''#include <variant>''],
           [''#include <vector>''],
           [''#include '', [CHR 0x22], ''data_types.hpp'', [CHR 0x22]],
           [''#include '', [CHR 0x22], ''states.hpp'', [CHR 0x22]],
           []]
         @ open_namespace ctx
         @ lines
          [[],
           [''enum class ParseStatus {''],
           [''    NeedMoreData,  // Not enough bytes to complete parsing''],
           [''    Complete,      // Message parsed successfully''],
           [''    Error          // Protocol error''],
           [''};''],
           [],
           [''struct ParseResult {''],
           [''    ParseStatus status;''],
           [''    size_t consumed;  // Number of bytes consumed from input''],
           [''};''],
           []]
         @ concat (map generate_message_parser_header reads)
         @ generate_parser_class info
         @ close_namespace ctx
         @ lines [[], [''#endif // '', guard]],
       gen_source =
         lines
          [[''// Auto-generated by NetworkProtocolDSL - do not edit''],
           [''#include '', [CHR 0x22], ''parser.hpp'', [CHR 0x22]],
           [],
           [''#include <cstring>''],
           [''#include <string>''],
           []]
         @ open_namespace ctx @ line []
         @ concat (map (\<lambda>rt. generate_message_parser_reset rt @ generate_message_parser_parse rt
             @ generate_message_parser_take_data rt) reads)
         @ generate_parser_dispatch reads
         @ generate_parser_methods reads
         @ close_namespace ctx,
       gen_errors = []\<rparr>)"

end
