(* ===== verification/GenerateStateMachine.thy ===== *)
theory GenerateStateMachine
  imports GenerateTypes
begin

text \<open>
  \<open>codegen/generate_state_machine.cpp\<close>: for each side a class that feeds the octets that arrive
  to the parsers of the current state, and serialises the messages to send.
\<close>

section \<open>The transitions of a side\<close>

definition side_name :: "bool \<Rightarrow> string" where
  "side_name is_client = (if is_client then ''Client'' else ''Server'')"

definition get_read_transitions_for_agent :: "protocol_info \<Rightarrow> bool \<Rightarrow> transition_info list" where
  "get_read_transitions_for_agent info is_client =
     filter (\<lambda>rt. ti_agent rt = side_name is_client) (pi_read_transitions info)"

definition get_write_transitions_for_agent :: "protocol_info \<Rightarrow> bool \<Rightarrow> transition_info list" where
  "get_write_transitions_for_agent info is_client =
     filter (\<lambda>wt. ti_agent wt = side_name is_client) (pi_write_transitions info)"

definition get_messages_by_then_state :: "protocol_info \<Rightarrow> bool \<Rightarrow> transition_info list ordered_map" where
  "get_messages_by_then_state info is_client = group_by ti_then_state (get_read_transitions_for_agent info is_client)"

definition reads_by_state :: "protocol_info \<Rightarrow> bool \<Rightarrow> transition_info list ordered_map" where
  "reads_by_state info is_client = group_by ti_when_state (get_read_transitions_for_agent info is_client)"

section \<open>The class\<close>

definition generate_state_machine_class_header :: "string \<Rightarrow> protocol_info \<Rightarrow> bool \<Rightarrow> string" where
  "generate_state_machine_class_header class_name info is_client =
     (let read_trans = get_read_transitions_for_agent info is_client;
          write_trans = get_write_transitions_for_agent info is_client;
          then_states = map (state_name_to_identifier \<circ> fst)
            (filter (\<lambda>(s, ts). ts \<noteq> []) (get_messages_by_then_state info is_client)) in
      lines
       [[''/**''],
        ['' * '', class_name, '' - Sans-IO state machine for '', (if is_client then ''client'' else ''server''), '' side.''],
        ['' *''],
        ['' * Usage:''],
        ['' * 1. Call on_bytes_received() when data arrives from the network''],
        ['' * 2. Check has_message() to see if a complete message was parsed''],
        ['' * 3. Use message_state() to know which state'', [CHR 0x27], ''s message is available''],
        ['' * 4. Call the appropriate take_*_message() for that state''],
        ['' * 5. Check has_pending_output() and use pending_output()/bytes_written()''],
        ['' * 6. Call send_*() methods to queue outgoing messages''],
        ['' */''],
        [''class '', class_name, '' {''],
        [''public:''],
        [''    '', class_name, ''();''],
        [''    ''],
        [''    // Current protocol state''],
        [''    State current_state() const { return current_state_; }''],
        [''    ''],
        [''    // Process received bytes, returns number of bytes consumed''],
        [''    size_t on_bytes_received(std::string_view data);''],
        [''    ''],
        [''    // Check if there'', [CHR 0x27], ''s a complete message available''],
        [''    bool has_message() const { return has_message_; }''],
        [''    ''],
        [''    // Get which state the pending message transitioned TO''],
        [''    // (use this to determine which take_*_message() to call)''],
        [''    State message_state() const { return message_state_; }''],
        [''    ''],
        [''    // State-specific message accessors''],
        [''    // Call the one matching message_state() after has_message() returns true'']]
      @ lines (map (\<lambda>s. [''    '', s, ''Input take_'', s, ''_message();'']) then_states)
      @ lines
       [[''    ''],
        [''    // Check if there'', [CHR 0x27], ''s output data pending''],
        [''    bool has_pending_output() const { return !output_buffer_.empty(); }''],
        [''    ''],
        [''    // Get pending output bytes (does not consume them)''],
        [''    std::string_view pending_output() const { return output_buffer_; }''],
        [''    ''],
        [''    // Mark bytes as written (consume from output buffer)''],
        [''    void bytes_written(size_t count);''],
        [''    ''],
        [''    // Check if connection is closed''],
        [''    bool is_closed() const { return current_state_ == State::Closed; }''],
        [''    ''],
        [''    // Check if a protocol error occurred (received data that doesn'', [CHR 0x27], ''t match any expected message)''],
        [''    bool has_error() const { return has_error_; }''],
        [''    ''],
        [''    // Signal end-of-file on input stream''],
        [''    // Call this when the connection is closed by the remote peer.''],
        [''    // This notifies parsers that no more data will arrive, allowing them to''],
        [''    // complete parsing if they were waiting for a terminator at EOF.''],
        [''    void on_eof();''],
        [''    ''],
        [''    // Methods to send outgoing messages'']]
      @ lines (concat (map (\<lambda>wt.
          [[''    void send_'', ti_identifier wt, ''(const '', ti_identifier wt, ''Data& data);''],
           [''    void send_'', ti_identifier wt, ''('', ti_identifier wt, ''Data&& data);'']]) write_trans))
      @ lines
       [[],
        [''private:''],
        (if ''Open'' \<in> set (pi_states info) then [''    State current_state_ = State::Open;'']
         else case pi_states info of
             s # _ \<Rightarrow> [''    State current_state_ = State::'', state_name_to_identifier s, '';'']
           | [] \<Rightarrow> [''    State current_state_{};'']),
        [''    bool has_message_ = false;''],
        [''    bool has_error_ = false;''],
        [''    State message_state_{}; // Which state the message transitioned to''],
        [''    std::string output_buffer_;''],
        [''    ''],
        [''    // Pending message storage (one per target state)'']]
      @ lines (map (\<lambda>s. [''    std::optional<'', s, ''Input> pending_'', s, ''_message_;'']) then_states)
      @ lines
       [[''    ''],
        [''    // Parsers for incoming messages'']]
      @ lines (map (\<lambda>rt. [''    '', ti_identifier rt, ''Parser '', ti_identifier rt, ''_parser_;'']) read_trans)
      @ lines
       [[''    ''],
        [''    // Serializers for outgoing messages'']]
      @ lines (map (\<lambda>wt. [''    '', ti_identifier wt, ''Serializer '', ti_identifier wt, ''_serializer_;'']) write_trans)
      @ lines [[''};''], []])"

definition generate_state_machine_constructor :: "string \<Rightarrow> string" where
  "generate_state_machine_constructor class_name =
     lines
      [[class_name, ''::'', class_name, ''() {''],
       [''    // Initialize parsers and serializers''],
       [''}''],
       []]"

section \<open>\<open>on_bytes_received\<close>\<close>

definition generate_single_transition :: "transition_info \<Rightarrow> string" where
  "generate_single_transition rt =
     (let then_state_id = state_name_to_identifier (ti_then_state rt) in
      lines
       [[''        auto result = '', ti_identifier rt, ''_parser_.parse(data);''],
        [''        total_consumed = result.consumed;''],
        [''        if (result.status == ParseStatus::Complete) {''],
        [''            pending_'', then_state_id, ''_message_ = '', ti_identifier rt, ''_parser_.take_data();''],
        [''            has_message_ = true;''],
        [''            message_state_ = State::'', then_state_id, '';''],
        [''            current_state_ = State::'', then_state_id, '';''],
        [''            '', ti_identifier rt, ''_parser_.reset();''],
        [''            any_parser_progressed = true;''],
        [''        } else if (result.status == ParseStatus::NeedMoreData) {''],
        [''            any_parser_progressed = true;''],
        [''        }'']])"

definition spaces :: "nat \<Rightarrow> string" where
  "spaces n = replicate n (CHR '' '')"

text \<open>The chain of attempts, each in the \<open>else\<close> of the one before; \<open>n\<close> is the number of the attempt.\<close>

fun generate_attempts :: "transition_info list \<Rightarrow> nat \<Rightarrow> transition_info list \<Rightarrow> string" where
  "generate_attempts transitions n [] = []"
| "generate_attempts transitions n (rt # rest) =
     (let then_state_id = state_name_to_identifier (ti_then_state rt);
          result_var = ''result_'' @ decimal_nat n;
          indent = spaces (8 + n * 4);
          body_indent = spaces (12 + n * 4) in
      lines
       [[indent, ''auto '', result_var, '' = '', ti_identifier rt, ''_parser_.parse(data);''],
        [indent, ''if ('', result_var, ''.status == ParseStatus::Complete) {''],
        [body_indent, ''total_consumed = '', result_var, ''.consumed;''],
        [body_indent, ''pending_'', then_state_id, ''_message_ = '', ti_identifier rt, ''_parser_.take_data();''],
        [body_indent, ''has_message_ = true;''],
        [body_indent, ''message_state_ = State::'', then_state_id, '';''],
        [body_indent, ''current_state_ = State::'', then_state_id, '';'']]
      @ lines (map (\<lambda>rt2. [body_indent, ti_identifier rt2, ''_parser_.reset();'']) transitions)
      @ lines
       [[body_indent, ''any_parser_progressed = true;''],
        [indent, ''} else if ('', result_var, ''.status == ParseStatus::NeedMoreData) {'']]
      @ (if rest \<noteq> [] then
           lines
            [[body_indent, ''// Parser needs more data - keep buffered state''],
             [body_indent, ''total_consumed = '', result_var, ''.consumed;'']]
           @ lines (map (\<lambda>rt2. [body_indent, ti_identifier rt2, ''_parser_.reset();'']) rest)
           @ lines
            [[body_indent, ''any_parser_progressed = true;''],
             [indent, ''} else {''],
             [body_indent, ti_identifier rt, ''_parser_.reset();'']]
         else
           lines
            [[body_indent, ''total_consumed = '', result_var, ''.consumed;''],
             [body_indent, ''any_parser_progressed = true;''],
             [indent, ''}'']])
      @ generate_attempts transitions (Suc n) rest)"

text \<open>The loop that closes the \<open>else\<close> blocks, from the innermost.\<close>

fun generate_closings :: "nat \<Rightarrow> string" where
  "generate_closings 0 = []"
| "generate_closings (Suc i) = line [spaces (8 + i * 4), ''}''] @ generate_closings i"

definition generate_receive_case :: "string \<times> transition_info list \<Rightarrow> string" where
  "generate_receive_case = (\<lambda>(state, transitions).
     line [''    case State::'', state_name_to_identifier state, '': {'']
     @ (case transitions of
          [] \<Rightarrow> []
        | [rt] \<Rightarrow> generate_single_transition rt
        | _ \<Rightarrow> line [''        ''] @ generate_attempts transitions 0 transitions @ generate_closings (length transitions - 1))
     @ lines
      [[''        break;''],
       [''    }'']])"

definition generate_on_bytes_received :: "string \<Rightarrow> protocol_info \<Rightarrow> bool \<Rightarrow> string" where
  "generate_on_bytes_received class_name info is_client =
     lines
      [[''size_t '', class_name, ''::on_bytes_received(std::string_view data) {''],
       [''    if (data.empty() || is_closed() || has_error_) {''],
       [''        return 0;''],
       [''    }''],
       [''    ''],
       [''    size_t total_consumed = 0;''],
       [''    bool any_parser_progressed = false;''],
       [''    ''],
       [''    // Dispatch to appropriate parser based on current state''],
       [''    switch (current_state_) {'']]
     @ concat (map generate_receive_case (reads_by_state info is_client))
     @ lines
      [[''    default:''],
       [''        break;''],
       [''    }''],
       [''    ''],
       [''    // If we had data but no parser could process it, it'', [CHR 0x27], ''s a protocol error''],
       [''    if (!data.empty() && !any_parser_progressed && total_consumed == 0) {''],
       [''        has_error_ = true;''],
       [''    }''],
       [''    ''],
       [''    return total_consumed;''],
       [''}''],
       []]"

section \<open>The other methods\<close>

definition generate_take_message_methods :: "string \<Rightarrow> protocol_info \<Rightarrow> bool \<Rightarrow> string" where
  "generate_take_message_methods class_name info is_client =
     concat (map (\<lambda>(state_name, transitions).
       if transitions = [] then []
       else
         (let state_id = state_name_to_identifier state_name in
          lines
           [[state_id, ''Input '', class_name, ''::take_'', state_id, ''_message() {''],
            [''    has_message_ = false;''],
            [''    auto result = std::move(*pending_'', state_id, ''_message_);''],
            [''    pending_'', state_id, ''_message_.reset();''],
            [''    return result;''],
            [''}''],
            []])) (get_messages_by_then_state info is_client))"

definition generate_bytes_written :: "string \<Rightarrow> string" where
  "generate_bytes_written class_name =
     lines
      [[''void '', class_name, ''::bytes_written(size_t count) {''],
       [''    if (count >= output_buffer_.size()) {''],
       [''        output_buffer_.clear();''],
       [''    } else {''],
       [''        output_buffer_.erase(0, count);''],
       [''    }''],
       [''}''],
       []]"

definition generate_on_eof :: "string \<Rightarrow> protocol_info \<Rightarrow> bool \<Rightarrow> string" where
  "generate_on_eof class_name info is_client =
     lines
      [[''void '', class_name, ''::on_eof() {''],
       [''    if (is_closed()) {''],
       [''        return;''],
       [''    }''],
       [''    ''],
       [''    // Notify active parsers of EOF''],
       [''    switch (current_state_) {'']]
     @ concat (map (\<lambda>(state, transitions).
         line [''    case State::'', state_name_to_identifier state, '':'']
         @ lines (map (\<lambda>rt. [''        '', ti_identifier rt, ''_parser_.on_eof();'']) transitions)
         @ line [''        break;'']) (reads_by_state info is_client))
     @ lines
      [[''    default:''],
       [''        break;''],
       [''    }''],
       [''}''],
       []]"

text \<open>A method to send a message; \<open>parameter\<close> and \<open>argument\<close> differ between the copying and the
  moving version.\<close>

definition generate_send_method :: "string \<Rightarrow> transition_info \<Rightarrow> string list \<Rightarrow> string \<Rightarrow> string" where
  "generate_send_method class_name wt parameter argument =
     (let i = ti_identifier wt in
      lines
       [[''void '', class_name, ''::send_'', i] @ parameter,
        [''    '', i, ''_serializer_.set_data('', argument, '');''],
        [''    while (!'', i, ''_serializer_.is_complete()) {''],
        [''        auto chunk = '', i, ''_serializer_.next_chunk();''],
        [''        if (chunk.empty()) break;''],
        [''        output_buffer_.append(chunk);''],
        [''        '', i, ''_serializer_.advance();''],
        [''    }''],
        [''    current_state_ = State::'', state_name_to_identifier (ti_then_state wt), '';''],
        [''}''],
        []])"

definition generate_send_methods :: "string \<Rightarrow> protocol_info \<Rightarrow> bool \<Rightarrow> string" where
  "generate_send_methods class_name info is_client =
     concat (map (\<lambda>wt.
       generate_send_method class_name wt [''(const '', ti_identifier wt, ''Data& data) {''] ''data''
       @ generate_send_method class_name wt [''('', ti_identifier wt, ''Data&& data) {''] ''std::move(data)'')
       (get_write_transitions_for_agent info is_client))"

section \<open>The files\<close>

definition generate_state_machine_side :: "string \<Rightarrow> protocol_info \<Rightarrow> bool \<Rightarrow> string" where
  "generate_state_machine_side class_name info is_client =
     line [''// '', class_name, '' implementation'']
     @ generate_state_machine_constructor class_name
     @ generate_on_bytes_received class_name info is_client
     @ generate_take_message_methods class_name info is_client
     @ generate_bytes_written class_name
     @ generate_on_eof class_name info is_client
     @ generate_send_methods class_name info is_client"

definition generate_state_machine :: "output_context \<Rightarrow> protocol_info \<Rightarrow> generated" where
  "generate_state_machine ctx info =
     (let guard = header_guard ctx ''state_machine.hpp'' in
      \<lparr>gen_header =
         lines
          [[''// This file is auto-generated. Do not edit.''],
           [],
           [''#ifndef '', guard],
           [''#define '', guard],
           [],
           [''#include <optional>''],
           [''#include <string>''],
           [''#include <string_view>''],
           [''#include '', [CHR 0x22], ''data_types.hpp'', [CHR 0x22]],
           [''#include '', [CHR 0x22], ''parser.hpp'', [CHR 0x22]],
           [''#include '', [CHR 0x22], ''serializer.hpp'', [CHR 0x22]],
           [''#include '', [CHR 0x22], ''states.hpp'', [CHR 0x22]],
           []]
         @ open_namespace ctx @ line []
         @ generate_state_machine_class_header ''ClientStateMachine'' info True
         @ generate_state_machine_class_header ''ServerStateMachine'' info False
         @ close_namespace ctx
         @ lines [[], [''#endif // '', guard]],
       gen_source =
         lines
          [[''// This file is auto-generated. Do not edit.''],
           [],
           [''#include '', [CHR 0x22], ''state_machine.hpp'', [CHR 0x22]],
           []]
         @ open_namespace ctx @ line []
         @ generate_state_machine_side ''ClientStateMachine'' info True
         @ generate_state_machine_side ''ServerStateMachine'' info False
         @ close_namespace ctx,
       gen_errors = []\<rparr>)"

end
