(* ===== verification/GenerateRunner.thy ===== *)
theory GenerateRunner
  imports GenerateStateMachine
begin

text \<open>
  \<open>codegen/generate_runner.cpp\<close>: the concept a handler has to satisfy, and the class that calls
  it for each message that arrives.
\<close>

definition get_read_transitions_by_then_state :: "protocol_info \<Rightarrow> bool \<Rightarrow> transition_info list ordered_map" where
  "get_read_transitions_by_then_state info is_client =
     group_by ti_then_state (filter (\<lambda>rt. ti_agent rt = side_name is_client) (pi_read_transitions info))"

definition get_write_transitions_by_when_state :: "protocol_info \<Rightarrow> bool \<Rightarrow> transition_info list ordered_map" where
  "get_write_transitions_by_when_state info is_client =
     group_by ti_when_state (filter (\<lambda>wt. ti_agent wt = side_name is_client) (pi_write_transitions info))"

text \<open>Whether a side has something to write from a state; every loop skips the states for which
  it has not.\<close>

definition has_output :: "protocol_info \<Rightarrow> bool \<Rightarrow> string \<Rightarrow> bool" where
  "has_output info is_client state_name =
     (case map_of (get_write_transitions_by_when_state info is_client) state_name of
        None \<Rightarrow> False | Some ts \<Rightarrow> ts \<noteq> [])"

definition handled_states :: "protocol_info \<Rightarrow> bool \<Rightarrow> transition_info list ordered_map" where
  "handled_states info is_client =
     filter (\<lambda>(state_name, ts). has_output info is_client state_name) (get_read_transitions_by_then_state info is_client)"

text \<open>A line for each message that arrives in a state with outputs.\<close>

definition handler_lines :: "protocol_info \<Rightarrow> bool \<Rightarrow> (string \<Rightarrow> transition_info \<Rightarrow> string list) \<Rightarrow> string" where
  "handler_lines info is_client f =
     lines (concat (map (\<lambda>(state_name, ts). map (f (state_name_to_identifier state_name)) ts) (handled_states info is_client)))"

section \<open>The concept\<close>

definition generate_handler_concept :: "string \<Rightarrow> string \<Rightarrow> protocol_info \<Rightarrow> bool \<Rightarrow> string" where
  "generate_handler_concept concept_name pre info is_client =
     (let has_open_output = has_output info is_client ''Open'' in
      lines
       [[''/**''],
        ['' * Concept for '', pre, '' protocol handler.''],
        ['' *''],
        ['' * IMPORTANT: The handler instance is shared across ALL connections.''],
        ['' * Handler implementations must NOT store per-connection state as member''],
        ['' * variables. Instead, all connection-specific data must be carried in the''],
        ['' * input message data and returned in the output message data.''],
        ['' *''],
        ['' * ALL HANDLER METHODS MUST BE CONST to enforce this at compile-time.''],
        ['' *''],
        ['' * The handler is appropriate for storing shared configuration, database''],
        ['' * connections, or other resources that are common to all connections.''],
        ['' *''],
        ['' * Implementations must provide handler methods for each state where''],
        ['' * messages are received. Each method is named on_<StateName> and has''],
        ['' * overloads for each message type that can arrive at that state.''],
        ['' * The runner uses std::visit + ADL to dispatch to the correct overload.''],
        ['' *''],
        ['' * Required method overloads (all must be const):'']]
      @ (if has_open_output then line ['' *   OpenOutput on_Open() const''] else [])
      @ handler_lines info is_client (\<lambda>state_id rt.
          ['' *   '', state_id, ''Output'', '' on_'', state_id, ''(const '', ti_identifier rt, ''Data&) const''])
      @ lines
       [['' */''],
        [''template <typename T>'']]
      @ ''concept '' @ concept_name @ '' = requires(const T& handler''
      @ concat (map (\<lambda>rt. '', const '' @ ti_identifier rt @ ''Data& '' @ ti_identifier rt @ ''_msg'')
          (filter (\<lambda>rt. ti_agent rt = side_name is_client) (pi_read_transitions info)))
      @ line ['') {'']
      @ (if has_open_output then line [''    { handler.on_Open() } -> std::convertible_to<OpenOutput>;''] else [])
      @ handler_lines info is_client (\<lambda>state_id rt.
          [''    { handler.on_'', state_id, ''('', ti_identifier rt, ''_msg) } -> std::convertible_to<'', state_id, ''Output'', ''>;''])
      @ lines [[''};''], []])"

section \<open>The class\<close>

definition generate_runner_documentation ::
  "string \<Rightarrow> string \<Rightarrow> string \<Rightarrow> string \<Rightarrow> protocol_info \<Rightarrow> bool \<Rightarrow> string" where
  "generate_runner_documentation class_name state_machine_class handler_concept pre info is_client =
     lines
      [[''/**''],
       ['' * '', class_name, '' - Template-based runner for '', (if is_client then ''client'' else ''server''), '' side.''],
       ['' *''],
       ['' * This class wraps '', state_machine_class, '' and dispatches''],
       ['' * received messages to the appropriate handler method based on state.''],
       ['' *''],
       ['' * IMPORTANT: Each Runner instance manages one connection'', [CHR 0x27], ''s state machine,''],
       ['' * but the Handler reference is typically shared across all connections.''],
       ['' * The Handler should only contain shared resources (configuration, etc.)''],
       ['' * and must NOT store per-connection state. All connection-specific data''],
       ['' * must flow through the message input/output parameters.''],
       ['' *''],
       ['' * All handler methods are required to be const to enforce this constraint.''],
       ['' *''],
       ['' * @tparam Handler A type satisfying the '', handler_concept, '' concept.''],
       ['' *''],
       ['' * Usage:''],
       ['' *   // Handler holds shared config, NOT per-connection state''],
       ['' *   struct My'', pre, ''Handler {''],
       ['' *       const Config& config;  // Shared across connections - OK''],
       ['' *       // int request_count;  // Per-connection state - NOT OK'']]
     @ (if has_output info is_client ''Open'' then line ['' *       OpenOutput on_Open() const;''] else [])
     @ handler_lines info is_client (\<lambda>state_id rt.
         ['' *       '', state_id, ''Output'', '' on_'', state_id, ''(const '', ti_identifier rt, ''Data& msg) const;''])
     @ lines
      [['' *   };''],
       ['' *''],
       ['' *   My'', pre, ''Handler handler;  // Shared across connections''],
       ['' *   // Each connection gets its own Runner instance''],
       ['' *   '', class_name, ''<My'', pre, ''Handler> runner(handler);'']]
     @ (if has_output info is_client ''Open'' then line ['' *   runner.start();  // Call on_Open and send initial message''] else [])
     @ lines
      [['' *   runner.on_bytes_received(data);''],
       ['' */'']]"

definition generate_dispatch_message :: "protocol_info \<Rightarrow> bool \<Rightarrow> string" where
  "generate_dispatch_message info is_client =
     lines
      [[''    void dispatch_message() {''],
       [''        State msg_state = state_machine_.message_state();''],
       [''        switch (msg_state) {'']]
     @ concat (map (\<lambda>(state_name, ts).
         (let state_id = state_name_to_identifier state_name in
          lines
           [[''        case State::'', state_id, '': {''],
            [''            auto input = state_machine_.take_'', state_id, ''_message();''],
            [''            auto output = std::visit([this](auto&& msg) -> '', state_id, ''Output'', '' {''],
            [''                return handler_.on_'', state_id, ''(msg);''],
            [''            }, input);''],
            [''            dispatch_output(output);''],
            [''            break;''],
            [''        }'']])) (handled_states info is_client))
     @ lines
      [[''        default:''],
       [''            break;''],
       [''        }''],
       [''    }''],
       [''    '']]"

fun generate_output_branches :: "bool \<Rightarrow> transition_info list \<Rightarrow> string" where
  "generate_output_branches first [] = []"
| "generate_output_branches first (wt # wts) =
     lines
      [[''            '', (if first then [] else ''else ''), ''if constexpr (std::is_same_v<T, '', ti_identifier wt, ''Data>) {''],
       [''                state_machine_.send_'', ti_identifier wt, ''(msg);''],
       [''            }'']]
     @ generate_output_branches False wts"

definition generate_dispatch_output :: "protocol_info \<Rightarrow> bool \<Rightarrow> string" where
  "generate_dispatch_output info is_client =
     lines
      [[''    template <typename Output>''],
       [''    void dispatch_output(const Output& output) {''],
       [''        std::visit([this](auto&& msg) {''],
       [''            using T = std::decay_t<decltype(msg)>;'']]
     @ generate_output_branches True (filter (\<lambda>wt. ti_agent wt = side_name is_client) (pi_write_transitions info))
     @ lines
      [[''        }, output);''],
       [''    }''],
       [''};''],
       []]"

definition generate_runner_class_header ::
  "string \<Rightarrow> string \<Rightarrow> string \<Rightarrow> string \<Rightarrow> protocol_info \<Rightarrow> bool \<Rightarrow> string" where
  "generate_runner_class_header class_name state_machine_class handler_concept pre info is_client =
     generate_runner_documentation class_name state_machine_class handler_concept pre info is_client
     @ lines
      [[''template <'', handler_concept, '' Handler>''],
       [''class '', class_name, '' {''],
       [''public:''],
       [''    explicit '', class_name, ''(const Handler& handler) : handler_(handler) {}''],
       [''    '']]
     @ (if has_output info is_client ''Open'' then
          lines
           [[''    // Call on_Open handler and dispatch initial message''],
            [''    void start() {''],
            [''        auto output = handler_.on_Open();''],
            [''        dispatch_output(output);''],
            [''    }''],
            [''    '']]
        else [])
     @ lines
      [[''    // Process received bytes, invoke handler on complete messages''],
       [''    size_t on_bytes_received(std::string_view data) {''],
       [''        size_t consumed = state_machine_.on_bytes_received(data);''],
       [''        ''],
       [''        while (state_machine_.has_message()) {''],
       [''            dispatch_message();''],
       [''        }''],
       [''        ''],
       [''        return consumed;''],
       [''    }''],
       [''    ''],
       [''    // Check if there'', [CHR 0x27], ''s output data pending''],
       [''    bool has_pending_output() const { return state_machine_.has_pending_output(); }''],
       [''    ''],
       [''    // Get pending output bytes''],
       [''    std::string_view pending_output() const { return state_machine_.pending_output(); }''],
       [''    ''],
       [''    // Mark bytes as written''],
       [''    void bytes_written(size_t count) { state_machine_.bytes_written(count); }''],
       [''    ''],
       [''    // Check if connection is closed''],
       [''    bool is_closed() const { return state_machine_.is_closed(); }''],
       [''    ''],
       [''    // Check if a protocol error occurred''],
       [''    bool has_error() const { return state_machine_.has_error(); }''],
       [''    ''],
       [''    // Get current state''],
       [''    State current_state() const { return state_machine_.current_state(); }''],
       [''    ''],
       [''    // Access the underlying state machine''],
       [''    '', state_machine_class, ''& state_machine() { return state_machine_; }''],
       [''    const '', state_machine_class, ''& state_machine() const { return state_machine_; }''],
       [],
       [''private:''],
       [''    '', state_machine_class, '' state_machine_;''],
       [''    const Handler& handler_;''],
       [''    '']]
     @ generate_dispatch_message info is_client
     @ generate_dispatch_output info is_client"

section \<open>The files\<close>

definition generate_runner :: "output_context \<Rightarrow> protocol_info \<Rightarrow> generated" where
  "generate_runner ctx info =
     (let guard = header_guard ctx ''runner.hpp'' in
      \<lparr>gen_header =
         lines
          [[''#ifndef '', guard],
           [''#define '', guard],
           [],
           [''#include <concepts>''],
           [''#include <variant>''],
           [''#include '', [CHR 0x22], ''data_types.hpp'', [CHR 0x22]],
           [''#include '', [CHR 0x22], ''states.hpp'', [CHR 0x22]],
           [''#include '', [CHR 0x22], ''state_machine.hpp'', [CHR 0x22]],
           []]
         @ open_namespace ctx @ line []
         @ generate_handler_concept ''ServerHandlerConcept'' ''Server'' info False
         @ generate_handler_concept ''ClientHandlerConcept'' ''Client'' info True
         @ generate_runner_class_header ''ServerRunner'' ''ServerStateMachine'' ''ServerHandlerConcept'' ''Server'' info False
         @ generate_runner_class_header ''ClientRunner'' ''ClientStateMachine'' ''ClientHandlerConcept'' ''Client'' info True
         @ close_namespace ctx
         @ lines [[], [''#endif // '', guard]],
       gen_source =
         lines [[''#include '', [CHR 0x22], ''runner.hpp'', [CHR 0x22]], []]
         @ open_namespace ctx
         @ lines [[], [''// Template implementations are in the header.''], []]
         @ close_namespace ctx,
       gen_errors = []\<rparr>)"

end
