(* ===== verification/CppGenerator.thy ===== *)
theory CppGenerator
  imports GenerateSerializer GenerateDispatch GenerateRunner
begin

text \<open>
  \<open>codegen/cppgenerator.cpp\<close>: the files of the generated library. Creating the directory and
  writing a file belong to the operating system: what they come to is a parameter, and the result
  of a run says which files were written with which contents.
\<close>

definition generate_main_header :: "output_context \<Rightarrow> string" where
  "generate_main_header ctx =
     (let guard = header_guard ctx ''protocol.hpp'' in
      lines
       [[''// This file is auto-generated. Do not edit.''],
        [],
        [''#ifndef '', guard],
        [''#define '', guard],
        [],
        [''// Main protocol header - includes all generated components''],
        [],
        [''#include '', [CHR 0x22], ''data_types.hpp'', [CHR 0x22]],
        [''#include '', [CHR 0x22], ''states.hpp'', [CHR 0x22]],
        [''#include '', [CHR 0x22], ''parser.hpp'', [CHR 0x22]],
        [''#include '', [CHR 0x22], ''serializer.hpp'', [CHR 0x22]],
        [''#include '', [CHR 0x22], ''state_machine.hpp'', [CHR 0x22]],
        [''#include '', [CHR 0x22], ''runner.hpp'', [CHR 0x22]],
        [],
        [''#endif // '', guard]])"

definition generate_cmake_lists :: "string \<Rightarrow> string" where
  "generate_cmake_lists library_name =
     lines
      [[''# This file is auto-generated. Do not edit.''],
       [''# CMakeLists.txt for '', library_name],
       [],
       [''cmake_minimum_required(VERSION 3.14)''],
       [],
       [''# Define the static library''],
       [''add_library('', library_name, '' STATIC''],
       [''    data_types.cpp''],
       [''    states.cpp''],
       [''    parser.cpp''],
       [''    serializer.cpp''],
       [''    state_machine.cpp''],
       [''    runner.cpp''],
       ['')''],
       [],
       [''# Set C++ standard (C++20 for concepts support)''],
       [''target_compile_features('', library_name, '' PUBLIC cxx_std_20)''],
       [],
       [''# Include current directory for headers''],
       [''target_include_directories('', library_name, '' PUBLIC''],
       [''    $<BUILD_INTERFACE:${CMAKE_CURRENT_SOURCE_DIR}>''],
       [''    $<INSTALL_INTERFACE:include>''],
       ['')'']]"

section \<open>Writing\<close>

text \<open>What writing a path can come to, and what one run has done so far: success, the errors, the
  files in the order written.\<close>

datatype file_outcome = Written | OpenFailed | WriteFailed

record generator_run =
  gr_success :: bool
  gr_errors :: "string list"
  gr_files :: "(string \<times> string) list"

record cpp_generator =
  cg_ctx :: output_context
  cg_info :: protocol_info
  cg_target_directory :: string
  cg_library_name :: string

text \<open>\<open>operator/\<close> on paths.\<close>

definition path_join :: "string \<Rightarrow> string \<Rightarrow> string" where
  "path_join dir filename =
     (if dir = [] \<or> last dir = CHR ''/'' then dir @ filename else dir @ ''/'' @ filename)"

definition write_file ::
  "(string \<Rightarrow> file_outcome) \<Rightarrow> cpp_generator \<Rightarrow> string \<Rightarrow> string \<Rightarrow> generator_run \<Rightarrow> generator_run" where
  "write_file outcome g filename content r =
     (let path = path_join (cg_target_directory g) filename in
      case outcome path of
        OpenFailed \<Rightarrow> r\<lparr>gr_success := False, gr_errors := gr_errors r @ [''Failed to open file for writing: '' @ path]\<rparr>
      | WriteFailed \<Rightarrow> r\<lparr>gr_success := False, gr_errors := gr_errors r @ [''Failed to write to file: '' @ path]\<rparr>
      | Written \<Rightarrow> r\<lparr>gr_files := gr_files r @ [(filename, content)]\<rparr>)"

definition write_pair ::
  "(string \<Rightarrow> file_outcome) \<Rightarrow> cpp_generator \<Rightarrow> string \<Rightarrow> generated \<Rightarrow> generator_run \<Rightarrow> generator_run" where
  "write_pair outcome g basename content r =
     write_file outcome g (basename @ ''.cpp'') (gen_source content)
       (write_file outcome g (basename @ ''.hpp'') (gen_header content)
         (r\<lparr>gr_errors := gr_errors r @ gen_errors content\<rparr>))"

text \<open>\<open>directory_error\<close> is the message of \<open>create_directories\<close>, if it fails.\<close>

definition generate ::
  "string option \<Rightarrow> (string \<Rightarrow> file_outcome) \<Rightarrow> cpp_generator \<Rightarrow> generator_run" where
  "generate directory_error outcome g =
     (case directory_error of
        Some message \<Rightarrow>
          \<lparr>gr_success = False,
           gr_errors = [''Failed to create directory: '' @ cg_target_directory g @ '' ('' @ message @ '')''], gr_files = []\<rparr>
      | None \<Rightarrow>
          (let ctx = cg_ctx g; info = cg_info g;
               r = \<lparr>gr_success = True, gr_errors = [], gr_files = []\<rparr>;
               r = write_pair outcome g ''data_types'' (generate_data_types ctx info) r;
               r = write_pair outcome g ''states'' (generate_states ctx info) r;
               r = write_pair outcome g ''parser'' (generate_parser ctx info) r;
               r = write_pair outcome g ''serializer'' (generate_serializer ctx info) r;
               r = write_pair outcome g ''state_machine'' (generate_state_machine ctx info) r;
               r = write_pair outcome g ''runner'' (generate_runner ctx info) r;
               r = write_file outcome g ''protocol.hpp'' (generate_main_header ctx) r in
           if cg_library_name g = [] then r
           else write_file outcome g ''CMakeLists.txt'' (generate_cmake_lists (cg_library_name g)) r))"

end
