(* ===== verification/ProtocolInfoLemmas.thy ===== *)
theory ProtocolInfoLemmas
  imports ProtocolInfo SemaLemmas
begin

text \<open>
  What the collections of \<open>ProtocolInfo\<close> hold, in terms of the messages of the protocol the
  analysed agents come from.
\<close>

section \<open>Sets of states\<close>

lemma set_set_insert [simp]: "set (set_insert k s) = insert k (set s)"
  by (induction s) auto

lemma sorted_set_insert: "sorted_wrt (<) s \<Longrightarrow> sorted_wrt (<) (set_insert k s)"
  by (induction s) (auto dest: less_trans)

lemma set_insert_targets: "set (insert_targets ts s) = set s \<union> (\<lambda>t. snd (snd t)) ` set ts"
  by (induction ts arbitrary: s) (auto simp: insert_targets_def)

lemma sorted_insert_targets: "sorted_wrt (<) s \<Longrightarrow> sorted_wrt (<) (insert_targets ts s)"
  by (induction ts arbitrary: s) (auto simp: insert_targets_def sorted_set_insert)

lemma set_collect_agent_states:
  "set (collect_agent_states a s) =
     set s \<union> fst ` set (ag_states a) \<union> (\<Union>e \<in> set (ag_states a). (\<lambda>t. snd (snd t)) ` set (snd e))"
proof -
  have "set (fold (\<lambda>s states. insert_targets (snd s) (set_insert (fst s) states)) sts s)
      = set s \<union> fst ` set sts \<union> (\<Union>e \<in> set sts. (\<lambda>t. snd (snd t)) ` set (snd e))"
    for sts :: "(string \<times> state_transitions) list" and s
    by (induction sts arbitrary: s) (auto simp: set_insert_targets)
  then show ?thesis by (simp add: collect_agent_states_def)
qed

lemma sorted_collect_agent_states:
  assumes "sorted_wrt (<) s"
  shows "sorted_wrt (<) (collect_agent_states a s)"
proof -
  have "sorted_wrt (<) s \<Longrightarrow>
      sorted_wrt (<) (fold (\<lambda>s states. insert_targets (snd s) (set_insert (fst s) states)) sts s)"
    for sts :: "(string \<times> state_transitions) list" and s
    by (induction sts arbitrary: s) (auto simp: sorted_insert_targets sorted_set_insert)
  with assms show ?thesis by (simp add: collect_agent_states_def)
qed

section \<open>The entries of an agent\<close>

abbreviation entry_name :: "string \<times> string \<times> transition \<times> string \<Rightarrow> string" where
  "entry_name e \<equiv> fst (snd e)"

definition distinct_maps :: "(string \<times> state_transitions) list \<Rightarrow> bool" where
  "distinct_maps sts \<longleftrightarrow> distinct (map fst sts) \<and> (\<forall>e \<in> set sts. distinct (map fst (snd e)))"

lemma distinct_maps_create: "distinct_maps sts \<Longrightarrow> distinct_maps (create_state s sts)"
  by (auto simp: distinct_maps_def create_state_def map_of_eq_None_iff)

lemma distinct_maps_add:
  assumes "distinct_maps sts" and "map_of sts s \<noteq> None"
  shows "distinct_maps (add_transition s n x sts)"
proof -
  from assms(2) obtain ts where ts: "map_of sts s = Some ts" by auto
  then have "(s, ts) \<in> set sts" by (rule map_of_SomeD)
  with assms(1) have "distinct (map fst (AList.update n x ts))"
    by (force simp: distinct_maps_def intro: AList.distinct_update)
  moreover have "e = (s, v) \<or> e \<in> set sts" if "e \<in> set (AList.update s v sts)" for e v
    using that by (induction sts) (auto split: if_splits)
  ultimately have "distinct (map fst (snd e))" if "e \<in> set (AList.update s (AList.update n x ts) sts)" for e
    using assms(1) that unfolding distinct_maps_def by fastforce
  with assms(1) show ?thesis by (simp add: distinct_maps_def add_transition_def ts AList.distinct_update)
qed

lemma distinct_maps_assemble: "distinct_maps sts \<Longrightarrow> distinct_maps (assemble_states tr ms sts)"
proof (induction ms arbitrary: sts)
  case (Cons p ms)
  obtain n m where p: "p = (n, m)" by (cases p)
  have "map_of (create_state t (create_state s sts)) s \<noteq> None" for s t
    by (simp add: create_state_dom del: not_None_eq)
  with Cons show ?case by (simp add: p Let_def distinct_maps_create distinct_maps_add)
qed simp

text \<open>The entries of an agent are the messages of the protocol.\<close>

definition entry_of :: "string \<Rightarrow> string \<times> message \<Rightarrow> string \<times> string \<times> transition \<times> string" where
  "entry_of agent_name q =
     (id_name (msg_when (snd q)), fst q, the (analyze_message agent_name (snd q)), id_name (msg_then (snd q)))"

lemma agent_entries_iff:
  assumes "distinct_maps (ag_states a)"
  shows "(s, n, x) \<in> set (agent_entries a) \<longleftrightarrow> state_lookup (ag_states a) s n = Some x"
proof -
  have "(s, n, x) \<in> set (agent_entries a) \<longleftrightarrow> (\<exists>ts. (s, ts) \<in> set (ag_states a) \<and> (n, x) \<in> set ts)"
    by (force simp: agent_entries_def)
  also have "\<dots> \<longleftrightarrow> (\<exists>ts. map_of (ag_states a) s = Some ts \<and> map_of ts n = Some x)"
    using assms unfolding distinct_maps_def by (metis map_of_SomeD map_of_is_SomeI snd_conv)
  finally show ?thesis by (auto simp: state_lookup_def split: option.split)
qed

lemma distinct_entries:
  assumes "distinct_maps sts"
  shows "distinct (concat (map (\<lambda>(s, ts). map (Pair s) ts) sts))"
  using assms
proof (induction sts)
  case (Cons p sts)
  obtain s ts where p: "p = (s, ts)" by (cases p)
  have "distinct_maps sts" using Cons.prems by (simp add: distinct_maps_def)
  moreover have "distinct (map (Pair s) ts)"
    using Cons.prems distinct_map [of fst ts] by (simp add: p distinct_maps_def distinct_map inj_on_def)
  moreover have "s \<notin> fst ` set sts" using Cons.prems by (simp add: p distinct_maps_def)
  then have "set (map (Pair s) ts) \<inter> set (concat (map (\<lambda>(s, ts). map (Pair s) ts) sts)) = {}" by force
  ultimately show ?case using Cons.IH by (simp add: p)
qed simp

lemma analyze_agent_entries:
  assumes "analyze_agent p agent_name = Some a" and "ordered p"
  shows "set (agent_entries a) =
      entry_of agent_name ` set p"
    and "distinct (map entry_name (agent_entries a))"
proof -
  have d: "distinct_maps (ag_states a)"
    using assms(1) distinct_maps_assemble [of "[]"] by (auto simp: analyze_agent_def) (simp add: distinct_maps_def)
  have dp: "distinct (map fst p)" using assms(2) by (simp add: ordered_def strict_sorted_iff)
  have e: "(s, n, x) \<in> set (agent_entries a) \<longleftrightarrow>
      (\<exists>m. map_of p n = Some m \<and> s = id_name (msg_when m) \<and> x = (the (analyze_message agent_name m), id_name (msg_then m)))"
    for s n x
  proof -
    have "state_lookup (ag_states a) s n =
       (case map_of p n of
          Some m \<Rightarrow> if id_name (msg_when m) = s
            then Some (the (analyze_message agent_name m), id_name (msg_then m)) else None
        | None \<Rightarrow> None)" using analyze_agent_spec [OF assms, of s n] by blast
    then show ?thesis by (auto simp: agent_entries_iff [OF d] split: option.split)
  qed
  show "set (agent_entries a) =
      entry_of agent_name ` set p"
  proof (rule set_eqI)
    fix y :: "string \<times> string \<times> transition \<times> string"
    obtain s n x where y: "y = (s, n, x)" by (cases y)
    show "y \<in> set (agent_entries a) \<longleftrightarrow> y \<in> entry_of agent_name ` set p"
      unfolding y e using dp by (force simp: image_iff entry_of_def)
  qed
  have "inj_on entry_name (set (agent_entries a))"
  proof (rule inj_onI)
    fix x y assume xy: "x \<in> set (agent_entries a)" "y \<in> set (agent_entries a)" "entry_name x = entry_name y"
    obtain s n u s' v where "x = (s, n, u)" "y = (s', n, v)" using xy(3) by (cases x; cases y) auto
    with xy(1,2) show "x = y" by (auto simp: e)
  qed
  moreover have "distinct (agent_entries a)" using distinct_entries [OF d] by (simp add: agent_entries_def)
  ultimately show "distinct (map entry_name (agent_entries a))" by (simp add: distinct_map)
qed

section \<open>The collections\<close>

lemma collect_unseen_distinct:
  "distinct (map entry_name es) \<Longrightarrow>
     snd (collect_unseen wanted info_of es (seen, infos)) =
       infos @ map (\<lambda>e. info_of (fst e) (snd e)) (filter (\<lambda>e. wanted (snd e) \<and> entry_name e \<notin> set seen) es)"
  "set (fst (collect_unseen wanted info_of es (seen, infos))) =
     set seen \<union> entry_name ` {e \<in> set es. wanted (snd e)}"
proof (induction es arbitrary: seen infos)
  case (Cons e es)
  obtain s t where e: "e = (s, t)" by (cases e)
  {
    case 1
    then have "filter (\<lambda>x. wanted (snd x) \<and> entry_name x \<notin> insert (entry_name e) (set seen)) es
        = filter (\<lambda>x. wanted (snd x) \<and> entry_name x \<notin> set seen) es"
      by (intro filter_cong) (auto intro: rev_image_eqI)
    with 1 Cons.IH(1) show ?case by (auto simp: e)
  next
    case 2
    show ?case by (cases "wanted t \<and> fst t \<notin> set seen") (auto simp: e Cons.IH(2) intro: rev_image_eqI)
  }
qed simp_all

lemma collect_infos_eq:
  assumes "distinct (map entry_name (agent_entries (pr_client p)))" and "distinct (map entry_name (agent_entries (pr_server p)))"
  shows "collect_infos wanted info_of p =
      map (\<lambda>e. info_of ''Client'' (fst e) (snd e)) (filter (\<lambda>e. wanted (snd e)) (agent_entries (pr_client p)))
    @ map (\<lambda>e. info_of ''Server'' (fst e) (snd e))
        (filter (\<lambda>e. wanted (snd e) \<and> entry_name e \<notin> entry_name ` {e \<in> set (agent_entries (pr_client p)). wanted (snd e)})
          (agent_entries (pr_server p)))"
proof -
  let ?c = "collect_unseen wanted (info_of ''Client'') (agent_entries (pr_client p)) ([], [])"
  have c: "?c = (fst ?c, snd ?c)" by simp
  show ?thesis
    unfolding collect_infos_def
    by (subst c, subst collect_unseen_distinct(1) [OF assms(2)], subst collect_unseen_distinct(1) [OF assms(1)],
        subst collect_unseen_distinct(2)) simp
qed

section \<open>The messages of a protocol\<close>

text \<open>The agent that reads a message: a message of neither agent is read by both, and collected
  for the client.\<close>

definition reader_of :: "message \<Rightarrow> string" where
  "reader_of m = (if id_name (msg_agent m) = ''Client'' then ''Server'' else ''Client'')"

lemma analyzed_transition:
  assumes "analyze_message agent_name m = Some t"
  shows "is_read_transition t \<longleftrightarrow> id_name (msg_agent m) \<noteq> agent_name"
    and "tr_data (transition_of t) = msg_data m"
    and "Some (tr_actions (transition_of t)) =
       (if id_name (msg_agent m) = agent_name then parts_to_write_actions (msg_parts m) else parts_to_read_actions (msg_parts m))"
  using assms
  by (auto simp: analyze_message_def analyze_write_message_def analyze_read_message_def is_read_transition_def
      transition_of_def split: if_splits)

lemma analyze_entries:
  assumes "analyze p = Some pr" and "ordered p" and "agent_name = ''Client'' \<and> a = pr_client pr \<or> agent_name = ''Server'' \<and> a = pr_server pr"
  shows "set (agent_entries a) =
      entry_of agent_name ` set p"
    and "distinct (map entry_name (agent_entries a))"
    and "\<And>n m. (n, m) \<in> set p \<Longrightarrow> \<exists>t. analyze_message agent_name m = Some t"
proof -
  from assms(1,3) have a: "analyze_agent p agent_name = Some a"
    by (auto simp: analyze_def split: option.splits)
  show "set (agent_entries a) =
      entry_of agent_name ` set p"
    and "distinct (map entry_name (agent_entries a))"
    by (rule analyze_agent_entries [OF a assms(2)])+
  have "distinct (map fst p)" using assms(2) by (simp add: ordered_def strict_sorted_iff)
  then show "\<exists>t. analyze_message agent_name m = Some t" if "(n, m) \<in> set p" for n m
    using analyze_agent_spec [OF a assms(2), of _ n] that by (auto simp: map_of_eq_Some_iff)
qed

lemma image_collect: "g ` {e \<in> f ` A. P e} = (\<lambda>q. g (f q)) ` {q \<in> A. P (f q)}"
  by auto

lemma collect_infos_set:
  assumes "analyze p = Some pr" and "ordered p"
    and wanted: "\<And>n t target. wanted (n, t, target) \<longleftrightarrow> sel t"
  shows "set (collect_infos wanted info_of pr) =
      (\<lambda>q. info_of ''Client'' (fst (entry_of ''Client'' q)) (snd (entry_of ''Client'' q)))
        ` {q \<in> set p. sel (the (analyze_message ''Client'' (snd q)))}
    \<union> (\<lambda>q. info_of ''Server'' (fst (entry_of ''Server'' q)) (snd (entry_of ''Server'' q)))
        ` {q \<in> set p. sel (the (analyze_message ''Server'' (snd q))) \<and> \<not> sel (the (analyze_message ''Client'' (snd q)))}"
proof -
  note c = analyze_entries [OF assms(1,2), of "''Client''" "pr_client pr", simplified]
  note s = analyze_entries [OF assms(1,2), of "''Server''" "pr_server pr", simplified]
  have dp: "distinct (map fst p)" using assms(2) by (simp add: ordered_def strict_sorted_iff)
  have w: "wanted (snd (entry_of x q)) \<longleftrightarrow> sel (the (analyze_message x (snd q)))" for x q
    by (simp add: entry_of_def wanted)
  define N where "N = {e \<in> set (agent_entries (pr_client pr)). wanted (snd e)}"
  have N: "entry_name ` N = fst ` {q \<in> set p. sel (the (analyze_message ''Client'' (snd q)))}"
    unfolding N_def c(1) image_collect w by (simp add: entry_of_def)
  have seen: "entry_name (entry_of ''Server'' q) \<in> entry_name ` N \<longleftrightarrow> sel (the (analyze_message ''Client'' (snd q)))"
    if "q \<in> set p" for q
  proof -
    have "q' = q" if "q' \<in> set p" "fst q' = fst q" for q'
      using dp \<open>q \<in> set p\<close> that by (metis distinct_map inj_onD)
    with that show ?thesis unfolding N by (auto simp: entry_of_def)
  qed
  have server: "{q \<in> set p. sel (the (analyze_message ''Server'' (snd q))) \<and> entry_name (entry_of ''Server'' q) \<notin> entry_name ` N}
      = {q \<in> set p. sel (the (analyze_message ''Server'' (snd q))) \<and> \<not> sel (the (analyze_message ''Client'' (snd q)))}"
    using seen by blast
  show ?thesis
    unfolding collect_infos_eq [OF c(2) s(2)] set_append set_map set_filter N_def [symmetric]
    unfolding s(1) image_collect w server
    unfolding N_def c(1) image_collect w ..
qed

lemma collect_infos_distinct:
  assumes "analyze p = Some pr" and "ordered p" and "\<And>x s t. name_of (info_of x s t) = fst t"
  shows "distinct (map name_of (collect_infos wanted info_of pr))"
proof -
  note c = analyze_entries [OF assms(1,2), of "''Client''" "pr_client pr", simplified]
  note s = analyze_entries [OF assms(1,2), of "''Server''" "pr_server pr", simplified]
  have "distinct (map entry_name (filter P xs))" if "distinct (map entry_name xs)" for P xs
    using that by (rule distinct_map_filter)
  with c(2) s(2) show ?thesis
    unfolding collect_infos_eq [OF c(2) s(2)] by (auto simp: assms(3) comp_def intro: rev_image_eqI)
qed

section \<open>Grouping\<close>

lemma keys_map_push: "fst ` set (map_push k x m) = insert k (fst ` set m)"
  by (induction k x m rule: map_push.induct) auto

lemma ordered_map_push: "ordered m \<Longrightarrow> ordered (map_push k x m)"
proof (induction k x m rule: map_push.induct)
  case (2 k x k' xs m)
  then have "ordered m" "\<forall>x \<in> fst ` set m. k' < x" by (auto simp: ordered_def)
  with 2 show ?case using keys_map_push [of k x m] by (auto simp: ordered_def)
qed (simp add: ordered_def)

lemma map_of_map_push:
  "ordered m \<Longrightarrow> map_of (map_push k x m) = (map_of m)(k \<mapsto> (case map_of m k of None \<Rightarrow> [] | Some xs \<Rightarrow> xs) @ [x])"
proof (induction k x m rule: map_push.induct)
  case (2 k x k' xs m)
  then have "ordered m" and gt: "\<forall>x \<in> fst ` set m. k' < x" by (auto simp: ordered_def)
  have "map_of m k = None" if "k < k'" using gt that by (force simp: map_of_eq_None_iff)
  with 2 \<open>ordered m\<close> show ?case by (auto simp: fun_eq_iff)
qed simp

text \<open>A group holds the elements with its key, in their order, and only keys that occur have one.\<close>

lemma group_by_spec:
  "ordered (group_by key xs)"
  "map_of (group_by key xs) k = (let ys = filter (\<lambda>x. key x = k) xs in if ys = [] then None else Some ys)"
proof -
  have g: "ordered m \<Longrightarrow> ordered (fold (\<lambda>x m. map_push (key x) x m) xs m) \<and>
      map_of (fold (\<lambda>x m. map_push (key x) x m) xs m) k =
        (let ys = filter (\<lambda>x. key x = k) xs in
         if ys = [] then map_of m k else Some ((case map_of m k of None \<Rightarrow> [] | Some zs \<Rightarrow> zs) @ ys))" for m k
  proof (induction xs arbitrary: m)
    case (Cons x xs)
    from Cons.IH [OF ordered_map_push [OF Cons.prems], of "key x" x] show ?case
      by (auto simp: map_of_map_push [OF Cons.prems] Let_def)
  qed simp
  from g [of "[]"] show "ordered (group_by key xs)" by (simp add: group_by_def ordered_def)
  from g [of "[]" k] show "map_of (group_by key xs) k = (let ys = filter (\<lambda>x. key x = k) xs in if ys = [] then None else Some ys)"
    by (simp add: group_by_def ordered_def Let_def)
qed

lemma group_by_member:
  assumes "(k, ys) \<in> set (group_by key xs)"
  shows "ys = filter (\<lambda>x. key x = k) xs" and "ys \<noteq> []"
proof -
  have "distinct (map fst (group_by key xs))" using group_by_spec(1) [of key xs] by (simp add: ordered_def strict_sorted_iff)
  with assms have "map_of (group_by key xs) k = Some ys" by simp
  then show "ys = filter (\<lambda>x. key x = k) xs" and "ys \<noteq> []" by (auto simp: group_by_spec(2) Let_def split: if_splits)
qed

end
