(* ===== verification/BalancedCode.thy ===== *)
theory BalancedCode
  imports CppGenerator ProtocolInfoLemmas
begin

text \<open>
  The brackets of every generated file are balanced, whatever the protocol, as long as its names
  are what the lexer lets through: names of members and variables are plain, and the names that
  end up in comments do not end them.
\<close>

section \<open>Neutral text\<close>

text \<open>Text that leaves the scanner as it found it, in code.\<close>

definition neutral :: "string \<Rightarrow> bool" where
  "neutral s \<longleftrightarrow> (\<forall>st. scan (Some (Code, st)) s = Some (Code, st))"

lemma scan_neutral: "neutral s \<Longrightarrow> scan (Some (Code, st)) s = Some (Code, st)"
  by (simp add: neutral_def)

lemma neutral_simps [simp]:
  "neutral []"
  "neutral s \<Longrightarrow> neutral t \<Longrightarrow> neutral (s @ t)"
  "neutral (escape_string_literal s)"
  by (simp_all add: neutral_def scan_append scan_escaped)

lemma neutral_concat: "(\<And>x. x \<in> set xs \<Longrightarrow> neutral (f x)) \<Longrightarrow> neutral (concat (map f xs))"
  by (induction xs) simp_all

lemma scan_plain_block: "plain s \<Longrightarrow> scan (Some (BlockComment, st)) s = Some (BlockComment, st)"
  by (induction s) simp_all

text \<open>A name in a line comment.\<close>

definition comment_safe :: "string \<Rightarrow> bool" where
  "comment_safe s \<longleftrightarrow> CHR 0x0A \<notin> set s \<and> (s \<noteq> [] \<longrightarrow> last s \<noteq> CHR 0x5C)"

lemma scan_comment_safe:
  assumes "comment_safe s"
  shows "scan (Some (LineComment, st)) s = Some (LineComment, st)"
proof (cases s rule: rev_cases)
  case (snoc s' c)
  then have n: "CHR 0x0A \<notin> set s'" "class_of c \<noteq> Newline" "class_of c \<noteq> Backslash"
    using assms by (auto simp: comment_safe_def class_of_def)
  from scan_comment [OF n(1), of LineComment st] obtain m where
    "m \<in> {LineComment, CommentEscape}" "scan (Some (LineComment, st)) s' = Some (m, st)" by auto
  with n(2,3) snoc show ?thesis by (cases "class_of c") (auto simp: scan_append)
qed simp

lemma comment_safe_plain: "plain s \<Longrightarrow> comment_safe s"
  by (auto simp: comment_safe_def plain_def list_all_iff dest!: last_in_set)

lemma plain_identifier [simp]: "plain (message_name_to_identifier n)" "plain (state_name_to_identifier n)"
proof -
  have "is_alnum (to_upper c)" if "is_alnum c" for c
  proof (cases "is_lower c")
    case True
    then have "97 \<le> (of_char c :: nat)" "(of_char c :: nat) \<le> 122" by (simp_all add: is_lower_def less_eq_char_def)
    then have "65 \<le> of_char c - (32 :: nat)" "of_char c - (32 :: nat) \<le> 90" by linarith+
    then show ?thesis by (simp add: to_upper_def True is_alnum_def is_upper_def less_eq_char_def)
  qed (use that in \<open>simp add: to_upper_def\<close>)
  then have "plain (message_identifier b n)" for b
    by (induction n arbitrary: b) (auto simp: class_alnum)
  then show "plain (message_name_to_identifier n)" by (simp add: message_name_to_identifier_def)
  have "plain (filter (\<lambda>c. is_alnum c \<or> c = CHR ''_'') n)"
    by (induction n) (auto simp: class_alnum)
  then show "plain (state_name_to_identifier n)" by (simp add: state_name_to_identifier_def Let_def)
qed

section \<open>Plain names\<close>

fun plain_type :: "ptype \<Rightarrow> bool" and plain_parameter :: "type_parameter_value \<Rightarrow> bool" where
  "plain_type (Type name params) \<longleftrightarrow> (\<forall>(k, v) \<in> set params. plain k \<and> plain_parameter v)"
| "plain_parameter (TypeValue t) \<longleftrightarrow> plain_type t"
| "plain_parameter v \<longleftrightarrow> True"

fun plain_action :: "action \<Rightarrow> bool" where
  "plain_action (ReadOctetsUntilTerminator t i e) \<longleftrightarrow> plain (id_name i)"
| "plain_action (WriteFromIdentifier i e) \<longleftrightarrow> plain (id_name i)"
| "plain_action (Loop v c t as) \<longleftrightarrow> plain (id_name c) \<and> (\<forall>a \<in> set as. plain_action a)"
| "plain_action a \<longleftrightarrow> True"

definition plain_data :: "message_data \<Rightarrow> bool" where
  "plain_data d \<longleftrightarrow> (\<forall>(k, t) \<in> set d. plain k \<and> plain_type t)"

definition plain_message :: "message_info \<Rightarrow> bool" where
  "plain_message m \<longleftrightarrow> plain (mi_identifier m) \<and> comment_safe (mi_when_state m) \<and> comment_safe (mi_then_state m)
     \<and> plain_data (mi_data m)"

definition plain_transition :: "transition_info \<Rightarrow> bool" where
  "plain_transition t \<longleftrightarrow> plain (ti_identifier t) \<and> comment_safe (ti_message_name t) \<and> plain_data (ti_data t)
     \<and> (\<forall>a \<in> set (ti_actions t). plain_action a)"

definition plain_info :: "protocol_info \<Rightarrow> bool" where
  "plain_info info \<longleftrightarrow> (\<forall>m \<in> set (pi_messages info). plain_message m)
     \<and> (\<forall>t \<in> set (pi_read_transitions info) \<union> set (pi_write_transitions info). plain_transition t)"

text \<open>Unfolding a template, and scanning it.\<close>

lemmas template_simps = neutral_def lines_def line_def scan_append scan_plain scan_plain_comment scan_plain_block
  scan_escaped scan_escaped_comment scan_comment_safe plain_decimal_nat Let_def

section \<open>Types\<close>

lemma type_to_cpp_plain:
  "type_to_cpp t p = Some m \<Longrightarrow> plain_type t \<Longrightarrow> plain p \<Longrightarrow> plain (cpp_type m) \<and> neutral (auxiliary_definitions m)"
  "map_tuple_fields ps n = Some (d, f) \<Longrightarrow> (\<forall>(k, v) \<in> set ps. plain k \<and> plain_parameter v) \<Longrightarrow> plain n \<Longrightarrow> neutral d \<and> neutral f"
proof (induction t p and ps n arbitrary: m and d f rule: type_to_cpp_map_tuple_fields.induct)
  case (1 name params pre)
  consider "id_name name = ''int''" | "id_name name = ''str''" | "id_name name = ''array''" | "id_name name = ''tuple''"
    using "1.prems"(1) by (auto split: if_splits)
  then show ?case
  proof cases
    case 3
    with "1.prems"(1) obtain t m' where t: "map_of params ''element_type'' = Some (TypeValue t)"
        "type_to_cpp t (pre @ ''Element'') = Some m'" "m = array_of_mapping m'"
      by (auto split: option.splits type_parameter_value.splits)
    have "plain_type t" using "1.prems"(2) map_of_SomeD [OF t(1)] by auto
    with "1.IH"(1) 3 t "1.prems"(3) show ?thesis by (simp add: array_of_mapping_def)
  next
    case 4
    with "1.prems"(1) obtain d f where f: "map_tuple_fields params (struct_name_of pre) = Some (d, f)"
      and ne: "params \<noteq> []" and m: "m = \<lparr>cpp_type = struct_name_of pre,
          auxiliary_definitions = d @ line [''struct '', struct_name_of pre, '' {''] @ f @ line [''};''], is_struct = True\<rparr>"
      by (auto simp: Let_def split: option.splits if_splits)
    have pre: "plain (struct_name_of pre)" using "1.prems"(3) by (simp add: struct_name_of_def)
    have "neutral d \<and> neutral f" using "1.IH"(2) [OF _ _ _ 4 ne refl f] 4 pre "1.prems"(2) by simp
    then have d: "neutral d" and f: "neutral f" by blast+
    from f pre have "neutral (line [''struct '', struct_name_of pre, '' {''] @ f @ line [''};''])"
      by (simp add: template_simps)
    with d pre show ?thesis by (simp add: m)
  qed (use "1.prems"(1) in \<open>auto simp: map_int_type_def map_str_type_def Let_def\<close>)
next
  case (3 k t ps n)
  then obtain m d' f' where m: "type_to_cpp t (n @ ''_'' @ k) = Some m" "map_tuple_fields ps n = Some (d', f')"
      "d = (if auxiliary_definitions m = [] then [] else line [auxiliary_definitions m]) @ d'"
      "f = line [''    '', cpp_type m, '' '', k, '';''] @ f'"
    by (auto split: option.splits)
  have k: "plain k" "plain_type t" "\<forall>(k, v) \<in> set ps. plain k \<and> plain_parameter v" using 3(4) by simp_all
  have "plain (cpp_type m) \<and> neutral (auxiliary_definitions m)" using 3(1) [OF m(1)] k 3(5) by simp
  moreover have "neutral d' \<and> neutral f'" by (rule 3(2) [OF m(1,2) k(3) 3(5)])
  ultimately show ?case using k(1) by (auto simp: m template_simps)
qed (auto split: option.splits)

section \<open>Files\<close>

lemma plain_collapse: "plain s \<Longrightarrow> plain (collapse_underscores b s)"
  by (induction b s rule: collapse_underscores.induct) auto

lemma plain_guard_char: "class_of c \<in> {Plain, SlashChar, Backslash} \<Longrightarrow> class_of (guard_char c) = Plain"
proof -
  assume c: "class_of c \<in> {Plain, SlashChar, Backslash}"
  show ?thesis
  proof (cases "is_lower c")
    case True
    then have "97 \<le> (of_char c :: nat)" "(of_char c :: nat) \<le> 122" by (simp_all add: is_lower_def less_eq_char_def)
    then have "65 \<le> of_char c - (32 :: nat)" "of_char c - (32 :: nat) \<le> 90" by linarith+
    then have "is_alnum (to_upper c)" by (simp add: to_upper_def True is_alnum_def is_upper_def less_eq_char_def)
    then show ?thesis by (simp add: guard_char_def class_alnum)
  next
    case False
    with c show ?thesis by (auto simp: guard_char_def to_upper_def class_of_def split: if_splits)
  qed
qed

lemma plain_header_guard:
  assumes "plain (target_namespace ctx)" and "plain f"
  shows "plain (header_guard ctx f)"
proof -
  have "plain (map guard_char s)" if "plain s" for s using that by (induction s) (simp_all add: plain_guard_char)
  with assms show ?thesis by (simp add: header_guard_def plain_collapse plain_guard_char)
qed

text \<open>A file: includes, then a namespace around neutral text.\<close>

lemma balanced_namespace:
  assumes "neutral pre" and "neutral body" and "neutral post" and "plain (target_namespace ctx)"
  shows "balanced (pre @ open_namespace ctx @ body @ close_namespace ctx @ post)"
  using assms by (simp add: balanced_def open_namespace_def close_namespace_def template_simps)

lemma neutral_message_fields:
  assumes "message_fields msg d = (x, f, e)" and "plain (mi_identifier msg)" and "plain_data d"
  shows "neutral x \<and> neutral f"
  using assms
proof (induction msg d arbitrary: x f e rule: message_fields.induct)
  case (2 msg k t d)
  obtain x' f' e' where r: "message_fields msg d = (x', f', e')" by (cases "message_fields msg d")
  have d: "plain k" "plain_type t" "plain_data d" using "2.prems"(3) by (simp_all add: plain_data_def)
  from "2.IH" [OF r "2.prems"(2) d(3)] have n: "neutral x'" "neutral f'" by simp_all
  show ?case
  proof (cases "type_to_cpp t (mi_identifier msg @ ''_'' @ k)")
    case None
    with "2.prems"(1) n show ?thesis by (simp add: r)
  next
    case (Some m)
    have "plain (cpp_type m) \<and> neutral (auxiliary_definitions m)"
      by (rule type_to_cpp_plain(1) [OF Some]) (use "2.prems"(2) d in simp_all)
    with "2.prems"(1) n d(1) Some show ?thesis by (auto simp: r template_simps)
  qed
qed simp

lemma neutral_generate_struct: "plain_message msg \<Longrightarrow> neutral (fst (generate_struct msg))"
proof -
  assume m: "plain_message msg"
  obtain x f e where r: "message_fields msg (mi_data msg) = (x, f, e)" by (cases "message_fields msg (mi_data msg)")
  from neutral_message_fields [OF r] m have n: "neutral x" "neutral f" by (simp_all add: plain_message_def)
  with m show ?thesis by (simp add: generate_struct_def r plain_message_def template_simps)
qed

lemma neutral_variant_members: "\<forall>m \<in> set ms. plain (mi_identifier m) \<Longrightarrow> neutral (variant_members ms)"
  by (induction ms) (simp_all add: template_simps)

lemma neutral_state_variant:
  assumes "(s, ms) \<in> set (group_by key (pi_messages info))" and "plain_info info"
    and "\<And>m. plain_message m \<Longrightarrow> comment_safe (key m)" and "plain kind" and "plain caption"
  shows "neutral (state_variant caption kind (s, ms))"
proof -
  from group_by_member [OF assms(1)] have ms: "ms \<noteq> []" "\<forall>m \<in> set ms. m \<in> set (pi_messages info) \<and> key m = s" by auto
  then obtain m where m: "m \<in> set ms" by (cases ms) auto
  with ms assms(2) have "plain_message m" "key m = s" by (auto simp: plain_info_def)
  with assms(3) have s: "comment_safe s" by blast
  have "\<forall>m \<in> set ms. plain (mi_identifier m)" using ms(2) assms(2) by (auto simp: plain_info_def plain_message_def)
  from neutral_variant_members [OF this] s assms(4,5) show ?thesis by (simp add: state_variant_def ms(1) template_simps)
qed


text \<open>The text of a file is scanned piece by piece: its namespace, the templates, the generated parts.\<close>

lemmas file_simps = balanced_def open_namespace_def close_namespace_def template_simps

lemma balanced_data_types:
  assumes "plain_info info" and "plain (target_namespace ctx)"
  shows "balanced (gen_header (generate_data_types ctx info)) \<and> balanced (gen_source (generate_data_types ctx info))"
proof
  have g: "plain (header_guard ctx ''data_types.hpp'')" by (rule plain_header_guard [OF assms(2)]) simp
  have "neutral (concat (map (fst \<circ> generate_struct) (pi_messages info)))"
    by (rule neutral_concat) (use assms(1) in \<open>simp add: neutral_generate_struct plain_info_def\<close>)
  note structs = scan_neutral [OF this]
  from g structs assms(2) show "balanced (gen_header (generate_data_types ctx info))"
    by (simp add: generate_data_types_def file_simps)
  show "balanced (gen_source (generate_data_types ctx info))"
    using assms(2) by (simp add: generate_data_types_def file_simps)
qed

lemma neutral_lines_map: "(\<And>x. x \<in> set xs \<Longrightarrow> neutral (concat (f x) @ [CHR 0x0A])) \<Longrightarrow> neutral (lines (map f xs))"
  by (induction xs) (simp_all add: lines_def line_def del: append_assoc)

lemma balanced_states:
  assumes "plain_info info" and "plain (target_namespace ctx)"
  shows "balanced (gen_header (generate_states ctx info)) \<and> balanced (gen_source (generate_states ctx info))"
proof
  have g: "plain (header_guard ctx ''states.hpp'')" by (rule plain_header_guard [OF assms(2)]) simp
  have v: "neutral (concat (map (state_variant caption kind) (group_by key (pi_messages info))))"
    if "\<And>m. plain_message m \<Longrightarrow> comment_safe (key m)" "plain kind" "plain caption" for caption kind key
    by (rule neutral_concat) (use neutral_state_variant [OF _ assms(1) that] in force)
  have "neutral (lines (map (\<lambda>s. [''    '', state_name_to_identifier s, '','']) (pi_states info)))"
    by (rule neutral_lines_map) (simp add: template_simps)
  note pieces = scan_neutral [OF this] scan_neutral [OF v [of mi_when_state "''Output''" "''Possible transitions from''"]]
    scan_neutral [OF v [of mi_then_state "''Input''" "''Possible inputs when entering''"]]
  from g pieces assms(2) show "balanced (gen_header (generate_states ctx info))"
    by (simp add: generate_states_def plain_message_def open_namespace_def close_namespace_def balanced_def scan_append
        scan_plain scan_plain_comment Let_def lines_def line_def)
  show "balanced (gen_source (generate_states ctx info))"
    using assms(2) by (simp add: generate_states_def file_simps)
qed

section \<open>The serializer\<close>

lemma split_dot_plain: "split_dot s = Some (a, b) \<Longrightarrow> plain s \<Longrightarrow> plain a \<and> plain b"
  by (induction s arbitrary: a b) (auto split: if_splits)

lemma neutral_generate_chunk: "plain indent \<Longrightarrow> neutral expr \<Longrightarrow> neutral (generate_chunk indent expr e)"
  by (simp add: generate_chunk_def generate_escape_replacement_code_def template_simps split: option.split)

lemma neutral_write_expression: "plain e \<Longrightarrow> neutral (generate_write_expression data f e)"
  by (simp add: generate_write_expression_def template_simps)

lemma neutral_plain: "plain s \<Longrightarrow> neutral s"
  by (simp add: template_simps)

lemma neutral_loop_cases:
  assumes "plain array_field" and "\<forall>a \<in> set as. plain_action a"
  shows "neutral (generate_loop_cases array_field n as)"
  using assms(2)
proof (induction as arbitrary: n)
  case (Cons a as)
  from Cons have IH: "neutral (generate_loop_cases array_field m as)" for m by simp
  show ?case
  proof (cases a)
    case (WriteFromIdentifier i e)
    with Cons.prems have i: "plain (id_name i)" by simp
    have "neutral (generate_chunk ''            ''
        (case split_dot (id_name i) of Some (_, m) \<Rightarrow> ''data_.'' @ array_field @ ''[loop_index_].'' @ m
         | None \<Rightarrow> ''data_.'' @ id_name i) e)"
      by (rule neutral_generate_chunk)
        (use i assms(1) split_dot_plain [OF _ i] in \<open>auto simp: template_simps split: option.split\<close>)
    with IH show ?thesis by (simp add: WriteFromIdentifier Let_def del: append_assoc) (simp add: template_simps)
  qed (use IH in \<open>simp_all add: template_simps\<close>)
qed simp

lemma neutral_chunk_action: "plain_action a \<Longrightarrow> neutral (generate_chunk_action wt a)"
proof (cases a)
  case (WriteFromIdentifier i e)
  assume "plain_action a"
  with WriteFromIdentifier have i: "plain (id_name i)" by simp
  show ?thesis
  proof (cases "split_dot (id_name i)")
    case None
    have "neutral (generate_chunk ''        '' (generate_write_expression (ti_data wt) (id_name i) (''data_.'' @ id_name i)) e)"
      by (intro neutral_generate_chunk neutral_write_expression) (use i in simp_all)
    with None i show ?thesis by (simp add: generate_chunk_action_def WriteFromIdentifier template_simps)
  next
    case (Some p)
    then obtain a m where p: "split_dot (id_name i) = Some (a, m)" by (cases p) auto
    have "neutral (generate_chunk ''        '' (''data_.'' @ a @ ''[loop_index_].'' @ m) e)"
      by (rule neutral_generate_chunk) (use split_dot_plain [OF p i] in \<open>simp_all add: template_simps\<close>)
    with p i show ?thesis by (simp add: generate_chunk_action_def WriteFromIdentifier template_simps)
  qed
next
  case (Loop v c t as)
  assume "plain_action a"
  with Loop have "plain (id_name c)" "neutral (generate_loop_cases (id_name c) 0 as)"
    by (simp_all add: neutral_loop_cases)
  then show ?thesis by (simp add: generate_chunk_action_def Loop template_simps)
qed (simp_all add: generate_chunk_action_def template_simps)

lemma neutral_chunk_cases: "\<forall>a \<in> set as. plain_action a \<Longrightarrow> neutral (generate_chunk_cases wt n as)"
proof (induction as arbitrary: n)
  case (Cons a as)
  then have "neutral (generate_chunk_action wt a)" "neutral (generate_chunk_cases wt (Suc n) as)"
    by (simp_all add: neutral_chunk_action)
  then show ?case by (simp add: template_simps)
qed simp

lemma neutral_advance_cases: "neutral (generate_advance_cases n as)"
proof (induction as arbitrary: n)
  case (Cons a as)
  then show ?case by (cases a) (simp_all add: template_simps)
qed simp

lemma neutral_serializer_class:
  assumes "plain_transition wt"
  shows "neutral (generate_message_serializer_header wt)"
    and "neutral (generate_message_serializer_set_data wt)"
    and "neutral (generate_message_serializer_reset wt)"
    and "neutral (generate_message_serializer_next_chunk wt)"
    and "neutral (generate_message_serializer_advance wt)"
proof -
  from assms have wt: "plain (ti_identifier wt)" "comment_safe (ti_message_name wt)" "\<forall>a \<in> set (ti_actions wt). plain_action a"
    by (simp_all add: plain_transition_def)
  from wt(1,2) show "neutral (generate_message_serializer_header wt)"
    by (simp add: generate_message_serializer_header_def template_simps)
  from wt(1) show "neutral (generate_message_serializer_set_data wt)"
    by (simp add: generate_message_serializer_set_data_def template_simps)
  from wt(1) show "neutral (generate_message_serializer_reset wt)"
    by (simp add: generate_message_serializer_reset_def template_simps)
  from wt(1) neutral_chunk_cases [OF wt(3), of wt 0] show "neutral (generate_message_serializer_next_chunk wt)"
    by (simp add: generate_message_serializer_next_chunk_def template_simps)
  from wt(1) neutral_advance_cases [of 0 "ti_actions wt"] show "neutral (generate_message_serializer_advance wt)"
    by (simp add: generate_message_serializer_advance_def template_simps)
qed

lemma balanced_serializer:
  assumes "plain_info info" and "plain (target_namespace ctx)"
  shows "balanced (gen_header (generate_serializer ctx info)) \<and> balanced (gen_source (generate_serializer ctx info))"
proof
  have g: "plain (header_guard ctx ''serializer.hpp'')" by (rule plain_header_guard [OF assms(2)]) simp
  from assms(1) have wt: "plain_transition wt" if "wt \<in> set (pi_write_transitions info)" for wt
    using that by (simp add: plain_info_def)
  have "neutral (concat (map generate_message_serializer_header (pi_write_transitions info)))"
    by (rule neutral_concat) (use wt neutral_serializer_class(1) in blast)
  from g scan_neutral [OF this] assms(2) show "balanced (gen_header (generate_serializer ctx info))"
    by (simp add: generate_serializer_def file_simps)
  have "neutral (concat (map (\<lambda>wt. generate_message_serializer_set_data wt @ generate_message_serializer_reset wt
      @ generate_message_serializer_next_chunk wt @ generate_message_serializer_advance wt) (pi_write_transitions info)))"
    by (rule neutral_concat) (use wt neutral_serializer_class(2-5) in \<open>blast intro: neutral_simps\<close>)
  from scan_neutral [OF this] assms(2) show "balanced (gen_source (generate_serializer ctx info))"
    by (simp add: generate_serializer_def file_simps)
qed

end
