(* ===== verification/BalancedParser.thy ===== *)
theory BalancedParser
  imports BalancedCode
begin

text \<open>
  The brackets of the generated parser are balanced.
\<close>

section \<open>The class of a message\<close>

lemma lines_concat: "lines (concat (map f xs)) = concat (map (\<lambda>x. lines (f x)) xs)"
  by (induction xs) (simp_all add: lines_def)

lemma neutral_rows:
  "(\<And>x. x \<in> set xs \<Longrightarrow> neutral (lines (f x))) \<Longrightarrow> neutral (lines (concat (map f xs)))"
  unfolding lines_concat by (rule neutral_concat)

lemma plain_inner_identifiers: "\<forall>a \<in> set as. plain_action a \<Longrightarrow> i \<in> set (inner_identifiers as) \<Longrightarrow> plain i"
  by (auto simp: inner_identifiers_def split: action.splits)

lemma neutral_inner_lines:
  assumes "\<forall>a \<in> set as. plain_action a" and "\<And>i. plain i \<Longrightarrow> neutral (concat (f i) @ [CHR 0x0A])"
  shows "neutral (lines (map f (inner_identifiers as)))"
  by (rule neutral_lines_map) (rule assms(2) [OF plain_inner_identifiers [OF assms(1)]])

lemma neutral_buffer_members: "plain_action a \<Longrightarrow> plain (ti_identifier rt) \<Longrightarrow> neutral (generate_buffer_members rt a)"
proof (cases a)
  case (Loop v c t as)
  assume "plain_action a" "plain (ti_identifier rt)"
  with Loop have p: "plain (id_name c)" "\<forall>a \<in> set as. plain_action a" "plain (ti_identifier rt)" by simp_all
  have "neutral (lines (map (\<lambda>i. [''    std::string loop_'', id_name c, ''_'', i, ''_buffer_;'']) (inner_identifiers as)))"
    by (rule neutral_inner_lines [OF p(2)]) (use p(1) in \<open>simp add: template_simps\<close>)
  from scan_neutral [OF this] p show ?thesis by (simp add: generate_buffer_members_def Loop template_simps)
qed (simp_all add: generate_buffer_members_def template_simps)

lemma neutral_buffer_resets: "plain_action a \<Longrightarrow> neutral (generate_buffer_resets a)"
proof (cases a)
  case (Loop v c t as)
  assume "plain_action a"
  with Loop have p: "plain (id_name c)" "\<forall>a \<in> set as. plain_action a" by simp_all
  have "neutral (lines (map (\<lambda>i. [''    loop_'', id_name c, ''_'', i, ''_buffer_.clear();'']) (inner_identifiers as)))"
    by (rule neutral_inner_lines [OF p(2)]) (use p(1) in \<open>simp add: template_simps\<close>)
  from scan_neutral [OF this] p show ?thesis by (simp add: generate_buffer_resets_def Loop template_simps)
qed (simp_all add: generate_buffer_resets_def template_simps)

section \<open>\<open>parse\<close>\<close>

lemma neutral_match_static: "neutral (generate_match_static octets)"
  by (simp add: generate_match_static_def template_simps)

lemma neutral_read_until: "plain buffer \<Longrightarrow> neutral (generate_read_until t buffer e)"
  by (cases e) (simp_all add: generate_read_until_def generate_search_plain_def generate_search_escaped_def template_simps)

lemma neutral_inner_cases:
  "\<forall>a \<in> set as. plain_action a \<Longrightarrow> plain c \<Longrightarrow> neutral (generate_inner_cases c n as)"
proof (induction as arbitrary: n)
  case (Cons a as)
  have "neutral (generate_inner_case c a)"
    using Cons.prems by (cases a) (simp_all add: generate_inner_case_def template_simps)
  moreover have "neutral (generate_inner_cases c (Suc n) as)" using Cons by simp
  ultimately show ?case by (simp add: template_simps)
qed simp

lemma neutral_generate_loop:
  assumes "plain c" and "\<forall>a \<in> set as. plain_action a" and "plain (ti_identifier rt)"
  shows "neutral (generate_loop rt c t as)"
proof -
  have "neutral (lines (concat (map (\<lambda>i.
         [[''                    elem.'', i, '' = std::move(loop_'', c, ''_'', i, ''_buffer_);''],
          [''                    loop_'', c, ''_'', i, ''_buffer_.clear();'']])
         (inner_identifiers as))))"
    by (rule neutral_rows) (use assms(1) plain_inner_identifiers [OF assms(2)] in \<open>simp add: template_simps\<close>)
  from scan_neutral [OF this] scan_neutral [OF neutral_inner_cases [OF assms(2,1), of 0]] assms show ?thesis
    by (simp add: generate_loop_def template_simps)
qed

lemma neutral_parse_action: "plain_action a \<Longrightarrow> plain (ti_identifier rt) \<Longrightarrow> neutral (generate_parse_action rt a)"
  by (cases a) (simp_all add: generate_parse_action_def neutral_match_static neutral_read_until neutral_generate_loop)

lemma neutral_parse_cases:
  "\<forall>a \<in> set as. plain_action a \<Longrightarrow> plain (ti_identifier rt) \<Longrightarrow> neutral (generate_parse_cases rt n as)"
proof (induction as arbitrary: n)
  case (Cons a as)
  then have "neutral (generate_parse_action rt a)" "neutral (generate_parse_cases rt (Suc n) as)"
    by (simp_all add: neutral_parse_action)
  then show ?case by (simp add: template_simps)
qed simp

section \<open>\<open>take_data\<close>\<close>

lemma neutral_take_action: "plain_action a \<Longrightarrow> neutral (generate_take_action rt a)"
proof (cases a)
  case (ReadOctetsUntilTerminator t i e)
  assume "plain_action a"
  with ReadOctetsUntilTerminator have i: "plain (id_name i)" by simp
  have "is_numeric_type t \<Longrightarrow> plain t" for t by (auto simp: is_numeric_type_def)
  with i show ?thesis by (simp add: generate_take_action_def ReadOctetsUntilTerminator template_simps)
qed (simp_all add: generate_take_action_def template_simps)

lemma neutral_parser_class:
  assumes "plain_transition rt"
  shows "neutral (generate_message_parser_header rt)"
    and "neutral (generate_message_parser_reset rt)"
    and "neutral (generate_message_parser_parse rt)"
    and "neutral (generate_message_parser_take_data rt)"
proof -
  from assms have rt: "plain (ti_identifier rt)" "comment_safe (ti_message_name rt)" "\<forall>a \<in> set (ti_actions rt). plain_action a"
    by (simp_all add: plain_transition_def)
  have all: "neutral (concat (map f (ti_actions rt)))" if "\<And>a. plain_action a \<Longrightarrow> neutral (f a)" for f
    by (rule neutral_concat) (use that rt(3) in blast)
  from rt(1,2) scan_neutral [OF all [of "generate_buffer_members rt", OF neutral_buffer_members [OF _ rt(1)]]]
  show "neutral (generate_message_parser_header rt)"
    by (simp add: generate_message_parser_header_def template_simps)
  from rt(1) scan_neutral [OF all [of generate_buffer_resets, OF neutral_buffer_resets]]
  show "neutral (generate_message_parser_reset rt)"
    by (simp add: generate_message_parser_reset_def template_simps)
  from rt(1) scan_neutral [OF neutral_parse_cases [OF rt(3,1), of 0]]
  show "neutral (generate_message_parser_parse rt)"
    by (simp add: generate_message_parser_parse_def template_simps)
  from rt(1) scan_neutral [OF all [of "generate_take_action rt", OF neutral_take_action]]
  show "neutral (generate_message_parser_take_data rt)"
    by (simp add: generate_message_parser_take_data_def template_simps)
qed

section \<open>Picking a message\<close>

text \<open>The members of the groups the dispatch runs over are read transitions of the protocol.\<close>

lemma enumerate_member: "(i, x) \<in> set (enumerate n xs) \<Longrightarrow> x \<in> set xs"
  unfolding enumerate_eq_zip by (rule set_zip_rightD)

lemma parsers_for_state_member:
  assumes "(s, ps) \<in> set (parsers_for_state reads)" and "(i, rt) \<in> set ps"
  shows "rt \<in> set reads"
proof -
  from group_by_member [OF assms(1) [unfolded parsers_for_state_def]] assms(2)
  have "(i, rt) \<in> set (enumerate 0 reads)" by simp
  then show ?thesis by (rule enumerate_member)
qed

lemma neutral_lookahead_branches:
  "\<forall>p \<in> set ps. plain (ti_identifier (snd p)) \<Longrightarrow> neutral (generate_lookahead_branches first ps)"
proof (induction ps arbitrary: first)
  case (Cons p ps)
  then have "neutral (generate_lookahead_branches False ps)" "plain (ti_identifier (snd p))" by simp_all
  then show ?case by (cases p) (simp add: template_simps)
qed simp

lemma neutral_fallback_branches:
  "\<forall>p \<in> set ps. plain (ti_identifier (snd p)) \<Longrightarrow> plain (ti_identifier previous) \<Longrightarrow>
     neutral (generate_fallback_branches previous ps)"
proof (induction ps arbitrary: previous)
  case (Cons p ps)
  then have "neutral (generate_fallback_branches (snd p) ps)" "plain (ti_identifier (snd p))" "plain (ti_identifier previous)"
    by simp_all
  then show ?case by (cases p) (simp add: template_simps)
qed simp

lemma neutral_dispatch_case:
  assumes "\<forall>p \<in> set ps. plain (ti_identifier (snd p))"
  shows "neutral (generate_dispatch_case (s, ps))"
proof -
  have one: "neutral (generate_dispatch_one p)" if "p \<in> set ps" for p
    using assms that by (cases p) (auto simp: generate_dispatch_one_def template_simps)
  from scan_neutral [OF neutral_lookahead_branches [OF assms, of True]]
  have lookahead: "neutral (generate_dispatch_lookahead ps)"
    by (simp add: generate_dispatch_lookahead_def template_simps)
  have fallback: "neutral (generate_dispatch_fallback ps)"
  proof (cases ps)
    case (Cons p rest)
    with assms have "neutral (generate_fallback_branches (snd p) rest)" "plain (ti_identifier (snd p))"
      by (simp_all add: neutral_fallback_branches)
    then show ?thesis by (cases p) (simp add: generate_dispatch_fallback_def Cons template_simps)
  qed (simp add: generate_dispatch_fallback_def template_simps)
  have "neutral (case ps of [p] \<Rightarrow> generate_dispatch_one p
        | _ \<Rightarrow> if can_use_lookahead [] (map (get_lookahead_prefix \<circ> snd) ps)
            then generate_dispatch_lookahead ps else generate_dispatch_fallback ps)"
    using one lookahead fallback by (auto split: list.split)
  from scan_neutral [OF this] show ?thesis by (simp add: generate_dispatch_case_def template_simps)
qed

lemma neutral_parser_dispatch:
  assumes "\<forall>rt \<in> set reads. plain (ti_identifier rt)"
  shows "neutral (generate_parser_dispatch reads)"
proof -
  have "neutral (generate_dispatch_case p)" if "p \<in> set (parsers_for_state reads)" for p
  proof (cases p)
    case (Pair state ps)
    have "\<forall>q \<in> set ps. plain (ti_identifier (snd q))"
      using parsers_for_state_member [OF that [unfolded Pair]] assms by fastforce
    then show ?thesis unfolding Pair by (rule neutral_dispatch_case)
  qed
  then have "neutral (concat (map generate_dispatch_case (parsers_for_state reads)))" by (rule neutral_concat)
  from scan_neutral [OF this] show ?thesis
    by (simp add: generate_parser_dispatch_def template_simps)
qed

section \<open>The files\<close>

lemma neutral_parser_class_main:
  assumes "\<forall>rt \<in> set (pi_read_transitions info). plain (ti_identifier rt)"
  shows "neutral (generate_parser_class info)"
proof -
  have e: "plain (ti_identifier (snd p))" if "p \<in> set (enumerate 0 (pi_read_transitions info))" for p
    using that assms enumerate_member [of "fst p" "snd p" 0] by simp
  have a: "neutral (lines (map (\<lambda>(i, rt). [''    //   '', decimal_nat i, '' = '', ti_identifier rt]) (enumerate 0 (pi_read_transitions info))))"
    by (rule neutral_lines_map) (auto dest!: e simp: template_simps)
  have b: "neutral (lines (concat (map (\<lambda>(i, rt).
         [[''    // Take parsed '', ti_identifier rt, '' data (only valid when active_parser_index() == '', decimal_nat i, '')''],
          [''    '', ti_identifier rt, ''Data take_'', ti_identifier rt, ''();'']])
         (enumerate 0 (pi_read_transitions info)))))"
    by (rule neutral_rows) (auto dest!: e simp: template_simps)
  have c: "neutral (lines (map (\<lambda>rt. [''    '', ti_identifier rt, ''Parser '', ti_identifier rt, ''_parser_;'']) (pi_read_transitions info)))"
    by (rule neutral_lines_map) (use assms in \<open>simp add: template_simps\<close>)
  from scan_neutral [OF a] scan_neutral [OF b] scan_neutral [OF c] show ?thesis
    by (simp add: generate_parser_class_def template_simps split: list.split)
qed

lemma balanced_parser:
  assumes "plain_info info" and "plain (target_namespace ctx)"
  shows "balanced (gen_header (generate_parser ctx info)) \<and> balanced (gen_source (generate_parser ctx info))"
proof
  let ?reads = "pi_read_transitions info"
  have g: "plain (header_guard ctx ''parser.hpp'')" by (rule plain_header_guard [OF assms(2)]) simp
  from assms(1) have rt: "plain_transition rt" if "rt \<in> set ?reads" for rt using that by (simp add: plain_info_def)
  then have ids: "\<forall>rt \<in> set ?reads. plain (ti_identifier rt)" by (simp add: plain_transition_def)
  have "neutral (concat (map generate_message_parser_header ?reads))"
    by (rule neutral_concat) (use rt neutral_parser_class(1) in blast)
  from g scan_neutral [OF this] scan_neutral [OF neutral_parser_class_main [OF ids]] assms(2)
  show "balanced (gen_header (generate_parser ctx info))" by (simp add: generate_parser_def file_simps)
  have a: "neutral (concat (map (\<lambda>rt. generate_message_parser_reset rt @ generate_message_parser_parse rt
      @ generate_message_parser_take_data rt) ?reads))"
    by (rule neutral_concat) (use rt neutral_parser_class(2-4) in \<open>blast intro: neutral_simps\<close>)
  have b: "neutral (lines (concat (map (\<lambda>rt.
             [[ti_identifier rt, ''Data Parser::take_'', ti_identifier rt, ''() {''],
              [''    has_message_ = false;''],
              [''    return '', ti_identifier rt, ''_parser_.take_data();''],
              [''}''],
              []]) ?reads)))"
    by (rule neutral_rows) (use ids in \<open>simp add: template_simps\<close>)
  have c: "neutral (lines (map (\<lambda>rt. [''    '', ti_identifier rt, ''_parser_.reset();'']) ?reads))"
    by (rule neutral_lines_map) (use ids in \<open>simp add: template_simps\<close>)
  from scan_neutral [OF a] scan_neutral [OF b] scan_neutral [OF c] scan_neutral [OF neutral_parser_dispatch [OF ids]] assms(2)
  show "balanced (gen_source (generate_parser ctx info))"
    by (simp add: generate_parser_def generate_parser_methods_def file_simps)
qed

end
