(* ===== verification/BalancedMachine.thy ===== *)
theory BalancedMachine
  imports BalancedParser
begin

text \<open>
  The brackets of the generated state machines and runners are balanced, and with them those of
  every file.
\<close>

section \<open>The transitions of a side\<close>

lemma group_by_element: "p \<in> set (group_by key xs) \<Longrightarrow> x \<in> set (snd p) \<Longrightarrow> x \<in> set xs"
  using group_by_member [of "fst p" "snd p" key xs] by simp

lemma side_transitions:
  "rt \<in> set (get_read_transitions_for_agent info is_client) \<Longrightarrow> rt \<in> set (pi_read_transitions info)"
  "rt \<in> set (get_write_transitions_for_agent info is_client) \<Longrightarrow> rt \<in> set (pi_write_transitions info)"
  "p \<in> set (get_messages_by_then_state info is_client) \<Longrightarrow> rt \<in> set (snd p) \<Longrightarrow> rt \<in> set (pi_read_transitions info)"
  "p \<in> set (reads_by_state info is_client) \<Longrightarrow> rt \<in> set (snd p) \<Longrightarrow> rt \<in> set (pi_read_transitions info)"
  "p \<in> set (handled_states info is_client) \<Longrightarrow> rt \<in> set (snd p) \<Longrightarrow> rt \<in> set (pi_read_transitions info)"
  unfolding get_messages_by_then_state_def reads_by_state_def handled_states_def get_read_transitions_by_then_state_def
    get_read_transitions_for_agent_def get_write_transitions_for_agent_def
  by (auto dest: group_by_element)

lemma side_ids:
  assumes "plain_info info"
  shows "rt \<in> set (pi_read_transitions info) \<Longrightarrow> plain (ti_identifier rt)"
    and "rt \<in> set (pi_write_transitions info) \<Longrightarrow> plain (ti_identifier rt)"
  using assms by (simp_all add: plain_info_def plain_transition_def)

section \<open>\<open>on_bytes_received\<close>\<close>

lemma plain_spaces: "plain (spaces n)"
  by (induction n) (simp_all add: spaces_def)

lemma neutral_single_transition: "plain (ti_identifier rt) \<Longrightarrow> neutral (generate_single_transition rt)"
  by (simp add: generate_single_transition_def template_simps)

text \<open>Each attempt but the last leaves a block open, and the closings close them.\<close>

lemma scan_attempts:
  assumes "\<forall>rt \<in> set ts. plain (ti_identifier rt)" and "\<forall>rt \<in> set rest. plain (ti_identifier rt)"
  shows "scan (Some (Code, st)) (generate_attempts ts n rest) = Some (Code, replicate (length rest - 1) (CHR ''}'') @ st)"
  using assms(2)
proof (induction rest arbitrary: n st)
  case (Cons rt rest)
  have ts: "neutral (lines (map (\<lambda>rt2. [i, ti_identifier rt2, ''_parser_.reset();'']) xs))"
    if "\<forall>rt \<in> set xs. plain (ti_identifier rt)" "plain i" for i xs
    by (rule neutral_lines_map) (use that in \<open>simp add: template_simps\<close>)
  note resets = scan_neutral [OF ts [OF assms(1) plain_spaces]] scan_neutral [OF ts [OF _ plain_spaces]]
  show ?case
  proof (cases "rest = []")
    case True
    with Cons.prems resets(1) show ?thesis by (simp add: template_simps plain_spaces)
  next
    case False
    then obtain k where k: "length rest = Suc k" by (cases rest) simp_all
    have "replicate k (CHR ''}'') @ CHR ''}'' # st = CHR ''}'' # replicate k (CHR ''}'') @ st"
      by (simp add: replicate_app_Cons_same)
    moreover have r: "\<forall>rt \<in> set rest. plain (ti_identifier rt)" using Cons.prems by simp
    ultimately show ?thesis using Cons False k resets(1) resets(2) [OF r]
      by (simp add: template_simps plain_spaces)
  qed
qed simp

lemma scan_closings: "scan (Some (Code, replicate n (CHR ''}'') @ st)) (generate_closings n) = Some (Code, st)"
  by (induction n) (simp_all add: template_simps plain_spaces)

lemma neutral_attempts:
  assumes "\<forall>rt \<in> set ts. plain (ti_identifier rt)"
  shows "neutral (generate_attempts ts 0 ts @ generate_closings (length ts - 1))"
  using scan_closings [of "length ts - 1"] by (simp add: neutral_def scan_append scan_attempts [OF assms assms])

lemma neutral_receive_case:
  assumes "\<forall>rt \<in> set ts. plain (ti_identifier rt)"
  shows "neutral (generate_receive_case (s, ts))"
proof -
  have frame: "neutral (line [''    case State::'', state_name_to_identifier s, '': {''] @ body @ lines [[''        break;''], [''    }'']])"
    if "neutral body" for body
    using scan_neutral [OF that] by (simp add: template_simps)
  consider "ts = []" | rt where "ts = [rt]" | a b c where "ts = a # b # c" by (rule remdups_adj.cases)
  then show ?thesis
  proof cases
    case 3
    have "neutral (line [''        '']) \<and> neutral (generate_attempts ts 0 ts @ generate_closings (length ts - 1))"
      using neutral_attempts [OF assms] by (simp add: template_simps)
    then have "neutral (line [''        ''] @ generate_attempts ts 0 ts @ generate_closings (length ts - 1))" by (blast intro: neutral_simps)
    from frame [OF this] 3 show ?thesis by (simp only: generate_receive_case_def prod.case list.case)
  next
    case 2
    with assms have "neutral (generate_single_transition rt)" by (simp add: neutral_single_transition)
    from frame [OF this] 2 show ?thesis by (simp only: generate_receive_case_def prod.case list.case)
  next
    case 1
    from frame [of "[]"] 1 show ?thesis by (simp only: generate_receive_case_def prod.case list.case neutral_simps)
  qed
qed

lemma neutral_by_state:
  assumes "\<And>s ts. \<forall>rt \<in> set ts. plain (ti_identifier rt) \<Longrightarrow> neutral (f (s, ts))"
    and "\<And>p rt. p \<in> set xs \<Longrightarrow> rt \<in> set (snd p) \<Longrightarrow> plain (ti_identifier rt)"
  shows "neutral (concat (map f xs))"
proof (rule neutral_concat)
  fix p assume "p \<in> set xs"
  with assms(2) have "\<forall>rt \<in> set (snd p). plain (ti_identifier rt)" by blast
  then show "neutral (f p)" using assms(1) [of "snd p" "fst p"] by simp
qed

section \<open>The state machine\<close>

section \<open>The state machine\<close>

lemma neutral_class_header:
  assumes "plain_info info" and "plain class_name"
  shows "neutral (generate_state_machine_class_header class_name info is_client)"
proof -
  let ?read = "get_read_transitions_for_agent info is_client" and ?sends = "get_write_transitions_for_agent info is_client"
  let ?states = "map (state_name_to_identifier \<circ> fst) (filter (\<lambda>(s, ts). ts \<noteq> []) (get_messages_by_then_state info is_client))"
  note reads = side_ids(1) [OF assms(1) side_transitions(1)] and writes = side_ids(2) [OF assms(1) side_transitions(2)]
  have states: "plain s" if "s \<in> set ?states" for s using that by auto
  have a: "neutral (lines (map (\<lambda>s. [''    '', s, ''Input take_'', s, ''_message();'']) ?states))"
    by (rule neutral_lines_map) (drule states, simp add: template_simps)
  have b: "neutral (lines (concat (map (\<lambda>wt.
          [[''    void send_'', ti_identifier wt, ''(const '', ti_identifier wt, ''Data& data);''],
           [''    void send_'', ti_identifier wt, ''('', ti_identifier wt, ''Data&& data);'']]) ?sends)))"
    by (rule neutral_rows) (drule writes, simp add: template_simps)
  have c: "neutral (lines (map (\<lambda>s. [''    std::optional<'', s, ''Input> pending_'', s, ''_message_;'']) ?states))"
    by (rule neutral_lines_map) (drule states, simp add: template_simps)
  have d: "neutral (lines (map (\<lambda>rt. [''    '', ti_identifier rt, ''Parser '', ti_identifier rt, ''_parser_;'']) ?read))"
    by (rule neutral_lines_map) (drule reads, simp add: template_simps)
  have e: "neutral (lines (map (\<lambda>wt. [''    '', ti_identifier wt, ''Serializer '', ti_identifier wt, ''_serializer_;'']) ?sends))"
    by (rule neutral_lines_map) (drule writes, simp add: template_simps)
  define A B C D E where "A = lines (map (\<lambda>s. [''    '', s, ''Input take_'', s, ''_message();'']) ?states)"
    and "B = lines (concat (map (\<lambda>wt.
          [[''    void send_'', ti_identifier wt, ''(const '', ti_identifier wt, ''Data& data);''],
           [''    void send_'', ti_identifier wt, ''('', ti_identifier wt, ''Data&& data);'']]) ?sends))"
    and "C = lines (map (\<lambda>s. [''    std::optional<'', s, ''Input> pending_'', s, ''_message_;'']) ?states)"
    and "D = lines (map (\<lambda>rt. [''    '', ti_identifier rt, ''Parser '', ti_identifier rt, ''_parser_;'']) ?read)"
    and "E = lines (map (\<lambda>wt. [''    '', ti_identifier wt, ''Serializer '', ti_identifier wt, ''_serializer_;'']) ?sends)"
  note pieces = a [folded A_def] b [folded B_def] c [folded C_def] d [folded D_def] e [folded E_def]
  show ?thesis
    unfolding generate_state_machine_class_header_def Let_def A_def [symmetric] B_def [symmetric] C_def [symmetric]
      D_def [symmetric] E_def [symmetric]
    using pieces assms(2) by (simp add: template_simps split: list.split)
qed

lemma neutral_on_bytes_received:
  assumes "plain_info info" and "plain class_name"
  shows "neutral (generate_on_bytes_received class_name info is_client)"
proof -
  have "neutral (concat (map generate_receive_case (reads_by_state info is_client)))"
    by (rule neutral_by_state, rule neutral_receive_case, assumption) (rule side_ids(1) [OF assms(1) side_transitions(4)])
  from scan_neutral [OF this] assms(2) show ?thesis by (simp add: generate_on_bytes_received_def template_simps)
qed

lemma neutral_take_methods:
  assumes "plain class_name"
  shows "neutral (generate_take_message_methods class_name info is_client)"
  unfolding generate_take_message_methods_def
  by (rule neutral_concat) (use assms in \<open>auto simp: template_simps\<close>)

lemma neutral_on_eof:
  assumes "plain_info info" and "plain class_name"
  shows "neutral (generate_on_eof class_name info is_client)"
proof -
  have case_neutral: "neutral ((\<lambda>(state, transitions).
         line [''    case State::'', state_name_to_identifier state, '':'']
         @ lines (map (\<lambda>rt. [''        '', ti_identifier rt, ''_parser_.on_eof();'']) transitions)
         @ line [''        break;'']) (s, ts))"
    if "\<forall>rt \<in> set ts. plain (ti_identifier rt)" for s ts
  proof -
    have "neutral (lines (map (\<lambda>rt. [''        '', ti_identifier rt, ''_parser_.on_eof();'']) ts))"
      by (rule neutral_lines_map) (use that in \<open>simp add: template_simps\<close>)
    from scan_neutral [OF this] show ?thesis by (simp add: template_simps)
  qed
  have "neutral (concat (map (\<lambda>(state, transitions).
         line [''    case State::'', state_name_to_identifier state, '':'']
         @ lines (map (\<lambda>rt. [''        '', ti_identifier rt, ''_parser_.on_eof();'']) transitions)
         @ line [''        break;'']) (reads_by_state info is_client)))"
    by (rule neutral_by_state, rule case_neutral, assumption) (rule side_ids(1) [OF assms(1) side_transitions(4)])
  from scan_neutral [OF this] assms(2) show ?thesis by (simp add: generate_on_eof_def template_simps)
qed

lemma neutral_send_methods:
  assumes "plain_info info" and "plain class_name"
  shows "neutral (generate_send_methods class_name info is_client)"
  unfolding generate_send_methods_def
proof (rule neutral_concat)
  fix wt assume "wt \<in> set (get_write_transitions_for_agent info is_client)"
  then have "plain (ti_identifier wt)" by (rule side_ids(2) [OF assms(1) side_transitions(2)])
  with assms(2) show "neutral (generate_send_method class_name wt [''(const '', ti_identifier wt, ''Data& data) {''] ''data''
       @ generate_send_method class_name wt [''('', ti_identifier wt, ''Data&& data) {''] ''std::move(data)'')"
    by (simp add: generate_send_method_def template_simps)
qed

lemma neutral_state_machine_side:
  assumes "plain_info info" and "plain class_name"
  shows "neutral (generate_state_machine_side class_name info is_client)"
proof -
  have "neutral (line [''// '', class_name, '' implementation''])" "neutral (generate_state_machine_constructor class_name)"
      "neutral (generate_bytes_written class_name)"
    using assms(2) by (simp_all add: generate_state_machine_constructor_def generate_bytes_written_def template_simps)
  then show ?thesis
    unfolding generate_state_machine_side_def
    by (intro neutral_simps neutral_on_bytes_received neutral_take_methods neutral_on_eof neutral_send_methods assms)
qed

lemma balanced_state_machine:
  assumes "plain_info info" and "plain (target_namespace ctx)"
  shows "balanced (gen_header (generate_state_machine ctx info)) \<and> balanced (gen_source (generate_state_machine ctx info))"
proof
  have g: "plain (header_guard ctx ''state_machine.hpp'')" by (rule plain_header_guard [OF assms(2)]) simp
  have p: "plain ''ClientStateMachine''" "plain ''ServerStateMachine''" by simp_all
  note sides = p [THEN neutral_class_header [OF assms(1), THEN scan_neutral]]
    p [THEN neutral_state_machine_side [OF assms(1), THEN scan_neutral]]
  from g sides assms(2) show "balanced (gen_header (generate_state_machine ctx info))"
    by (simp add: generate_state_machine_def file_simps)
  from sides assms(2) show "balanced (gen_source (generate_state_machine ctx info))"
    by (simp add: generate_state_machine_def file_simps)
qed

end
