(* ===== verification/BalancedRunner.thy ===== *)
theory BalancedRunner
  imports BalancedMachine
begin

text \<open>
  The brackets of the generated runners are balanced, and so are those of every file.
\<close>

section \<open>Documentation\<close>

text \<open>Text that leaves the scanner in the block comment it is in.\<close>

definition block_neutral :: "string \<Rightarrow> bool" where
  "block_neutral s \<longleftrightarrow> (\<forall>st. scan (Some (BlockComment, st)) s = Some (BlockComment, st))"

lemma scan_block_neutral: "block_neutral s \<Longrightarrow> scan (Some (BlockComment, st)) s = Some (BlockComment, st)"
  by (simp add: block_neutral_def)

lemma block_neutral_lines: "(\<And>x. x \<in> set xs \<Longrightarrow> block_neutral (line x)) \<Longrightarrow> block_neutral (lines xs)"
  by (induction xs) (simp_all add: lines_def block_neutral_def scan_append)

lemma neutral_lines: "(\<And>x. x \<in> set xs \<Longrightarrow> neutral (line x)) \<Longrightarrow> neutral (lines xs)"
  by (induction xs) (simp_all add: lines_def)

lemma handler_lines_member:
  assumes "plain_info info"
    and "x \<in> set (concat (map (\<lambda>(state_name, ts). map (f (state_name_to_identifier state_name)) ts) (handled_states info is_client)))"
  shows "\<exists>s rt. plain s \<and> plain (ti_identifier rt) \<and> x = f s rt"
proof -
  from assms(2) obtain p rt where p: "p \<in> set (handled_states info is_client)" "rt \<in> set (snd p)"
      "x = f (state_name_to_identifier (fst p)) rt" by auto
  from side_ids(1) [OF assms(1) side_transitions(5) [OF p(1,2)]] have "plain (ti_identifier rt)" .
  with p(3) plain_identifier(2) show ?thesis by blast
qed

lemma block_neutral_handler_lines:
  assumes "plain_info info" and "\<And>s rt. plain s \<Longrightarrow> plain (ti_identifier rt) \<Longrightarrow> block_neutral (line (f s rt))"
  shows "block_neutral (handler_lines info is_client f)"
  unfolding handler_lines_def
proof (rule block_neutral_lines)
  fix x assume "x \<in> set (concat (map (\<lambda>(state_name, ts). map (f (state_name_to_identifier state_name)) ts) (handled_states info is_client)))"
  from handler_lines_member [OF assms(1) this] assms(2) show "block_neutral (line x)" by blast
qed

lemma neutral_handler_lines:
  assumes "plain_info info" and "\<And>s rt. plain s \<Longrightarrow> plain (ti_identifier rt) \<Longrightarrow> neutral (line (f s rt))"
  shows "neutral (handler_lines info is_client f)"
  unfolding handler_lines_def
proof (rule neutral_lines)
  fix x assume "x \<in> set (concat (map (\<lambda>(state_name, ts). map (f (state_name_to_identifier state_name)) ts) (handled_states info is_client)))"
  from handler_lines_member [OF assms(1) this] assms(2) show "neutral (line x)" by blast
qed

section \<open>The concept and the class\<close>

lemma neutral_handler_concept:
  assumes "plain_info info" and "plain concept_name" and "plain pre"
  shows "neutral (generate_handler_concept concept_name pre info is_client)"
proof -
  have a: "block_neutral (handler_lines info is_client (\<lambda>state_id rt.
          ['' *   '', state_id, ''Output'', '' on_'', state_id, ''(const '', ti_identifier rt, ''Data&) const'']))"
    by (rule block_neutral_handler_lines [OF assms(1)]) (simp add: block_neutral_def template_simps)
  have b: "neutral (handler_lines info is_client (\<lambda>state_id rt.
          [''    { handler.on_'', state_id, ''('', ti_identifier rt, ''_msg) } -> std::convertible_to<'', state_id, ''Output'', ''>;'']))"
    by (rule neutral_handler_lines [OF assms(1)]) (simp add: template_simps)
  have c: "neutral (concat (map (\<lambda>rt. '', const '' @ ti_identifier rt @ ''Data& '' @ ti_identifier rt @ ''_msg'')
          (filter (\<lambda>rt. ti_agent rt = side_name is_client) (pi_read_transitions info))))"
    by (rule neutral_concat) (use side_ids(1) [OF assms(1)] in \<open>auto simp: template_simps\<close>)
  from scan_block_neutral [OF a] scan_neutral [OF b] scan_neutral [OF c] assms(2,3) show ?thesis
    by (simp add: generate_handler_concept_def template_simps)
qed

lemma neutral_runner_documentation:
  assumes "plain_info info" and "plain class_name" and "plain machine" and "plain concept_name" and "plain pre"
  shows "neutral (generate_runner_documentation class_name machine concept_name pre info is_client)"
proof -
  have a: "block_neutral (handler_lines info is_client (\<lambda>state_id rt.
         ['' *       '', state_id, ''Output'', '' on_'', state_id, ''(const '', ti_identifier rt, ''Data& msg) const;'']))"
    by (rule block_neutral_handler_lines [OF assms(1)]) (simp add: block_neutral_def template_simps)
  from scan_block_neutral [OF a] assms(2-) show ?thesis
    by (simp add: generate_runner_documentation_def template_simps)
qed

lemma neutral_dispatch_message: "neutral (generate_dispatch_message info is_client)"
proof -
  have "neutral (concat (map (\<lambda>(state_name, ts).
         (let state_id = state_name_to_identifier state_name in
          lines
           [[''        case State::'', state_id, '': {''],
            [''            auto input = state_machine_.take_'', state_id, ''_message();''],
            [''            auto output = std::visit([this](auto&& msg) -> '', state_id, ''Output'', '' {''],
            [''                return handler_.on_'', state_id, ''(msg);''],
            [''            }, input);''],
            [''            dispatch_output(output);''],
            [''            break;''],
            [''        }'']])) (handled_states info is_client)))"
    by (rule neutral_concat) (simp add: template_simps split_beta)
  from scan_neutral [OF this] show ?thesis by (simp add: generate_dispatch_message_def template_simps)
qed

lemma neutral_output_branches:
  "\<forall>wt \<in> set wts. plain (ti_identifier wt) \<Longrightarrow> neutral (generate_output_branches first wts)"
proof (induction wts arbitrary: first)
  case (Cons wt wts)
  then have "neutral (generate_output_branches False wts)" "plain (ti_identifier wt)" by simp_all
  then show ?case by (simp add: template_simps)
qed simp

text \<open>The class and its last method, which closes it.\<close>

lemma scan_dispatch_output:
  assumes "plain_info info"
  shows "scan (Some (Code, CHR ''}'' # st)) (generate_dispatch_output info is_client) = Some (Code, st)"
proof -
  have "neutral (generate_output_branches True (filter (\<lambda>wt. ti_agent wt = side_name is_client) (pi_write_transitions info)))"
    by (rule neutral_output_branches) (use side_ids(2) [OF assms] in simp)
  from scan_neutral [OF this] show ?thesis by (simp add: generate_dispatch_output_def template_simps)
qed

lemma neutral_runner_class:
  assumes "plain_info info" and "plain class_name" and "plain machine" and "plain concept_name" and "plain pre"
  shows "neutral (generate_runner_class_header class_name machine concept_name pre info is_client)"
  using scan_neutral [OF neutral_runner_documentation [OF assms]] scan_neutral [OF neutral_dispatch_message]
    scan_dispatch_output [OF assms(1)] assms(2-)
  by (simp add: generate_runner_class_header_def template_simps)

section \<open>The files\<close>

lemma balanced_runner:
  assumes "plain_info info" and "plain (target_namespace ctx)"
  shows "balanced (gen_header (generate_runner ctx info)) \<and> balanced (gen_source (generate_runner ctx info))"
proof
  have g: "plain (header_guard ctx ''runner.hpp'')" by (rule plain_header_guard [OF assms(2)]) simp
  have p: "plain ''ServerHandlerConcept''" "plain ''Server''" "plain ''ClientHandlerConcept''" "plain ''Client''"
      "plain ''ServerRunner''" "plain ''ServerStateMachine''" "plain ''ClientRunner''" "plain ''ClientStateMachine''" by simp_all
  note sides = scan_neutral [OF neutral_handler_concept [OF assms(1) p(1,2)]]
    scan_neutral [OF neutral_handler_concept [OF assms(1) p(3,4)]]
    scan_neutral [OF neutral_runner_class [OF assms(1) p(5,6,1,2)]]
    scan_neutral [OF neutral_runner_class [OF assms(1) p(7,8,3,4)]]
  from g sides assms(2) show "balanced (gen_header (generate_runner ctx info))"
    by (simp add: generate_runner_def file_simps)
  show "balanced (gen_source (generate_runner ctx info))"
    using assms(2) by (simp add: generate_runner_def file_simps)
qed

lemma balanced_main_header:
  assumes "plain (target_namespace ctx)"
  shows "balanced (generate_main_header ctx)"
proof -
  have "plain (header_guard ctx ''protocol.hpp'')" by (rule plain_header_guard [OF assms]) simp
  then show ?thesis by (simp add: generate_main_header_def file_simps)
qed

lemma balanced_cmake_lists: "plain name \<Longrightarrow> balanced (generate_cmake_lists name)"
  by (simp add: generate_cmake_lists_def file_simps)

text \<open>What a run writes.\<close>

definition all_balanced :: "generator_run \<Rightarrow> bool" where
  "all_balanced r \<longleftrightarrow> (\<forall>(f, c) \<in> set (gr_files r). balanced c)"

lemma all_balanced_write_file: "all_balanced r \<Longrightarrow> balanced c \<Longrightarrow> all_balanced (write_file outcome g f c r)"
  by (auto simp: all_balanced_def write_file_def Let_def split: file_outcome.split)

lemma all_balanced_write_pair:
  "all_balanced r \<Longrightarrow> balanced (gen_header x) \<and> balanced (gen_source x) \<Longrightarrow> all_balanced (write_pair outcome g f x r)"
proof -
  assume "all_balanced r" and x: "balanced (gen_header x) \<and> balanced (gen_source x)"
  then have "all_balanced (r\<lparr>gr_errors := e\<rparr>)" for e by (simp add: all_balanced_def)
  with x show ?thesis by (simp add: write_pair_def all_balanced_write_file)
qed

lemma all_balanced_generate:
  assumes "plain_info (cg_info g)" and "plain (target_namespace (cg_ctx g))" and "plain (cg_library_name g)"
  shows "all_balanced (generate directory_error outcome g)"
proof (cases directory_error)
  case None
  have r: "all_balanced \<lparr>gr_success = True, gr_errors = [], gr_files = []\<rparr>" by (simp add: all_balanced_def)
  note b = balanced_data_types balanced_states balanced_parser balanced_serializer balanced_state_machine balanced_runner
  show ?thesis
    unfolding generate_def None Let_def option.case
    by (simp add: all_balanced_write_file all_balanced_write_pair r b [OF assms(1,2)]
        balanced_main_header [OF assms(2)] balanced_cmake_lists [OF assms(3)])
qed (simp add: generate_def all_balanced_def)

end
