(* ===== verification/CodegenTheorems.thy ===== *)
theory CodegenTheorems
  imports BalancedRunner
begin

text \<open>
  What the code generator promises: the literals it writes, the transitions it works on, the
  files it leaves behind, and that they are well formed.
\<close>

section \<open>Literals\<close>

abbreviation escaped_body :: "string \<Rightarrow> string" where
  "escaped_body s \<equiv> concat (map escape_char s) @ [CHR 0x22]"

text \<open>No character of the source gives more than one character of the literal, and a hexadecimal
  digit after a hexadecimal escape gives none.\<close>

definition literal_bound :: "string \<Rightarrow> bool" where
  "literal_bound s \<longleftrightarrow> (\<forall>r. literal_value InLiteral (escaped_body s) = Some r \<longrightarrow> length r \<le> length s)"

definition hex_bound :: "string \<Rightarrow> bool" where
  "hex_bound s \<longleftrightarrow> (\<forall>v r. literal_value (InHex v) (escaped_body s) = Some r \<longrightarrow>
     length r \<le> Suc (length s) \<and> (s \<noteq> [] \<and> hex_value (hd s) \<noteq> None \<longrightarrow> length r \<le> length s))"

lemma escape_char_hex: "hex_value c \<noteq> None \<Longrightarrow> escape_char c = [c]"
  by (auto simp: hex_value_def escape_char_def is_print_def is_decimal_def less_eq_char_def split: if_splits)

lemma escape_char_needs_hex:
  "needs_hex c \<Longrightarrow> literal_value InLiteral (escape_char c @ rest) = literal_value (InHex (of_char c)) rest"
proof -
  assume c: "needs_hex c"
  have "\<not> needs_hex (CHR 0x5C)" "\<not> needs_hex (CHR 0x22)" by (simp_all add: needs_hex_def is_print_def less_eq_char_def)
  with c have "escape_char c = [CHR 0x5C, CHR ''x'', hex_digit (of_char c div 16), hex_digit (of_char c mod 16)]"
    by (auto simp: escape_char_def needs_hex_def)
  moreover have "16 * ((of_char c :: nat) div 16) + of_char c mod 16 = of_char c" by simp
  ultimately show ?thesis by (simp add: hex_value_digit nibbles)
qed

lemma literal_value_not_hex:
  "\<not> needs_hex c \<Longrightarrow> literal_value InLiteral (escape_char c @ escaped_body s) = map_option ((#) c) (literal_value InLiteral (escaped_body s))"
  by (rule literal_value_escape_char) simp_all

lemma literal_value_end_hex:
  assumes "rest \<noteq> []" and "hex_value (hd rest) = None" and "literal_value (InHex v) rest = Some r"
  shows "\<exists>r'. literal_value InLiteral rest = Some r' \<and> length r = Suc (length r')"
proof (cases "v < 256")
  case True
  with assms literal_value_hex_end [OF assms(1,2) True] show ?thesis by auto
next
  case False
  with assms show ?thesis by (cases rest) simp_all
qed

lemma literal_bound_Cons: "literal_bound s \<Longrightarrow> hex_bound s \<Longrightarrow> literal_bound (c # s)"
proof (cases "needs_hex c")
  case True
  assume "hex_bound s"
  with True show ?thesis by (simp add: literal_bound_def hex_bound_def escape_char_needs_hex)
next
  case False
  assume "literal_bound s"
  with False show ?thesis by (auto simp: literal_bound_def literal_value_not_hex)
qed

lemma hex_bound_Cons: "literal_bound (c # s) \<Longrightarrow> hex_bound s \<Longrightarrow> hex_bound (c # s)"
proof (cases "hex_value c")
  case None
  assume "literal_bound (c # s)"
  moreover have "hex_value (hd (escaped_body (c # s))) = None" using hd_escape_char [OF None] by simp
  ultimately show ?thesis
    using None literal_value_end_hex [of "escaped_body (c # s)"] by (fastforce simp: hex_bound_def literal_bound_def)
next
  case (Some x)
  assume "hex_bound s"
  with Some escape_char_hex [of c] show ?thesis unfolding hex_bound_def by (fastforce intro: le_SucI)
qed

lemma literal_hex_bound: "literal_bound s \<and> hex_bound s"
proof (induction s)
  case Nil
  have "hex_value (CHR 0x22) = None" by (simp add: hex_value_def is_decimal_def less_eq_char_def)
  then show ?case by (simp add: literal_bound_def hex_bound_def)
next
  case (Cons c s)
  then show ?case using literal_bound_Cons hex_bound_Cons by blast
qed

lemma literal_value_unsafe:
  "\<not> literal_safe s \<Longrightarrow> literal_value InLiteral (escaped_body s) = Some r \<Longrightarrow> length r < length s"
proof (induction s arbitrary: r rule: literal_safe.induct)
  case (1 c d s)
  show ?case
  proof (cases "needs_hex c \<and> hex_value d \<noteq> None")
    case True
    with 1(3) have "literal_value (InHex (of_char c)) (escaped_body (d # s)) = Some r"
      by (simp add: escape_char_needs_hex)
    with True literal_hex_bound [of "d # s"] have "length r \<le> length (d # s)" unfolding hex_bound_def by auto
    then show ?thesis by simp
  next
    case False
    with 1(2) have u: "\<not> literal_safe (d # s)" by auto
    have "literal_value InLiteral (escape_char c @ escaped_body (d # s)) = map_option ((#) c) (literal_value InLiteral (escaped_body (d # s)))"
      by (rule literal_value_escape_char) (use False hd_escape_char [of d] in auto)
    with 1(3) obtain r' where "literal_value InLiteral (escaped_body (d # s)) = Some r'" "r = c # r'"
      by (cases "literal_value InLiteral (escaped_body (d # s))") auto
    with 1(1) [OF u] show ?thesis by simp
  qed
qed simp_all

lemma cpp_literal_value_escaped: "cpp_literal_value (escape_string_literal s) = literal_value InLiteral (escaped_body s)"
  by (simp add: cpp_literal_value_def escape_string_literal_def)

text \<open>C30: A string literal the generator writes has the value it was written for exactly when no
  hexadecimal escape is followed by a hexadecimal digit.\<close>

theorem escaped_literal_value:
  "cpp_literal_value (escape_string_literal s) = Some s \<longleftrightarrow> literal_safe s"
  using literal_value_escaped [of s] literal_value_unsafe [of s] by (auto simp: cpp_literal_value_escaped)

section \<open>What the generators work on\<close>

text \<open>What a message of the protocol comes to in each collection.\<close>

definition message_info_spec :: "string \<times> message \<Rightarrow> message_info" where
  "message_info_spec q =
     \<lparr>mi_name = fst q, mi_identifier = message_name_to_identifier (fst q), mi_when_state = id_name (msg_when (snd q)),
      mi_then_state = id_name (msg_then (snd q)), mi_agent = ''Client'', mi_data = msg_data (snd q)\<rparr>"

definition transition_info_spec :: "string \<Rightarrow> action list \<Rightarrow> string \<times> message \<Rightarrow> transition_info" where
  "transition_info_spec agent_name actions q =
     \<lparr>ti_message_name = fst q, ti_identifier = message_name_to_identifier (fst q), ti_when_state = id_name (msg_when (snd q)),
      ti_then_state = id_name (msg_then (snd q)), ti_agent = agent_name, ti_actions = actions,
      ti_data = msg_data (snd q)\<rparr>"

definition read_info_spec :: "string \<times> message \<Rightarrow> transition_info" where
  "read_info_spec q = transition_info_spec (reader_of (snd q)) (the (parts_to_read_actions (msg_parts (snd q)))) q"

definition write_info_spec :: "string \<times> message \<Rightarrow> transition_info" where
  "write_info_spec q = transition_info_spec (id_name (msg_agent (snd q))) (the (parts_to_write_actions (msg_parts (snd q)))) q"

lemma analyzed_side:
  assumes "analyze p = Some pr" and "ordered p" and "q \<in> set p" and "x = ''Client'' \<or> x = ''Server''"
  obtains t where "analyze_message x (snd q) = Some t"
  using analyze_entries(3) [OF assms(1,2), of x _ "fst q" "snd q"] assms(3,4) by fastforce

lemma entry_transition:
  assumes "analyze p = Some pr" and "ordered p" and "q \<in> set p" and "x = ''Client'' \<or> x = ''Server''"
  shows "is_read_transition (the (analyze_message x (snd q))) \<longleftrightarrow> id_name (msg_agent (snd q)) \<noteq> x"
    and "transition_info_of x (fst (entry_of x q)) (snd (entry_of x q)) =
      transition_info_spec x (the (if id_name (msg_agent (snd q)) = x then parts_to_write_actions (msg_parts (snd q))
        else parts_to_read_actions (msg_parts (snd q)))) q"
    and "message_info_of x (fst (entry_of x q)) (snd (entry_of x q)) = message_info_spec q\<lparr>mi_agent := x\<rparr>"
proof -
  obtain t where t: "analyze_message x (snd q) = Some t" using analyzed_side [OF assms] .
  note a = analyzed_transition [OF t]
  from a(1) t show "is_read_transition (the (analyze_message x (snd q))) \<longleftrightarrow> id_name (msg_agent (snd q)) \<noteq> x" by simp
  from a(3) have "tr_actions (transition_of t) = the (if id_name (msg_agent (snd q)) = x then parts_to_write_actions (msg_parts (snd q))
        else parts_to_read_actions (msg_parts (snd q)))" by (metis option.sel)
  with a(2) t show "transition_info_of x (fst (entry_of x q)) (snd (entry_of x q)) =
      transition_info_spec x (the (if id_name (msg_agent (snd q)) = x then parts_to_write_actions (msg_parts (snd q))
        else parts_to_read_actions (msg_parts (snd q)))) q"
    by (simp add: entry_of_def transition_info_of_def transition_info_spec_def)
  from a(2) t show "message_info_of x (fst (entry_of x q)) (snd (entry_of x q)) = message_info_spec q\<lparr>mi_agent := x\<rparr>"
    by (simp add: entry_of_def message_info_of_def message_info_spec_def)
qed

lemma entry_is_read:
  assumes "analyze p = Some pr" and "ordered p" and "(n, m) \<in> set p" and "x = ''Client'' \<or> x = ''Server''"
  shows "is_read_transition (the (analyze_message x m)) \<longleftrightarrow> id_name (msg_agent m) \<noteq> x"
  using entry_transition(1) [OF assms] by simp

lemma protocol_messages:
  assumes "analyze p = Some pr" and "ordered p"
  shows "set (collect_messages pr) = message_info_spec ` set p"
proof -
  note e = entry_transition [OF assms]
  have "set (collect_messages pr) =
      (\<lambda>q. message_info_of ''Client'' (fst (entry_of ''Client'' q)) (snd (entry_of ''Client'' q))) ` set p"
    unfolding collect_messages_def
    using collect_infos_set [OF assms, of "\<lambda>t. True" "\<lambda>t. True" message_info_of] by simp
  also have "\<dots> = message_info_spec ` set p"
    by (rule image_cong [OF refl]) (simp add: e(3) message_info_spec_def)
  finally show ?thesis .
qed

lemma protocol_reads:
  assumes "analyze p = Some pr" and "ordered p"
  shows "set (collect_read_transitions pr) = read_info_spec ` set p"
proof -
  note e = entry_transition [OF assms]
  note r = entry_is_read [OF assms]
  have "set (collect_read_transitions pr) =
      (\<lambda>q. transition_info_of ''Client'' (fst (entry_of ''Client'' q)) (snd (entry_of ''Client'' q)))
        ` {q \<in> set p. is_read_transition (the (analyze_message ''Client'' (snd q)))}
    \<union> (\<lambda>q. transition_info_of ''Server'' (fst (entry_of ''Server'' q)) (snd (entry_of ''Server'' q)))
        ` {q \<in> set p. is_read_transition (the (analyze_message ''Server'' (snd q)))
            \<and> \<not> is_read_transition (the (analyze_message ''Client'' (snd q)))}"
    unfolding collect_read_transitions_def by (rule collect_infos_set [OF assms]) simp
  also have "\<dots> = read_info_spec ` {q \<in> set p. id_name (msg_agent (snd q)) \<noteq> ''Client''}
      \<union> read_info_spec ` {q \<in> set p. id_name (msg_agent (snd q)) = ''Client''}"
    by (intro arg_cong2 [of _ _ _ _ "(\<union>)"] image_cong) (auto simp: e r read_info_spec_def reader_of_def)
  also have "\<dots> = read_info_spec ` set p" by blast
  finally show ?thesis .
qed

lemma protocol_writes:
  assumes "analyze p = Some pr" and "ordered p"
  shows "set (collect_write_transitions pr) =
    write_info_spec ` {q \<in> set p. id_name (msg_agent (snd q)) \<in> {''Client'', ''Server''}}"
proof -
  note e = entry_transition [OF assms]
  note r = entry_is_read [OF assms]
  have "set (collect_write_transitions pr) =
      (\<lambda>q. transition_info_of ''Client'' (fst (entry_of ''Client'' q)) (snd (entry_of ''Client'' q)))
        ` {q \<in> set p. \<not> is_read_transition (the (analyze_message ''Client'' (snd q)))}
    \<union> (\<lambda>q. transition_info_of ''Server'' (fst (entry_of ''Server'' q)) (snd (entry_of ''Server'' q)))
        ` {q \<in> set p. \<not> is_read_transition (the (analyze_message ''Server'' (snd q)))
            \<and> \<not> \<not> is_read_transition (the (analyze_message ''Client'' (snd q)))}"
    unfolding collect_write_transitions_def
    by (rule collect_infos_set [OF assms, where sel = "\<lambda>t. \<not> is_read_transition t"]) simp
  also have "\<dots> = write_info_spec ` {q \<in> set p. id_name (msg_agent (snd q)) = ''Client''}
      \<union> write_info_spec ` {q \<in> set p. id_name (msg_agent (snd q)) = ''Server''}"
    by (intro arg_cong2 [of _ _ _ _ "(\<union>)"] image_cong) (auto simp: e r write_info_spec_def)
  also have "\<dots> = write_info_spec ` {q \<in> set p. id_name (msg_agent (snd q)) \<in> {''Client'', ''Server''}}" by blast
  finally show ?thesis .
qed

lemma agent_states:
  assumes "analyze p = Some pr" and "ordered p" and "x = ''Client'' \<and> a = pr_client pr \<or> x = ''Server'' \<and> a = pr_server pr"
  shows "fst ` set (ag_states a) \<union> (\<Union>e \<in> set (ag_states a). (\<lambda>t. snd (snd t)) ` set (snd e)) =
    (\<lambda>q. id_name (msg_when (snd q))) ` set p \<union> (\<lambda>q. id_name (msg_then (snd q))) ` set p"
proof -
  have a: "analyze_agent p x = Some a" using assms(1,3) by (auto simp: analyze_def split: option.splits)
  have "s \<in> fst ` set (ag_states a) \<longleftrightarrow> (\<exists>(n, m) \<in> set p. s = id_name (msg_when m) \<or> s = id_name (msg_then m))" for s
    using analyze_agent_spec [OF a assms(2), of s] by (simp add: map_of_eq_None_iff del: not_None_eq)
  then have k: "fst ` set (ag_states a) = (\<lambda>q. id_name (msg_when (snd q))) ` set p \<union> (\<lambda>q. id_name (msg_then (snd q))) ` set p"
    by (auto simp: image_iff split_beta)
  have "(\<Union>e \<in> set (ag_states a). (\<lambda>t. snd (snd t)) ` set (snd e)) = (\<lambda>e. snd (snd (snd e))) ` set (agent_entries a)"
    by (force simp: agent_entries_def)
  also have "\<dots> = (\<lambda>q. id_name (msg_then (snd q))) ` set p"
    unfolding analyze_entries(1) [OF assms] image_image by (simp add: entry_of_def)
  finally show ?thesis unfolding k by blast
qed

lemma protocol_states:
  assumes "analyze p = Some pr" and "ordered p"
  shows "set (collect_states pr) = (\<lambda>q. id_name (msg_when (snd q))) ` set p \<union> (\<lambda>q. id_name (msg_then (snd q))) ` set p"
    and "sorted_wrt (<) (collect_states pr)"
proof -
  let ?f = "\<lambda>a. fst ` set (ag_states a) \<union> (\<Union>e \<in> set (ag_states a). (\<lambda>t. snd (snd t)) ` set (snd e))"
  have c: "?f (pr_client pr) = (\<lambda>q. id_name (msg_when (snd q))) ` set p \<union> (\<lambda>q. id_name (msg_then (snd q))) ` set p"
    by (rule agent_states [OF assms, of "''Client''"]) simp
  have s: "?f (pr_server pr) = (\<lambda>q. id_name (msg_when (snd q))) ` set p \<union> (\<lambda>q. id_name (msg_then (snd q))) ` set p"
    by (rule agent_states [OF assms, of "''Server''"]) simp
  have "set (collect_states pr) = ?f (pr_client pr) \<union> ?f (pr_server pr)"
    by (simp add: collect_states_def set_collect_agent_states Un_assoc)
  then show "set (collect_states pr) = (\<lambda>q. id_name (msg_when (snd q))) ` set p \<union> (\<lambda>q. id_name (msg_then (snd q))) ` set p"
    unfolding c s by simp
  show "sorted_wrt (<) (collect_states pr)" by (simp add: collect_states_def sorted_collect_agent_states)
qed

text \<open>C29: \<open>ProtocolInfo\<close> lists every state once and in order, every message once, every message
  once among the read transitions, as its reader's, with the actions to read it, and every message
  of the client or the server once among the write transitions, as its writer's, with the actions
  to write it. All of them carry the states and the data of the message; all messages are
  attributed to the client.\<close>

theorem protocol_info_complete:
  assumes "analyze p = Some pr" and "ordered p"
  shows "set (pi_states (protocol_info pr)) =
      (\<lambda>q. id_name (msg_when (snd q))) ` set p \<union> (\<lambda>q. id_name (msg_then (snd q))) ` set p
    \<and> sorted_wrt (<) (pi_states (protocol_info pr))
    \<and> set (pi_messages (protocol_info pr)) = message_info_spec ` set p
    \<and> distinct (map mi_name (pi_messages (protocol_info pr)))
    \<and> set (pi_read_transitions (protocol_info pr)) = read_info_spec ` set p
    \<and> distinct (map ti_message_name (pi_read_transitions (protocol_info pr)))
    \<and> set (pi_write_transitions (protocol_info pr)) =
        write_info_spec ` {q \<in> set p. id_name (msg_agent (snd q)) \<in> {''Client'', ''Server''}}
    \<and> distinct (map ti_message_name (pi_write_transitions (protocol_info pr)))"
proof -
  have "distinct (map mi_name (collect_messages pr))"
    unfolding collect_messages_def by (rule collect_infos_distinct [OF assms]) (auto simp: message_info_of_def)
  moreover have "distinct (map ti_message_name (collect_read_transitions pr))"
    unfolding collect_read_transitions_def by (rule collect_infos_distinct [OF assms]) (auto simp: transition_info_of_def)
  moreover have "distinct (map ti_message_name (collect_write_transitions pr))"
    unfolding collect_write_transitions_def by (rule collect_infos_distinct [OF assms]) (auto simp: transition_info_of_def)
  ultimately show ?thesis
    using protocol_states [OF assms] protocol_messages [OF assms] protocol_reads [OF assms] protocol_writes [OF assms]
    by (simp add: protocol_info_def)
qed

section \<open>Plain sources\<close>

text \<open>What the lexer lets through as an identifier is plain; a message name is a string literal,
  and has to be fit for a comment.\<close>

fun plain_part :: "message_part \<Rightarrow> bool" where
  "plain_part (PartTokens s) \<longleftrightarrow> (\<forall>t \<in> set (ts_tokens s). case t of TokenString l \<Rightarrow> True | TokenIdentifier i \<Rightarrow> plain (id_name i))"
| "plain_part (PartTerminator t) \<longleftrightarrow> True"
| "plain_part (PartForLoop v c block opt) \<longleftrightarrow> plain (id_name c) \<and> (\<forall>x \<in> set block. plain_part x)"

definition plain_source :: "protocol_description \<Rightarrow> bool" where
  "plain_source p \<longleftrightarrow> (\<forall>(n, m) \<in> set p. comment_safe n \<and> plain (id_name (msg_when m)) \<and> plain (id_name (msg_then m))
     \<and> plain_data (msg_data m) \<and> (\<forall>x \<in> set (msg_parts m). plain_part x))"

lemma plain_escape_read: "\<forall>a \<in> set as. plain_action a \<Longrightarrow> \<forall>a \<in> set (escape_read_actions e as). plain_action a"
proof -
  have "plain_action (apply_escape_to_read x a) \<longleftrightarrow> plain_action a" for x a by (cases a) simp_all
  then show "\<forall>a \<in> set as. plain_action a \<Longrightarrow> \<forall>a \<in> set (escape_read_actions e as). plain_action a"
    by (simp add: escape_read_actions_def split: option.split)
qed

lemma plain_escape_write: "\<forall>a \<in> set as. plain_action a \<Longrightarrow> \<forall>a \<in> set (escape_write_actions e as). plain_action a"
proof -
  have "plain_action (apply_escape_to_write x a) \<longleftrightarrow> plain_action a" for x a by (cases a) simp_all
  then show "\<forall>a \<in> set as. plain_action a \<Longrightarrow> \<forall>a \<in> set (escape_write_actions e as). plain_action a"
    by (simp add: escape_write_actions_def split: option.split)
qed

definition plain_token :: "token_part \<Rightarrow> bool" where
  "plain_token t \<longleftrightarrow> (case t of TokenString l \<Rightarrow> True | TokenIdentifier i \<Rightarrow> plain (id_name i))"

lemma plain_read_tokens: "read_token_actions ts = Some as \<Longrightarrow> \<forall>t \<in> set ts. plain_token t \<Longrightarrow> \<forall>a \<in> set as. plain_action a"
  by (induction ts arbitrary: as rule: read_token_actions.induct) (auto simp: plain_token_def)

lemma plain_process_tokens:
  assumes "process_token_sequence s t = Some as" and "plain_part (PartTokens s)"
  shows "\<forall>a \<in> set as. plain_action a"
proof -
  from assms(1) obtain bs where bs: "read_token_sequence (ts_tokens s @ [TokenString t]) = Some bs"
      "as = escape_read_actions (ts_escape s) bs" by (auto simp: process_token_sequence_def)
  from assms(2) have "\<forall>x \<in> set (ts_tokens s @ [TokenString t]). plain_token x"
    by (simp add: plain_token_def split: token_part.splits)
  with bs(1) have "\<forall>a \<in> set bs. plain_action a" by (intro plain_read_tokens) (auto simp: read_token_sequence_def split: if_splits)
  then show ?thesis unfolding bs(2) by (rule plain_escape_read)
qed

lemma plain_final_tokens:
  assumes "read_final_token_sequence s = Some as" and "plain_part (PartTokens s)"
  shows "\<forall>a \<in> set as. plain_action a"
proof (cases "ts_terminator s")
  case None
  with assms(1) obtain bs where bs: "read_token_sequence (ts_tokens s) = Some bs"
      "as = escape_read_actions (ts_escape s) bs" by (auto simp: read_final_token_sequence_def)
  from assms(2) have "\<forall>x \<in> set (ts_tokens s). plain_token x"
    by (simp add: plain_token_def split: token_part.splits)
  with bs(1) have "\<forall>a \<in> set bs. plain_action a" by (intro plain_read_tokens) (auto simp: read_token_sequence_def split: if_splits)
  then show ?thesis unfolding bs(2) by (rule plain_escape_read)
next
  case (Some t)
  with assms show ?thesis using plain_process_tokens by (simp add: read_final_token_sequence_def)
qed

lemma plain_read_actions:
  "parts_to_read_actions ps = Some as \<Longrightarrow> \<forall>x \<in> set ps. plain_part x \<Longrightarrow> \<forall>a \<in> set as. plain_action a"
proof (induction ps arbitrary: as rule: parts_to_read_actions.induct)
  case (2 s)
  then show ?case using plain_final_tokens by simp
next
  case (3 s t ps)
  then obtain bs cs where b: "process_token_sequence s t = Some bs" "parts_to_read_actions ps = Some cs" "as = bs @ cs"
      "ts_terminator s = None"
    by (auto split: option.splits if_splits)
  have "\<forall>a \<in> set cs. plain_action a" by (rule "3.IH") (use b "3.prems" in auto)
  moreover have "\<forall>a \<in> set bs. plain_action a" by (rule plain_process_tokens [OF b(1)]) (use "3.prems" in simp)
  ultimately show ?case using b(3) by auto
next
  case (4 v c block opt t ps)
  then obtain bs cs where b: "parts_to_read_actions block = Some bs" "parts_to_read_actions ps = Some cs" "as = Loop v c t bs # cs"
    by (auto split: option.splits)
  have "\<forall>a \<in> set bs. plain_action a" by (rule "4.IH"(1) [OF b(1)]) (use "4.prems" in auto)
  moreover have "\<forall>a \<in> set cs. plain_action a" by (rule "4.IH"(2) [OF b(1,2)]) (use "4.prems" in auto)
  ultimately show ?case using b(3) "4.prems" by simp
qed auto

lemma plain_write_tokens:
  assumes "write_tokens s = Some as" and "plain_part (PartTokens s)"
  shows "\<forall>a \<in> set as. plain_action a"
proof -
  let ?ts = "ts_tokens s @ (case ts_terminator s of Some t \<Rightarrow> [TokenString t] | None \<Rightarrow> [])"
  from assms(1) have as: "as = escape_write_actions (ts_escape s) (map write_token_action ?ts)"
    by (auto simp: write_tokens_def write_token_sequence_def Let_def split: if_splits)
  have "plain_action (write_token_action t)" if "plain_token t" for t
    using that by (cases t) (simp_all add: plain_token_def)
  moreover have "\<forall>t \<in> set ?ts. plain_token t"
    using assms(2) by (auto simp: plain_token_def split: option.splits)
  ultimately have "\<forall>a \<in> set (map write_token_action ?ts). plain_action a" unfolding set_map by blast
  then show ?thesis unfolding as by (rule plain_escape_write)
qed

lemma plain_write_actions:
  "parts_to_write_actions ps = Some as \<Longrightarrow> \<forall>x \<in> set ps. plain_part x \<Longrightarrow> \<forall>a \<in> set as. plain_action a"
proof (induction ps arbitrary: as rule: parts_to_write_actions.induct)
  case (2 s ps)
  then obtain bs cs where b: "write_tokens s = Some bs" "parts_to_write_actions ps = Some cs" "as = bs @ cs"
    by (auto split: option.splits)
  have "\<forall>a \<in> set cs. plain_action a" by (rule "2.IH" [OF b(1,2)]) (use "2.prems" in simp)
  moreover have "\<forall>a \<in> set bs. plain_action a" by (rule plain_write_tokens [OF b(1)]) (use "2.prems" in simp)
  ultimately show ?case using b(3) by auto
next
  case (4 v c block opt t ps)
  then obtain bs cs where b: "parts_to_write_actions block = Some bs" "parts_to_write_actions ps = Some cs" "as = Loop v c t bs # cs"
    by (auto split: option.splits)
  have "\<forall>a \<in> set bs. plain_action a" by (rule "4.IH"(1) [OF b(1)]) (use "4.prems" in auto)
  moreover have "\<forall>a \<in> set cs. plain_action a" by (rule "4.IH"(2) [OF b(1,2)]) (use "4.prems" in auto)
  ultimately show ?case using b(3) "4.prems" by simp
qed auto

lemma plain_protocol_info:
  assumes "analyze p = Some pr" and "ordered p" and "plain_source p"
  shows "plain_info (protocol_info pr)"
proof -
  have src: "comment_safe (fst q)" "plain (id_name (msg_when (snd q)))" "plain (id_name (msg_then (snd q)))"
      "plain_data (msg_data (snd q))" "\<forall>x \<in> set (msg_parts (snd q)). plain_part x" if "q \<in> set p" for q
    using assms(3) that by (auto simp: plain_source_def)
  have "plain_message (message_info_spec q)" if "q \<in> set p" for q
    using src [OF that] by (simp add: plain_message_def message_info_spec_def comment_safe_plain)
  moreover have spec: "plain_transition (transition_info_spec x (the o_as) q)"
    if "q \<in> set p" and "o_as = Some as" and "\<forall>a \<in> set as. plain_action a" for x o_as as q
    using src [OF that(1)] that(2,3) by (simp add: plain_transition_def transition_info_spec_def)
  moreover have "plain_transition (read_info_spec q)" if q: "q \<in> set p" for q
  proof -
    have r: "reader_of (snd q) = ''Client'' \<or> reader_of (snd q) = ''Server''" "id_name (msg_agent (snd q)) \<noteq> reader_of (snd q)"
      by (auto simp: reader_of_def)
    obtain t where t: "analyze_message (reader_of (snd q)) (snd q) = Some t"
      using analyzed_side [OF assms(1,2) q r(1)] by blast
    then obtain as where "parts_to_read_actions (msg_parts (snd q)) = Some as"
      using r(2) by (auto simp: analyze_message_def analyze_read_message_def)
    with spec [OF that this] plain_read_actions [OF this src(5) [OF that]] show ?thesis by (simp add: read_info_spec_def)
  qed
  moreover have "plain_transition (write_info_spec q)"
    if q: "q \<in> set p" "id_name (msg_agent (snd q)) \<in> {''Client'', ''Server''}" for q
  proof -
    obtain t where t: "analyze_message (id_name (msg_agent (snd q))) (snd q) = Some t"
      using analyzed_side [OF assms(1,2) q(1), of "id_name (msg_agent (snd q))"] q(2) by auto
    then obtain as where "parts_to_write_actions (msg_parts (snd q)) = Some as"
      by (auto simp: analyze_message_def analyze_write_message_def)
    with spec [OF that(1) this] plain_write_actions [OF this src(5) [OF that(1)]] show ?thesis by (simp add: write_info_spec_def)
  qed
  ultimately show ?thesis
    using protocol_messages [OF assms(1,2)] protocol_reads [OF assms(1,2)] protocol_writes [OF assms(1,2)]
    by (auto simp: plain_info_def protocol_info_def)
qed


section \<open>A run\<close>

definition generated_names :: "string \<Rightarrow> string list" where
  "generated_names library_name =
     [''data_types.hpp'', ''data_types.cpp'', ''states.hpp'', ''states.cpp'', ''parser.hpp'', ''parser.cpp'',
      ''serializer.hpp'', ''serializer.cpp'', ''state_machine.hpp'', ''state_machine.cpp'', ''runner.hpp'', ''runner.cpp'',
      ''protocol.hpp''] @ (if library_name = [] then [] else [''CMakeLists.txt''])"

lemma write_file_result:
  "gr_success (write_file outcome g f c r) \<longleftrightarrow> gr_success r \<and> outcome (path_join (cg_target_directory g) f) = Written"
  "outcome (path_join (cg_target_directory g) f) = Written \<Longrightarrow> gr_errors (write_file outcome g f c r) = gr_errors r"
  "outcome (path_join (cg_target_directory g) f) = Written \<Longrightarrow> map fst (gr_files (write_file outcome g f c r)) = map fst (gr_files r) @ [f]"
  by (simp_all add: write_file_def Let_def split: file_outcome.split)

lemma write_pair_result:
  "gr_success (write_pair outcome g f x r) \<longleftrightarrow> gr_success r \<and>
     outcome (path_join (cg_target_directory g) (f @ ''.hpp'')) = Written \<and>
     outcome (path_join (cg_target_directory g) (f @ ''.cpp'')) = Written"
  "outcome (path_join (cg_target_directory g) (f @ ''.hpp'')) = Written \<Longrightarrow>
     outcome (path_join (cg_target_directory g) (f @ ''.cpp'')) = Written \<Longrightarrow>
     gr_errors (write_pair outcome g f x r) = gr_errors r @ gen_errors x \<and>
     map fst (gr_files (write_pair outcome g f x r)) = map fst (gr_files r) @ [f @ ''.hpp'', f @ ''.cpp'']"
  by (auto simp: write_pair_def write_file_result)

lemma generators_without_errors:
  "gen_errors (generate_states ctx info) = []" "gen_errors (generate_parser ctx info) = []"
  "gen_errors (generate_serializer ctx info) = []" "gen_errors (generate_state_machine ctx info) = []"
  "gen_errors (generate_runner ctx info) = []"
  by (simp_all add: generate_states_def generate_parser_def generate_serializer_def generate_state_machine_def generate_runner_def Let_def)

text \<open>Which types have a C++ type: integers and strings, arrays of them, and tuples that are not empty.\<close>

fun mappable :: "ptype \<Rightarrow> bool" and mappable_parameter :: "type_parameter_value \<Rightarrow> bool" where
  "mappable (Type name params) \<longleftrightarrow>
     id_name name = ''int'' \<or> id_name name = ''str''
     \<or> id_name name = ''array'' \<and> (case map_of (map (\<lambda>(k, v). (k, case v of TypeValue t \<Rightarrow> mappable t | _ \<Rightarrow> False)) params) ''element_type'' of
         Some b \<Rightarrow> b | None \<Rightarrow> False)
     \<or> id_name name = ''tuple'' \<and> params \<noteq> [] \<and> (\<forall>(k, v) \<in> set params. mappable_parameter v)"
| "mappable_parameter (TypeValue t) \<longleftrightarrow> mappable t"
| "mappable_parameter v \<longleftrightarrow> True"

lemma type_to_cpp_mappable:
  "(\<exists>m. type_to_cpp t p = Some m) \<longleftrightarrow> mappable t"
  "(\<exists>r. map_tuple_fields ps n = Some r) \<longleftrightarrow> (\<forall>(k, v) \<in> set ps. mappable_parameter v)"
proof (induction t p and ps n rule: type_to_cpp_map_tuple_fields.induct)
  case (1 name params pre)
  consider "id_name name = ''int''" | "id_name name = ''str''" | "id_name name = ''array''" | "id_name name = ''tuple''"
    | "id_name name \<notin> {''int'', ''str'', ''array'', ''tuple''}" by blast
  then show ?case
  proof cases
    case 3
    with 1(1) show ?thesis
      by (auto simp: map_of_map split: option.split type_parameter_value.split)
  next
    case 4
    with 1(2) show ?thesis by (auto simp: Let_def split: option.split)
  qed (simp_all add: Let_def)
next
  case (3 k t ps n)
  then show ?case by (auto split: option.splits)
qed (auto split: option.splits)

definition unmapped_field :: "message_info \<Rightarrow> string \<Rightarrow> string" where
  "unmapped_field msg field_name =
     ''Failed to map type for field '' @ [CHR 0x27] @ field_name @ [CHR 0x27] @ '' in message '' @ [CHR 0x27] @ mi_name msg @ [CHR 0x27]"

lemma message_fields_errors:
  "snd (snd (message_fields msg d)) = map (\<lambda>(k, t). unmapped_field msg k) (filter (\<lambda>(k, t). \<not> mappable t) d)"
proof (induction msg d rule: message_fields.induct)
  case (2 msg k t d)
  obtain x f e where r: "message_fields msg d = (x, f, e)" by (cases "message_fields msg d")
  with 2 have "e = map (\<lambda>(k, t). unmapped_field msg k) (filter (\<lambda>(k, t). \<not> mappable t) d)" by simp
  then show ?case
    using type_to_cpp_mappable(1) [of t "mi_identifier msg @ ''_'' @ k"]
    by (auto simp: r unmapped_field_def split: option.split)
qed simp

lemma data_types_errors:
  "gen_errors (generate_data_types ctx info) =
     concat (map (\<lambda>msg. map (\<lambda>(k, t). unmapped_field msg k) (filter (\<lambda>(k, t). \<not> mappable t) (mi_data msg))) (pi_messages info))"
proof -
  have "snd (generate_struct msg) = map (\<lambda>(k, t). unmapped_field msg k) (filter (\<lambda>(k, t). \<not> mappable t) (mi_data msg))" for msg
    using message_fields_errors [of msg "mi_data msg"] by (simp add: generate_struct_def split_beta Let_def)
  then show ?thesis by (simp add: generate_data_types_def Let_def comp_def)
qed

lemma generate_run:
  "gr_success (generate directory_error outcome g) \<longleftrightarrow>
     directory_error = None \<and>
     (\<forall>f \<in> set (generated_names (cg_library_name g)). outcome (path_join (cg_target_directory g) f) = Written)"
  "gr_success (generate directory_error outcome g) \<Longrightarrow>
     map fst (gr_files (generate directory_error outcome g)) = generated_names (cg_library_name g) \<and>
     gr_errors (generate directory_error outcome g) =
       concat (map (\<lambda>msg. map (\<lambda>(k, t). unmapped_field msg k) (filter (\<lambda>(k, t). \<not> mappable t) (mi_data msg)))
         (pi_messages (cg_info g)))"
proof -
  show s: "gr_success (generate directory_error outcome g) \<longleftrightarrow>
     directory_error = None \<and>
     (\<forall>f \<in> set (generated_names (cg_library_name g)). outcome (path_join (cg_target_directory g) f) = Written)"
    by (auto simp: generate_def generated_names_def write_file_result write_pair_result Let_def split: option.split)
  assume "gr_success (generate directory_error outcome g)"
  with s have d: "directory_error = None"
    and w: "\<And>f. f \<in> set (generated_names (cg_library_name g)) \<Longrightarrow> outcome (path_join (cg_target_directory g) f) = Written"
    by blast+
  note w = w [unfolded generated_names_def, simplified]
  show "map fst (gr_files (generate directory_error outcome g)) = generated_names (cg_library_name g) \<and>
     gr_errors (generate directory_error outcome g) =
       concat (map (\<lambda>msg. map (\<lambda>(k, t). unmapped_field msg k) (filter (\<lambda>(k, t). \<not> mappable t) (mi_data msg)))
         (pi_messages (cg_info g)))"
    by (simp add: generate_def d Let_def write_file_result write_pair_result w generators_without_errors data_types_errors
        generated_names_def)
qed

text \<open>A run succeeds exactly when the directory and every file can be written. Then the files are
  the pairs of headers and sources in order, the main header, and for a named library its
  \<open>CMakeLists.txt\<close>; and the errors it reports are the fields whose type has no C++ type, which
  are left out of their structs without making the run fail.\<close>

theorem generate_result:
  "(gr_success (generate directory_error outcome g) \<longleftrightarrow>
     directory_error = None \<and>
     (\<forall>f \<in> set (generated_names (cg_library_name g)). outcome (path_join (cg_target_directory g) f) = Written))
   \<and> (gr_success (generate directory_error outcome g) \<longrightarrow>
     map fst (gr_files (generate directory_error outcome g)) = generated_names (cg_library_name g) \<and>
     gr_errors (generate directory_error outcome g) =
       concat (map (\<lambda>msg. map (\<lambda>(k, t). unmapped_field msg k) (filter (\<lambda>(k, t). \<not> mappable t) (mi_data msg)))
         (pi_messages (cg_info g))))"
  using generate_run by blast

section \<open>Witnesses\<close>

text \<open>One message from \<open>Open\<close> to \<open>Closed\<close>, sent by the client, with one field of type \<open>ty\<close>.\<close>

definition greeting :: "string \<Rightarrow> string \<Rightarrow> protocol_description" where
  "greeting n ty =
     [(n, \<lparr>msg_name = n, msg_when = IdentifierReference ''Open'' None, msg_then = IdentifierReference ''Closed'' None,
        msg_agent = IdentifierReference ''Client'' None,
        msg_data = [(''name'', Type (IdentifierReference ty None) [])],
        msg_parts = [PartTokens \<lparr>ts_tokens = [TokenString ''HELO '', TokenIdentifier (IdentifierReference ''name'' None)],
          ts_terminator = Some [CHR 0x0D, CHR 0x0A], ts_escape = None\<rparr>]\<rparr>)]"

definition greeting_reads :: "action list" where
  "greeting_reads = [ReadStaticOctets ''HELO '', ReadOctetsUntilTerminator [CHR 0x0D, CHR 0x0A] (IdentifierReference ''name'' None) None]"

definition greeting_writes :: "action list" where
  "greeting_writes = [WriteStaticOctets ''HELO '', WriteFromIdentifier (IdentifierReference ''name'' None) None,
     WriteStaticOctets [CHR 0x0D, CHR 0x0A]]"

definition greeting_agent :: "string \<Rightarrow> transition \<Rightarrow> agent" where
  "greeting_agent n t = \<lparr>ag_states = [(''Open'', [(n, t, ''Closed'')]), (''Closed'', [])]\<rparr>"

definition greeting_protocol :: "string \<Rightarrow> string \<Rightarrow> protocol" where
  "greeting_protocol n ty =
     (let d = [(''name'', Type (IdentifierReference ty None) [])] in
      \<lparr>pr_client = greeting_agent n (WriteTransition \<lparr>tr_data = d, tr_actions = greeting_writes\<rparr>),
       pr_server = greeting_agent n (ReadTransition \<lparr>tr_data = d, tr_actions = greeting_reads\<rparr>)\<rparr>)"

lemmas greeting_simps = greeting_def greeting_reads_def greeting_writes_def greeting_agent_def greeting_protocol_def Let_def

lemma analyze_greeting: "analyze (greeting n ty) = Some (greeting_protocol n ty)"
  by (simp add: greeting_simps analyze_def analyze_agent_def analyze_message_def analyze_write_message_def
      analyze_read_message_def write_tokens_def write_token_sequence_def escape_write_actions_def
      read_final_token_sequence_def process_token_sequence_def read_token_sequence_def escape_read_actions_def
      create_state_def add_transition_def)

lemma greeting_ordered: "ordered (greeting n ty)"
  by (simp add: greeting_def ordered_def)

lemma greeting_plain: "plain_source (greeting ''Hello'' ''str'')"
  by (simp add: greeting_def plain_source_def plain_data_def comment_safe_def)

theorem protocol_info_complete_witness:
  "pi_states (protocol_info (greeting_protocol ''Hello'' ''str'')) = [''Closed'', ''Open'']
   \<and> ti_agent (hd (pi_read_transitions (protocol_info (greeting_protocol ''Hello'' ''str'')))) = ''Server''"
proof -
  note c = protocol_info_complete [OF analyze_greeting greeting_ordered, of "''Hello''" "''str''"]
  have "pi_states (protocol_info (greeting_protocol ''Hello'' ''str'')) = [''Closed'', ''Open'']"
    by (rule sorted_distinct_set_unique) (use c in \<open>auto simp: strict_sorted_iff greeting_def\<close>)
  moreover have "set (pi_read_transitions (protocol_info (greeting_protocol ''Hello'' ''str''))) =
      {read_info_spec (hd (greeting ''Hello'' ''str''))}"
    using c by (simp add: greeting_def)
  then have "hd (pi_read_transitions (protocol_info (greeting_protocol ''Hello'' ''str''))) = read_info_spec (hd (greeting ''Hello'' ''str''))"
    by (metis empty_iff empty_set hd_in_set insert_not_empty singletonD)
  ultimately show ?thesis
    by (simp add: read_info_spec_def transition_info_spec_def reader_of_def greeting_def)
qed

definition greeting_run :: "string \<Rightarrow> string \<Rightarrow> cpp_generator" where
  "greeting_run n ty = \<lparr>cg_ctx = \<lparr>target_namespace = ''mail''\<rparr>, cg_info = protocol_info (greeting_protocol n ty),
     cg_target_directory = ''out'', cg_library_name = ''mail''\<rparr>"


theorem generate_result_witness:
  "gr_success (generate None (\<lambda>_. Written) (greeting_run ''Hello'' ''float''))
   \<and> gr_errors (generate None (\<lambda>_. Written) (greeting_run ''Hello'' ''float'')) =
      [unmapped_field (message_info_spec (hd (greeting ''Hello'' ''float''))) ''name'']"
proof -
  note r = generate_result [of None "\<lambda>_. Written" "greeting_run ''Hello'' ''float''"]
  have "collect_messages (greeting_protocol ''Hello'' ''float'') = [message_info_spec (hd (greeting ''Hello'' ''float''))]"
    by (simp add: greeting_simps collect_messages_def collect_infos_def agent_entries_def message_info_of_def
        message_info_spec_def transition_of_def)
  with r show ?thesis
    by (simp add: greeting_run_def protocol_info_def message_info_spec_def greeting_def)
qed

text \<open>A message name that ends its comment: the lexer lets it through, and the file it is written to is
  not well formed.\<close>

text \<open>A line break in the name of a message ends the comment the name is written in, and the
  rest of the name is code: the header of the parser is not balanced.\<close>

theorem message_name_leaves_comment:
  assumes "plain (target_namespace ctx)"
  shows "\<not> balanced (gen_header (generate_parser ctx (protocol_info (greeting_protocol ([CHR 0x0A] @ ''}'') ''str''))))"
proof -
  have g: "plain (header_guard ctx ''parser.hpp'')" by (rule plain_header_guard [OF assms]) simp
  have "collect_read_transitions (greeting_protocol ([CHR 0x0A] @ ''}'') ''str'') =
      [transition_info_spec ''Server'' greeting_reads (hd (greeting ([CHR 0x0A] @ ''}'') ''str''))]"
    by (simp add: greeting_simps collect_read_transitions_def collect_infos_def agent_entries_def transition_info_of_def
        transition_info_spec_def transition_of_def is_read_transition_def)
  with g assms show ?thesis
    by (simp add: generate_parser_def protocol_info_def file_simps generate_message_parser_header_def
        generate_parser_class_def generate_buffer_members_def transition_info_spec_def greeting_def greeting_reads_def
        message_name_to_identifier_def is_alnum_def is_upper_def is_lower_def is_decimal_def less_eq_char_def
        split: list.split)
qed

theorem message_name_leaves_comment_witness:
  "\<not> balanced (gen_header (generate_parser \<lparr>target_namespace = ''mail''\<rparr> (protocol_info (greeting_protocol ([CHR 0x0A] @ ''}'') ''str''))))"
  by (rule message_name_leaves_comment) simp

end
