(* ===== verification/GeneratedSerializer.thy ===== *)
theory GeneratedSerializer
  imports GenerateSerializer WriteOps IoProps
begin

text \<open>
  What the serializer of a message does when it runs: the methods that
  \<open>codegen/generate_serializer.cpp\<close> writes, and the loop of the \<open>send_\<close> methods of
  \<open>codegen/generate_state_machine.cpp\<close> over them. String literals stand for the octets they
  were written for (see \<open>escaped_literal_value\<close>). \<open>None\<close> is an expression that has no value:
  a member the data does not have, or one of the wrong type, for which the generated code does not
  compile, or an index out of range.
\<close>

section \<open>The data of a message\<close>

datatype field_value =
    TextField octets
  | NumberField int
  | ListField "(string \<Rightarrow> field_value option) list"

type_synonym message_values = "string \<Rightarrow> field_value option"

text \<open>\<open>std::to_string\<close>, initialising a string, and assigning to a string, where a number is taken
  for a character.\<close>

definition to_string :: "field_value \<Rightarrow> octets option" where
  "to_string v = (case v of NumberField n \<Rightarrow> Some (decimal_int n) | _ \<Rightarrow> None)"

definition init_string :: "field_value \<Rightarrow> octets option" where
  "init_string v = (case v of TextField s \<Rightarrow> Some s | _ \<Rightarrow> None)"

definition assign_string :: "field_value \<Rightarrow> octets option" where
  "assign_string v = (case v of TextField s \<Rightarrow> Some s | NumberField n \<Rightarrow> Some [char_of (nat (n mod 256))] | ListField xs \<Rightarrow> None)"

section \<open>Escapes\<close>

text \<open>The loop of \<open>generate_escape_replacement_code\<close>. An empty escape character is found at the same
  position for ever.\<close>

partial_function (option) replace_escapes :: "octets \<Rightarrow> octets \<Rightarrow> octets \<Rightarrow> nat \<Rightarrow> octets \<Rightarrow> octets option" where
  "replace_escapes esc_char esc_seq temp pos result =
     (if pos < length temp then
        (if pos + length esc_char \<le> length temp \<and> prefix esc_char (drop pos temp)
         then replace_escapes esc_char esc_seq temp (pos + length esc_char) (result @ esc_seq)
         else replace_escapes esc_char esc_seq temp (pos + 1) (result @ [temp ! pos]))
      else Some result)"

definition escaped_chunk :: "escape_info \<Rightarrow> octets \<Rightarrow> octets option" where
  "escaped_chunk e temp = replace_escapes (ei_character e) (ei_sequence e) temp 0 []"

text \<open>The chunk of an expression with the value \<open>v\<close>, with and without an escape; \<open>numeric\<close> when the
  expression goes through \<open>std::to_string\<close>.\<close>

definition expression_chunk :: "bool \<Rightarrow> escape_info option \<Rightarrow> field_value \<Rightarrow> octets option" where
  "expression_chunk numeric escape v =
     (case escape of
        Some e \<Rightarrow> Option.bind (if numeric then to_string v else init_string v) (escaped_chunk e)
      | None \<Rightarrow> (if numeric then to_string v else assign_string v))"

text \<open>A literal is assigned as a C string.\<close>

definition literal_chunk :: "octets \<Rightarrow> octets" where
  "literal_chunk s = c_str s"

section \<open>The state of a serializer\<close>

record serializer =
  sz_data :: message_values
  sz_complete :: bool
  sz_has_data :: bool
  sz_stage :: nat
  sz_loop_index :: nat
  sz_loop_stage :: nat
  sz_chunk :: octets

definition init_serializer :: serializer where
  "init_serializer = \<lparr>sz_data = Map.empty, sz_complete = True, sz_has_data = False, sz_stage = 0,
     sz_loop_index = 0, sz_loop_stage = 0, sz_chunk = []\<rparr>"

definition set_data :: "message_values \<Rightarrow> serializer \<Rightarrow> serializer" where
  "set_data d s = s\<lparr>sz_data := d, sz_has_data := True, sz_complete := False, sz_stage := 0,
     sz_loop_index := 0, sz_loop_stage := 0\<rparr>"

definition serializer_reset :: "serializer \<Rightarrow> serializer" where
  "serializer_reset s = init_serializer"

section \<open>\<open>next_chunk\<close>\<close>

text \<open>A field, or a member of the current element of an array.\<close>

definition element_value :: "serializer \<Rightarrow> string \<Rightarrow> string \<Rightarrow> field_value option" where
  "element_value s array_name member_name =
     (case sz_data s array_name of
        Some (ListField xs) \<Rightarrow> if sz_loop_index s < length xs then (xs ! sz_loop_index s) member_name else None
      | _ \<Rightarrow> None)"

definition identifier_chunk :: "transition_info \<Rightarrow> serializer \<Rightarrow> identifier_reference \<Rightarrow> escape_info option \<Rightarrow> octets option" where
  "identifier_chunk wt s i escape =
     (let field = id_name i in
      case split_dot field of
        Some (array_name, member_name) \<Rightarrow>
          Option.bind (element_value s array_name member_name) (expression_chunk False escape)
      | None \<Rightarrow> Option.bind (sz_data s field) (expression_chunk (is_numeric_field (ti_data wt) field) escape))"

text \<open>Inside a loop numbers are not converted. The code of a nested loop is empty, so its case falls
  through to the next one; \<open>Some None\<close> is the default of the inner switch.\<close>

fun loop_chunk :: "serializer \<Rightarrow> string \<Rightarrow> action list \<Rightarrow> octets option option" where
  "loop_chunk s array_field [] = Some None"
| "loop_chunk s array_field (WriteStaticOctets octets # as) = Some (Some (literal_chunk octets))"
| "loop_chunk s array_field (WriteFromIdentifier i escape # as) =
     map_option Some
       (Option.bind
         (case split_dot (id_name i) of
            Some (array_name, member_name) \<Rightarrow> element_value s array_field member_name
          | None \<Rightarrow> sz_data s (id_name i))
         (expression_chunk False escape))"
| "loop_chunk s array_field (a # as) = loop_chunk s array_field as"

definition loop_size :: "serializer \<Rightarrow> string \<Rightarrow> nat" where
  "loop_size s array_field = (case sz_data s array_field of Some (ListField xs) \<Rightarrow> length xs | _ \<Rightarrow> 0)"

definition remaining_elements :: "transition_info \<Rightarrow> serializer \<Rightarrow> nat" where
  "remaining_elements wt s =
     (if sz_stage s < length (ti_actions wt) then
        (case ti_actions wt ! sz_stage s of
           Loop v c t as \<Rightarrow> loop_size s (id_name c) - sz_loop_index s
         | _ \<Rightarrow> 0)
      else 0)"

text \<open>Actions of the reading side are not among those of a write transition.\<close>

function next_chunk :: "transition_info \<Rightarrow> serializer \<Rightarrow> (octets \<times> serializer) option" where
  "next_chunk wt s =
     (if sz_complete s \<or> \<not> sz_has_data s then Some ([], s)
      else if sz_stage s < length (ti_actions wt) then
        (case ti_actions wt ! sz_stage s of
           WriteStaticOctets octets \<Rightarrow> let b = literal_chunk octets in Some (b, s\<lparr>sz_chunk := b\<rparr>)
         | WriteFromIdentifier i escape \<Rightarrow> map_option (\<lambda>b. (b, s\<lparr>sz_chunk := b\<rparr>)) (identifier_chunk wt s i escape)
         | Loop v c t as \<Rightarrow>
             (case sz_data s (id_name c) of
                Some (ListField xs) \<Rightarrow>
                  (if length xs \<le> sz_loop_index s
                   then next_chunk wt (s\<lparr>sz_chunk := [], sz_loop_index := 0, sz_loop_stage := 0, sz_stage := sz_stage s + 1\<rparr>)
                   else
                     (case loop_chunk s (id_name c) (drop (sz_loop_stage s) as) of
                        None \<Rightarrow> None
                      | Some (Some b) \<Rightarrow> Some (b, s\<lparr>sz_chunk := b\<rparr>)
                      | Some None \<Rightarrow> next_chunk wt (s\<lparr>sz_chunk := [], sz_loop_index := sz_loop_index s + 1, sz_loop_stage := 0\<rparr>)))
              | _ \<Rightarrow> None)
         | _ \<Rightarrow> None)
      else Some ([], s\<lparr>sz_chunk := [], sz_complete := True\<rparr>))"
  by pat_completeness auto

termination
  by (relation "measures [\<lambda>(wt, s). length (ti_actions wt) - sz_stage s, \<lambda>(wt, s). remaining_elements wt s]")
    (auto simp: remaining_elements_def loop_size_def)

declare next_chunk.simps [simp del]

section \<open>\<open>advance\<close> and sending\<close>

definition serializer_advance :: "transition_info \<Rightarrow> serializer \<Rightarrow> serializer" where
  "serializer_advance wt s =
     (if sz_complete s then s
      else
        (let default = (let s = s\<lparr>sz_stage := sz_stage s + 1\<rparr> in
               if length (ti_actions wt) \<le> sz_stage s then s\<lparr>sz_complete := True\<rparr> else s) in
         if sz_stage s < length (ti_actions wt) then
           (case ti_actions wt ! sz_stage s of
              Loop v c t as \<Rightarrow>
                (let s = s\<lparr>sz_loop_stage := sz_loop_stage s + 1\<rparr> in
                 if length as \<le> sz_loop_stage s then s\<lparr>sz_loop_index := sz_loop_index s + 1, sz_loop_stage := 0\<rparr> else s)
            | _ \<Rightarrow> default)
         else default))"

text \<open>The loop of a \<open>send_\<close> method, which appends to the output buffer.\<close>

partial_function (option) send_loop :: "transition_info \<Rightarrow> serializer \<Rightarrow> octets \<Rightarrow> (octets \<times> serializer) option" where
  "send_loop wt s output =
     (if sz_complete s then Some (output, s)
      else
        (case next_chunk wt s of
           None \<Rightarrow> None
         | Some (chunk, s') \<Rightarrow>
             if chunk = [] then Some (output, s')
             else send_loop wt (serializer_advance wt s') (output @ chunk)))"

definition send_message :: "transition_info \<Rightarrow> message_values \<Rightarrow> serializer \<Rightarrow> octets \<Rightarrow> (octets \<times> serializer) option" where
  "send_message wt d s output = send_loop wt (set_data d s) output"

end
