(* ===== verification/SerializerTheorems.thy ===== *)
theory SerializerTheorems
  imports GeneratedSerializer
begin

text \<open>
  The generated serializer against the operations of the interpreter: both put the same octets
  on the wire, as long as no chunk is empty.
\<close>

section \<open>Escapes\<close>

lemma escapes_Cons:
  assumes "escapes esc_char esc_seq p w" and "esc_char \<noteq> []" and "\<not> prefix esc_char (c # p)"
  shows "escapes esc_char esc_seq (c # p) (c # w)"
  using assms(1)
proof cases
  case escapes_last
  with assms(3) show ?thesis by (auto intro: escapes.escapes_last)
next
  case escapes_empty
  with assms(2,3) show ?thesis by (auto intro: escapes.escapes_last)
next
  case (escapes_char i v)
  have "find_sub esc_char (c # p) = Some (Suc i)" using assms(3) escapes_char by simp
  from escapes.escapes_char [OF this, of esc_seq v] escapes_char show ?thesis by simp
qed

lemma replace_escapes_Some:
  assumes "esc_char \<noteq> []" and "pos \<le> length temp"
  shows "\<exists>w. replace_escapes esc_char esc_seq temp pos result = Some (result @ w)
    \<and> escapes esc_char esc_seq (drop pos temp) w"
  using assms(2)
proof (induction "length temp - pos" arbitrary: pos result rule: less_induct)
  case less
  show ?case
  proof (cases "pos < length temp")
    case False
    then show ?thesis by (subst replace_escapes.simps) (auto intro: escapes_empty)
  next
    case True
    show ?thesis
    proof (cases "prefix esc_char (drop pos temp)")
      case True
      then have l: "pos + length esc_char \<le> length temp" using prefix_length_le [OF True] less.prems by simp
      have "length temp - (pos + length esc_char) < length temp - pos"
        using assms(1) \<open>pos < length temp\<close> by (cases esc_char) auto
      from less.hyps [OF this l, of "result @ esc_seq"] obtain w where
        w: "replace_escapes esc_char esc_seq temp (pos + length esc_char) (result @ esc_seq) = Some ((result @ esc_seq) @ w)"
           "escapes esc_char esc_seq (drop (pos + length esc_char) temp) w" by blast
      from True \<open>pos < length temp\<close> have "escapes esc_char esc_seq (drop pos temp) (take 0 (drop pos temp) @ esc_seq @ w)"
        by (intro escapes_char) (use w(2) in \<open>simp_all add: find_sub_prefix add.commute\<close>)
      with w(1) True l \<open>pos < length temp\<close> show ?thesis by (subst replace_escapes.simps) simp
    next
      case False
      have d: "drop pos temp = temp ! pos # drop (Suc pos) temp" using \<open>pos < length temp\<close> by (rule Cons_nth_drop_Suc [symmetric])
      have l: "length temp - Suc pos < length temp - pos" "Suc pos \<le> length temp" using \<open>pos < length temp\<close> by simp_all
      from less.hyps [OF l, of "result @ [temp ! pos]"] obtain w where
        w: "replace_escapes esc_char esc_seq temp (Suc pos) (result @ [temp ! pos]) = Some ((result @ [temp ! pos]) @ w)"
           "escapes esc_char esc_seq (drop (Suc pos) temp) w" by blast
      from escapes_Cons [OF w(2) assms(1)] False d have "escapes esc_char esc_seq (drop pos temp) (temp ! pos # w)" by simp
      with w(1) False \<open>pos < length temp\<close> show ?thesis by (subst replace_escapes.simps) simp
    qed
  qed
qed

lemma escapes_unique:
  "escapes esc_char esc_seq p w \<Longrightarrow> esc_char \<noteq> [] \<Longrightarrow> escapes esc_char esc_seq p w' \<Longrightarrow> w = w'"
proof (induction arbitrary: w' rule: escapes.induct)
  case (escapes_last p)
  from escapes_last(3) show ?case by cases (use escapes_last(1) in simp_all)
next
  case escapes_empty
  from escapes_empty(2) show ?case by cases simp_all
next
  case (escapes_char p i w)
  from escapes_char.prems(2) show ?case
  proof cases
    case (escapes_char j v)
    with \<open>find_sub esc_char p = Some i\<close> escapes_char.IH [OF escapes_char.prems(1), of v] show ?thesis by simp
  qed (use \<open>find_sub esc_char p = Some i\<close> \<open>p \<noteq> []\<close> in simp_all)
qed

lemma escaped_chunk_spec:
  assumes "ei_character e \<noteq> []"
  shows "\<exists>w. escaped_chunk e s = Some w \<and> escapes (ei_character e) (ei_sequence e) s w
    \<and> apply_escape_replacement s (ei_character e) (ei_sequence e) = Inr w"
proof -
  obtain w where w: "escaped_chunk e s = Some w" "escapes (ei_character e) (ei_sequence e) s w"
    using replace_escapes_Some [OF assms, of 0 s "ei_sequence e" "[]"] by (auto simp: escaped_chunk_def)
  obtain w' where w': "apply_escape_replacement s (ei_character e) (ei_sequence e) = Inr w'"
      "escapes (ei_character e) (ei_sequence e) s w'"
    using apply_escape_replacement_escapes [OF assms, of s "ei_sequence e"] by blast
  from escapes_unique [OF w(2) assms w'(2)] w w' show ?thesis by blast
qed

section \<open>Sending\<close>

text \<open>The chunk of an action outside a loop.\<close>

definition action_chunk :: "transition_info \<Rightarrow> message_values \<Rightarrow> action \<Rightarrow> octets option" where
  "action_chunk wt d a =
     (case a of
        WriteStaticOctets octets \<Rightarrow> Some (literal_chunk octets)
      | WriteFromIdentifier i escape \<Rightarrow> identifier_chunk wt (set_data d init_serializer) i escape
      | _ \<Rightarrow> None)"

text \<open>A serializer that has sent the first actions of its message.\<close>

definition at_stage :: "message_values \<Rightarrow> nat \<Rightarrow> serializer \<Rightarrow> bool" where
  "at_stage d k s \<longleftrightarrow> sz_data s = d \<and> sz_has_data s \<and> \<not> sz_complete s \<and> sz_stage s = k \<and> sz_loop_index s = 0"

lemma identifier_chunk_stage: "at_stage d k s \<Longrightarrow> identifier_chunk wt s i e = identifier_chunk wt (set_data d init_serializer) i e"
proof -
  assume s: "at_stage d k s"
  then have "element_value s a m = element_value (set_data d init_serializer) a m" for a m
    by (simp add: element_value_def at_stage_def set_data_def init_serializer_def split: option.split field_value.split)
  with s show ?thesis by (simp add: identifier_chunk_def at_stage_def set_data_def Let_def split: option.split)
qed

lemma next_chunk_stage:
  assumes "at_stage d k s" and "k < length (ti_actions wt)" and "action_chunk wt d (ti_actions wt ! k) = Some b"
  shows "next_chunk wt s = Some (b, s\<lparr>sz_chunk := b\<rparr>)"
  using assms identifier_chunk_stage [OF assms(1)]
  by (subst next_chunk.simps) (auto simp: at_stage_def action_chunk_def Let_def split: action.splits)

lemma advance_stage:
  assumes "at_stage d k s" and "k < length (ti_actions wt)" and "action_chunk wt d (ti_actions wt ! k) = Some b"
  shows "if Suc k < length (ti_actions wt) then at_stage d (Suc k) (serializer_advance wt s)
    else sz_complete (serializer_advance wt s)"
  using assms by (auto simp: serializer_advance_def at_stage_def action_chunk_def Let_def split: action.splits)

lemma at_stage_chunk [simp]: "at_stage d k (s\<lparr>sz_chunk := b\<rparr>) \<longleftrightarrow> at_stage d k s"
  by (simp add: at_stage_def)

lemma send_loop_complete: "sz_complete s \<Longrightarrow> send_loop wt s out = Some (out, s)"
  by (subst send_loop.simps) simp

lemma send_loop_stages:
  assumes "at_stage d k s" and "k \<le> length (ti_actions wt)"
    and "\<forall>a \<in> set (drop k (ti_actions wt)). action_chunk wt d a \<noteq> None"
  shows "\<exists>s'. send_loop wt s out = Some (out @ concat (takeWhile (\<lambda>b. b \<noteq> [])
    (map (\<lambda>a. the (action_chunk wt d a)) (drop k (ti_actions wt)))), s')"
  using assms
proof (induction "length (ti_actions wt) - k" arbitrary: k s out)
  case 0
  then have "next_chunk wt s = Some ([], s\<lparr>sz_chunk := [], sz_complete := True\<rparr>)"
    by (subst next_chunk.simps) (simp add: at_stage_def)
  moreover have "\<not> sz_complete s" using 0 by (simp add: at_stage_def)
  ultimately show ?case using 0 by (subst send_loop.simps) simp
next
  case (Suc n)
  from Suc(2) have k: "k < length (ti_actions wt)" by simp
  let ?a = "ti_actions wt ! k"
  have d: "drop k (ti_actions wt) = ?a # drop (Suc k) (ti_actions wt)" using k by (rule Cons_nth_drop_Suc [symmetric])
  with Suc(5) obtain b where b: "action_chunk wt d ?a = Some b" by auto
  note n = next_chunk_stage [OF Suc(3) k b]
  have u: "\<not> sz_complete s" using Suc(3) by (simp add: at_stage_def)
  show ?case
  proof (cases "b = []")
    case True
    with n u b show ?thesis by (subst send_loop.simps) (simp add: d)
  next
    case False
    let ?s = "serializer_advance wt (s\<lparr>sz_chunk := b\<rparr>)"
    have step: "send_loop wt s out = send_loop wt ?s (out @ b)" using n u False by (subst send_loop.simps) simp
    have adv: "if Suc k < length (ti_actions wt) then at_stage d (Suc k) ?s else sz_complete ?s"
      by (rule advance_stage [OF _ k b]) (use Suc(3) in simp)
    show ?thesis
    proof (cases "Suc k < length (ti_actions wt)")
      case True
      with adv have "at_stage d (Suc k) ?s" by simp
      from Suc(1) [OF _ this, of "out @ b"] Suc(2,5) True step b False show ?thesis by (simp add: d)
    next
      case last: False
      with adv have "sz_complete ?s" by simp
      with last k step b False show ?thesis by (simp add: d send_loop_complete)
    qed
  qed
qed

lemma send_message_chunks:
  assumes "\<forall>a \<in> set (ti_actions wt). action_chunk wt d a \<noteq> None"
  shows "map_option fst (send_message wt d s out) =
    Some (out @ concat (takeWhile (\<lambda>b. b \<noteq> []) (map (\<lambda>a. the (action_chunk wt d a)) (ti_actions wt))))"
proof -
  have "at_stage d 0 (set_data d s)" by (simp add: at_stage_def set_data_def)
  from send_loop_stages [OF this, of wt out] assms show ?thesis by (auto simp: send_message_def)
qed

section \<open>What the interpreter writes\<close>

text \<open>The octets the operations of an action write: \<open>WriteStaticOctets\<close> its octets, and
  \<open>WriteOctets\<close> and \<open>WriteOctetsWithEscape\<close> the text of the field.\<close>

definition wire_octets :: "transition_info \<Rightarrow> message_values \<Rightarrow> action \<Rightarrow> octets option" where
  "wire_octets wt d a =
     (case a of
        WriteStaticOctets octets \<Rightarrow> Some octets
      | WriteFromIdentifier i escape \<Rightarrow>
          Option.bind (d (id_name i)) (\<lambda>v.
            Option.bind (if is_numeric_field (ti_data wt) (id_name i) then to_string v else init_string v) (\<lambda>s.
              case escape of
                None \<Rightarrow> Some s
              | Some e \<Rightarrow>
                  (case apply_escape_replacement s (ei_character e) (ei_sequence e) of Inr w \<Rightarrow> Some w | Inl _ \<Rightarrow> None)))
      | _ \<Rightarrow> None)"

text \<open>What keeps the two apart: a dot in a name, an empty escape character, an octet that ends a C
  string.\<close>

definition plain_write :: "action \<Rightarrow> bool" where
  "plain_write a \<longleftrightarrow>
     (case a of
        WriteStaticOctets octets \<Rightarrow> CHR 0x00 \<notin> set octets
      | WriteFromIdentifier i escape \<Rightarrow> split_dot (id_name i) = None \<and> (\<forall>e. escape = Some e \<longrightarrow> ei_character e \<noteq> [])
      | _ \<Rightarrow> True)"

lemma literal_chunk_id: "CHR 0x00 \<notin> set s \<Longrightarrow> literal_chunk s = s"
  by (auto simp: literal_chunk_def c_str_def takeWhile_eq_all_conv)

lemma action_chunk_wire:
  assumes "plain_write a" and "wire_octets wt d a = Some b"
  shows "action_chunk wt d a = Some b"
proof (cases a)
  case (WriteStaticOctets octets)
  with assms show ?thesis by (simp add: plain_write_def wire_octets_def action_chunk_def literal_chunk_id)
next
  case (WriteFromIdentifier i escape)
  with assms(2) obtain v s where v: "d (id_name i) = Some v"
      "(if is_numeric_field (ti_data wt) (id_name i) then to_string v else init_string v) = Some s"
      "(case escape of None \<Rightarrow> Some s | Some e \<Rightarrow>
         (case apply_escape_replacement s (ei_character e) (ei_sequence e) of Inr w \<Rightarrow> Some w | Inl _ \<Rightarrow> None)) = Some b"
    by (auto simp: wire_octets_def Option.bind_eq_Some_conv)
  have c: "action_chunk wt d a = expression_chunk (is_numeric_field (ti_data wt) (id_name i)) escape v"
    using assms(1) v(1) WriteFromIdentifier
    by (simp add: action_chunk_def identifier_chunk_def plain_write_def set_data_def)
  show ?thesis
  proof (cases escape)
    case None
    have "init_string v = Some s \<Longrightarrow> assign_string v = Some s"
      by (auto simp: init_string_def assign_string_def split: field_value.splits)
    with v(2,3) None show ?thesis unfolding c by (auto simp: expression_chunk_def split: if_splits)
  next
    case (Some e)
    with assms(1) WriteFromIdentifier have "ei_character e \<noteq> []" by (simp add: plain_write_def)
    from escaped_chunk_spec [OF this, of s] v(2,3) Some show ?thesis
      unfolding c by (auto simp: expression_chunk_def split: if_splits)
  qed
qed (use assms(2) in \<open>simp_all add: wire_octets_def\<close>)

lemma send_message_wire:
  assumes "\<forall>a \<in> set (ti_actions wt). plain_write a \<and> (\<exists>b. wire_octets wt d a = Some b \<and> b \<noteq> [])"
  shows "map_option fst (send_message wt d s out) =
    Some (out @ concat (map (\<lambda>a. the (wire_octets wt d a)) (ti_actions wt)))"
proof -
  have c: "action_chunk wt d a = wire_octets wt d a \<and> the (wire_octets wt d a) \<noteq> []" if "a \<in> set (ti_actions wt)" for a
    using assms that action_chunk_wire by fastforce
  then have "\<forall>a \<in> set (ti_actions wt). action_chunk wt d a \<noteq> None" using assms by fastforce
  note m = send_message_chunks [OF this, of s out]
  have e: "map (\<lambda>a. the (action_chunk wt d a)) (ti_actions wt) = map (\<lambda>a. the (wire_octets wt d a)) (ti_actions wt)"
    using c by simp
  have t: "takeWhile (\<lambda>b. b \<noteq> []) (map (\<lambda>a. the (wire_octets wt d a)) (ti_actions wt)) = map (\<lambda>a. the (wire_octets wt d a)) (ti_actions wt)"
    using c by (simp add: takeWhile_eq_all_conv)
  show ?thesis unfolding m e t ..
qed

end
