(* ===== verification/GeneratedParser.thy ===== *)
theory GeneratedParser
  imports GenerateDispatch ReadOps IoProps
begin

text \<open>
  What the parser of a message does when it runs: the methods that
  \<open>codegen/generate_parser.cpp\<close> writes for a message. String literals stand for the octets they
  were written for. The members of the class that belong to fields and loops are maps from their
  names.
\<close>

section \<open>The state of a parser\<close>

datatype parse_status = NeedMoreData | Complete | ParseError

record message_parser =
  mp_complete :: bool
  mp_eof_received :: bool
  mp_stage :: nat
  mp_buffers :: "string \<Rightarrow> octets"
  mp_lists :: "string \<Rightarrow> (string \<times> octets) list list"
  mp_loop_stage :: "string \<Rightarrow> nat"
  mp_loop_buffers :: "string \<times> string \<Rightarrow> octets"

definition init_parser :: message_parser where
  "init_parser = \<lparr>mp_complete = False, mp_eof_received = False, mp_stage = 0, mp_buffers = (\<lambda>_. []),
     mp_lists = (\<lambda>_. []), mp_loop_stage = (\<lambda>_. 0), mp_loop_buffers = (\<lambda>_. [])\<rparr>"

definition parser_reset :: "message_parser \<Rightarrow> message_parser" where
  "parser_reset p = init_parser"

definition parser_on_eof :: "message_parser \<Rightarrow> message_parser" where
  "parser_on_eof p = p\<lparr>mp_eof_received := True\<rparr>"

text \<open>A run of \<open>parse\<close>: the parser, what is left of \<open>input\<close>, and \<open>total_consumed\<close>.\<close>

record parse_run =
  pr_parser :: message_parser
  pr_input :: octets
  pr_consumed :: nat

definition remove_prefix :: "nat \<Rightarrow> parse_run \<Rightarrow> parse_run" where
  "remove_prefix n r = r\<lparr>pr_input := drop n (pr_input r), pr_consumed := pr_consumed r + n\<rparr>"

definition append_buffer :: "string \<Rightarrow> octets \<Rightarrow> parse_run \<Rightarrow> parse_run" where
  "append_buffer field s r =
     r\<lparr>pr_parser := (pr_parser r)\<lparr>mp_buffers := (mp_buffers (pr_parser r))(field := mp_buffers (pr_parser r) field @ s)\<rparr>\<rparr>"

definition append_loop_buffer :: "string \<Rightarrow> string \<Rightarrow> octets \<Rightarrow> parse_run \<Rightarrow> parse_run" where
  "append_loop_buffer collection field s r =
     r\<lparr>pr_parser := (pr_parser r)\<lparr>mp_loop_buffers :=
        (mp_loop_buffers (pr_parser r))((collection, field) := mp_loop_buffers (pr_parser r) (collection, field) @ s)\<rparr>\<rparr>"

definition next_stage :: "parse_run \<Rightarrow> parse_run" where
  "next_stage r = r\<lparr>pr_parser := (pr_parser r)\<lparr>mp_stage := mp_stage (pr_parser r) + 1\<rparr>\<rparr>"

definition next_loop_stage :: "string \<Rightarrow> parse_run \<Rightarrow> parse_run" where
  "next_loop_stage collection r =
     r\<lparr>pr_parser := (pr_parser r)\<lparr>mp_loop_stage :=
        (mp_loop_stage (pr_parser r))(collection := mp_loop_stage (pr_parser r) collection + 1)\<rparr>\<rparr>"

section \<open>Searching\<close>

text \<open>The search of \<open>generate_search_plain\<close> and of the inner case of a loop.\<close>

function search :: "octets \<Rightarrow> octets \<Rightarrow> nat \<Rightarrow> nat option" where
  "search terminator input pos =
     (if pos + length terminator \<le> length input then
        (if prefix terminator (drop pos input) then Some pos
         else if pos < length input then search terminator input (pos + 1) else None)
      else None)"
  by pat_completeness auto

termination by (relation "measure (\<lambda>(terminator, input, pos). length input - pos)") auto

declare search.simps [simp del]

text \<open>The search of \<open>generate_search_escaped\<close>; an empty escape sequence is found for ever.\<close>

partial_function (option) search_escaped ::
  "octets \<Rightarrow> escape_info \<Rightarrow> string \<Rightarrow> parse_run \<Rightarrow> nat \<Rightarrow> (nat option \<times> parse_run) option" where
  "search_escaped terminator e field r pos =
     (if pos + length terminator \<le> length (pr_input r) then
        (if pos + length (ei_sequence e) \<le> length (pr_input r) \<and> prefix (ei_sequence e) (drop pos (pr_input r)) then
           search_escaped terminator e field
             (remove_prefix (pos + length (ei_sequence e))
               (append_buffer field (ei_character e) (append_buffer field (take pos (pr_input r)) r))) 0
         else if prefix terminator (drop pos (pr_input r)) then Some (Some pos, r)
         else search_escaped terminator e field r (pos + 1))
      else Some (None, r))"

section \<open>The cases of the switch\<close>

text \<open>A case either leaves the switch, or returns a status.\<close>

type_synonym case_result = "parse_status option \<times> parse_run"

definition parse_static :: "octets \<Rightarrow> (parse_run \<Rightarrow> parse_run) \<Rightarrow> parse_run \<Rightarrow> case_result" where
  "parse_static octets advance r =
     (if length (pr_input r) < length octets then (Some NeedMoreData, r)
      else if \<not> prefix octets (pr_input r) then (Some ParseError, r)
      else (None, advance (remove_prefix (length octets) r)))"

definition parse_found ::
  "octets \<Rightarrow> (octets \<Rightarrow> parse_run \<Rightarrow> parse_run) \<Rightarrow> (parse_run \<Rightarrow> parse_run) \<Rightarrow> nat option \<times> parse_run \<Rightarrow> case_result" where
  "parse_found terminator store advance x =
     (case x of
        (Some pos, r) \<Rightarrow> (None, advance (remove_prefix (pos + length terminator) (store (take pos (pr_input r)) r)))
      | (None, r) \<Rightarrow>
          (Some NeedMoreData,
           (store (pr_input r) r)\<lparr>pr_consumed := pr_consumed r + length (pr_input r)\<rparr>))"

definition parse_until :: "octets \<Rightarrow> string \<Rightarrow> escape_info option \<Rightarrow> parse_run \<Rightarrow> case_result option" where
  "parse_until terminator field escape r =
     map_option (parse_found terminator (append_buffer field) next_stage)
       (case escape of
          None \<Rightarrow> Some (search terminator (pr_input r) 0, r)
        | Some e \<Rightarrow> search_escaped terminator e field r 0)"

text \<open>The inner switch of a loop. The code of a nested loop is empty and falls through; the default
  adds the element.\<close>

definition add_element :: "string \<Rightarrow> action list \<Rightarrow> parse_run \<Rightarrow> parse_run" where
  "add_element collection actions r =
     (let p = pr_parser r;
          fields = inner_identifiers actions;
          elem = map (\<lambda>i. (i, mp_loop_buffers p (collection, i))) fields in
      r\<lparr>pr_parser := p\<lparr>
          mp_lists := (mp_lists p)(collection := mp_lists p collection @ [elem]),
          mp_loop_buffers := (\<lambda>(c, i). if c = collection \<and> i \<in> set fields then [] else mp_loop_buffers p (c, i)),
          mp_loop_stage := (mp_loop_stage p)(collection := 0)\<rparr>\<rparr>)"

fun parse_inner :: "string \<Rightarrow> action list \<Rightarrow> action list \<Rightarrow> parse_run \<Rightarrow> case_result" where
  "parse_inner collection actions [] r = (None, add_element collection actions r)"
| "parse_inner collection actions (ReadStaticOctets octets # as) r = parse_static octets (next_loop_stage collection) r"
| "parse_inner collection actions (ReadOctetsUntilTerminator terminator i escape # as) r =
     parse_found terminator (append_loop_buffer collection (id_name i)) (next_loop_stage collection)
       (search terminator (pr_input r) 0, r)"
| "parse_inner collection actions (a # as) r = parse_inner collection actions as r"

definition parse_loop_action :: "string \<Rightarrow> octets \<Rightarrow> action list \<Rightarrow> parse_run \<Rightarrow> case_result" where
  "parse_loop_action collection terminator actions r =
     (if prefix terminator (pr_input r) then (None, next_stage (remove_prefix (length terminator) r))
      else if pr_input r = [] then (Some NeedMoreData, r)
      else parse_inner collection actions (drop (mp_loop_stage (pr_parser r) collection) actions) r)"

text \<open>Actions of the writing side are not among those of a read transition.\<close>

definition parse_action :: "action \<Rightarrow> parse_run \<Rightarrow> case_result option" where
  "parse_action a r =
     (case a of
        ReadStaticOctets octets \<Rightarrow> Some (parse_static octets next_stage r)
      | ReadOctetsUntilTerminator terminator i escape \<Rightarrow> parse_until terminator (id_name i) escape r
      | Loop v c terminator actions \<Rightarrow> Some (parse_loop_action (id_name c) terminator actions r)
      | _ \<Rightarrow> None)"

section \<open>\<open>parse\<close>\<close>

partial_function (option) parse_stages :: "action list \<Rightarrow> parse_run \<Rightarrow> (parse_status \<times> parse_run) option" where
  "parse_stages actions r =
     (if mp_complete (pr_parser r) then Some (Complete, r)
      else if mp_stage (pr_parser r) < length actions then
        (case parse_action (actions ! mp_stage (pr_parser r)) r of
           None \<Rightarrow> None
         | Some (Some status, r') \<Rightarrow> Some (status, r')
         | Some (None, r') \<Rightarrow> parse_stages actions r')
      else parse_stages actions (r\<lparr>pr_parser := (pr_parser r)\<lparr>mp_complete := True\<rparr>\<rparr>))"

definition message_parse :: "transition_info \<Rightarrow> message_parser \<Rightarrow> octets \<Rightarrow> (parse_status \<times> nat \<times> message_parser) option" where
  "message_parse rt p input =
     map_option (\<lambda>(status, r). (status, pr_consumed r, pr_parser r))
       (parse_stages (ti_actions rt) \<lparr>pr_parser = p, pr_input = input, pr_consumed = 0\<rparr>)"

section \<open>\<open>take_data\<close>\<close>

text \<open>\<open>std::stoul\<close> and \<open>std::stol\<close> on a 64-bit platform throw when there is no number, or one out of
  range; the cast then keeps the low bits. \<open>stoul\<close> negates modulo \<open>2 ^ 64\<close>.\<close>

datatype conversion_error = InvalidArgument | OutOfRange

definition number_text :: "octets \<Rightarrow> bool \<times> octets" where
  "number_text str =
     (let s = dropWhile is_space (c_str str);
          (neg, body) = (case s of
             c # t \<Rightarrow> if c = CHR ''-'' then (True, t) else if c = CHR ''+'' then (False, t) else (False, s)
           | [] \<Rightarrow> (False, []))
      in (neg, takeWhile is_digit body))"

definition stol :: "octets \<Rightarrow> conversion_error + int" where
  "stol str =
     (let (neg, digits) = number_text str; n = int (digits_value digits); v = (if neg then - n else n) in
      if digits = [] then Inl InvalidArgument
      else if v > 2 ^ 63 - 1 \<or> v < - (2 ^ 63) then Inl OutOfRange
      else Inr v)"

definition stoul :: "octets \<Rightarrow> conversion_error + int" where
  "stoul str =
     (let (neg, digits) = number_text str; n = int (digits_value digits) in
      if digits = [] then Inl InvalidArgument
      else if n > 2 ^ 64 - 1 then Inl OutOfRange
      else Inr (if neg then (- n) mod 2 ^ 64 else n))"

text \<open>The bits of a numeric C++ type, and the conversion to it.\<close>

definition type_bits :: "string \<Rightarrow> nat" where
  "type_bits t =
     (if t \<in> {''uint8_t'', ''int8_t''} then 8 else if t \<in> {''uint16_t'', ''int16_t''} then 16
      else if t \<in> {''uint32_t'', ''int32_t''} then 32 else 64)"

definition static_cast :: "string \<Rightarrow> int \<Rightarrow> int" where
  "static_cast t v =
     (let n = type_bits t in
      if prefix ''uint'' t then v mod 2 ^ n else (v + 2 ^ (n - 1)) mod 2 ^ n - 2 ^ (n - 1))"

definition take_number :: "string \<Rightarrow> octets \<Rightarrow> conversion_error + int" where
  "take_number t buffer =
     (if buffer = [] then Inr 0
      else case (if prefix ''uint'' t then stoul buffer else stol buffer) of
        Inl e \<Rightarrow> Inl e
      | Inr v \<Rightarrow> Inr (static_cast t v))"

datatype parsed_value =
    ParsedText octets
  | ParsedNumber int
  | ParsedList "(string \<times> octets) list list"

text \<open>The assignments of \<open>take_data\<close> in the order of the actions; an exception leaves the method before
  \<open>reset\<close>.\<close>

definition take_action :: "transition_info \<Rightarrow> message_parser \<Rightarrow> action \<Rightarrow> conversion_error + (string \<times> parsed_value) list" where
  "take_action rt p a =
     (case a of
        ReadOctetsUntilTerminator terminator i escape \<Rightarrow>
          (let field = id_name i; t = get_field_cpp_type rt field in
           if is_numeric_type t then map_sum id (\<lambda>n. [(field, ParsedNumber n)]) (take_number t (mp_buffers p field))
           else Inr [(field, ParsedText (mp_buffers p field))])
      | Loop v c terminator actions \<Rightarrow> Inr [(id_name c, ParsedList (mp_lists p (id_name c)))]
      | _ \<Rightarrow> Inr [])"

fun take_actions :: "transition_info \<Rightarrow> message_parser \<Rightarrow> action list \<Rightarrow> conversion_error + (string \<times> parsed_value) list" where
  "take_actions rt p [] = Inr []"
| "take_actions rt p (a # as) =
     (case take_action rt p a of
        Inl e \<Rightarrow> Inl e
      | Inr xs \<Rightarrow> map_sum id ((@) xs) (take_actions rt p as))"

definition take_data :: "transition_info \<Rightarrow> message_parser \<Rightarrow> conversion_error + (string \<times> parsed_value) list \<times> message_parser" where
  "take_data rt p = map_sum id (\<lambda>d. (d, parser_reset p)) (take_actions rt p (ti_actions rt))"

end
