(* ===== verification/ParserTheorems.thy ===== *)
theory ParserTheorems
  imports GeneratedParser
begin

text \<open>
  The generated parser of a message: it never consumes more than it is given, it returns for every
  message without loops, and it reads back what was written; but only if a terminator is never
  split between two inputs.
\<close>

section \<open>Searching\<close>

lemma search_find_from: "search terminator input pos = find_from terminator input pos"
proof (induction terminator input pos rule: search.induct)
  case (1 t s pos)
  show ?case
  proof (cases "pos + length t \<le> length s")
    case False
    then have "find_sub t (drop pos s) = None" if "pos \<le> length s"
      using that find_sub_SomeD [of t "drop pos s"] by (cases "find_sub t (drop pos s)") fastforce+
    with False show ?thesis by (subst search.simps) (simp add: find_from_def)
  next
    case True
    show ?thesis
    proof (cases "pos < length s")
      case False
      with True show ?thesis by (subst search.simps) (simp add: find_from_def)
    next
      case lt: True
      then have d: "drop pos s = s ! pos # drop (Suc pos) s" by (rule Cons_nth_drop_Suc [symmetric])
      show ?thesis
      proof (cases "prefix t (drop pos s)")
        case True
        with lt \<open>pos + length t \<le> length s\<close> show ?thesis by (subst search.simps) (simp add: find_from_def find_sub_prefix)
      next
        case False
        have "find_from t s pos = find_from t s (pos + 1)"
          using False lt unfolding find_from_def d by (cases "find_sub t (drop (Suc pos) s)") simp_all
        with 1 False lt True show ?thesis by (subst search.simps) simp
      qed
    qed
  qed
qed

lemma search_find_sub: "search t s 0 = find_sub t s"
  by (cases "find_sub t s") (simp_all add: search_find_from find_from_def)

section \<open>Consuming\<close>

text \<open>\<open>n\<close> octets are consumed or left.\<close>

definition accounts :: "nat \<Rightarrow> parse_run \<Rightarrow> bool" where
  "accounts n r \<longleftrightarrow> pr_consumed r + length (pr_input r) = n"

lemma accounts_simps [simp]:
  "accounts n (append_buffer f s r) \<longleftrightarrow> accounts n r"
  "accounts n (append_loop_buffer c f s r) \<longleftrightarrow> accounts n r"
  "accounts n (next_stage r) \<longleftrightarrow> accounts n r"
  "accounts n (next_loop_stage c r) \<longleftrightarrow> accounts n r"
  "accounts n (add_element c as r) \<longleftrightarrow> accounts n r"
  "accounts n (r\<lparr>pr_parser := p\<rparr>) \<longleftrightarrow> accounts n r"
  by (simp_all add: accounts_def append_buffer_def append_loop_buffer_def next_stage_def next_loop_stage_def
      add_element_def Let_def)

lemma input_simps [simp]:
  "pr_input (append_buffer f s r) = pr_input r" "pr_consumed (append_buffer f s r) = pr_consumed r"
  "pr_input (append_loop_buffer c f s r) = pr_input r" "pr_consumed (append_loop_buffer c f s r) = pr_consumed r"
  "pr_input (next_stage r) = pr_input r" "pr_consumed (next_stage r) = pr_consumed r"
  "pr_input (next_loop_stage c r) = pr_input r" "pr_consumed (next_loop_stage c r) = pr_consumed r"
  "pr_input (remove_prefix n r) = drop n (pr_input r)" "pr_consumed (remove_prefix n r) = pr_consumed r + n"
  by (simp_all add: append_buffer_def append_loop_buffer_def next_stage_def next_loop_stage_def remove_prefix_def)

lemma accounts_remove_prefix: "k \<le> length (pr_input r) \<Longrightarrow> accounts n (remove_prefix k r) \<longleftrightarrow> accounts n r"
  by (auto simp: accounts_def)

text \<open>A result of a case: the parser goes on with the account kept, or it returns.\<close>

definition result_ok :: "nat \<Rightarrow> case_result \<Rightarrow> bool" where
  "result_ok n x \<longleftrightarrow> (case fst x of None \<Rightarrow> accounts n (snd x) | Some st \<Rightarrow> pr_consumed (snd x) \<le> n)"

lemma result_ok_static:
  "accounts n r \<Longrightarrow> (\<And>x. accounts n x \<Longrightarrow> accounts n (advance x)) \<Longrightarrow> result_ok n (parse_static octets advance r)"
  by (auto simp: result_ok_def parse_static_def accounts_remove_prefix) (simp_all add: accounts_def)

lemma result_ok_found:
  assumes "accounts n r" and "\<And>x. accounts n x \<Longrightarrow> accounts n (advance x)"
    and "\<And>s x. pr_input (store s x) = pr_input x" and "\<And>s x. pr_consumed (store s x) = pr_consumed x"
    and "\<And>pos. o_pos = Some pos \<Longrightarrow> pos + length t \<le> length (pr_input r)"
  shows "result_ok n (parse_found t store advance (o_pos, r))"
  using assms by (cases o_pos) (simp_all add: result_ok_def parse_found_def accounts_def)

definition search_ok :: "nat \<Rightarrow> octets \<Rightarrow> nat option \<times> parse_run \<Rightarrow> bool" where
  "search_ok n t x \<longleftrightarrow> accounts n (snd x) \<and> (\<forall>p. fst x = Some p \<longrightarrow> p + length t \<le> length (pr_input (snd x)))"

lemma search_escaped_accounts:
  assumes run: "search_escaped t e f r pos = Some x"
  shows "accounts n r \<longrightarrow> search_ok n t x"
proof (rule search_escaped.raw_induct [where P = "\<lambda>t e f r pos x. accounts n r \<longrightarrow> search_ok n t x", OF _ run])
  fix search :: "octets \<Rightarrow> escape_info \<Rightarrow> string \<Rightarrow> parse_run \<Rightarrow> nat \<Rightarrow> (nat option \<times> parse_run) option"
  fix t e f r pos x
  assume IH: "\<And>t e f r pos x. search t e f r pos = Some x \<Longrightarrow> accounts n r \<longrightarrow> search_ok n t x"
    and x: "(if pos + length t \<le> length (pr_input r) then
        (if pos + length (ei_sequence e) \<le> length (pr_input r) \<and> prefix (ei_sequence e) (drop pos (pr_input r)) then
           search t e f
             (remove_prefix (pos + length (ei_sequence e))
               (append_buffer f (ei_character e) (append_buffer f (take pos (pr_input r)) r))) 0
         else if prefix t (drop pos (pr_input r)) then Some (Some pos, r)
         else search t e f r (pos + 1))
      else Some (None, r)) = Some x"
  show "accounts n r \<longrightarrow> search_ok n t x"
    using x by (auto simp: accounts_remove_prefix search_ok_def split: if_splits dest!: IH)
qed

lemma search_bounds: "search t s 0 = Some p \<Longrightarrow> p + length t \<le> length s"
  unfolding search_find_sub by (auto dest: find_sub_SomeD)

lemma result_ok_until:
  assumes "parse_until t f e r = Some x" and "accounts n r"
  shows "result_ok n x"
proof -
  have append: "result_ok n (parse_found t (append_buffer f) next_stage y)" if "search_ok n t y" for y
    using that result_ok_found [of n "snd y" next_stage "append_buffer f" "fst y" t] by (simp add: search_ok_def)
  show ?thesis
  proof (cases e)
    case None
    with assms append [of "(search t (pr_input r) 0, r)"] show ?thesis
      by (auto simp: parse_until_def search_ok_def dest: search_bounds)
  next
    case (Some i)
    with assms append show ?thesis by (auto simp: parse_until_def dest!: search_escaped_accounts [of _ _ _ _ _ _ n])
  qed
qed

lemma result_ok_inner: "accounts n r \<Longrightarrow> result_ok n (parse_inner c all as r)"
proof (induction c all as r rule: parse_inner.induct)
  case (3 c all t i e as r)
  then show ?case
    using result_ok_found [of n r "next_loop_stage c" "append_loop_buffer c (id_name i)"] search_bounds by simp
next
  case (1 c all r)
  then show ?case by (simp add: result_ok_def)
qed (simp_all add: result_ok_static)

lemma result_ok_action: "parse_action a r = Some x \<Longrightarrow> accounts n r \<Longrightarrow> result_ok n x"
proof (cases a)
  case (Loop v c t as)
  assume x: "parse_action a r = Some x" and r: "accounts n r"
  have "result_ok n (parse_loop_action (id_name c) t as r)"
    using r prefix_length_le [of t "pr_input r"] result_ok_inner [OF r]
    by (simp add: parse_loop_action_def) (auto simp: result_ok_def accounts_def)
  with x show ?thesis by (simp add: parse_action_def Loop)
qed (auto simp: parse_action_def result_ok_static dest: result_ok_until)

lemma parse_stages_consumed:
  assumes run: "parse_stages actions r = Some x"
  shows "accounts n r \<longrightarrow> pr_consumed (snd x) \<le> n"
proof (rule parse_stages.raw_induct [where P = "\<lambda>actions r x. accounts n r \<longrightarrow> pr_consumed (snd x) \<le> n", OF _ run])
  fix parse :: "action list \<Rightarrow> parse_run \<Rightarrow> (parse_status \<times> parse_run) option"
  fix actions r x
  assume IH: "\<And>actions r x. parse actions r = Some x \<Longrightarrow> accounts n r \<longrightarrow> pr_consumed (snd x) \<le> n"
    and x: "(if mp_complete (pr_parser r) then Some (Complete, r)
      else if mp_stage (pr_parser r) < length actions then
        (case parse_action (actions ! mp_stage (pr_parser r)) r of
           None \<Rightarrow> None
         | Some (None, r') \<Rightarrow> parse actions r'
         | Some (Some status, r') \<Rightarrow> Some (status, r'))
      else parse actions (r\<lparr>pr_parser := (pr_parser r)\<lparr>mp_complete := True\<rparr>\<rparr>)) = Some x"
  show "accounts n r \<longrightarrow> pr_consumed (snd x) \<le> n"
  proof
    assume r: "accounts n r"
    show "pr_consumed (snd x) \<le> n"
    proof (cases "mp_complete (pr_parser r) \<or> length actions \<le> mp_stage (pr_parser r)")
      case True
      with x r show ?thesis using IH by (auto simp: accounts_def split: if_splits)
    next
      case False
      with x obtain y where y: "parse_action (actions ! mp_stage (pr_parser r)) r = Some y" by (auto split: option.splits)
      from result_ok_action [OF y r] x y False IH show ?thesis
        by (cases y; cases "fst y") (auto simp: result_ok_def)
    qed
  qed
qed

lemma message_parse_consumed:
  "message_parse rt p input = Some (status, consumed, p') \<Longrightarrow> consumed \<le> length input"
  using parse_stages_consumed [of "ti_actions rt" "\<lparr>pr_parser = p, pr_input = input, pr_consumed = 0\<rparr>" _ "length input"]
  by (auto simp: message_parse_def accounts_def)

section \<open>Returning\<close>

text \<open>The progress of a parser through its stages.\<close>

definition stage_of :: "parse_run \<Rightarrow> bool \<times> nat" where
  "stage_of r = (mp_complete (pr_parser r), mp_stage (pr_parser r))"

lemma stage_of_simps [simp]:
  "stage_of (append_buffer f s r) = stage_of r"
  "stage_of (remove_prefix n r) = stage_of r"
  "stage_of (next_stage r) = (fst (stage_of r), Suc (snd (stage_of r)))"
  "stage_of (r\<lparr>pr_consumed := n\<rparr>) = stage_of r"
  by (simp_all add: stage_of_def append_buffer_def remove_prefix_def next_stage_def)

definition flat_read :: "action \<Rightarrow> bool" where
  "flat_read a \<longleftrightarrow>
     (case a of
        ReadStaticOctets octets \<Rightarrow> True
      | ReadOctetsUntilTerminator t i escape \<Rightarrow> (\<forall>e. escape = Some e \<longrightarrow> ei_sequence e \<noteq> [])
      | _ \<Rightarrow> False)"

lemma search_escaped_returns:
  assumes "ei_sequence e \<noteq> []"
  shows "\<exists>x. search_escaped t e f r pos = Some x \<and> stage_of (snd x) = stage_of r"
proof (induction "(r, pos)" arbitrary: r pos
    rule: wf_induct_rule [OF wf_measures, where fs1 = "[\<lambda>(r, pos). length (pr_input r), \<lambda>(r, pos). Suc (length (pr_input r)) - pos]"])
  case 1
  let ?r = "remove_prefix (pos + length (ei_sequence e)) (append_buffer f (ei_character e) (append_buffer f (take pos (pr_input r)) r))"
  consider "\<not> pos + length t \<le> length (pr_input r)"
    | "pos + length t \<le> length (pr_input r)" "pos + length (ei_sequence e) \<le> length (pr_input r)" "prefix (ei_sequence e) (drop pos (pr_input r))"
    | "pos + length t \<le> length (pr_input r)" "\<not> (pos + length (ei_sequence e) \<le> length (pr_input r) \<and> prefix (ei_sequence e) (drop pos (pr_input r)))"
    by blast
  then show ?case
  proof cases
    case 1
    then show ?thesis by (subst search_escaped.simps) simp
  next
    case 2
    with assms have "((?r, 0), (r, pos)) \<in> measures [\<lambda>(r, pos). length (pr_input r), \<lambda>(r, pos). Suc (length (pr_input r)) - pos]"
      by (cases "ei_sequence e") auto
    from "1.hyps" [OF this] 2 show ?thesis by (subst search_escaped.simps) simp
  next
    case 3
    then have "((r, pos + 1), (r, pos)) \<in> measures [\<lambda>(r, pos). length (pr_input r), \<lambda>(r, pos). Suc (length (pr_input r)) - pos]"
      by simp
    from "1.hyps" [OF this] 3 show ?thesis by (subst search_escaped.simps) auto
  qed
qed

lemma parse_found_stage:
  "fst (parse_found t (append_buffer f) next_stage (o_pos, r)) = None \<Longrightarrow>
     stage_of (snd (parse_found t (append_buffer f) next_stage (o_pos, r))) = (fst (stage_of r), Suc (snd (stage_of r)))"
  by (simp add: parse_found_def split: option.splits)

lemma parse_action_returns:
  assumes "flat_read a"
  shows "\<exists>x. parse_action a r = Some x \<and>
    (fst x = None \<longrightarrow> stage_of (snd x) = (fst (stage_of r), Suc (snd (stage_of r))))"
proof (cases a)
  case (ReadStaticOctets octets)
  then show ?thesis by (simp add: parse_action_def parse_static_def)
next
  case (ReadOctetsUntilTerminator t i escape)
  show ?thesis
  proof (cases escape)
    case None
    then show ?thesis using parse_found_stage by (simp add: parse_action_def ReadOctetsUntilTerminator parse_until_def)
  next
    case (Some e)
    with assms ReadOctetsUntilTerminator have "ei_sequence e \<noteq> []" by (simp add: flat_read_def)
    from search_escaped_returns [OF this, of t "id_name i" r 0] obtain o_pos r' where
      "search_escaped t e (id_name i) r 0 = Some (o_pos, r')" "stage_of r' = stage_of r" by auto
    with Some show ?thesis using parse_found_stage [of t "id_name i" o_pos r']
      by (simp add: parse_action_def ReadOctetsUntilTerminator parse_until_def)
  qed
qed (use assms in \<open>simp_all add: flat_read_def\<close>)

lemma parse_stages_returns:
  assumes "\<forall>a \<in> set actions. flat_read a"
  shows "\<exists>x. parse_stages actions r = Some x"
proof (induction "length actions - snd (stage_of r)" arbitrary: r rule: less_induct)
  case less
  show ?case
  proof (cases "mp_complete (pr_parser r) \<or> length actions \<le> mp_stage (pr_parser r)")
    case True
    then show ?thesis by (subst parse_stages.simps, subst (2) parse_stages.simps) auto
  next
    case False
    then have k: "mp_stage (pr_parser r) < length actions" "\<not> mp_complete (pr_parser r)" by simp_all
    with assms have "flat_read (actions ! mp_stage (pr_parser r))" by simp
    from parse_action_returns [OF this, of r] obtain st r' where
      x: "parse_action (actions ! mp_stage (pr_parser r)) r = Some (st, r')"
        "st = None \<longrightarrow> stage_of r' = (fst (stage_of r), Suc (snd (stage_of r)))" by auto
    show ?thesis
    proof (cases st)
      case None
      with x(2) k have "length actions - snd (stage_of r') < length actions - snd (stage_of r)" by (simp add: stage_of_def)
      from less [OF this] x k None show ?thesis by (subst parse_stages.simps) simp
    next
      case (Some y)
      with x k show ?thesis by (subst parse_stages.simps) simp
    qed
  qed
qed

lemma message_parse_returns:
  "\<forall>a \<in> set (ti_actions rt). flat_read a \<Longrightarrow> \<exists>x. message_parse rt p input = Some x"
  using parse_stages_returns [of "ti_actions rt"] by (fastforce simp: message_parse_def)

section \<open>Inputs shorter than a terminator\<close>

text \<open>Several calls of \<open>parse\<close>, as the octets arrive.\<close>

fun feed_parser :: "transition_info \<Rightarrow> message_parser \<Rightarrow> octets list \<Rightarrow> (parse_status list \<times> message_parser) option" where
  "feed_parser rt p [] = Some ([], p)"
| "feed_parser rt p (input # inputs) =
     (case message_parse rt p input of
        None \<Rightarrow> None
      | Some (status, consumed, p') \<Rightarrow>
          map_option (\<lambda>(statuses, p''). (status # statuses, p'')) (feed_parser rt p' inputs))"

lemma parse_until_short:
  "length (pr_input r) < length t \<Longrightarrow>
     parse_until t f e r = Some (Some NeedMoreData, (append_buffer f (pr_input r) r)\<lparr>pr_consumed := pr_consumed r + length (pr_input r)\<rparr>)"
  by (cases e) (simp_all add: parse_until_def parse_found_def search.simps search_escaped.simps)

definition hold :: "string \<Rightarrow> octets \<Rightarrow> message_parser \<Rightarrow> message_parser" where
  "hold f s p = p\<lparr>mp_buffers := (mp_buffers p)(f := mp_buffers p f @ s)\<rparr>"

lemma hold_simps [simp]:
  "hold f b (hold f a p) = hold f (a @ b) p" "hold f [] p = p"
  "mp_complete (hold f s p) = mp_complete p" "mp_stage (hold f s p) = mp_stage p"
  by (simp_all add: hold_def)

lemma message_parse_short:
  assumes "\<not> mp_complete p" and "mp_stage p < length (ti_actions rt)"
    and "ti_actions rt ! mp_stage p = ReadOctetsUntilTerminator t i e" and "length input < length t"
  shows "message_parse rt p input = Some (NeedMoreData, length input, hold (id_name i) input p)"
  using assms unfolding message_parse_def
  by (subst parse_stages.simps) (simp add: parse_action_def parse_until_short append_buffer_def hold_def)

lemma feed_parser_short:
  assumes "\<not> mp_complete p" and "mp_stage p < length (ti_actions rt)"
    and "ti_actions rt ! mp_stage p = ReadOctetsUntilTerminator t i e" and "\<forall>s \<in> set inputs. length s < length t"
  shows "feed_parser rt p inputs = Some (replicate (length inputs) NeedMoreData, hold (id_name i) (concat inputs) p)"
  using assms
proof (induction inputs arbitrary: p)
  case (Cons s inputs)
  then have "message_parse rt p s = Some (NeedMoreData, length s, hold (id_name i) s p)"
    by (intro message_parse_short) auto
  with Cons show ?case by simp
qed simp

section \<open>Reading back\<close>

text \<open>The parser after it has read a field from the front of its input.\<close>

definition read_field :: "string \<Rightarrow> octets \<Rightarrow> nat \<Rightarrow> octets \<Rightarrow> parse_run \<Rightarrow> parse_run" where
  "read_field f payload n rest r =
     next_stage ((append_buffer f payload r)\<lparr>pr_input := rest, pr_consumed := pr_consumed r + n\<rparr>)"

lemma parse_until_plain:
  assumes "t \<noteq> []" and "hd t \<notin> set payload" and "pr_input r = payload @ t @ rest"
  shows "parse_until t f None r = Some (None, read_field f payload (length payload + length t) rest r)"
  using find_sub_append_hd [OF assms(1,2), of rest] assms(3)
  by (simp add: parse_until_def parse_found_def search_find_sub read_field_def remove_prefix_def append_buffer_def next_stage_def)

lemma search_escaped_skip:
  assumes "\<And>j. pos \<le> j \<Longrightarrow> j < n \<Longrightarrow> \<not> prefix (ei_sequence e) (drop j (pr_input r)) \<and> \<not> prefix t (drop j (pr_input r))"
    and "n + length t \<le> length (pr_input r)" and "pos \<le> n"
  shows "search_escaped t e f r pos = search_escaped t e f r n"
  using assms
proof (induction "n - pos" arbitrary: pos)
  case (Suc k)
  then have "search_escaped t e f r (pos + 1) = search_escaped t e f r n" by simp
  moreover have "\<not> prefix (ei_sequence e) (drop pos (pr_input r)) \<and> \<not> prefix t (drop pos (pr_input r))"
    using Suc by simp
  moreover have "pos + length t \<le> length (pr_input r)" using Suc.hyps(2) Suc.prems(2) by simp
  ultimately show ?case by (subst search_escaped.simps) simp
qed simp

lemma not_prefix_payload:
  assumes "x \<noteq> []" and "hd x \<notin> set q" and "j < length q"
  shows "\<not> prefix x (drop j q @ y)"
proof
  assume "prefix x (drop j q @ y)"
  with assms(3) have "prefix x (drop j (q @ y))" by simp
  then have "hd x = hd (drop j (q @ y))" using assms(1) by (auto simp: prefix_def)
  also have "\<dots> = q ! j" using assms(3) by (simp add: hd_drop_conv_nth nth_append)
  finally show False using assms(2,3) by (metis nth_mem)
qed

lemma append_buffer_append: "append_buffer f b (append_buffer f a r) = append_buffer f (a @ b) r"
  by (simp add: append_buffer_def)

lemma read_field_escaped:
  "read_field f payload n rest (remove_prefix k (append_buffer f a r)) = read_field f (a @ payload) (k + n) rest r"
  by (simp add: read_field_def append_buffer_def remove_prefix_def next_stage_def)

lemma parse_until_escaped:
  assumes "escapes (ei_character e) (ei_sequence e) payload w"
    and "t \<noteq> []" and "ei_sequence e \<noteq> []" and "\<not> prefix (ei_sequence e) (t @ rest)"
  shows "hd t \<notin> set payload \<Longrightarrow> hd (ei_sequence e) \<notin> set payload \<Longrightarrow> pr_input r = w @ t @ rest \<Longrightarrow>
     parse_until t f (Some e) r = Some (None, read_field f payload (length w + length t) rest r)"
  using assms(1)
proof (induction arbitrary: r rule: escapes.induct)
  case (escapes_last p)
  have "search_escaped t e f r 0 = search_escaped t e f r (length p)"
    by (rule search_escaped_skip) (use escapes_last.prems assms(2,3) not_prefix_payload in auto)
  also have "\<dots> = Some (Some (length p), r)"
    using escapes_last.prems(3) assms(4) by (subst search_escaped.simps) simp
  finally show ?case using escapes_last.prems(3)
    by (simp add: parse_until_def parse_found_def read_field_def remove_prefix_def append_buffer_def next_stage_def)
next
  case escapes_empty
  then have "search_escaped t e f r 0 = Some (Some 0, r)" using assms(4) by (subst search_escaped.simps) simp
  with escapes_empty.prems(3) show ?case
    by (simp add: parse_until_def parse_found_def read_field_def remove_prefix_def append_buffer_def next_stage_def)
next
  case (escapes_char p i w)
  have i: "i + length (ei_character e) \<le> length p" using find_sub_SomeD [OF escapes_char.hyps(1)] by auto
  let ?q = "take i p" and ?rest = "drop (i + length (ei_character e)) p"
  have p: "p = ?q @ ei_character e @ ?rest" by (rule find_sub_split [OF escapes_char.hyps(1)])
  have len: "length ?q = i" using i by simp
  have q: "hd t \<notin> set ?q" "hd (ei_sequence e) \<notin> set ?q" "hd t \<notin> set ?rest" "hd (ei_sequence e) \<notin> set ?rest"
    using escapes_char.prems(1,2) by (auto dest: in_set_takeD in_set_dropD)
  let ?r = "remove_prefix (i + length (ei_sequence e)) (append_buffer f (?q @ ei_character e) r)"
  have "search_escaped t e f r 0 = search_escaped t e f r i"
    by (rule search_escaped_skip)
      (use escapes_char.prems(3) assms(2,3) q(1,2) len not_prefix_payload [of _ ?q] in \<open>auto simp del: length_take\<close>)
  also have "\<dots> = search_escaped t e f ?r 0"
    using escapes_char.prems(3) len by (subst search_escaped.simps) (simp add: append_buffer_append del: length_take)
  finally have "parse_until t f (Some e) r = parse_until t f (Some e) ?r" by (simp add: parse_until_def)
  also have "\<dots> = Some (None, read_field f ?rest (length w + length t) rest ?r)"
    by (rule escapes_char.IH [OF q(3,4)]) (use escapes_char.prems(3) len in \<open>simp del: length_take\<close>)
  also have "read_field f ?rest (length w + length t) rest ?r = read_field f p (length (?q @ ei_sequence e @ w) + length t) rest r"
    using arg_cong [OF p [symmetric], of "\<lambda>x. read_field f x (length (?q @ ei_sequence e @ w) + length t) rest r"] len
    by (simp add: read_field_escaped add.assoc del: length_take)
  finally show ?case .
qed

section \<open>A whole message\<close>

definition escaped_text :: "escape_info option \<Rightarrow> octets \<Rightarrow> octets" where
  "escaped_text escape s =
     (case escape of
        None \<Rightarrow> s
      | Some e \<Rightarrow> (case apply_escape_replacement s (ei_character e) (ei_sequence e) of Inr w \<Rightarrow> w | Inl _ \<Rightarrow> []))"

definition read_wire :: "(string \<Rightarrow> octets) \<Rightarrow> action \<Rightarrow> octets" where
  "read_wire d a =
     (case a of
        ReadStaticOctets octets \<Rightarrow> octets
      | ReadOctetsUntilTerminator t i escape \<Rightarrow> escaped_text escape (d (id_name i)) @ t
      | _ \<Rightarrow> [])"

text \<open>Fields that can be told from what ends them.\<close>

definition readable :: "(string \<Rightarrow> octets) \<Rightarrow> action \<Rightarrow> bool" where
  "readable d a \<longleftrightarrow>
     (case a of
        ReadStaticOctets octets \<Rightarrow> True
      | ReadOctetsUntilTerminator t i escape \<Rightarrow>
          t \<noteq> [] \<and> hd t \<notin> set (d (id_name i))
          \<and> (\<forall>e. escape = Some e \<longrightarrow> ei_character e \<noteq> [] \<and> ei_sequence e \<noteq> [] \<and> hd (ei_sequence e) \<notin> set (d (id_name i))
                \<and> \<not> prefix (ei_sequence e) t \<and> \<not> prefix t (ei_sequence e))
      | _ \<Rightarrow> False)"

definition read_fields :: "action list \<Rightarrow> string list" where
  "read_fields as = inner_identifiers as"

definition fields_parser :: "(string \<Rightarrow> octets) \<Rightarrow> action list \<Rightarrow> nat \<Rightarrow> message_parser" where
  "fields_parser d as k =
     init_parser\<lparr>mp_stage := k, mp_buffers := (\<lambda>f. if f \<in> set (read_fields (take k as)) then d f else [])\<rparr>"

lemma parse_action_wire:
  assumes "readable d a" and "pr_input r = read_wire d a @ rest"
    and "\<And>t i e. a = ReadOctetsUntilTerminator t i e \<Longrightarrow> mp_buffers (pr_parser r) (id_name i) = []"
  shows "parse_action a r = Some (None,
    r\<lparr>pr_input := rest, pr_consumed := pr_consumed r + length (read_wire d a),
      pr_parser := (pr_parser r)\<lparr>mp_stage := Suc (mp_stage (pr_parser r)),
        mp_buffers := (\<lambda>f. if f \<in> set (read_fields [a]) then d f else mp_buffers (pr_parser r) f)\<rparr>\<rparr>)"
proof (cases a)
  case (ReadStaticOctets octets)
  with assms(2) show ?thesis
    by (simp add: parse_action_def parse_static_def read_wire_def next_stage_def remove_prefix_def read_fields_def inner_identifiers_def)
next
  case (ReadOctetsUntilTerminator t i escape)
  let ?s = "d (id_name i)"
  from assms(1) ReadOctetsUntilTerminator have c: "t \<noteq> []" "hd t \<notin> set ?s" by (simp_all add: readable_def)
  have "parse_until t (id_name i) escape r =
      Some (None, read_field (id_name i) ?s (length (escaped_text escape ?s) + length t) rest r)"
  proof (cases escape)
    case None
    with parse_until_plain [OF c, of r rest] assms(2) ReadOctetsUntilTerminator show ?thesis
      by (simp add: read_wire_def escaped_text_def)
  next
    case (Some e)
    with assms(1) ReadOctetsUntilTerminator have e: "ei_character e \<noteq> []" "ei_sequence e \<noteq> []"
        "hd (ei_sequence e) \<notin> set ?s" "\<not> prefix (ei_sequence e) t" "\<not> prefix t (ei_sequence e)"
      by (simp_all add: readable_def)
    from apply_escape_replacement_escapes [OF e(1)] obtain w where
      w: "apply_escape_replacement ?s (ei_character e) (ei_sequence e) = Inr w" "escapes (ei_character e) (ei_sequence e) ?s w"
      by blast
    have "\<not> prefix (ei_sequence e) (t @ rest)" using e(4,5) by (auto simp: prefix_append)
    from parse_until_escaped [OF w(2) c(1) e(2) this c(2) e(3), of r "id_name i"] assms(2) ReadOctetsUntilTerminator w(1) Some
    show ?thesis by (simp add: read_wire_def escaped_text_def)
  qed
  moreover have "(mp_buffers (pr_parser r))(id_name i := mp_buffers (pr_parser r) (id_name i) @ ?s) =
      (\<lambda>f. if f \<in> set (read_fields [a]) then d f else mp_buffers (pr_parser r) f)"
    using assms(3) ReadOctetsUntilTerminator by (auto simp: read_fields_def inner_identifiers_def fun_eq_iff)
  ultimately show ?thesis
    by (simp add: parse_action_def ReadOctetsUntilTerminator read_wire_def read_field_def append_buffer_def next_stage_def)
qed (use assms(1) in \<open>simp_all add: readable_def\<close>)

definition wire :: "(string \<Rightarrow> octets) \<Rightarrow> action list \<Rightarrow> octets" where
  "wire d as = concat (map (read_wire d) as)"

lemma read_fields_step:
  assumes "k < length as"
  shows "set (read_fields (take (Suc k) as)) = set (read_fields (take k as)) \<union> set (read_fields [as ! k])"
  using assms by (simp add: take_Suc_conv_app_nth read_fields_def inner_identifiers_def)

lemma read_fields_new:
  assumes "k < length as" and "distinct (read_fields as)" and "as ! k = ReadOctetsUntilTerminator t i e"
  shows "id_name i \<notin> set (read_fields (take k as))"
proof -
  have "as = take k as @ as ! k # drop (Suc k) as" using assms(1) by (rule id_take_nth_drop)
  then have "read_fields as = read_fields (take k as) @ id_name i # read_fields (drop (Suc k) as)"
    by (metis (no_types, lifting) append_Cons append_Nil assms(3) concat.simps(2) concat_append inner_identifiers_def list.simps(9)
        map_append read_fields_def action.simps(27))
  with assms(2) show ?thesis by simp
qed

lemma parse_stages_wire:
  assumes "\<forall>a \<in> set as. readable d a" and "distinct (read_fields as)" and "k \<le> length as"
    and "pr_parser r = fields_parser d as k" and "pr_input r = wire d (drop k as) @ rest"
  shows "parse_stages as r = Some (Complete,
    \<lparr>pr_parser = (fields_parser d as (length as))\<lparr>mp_complete := True\<rparr>, pr_input = rest,
     pr_consumed = pr_consumed r + length (wire d (drop k as))\<rparr>)"
  using assms(3-5)
proof (induction "length as - k" arbitrary: k r)
  case 0
  then have "k = length as" by simp
  with 0(3,4) show ?case
    by (subst parse_stages.simps, subst (2) parse_stages.simps) (simp add: fields_parser_def init_parser_def wire_def)
next
  case (Suc n)
  from Suc(2) have k: "k < length as" by simp
  have d: "drop k as = as ! k # drop (Suc k) as" using k by (rule Cons_nth_drop_Suc [symmetric])
  from Suc.prems(3) have i: "pr_input r = read_wire d (as ! k) @ wire d (drop (Suc k) as) @ rest" by (simp add: d wire_def)
  have e: "mp_buffers (pr_parser r) (id_name i) = []" if "as ! k = ReadOctetsUntilTerminator t i e" for t i e
    using read_fields_new [OF k assms(2) that] by (simp add: Suc.prems(2) fields_parser_def)
  have "readable d (as ! k)" using assms(1) k by simp
  note step = parse_action_wire [OF this i e]
  let ?r = "r\<lparr>pr_input := wire d (drop (Suc k) as) @ rest, pr_consumed := pr_consumed r + length (read_wire d (as ! k)),
      pr_parser := fields_parser d as (Suc k)\<rparr>"
  have "(pr_parser r)\<lparr>mp_stage := Suc (mp_stage (pr_parser r)),
        mp_buffers := (\<lambda>f. if f \<in> set (read_fields [as ! k]) then d f else mp_buffers (pr_parser r) f)\<rparr> = fields_parser d as (Suc k)"
    unfolding Suc.prems(2) fields_parser_def read_fields_step [OF k] by (auto simp: fun_eq_iff)
  with step have "parse_action (as ! k) r = Some (None, ?r)" by simp
  then have "parse_stages as r = parse_stages as ?r"
    using k Suc.prems(2) by (subst parse_stages.simps) (simp add: fields_parser_def init_parser_def)
  also have "\<dots> = Some (Complete, \<lparr>pr_parser = (fields_parser d as (length as))\<lparr>mp_complete := True\<rparr>, pr_input = rest,
     pr_consumed = pr_consumed ?r + length (wire d (drop (Suc k) as))\<rparr>)"
    by (rule Suc.hyps(1)) (use Suc.hyps(2) k in simp_all)
  finally show ?case by (simp add: d wire_def add.assoc)
qed

lemma message_parse_wire:
  assumes "\<forall>a \<in> set (ti_actions rt). readable d a" and "distinct (read_fields (ti_actions rt))"
  shows "message_parse rt init_parser (wire d (ti_actions rt) @ rest) =
    Some (Complete, length (wire d (ti_actions rt)),
      (fields_parser d (ti_actions rt) (length (ti_actions rt)))\<lparr>mp_complete := True\<rparr>)"
proof -
  have "init_parser = fields_parser d (ti_actions rt) 0"
    by (simp add: fields_parser_def init_parser_def read_fields_def inner_identifiers_def)
  with parse_stages_wire [OF assms, of 0 "\<lparr>pr_parser = init_parser, pr_input = wire d (ti_actions rt) @ rest, pr_consumed = 0\<rparr>" rest]
  show ?thesis by (simp add: message_parse_def)
qed

section \<open>Loops\<close>

text \<open>Inside a loop escapes are not replaced.\<close>

definition element_wire :: "(string \<Rightarrow> octets) \<Rightarrow> action \<Rightarrow> octets" where
  "element_wire v a =
     (case a of
        ReadStaticOctets octets \<Rightarrow> octets
      | ReadOctetsUntilTerminator t i escape \<Rightarrow> v (id_name i) @ t
      | _ \<Rightarrow> [])"

text \<open>An action whose octets are told from the terminator of the loop, and their field from what ends it.\<close>

definition element_readable :: "octets \<Rightarrow> (string \<Rightarrow> octets) \<Rightarrow> action \<Rightarrow> bool" where
  "element_readable terminator v a \<longleftrightarrow>
     parallel terminator (element_wire v a) \<and>
     (case a of
        ReadStaticOctets octets \<Rightarrow> True
      | ReadOctetsUntilTerminator t i escape \<Rightarrow> t \<noteq> [] \<and> hd t \<notin> set (v (id_name i))
      | _ \<Rightarrow> False)"

definition element_wires :: "(string \<Rightarrow> octets) \<Rightarrow> action list \<Rightarrow> octets" where
  "element_wires v as = concat (map (element_wire v) as)"

definition element_of :: "action list \<Rightarrow> (string \<Rightarrow> octets) \<Rightarrow> (string \<times> octets) list" where
  "element_of as v = map (\<lambda>i. (i, v i)) (inner_identifiers as)"

text \<open>A run in the loop over \<open>c\<close>, with the elements so far, the inner stage, and the inner buffers.\<close>

definition loop_run ::
  "message_parser \<Rightarrow> string \<Rightarrow> (string \<times> octets) list list \<Rightarrow> nat \<Rightarrow> (string \<Rightarrow> octets) \<Rightarrow> octets \<Rightarrow> nat \<Rightarrow> parse_run" where
  "loop_run p c elems k buf input n =
     \<lparr>pr_parser = p\<lparr>mp_lists := (mp_lists p)(c := elems), mp_loop_stage := (mp_loop_stage p)(c := k),
        mp_loop_buffers := (\<lambda>(c', i). if c' = c then buf i else mp_loop_buffers p (c', i))\<rparr>,
      pr_input = input, pr_consumed = n\<rparr>"

lemma loop_run_simps [simp]:
  "pr_input (loop_run p c elems k buf input n) = input"
  "mp_loop_stage (pr_parser (loop_run p c elems k buf input n)) c = k"
  "mp_stage (pr_parser (loop_run p c elems k buf input n)) = mp_stage p"
  "mp_complete (pr_parser (loop_run p c elems k buf input n)) = mp_complete p"
  "remove_prefix j (loop_run p c elems k buf input n) = loop_run p c elems k buf (drop j input) (n + j)"
  "next_loop_stage c (loop_run p c elems k buf input n) = loop_run p c elems (k + 1) buf input n"
  "append_loop_buffer c f s (loop_run p c elems k buf input n) = loop_run p c elems k (buf(f := buf f @ s)) input n"
  "add_element c as (loop_run p c elems k buf input n) =
     loop_run p c (elems @ [element_of as buf]) 0 (\<lambda>i. if i \<in> set (inner_identifiers as) then [] else buf i) input n"
  by (auto simp: loop_run_def remove_prefix_def next_loop_stage_def append_loop_buffer_def add_element_def element_of_def
      Let_def fun_eq_iff)

lemma parse_stages_loop:
  assumes "\<not> mp_complete p" and "mp_stage p < length actions" and "actions ! mp_stage p = Loop x cc t as" and "id_name cc = c"
    and "\<not> prefix t input" and "input \<noteq> []"
    and "parse_inner c as (drop k as) (loop_run p c elems k buf input n) = (None, r')"
  shows "parse_stages actions (loop_run p c elems k buf input n) = parse_stages actions r'"
  using assms by (subst parse_stages.simps) (simp add: parse_action_def parse_loop_action_def)

lemma parse_inner_wire:
  assumes "element_readable t v a" and "mp_stage p < length actions"
    and "\<And>t i e. a = ReadOctetsUntilTerminator t i e \<Longrightarrow> buf (id_name i) = []"
  shows "parse_inner c as (a # rest_as) (loop_run p c elems k buf (element_wire v a @ rest) n) =
    (None, loop_run p c elems (Suc k) (\<lambda>i. if i \<in> set (inner_identifiers [a]) then v i else buf i) rest (n + length (element_wire v a)))"
proof (cases a)
  case (ReadStaticOctets octets)
  then show ?thesis by (simp add: parse_static_def element_wire_def inner_identifiers_def)
next
  case (ReadOctetsUntilTerminator t' i e)
  with assms(1) have t: "t' \<noteq> []" "hd t' \<notin> set (v (id_name i))" by (simp_all add: element_readable_def)
  have b: "buf (id_name i) = []" using assms(3) ReadOctetsUntilTerminator by simp
  have "buf(id_name i := v (id_name i)) = (\<lambda>i'. if i' = id_name i then v i' else buf i')" by auto
  with find_sub_append_hd [OF t, of rest] b show ?thesis
    by (simp add: ReadOctetsUntilTerminator parse_found_def search_find_sub element_wire_def inner_identifiers_def add.assoc)
qed (use assms(1) in \<open>simp_all add: element_readable_def\<close>)

text \<open>The octets of an element, from its \<open>k\<close>-th action, when the fields before have been read.\<close>

definition read_before :: "(string \<Rightarrow> octets) \<Rightarrow> action list \<Rightarrow> nat \<Rightarrow> (string \<Rightarrow> octets) \<Rightarrow> string \<Rightarrow> octets" where
  "read_before v as k buf = (\<lambda>i. if i \<in> set (inner_identifiers (take k as)) then v i else buf i)"

lemma inner_identifiers_append [simp]: "inner_identifiers (xs @ ys) = inner_identifiers xs @ inner_identifiers ys"
  by (simp add: inner_identifiers_def)

lemma inner_identifiers_Nil [simp]: "inner_identifiers [] = []"
  by (simp add: inner_identifiers_def)

lemma inner_identifiers_step:
  assumes "k < length as"
  shows "inner_identifiers (take (Suc k) as) = inner_identifiers (take k as) @ inner_identifiers [as ! k]"
  using assms by (simp add: take_Suc_conv_app_nth)

lemma inner_identifiers_new:
  assumes "k < length as" and "distinct (inner_identifiers as)" and "as ! k = ReadOctetsUntilTerminator t i e"
  shows "id_name i \<notin> set (inner_identifiers (take k as))"
proof -
  have "as = take k as @ as ! k # drop (Suc k) as" using assms(1) by (rule id_take_nth_drop)
  then have "inner_identifiers as = inner_identifiers (take k as) @ inner_identifiers (as ! k # drop (Suc k) as)"
    by (metis inner_identifiers_append)
  with assms(2,3) show ?thesis by (auto simp: inner_identifiers_def)
qed

lemma not_prefix_parallel: "parallel t w \<Longrightarrow> \<not> prefix t (w @ rest)"
  by (metis parallelE prefix_append prefix_order.order_refl prefix_prefix prefix_same_cases prefixI)

lemma parse_stages_element:
  assumes "\<not> mp_complete p" and "mp_stage p < length actions" and "actions ! mp_stage p = Loop x cc t as" and "id_name cc = c"
    and "\<forall>a \<in> set as. element_readable t v a" and "distinct (inner_identifiers as)"
    and "k \<le> length as" and "\<forall>i \<in> set (inner_identifiers as). buf i = []"
  shows "parse_stages actions (loop_run p c elems k (read_before v as k buf) (element_wires v (drop k as) @ rest) n) =
    parse_stages actions (loop_run p c elems (length as) (read_before v as (length as) buf) rest (n + length (element_wires v (drop k as))))"
  using assms(7)
proof (induction "length as - k" arbitrary: k n)
  case 0
  then show ?case by (simp add: element_wires_def)
next
  case (Suc j)
  from Suc(2) have k: "k < length as" by simp
  have d: "drop k as = as ! k # drop (Suc k) as" using k by (rule Cons_nth_drop_Suc [symmetric])
  have r: "element_readable t v (as ! k)" using assms(5) k by simp
  then have ne: "element_wire v (as ! k) \<noteq> []" "\<not> prefix t (element_wire v (as ! k) @ w)" for w
    by (auto simp: element_readable_def not_prefix_parallel)
  have b: "read_before v as k buf (id_name i) = []" if "as ! k = ReadOctetsUntilTerminator t' i e" for t' i e
  proof -
    have "id_name i \<in> set (inner_identifiers as)"
      using that nth_mem [OF k] by (force simp: inner_identifiers_def)
    with inner_identifiers_new [OF k assms(6) that] assms(8) show ?thesis by (simp add: read_before_def)
  qed
  have u: "(\<lambda>i. if i \<in> set (inner_identifiers [as ! k]) then v i else read_before v as k buf i) = read_before v as (Suc k) buf"
    by (auto simp: read_before_def inner_identifiers_step [OF k])
  from parse_inner_wire [OF r assms(2), where buf = "read_before v as k buf" and c = c and as = as and rest_as = "drop (Suc k) as"
      and elems = elems and k = k and rest = "element_wires v (drop (Suc k) as) @ rest" and n = n, OF b]
  have "parse_inner c as (drop k as) (loop_run p c elems k (read_before v as k buf) (element_wires v (drop k as) @ rest) n) =
      (None, loop_run p c elems (Suc k) (read_before v as (Suc k) buf) (element_wires v (drop (Suc k) as) @ rest)
        (n + length (element_wire v (as ! k))))"
    by (simp add: d u element_wires_def)
  then have "parse_stages actions (loop_run p c elems k (read_before v as k buf) (element_wires v (drop k as) @ rest) n) =
      parse_stages actions (loop_run p c elems (Suc k) (read_before v as (Suc k) buf) (element_wires v (drop (Suc k) as) @ rest)
        (n + length (element_wire v (as ! k))))"
    by (rule parse_stages_loop [OF assms(1-4), rotated 2]) (use ne in \<open>simp_all add: d element_wires_def\<close>)
  also have "\<dots> = parse_stages actions (loop_run p c elems (length as) (read_before v as (length as) buf) rest
      (n + length (element_wires v (drop k as))))"
    using Suc.hyps(1) [of "Suc k"] Suc.hyps(2) k by (simp add: d element_wires_def add.assoc)
  finally show ?case .
qed

lemma element_of_read: "element_of as (read_before v as (length as) buf) = element_of as v"
  by (simp add: element_of_def read_before_def)

definition cleared :: "action list \<Rightarrow> (string \<Rightarrow> octets) \<Rightarrow> string \<Rightarrow> octets" where
  "cleared as buf = (\<lambda>i. if i \<in> set (inner_identifiers as) then [] else buf i)"

text \<open>Every element but the last is added when the next one starts; the terminator ends the loop before the
  last one is.\<close>

lemma parse_stages_elements:
  assumes "\<not> mp_complete p" and "mp_stage p < length actions" and "actions ! mp_stage p = Loop x cc t as" and "id_name cc = c"
    and "as \<noteq> []" and "distinct (inner_identifiers as)"
    and "\<forall>v \<in> set (w # vs). \<forall>a \<in> set as. element_readable t v a"
  shows "\<exists>buf'. parse_stages actions (loop_run p c elems (length as) (read_before w as (length as) buf)
        (concat (map (\<lambda>v. element_wires v as) vs) @ t @ rest) n) =
    parse_stages actions (next_stage (loop_run p c (elems @ map (element_of as) (butlast (w # vs))) (length as) buf' rest
        (n + length (concat (map (\<lambda>v. element_wires v as) vs)) + length t)))"
  using assms(7)
proof (induction vs arbitrary: w elems buf n)
  case Nil
  have "parse_stages actions (loop_run p c elems (length as) (read_before w as (length as) buf) (t @ rest) n) =
      parse_stages actions (next_stage (loop_run p c elems (length as) (read_before w as (length as) buf) rest (n + length t)))"
    using assms(1-4) by (subst parse_stages.simps) (simp add: parse_action_def parse_loop_action_def)
  then show ?case by auto
next
  case (Cons v vs)
  let ?input = "concat (map (\<lambda>v. element_wires v as) (v # vs)) @ t @ rest"
  let ?more = "concat (map (\<lambda>v. element_wires v as) vs) @ t @ rest"
  obtain a as' where as: "as = a # as'" using assms(5) by (cases as) auto
  then have r: "element_readable t v a" using Cons.prems by simp
  then have ne: "?input \<noteq> []" "\<not> prefix t ?input"
    using not_prefix_parallel [of t "element_wire v a"] by (auto simp: element_readable_def as element_wires_def)
  have "parse_stages actions (loop_run p c elems (length as) (read_before w as (length as) buf) ?input n) =
      parse_stages actions (loop_run p c (elems @ [element_of as w]) 0 (cleared as (read_before w as (length as) buf)) ?input n)"
    by (rule parse_stages_loop [OF assms(1-4) ne(2,1)]) (simp add: element_of_read cleared_def)
  also have "cleared as (read_before w as (length as) buf) = read_before v as 0 (cleared as buf)"
    by (simp add: cleared_def read_before_def fun_eq_iff)
  also have "parse_stages actions (loop_run p c (elems @ [element_of as w]) 0 (read_before v as 0 (cleared as buf)) ?input n) =
      parse_stages actions (loop_run p c (elems @ [element_of as w]) (length as) (read_before v as (length as) (cleared as buf)) ?more
        (n + length (element_wires v as)))"
    using parse_stages_element [OF assms(1-4), of v 0 "cleared as buf" "elems @ [element_of as w]" ?more n] Cons.prems assms(6)
    by (simp add: cleared_def)
  finally show ?case
    using Cons.IH [of v "elems @ [element_of as w]" "cleared as buf" "n + length (element_wires v as)"] Cons.prems
    by (simp add: add.assoc)
qed

lemma message_parse_loop:
  assumes "ti_actions rt = [Loop x cc t as]" and "as \<noteq> []" and "distinct (inner_identifiers as)"
    and "vs \<noteq> []" and "\<forall>v \<in> set vs. \<forall>a \<in> set as. element_readable t v a"
  shows "\<exists>p. message_parse rt init_parser (concat (map (\<lambda>v. element_wires v as) vs) @ t @ rest) =
      Some (Complete, length (concat (map (\<lambda>v. element_wires v as) vs) @ t), p)
    \<and> mp_lists p (id_name cc) = map (element_of as) (butlast vs)"
proof -
  let ?c = "id_name cc" and ?actions = "ti_actions rt" and ?p = init_parser
  obtain v vs' where vs: "vs = v # vs'" using assms(4) by (cases vs) auto
  let ?more = "concat (map (\<lambda>v. element_wires v as) vs') @ t @ rest"
  have p: "\<not> mp_complete ?p" "mp_stage ?p < length ?actions" "?actions ! mp_stage ?p = Loop x cc t as"
    by (simp_all add: init_parser_def assms(1))
  have i: "\<lparr>pr_parser = ?p, pr_input = input, pr_consumed = 0\<rparr> = loop_run ?p ?c [] 0 (read_before v as 0 (\<lambda>_. [])) input 0" for input
    by (simp add: loop_run_def init_parser_def read_before_def inner_identifiers_def fun_eq_iff)
  have "parse_stages ?actions (loop_run ?p ?c [] 0 (read_before v as 0 (\<lambda>_. [])) (element_wires v as @ ?more) 0) =
      parse_stages ?actions (loop_run ?p ?c [] (length as) (read_before v as (length as) (\<lambda>_. [])) ?more (length (element_wires v as)))"
    using parse_stages_element [OF p refl, of v 0 "\<lambda>_. []" "[]" ?more 0] assms(3,5) by (simp add: vs)
  moreover obtain buf' where "parse_stages ?actions (loop_run ?p ?c [] (length as) (read_before v as (length as) (\<lambda>_. [])) ?more
      (length (element_wires v as))) =
    parse_stages ?actions (next_stage (loop_run ?p ?c (map (element_of as) (butlast vs)) (length as) buf' rest
      (length (concat (map (\<lambda>v. element_wires v as) vs) @ t))))" (is "_ = parse_stages _ (next_stage ?r)")
    using parse_stages_elements [OF p refl assms(2,3), of v vs' "[]" "\<lambda>_. []" rest "length (element_wires v as)"] assms(5)
    by (auto simp: vs add.assoc)
  moreover have "parse_stages ?actions (next_stage ?r) =
      Some (Complete, (next_stage ?r)\<lparr>pr_parser := (pr_parser (next_stage ?r))\<lparr>mp_complete := True\<rparr>\<rparr>)"
    by (subst parse_stages.simps, subst (2) parse_stages.simps)
      (simp add: next_stage_def loop_run_def init_parser_def assms(1))
  ultimately have "message_parse rt ?p (concat (map (\<lambda>v. element_wires v as) vs) @ t @ rest) =
      Some (Complete, pr_consumed ?r, (pr_parser (next_stage ?r))\<lparr>mp_complete := True\<rparr>)"
    unfolding message_parse_def i by (simp add: vs next_stage_def)
  then show ?thesis by (simp add: loop_run_def next_stage_def)
qed

end
