(* ===== verification/GeneratedMachine.thy ===== *)
theory GeneratedMachine
  imports GenerateRunner GeneratedSerializer GeneratedParser
begin

text \<open>
  What a generated state machine and its runner do when they run: the methods that
  \<open>codegen/generate_state_machine.cpp\<close> and \<open>codegen/generate_runner.cpp\<close> write for one side of
  a protocol. An enumerator of \<open>State\<close> is its identifier; the members of the class that belong to
  states and messages are maps from their identifiers. Every operation answers \<open>None\<close> when it does
  not return or has no defined behaviour.
\<close>

section \<open>The state of a machine\<close>

type_synonym parsed_message = "string \<times> (string \<times> parsed_value) list"

record side_machine =
  sm_state :: string
  sm_has_message :: bool
  sm_has_error :: bool
  sm_message_state :: string
  sm_output :: octets
  sm_pending :: "string \<Rightarrow> parsed_message option"
  sm_parsers :: "string \<Rightarrow> message_parser"
  sm_serializers :: "string \<Rightarrow> serializer"

definition initial_state :: "protocol_info \<Rightarrow> string" where
  "initial_state info =
     (if ''Open'' \<in> set (pi_states info) then ''Open''
      else case pi_states info of s # _ \<Rightarrow> state_name_to_identifier s | [] \<Rightarrow> [])"

text \<open>\<open>message_state_\<close> starts as the first enumerator.\<close>

definition init_machine :: "protocol_info \<Rightarrow> side_machine" where
  "init_machine info =
     \<lparr>sm_state = initial_state info, sm_has_message = False, sm_has_error = False,
      sm_message_state = (case pi_states info of s # _ \<Rightarrow> state_name_to_identifier s | [] \<Rightarrow> []),
      sm_output = [], sm_pending = Map.empty, sm_parsers = (\<lambda>_. init_parser), sm_serializers = (\<lambda>_. init_serializer)\<rparr>"

definition is_closed :: "side_machine \<Rightarrow> bool" where
  "is_closed m \<longleftrightarrow> sm_state m = ''Closed''"

definition set_parser :: "transition_info \<Rightarrow> message_parser \<Rightarrow> side_machine \<Rightarrow> side_machine" where
  "set_parser rt p m = m\<lparr>sm_parsers := (sm_parsers m)(ti_identifier rt := p)\<rparr>"

definition reset_parsers :: "transition_info list \<Rightarrow> side_machine \<Rightarrow> side_machine" where
  "reset_parsers rts m = fold (\<lambda>rt m. set_parser rt (parser_reset (sm_parsers m (ti_identifier rt))) m) rts m"

section \<open>\<open>on_bytes_received\<close>\<close>

text \<open>The block of a parser that has completed; \<open>take_data\<close> may throw, and leaves the parser as it is
  then. \<open>resets\<close> are the parsers that are reset afterwards.\<close>

definition accept_message ::
  "transition_info \<Rightarrow> transition_info list \<Rightarrow> side_machine \<Rightarrow> (conversion_error + side_machine)" where
  "accept_message rt resets m =
     (let then_state = state_name_to_identifier (ti_then_state rt) in
      case take_data rt (sm_parsers m (ti_identifier rt)) of
        Inl e \<Rightarrow> Inl e
      | Inr (d, p) \<Rightarrow>
          Inr (reset_parsers resets
            ((set_parser rt p m)\<lparr>sm_pending := (sm_pending m)(then_state \<mapsto> (ti_identifier rt, d)), sm_has_message := True,
               sm_message_state := then_state, sm_state := then_state\<rparr>)))"

text \<open>A case of the switch: \<open>total_consumed\<close>, \<open>any_parser_progressed\<close> and the machine.\<close>

type_synonym receive_result = "(conversion_error + nat \<times> bool \<times> side_machine) option"

definition receive_single :: "transition_info \<Rightarrow> octets \<Rightarrow> side_machine \<Rightarrow> receive_result" where
  "receive_single rt data m =
     (case message_parse rt (sm_parsers m (ti_identifier rt)) data of
        None \<Rightarrow> None
      | Some (status, consumed, p) \<Rightarrow>
          (let m = set_parser rt p m in
           case status of
             Complete \<Rightarrow> Some (map_sum id (\<lambda>m. (consumed, True, m)) (accept_message rt [rt] m))
           | NeedMoreData \<Rightarrow> Some (Inr (consumed, True, m))
           | ParseError \<Rightarrow> Some (Inr (consumed, False, m))))"

text \<open>The chain of attempts: \<open>ts\<close> are all transitions of the state.\<close>

fun receive_attempts :: "transition_info list \<Rightarrow> transition_info list \<Rightarrow> octets \<Rightarrow> side_machine \<Rightarrow> receive_result" where
  "receive_attempts ts [] data m = Some (Inr (0, False, m))"
| "receive_attempts ts (rt # rest) data m =
     (case message_parse rt (sm_parsers m (ti_identifier rt)) data of
        None \<Rightarrow> None
      | Some (status, consumed, p) \<Rightarrow>
          (let m = set_parser rt p m in
           case status of
             Complete \<Rightarrow> Some (map_sum id (\<lambda>m. (consumed, True, m)) (accept_message rt ts m))
           | NeedMoreData \<Rightarrow> Some (Inr (consumed, True, reset_parsers rest m))
           | ParseError \<Rightarrow>
               if rest = [] then Some (Inr (0, False, m))
               else receive_attempts ts rest data (reset_parsers [rt] m)))"

definition transitions_from :: "protocol_info \<Rightarrow> bool \<Rightarrow> string \<Rightarrow> transition_info list" where
  "transitions_from info is_client state =
     (case find (\<lambda>(s, ts). state_name_to_identifier s = state) (reads_by_state info is_client) of
        None \<Rightarrow> [] | Some (s, ts) \<Rightarrow> ts)"

definition receive_dispatch :: "protocol_info \<Rightarrow> bool \<Rightarrow> octets \<Rightarrow> side_machine \<Rightarrow> receive_result" where
  "receive_dispatch info is_client data m =
     (case transitions_from info is_client (sm_state m) of
        [] \<Rightarrow> Some (Inr (0, False, m))
      | [rt] \<Rightarrow> receive_single rt data m
      | ts \<Rightarrow> receive_attempts ts ts data m)"

definition on_bytes_received ::
  "protocol_info \<Rightarrow> bool \<Rightarrow> octets \<Rightarrow> side_machine \<Rightarrow> (conversion_error + nat \<times> side_machine) option" where
  "on_bytes_received info is_client data m =
     (if data = [] \<or> is_closed m \<or> sm_has_error m then Some (Inr (0, m))
      else
        map_option (map_sum id (\<lambda>(consumed, progressed, m).
            (consumed, if \<not> progressed \<and> consumed = 0 then m\<lparr>sm_has_error := True\<rparr> else m)))
          (receive_dispatch info is_client data m))"

section \<open>The other methods\<close>

text \<open>\<open>take_\<close> dereferences the optional, which has to hold a message.\<close>

definition take_message :: "string \<Rightarrow> side_machine \<Rightarrow> (parsed_message \<times> side_machine) option" where
  "take_message state m =
     map_option (\<lambda>x. (x, m\<lparr>sm_has_message := False, sm_pending := (sm_pending m)(state := None)\<rparr>)) (sm_pending m state)"

definition bytes_written :: "nat \<Rightarrow> side_machine \<Rightarrow> side_machine" where
  "bytes_written count m = m\<lparr>sm_output := (if length (sm_output m) \<le> count then [] else drop count (sm_output m))\<rparr>"

definition on_eof :: "protocol_info \<Rightarrow> bool \<Rightarrow> side_machine \<Rightarrow> side_machine" where
  "on_eof info is_client m =
     (if is_closed m then m
      else fold (\<lambda>rt m. set_parser rt (parser_on_eof (sm_parsers m (ti_identifier rt))) m)
        (transitions_from info is_client (sm_state m)) m)"

definition send :: "transition_info \<Rightarrow> message_values \<Rightarrow> side_machine \<Rightarrow> side_machine option" where
  "send wt d m =
     map_option (\<lambda>(out, s). m\<lparr>sm_output := out, sm_serializers := (sm_serializers m)(ti_identifier wt := s),
         sm_state := state_name_to_identifier (ti_then_state wt)\<rparr>)
       (send_message wt d (sm_serializers m (ti_identifier wt)) (sm_output m))"

section \<open>The runner\<close>

text \<open>A handler answers a message that has arrived in a state with a message to send. What it answers
  has one of the types of the output variant; for a type the side does not write,
  \<open>dispatch_output\<close> does nothing.\<close>

type_synonym handler = "string \<Rightarrow> parsed_message \<Rightarrow> string \<times> message_values"

definition dispatch_output :: "protocol_info \<Rightarrow> bool \<Rightarrow> string \<times> message_values \<Rightarrow> side_machine \<Rightarrow> side_machine option" where
  "dispatch_output info is_client msg m =
     (case find (\<lambda>wt. ti_identifier wt = fst msg) (get_write_transitions_for_agent info is_client) of
        None \<Rightarrow> Some m
      | Some wt \<Rightarrow> send wt (snd msg) m)"

definition dispatch_message :: "protocol_info \<Rightarrow> bool \<Rightarrow> handler \<Rightarrow> side_machine \<Rightarrow> side_machine option" where
  "dispatch_message info is_client h m =
     (if sm_message_state m \<in> state_name_to_identifier ` fst ` set (handled_states info is_client) then
        Option.bind (take_message (sm_message_state m) m)
          (\<lambda>(msg, m'). dispatch_output info is_client (h (sm_message_state m) msg) m')
      else Some m)"

partial_function (option) dispatch_messages :: "protocol_info \<Rightarrow> bool \<Rightarrow> handler \<Rightarrow> side_machine \<Rightarrow> side_machine option" where
  "dispatch_messages info is_client h m =
     (if sm_has_message m then
        (case dispatch_message info is_client h m of
           None \<Rightarrow> None
         | Some m' \<Rightarrow> dispatch_messages info is_client h m')
      else Some m)"

definition runner_on_bytes_received ::
  "protocol_info \<Rightarrow> bool \<Rightarrow> handler \<Rightarrow> octets \<Rightarrow> side_machine \<Rightarrow> (conversion_error + nat \<times> side_machine) option" where
  "runner_on_bytes_received info is_client h data m =
     (case on_bytes_received info is_client data m of
        None \<Rightarrow> None
      | Some (Inl e) \<Rightarrow> Some (Inl e)
      | Some (Inr (consumed, m')) \<Rightarrow>
          map_option (\<lambda>m. Inr (consumed, m)) (dispatch_messages info is_client h m'))"

definition runner_start :: "protocol_info \<Rightarrow> bool \<Rightarrow> string \<times> message_values \<Rightarrow> side_machine \<Rightarrow> side_machine option" where
  "runner_start info is_client opening m = dispatch_output info is_client opening m"

end
