(* ===== verification/GeneratedTheorems.thy ===== *)
theory GeneratedTheorems
  imports CodegenTheorems SerializerTheorems ParserTheorems GeneratedMachine
begin

text \<open>
  What the generated code promises: a message that one side sends arrives at the other side, with
  its fields, and both are in the state the protocol says; where this fails; and what every
  machine keeps.
\<close>

section \<open>A message on the wire\<close>

text \<open>The data of a message whose fields are texts.\<close>

definition text_values :: "(string \<Rightarrow> octets) \<Rightarrow> message_values" where
  "text_values v = (\<lambda>f. Some (TextField (v f)))"

text \<open>What the generated code needs of an action and the text of its field to get it across.\<close>

definition transmissible :: "message_data \<Rightarrow> (string \<Rightarrow> octets) \<Rightarrow> action \<Rightarrow> bool" where
  "transmissible data v a \<longleftrightarrow> readable v a \<and>
     (case a of
        ReadStaticOctets octets \<Rightarrow> octets \<noteq> [] \<and> CHR 0x00 \<notin> set octets
      | ReadOctetsUntilTerminator t i escape \<Rightarrow>
          v (id_name i) \<noteq> [] \<and> CHR 0x00 \<notin> set t \<and> split_dot (id_name i) = None \<and> \<not> is_numeric_field data (id_name i)
      | _ \<Rightarrow> False)"

lemma escapes_nonempty: "escapes esc_char esc_seq p w \<Longrightarrow> esc_seq \<noteq> [] \<Longrightarrow> p \<noteq> [] \<Longrightarrow> w \<noteq> []"
  by (induction rule: escapes.induct) auto

lemma escaped_text_spec:
  assumes "readable v a" and "a = ReadOctetsUntilTerminator t i escape"
  shows "wire_octets wt (text_values v) (WriteFromIdentifier i escape) =
      (if is_numeric_field (ti_data wt) (id_name i) then None else Some (escaped_text escape (v (id_name i))))"
    and "v (id_name i) \<noteq> [] \<Longrightarrow> escaped_text escape (v (id_name i)) \<noteq> []"
proof -
  have e: "\<exists>w. apply_escape_replacement (v (id_name i)) (ei_character e) (ei_sequence e) = Inr w
      \<and> escapes (ei_character e) (ei_sequence e) (v (id_name i)) w \<and> ei_sequence e \<noteq> []" if "escape = Some e" for e
    using assms that apply_escape_replacement_escapes [of "ei_character e"] by (simp add: readable_def)
  then show "wire_octets wt (text_values v) (WriteFromIdentifier i escape) =
      (if is_numeric_field (ti_data wt) (id_name i) then None else Some (escaped_text escape (v (id_name i))))"
    by (cases escape) (auto simp: wire_octets_def text_values_def init_string_def to_string_def escaped_text_def)
  show "escaped_text escape (v (id_name i)) \<noteq> []" if "v (id_name i) \<noteq> []"
    using e that escapes_nonempty by (cases escape) (fastforce simp: escaped_text_def)+
qed

lemma write_of_read_wire:
  assumes "transmissible (ti_data wt) v a"
  shows "\<forall>x \<in> set (write_of_read a). plain_write x \<and> (\<exists>b. wire_octets wt (text_values v) x = Some b \<and> b \<noteq> [])"
    and "concat (map (\<lambda>x. the (wire_octets wt (text_values v) x)) (write_of_read a)) = read_wire v a"
proof -
  have "(\<forall>x \<in> set (write_of_read a). plain_write x \<and> (\<exists>b. wire_octets wt (text_values v) x = Some b \<and> b \<noteq> []))
    \<and> concat (map (\<lambda>x. the (wire_octets wt (text_values v) x)) (write_of_read a)) = read_wire v a"
  proof (cases a)
    case (ReadStaticOctets octets)
    with assms show ?thesis by (simp add: transmissible_def plain_write_def wire_octets_def read_wire_def)
  next
    case (ReadOctetsUntilTerminator t i escape)
    from assms have r: "readable v a" by (simp add: transmissible_def)
    have t: "wire_octets wt (text_values v) (WriteStaticOctets t) = Some t" "t \<noteq> []"
      using r by (simp_all add: wire_octets_def readable_def ReadOctetsUntilTerminator)
    from escaped_text_spec [OF r ReadOctetsUntilTerminator] r assms t show ?thesis
      by (auto simp: ReadOctetsUntilTerminator transmissible_def plain_write_def read_wire_def readable_def)
  qed (use assms in \<open>simp_all add: transmissible_def\<close>)
  then show "\<forall>x \<in> set (write_of_read a). plain_write x \<and> (\<exists>b. wire_octets wt (text_values v) x = Some b \<and> b \<noteq> [])"
    and "concat (map (\<lambda>x. the (wire_octets wt (text_values v) x)) (write_of_read a)) = read_wire v a" by blast+
qed

lemma send_message_mirror:
  assumes "ti_actions wt = write_of_reads as" and "\<forall>a \<in> set as. transmissible (ti_data wt) v a"
  shows "map_option fst (send_message wt (text_values v) s out) = Some (out @ wire v as)"
proof -
  have "map_option fst (send_message wt (text_values v) s out) =
      Some (out @ concat (map (\<lambda>a. the (wire_octets wt (text_values v) a)) (ti_actions wt)))"
    by (rule send_message_wire) (use assms write_of_read_wire(1) in \<open>auto simp del: write_of_read.simps\<close>)
  also have "concat (map (\<lambda>a. the (wire_octets wt (text_values v) a)) (ti_actions wt)) = wire v as"
    unfolding assms(1) using assms(2) by (induction as) (simp_all add: wire_def write_of_read_wire(2))
  finally show ?thesis .
qed

section \<open>Taking the data\<close>

lemma numeric_type_int: "type_to_cpp t [] = Some m \<Longrightarrow> is_numeric_type (cpp_type m) \<Longrightarrow> id_name (type_name t) = ''int''"
  by (cases t) (auto simp: is_numeric_type_def map_str_type_def array_of_mapping_def struct_name_of_def Let_def
      split: if_splits option.splits type_parameter_value.splits)

lemma field_not_numeric: "\<not> is_numeric_field (ti_data rt) f \<Longrightarrow> \<not> is_numeric_type (get_field_cpp_type rt f)"
  using numeric_type_int
  by (auto simp: is_numeric_field_def get_field_cpp_type_def is_numeric_type_def split: option.splits)

lemma take_data_fields:
  assumes "\<forall>a \<in> set (ti_actions rt). transmissible (ti_data rt) v a"
    and "\<And>f. f \<in> set (read_fields (ti_actions rt)) \<Longrightarrow> mp_buffers p f = v f"
  shows "take_data rt p = Inr (map (\<lambda>f. (f, ParsedText (v f))) (read_fields (ti_actions rt)), init_parser)"
proof -
  have "take_actions rt p as = Inr (map (\<lambda>f. (f, ParsedText (v f))) (read_fields as))"
    if "\<forall>a \<in> set as. transmissible (ti_data rt) v a" "\<And>f. f \<in> set (read_fields as) \<Longrightarrow> mp_buffers p f = v f" for as
    using that
  proof (induction as)
    case (Cons a as)
    then have "take_actions rt p as = Inr (map (\<lambda>f. (f, ParsedText (v f))) (read_fields as))"
      by (simp add: read_fields_def inner_identifiers_def)
    moreover have "take_action rt p a = Inr (map (\<lambda>f. (f, ParsedText (v f))) (read_fields [a]))"
      using Cons.prems by (cases a)
        (auto simp: take_action_def read_fields_def inner_identifiers_def transmissible_def field_not_numeric Let_def)
    ultimately show ?case by (simp add: read_fields_def inner_identifiers_def)
  qed (simp add: read_fields_def inner_identifiers_def)
  from this [OF assms] show ?thesis by (simp add: take_data_def parser_reset_def)
qed

lemma readable_transmissible: "transmissible data v a \<Longrightarrow> readable v a"
  by (simp add: transmissible_def)

lemma message_received:
  assumes "\<forall>a \<in> set (ti_actions rt). transmissible (ti_data rt) v a" and "distinct (read_fields (ti_actions rt))"
    and "sm_parsers m (ti_identifier rt) = init_parser"
  shows "\<exists>m'. receive_single rt (wire v (ti_actions rt) @ rest) m = Some (Inr (length (wire v (ti_actions rt)), True, m'))
    \<and> sm_state m' = state_name_to_identifier (ti_then_state rt) \<and> sm_message_state m' = sm_state m' \<and> sm_has_message m'
    \<and> sm_has_error m' = sm_has_error m \<and> sm_output m' = sm_output m
    \<and> sm_pending m' (sm_state m') = Some (ti_identifier rt, map (\<lambda>f. (f, ParsedText (v f))) (read_fields (ti_actions rt)))
    \<and> sm_parsers m' = sm_parsers m"
proof -
  let ?p = "(fields_parser v (ti_actions rt) (length (ti_actions rt)))\<lparr>mp_complete := True\<rparr>"
  have "message_parse rt (sm_parsers m (ti_identifier rt)) (wire v (ti_actions rt) @ rest) =
      Some (Complete, length (wire v (ti_actions rt)), ?p)"
    unfolding assms(3) by (rule message_parse_wire) (use assms(1,2) readable_transmissible in blast)+
  moreover have "take_data rt ?p = Inr (map (\<lambda>f. (f, ParsedText (v f))) (read_fields (ti_actions rt)), init_parser)"
    by (rule take_data_fields [OF assms(1)]) (simp add: fields_parser_def)
  moreover have "(sm_parsers m)(ti_identifier rt := init_parser) = sm_parsers m" using assms(3) by auto
  ultimately show ?thesis
    by (simp add: receive_single_def accept_message_def set_parser_def reset_parsers_def parser_reset_def Let_def)
qed

section \<open>From one machine to the other\<close>

lemma wire_nonempty: "\<forall>a \<in> set as. transmissible data v a \<Longrightarrow> as \<noteq> [] \<Longrightarrow> wire v as \<noteq> []"
  by (cases as; cases "hd as") (auto simp: wire_def read_wire_def transmissible_def readable_def)

lemma write_info_side:
  assumes "analyze p = Some pr" and "ordered p" and "(n, m) \<in> set p" and "id_name (msg_agent m) = side_name client"
  shows "write_info_spec (n, m) \<in> set (get_write_transitions_for_agent (protocol_info pr) client)"
proof -
  have "write_info_spec (n, m) \<in> set (collect_write_transitions pr)"
    unfolding protocol_writes [OF assms(1,2)] by (rule imageI) (use assms(3,4) in \<open>simp add: side_name_def\<close>)
  with assms(4) show ?thesis
    by (simp add: get_write_transitions_for_agent_def protocol_info_def write_info_spec_def transition_info_spec_def)
qed

lemma deliver:
  assumes "parts_to_read_actions (msg_parts m) = Some as" and "\<forall>x \<in> set (msg_parts m). tokens_present x"
    and "as \<noteq> []" and "\<forall>a \<in> set as. transmissible (msg_data m) v a" and "distinct (read_fields as)"
    and "transitions_from info (\<not> client) (state_name_to_identifier (id_name (msg_when m))) = [read_info_spec (n, m)]"
    and "sm_output sender = []"
    and "sm_state receiver = state_name_to_identifier (id_name (msg_when m))" and "\<not> is_closed receiver"
    and "\<not> sm_has_error receiver" and "sm_parsers receiver (message_name_to_identifier n) = init_parser"
  shows "\<exists>sender' receiver'. send (write_info_spec (n, m)) (text_values v) sender = Some sender'
    \<and> on_bytes_received info (\<not> client) (sm_output sender') receiver = Some (Inr (length (sm_output sender'), receiver'))
    \<and> sm_state sender' = state_name_to_identifier (id_name (msg_then m)) \<and> sm_state receiver' = sm_state sender'
    \<and> sm_has_message receiver' \<and> sm_message_state receiver' = sm_state receiver'
    \<and> sm_pending receiver' (sm_state receiver') =
        Some (message_name_to_identifier n, map (\<lambda>f. (f, ParsedText (v f))) (read_fields as))
    \<and> sm_parsers receiver' = sm_parsers receiver"
proof -
  let ?rt = "read_info_spec (n, m)" and ?wt = "write_info_spec (n, m)"
  have wt: "ti_actions ?wt = write_of_reads as" "ti_data ?wt = msg_data m" "ti_then_state ?wt = id_name (msg_then m)"
    using write_mirror [OF assms(1,2)] by (simp_all add: write_info_spec_def transition_info_spec_def)
  have rt: "ti_actions ?rt = as" "ti_data ?rt = msg_data m" "ti_then_state ?rt = id_name (msg_then m)"
      "ti_identifier ?rt = message_name_to_identifier n"
    using assms(1) by (simp_all add: read_info_spec_def transition_info_spec_def)
  have "\<forall>a \<in> set as. transmissible (ti_data ?wt) v a" using assms(4) wt(2) by simp
  from send_message_mirror [OF wt(1) this, of "sm_serializers sender (ti_identifier ?wt)" "[]"] obtain sz where
    s: "send_message ?wt (text_values v) (sm_serializers sender (ti_identifier ?wt)) [] = Some (wire v as, sz)" by auto
  then obtain sender' where sender': "send ?wt (text_values v) sender = Some sender'" "sm_output sender' = wire v as"
      "sm_state sender' = state_name_to_identifier (id_name (msg_then m))"
    using assms(7) wt(3) by (simp add: send_def)
  have "\<forall>a \<in> set (ti_actions ?rt). transmissible (ti_data ?rt) v a" "distinct (read_fields (ti_actions ?rt))"
      "sm_parsers receiver (ti_identifier ?rt) = init_parser"
    using assms(4,5,11) rt by simp_all
  from message_received [OF this, of "[]"] rt obtain receiver' where
    r: "receive_single ?rt (wire v as) receiver = Some (Inr (length (wire v as), True, receiver'))"
      "sm_state receiver' = state_name_to_identifier (id_name (msg_then m))" "sm_message_state receiver' = sm_state receiver'"
      "sm_has_message receiver'" "sm_parsers receiver' = sm_parsers receiver"
      "sm_pending receiver' (sm_state receiver') =
        Some (message_name_to_identifier n, map (\<lambda>f. (f, ParsedText (v f))) (read_fields as))"
    by auto
  have "on_bytes_received info (\<not> client) (wire v as) receiver = Some (Inr (length (wire v as), receiver'))"
    using wire_nonempty [OF assms(4,3)] assms(6,8-10) r(1) by (simp add: on_bytes_received_def receive_dispatch_def)
  with sender' r show ?thesis by auto
qed

section \<open>What every machine keeps\<close>

text \<open>The operations of a machine, as its user may call them in any order.\<close>

inductive side_step :: "protocol_info \<Rightarrow> bool \<Rightarrow> side_machine \<Rightarrow> side_machine \<Rightarrow> bool" for info is_client where
  step_receive: "on_bytes_received info is_client data m = Some (Inr (consumed, m')) \<Longrightarrow> side_step info is_client m m'"
| step_take: "take_message s m = Some (msg, m') \<Longrightarrow> side_step info is_client m m'"
| step_written: "side_step info is_client m (bytes_written count m)"
| step_eof: "side_step info is_client m (on_eof info is_client m)"
| step_send: "wt \<in> set (get_write_transitions_for_agent info is_client) \<Longrightarrow> send wt d m = Some m' \<Longrightarrow> side_step info is_client m m'"

definition state_identifiers :: "protocol_info \<Rightarrow> string set" where
  "state_identifiers info = state_name_to_identifier ` set (pi_states info)"

text \<open>The alternatives of the \<open>Input\<close> variant of a state.\<close>

definition input_alternatives :: "protocol_info \<Rightarrow> bool \<Rightarrow> string \<Rightarrow> string set" where
  "input_alternatives info is_client s =
     {ti_identifier rt | rt. rt \<in> set (get_read_transitions_for_agent info is_client) \<and> state_name_to_identifier (ti_then_state rt) = s}"

definition machine_ok :: "protocol_info \<Rightarrow> bool \<Rightarrow> side_machine \<Rightarrow> bool" where
  "machine_ok info is_client m \<longleftrightarrow>
     sm_state m \<in> state_identifiers info
     \<and> (sm_has_message m \<longrightarrow> sm_pending m (sm_message_state m) \<noteq> None)
     \<and> (\<forall>s x. sm_pending m s = Some x \<longrightarrow> fst x \<in> input_alternatives info is_client s)"

definition info_ok :: "protocol_info \<Rightarrow> bool" where
  "info_ok info \<longleftrightarrow>
     (\<forall>t \<in> set (pi_read_transitions info) \<union> set (pi_write_transitions info). ti_then_state t \<in> set (pi_states info))"

lemma machine_ok_parsers [simp]:
  "machine_ok info is_client (m\<lparr>sm_parsers := ps\<rparr>) \<longleftrightarrow> machine_ok info is_client m"
  "machine_ok info is_client (set_parser rt p m) \<longleftrightarrow> machine_ok info is_client m"
  "machine_ok info is_client (reset_parsers rts m) \<longleftrightarrow> machine_ok info is_client m"
proof -
  show p: "machine_ok info is_client (m\<lparr>sm_parsers := ps\<rparr>) \<longleftrightarrow> machine_ok info is_client m" for m ps
    by (simp add: machine_ok_def)
  then show "machine_ok info is_client (set_parser rt p m) \<longleftrightarrow> machine_ok info is_client m" for rt p m
    by (simp add: set_parser_def)
  then show "machine_ok info is_client (reset_parsers rts m) \<longleftrightarrow> machine_ok info is_client m"
    unfolding reset_parsers_def by (induction rts arbitrary: m) simp_all
qed

lemma machine_ok_accept:
  assumes "machine_ok info is_client m" and "info_ok info" and "rt \<in> set (get_read_transitions_for_agent info is_client)"
    and "accept_message rt rts m = Inr m'"
  shows "machine_ok info is_client m'"
proof -
  from assms(4) obtain d p where d: "m' = reset_parsers rts ((set_parser rt p m)\<lparr>
      sm_pending := (sm_pending m)(state_name_to_identifier (ti_then_state rt) \<mapsto> (ti_identifier rt, d)), sm_has_message := True,
      sm_message_state := state_name_to_identifier (ti_then_state rt), sm_state := state_name_to_identifier (ti_then_state rt)\<rparr>)"
    by (auto simp: accept_message_def Let_def split: sum.splits)
  have "ti_then_state rt \<in> set (pi_states info)"
    using assms(2) side_transitions(1) [OF assms(3)] by (simp add: info_ok_def)
  with assms(1,3) show ?thesis
    unfolding d machine_ok_parsers
    by (auto simp: machine_ok_def set_parser_def state_identifiers_def input_alternatives_def)
qed

lemma machine_ok_attempts:
  assumes "info_ok info" and "set rest \<subseteq> set (get_read_transitions_for_agent info is_client)"
  shows "machine_ok info is_client m \<Longrightarrow> receive_attempts ts rest data m = Some (Inr (n, b, m')) \<Longrightarrow> machine_ok info is_client m'"
  using assms(2)
proof (induction rest arbitrary: m)
  case (Cons rt rest)
  from Cons.prems(2) obtain status k p where r: "message_parse rt (sm_parsers m (ti_identifier rt)) data = Some (status, k, p)"
    by (auto split: option.splits)
  have ok: "machine_ok info is_client (set_parser rt p m)" using Cons.prems(1) by simp
  have rt: "rt \<in> set (get_read_transitions_for_agent info is_client)" using Cons.prems(3) by simp
  show ?case
  proof (cases status)
    case Complete
    with Cons.prems(2) r obtain m'' where "accept_message rt ts (set_parser rt p m) = Inr m''" "m' = m''"
      by (cases "accept_message rt ts (set_parser rt p m)") (auto simp: Let_def)
    with machine_ok_accept [OF ok assms(1) rt] show ?thesis by blast
  next
    case NeedMoreData
    with Cons.prems(2) r ok show ?thesis by (auto simp: Let_def)
  next
    case ParseError
    show ?thesis
    proof (cases "rest = []")
      case True
      with ParseError Cons.prems(2) r ok show ?thesis by (auto simp: Let_def)
    next
      case False
      with ParseError Cons.prems(2) r have "receive_attempts ts rest data (reset_parsers [rt] (set_parser rt p m)) = Some (Inr (n, b, m'))"
        by (simp add: Let_def)
      with Cons.IH [of "reset_parsers [rt] (set_parser rt p m)"] ok Cons.prems(3) show ?thesis by simp
    qed
  qed
qed auto

lemma transitions_from_side: "rt \<in> set (transitions_from info is_client s) \<Longrightarrow> rt \<in> set (get_read_transitions_for_agent info is_client)"
proof -
  assume rt: "rt \<in> set (transitions_from info is_client s)"
  then obtain q where q: "find (\<lambda>(s', ts). state_name_to_identifier s' = s) (reads_by_state info is_client) = Some q" "rt \<in> set (snd q)"
    by (cases "find (\<lambda>(s', ts). state_name_to_identifier s' = s) (reads_by_state info is_client)")
      (auto simp: transitions_from_def)
  from q(1) have "q \<in> set (reads_by_state info is_client)" unfolding find_Some_iff by (metis nth_mem)
  then show ?thesis using q(2) unfolding reads_by_state_def by (rule group_by_element)
qed

lemma on_bytes_received_cases:
  assumes "on_bytes_received info is_client data m = Some (Inr (n, m'))"
  shows "m' = m \<or> (\<exists>k b m''. receive_dispatch info is_client data m = Some (Inr (k, b, m''))
    \<and> (m' = m'' \<or> m' = m''\<lparr>sm_has_error := True\<rparr>))"
proof (cases "data = [] \<or> is_closed m \<or> sm_has_error m")
  case True
  with assms show ?thesis by (simp add: on_bytes_received_def)
next
  case False
  with assms obtain r where r: "receive_dispatch info is_client data m = Some r"
    by (cases "receive_dispatch info is_client data m") (simp_all add: on_bytes_received_def)
  show ?thesis
  proof (cases r)
    case (Inl e)
    with False assms r show ?thesis by (simp add: on_bytes_received_def)
  next
    case (Inr x)
    obtain k b m'' where "x = (k, b, m'')" by (cases x)
    with False assms r Inr show ?thesis by (auto simp: on_bytes_received_def split: if_splits)
  qed
qed

lemma machine_ok_receive:
  assumes "machine_ok info is_client m" and "info_ok info" and "on_bytes_received info is_client data m = Some (Inr (n, m'))"
  shows "machine_ok info is_client m'"
proof -
  have e: "machine_ok info is_client (x\<lparr>sm_has_error := True\<rparr>) \<longleftrightarrow> machine_ok info is_client x" for x
    by (simp add: machine_ok_def)
  let ?ts = "transitions_from info is_client (sm_state m)"
  have side: "set ?ts \<subseteq> set (get_read_transitions_for_agent info is_client)" using transitions_from_side by blast
  have single: "machine_ok info is_client m''" if "?ts = [rt]" "receive_single rt data m = Some (Inr (k, b, m''))" for rt k b m''
  proof -
    from that(2) have "receive_attempts [rt] [rt] data m = Some (Inr (if b then k else 0, b, m''))
        \<or> receive_attempts [rt] [rt] data m = Some (Inr (k, b, m''))"
      by (auto simp: receive_single_def reset_parsers_def Let_def split: option.splits parse_status.splits sum.splits)
    with machine_ok_attempts [OF assms(2) _ assms(1), of "[rt]"] side that(1) show ?thesis by auto
  qed
  have "machine_ok info is_client m''" if "receive_dispatch info is_client data m = Some (Inr (k, b, m''))" for k b m''
    using that single machine_ok_attempts [OF assms(2) side assms(1), of ?ts] assms(1)
    by (auto simp: receive_dispatch_def split: list.splits)
  with on_bytes_received_cases [OF assms(3)] assms(1) e show ?thesis by blast
qed

lemma machine_ok_step:
  assumes "info_ok info" and "side_step info is_client m m'" and "machine_ok info is_client m"
  shows "machine_ok info is_client m'"
  using assms(2,3)
proof cases
  case (step_receive data consumed)
  then show ?thesis using machine_ok_receive [OF assms(3,1)] by blast
next
  case (step_take s msg)
  with assms(3) show ?thesis by (auto simp: take_message_def machine_ok_def split: if_splits)
next
  case (step_written count)
  with assms(3) show ?thesis by (simp add: bytes_written_def machine_ok_def)
next
  case step_eof
  have "machine_ok info is_client (fold (\<lambda>rt m. set_parser rt (parser_on_eof (sm_parsers m (ti_identifier rt))) m) rts m)" for rts
    using assms(3) by (induction rts arbitrary: m) simp_all
  with step_eof assms(3) show ?thesis by (simp add: on_eof_def)
next
  case (step_send wt d)
  then have "ti_then_state wt \<in> set (pi_states info)" using assms(1) side_transitions(2) by (auto simp: info_ok_def)
  with step_send assms(3) show ?thesis by (auto simp: send_def machine_ok_def state_identifiers_def)
qed

lemma machine_ok_reachable:
  assumes "info_ok info" and "(side_step info is_client)\<^sup>*\<^sup>* m m'" and "machine_ok info is_client m"
  shows "machine_ok info is_client m'"
  using assms(2,3) by (induction rule: rtranclp_induct) (auto intro: machine_ok_step [OF assms(1)])

lemma analyzed_info_ok:
  assumes "analyze p = Some pr" and "ordered p"
  shows "info_ok (protocol_info pr)"
proof -
  have t: "ti_then_state (read_info_spec q) = id_name (msg_then (snd q))" "ti_then_state (write_info_spec q) = id_name (msg_then (snd q))" for q
    by (simp_all add: read_info_spec_def write_info_spec_def transition_info_spec_def)
  have "id_name (msg_then (snd q)) \<in> set (collect_states pr)" if "q \<in> set p" for q
    using that unfolding protocol_states(1) [OF assms] by blast
  with t show ?thesis
    using protocol_reads [OF assms] protocol_writes [OF assms] by (simp add: info_ok_def protocol_info_def ball_Un)
qed

lemma machine_ok_init:
  assumes "pi_states info \<noteq> []"
  shows "machine_ok info is_client (init_machine info)"
proof -
  have "state_name_to_identifier ''Open'' = ''Open''"
    by (simp add: state_name_to_identifier_def is_alnum_def is_upper_def is_lower_def is_decimal_def less_eq_char_def)
  with assms show ?thesis
    by (cases "pi_states info") (auto simp: machine_ok_def init_machine_def initial_state_def state_identifiers_def
        intro: rev_image_eqI)
qed

section \<open>The loop of the runner\<close>

lemma dispatch_stuck:
  assumes "sm_has_message m" and "sm_message_state m \<notin> state_name_to_identifier ` fst ` set (handled_states info is_client)"
  shows "dispatch_messages info is_client h m = None"
proof (rule ccontr)
  assume "dispatch_messages info is_client h m \<noteq> None"
  then obtain x where "dispatch_messages info is_client h m = Some x" by blast
  moreover have "sm_has_message m \<and> sm_message_state m \<notin> state_name_to_identifier ` fst ` set (handled_states info is_client) \<longrightarrow> False"
    if "dispatch_messages info is_client h m = Some x" for m x
  proof (rule dispatch_messages.raw_induct [where P = "\<lambda>info is_client h m x. sm_has_message m \<and>
      sm_message_state m \<notin> state_name_to_identifier ` fst ` set (handled_states info is_client) \<longrightarrow> False", OF _ that])
    fix dm :: "protocol_info \<Rightarrow> bool \<Rightarrow> handler \<Rightarrow> side_machine \<Rightarrow> side_machine option"
    fix info is_client h m x
    assume IH: "\<And>info is_client h m x. dm info is_client h m = Some x \<Longrightarrow> sm_has_message m \<and>
        sm_message_state m \<notin> state_name_to_identifier ` fst ` set (handled_states info is_client) \<longrightarrow> False"
      and x: "(if sm_has_message m then
        (case dispatch_message info is_client h m of
           None \<Rightarrow> None
         | Some m' \<Rightarrow> dm info is_client h m')
      else Some m) = Some x"
    show "sm_has_message m \<and> sm_message_state m \<notin> state_name_to_identifier ` fst ` set (handled_states info is_client) \<longrightarrow> False"
    proof
      assume m: "sm_has_message m \<and> sm_message_state m \<notin> state_name_to_identifier ` fst ` set (handled_states info is_client)"
      then have "dispatch_message info is_client h m = Some m" by (simp add: dispatch_message_def)
      with x m IH show False by auto
    qed
  qed
  ultimately show False using assms by blast
qed

end
