(* ===== verification/GeneratedClaims.thy ===== *)
theory GeneratedClaims
  imports GeneratedTheorems
begin

text \<open>
  The properties of the generated code, with their witnesses.
\<close>

section \<open>Numbers\<close>

lemma number_text_digits:
  assumes "\<forall>c \<in> set ds. is_digit c" and "ds \<noteq> []"
  shows "number_text ds = (False, ds)" and "number_text (CHR ''-'' # ds) = (True, ds)"
proof -
  have c: "c_str ds = ds" "c_str (CHR ''-'' # ds) = CHR ''-'' # ds"
    using assms(1) is_digit_not_special by (auto simp: c_str_def takeWhile_eq_all_conv)
  have s: "dropWhile is_space ds = ds" "dropWhile is_space (CHR ''-'' # ds) = CHR ''-'' # ds"
    using assms is_digit_not_special by (cases ds; auto simp: is_space_def)+
  have t: "takeWhile is_digit ds = ds" using assms(1) by (simp add: takeWhile_eq_all_conv)
  have "hd ds \<noteq> CHR ''-''" "hd ds \<noteq> CHR ''+''" using assms is_digit_not_special by (cases ds; auto)+
  with assms(2) c s t show "number_text ds = (False, ds)" "number_text (CHR ''-'' # ds) = (True, ds)"
    by (cases ds; simp add: number_text_def)+
qed

lemma number_text_decimal: "number_text (decimal_int n) = (n < 0, decimal_nat (nat \<bar>n\<bar>))"
  using number_text_digits [OF decimal_nat_digits decimal_nat_nonempty] by (simp add: decimal_int_def)

definition in_range :: "string \<Rightarrow> int \<Rightarrow> bool" where
  "in_range t n \<longleftrightarrow>
     (if prefix ''uint'' t then 0 \<le> n \<and> n < 2 ^ type_bits t
      else - (2 ^ (type_bits t - 1)) \<le> n \<and> n < 2 ^ (type_bits t - 1))"

lemma take_number_decimal:
  assumes "if prefix ''uint'' t then - (2 ^ 64) < n \<and> n < 2 ^ 64 else - (2 ^ 63) \<le> n \<and> n < 2 ^ 63"
  shows "take_number t (decimal_int n) = Inr (static_cast t (if prefix ''uint'' t then n mod 2 ^ 64 else n))"
proof -
  have "decimal_int n \<noteq> []" by (simp add: decimal_int_def decimal_nat_nonempty)
  moreover have "stoul (decimal_int n) = Inr (n mod 2 ^ 64)" if "- (2 ^ 64) < n" "n < 2 ^ 64"
    using that by (auto simp: stoul_def number_text_decimal decimal_nat_nonempty decimal_nat_value Let_def)
  moreover have "stol (decimal_int n) = Inr n" if "- (2 ^ 63) \<le> n" "n < 2 ^ 63"
    using that by (auto simp: stol_def number_text_decimal decimal_nat_nonempty decimal_nat_value Let_def)
  ultimately show ?thesis using assms by (simp add: take_number_def split: if_splits)
qed

lemma static_cast_range:
  assumes "is_numeric_type t"
  shows "in_range t (static_cast t v)" and "static_cast t v = v \<longleftrightarrow> in_range t v"
proof -
  have b: "2 ^ type_bits t = 2 * (2 :: int) ^ (type_bits t - 1)" by (simp add: type_bits_def)
  let ?h = "(2 :: int) ^ (type_bits t - 1)"
  have h: "0 < ?h" by simp
  show r: "in_range t (static_cast t v)"
    using h by (simp add: in_range_def static_cast_def Let_def b) 
  show "static_cast t v = v \<longleftrightarrow> in_range t v"
  proof
    assume "static_cast t v = v"
    with r show "in_range t v" by simp
  next
    assume "in_range t v"
    with h show "static_cast t v = v"
      by (auto simp: in_range_def static_cast_def Let_def b split: if_splits)
  qed
qed

section \<open>The serializer\<close>

text \<open>The generated \<open>send_\<close> method puts the chunks of the actions into the output buffer, in
  order, up to the first chunk that is empty: what comes after an empty field is not sent.\<close>

theorem serializer_sends_chunks:
  assumes "\<forall>a \<in> set (ti_actions wt). action_chunk wt d a \<noteq> None"
  shows "map_option fst (send_message wt d s buffer) =
    Some (buffer @ concat (takeWhile (\<lambda>b. b \<noteq> []) (map (\<lambda>a. the (action_chunk wt d a)) (ti_actions wt))))"
  using assms by (rule send_message_chunks)

definition greeting_write_info :: transition_info where
  "greeting_write_info = write_info_spec (hd (greeting ''Hello'' ''str''))"

definition greeting_read_info :: transition_info where
  "greeting_read_info = read_info_spec (hd (greeting ''Hello'' ''str''))"

lemma greeting_actions:
  "ti_actions greeting_write_info = greeting_writes" "ti_actions greeting_read_info = greeting_reads"
  "ti_data greeting_write_info = [(''name'', Type (IdentifierReference ''str'' None) [])]"
  "ti_data greeting_read_info = [(''name'', Type (IdentifierReference ''str'' None) [])]"
  by (simp_all add: greeting_write_info_def greeting_read_info_def write_info_spec_def read_info_spec_def
      transition_info_spec_def greeting_def greeting_reads_def greeting_writes_def write_tokens_def
      write_token_sequence_def escape_write_actions_def read_final_token_sequence_def process_token_sequence_def
      read_token_sequence_def escape_read_actions_def)

lemma greeting_chunks:
  "action_chunk greeting_write_info (text_values v) (WriteStaticOctets x) = Some (literal_chunk x)"
  "action_chunk greeting_write_info (text_values v) (WriteFromIdentifier (IdentifierReference ''name'' None) None) = Some (v ''name'')"
  by (simp_all add: action_chunk_def identifier_chunk_def text_values_def set_data_def expression_chunk_def
      is_numeric_field_def greeting_actions assign_string_def)

theorem serializer_sends_chunks_witness:
  "map_option fst (send_message greeting_write_info (text_values (\<lambda>_. [])) init_serializer []) = Some ''HELO ''"
  using serializer_sends_chunks [of greeting_write_info "text_values (\<lambda>_. [])" init_serializer "[]"]
  by (simp add: greeting_actions greeting_writes_def greeting_chunks literal_chunk_def c_str_def)



text \<open>In a loop the generated serializer takes the fields of an element for fields of the message:
  when the message has no field with the name of the loop variable, no chunk has a value.\<close>

theorem loop_members_unresolved:
  assumes "ti_actions wt ! k = Loop v c t (WriteFromIdentifier i escape # as)" and "k < length (ti_actions wt)"
    and "at_stage d k s" and "d (id_name c) = Some (ListField (x # xs))" and "sz_loop_stage s = 0"
    and "split_dot (id_name i) = None" and "d (id_name i) = None"
  shows "send_loop wt s buffer = None"
proof -
  have "next_chunk wt s = None"
    using assms by (subst next_chunk.simps) (simp add: at_stage_def)
  with assms(3) show ?thesis by (subst send_loop.simps) (simp add: at_stage_def)
qed

definition headers_info :: transition_info where
  "headers_info = \<lparr>ti_message_name = ''Headers'', ti_identifier = ''Headers'', ti_when_state = ''Open'', ti_then_state = ''Closed'',
     ti_agent = ''Client'', ti_actions = [Loop (IdentifierReference ''header'' None) (IdentifierReference ''headers'' None) ''.''
       [WriteFromIdentifier (IdentifierReference ''header'' (Some (IdentifierReference ''key'' None))) None]], ti_data = []\<rparr>"

theorem loop_members_unresolved_witness:
  "send_loop headers_info (set_data [''headers'' \<mapsto> ListField [[''key'' \<mapsto> TextField ''Host'']]] init_serializer) [] = None"
  by (rule loop_members_unresolved [where k = 0 and v = "IdentifierReference ''header'' None"
        and c = "IdentifierReference ''headers'' None" and t = "''.''"
        and i = "IdentifierReference ''header'' (Some (IdentifierReference ''key'' None))" and escape = None and as = "[]"
        and x = "[''key'' \<mapsto> TextField ''Host'']" and xs = "[]"
        and d = "[''headers'' \<mapsto> ListField [[''key'' \<mapsto> TextField ''Host'']]]"])
    (simp_all add: headers_info_def at_stage_def set_data_def init_serializer_def)

section \<open>The parser\<close>

text \<open>C36: The parser of a message without loops and without empty escape sequences returns for every
  input, and consumes no more than it is given.\<close>

theorem parser_returns_within_input:
  assumes "\<forall>a \<in> set (ti_actions rt). flat_read a"
  shows "\<exists>status consumed p'. message_parse rt p input = Some (status, consumed, p') \<and> consumed \<le> length input"
proof -
  obtain x where "message_parse rt p input = Some x" using message_parse_returns [OF assms] by blast
  moreover obtain status consumed p' where "x = (status, consumed, p')" by (cases x)
  ultimately show ?thesis using message_parse_consumed by blast
qed

theorem parser_returns_within_input_witness:
  "\<exists>status consumed p'. message_parse greeting_read_info init_parser ''HELO bob'' = Some (status, consumed, p') \<and> consumed \<le> length ''HELO bob''"
  using parser_returns_within_input [of greeting_read_info init_parser "''HELO bob''"]
  by (simp add: greeting_actions greeting_reads_def flat_read_def)

text \<open>A parser that reads up to a terminator never gets past it when no single input is as long as
  the terminator: it takes every octet for one of the field, whatever they are together.\<close>

theorem split_terminator_never_found:
  assumes "\<not> mp_complete p" and "mp_stage p < length (ti_actions rt)"
    and "ti_actions rt ! mp_stage p = ReadOctetsUntilTerminator t i e" and "\<forall>s \<in> set inputs. length s < length t"
  shows "feed_parser rt p inputs = Some (replicate (length inputs) NeedMoreData, hold (id_name i) (concat inputs) p)"
  using assms by (rule feed_parser_short)

theorem split_terminator_never_found_witness:
  "feed_parser greeting_read_info (init_parser\<lparr>mp_stage := 1\<rparr>) [''b'', [CHR 0x0D], [CHR 0x0A]] =
     Some ([NeedMoreData, NeedMoreData, NeedMoreData], hold ''name'' (''b'' @ [CHR 0x0D, CHR 0x0A]) (init_parser\<lparr>mp_stage := 1\<rparr>))"
  using split_terminator_never_found [of "init_parser\<lparr>mp_stage := 1\<rparr>" greeting_read_info "[CHR 0x0D, CHR 0x0A]"
      "IdentifierReference ''name'' None" None "[''b'', [CHR 0x0D], [CHR 0x0A]]"]
  by (simp add: greeting_actions greeting_reads_def init_parser_def numeral_3_eq_3)



text \<open>The parser of a message that is a loop drops the last element: it finds the terminator of the
  loop before it adds the element it has read.\<close>

theorem loop_drops_last_element:
  assumes "ti_actions rt = [Loop v c t as]" and "as \<noteq> []" and "distinct (inner_identifiers as)"
    and "elements \<noteq> []" and "\<forall>e \<in> set elements. \<forall>a \<in> set as. element_readable t e a"
  shows "\<exists>p. message_parse rt init_parser (concat (map (\<lambda>e. element_wires e as) elements) @ t @ rest) =
      Some (Complete, length (concat (map (\<lambda>e. element_wires e as) elements) @ t), p)
    \<and> mp_lists p (id_name c) = map (element_of as) (butlast elements)"
  using assms by (rule message_parse_loop)

definition rcpt_info :: transition_info where
  "rcpt_info = \<lparr>ti_message_name = ''To'', ti_identifier = ''To'', ti_when_state = ''Open'', ti_then_state = ''Closed'',
     ti_agent = ''Server'', ti_actions = [Loop (IdentifierReference ''rcpt'' None) (IdentifierReference ''rcpts'' None) ''.''
       [ReadOctetsUntilTerminator '';'' (IdentifierReference ''rcpt'' None) None]], ti_data = []\<rparr>"

theorem loop_drops_last_element_witness:
  "\<exists>p. message_parse rcpt_info init_parser ''ann;bob;.'' = Some (Complete, length ''ann;bob;.'', p)
     \<and> mp_lists p ''rcpts'' = [[(''rcpt'', ''ann'')]]"
  using loop_drops_last_element [of rcpt_info "IdentifierReference ''rcpt'' None" "IdentifierReference ''rcpts'' None" "''.''"
      "[ReadOctetsUntilTerminator '';'' (IdentifierReference ''rcpt'' None) None]" "[\<lambda>_. ''ann'', \<lambda>_. ''bob'']" "[]"]
  by (simp add: rcpt_info_def element_readable_def element_wires_def element_wire_def element_of_def inner_identifiers_def
      parallel_def)

section \<open>The machines of the two sides\<close>

lemma sole_transition:
  assumes "analyze p = Some pr" and "ordered p" and "(n, m) \<in> set p" and "id_name (msg_agent m) = side_name client"
    and "\<And>q. q \<in> set p \<Longrightarrow> id_name (msg_agent (snd q)) \<noteq> side_name (\<not> client) \<Longrightarrow>
      state_name_to_identifier (id_name (msg_when (snd q))) = state_name_to_identifier (id_name (msg_when m)) \<Longrightarrow> q = (n, m)"
  shows "transitions_from (protocol_info pr) (\<not> client) (state_name_to_identifier (id_name (msg_when m))) = [read_info_spec (n, m)]"
proof -
  let ?s = "state_name_to_identifier (id_name (msg_when m))" and ?x = "read_info_spec (n, m)"
  let ?R = "get_read_transitions_for_agent (protocol_info pr) (\<not> client)"
  have R: "?R = filter (\<lambda>t. ti_agent t = side_name (\<not> client)) (collect_read_transitions pr)"
    by (simp add: get_read_transitions_for_agent_def protocol_info_def)
  have "distinct (map ti_message_name (collect_read_transitions pr))"
    unfolding collect_read_transitions_def by (rule collect_infos_distinct [OF assms(1,2)]) (auto simp: transition_info_of_def)
  then have d: "distinct ?R" unfolding R by (simp add: distinct_map)
  have "?x \<in> read_info_spec ` set p" using assms(3) by (rule imageI)
  moreover have "ti_agent ?x = side_name (\<not> client)" "ti_when_state ?x = id_name (msg_when m)"
    using assms(4) by (auto simp: read_info_spec_def transition_info_spec_def reader_of_def side_name_def split: if_splits)
  ultimately have x: "?x \<in> set ?R" "ti_when_state ?x = id_name (msg_when m)"
    using protocol_reads [OF assms(1,2)] by (simp_all add: R)
  have only: "t = ?x" if "t \<in> set ?R" "state_name_to_identifier (ti_when_state t) = ?s" for t
  proof -
    from that(1) have "t \<in> read_info_spec ` set p" and a: "ti_agent t = side_name (\<not> client)"
      using protocol_reads [OF assms(1,2)] by (simp_all add: R)
    then obtain q where q: "t = read_info_spec q" "q \<in> set p" by (elim imageE)
    from a q(1) have "id_name (msg_agent (snd q)) \<noteq> side_name (\<not> client)"
      by (auto simp: read_info_spec_def transition_info_spec_def reader_of_def side_name_def split: if_splits)
    with assms(5) [OF q(2)] q(1) that(2) show ?thesis by (simp add: read_info_spec_def transition_info_spec_def)
  qed
  let ?g = "reads_by_state (protocol_info pr) (\<not> client)"
  have "filter (\<lambda>t. ti_when_state t = id_name (msg_when m)) ?R \<noteq> []" using x by (auto simp: filter_empty_conv)
  then have "map_of ?g (id_name (msg_when m)) \<noteq> None" unfolding reads_by_state_def by (simp add: group_by_spec(2) Let_def)
  then obtain ts' where "(id_name (msg_when m), ts') \<in> set ?g" using map_of_SomeD by fast
  then obtain q where q: "find (\<lambda>(s', ts). state_name_to_identifier s' = ?s) ?g = Some q"
    by (cases "find (\<lambda>(s', ts). state_name_to_identifier s' = ?s) ?g") (auto simp: find_None_iff)
  then have q': "(fst q, snd q) \<in> set ?g" "state_name_to_identifier (fst q) = ?s"
    unfolding find_Some_iff by (metis nth_mem prod.collapse, auto simp: case_prod_beta)
  from group_by_member [OF q'(1) [unfolded reads_by_state_def]]
  have ts: "snd q = filter (\<lambda>t. ti_when_state t = fst q) ?R" "snd q \<noteq> []" by auto
  have "t = ?x" if "t \<in> set (snd q)" for t using that only q'(2) unfolding ts(1) by auto
  then have "set (snd q) = {?x}" using ts(2) by (cases "snd q") auto
  moreover have "distinct (snd q)" unfolding ts(1) using d by simp
  ultimately have "snd q = [?x]" by (cases "snd q"; cases "tl (snd q)") auto
  with q show ?thesis by (cases q) (simp add: transitions_from_def)
qed


definition greeting_info :: protocol_info where
  "greeting_info = protocol_info (greeting_protocol ''Hello'' ''str'')"

lemma plain_identifiers:
  "state_name_to_identifier ''Open'' = ''Open''" "state_name_to_identifier ''Closed'' = ''Closed''"
  "message_name_to_identifier ''Hello'' = ''Hello''"
  by (simp_all add: state_name_to_identifier_def message_name_to_identifier_def is_alnum_def is_upper_def is_lower_def
      is_decimal_def less_eq_char_def to_upper_def)

lemma greeting_states: "pi_states greeting_info = [''Closed'', ''Open'']"
proof -
  note s = protocol_states [OF analyze_greeting greeting_ordered, of "''Hello''" "''str''"]
  show ?thesis unfolding greeting_info_def protocol_info_def
    by (simp, rule sorted_distinct_set_unique) (use s in \<open>auto simp: strict_sorted_iff greeting_def\<close>)
qed

lemma greeting_init: "sm_state (init_machine greeting_info) = ''Open''" "sm_output (init_machine greeting_info) = []"
  "sm_parsers (init_machine greeting_info) = (\<lambda>_. init_parser)" "\<not> is_closed (init_machine greeting_info)"
  "\<not> sm_has_error (init_machine greeting_info)"
  by (simp_all add: init_machine_def initial_state_def greeting_states is_closed_def)

lemma greeting_message:
  assumes "(n, m) = hd (greeting ''Hello'' ''str'')"
  shows "parts_to_read_actions (msg_parts m) = Some greeting_reads" and "\<forall>x \<in> set (msg_parts m). tokens_present x"
    and "id_name (msg_agent m) = ''Client''" and "id_name (msg_when m) = ''Open''" and "id_name (msg_then m) = ''Closed''"
    and "n = ''Hello''" and "msg_data m = [(''name'', Type (IdentifierReference ''str'' None) [])]"
  using assms by (simp_all add: greeting_def greeting_reads_def read_final_token_sequence_def process_token_sequence_def
      read_token_sequence_def escape_read_actions_def)

lemma greeting_transmissible:
  "a \<in> set greeting_reads \<Longrightarrow> transmissible [(''name'', Type (IdentifierReference ''str'' None) [])] (\<lambda>_. ''bob'') a"
  by (auto simp: greeting_reads_def transmissible_def readable_def is_numeric_field_def)


text \<open>C22: Whatever the operations of a machine are called in, its state is one of the protocol, a
  message that has arrived is held, and every message held has a type the state can receive.\<close>

theorem machine_keeps_types:
  assumes "analyze p = Some pr" and "ordered p" and "p \<noteq> []"
    and "(side_step (protocol_info pr) is_client)\<^sup>*\<^sup>* (init_machine (protocol_info pr)) m"
  shows "machine_ok (protocol_info pr) is_client m"
proof -
  have "set (collect_states pr) \<noteq> {}" using protocol_states(1) [OF assms(1,2)] assms(3) by simp
  then have "pi_states (protocol_info pr) \<noteq> []" by (auto simp: protocol_info_def)
  then show ?thesis
    by (rule machine_ok_reachable [OF analyzed_info_ok [OF assms(1,2)] assms(4) machine_ok_init])
qed

theorem machine_keeps_types_witness:
  "machine_ok greeting_info False (on_eof greeting_info False (init_machine greeting_info))"
  unfolding greeting_info_def
  by (rule machine_keeps_types [OF analyze_greeting greeting_ordered])
    (auto simp: greeting_def intro: r_into_rtranclp step_eof)

text \<open>When the message that arrives leads to a state from which the side writes nothing, the
  runner does not return: no handler takes the message, and the loop waits for it to be taken.\<close>

theorem runner_hangs:
  assumes "on_bytes_received info is_client data m = Some (Inr (consumed, m'))" and "sm_has_message m'"
    and "\<forall>wt \<in> set (get_write_transitions_for_agent info is_client). state_name_to_identifier (ti_when_state wt) \<noteq> sm_message_state m'"
  shows "runner_on_bytes_received info is_client h data m = None"
proof -
  have "sm_message_state m' \<notin> state_name_to_identifier ` fst ` set (handled_states info is_client)"
  proof
    assume "sm_message_state m' \<in> state_name_to_identifier ` fst ` set (handled_states info is_client)"
    then obtain s where s: "sm_message_state m' = state_name_to_identifier s" "has_output info is_client s"
      by (auto simp: handled_states_def)
    then obtain wt where "wt \<in> set (get_write_transitions_for_agent info is_client)" "ti_when_state wt = s"
      unfolding has_output_def get_write_transitions_by_when_state_def get_write_transitions_for_agent_def
      by (auto simp: group_by_spec(2) Let_def filter_empty_conv split: if_splits)
    with assms(3) s(1) show False by auto
  qed
  from dispatch_stuck [OF assms(2) this] assms(1) show ?thesis by (simp add: runner_on_bytes_received_def)
qed

lemma greeting_received:
  "\<exists>m'. on_bytes_received greeting_info False (wire (\<lambda>_. ''bob'') greeting_reads) (init_machine greeting_info) =
      Some (Inr (length (wire (\<lambda>_. ''bob'') greeting_reads), m'))
    \<and> sm_has_message m' \<and> sm_message_state m' = ''Closed''"
proof -
  obtain n m where nm: "(n, m) = hd (greeting ''Hello'' ''str'')" by (metis surj_pair)
  note g = greeting_message [OF nm]
  have p: "set (greeting ''Hello'' ''str'') = {(n, m)}" using nm by (simp add: greeting_def)
  let ?rt = "read_info_spec (n, m)" and ?w = "wire (\<lambda>_. ''bob'') greeting_reads"
  have rt: "ti_actions ?rt = greeting_reads" "ti_data ?rt = [(''name'', Type (IdentifierReference ''str'' None) [])]"
      "ti_then_state ?rt = ''Closed''"
    by (simp_all add: read_info_spec_def transition_info_spec_def g)
  have "transitions_from greeting_info False ''Open'' = [?rt]"
    using sole_transition [OF analyze_greeting greeting_ordered, of n m "''Hello''" "''str''" True, folded greeting_info_def]
    by (simp add: p g side_name_def plain_identifiers)
  moreover obtain m' where "receive_single ?rt ?w (init_machine greeting_info) = Some (Inr (length ?w, True, m'))"
      "sm_state m' = ''Closed''" "sm_message_state m' = sm_state m'" "sm_has_message m'"
    using message_received [of ?rt "\<lambda>_. ''bob''" "init_machine greeting_info" "[]"] greeting_transmissible
    by (auto simp: rt greeting_init plain_identifiers read_fields_def greeting_reads_def inner_identifiers_def)
  moreover have "?w \<noteq> []" by (simp add: wire_def read_wire_def greeting_reads_def)
  ultimately show ?thesis
    by (simp add: on_bytes_received_def receive_dispatch_def greeting_init)
qed

lemma greeting_server_writes: "get_write_transitions_for_agent greeting_info False = []"
proof -
  have "ti_agent t = ''Client''" if "t \<in> set (collect_write_transitions (greeting_protocol ''Hello'' ''str''))" for t
    using that unfolding protocol_writes [OF analyze_greeting greeting_ordered]
    by (auto simp: write_info_spec_def transition_info_spec_def greeting_def)
  then show ?thesis
    by (auto simp: get_write_transitions_for_agent_def greeting_info_def protocol_info_def side_name_def filter_empty_conv)
qed

theorem runner_hangs_witness:
  "\<forall>h. runner_on_bytes_received greeting_info False h (wire (\<lambda>_. ''bob'') greeting_reads) (init_machine greeting_info) = None"
proof
  fix h
  obtain m' where "on_bytes_received greeting_info False (wire (\<lambda>_. ''bob'') greeting_reads) (init_machine greeting_info) =
      Some (Inr (length (wire (\<lambda>_. ''bob'') greeting_reads), m'))" "sm_has_message m'"
    using greeting_received by blast
  then show "runner_on_bytes_received greeting_info False h (wire (\<lambda>_. ''bob'') greeting_reads) (init_machine greeting_info) = None"
    by (rule runner_hangs) (simp add: greeting_server_writes)
qed

end
