(* ===== verification/GeneratedDispatch.thy ===== *)
theory GeneratedDispatch
  imports GeneratedMachine
begin

text \<open>
  What the class \<open>Parser\<close> that \<open>codegen/generate_parser.cpp\<close> writes does when it runs: it holds a
  parser for each message that either side reads, and sends the input to those of the current state.
\<close>

section \<open>The state of the parser\<close>

record protocol_parser =
  pp_state :: string
  pp_has_message :: bool
  pp_eof_received :: bool
  pp_active :: nat
  pp_parsers :: "string \<Rightarrow> message_parser"

definition init_protocol_parser :: "protocol_info \<Rightarrow> protocol_parser" where
  "init_protocol_parser info =
     \<lparr>pp_state = (case pi_states info of s # _ \<Rightarrow> state_name_to_identifier s | [] \<Rightarrow> []),
      pp_has_message = False, pp_eof_received = False, pp_active = 0, pp_parsers = (\<lambda>_. init_parser)\<rparr>"

definition set_state :: "string \<Rightarrow> protocol_parser \<Rightarrow> protocol_parser" where
  "set_state s p = p\<lparr>pp_state := s\<rparr>"

section \<open>\<open>parse\<close>\<close>

type_synonym parse_result = "parse_status \<times> nat"

text \<open>Sending the input to one parser; \<open>None\<close> when it does not return.\<close>

definition run_parser :: "indexed_transition \<Rightarrow> octets \<Rightarrow> protocol_parser \<Rightarrow> (parse_result \<times> protocol_parser) option" where
  "run_parser t input p =
     map_option (\<lambda>(status, consumed, mp).
         ((status, consumed),
          (let p' = p\<lparr>pp_parsers := (pp_parsers p)(ti_identifier (snd t) := mp)\<rparr> in
           if status = Complete then p'\<lparr>pp_has_message := True, pp_active := fst t\<rparr> else p')))
       (message_parse (snd t) (pp_parsers p (ti_identifier (snd t))) input)"

definition lookahead_parse :: "indexed_transition list \<Rightarrow> octets \<Rightarrow> protocol_parser \<Rightarrow> (parse_result \<times> protocol_parser) option" where
  "lookahead_parse ts input p =
     (if length input < min_lookahead_length (map (get_lookahead_prefix \<circ> snd) ts) then Some ((NeedMoreData, 0), p)
      else case find (\<lambda>t. prefix (get_lookahead_prefix (snd t)) input) ts of
        Some t \<Rightarrow> run_parser t input p
      | None \<Rightarrow> Some ((ParseError, 0), p))"

text \<open>The branches \<open>else if (result.status == ParseStatus::Error)\<close> after the first parser: the condition of
  each is looked at only when those before were false.\<close>

definition reset_one :: "indexed_transition \<Rightarrow> protocol_parser \<Rightarrow> protocol_parser" where
  "reset_one t p =
     p\<lparr>pp_parsers := (pp_parsers p)(ti_identifier (snd t) := parser_reset (pp_parsers p (ti_identifier (snd t))))\<rparr>"

fun fallback_branches ::
  "indexed_transition \<Rightarrow> indexed_transition list \<Rightarrow> octets \<Rightarrow> parse_result \<times> protocol_parser \<Rightarrow> (parse_result \<times> protocol_parser) option"
where
  "fallback_branches before [] input (result, p) = Some (result, p)"
| "fallback_branches before (t # ts) input (result, p) =
     (if fst result = ParseError then run_parser t input (reset_one before p)
      else fallback_branches t ts input (result, p))"

fun fallback_parse :: "indexed_transition list \<Rightarrow> octets \<Rightarrow> protocol_parser \<Rightarrow> (parse_result \<times> protocol_parser) option" where
  "fallback_parse [] input p = None"
| "fallback_parse (t # ts) input p =
     Option.bind (run_parser t input p)
       (\<lambda>(result, p'). if fst result = Complete then Some (result, p') else fallback_branches t ts input (result, p'))"

definition parse_in_state :: "indexed_transition list \<Rightarrow> octets \<Rightarrow> protocol_parser \<Rightarrow> (parse_result \<times> protocol_parser) option" where
  "parse_in_state ts input p =
     (case ts of
        [t] \<Rightarrow> run_parser t input p
      | _ \<Rightarrow> if can_use_lookahead [] (map (get_lookahead_prefix \<circ> snd) ts) then lookahead_parse ts input p
             else fallback_parse ts input p)"

definition protocol_parse :: "protocol_info \<Rightarrow> octets \<Rightarrow> protocol_parser \<Rightarrow> (parse_result \<times> protocol_parser) option" where
  "protocol_parse info input p =
     (case find (\<lambda>(s, ts). state_name_to_identifier s = pp_state p) (parsers_for_state (pi_read_transitions info)) of
        Some (s, ts) \<Rightarrow> parse_in_state ts input p
      | None \<Rightarrow> Some ((ParseError, 0), p))"

section \<open>The other methods\<close>

definition take_from ::
  "transition_info \<Rightarrow> protocol_parser \<Rightarrow> conversion_error + (string \<times> parsed_value) list \<times> protocol_parser" where
  "take_from rt p =
     map_sum id (\<lambda>(d, mp). (d, p\<lparr>pp_has_message := False, pp_parsers := (pp_parsers p)(ti_identifier rt := mp)\<rparr>))
       (take_data rt (pp_parsers p (ti_identifier rt)))"

definition parser_status :: "protocol_parser \<Rightarrow> parse_status" where
  "parser_status p = (if pp_has_message p then Complete else NeedMoreData)"

definition protocol_on_eof :: "protocol_parser \<Rightarrow> protocol_parser" where
  "protocol_on_eof p = p\<lparr>pp_eof_received := True\<rparr>"

definition protocol_reset :: "protocol_info \<Rightarrow> protocol_parser \<Rightarrow> protocol_parser" where
  "protocol_reset info p =
     p\<lparr>pp_has_message := False, pp_eof_received := False,
       pp_parsers := fold (\<lambda>rt ps. ps(ti_identifier rt := parser_reset (ps (ti_identifier rt)))) (pi_read_transitions info) (pp_parsers p)\<rparr>"

section \<open>Which messages are ever read\<close>

lemma run_parser_frame:
  assumes "run_parser t input p = Some (result, p')"
  shows "pp_state p' = pp_state p"
    and "f \<noteq> ti_identifier (snd t) \<Longrightarrow> pp_parsers p' f = pp_parsers p f"
    and "pp_active p' \<in> {pp_active p, fst t}"
  using assms by (auto simp: run_parser_def Let_def split: if_splits)

lemma fallback_branches_two:
  "fallback_branches t0 (t # ts) input (result, p) =
     (if fst result = ParseError then run_parser t input (reset_one t0 p) else Some (result, p))"
proof -
  have "fst result \<noteq> ParseError \<Longrightarrow> fallback_branches t0 ts input (result, p) = Some (result, p)" for t0 ts
    by (induction ts arbitrary: t0) auto
  then show ?thesis by simp
qed

text \<open>The chain ends with the second parser.\<close>

lemma fallback_parse_two: "fallback_parse (t1 # t2 # ts) input p = fallback_parse [t1, t2] input p"
proof -
  have "fallback_branches t1 (t2 # ts) input x = fallback_branches t1 [t2] input x" for x
    by (cases x) (simp only: fallback_branches_two)
  then show ?thesis by (simp only: fallback_parse.simps)
qed

lemma fallback_parse_frame:
  assumes "fallback_parse (t1 # t2 # ts) input p = Some (result, p')"
    and "f \<noteq> ti_identifier (snd t1)" and "f \<noteq> ti_identifier (snd t2)"
  shows "pp_parsers p' f = pp_parsers p f" and "pp_active p' \<in> {pp_active p, fst t1, fst t2}"
proof -
  from assms(1) obtain r1 p1 where 1: "run_parser t1 input p = Some (r1, p1)"
    and 2: "(r1, p1) = (result, p') \<or> run_parser t2 input (reset_one t1 p1) = Some (result, p')"
    unfolding fallback_parse_two [of _ _ ts] by (auto simp: bind_eq_Some_conv split: if_splits)
  note f1 = run_parser_frame [OF 1]
  have r: "pp_parsers (reset_one t1 p1) f = pp_parsers p1 f" "pp_active (reset_one t1 p1) = pp_active p1"
    using assms(2) by (simp_all add: reset_one_def)
  show "pp_parsers p' f = pp_parsers p f"
    using 2 f1(2) [of f] assms(2,3) run_parser_frame(2) [of t2 input "reset_one t1 p1" result p' f] r(1) by auto
  show "pp_active p' \<in> {pp_active p, fst t1, fst t2}"
    using 2 f1(3) run_parser_frame(3) [of t2 input "reset_one t1 p1" result p'] r(2) by auto
qed

text \<open>With the lookahead no octet is looked at before there are as many as in the longest prefix.\<close>

lemma fold_max: "n \<le> fold (\<lambda>p n. max n (length p)) ps n \<and> (\<forall>p \<in> set ps. length p \<le> fold (\<lambda>p n. max n (length p)) ps n)"
proof (induction ps arbitrary: n)
  case (Cons q ps)
  from Cons.IH [of "max n (length q)"] show ?case by auto
qed simp

lemma lookahead_waits:
  assumes "t \<in> set ts" and "length input < length (get_lookahead_prefix (snd t))"
  shows "lookahead_parse ts input p = Some ((NeedMoreData, 0), p)"
proof -
  have "length (get_lookahead_prefix (snd t)) \<le> min_lookahead_length (map (get_lookahead_prefix \<circ> snd) ts)"
    using fold_max [of 1 "map (get_lookahead_prefix \<circ> snd) ts"] assms(1) by (auto simp: min_lookahead_length_def)
  with assms(2) show ?thesis by (simp add: lookahead_parse_def)
qed

end
