(* ===== verification/ServerWrapper.thy ===== *)
theory ServerWrapper
  imports GeneratedMachine "HOL-Library.AList"
begin

text \<open>
  The libuv server for generated code (\<open>networkprotocoldsl_uv/generatedserverwrapper.cpp\<close> and
  \<open>.hpp\<close>). libuv is not part of the repository: what its functions answer is an argument of the
  callbacks, and what the callbacks ask of it is a list of calls. The objects of the connections
  live in a store, so that a callback on an object that is gone is a fault; a handle of libuv is
  named by the object it is a member of.
\<close>

section \<open>Connection runners\<close>

text \<open>\<open>IConnectionRunner\<close>. A method answers \<open>None\<close> when it does not return, or throws, which no
  callback of libuv survives.\<close>

record 'r runner_ops =
  ro_start :: "'r \<Rightarrow> 'r option"
  ro_on_bytes_received :: "octets \<Rightarrow> 'r \<Rightarrow> (nat \<times> 'r) option"
  ro_has_pending_output :: "'r \<Rightarrow> bool"
  ro_pending_output :: "'r \<Rightarrow> octets"
  ro_bytes_written :: "nat \<Rightarrow> 'r \<Rightarrow> 'r"
  ro_is_closed :: "'r \<Rightarrow> bool"
  ro_has_error :: "'r \<Rightarrow> bool"

text \<open>\<open>ConnectionRunnerAdapter\<close> on the runner of a generated side, with its handler and what the
  handler answers in \<open>Open\<close>.\<close>

definition adapter_ops :: "protocol_info \<Rightarrow> bool \<Rightarrow> handler \<Rightarrow> string \<times> message_values \<Rightarrow> side_machine runner_ops" where
  "adapter_ops info is_client h opening =
     \<lparr>ro_start = runner_start info is_client opening,
      ro_on_bytes_received = (\<lambda>data m.
        case runner_on_bytes_received info is_client h data m of Some (Inr x) \<Rightarrow> Some x | _ \<Rightarrow> None),
      ro_has_pending_output = (\<lambda>m. sm_output m \<noteq> []),
      ro_pending_output = sm_output,
      ro_bytes_written = bytes_written,
      ro_is_closed = is_closed,
      ro_has_error = sm_has_error\<rparr>"

section \<open>The state of the server\<close>

record 'r connection =
  cn_fd :: nat
  cn_runner :: 'r
  cn_closing :: bool
  cn_pending_writes :: int

datatype uv_call =
    UvWrite nat octets
  | UvClose nat
  | UvReadStart nat
  | UvReadStop nat
  | UvCloseServer

record 'r server =
  sv_objects :: "nat \<Rightarrow> 'r connection option"
  sv_next :: nat
  sv_connections :: "(nat \<times> nat) list"
  sv_stopping :: bool
  sv_listening :: bool
  sv_calls :: "uv_call list"

datatype server_fault = Dangling | NoReturn

type_synonym 'r server_result = "server_fault + 'r server"

definition init_server :: "'r server" where
  "init_server = \<lparr>sv_objects = Map.empty, sv_next = 0, sv_connections = [], sv_stopping = False, sv_listening = False, sv_calls = []\<rparr>"

definition with_connection :: "nat \<Rightarrow> 'r server \<Rightarrow> ('r connection \<Rightarrow> 'r server_result) \<Rightarrow> 'r server_result" where
  "with_connection c s f = (case sv_objects s c of None \<Rightarrow> Inl Dangling | Some cn \<Rightarrow> f cn)"

definition put_connection :: "nat \<Rightarrow> 'r connection \<Rightarrow> 'r server \<Rightarrow> 'r server" where
  "put_connection c cn s = s\<lparr>sv_objects := (sv_objects s)(c \<mapsto> cn)\<rparr>"

definition uv_calls :: "uv_call list \<Rightarrow> 'r server \<Rightarrow> 'r server" where
  "uv_calls calls s = s\<lparr>sv_calls := sv_calls s @ calls\<rparr>"

text \<open>\<open>if (!conn->closing.exchange(true)) uv_close(...)\<close>\<close>

definition request_close :: "nat \<Rightarrow> 'r connection \<Rightarrow> 'r server \<Rightarrow> 'r server" where
  "request_close c cn s =
     (if cn_closing cn then s else uv_calls [UvClose c] (put_connection c (cn\<lparr>cn_closing := True\<rparr>) s))"

text \<open>Destroying the object an entry of \<open>connections\<close> owns.\<close>

definition destroy_entry :: "nat \<Rightarrow> 'r server \<Rightarrow> 'r server" where
  "destroy_entry fd s =
     (case map_of (sv_connections s) fd of
        None \<Rightarrow> s
      | Some c \<Rightarrow> s\<lparr>sv_objects := (sv_objects s)(c := None), sv_connections := AList.delete fd (sv_connections s)\<rparr>)"

section \<open>The callbacks\<close>

partial_function (option) flush_output :: "'r runner_ops \<Rightarrow> 'r \<Rightarrow> octets list \<Rightarrow> ('r \<times> octets list) option" where
  "flush_output ops r written =
     (if ro_has_pending_output ops r then
        (let data = ro_pending_output ops r in
         flush_output ops (ro_bytes_written ops (length data) r) (written @ [data]))
      else Some (r, written))"

definition process_output :: "'r runner_ops \<Rightarrow> nat \<Rightarrow> 'r server \<Rightarrow> 'r server_result" where
  "process_output ops c s =
     with_connection c s (\<lambda>cn.
       case flush_output ops (cn_runner cn) [] of
         None \<Rightarrow> Inl NoReturn
       | Some (r, written) \<Rightarrow>
           Inr (uv_calls (map (UvWrite c) written)
             (put_connection c (cn\<lparr>cn_runner := r, cn_pending_writes := cn_pending_writes cn + int (length written)\<rparr>) s)))"

definition on_close :: "nat \<Rightarrow> 'r server \<Rightarrow> 'r server_result" where
  "on_close c s = with_connection c s (\<lambda>cn. Inr (destroy_entry (cn_fd cn) s))"

definition on_write_complete :: "'r runner_ops \<Rightarrow> nat \<Rightarrow> int \<Rightarrow> 'r server \<Rightarrow> 'r server_result" where
  "on_write_complete ops c status s =
     with_connection c s (\<lambda>cn.
       let remaining = cn_pending_writes cn - 1; cn' = cn\<lparr>cn_pending_writes := remaining\<rparr>; s' = put_connection c cn' s in
       if status < 0 then Inr (request_close c cn' s')
       else if ro_is_closed ops (cn_runner cn) \<or> ro_has_error ops (cn_runner cn) then Inr (request_close c cn' s')
       else if remaining = 0 then process_output ops c s'
       else Inr s')"

text \<open>\<open>nread\<close> is the length of the data when it is positive.\<close>

definition on_read :: "'r runner_ops \<Rightarrow> nat \<Rightarrow> int \<Rightarrow> octets \<Rightarrow> 'r server \<Rightarrow> 'r server_result" where
  "on_read ops c nread data s =
     with_connection c s (\<lambda>cn.
       if nread > 0 then
         (case ro_on_bytes_received ops data (cn_runner cn) of
            None \<Rightarrow> Inl NoReturn
          | Some (consumed, r) \<Rightarrow>
              let cn' = cn\<lparr>cn_runner := r\<rparr>; s' = put_connection c cn' s in
              if ro_has_error ops r then Inr (request_close c cn' s') else process_output ops c s')
       else if nread < 0 then Inr (request_close c cn s)
       else Inr s)"

text \<open>\<open>accepted\<close> is what \<open>uv_accept\<close> answers and \<open>fileno\<close> the descriptor, when there is one. A
  connection that is not stored is destroyed when the callback returns.\<close>

definition on_new_connection :: "'r runner_ops \<Rightarrow> 'r \<Rightarrow> int \<Rightarrow> int \<Rightarrow> nat option \<Rightarrow> 'r server \<Rightarrow> 'r server_result" where
  "on_new_connection ops new_runner status accepted fileno s =
     (if status < 0 \<or> sv_stopping s then Inr s
      else
        (let c = sv_next s; s = s\<lparr>sv_next := c + 1\<rparr> in
         case (if accepted = 0 then fileno else None) of
           None \<Rightarrow> Inr (uv_calls [UvClose c] s)
         | Some fd \<Rightarrow>
             (case ro_start ops new_runner of
                None \<Rightarrow> Inl NoReturn
              | Some r \<Rightarrow>
                  (let s = destroy_entry fd s;
                       cn = \<lparr>cn_fd = fd, cn_runner = r, cn_closing = False, cn_pending_writes = 0\<rparr>;
                       s = put_connection c cn (s\<lparr>sv_connections := AList.update fd c (sv_connections s)\<rparr>) in
                   map_sum id (uv_calls [UvReadStart c]) (process_output ops c s)))))"

section \<open>Starting and stopping\<close>

text \<open>The work of \<open>start\<close>, with what \<open>uv_tcp_bind\<close>, \<open>uv_listen\<close> and \<open>uv_fileno\<close> answer.\<close>

definition start_work :: "(int \<Rightarrow> string) \<Rightarrow> int \<Rightarrow> int \<Rightarrow> nat option \<Rightarrow> 'r server \<Rightarrow> (string + nat) \<times> 'r server" where
  "start_work uv_strerror bind_rc listen_rc fileno s =
     (let s = s\<lparr>sv_listening := True\<rparr> in
      if bind_rc \<noteq> 0 then (Inl (uv_strerror bind_rc), s)
      else if listen_rc \<noteq> 0 then (Inl (uv_strerror listen_rc), s)
      else case fileno of
        Some fd \<Rightarrow> (Inr fd, s)
      | None \<Rightarrow> (Inl ''Failed to get file descriptor'', s))"

definition close_object :: "nat \<Rightarrow> 'r server \<Rightarrow> 'r server" where
  "close_object c s = (case sv_objects s c of None \<Rightarrow> s | Some cn \<Rightarrow> request_close c cn s)"

definition stop_work :: "'r server \<Rightarrow> 'r server" where
  "stop_work s =
     (let s = fold (\<lambda>(fd, c). close_object c) (sv_connections s) s in
      if sv_listening s then uv_calls [UvCloseServer] s else s)"

text \<open>\<open>stop\<close> sets the flag and answers whether it pushed the work.\<close>

definition stop_requested :: "'r server \<Rightarrow> bool \<times> 'r server" where
  "stop_requested s = (\<not> sv_stopping s, s\<lparr>sv_stopping := True\<rparr>)"

end
