(* ===== verification/ServerLemmas.thy ===== *)
theory ServerLemmas
  imports ServerWrapper
begin

text \<open>
  The interface of a connection runner, the events that libuv may deliver, and what every
  callback of the server keeps.
\<close>

section \<open>The contract of a runner\<close>

locale connection_runner =
  fixes ops :: "'r runner_ops"
  assumes all_written: "\<not> ro_has_pending_output ops (ro_bytes_written ops (length (ro_pending_output ops r)) r)"
    and writing_keeps_error: "ro_has_error ops (ro_bytes_written ops n r) = ro_has_error ops r"
begin

lemma flush_output_all:
  "flush_output ops r written =
     Some (if ro_has_pending_output ops r
           then (ro_bytes_written ops (length (ro_pending_output ops r)) r, written @ [ro_pending_output ops r])
           else (r, written))"
  using all_written by (simp add: flush_output.simps [of ops r] flush_output.simps [of ops "ro_bytes_written ops _ r"] Let_def)

end

interpretation adapter: connection_runner "adapter_ops info is_client h opening"
  by unfold_locales (simp_all add: adapter_ops_def bytes_written_def)

section \<open>Events\<close>

datatype uv_event =
    Accept int int "nat option"
  | ReadDone nat int octets
  | WriteDone nat int
  | CloseDone nat
  | StopWork

definition handle_event :: "'r runner_ops \<Rightarrow> 'r \<Rightarrow> uv_event \<Rightarrow> 'r server \<Rightarrow> 'r server_result" where
  "handle_event ops new_runner ev s =
     (case ev of
        Accept status accepted fileno \<Rightarrow> on_new_connection ops new_runner status accepted fileno s
      | ReadDone c nread data \<Rightarrow> on_read ops c nread data s
      | WriteDone c status \<Rightarrow> on_write_complete ops c status s
      | CloseDone c \<Rightarrow> on_close c s
      | StopWork \<Rightarrow> Inr (stop_work (snd (stop_requested s))))"

text \<open>What libuv has called back: how many writes of each handle, and which handles it has closed.\<close>

record uv_history =
  uh_completed :: "nat \<Rightarrow> nat"
  uh_closed :: "nat set"

definition no_history :: uv_history where
  "no_history = \<lparr>uh_completed = (\<lambda>_. 0), uh_closed = {}\<rparr>"

definition record_event :: "uv_event \<Rightarrow> uv_history \<Rightarrow> uv_history" where
  "record_event ev h =
     (case ev of
        WriteDone c status \<Rightarrow> h\<lparr>uh_completed := (uh_completed h)(c := uh_completed h c + 1)\<rparr>
      | CloseDone c \<Rightarrow> h\<lparr>uh_closed := insert c (uh_closed h)\<rparr>
      | _ \<Rightarrow> h)"

fun mentions :: "nat \<Rightarrow> uv_call \<Rightarrow> bool" where
  "mentions c (UvWrite d data) \<longleftrightarrow> d = c"
| "mentions c (UvClose d) \<longleftrightarrow> d = c"
| "mentions c (UvReadStart d) \<longleftrightarrow> d = c"
| "mentions c (UvReadStop d) \<longleftrightarrow> d = c"
| "mentions c UvCloseServer \<longleftrightarrow> False"

fun is_write :: "uv_call \<Rightarrow> bool" where
  "is_write (UvWrite d data) \<longleftrightarrow> True"
| "is_write _ \<longleftrightarrow> False"

definition calls_for :: "nat \<Rightarrow> 'r server \<Rightarrow> uv_call list" where
  "calls_for c s = filter (mentions c) (sv_calls s)"

definition outstanding :: "nat \<Rightarrow> 'r server \<Rightarrow> uv_history \<Rightarrow> int" where
  "outstanding c s h = int (length (filter is_write (calls_for c s))) - int (uh_completed h c)"

text \<open>libuv delivers data only while a handle is open, a completion for each write, and, when all
  writes have been completed, one answer to \<open>uv_close\<close>. \<open>descriptors\<close> says which descriptors a new connection may have.\<close>

definition may_happen :: "('r server \<Rightarrow> nat \<Rightarrow> bool) \<Rightarrow> uv_event \<Rightarrow> 'r server \<Rightarrow> uv_history \<Rightarrow> bool" where
  "may_happen descriptors ev s h =
     (case ev of
        Accept status accepted fileno \<Rightarrow> accepted = 0 \<and> (case fileno of Some fd \<Rightarrow> descriptors s fd | None \<Rightarrow> False)
      | ReadDone c nread data \<Rightarrow> UvReadStart c \<in> set (calls_for c s) \<and> UvClose c \<notin> set (calls_for c s)
      | WriteDone c status \<Rightarrow> 0 < outstanding c s h
      | CloseDone c \<Rightarrow> UvClose c \<in> set (calls_for c s) \<and> c \<notin> uh_closed h \<and> outstanding c s h = 0
      | StopWork \<Rightarrow> True)"

inductive server_run :: "'r runner_ops \<Rightarrow> 'r \<Rightarrow> ('r server \<Rightarrow> nat \<Rightarrow> bool) \<Rightarrow> 'r server \<Rightarrow> uv_history \<Rightarrow> bool"
  for ops new_runner descriptors where
  run_start: "server_run ops new_runner descriptors init_server no_history"
| run_event: "server_run ops new_runner descriptors s h \<Longrightarrow> may_happen descriptors ev s h \<Longrightarrow>
    handle_event ops new_runner ev s = Inr s' \<Longrightarrow> server_run ops new_runner descriptors s' (record_event ev h)"

text \<open>A descriptor that no connection of the table has, and one whose connection is being closed.\<close>

definition unused_descriptor :: "'r server \<Rightarrow> nat \<Rightarrow> bool" where
  "unused_descriptor s fd \<longleftrightarrow> fd \<notin> fst ` set (sv_connections s)"

definition closed_descriptor :: "'r server \<Rightarrow> nat \<Rightarrow> bool" where
  "closed_descriptor s fd \<longleftrightarrow> (\<forall>c. map_of (sv_connections s) fd = Some c \<longrightarrow> UvClose c \<in> set (sv_calls s))"

section \<open>The invariant\<close>

definition live_ok :: "'r runner_ops \<Rightarrow> 'r server \<Rightarrow> uv_history \<Rightarrow> nat \<Rightarrow> 'r connection \<Rightarrow> bool" where
  "live_ok ops s h c cn \<longleftrightarrow>
     map_of (sv_connections s) (cn_fd cn) = Some c \<and> c < sv_next s \<and> c \<notin> uh_closed h
     \<and> filter (\<lambda>x. x = UvClose c) (calls_for c s) = (if cn_closing cn then [UvClose c] else [])
     \<and> cn_pending_writes cn = outstanding c s h
     \<and> (\<not> ro_has_error ops (cn_runner cn) \<longrightarrow> \<not> ro_has_pending_output ops (cn_runner cn))"

definition gone_ok :: "'r server \<Rightarrow> uv_history \<Rightarrow> nat \<Rightarrow> bool" where
  "gone_ok s h c \<longleftrightarrow>
     outstanding c s h = 0
     \<and> (if c < sv_next s then filter (\<lambda>x. x = UvClose c) (calls_for c s) = [UvClose c] \<and> c \<in> uh_closed h
        else calls_for c s = [] \<and> c \<notin> uh_closed h)"

definition object_ok :: "'r runner_ops \<Rightarrow> 'r server \<Rightarrow> uv_history \<Rightarrow> nat \<Rightarrow> bool" where
  "object_ok ops s h c = (case sv_objects s c of None \<Rightarrow> gone_ok s h c | Some cn \<Rightarrow> live_ok ops s h c cn)"

definition table_ok :: "'r server \<Rightarrow> bool" where
  "table_ok s \<longleftrightarrow> distinct (map fst (sv_connections s))
     \<and> (\<forall>(fd, c) \<in> set (sv_connections s). \<exists>cn. sv_objects s c = Some cn \<and> cn_fd cn = fd)"

definition server_ok :: "'r runner_ops \<Rightarrow> 'r server \<Rightarrow> uv_history \<Rightarrow> bool" where
  "server_ok ops s h \<longleftrightarrow> table_ok s \<and> (\<forall>c. object_ok ops s h c)"

lemma server_ok_init: "server_ok ops init_server no_history"
  by (simp add: server_ok_def table_ok_def object_ok_def gone_ok_def init_server_def calls_for_def outstanding_def no_history_def)

text \<open>What is known of one object depends only on what concerns it.\<close>

lemma object_ok_cong:
  assumes "sv_objects s' d = sv_objects s d" and "sv_connections s' = sv_connections s" and "sv_next s' = sv_next s"
    and "calls_for d s' = calls_for d s" and "uh_completed h' d = uh_completed h d" and "d \<in> uh_closed h' \<longleftrightarrow> d \<in> uh_closed h"
  shows "object_ok ops s' h' d = object_ok ops s h d"
  using assms by (simp add: object_ok_def gone_ok_def live_ok_def outstanding_def cong: option.case_cong)

lemma calls_for_simps [simp]:
  "calls_for d (uv_calls calls s) = calls_for d s @ filter (mentions d) calls"
  "calls_for d (put_connection c cn s) = calls_for d s"
  "calls_for d (s\<lparr>sv_stopping := b\<rparr>) = calls_for d s"
  "calls_for d (s\<lparr>sv_next := n\<rparr>) = calls_for d s"
  "calls_for d (s\<lparr>sv_connections := xs\<rparr>) = calls_for d s"
  "calls_for d (s\<lparr>sv_objects := xs'\<rparr>) = calls_for d s"
  by (simp_all add: calls_for_def uv_calls_def put_connection_def)

lemma server_simps [simp]:
  "sv_objects (uv_calls calls s) = sv_objects s" "sv_connections (uv_calls calls s) = sv_connections s"
  "sv_next (uv_calls calls s) = sv_next s" "sv_listening (uv_calls calls s) = sv_listening s"
  "sv_calls (uv_calls calls s) = sv_calls s @ calls"
  "sv_objects (put_connection c cn s) = (sv_objects s)(c \<mapsto> cn)" "sv_connections (put_connection c cn s) = sv_connections s"
  "sv_next (put_connection c cn s) = sv_next s" "sv_listening (put_connection c cn s) = sv_listening s"
  "sv_calls (put_connection c cn s) = sv_calls s"
  by (simp_all add: uv_calls_def put_connection_def)

text \<open>A callback that changes the object of one connection, and calls libuv for it.\<close>

lemma server_ok_update:
  assumes "server_ok ops s h" and "sv_objects s c = Some cn" and "cn_fd cn' = cn_fd cn"
    and "\<forall>x \<in> set calls. mentions c x"
    and "\<And>d. d \<noteq> c \<Longrightarrow> uh_completed h' d = uh_completed h d" and "uh_closed h' = uh_closed h"
    and "live_ok ops (uv_calls calls (put_connection c cn' s)) h' c cn'"
  shows "server_ok ops (uv_calls calls (put_connection c cn' s)) h'"
proof -
  have m: "filter (mentions d) calls = []" if "d \<noteq> c" for d
    unfolding filter_empty_conv
  proof
    fix x assume "x \<in> set calls"
    then have "mentions c x" using assms(4) by blast
    with that show "\<not> mentions d x" by (cases x) simp_all
  qed
  have "table_ok (uv_calls calls (put_connection c cn' s))"
    using assms(1-3) by (fastforce simp: server_ok_def table_ok_def)
  moreover have "object_ok ops (uv_calls calls (put_connection c cn' s)) h' d" for d
  proof (cases "d = c")
    case True
    with assms(7) show ?thesis by (simp add: object_ok_def)
  next
    case False
    then have "object_ok ops (uv_calls calls (put_connection c cn' s)) h' d = object_ok ops s h d"
      by (intro object_ok_cong) (simp_all add: m assms(5,6))
    with assms(1) show ?thesis by (simp add: server_ok_def)
  qed
  ultimately show ?thesis by (simp add: server_ok_def)
qed

lemma put_twice [simp]: "put_connection c a (put_connection c b s) = put_connection c a s"
  by (simp add: put_connection_def)

lemma no_calls [simp]: "uv_calls [] s = s"
  by (simp add: uv_calls_def)

lemma outstanding_simps [simp]:
  "outstanding c (uv_calls calls s) h = outstanding c s h + int (length (filter is_write (filter (mentions c) calls)))"
  "outstanding c (put_connection d cn s) h = outstanding c s h"
  by (simp_all add: outstanding_def)

lemma server_okD:
  assumes "server_ok ops s h"
  shows "sv_objects s c = Some cn \<Longrightarrow> live_ok ops s h c cn" and "sv_objects s c = None \<Longrightarrow> gone_ok s h c" and "table_ok s"
  using assms by (auto simp: server_ok_def object_ok_def split: option.splits dest: spec [of _ c])

section \<open>Every callback keeps the invariant\<close>

text \<open>What libuv may deliver concerns an object that exists.\<close>

lemma open_object:
  assumes "server_ok ops s h" and "UvReadStart c \<in> set (calls_for c s)" and "UvClose c \<notin> set (calls_for c s)"
  shows "\<exists>cn. sv_objects s c = Some cn \<and> \<not> cn_closing cn"
proof (cases "sv_objects s c")
  case None
  from server_okD(2) [OF assms(1) None] assms(2,3) show ?thesis
    by (auto simp: gone_ok_def filter_eq_Cons_iff split: if_splits)
next
  case (Some cn)
  from server_okD(1) [OF assms(1) Some] assms(3) show ?thesis
    by (auto simp: live_ok_def Some filter_eq_Cons_iff split: if_splits)
qed

lemma written_object: "server_ok ops s h \<Longrightarrow> 0 < outstanding c s h \<Longrightarrow> \<exists>cn. sv_objects s c = Some cn"
  using server_okD(2) [of ops s h c] by (cases "sv_objects s c") (auto simp: gone_ok_def)

lemma closed_object:
  assumes "server_ok ops s h" and "UvClose c \<in> set (calls_for c s)" and "c \<notin> uh_closed h"
  shows "\<exists>cn. sv_objects s c = Some cn \<and> cn_closing cn"
proof (cases "sv_objects s c")
  case None
  from server_okD(2) [OF assms(1) None] assms(2,3) show ?thesis by (auto simp: gone_ok_def split: if_splits)
next
  case (Some cn)
  from server_okD(1) [OF assms(1) Some] assms(2) show ?thesis
    by (auto simp: live_ok_def Some filter_empty_conv split: if_splits)
qed

lemma request_close_ok:
  assumes "server_ok ops s h" and "sv_objects s c = Some cn" and "cn_fd cn' = cn_fd cn" and "cn_closing cn' = cn_closing cn"
    and "cn_pending_writes cn' = outstanding c s h'"
    and "\<not> ro_has_error ops (cn_runner cn') \<longrightarrow> \<not> ro_has_pending_output ops (cn_runner cn')"
    and "\<And>d. d \<noteq> c \<Longrightarrow> uh_completed h' d = uh_completed h d" and "uh_closed h' = uh_closed h"
  shows "server_ok ops (request_close c cn' (put_connection c cn' s)) h'"
proof -
  note l = server_okD(1) [OF assms(1,2)]
  show ?thesis
  proof (cases "cn_closing cn'")
    case True
    have "server_ok ops (uv_calls [] (put_connection c cn' s)) h'"
      by (rule server_ok_update [OF assms(1-3) _ assms(7,8)]) (use assms l True in \<open>simp_all add: live_ok_def\<close>)
    with True show ?thesis by (simp add: request_close_def)
  next
    case False
    have "server_ok ops (uv_calls [UvClose c] (put_connection c (cn'\<lparr>cn_closing := True\<rparr>) s)) h'"
      by (rule server_ok_update [OF assms(1,2) _ _ assms(7,8)]) (use assms l False in \<open>simp_all add: live_ok_def\<close>)
    with False show ?thesis by (simp add: request_close_def)
  qed
qed

context connection_runner
begin

lemma process_output_ok:
  assumes "server_ok ops s h" and "sv_objects s c = Some cn" and "cn_fd cn' = cn_fd cn" and "cn_closing cn' = cn_closing cn"
    and "cn_pending_writes cn' = outstanding c s h'"
    and "\<And>d. d \<noteq> c \<Longrightarrow> uh_completed h' d = uh_completed h d" and "uh_closed h' = uh_closed h"
  shows "\<exists>s'. process_output ops c (put_connection c cn' s) = Inr s' \<and> server_ok ops s' h'"
proof -
  let ?p = "ro_has_pending_output ops (cn_runner cn')" and ?out = "ro_pending_output ops (cn_runner cn')"
  let ?cn = "if ?p then cn'\<lparr>cn_runner := ro_bytes_written ops (length ?out) (cn_runner cn'), cn_pending_writes := cn_pending_writes cn' + 1\<rparr>
      else cn'" and ?calls = "if ?p then [UvWrite c ?out] else []"
  have "process_output ops c (put_connection c cn' s) = Inr (uv_calls ?calls (put_connection c ?cn s))"
    by (simp add: process_output_def with_connection_def flush_output_all)
  moreover have "server_ok ops (uv_calls ?calls (put_connection c ?cn s)) h'"
    using server_okD(1) [OF assms(1,2)] assms all_written
    by (intro server_ok_update [OF assms(1,2) _ _ assms(6,7)]) (simp_all add: live_ok_def)
  ultimately show ?thesis by blast
qed

lemma on_read_ok:
  assumes "server_ok ops s h" and "may_happen descriptors (ReadDone c nread data) s h"
  shows "on_read ops c nread data s \<noteq> Inl Dangling"
    and "on_read ops c nread data s = Inr s' \<Longrightarrow> server_ok ops s' h"
proof -
  from assms(2) obtain cn where cn: "sv_objects s c = Some cn" "\<not> cn_closing cn"
    using open_object [OF assms(1)] by (auto simp: may_happen_def)
  note l = server_okD(1) [OF assms(1) cn(1)]
  have same: "put_connection c cn s = s" using cn(1) by (simp add: put_connection_def map_upd_triv)
  have "on_read ops c nread data s = Inl NoReturn \<or> (\<exists>s'. on_read ops c nread data s = Inr s' \<and> server_ok ops s' h)"
  proof (cases "nread > 0")
    case True
    show ?thesis
    proof (cases "ro_on_bytes_received ops data (cn_runner cn)")
      case None
      with True cn(1) show ?thesis by (simp add: on_read_def with_connection_def)
    next
      case (Some x)
      obtain n r where x: "x = (n, r)" by (cases x)
      let ?cn = "cn\<lparr>cn_runner := r\<rparr>"
      have p: "cn_pending_writes ?cn = outstanding c s h" using l by (simp add: live_ok_def)
      show ?thesis
      proof (cases "ro_has_error ops r")
        case True
        have "server_ok ops (request_close c ?cn (put_connection c ?cn s)) h"
          by (rule request_close_ok [OF assms(1) cn(1) _ _ p]) (simp_all add: True)
        with True Some x \<open>nread > 0\<close> cn(1) show ?thesis by (simp add: on_read_def with_connection_def Let_def)
      next
        case False
        from process_output_ok [OF assms(1) cn(1), of ?cn h] p obtain s' where
          "process_output ops c (put_connection c ?cn s) = Inr s'" "server_ok ops s' h" by auto
        with False Some x \<open>nread > 0\<close> cn(1) show ?thesis by (simp add: on_read_def with_connection_def Let_def)
      qed
    qed
  next
    case False
    have "server_ok ops (request_close c cn (put_connection c cn s)) h"
      by (rule request_close_ok [OF assms(1) cn(1)]) (use l in \<open>simp_all add: live_ok_def\<close>)
    with False assms(1) cn(1) same show ?thesis by (auto simp: on_read_def with_connection_def)
  qed
  then show "on_read ops c nread data s \<noteq> Inl Dangling" and "on_read ops c nread data s = Inr s' \<Longrightarrow> server_ok ops s' h"
    by auto
qed

lemma on_write_complete_ok:
  assumes "server_ok ops s h" and "may_happen descriptors (WriteDone c status) s h"
  shows "\<exists>s'. on_write_complete ops c status s = Inr s' \<and> server_ok ops s' (record_event (WriteDone c status) h)"
proof -
  from assms(2) obtain cn where cn: "sv_objects s c = Some cn"
    using written_object [OF assms(1), of c] by (auto simp: may_happen_def)
  note l = server_okD(1) [OF assms(1) cn]
  let ?h = "record_event (WriteDone c status) h" and ?cn = "cn\<lparr>cn_pending_writes := cn_pending_writes cn - 1\<rparr>"
  have h: "uh_closed ?h = uh_closed h" "d \<noteq> c \<Longrightarrow> uh_completed ?h d = uh_completed h d" for d by (simp_all add: record_event_def)
  have p: "cn_pending_writes ?cn = outstanding c s ?h" using l by (simp add: live_ok_def record_event_def outstanding_def)
  have close: "server_ok ops (request_close c ?cn (put_connection c ?cn s)) ?h"
    by (rule request_close_ok [OF assms(1) cn _ _ p _ h(2,1)]) (use l in \<open>simp_all add: live_ok_def\<close>)
  have keep: "server_ok ops (uv_calls [] (put_connection c ?cn s)) ?h"
    by (rule server_ok_update [OF assms(1) cn _ _ h(2,1)]) (use l p in \<open>simp_all add: live_ok_def record_event_def\<close>)
  obtain s' where s': "process_output ops c (put_connection c ?cn s) = Inr s'" "server_ok ops s' ?h"
    using process_output_ok [OF assms(1) cn _ _ p h(2,1)] by auto
  have "on_write_complete ops c status s = Inr (request_close c ?cn (put_connection c ?cn s))
    \<or> on_write_complete ops c status s = process_output ops c (put_connection c ?cn s)
    \<or> on_write_complete ops c status s = Inr (put_connection c ?cn s)"
    using cn unfolding on_write_complete_def with_connection_def Let_def by (simp only: option.case split: if_split) blast
  with close keep s' show ?thesis by auto
qed

end

section \<open>Closing, accepting and stopping\<close>

lemma on_close_ok:
  assumes "server_ok ops s h" and "may_happen descriptors (CloseDone c) s h"
  shows "\<exists>s'. on_close c s = Inr s' \<and> server_ok ops s' (record_event (CloseDone c) h)"
proof -
  from assms(2) obtain cn where cn: "sv_objects s c = Some cn" "cn_closing cn"
    using closed_object [OF assms(1), of c] by (auto simp: may_happen_def)
  let ?h = "record_event (CloseDone c) h" and ?fd = "cn_fd cn"
  let ?s = "s\<lparr>sv_objects := (sv_objects s)(c := None), sv_connections := AList.delete ?fd (sv_connections s)\<rparr>"
  note l = server_okD(1) [OF assms(1) cn(1)] and t = server_okD(3) [OF assms(1)]
  have c: "on_close c s = Inr ?s" using cn l by (simp add: on_close_def with_connection_def destroy_entry_def live_ok_def)
  have other: "cn_fd cn' \<noteq> ?fd" if "sv_objects s d = Some cn'" "d \<noteq> c" for d cn'
    using server_okD(1) [OF assms(1) that(1)] l that(2) by (auto simp: live_ok_def)
  have "table_ok ?s"
    unfolding table_ok_def
  proof (intro conjI ballI)
    show "distinct (map fst (sv_connections ?s))" using t by (simp add: table_ok_def distinct_delete)
    fix p assume "p \<in> set (sv_connections ?s)"
    then have p: "p \<in> set (sv_connections s)" "fst p \<noteq> ?fd" by (auto simp: AList.delete_eq)
    then obtain cn' where cn': "sv_objects s (snd p) = Some cn'" "cn_fd cn' = fst p" using t by (cases p) (auto simp: table_ok_def)
    have "snd p \<noteq> c" using cn' cn(1) p(2) by auto
    with cn' show "case p of (fd, c') \<Rightarrow> \<exists>cn. sv_objects ?s c' = Some cn \<and> cn_fd cn = fd" by (cases p) simp
  qed
  moreover have "object_ok ops ?s ?h d" for d
  proof (cases "d = c")
    case True
    with l cn(2) assms(2) show ?thesis
      by (simp add: object_ok_def gone_ok_def live_ok_def may_happen_def record_event_def outstanding_def)
  next
    case False
    have "object_ok ops s h d" using assms(1) by (simp add: server_ok_def)
    with False other [of d] show ?thesis
      by (auto simp: object_ok_def gone_ok_def live_ok_def outstanding_def record_event_def delete_conv split: option.splits)
  qed
  ultimately show ?thesis using c by (auto simp: server_ok_def)
qed

lemma stop_work_ok:
  assumes "server_ok ops s h"
  shows "server_ok ops (stop_work (s\<lparr>sv_stopping := b\<rparr>)) h"
proof -
  have keep: "server_ok ops s' h" if "sv_objects s' = sv_objects s" "sv_connections s' = sv_connections s" "sv_next s' = sv_next s"
    "\<And>d. calls_for d s' = calls_for d s" "server_ok ops s h" for s s'
    using that object_ok_cong [of s' _ s h h ops] by (simp add: server_ok_def table_ok_def)
  have one: "server_ok ops (close_object c s) h" if "server_ok ops s h" for s c
  proof (cases "sv_objects s c")
    case None
    with that show ?thesis by (simp add: close_object_def)
  next
    case (Some cn)
    note l = server_okD(1) [OF that Some]
    have "server_ok ops (request_close c cn (put_connection c cn s)) h"
      by (rule request_close_ok [OF that Some]) (use l in \<open>simp_all add: live_ok_def\<close>)
    moreover have "put_connection c cn s = s" using Some by (simp add: put_connection_def map_upd_triv)
    ultimately show ?thesis using Some by (simp add: close_object_def)
  qed
  have "server_ok ops (fold (\<lambda>(fd, c). close_object c) xs s) h" if "server_ok ops s h" for xs s
    using that by (induction xs arbitrary: s) (auto simp: one)
  moreover have "server_ok ops (s\<lparr>sv_stopping := b\<rparr>) h" by (rule keep [OF _ _ _ _ assms]) simp_all
  ultimately have f: "server_ok ops (fold (\<lambda>(fd, c). close_object c) (sv_connections s) (s\<lparr>sv_stopping := b\<rparr>)) h" (is "server_ok ops ?s h") .
  then have "server_ok ops (uv_calls [UvCloseServer] ?s) h" by (rule keep [rotated 4]) simp_all
  with f show ?thesis by (simp add: stop_work_def Let_def)
qed

lemma update_fresh: "k \<notin> fst ` set xs \<Longrightarrow> AList.update k v xs = xs @ [(k, v)]"
  by (induction xs) auto

text \<open>A connection of a descriptor that the table does not have, and a handle that starts to read.\<close>

lemma server_ok_fresh:
  assumes "server_ok ops s h" and "fd \<notin> fst ` set (sv_connections s)"
    and "cn_fd cn = fd" and "\<not> cn_closing cn" and "cn_pending_writes cn = 0" and "\<not> ro_has_pending_output ops (cn_runner cn)"
  shows "server_ok ops (put_connection (sv_next s) cn
    (s\<lparr>sv_next := sv_next s + 1, sv_connections := AList.update fd (sv_next s) (sv_connections s)\<rparr>)) h" (is "server_ok ops ?s h")
proof -
  let ?c = "sv_next s"
  have t: "table_ok s" using server_okD(3) [OF assms(1)] .
  have free: "sv_objects s ?c = None" using server_okD(1) [OF assms(1), of ?c] by (cases "sv_objects s ?c") (auto simp: live_ok_def)
  note g = server_okD(2) [OF assms(1) free]
  have u: "AList.update fd ?c (sv_connections s) = sv_connections s @ [(fd, ?c)]"
    by (rule update_fresh [OF assms(2)])
  have "table_ok ?s" using t assms(2,3) free by (auto simp: table_ok_def u)
  moreover have "object_ok ops ?s h d" for d
  proof (cases "d = ?c")
    case True
    have "map_of (sv_connections s) (cn_fd cn) = None" using assms(2,3) by (simp add: map_of_eq_None_iff)
    with True g assms show ?thesis by (auto simp: object_ok_def live_ok_def gone_ok_def outstanding_def u map_add_def)
  next
    case False
    have "object_ok ops s h d" using assms(1) by (simp add: server_ok_def)
    with False assms(2) show ?thesis
      by (auto simp: object_ok_def gone_ok_def live_ok_def outstanding_def u map_add_def split: option.splits)
  qed
  ultimately show ?thesis by (simp add: server_ok_def)
qed

lemma server_ok_reading:
  assumes "server_ok ops s h" and "c < sv_next s"
  shows "server_ok ops (uv_calls [UvReadStart c] s) h"
proof -
  have "table_ok (uv_calls [UvReadStart c] s)" using server_okD(3) [OF assms(1)] by (simp add: table_ok_def)
  moreover have "object_ok ops (uv_calls [UvReadStart c] s) h d" for d
  proof -
    have "object_ok ops s h d" using assms(1) by (simp add: server_ok_def)
    with assms(2) show ?thesis by (auto simp: object_ok_def gone_ok_def live_ok_def split: option.splits)
  qed
  ultimately show ?thesis by (simp add: server_ok_def)
qed

lemma process_output_next: "process_output ops c s = Inr s' \<Longrightarrow> sv_next s' = sv_next s"
  by (auto simp: process_output_def with_connection_def split: option.splits prod.splits)

context connection_runner
begin

lemma on_new_connection_ok:
  assumes "server_ok ops s h" and "may_happen unused_descriptor (Accept status accepted fileno) s h"
  shows "on_new_connection ops r0 status accepted fileno s \<noteq> Inl Dangling"
    and "on_new_connection ops r0 status accepted fileno s = Inr s' \<Longrightarrow> server_ok ops s' h"
proof -
  from assms(2) obtain fd where fd: "accepted = 0" "fileno = Some fd" "fd \<notin> fst ` set (sv_connections s)"
    by (auto simp: may_happen_def unused_descriptor_def split: option.splits)
  let ?c = "sv_next s"
  note t = server_okD(3) [OF assms(1)]
  have free: "sv_objects s ?c = None" using server_okD(1) [OF assms(1), of ?c] by (cases "sv_objects s ?c") (auto simp: live_ok_def)
  then have g: "calls_for ?c s = []" "outstanding ?c s h = 0" using server_okD(2) [OF assms(1)] by (auto simp: gone_ok_def)
  have unclosed: "?c \<notin> uh_closed h" using server_okD(2) [OF assms(1) free] by (simp add: gone_ok_def)
  have "on_new_connection ops r0 status accepted fileno s = Inl NoReturn
    \<or> (\<exists>s'. on_new_connection ops r0 status accepted fileno s = Inr s' \<and> server_ok ops s' h)"
  proof (cases "status < 0 \<or> sv_stopping s")
    case True
    with assms(1) show ?thesis by (simp add: on_new_connection_def)
  next
    case False
    show ?thesis
    proof (cases "ro_start ops r0")
      case None
      with False fd show ?thesis by (simp add: on_new_connection_def Let_def)
    next
      case (Some r)
      let ?cn = "\<lparr>cn_fd = fd, cn_runner = r, cn_closing = False, cn_pending_writes = 0\<rparr>"
      let ?s = "s\<lparr>sv_next := ?c + 1, sv_connections := AList.update fd ?c (sv_connections s)\<rparr>"
      have d: "destroy_entry fd (s\<lparr>sv_next := ?c + 1\<rparr>) = s\<lparr>sv_next := ?c + 1\<rparr>"
        using fd(3) map_of_eq_None_iff [of "sv_connections s" fd] by (simp add: destroy_entry_def)
      let ?r = "ro_bytes_written ops (length (ro_pending_output ops r)) r"
      have "server_ok ops (put_connection ?c (?cn\<lparr>cn_runner := ?r\<rparr>) ?s) h"
        by (rule server_ok_fresh [OF assms(1) fd(3)]) (simp_all add: all_written)
      from process_output_ok [OF this, of ?c "?cn\<lparr>cn_runner := ?r\<rparr>" ?cn h] g
      obtain s' where s': "process_output ops ?c (put_connection ?c ?cn ?s) = Inr s'" "server_ok ops s' h"
        by (auto simp: outstanding_def)
      have "server_ok ops (uv_calls [UvReadStart ?c] s') h" by (rule server_ok_reading [OF s'(2)]) (simp add: process_output_next [OF s'(1)])
      with False Some fd d s'(1) show ?thesis by (simp add: on_new_connection_def Let_def)
    qed
  qed
  then show "on_new_connection ops r0 status accepted fileno s \<noteq> Inl Dangling"
    and "on_new_connection ops r0 status accepted fileno s = Inr s' \<Longrightarrow> server_ok ops s' h"
    by auto
qed

end

end
