(* ===== verification/ServerTheorems.thy ===== *)
theory ServerTheorems
  imports ServerLemmas GeneratedClaims
begin

text \<open>
  What the server for generated code promises, and what it does not: the life of a connection, the
  descriptors it may be given, and the input that arrives in one read.
\<close>

section \<open>Runs\<close>

context connection_runner
begin

lemma server_run_ok:
  assumes "server_run ops r0 unused_descriptor s h"
  shows "server_ok ops s h"
  using assms
proof induction
  case run_start
  show ?case by (rule server_ok_init)
next
  case (run_event s h ev s')
  show ?case
  proof (cases ev)
    case (Accept status accepted fileno)
    with on_new_connection_ok(2) [OF run_event.IH] run_event.hyps show ?thesis by (simp add: handle_event_def record_event_def)
  next
    case (ReadDone c nread data)
    with on_read_ok(2) [OF run_event.IH] run_event.hyps show ?thesis by (simp add: handle_event_def record_event_def)
  next
    case (WriteDone c status)
    with on_write_complete_ok [OF run_event.IH] run_event.hyps show ?thesis by (fastforce simp: handle_event_def)
  next
    case (CloseDone c)
    with on_close_ok [OF run_event.IH] run_event.hyps show ?thesis by (fastforce simp: handle_event_def)
  next
    case StopWork
    with stop_work_ok [OF run_event.IH] run_event.hyps show ?thesis by (auto simp: handle_event_def record_event_def stop_requested_def)
  qed
qed

lemma process_output_some:
  assumes "sv_objects s c = Some cn"
  shows "\<exists>s'. process_output ops c s = Inr s' \<and> (\<forall>d. d \<noteq> c \<longrightarrow> sv_objects s' d = sv_objects s d)"
  using assms by (auto simp: process_output_def with_connection_def flush_output_all)

lemma event_handled:
  assumes "server_ok ops s h" and "may_happen unused_descriptor ev s h"
  shows "handle_event ops r0 ev s \<noteq> Inl Dangling"
proof (cases ev)
  case (Accept status accepted fileno)
  with on_new_connection_ok(1) assms show ?thesis by (simp add: handle_event_def)
next
  case (ReadDone c nread data)
  with on_read_ok(1) assms show ?thesis by (simp add: handle_event_def)
next
  case (WriteDone c status)
  with on_write_complete_ok assms show ?thesis by (fastforce simp: handle_event_def)
next
  case (CloseDone c)
  with on_close_ok assms show ?thesis by (fastforce simp: handle_event_def)
qed (simp add: handle_event_def)

end

lemma closed_once:
  assumes "server_ok ops s h"
  shows "length (filter (\<lambda>x. x = UvClose c) (sv_calls s)) \<le> 1"
proof -
  have "filter (\<lambda>x. x = UvClose c) (sv_calls s) = filter (\<lambda>x. x = UvClose c) (calls_for c s)"
    unfolding calls_for_def filter_filter by (rule filter_cong) auto
  with server_okD(1,2) [OF assms, of c] show ?thesis
    by (cases "sv_objects s c") (auto simp: live_ok_def gone_ok_def split: if_splits)
qed

text \<open>C3: While every new connection has a descriptor that the table does not hold, no callback of libuv
  reaches an object that is gone, whatever data arrives and however writes complete; no handle is closed
  twice; the counter of a connection is the number of its writes under way; and output waits only at a runner
  that has failed.\<close>

theorem server_safe:
  assumes "server_run (adapter_ops info is_client reply opening) r0 unused_descriptor s h"
  shows "(may_happen unused_descriptor ev s h \<longrightarrow> handle_event (adapter_ops info is_client reply opening) r0 ev s \<noteq> Inl Dangling)
    \<and> length (filter (\<lambda>x. x = UvClose c) (sv_calls s)) \<le> 1
    \<and> (case sv_objects s c of
         None \<Rightarrow> outstanding c s h = 0
       | Some cn \<Rightarrow> cn_pending_writes cn = outstanding c s h \<and> map_of (sv_connections s) (cn_fd cn) = Some c
           \<and> (sm_has_error (cn_runner cn) \<or> sm_output (cn_runner cn) = []))"
proof -
  note ok = adapter.server_run_ok [OF assms]
  have "case sv_objects s c of
         None \<Rightarrow> outstanding c s h = 0
       | Some cn \<Rightarrow> cn_pending_writes cn = outstanding c s h \<and> map_of (sv_connections s) (cn_fd cn) = Some c
           \<and> (sm_has_error (cn_runner cn) \<or> sm_output (cn_runner cn) = [])"
    using server_okD(1,2) [OF ok, of c]
    by (auto simp: live_ok_def gone_ok_def adapter_ops_def split: option.splits)
  with adapter.event_handled [OF ok] closed_once [OF ok] show ?thesis by blast
qed

text \<open>A server whose side opens with nothing: a connection is accepted, and closed by the other end.\<close>

definition quiet_ops :: "side_machine runner_ops" where
  "quiet_ops = adapter_ops greeting_info False (\<lambda>_ _. ('''', Map.empty)) ('''', Map.empty)"

lemma quiet_start: "ro_start quiet_ops m = Some m"
  by (simp add: quiet_ops_def adapter_ops_def runner_start_def dispatch_output_def greeting_server_writes)

definition one_connection :: "bool \<Rightarrow> uv_call list \<Rightarrow> side_machine server" where
  "one_connection closing calls =
     \<lparr>sv_objects = [0 \<mapsto> \<lparr>cn_fd = 7, cn_runner = init_machine greeting_info, cn_closing = closing, cn_pending_writes = 0\<rparr>],
      sv_next = 1, sv_connections = [(7, 0)], sv_stopping = False, sv_listening = False, sv_calls = calls\<rparr>"

lemma quiet_accepts:
  assumes "descriptors init_server 7"
  shows "server_run quiet_ops (init_machine greeting_info) descriptors (one_connection False [UvReadStart 0]) no_history"
proof -
  have "\<not> ro_has_pending_output quiet_ops (init_machine greeting_info)"
    by (simp add: quiet_ops_def adapter_ops_def greeting_init)
  then have "handle_event quiet_ops (init_machine greeting_info) (Accept 0 0 (Some 7)) init_server = Inr (one_connection False [UvReadStart 0])"
    by (simp add: handle_event_def on_new_connection_def init_server_def quiet_start destroy_entry_def process_output_def
        with_connection_def put_connection_def flush_output.simps uv_calls_def one_connection_def)
  from run_event [OF run_start _ this] assms show ?thesis
    by (simp add: may_happen_def record_event_def)
qed

theorem server_safe_witness:
  "handle_event quiet_ops (init_machine greeting_info) (ReadDone 0 (- 1) []) (one_connection False [UvReadStart 0]) \<noteq> Inl Dangling"
proof -
  have "server_run quiet_ops (init_machine greeting_info) unused_descriptor (one_connection False [UvReadStart 0]) no_history"
    by (rule quiet_accepts) (simp add: unused_descriptor_def init_server_def)
  moreover have "may_happen unused_descriptor (ReadDone 0 (- 1) []) (one_connection False [UvReadStart 0]) no_history"
    by (simp add: may_happen_def calls_for_def one_connection_def)
  ultimately show ?thesis
    using server_safe [of greeting_info False "\<lambda>_ _. ('''', Map.empty)" "('''', Map.empty)", folded quiet_ops_def] by blast
qed

section \<open>Descriptors that are used again\<close>

text \<open>C39: libuv closes the descriptor of a handle in \<open>uv_close\<close> and calls \<open>on_close\<close> later. In between the
  system may give the descriptor to a new connection: storing it destroys the connection that is still closing,
  and its \<open>on_close\<close> then reads an object that is gone.\<close>

theorem reused_descriptor_dangles:
  assumes "server_run (adapter_ops info is_client reply opening) r0 unused_descriptor s h"
    and "may_happen unused_descriptor (CloseDone c) s h"
    and "\<not> sv_stopping s" and "runner_start info is_client opening r0 = Some r"
  shows "\<exists>fd s'. map_of (sv_connections s) fd = Some c
    \<and> handle_event (adapter_ops info is_client reply opening) r0 (Accept 0 0 (Some fd)) s = Inr s'
    \<and> handle_event (adapter_ops info is_client reply opening) r0 (CloseDone c) s' = Inl Dangling"
proof -
  let ?ops = "adapter_ops info is_client reply opening"
  note ok = adapter.server_run_ok [OF assms(1)]
  obtain cn where cn: "sv_objects s c = Some cn"
    using closed_object [OF ok, of c] assms(2) by (auto simp: may_happen_def)
  then have l: "map_of (sv_connections s) (cn_fd cn) = Some c" "c < sv_next s"
    using server_okD(1) [OF ok cn] by (simp_all add: live_ok_def)
  have r: "ro_start ?ops r0 = Some r" using assms(4) by (simp add: adapter_ops_def)
  let ?new = "\<lparr>cn_fd = cn_fd cn, cn_runner = r, cn_closing = False, cn_pending_writes = 0\<rparr>" and ?n = "sv_next s"
  let ?s = "put_connection ?n ?new (s\<lparr>sv_next := ?n + 1, sv_objects := (sv_objects s)(c := None),
    sv_connections := AList.update (cn_fd cn) ?n (AList.delete (cn_fd cn) (sv_connections s))\<rparr>)"
  have "\<exists>s1. process_output ?ops ?n ?s = Inr s1 \<and> (\<forall>d. d \<noteq> ?n \<longrightarrow> sv_objects s1 d = sv_objects ?s d)"
    by (rule adapter.process_output_some [where cn = ?new]) simp
  then obtain s1 where s1: "process_output ?ops ?n ?s = Inr s1" "\<forall>d. d \<noteq> ?n \<longrightarrow> sv_objects s1 d = sv_objects ?s d"
    by blast
  have "handle_event ?ops r0 (Accept 0 0 (Some (cn_fd cn))) s = Inr (uv_calls [UvReadStart ?n] s1)"
    using assms(3) l s1(1) by (simp add: handle_event_def on_new_connection_def r Let_def destroy_entry_def)
  moreover have "sv_objects (uv_calls [UvReadStart ?n] s1) c = None" using s1(2) l(2) by simp
  ultimately obtain s' where s': "handle_event ?ops r0 (Accept 0 0 (Some (cn_fd cn))) s = Inr s'" "sv_objects s' c = None"
    by blast
  then have "handle_event ?ops r0 (CloseDone c) s' = Inl Dangling"
    by (simp add: handle_event_def on_close_def with_connection_def)
  with s'(1) l(1) show ?thesis by blast
qed

lemma quiet_closes:
  "server_run quiet_ops (init_machine greeting_info) unused_descriptor (one_connection True [UvReadStart 0, UvClose 0]) no_history"
proof -
  let ?s = "one_connection False [UvReadStart 0]"
  have "handle_event quiet_ops (init_machine greeting_info) (ReadDone 0 (- 1) []) ?s = Inr (one_connection True [UvReadStart 0, UvClose 0])"
    by (simp add: handle_event_def on_read_def with_connection_def request_close_def put_connection_def uv_calls_def one_connection_def)
  moreover have "may_happen unused_descriptor (ReadDone 0 (- 1) []) ?s no_history"
    by (simp add: may_happen_def calls_for_def one_connection_def)
  moreover have "server_run quiet_ops (init_machine greeting_info) unused_descriptor ?s no_history"
    by (rule quiet_accepts) (simp add: unused_descriptor_def init_server_def)
  ultimately show ?thesis
    using run_event [of quiet_ops "init_machine greeting_info" unused_descriptor ?s no_history "ReadDone 0 (- 1) []"]
    by (simp add: record_event_def)
qed

theorem reused_descriptor_dangles_witness:
  "\<exists>s'. handle_event quiet_ops (init_machine greeting_info) (Accept 0 0 (Some 7)) (one_connection True [UvReadStart 0, UvClose 0]) = Inr s'
    \<and> handle_event quiet_ops (init_machine greeting_info) (CloseDone 0) s' = Inl Dangling"
proof -
  let ?s = "one_connection True [UvReadStart 0, UvClose 0]" and ?o = "('''', Map.empty)"
  have "may_happen unused_descriptor (CloseDone 0) ?s no_history"
    by (simp add: may_happen_def calls_for_def one_connection_def no_history_def outstanding_def)
  moreover have "runner_start greeting_info False ?o (init_machine greeting_info) = Some (init_machine greeting_info)"
    using quiet_start by (simp add: quiet_ops_def adapter_ops_def)
  moreover have "\<not> sv_stopping ?s" by (simp add: one_connection_def)
  ultimately obtain fd s' where "map_of (sv_connections ?s) fd = Some 0"
    "handle_event quiet_ops (init_machine greeting_info) (Accept 0 0 (Some fd)) ?s = Inr s'"
    "handle_event quiet_ops (init_machine greeting_info) (CloseDone 0) s' = Inl Dangling"
    using reused_descriptor_dangles [of greeting_info False "\<lambda>_ _. ?o" ?o, folded quiet_ops_def] quiet_closes by blast
  moreover from this(1) have "fd = 7" by (simp add: one_connection_def split: if_splits)
  ultimately show ?thesis by blast
qed

section \<open>Input that arrives together\<close>

lemma message_received_only:
  assumes "\<forall>a \<in> set (ti_actions rt). transmissible (ti_data rt) v a" and "distinct (read_fields (ti_actions rt))"
    and "sm_parsers m (ti_identifier rt) = init_parser"
  shows "receive_single rt (wire v (ti_actions rt) @ rest) m = receive_single rt (wire v (ti_actions rt)) m"
proof -
  have "message_parse rt init_parser (wire v (ti_actions rt) @ rest) =
      Some (Complete, length (wire v (ti_actions rt)), (fields_parser v (ti_actions rt) (length (ti_actions rt)))\<lparr>mp_complete := True\<rparr>)" for rest
    by (rule message_parse_wire) (use assms(1,2) readable_transmissible in blast)+
  from this [of rest] this [of "[]"] show ?thesis by (simp add: receive_single_def assms(3))
qed

text \<open>C40: When one read holds a message and the beginning of the next, the server consumes the message and
  forgets the rest: the reaction is the one to the message alone.\<close>

theorem pipelined_input_lost:
  assumes "sv_objects s c = Some cn"
    and "transitions_from info is_client (sm_state (cn_runner cn)) = [rt]"
    and "\<forall>a \<in> set (ti_actions rt). transmissible (ti_data rt) v a" and "distinct (read_fields (ti_actions rt))"
    and "ti_actions rt \<noteq> []" and "sm_parsers (cn_runner cn) (ti_identifier rt) = init_parser"
    and "\<not> is_closed (cn_runner cn)" and "\<not> sm_has_error (cn_runner cn)"
  shows "on_read (adapter_ops info is_client reply opening) c (int (length (wire v (ti_actions rt) @ rest))) (wire v (ti_actions rt) @ rest) s =
    on_read (adapter_ops info is_client reply opening) c (int (length (wire v (ti_actions rt)))) (wire v (ti_actions rt)) s"
proof -
  let ?w = "wire v (ti_actions rt)" and ?m = "cn_runner cn"
  have w: "?w \<noteq> []" by (rule wire_nonempty [OF assms(3,5)])
  have "receive_single rt (?w @ rest) ?m = receive_single rt ?w ?m"
    by (rule message_received_only [OF assms(3,4,6)])
  then have "on_bytes_received info is_client (?w @ rest) ?m = on_bytes_received info is_client ?w ?m"
    using assms(2,7,8) w by (simp add: on_bytes_received_def receive_dispatch_def)
  then have "ro_on_bytes_received (adapter_ops info is_client reply opening) (?w @ rest) ?m =
      ro_on_bytes_received (adapter_ops info is_client reply opening) ?w ?m"
    by (simp add: adapter_ops_def runner_on_bytes_received_def)
  moreover have "0 < length ?w" using w by simp
  then have "0 < int (length (?w @ rest))" "0 < int (length ?w)" by (simp_all only: length_append of_nat_0_less_iff add_gr_0 simp_thms)
  ultimately show ?thesis using assms(1) by (simp only: on_read_def with_connection_def option.case if_True)
qed

text \<open>A server that answers each order with \<open>OK\<close>.\<close>

definition order_read :: transition_info where
  "order_read = \<lparr>ti_message_name = ''Order'', ti_identifier = ''Order'', ti_when_state = ''Open'', ti_then_state = ''Filled'',
     ti_agent = ''Server'', ti_actions = greeting_reads, ti_data = [(''name'', Type (IdentifierReference ''str'' None) [])]\<rparr>"

definition order_reply :: transition_info where
  "order_reply = \<lparr>ti_message_name = ''Ack'', ti_identifier = ''Ack'', ti_when_state = ''Filled'', ti_then_state = ''Open'',
     ti_agent = ''Server'', ti_actions = [WriteStaticOctets ''OK''], ti_data = []\<rparr>"

definition order_info :: protocol_info where
  "order_info = \<lparr>pi_states = [''Filled'', ''Open''], pi_messages = [], pi_read_transitions = [order_read], pi_write_transitions = [order_reply]\<rparr>"

definition order_ops :: "side_machine runner_ops" where
  "order_ops = adapter_ops order_info False (\<lambda>_ _. (''Ack'', Map.empty)) ('''', Map.empty)"

lemma order_names: "state_name_to_identifier ''Filled'' = ''Filled''" "state_name_to_identifier ''Open'' = ''Open''"
  by (simp_all add: state_name_to_identifier_def is_alnum_def is_upper_def is_lower_def is_decimal_def less_eq_char_def to_upper_def)

lemma order_transitions:
  "transitions_from order_info False ''Open'' = [order_read]"
  "get_write_transitions_for_agent order_info False = [order_reply]"
  "fst ` set (handled_states order_info False) = {''Filled''}"
  by (simp_all add: transitions_from_def reads_by_state_def order_info_def order_read_def order_reply_def
      get_read_transitions_for_agent_def get_write_transitions_for_agent_def handled_states_def has_output_def
      get_write_transitions_by_when_state_def get_read_transitions_by_then_state_def group_by_def side_name_def order_names)

lemma order_init: "sm_state (init_machine order_info) = ''Open''" "sm_output (init_machine order_info) = []"
  "sm_parsers (init_machine order_info) = (\<lambda>_. init_parser)" "\<not> is_closed (init_machine order_info)"
  "\<not> sm_has_error (init_machine order_info)"
  by (simp_all add: init_machine_def initial_state_def order_info_def is_closed_def)

lemma order_reply_sent: "\<exists>sz. send_message order_reply Map.empty s [] = Some (''OK'', sz)"
  using send_message_chunks [of order_reply Map.empty s "[]"]
  by (auto simp: order_reply_def action_chunk_def literal_chunk_def c_str_def)

lemma order_answered:
  "\<exists>k m. ro_on_bytes_received order_ops (wire (\<lambda>_. ''bob'') greeting_reads) (init_machine order_info) = Some (k, m)
    \<and> sm_output m = ''OK'' \<and> \<not> sm_has_error m"
proof -
  let ?w = "wire (\<lambda>_. ''bob'') greeting_reads" and ?m = "init_machine order_info"
  obtain m' where m': "receive_single order_read ?w ?m = Some (Inr (length ?w, True, m'))" "sm_state m' = ''Filled''"
      "sm_message_state m' = sm_state m'" "sm_has_message m'" "\<not> sm_has_error m'" "sm_output m' = []"
      "\<exists>x. sm_pending m' (sm_state m') = Some x"
    using message_received [of order_read "\<lambda>_. ''bob''" ?m "[]"] greeting_transmissible
    by (auto simp: order_read_def order_init order_names read_fields_def greeting_reads_def inner_identifiers_def)
  have "?w \<noteq> []" by (simp add: wire_def read_wire_def greeting_reads_def)
  with m'(1) have b: "on_bytes_received order_info False ?w ?m = Some (Inr (length ?w, m'))"
    by (simp add: on_bytes_received_def receive_dispatch_def order_init order_transitions)
  obtain sz where sz: "send_message order_reply Map.empty (sm_serializers m' ''Ack'') [] = Some (''OK'', sz)"
    using order_reply_sent by blast
  have a: "ti_identifier order_reply = ''Ack''" "ti_then_state order_reply = ''Open''" by (simp_all add: order_reply_def)
  obtain m'' where m'': "dispatch_message order_info False (\<lambda>_ _. (''Ack'', Map.empty)) m' = Some m''"
      "sm_output m'' = ''OK''" "\<not> sm_has_message m''" "\<not> sm_has_error m''"
    using m' sz by (auto simp: dispatch_message_def order_transitions order_names image_image [symmetric] take_message_def dispatch_output_def
        send_def a image_comp)
  then have "dispatch_messages order_info False (\<lambda>_ _. (''Ack'', Map.empty)) m' = Some m''"
    using m'(4) by (simp add: dispatch_messages.simps)
  with b m'' show ?thesis by (simp add: order_ops_def adapter_ops_def runner_on_bytes_received_def)
qed

definition order_server :: "side_machine server" where
  "order_server =
     \<lparr>sv_objects = [0 \<mapsto> \<lparr>cn_fd = 7, cn_runner = init_machine order_info, cn_closing = False, cn_pending_writes = 0\<rparr>],
      sv_next = 1, sv_connections = [(7, 0)], sv_stopping = False, sv_listening = True, sv_calls = []\<rparr>"

text \<open>Two orders that arrive in one read have one answer.\<close>

theorem pipelined_input_lost_witness:
  "let w = wire (\<lambda>_. ''bob'') greeting_reads in
   \<exists>s'. on_read order_ops 0 (int (length (w @ w))) (w @ w) order_server = Inr s' \<and> sv_calls s' = [UvWrite 0 ''OK'']"
proof -
  let ?w = "wire (\<lambda>_. ''bob'') greeting_reads"
  let ?cn = "\<lparr>cn_fd = 7, cn_runner = init_machine order_info, cn_closing = False, cn_pending_writes = 0\<rparr>"
  have t: "ti_actions order_read = greeting_reads" "ti_data order_read = [(''name'', Type (IdentifierReference ''str'' None) [])]"
    by (simp_all add: order_read_def)
  have "on_read order_ops 0 (int (length (?w @ ?w))) (?w @ ?w) order_server = on_read order_ops 0 (int (length ?w)) ?w order_server"
    unfolding order_ops_def t(1) [symmetric]
    by (rule pipelined_input_lost [where cn = ?cn])
      (use greeting_transmissible in \<open>simp_all add: order_server_def order_transitions order_init t greeting_reads_def read_fields_def
         inner_identifiers_def\<close>)
  moreover obtain k m where m: "ro_on_bytes_received order_ops ?w (init_machine order_info) = Some (k, m)"
      "sm_output m = ''OK''" "\<not> sm_has_error m"
    using order_answered by blast
  have "?w \<noteq> []" by (simp add: wire_def read_wire_def greeting_reads_def)
  with m have "\<exists>s'. on_read order_ops 0 (int (length ?w)) ?w order_server = Inr s' \<and> sv_calls s' = [UvWrite 0 ''OK'']"
    by (simp add: on_read_def with_connection_def order_server_def Let_def process_output_def order_ops_def adapter_ops_def
        adapter.flush_output_all [unfolded adapter_ops_def])
  ultimately show ?thesis by simp
qed

end
