(* ===== verification/GeneratorProgram.thy ===== *)
theory GeneratorProgram
  imports SourceTheorems CodegenTheorems
begin

text \<open>
  \<open>codegen/protocol_generator.cpp\<close>: the command line of the generator. What CLI11 makes of the
  arguments is an argument of the model, \<open>Inl\<close> of the exit status when the program is not to go
  on; so are the contents of the input file, \<open>None\<close> when it cannot be opened, and what the
  operating system answers to \<open>CppGenerator\<close>. The result is the exit status, the lines written
  to the standard output and to the standard error (without those that \<open>parse\<close> writes where it
  stops), and the run of the generator if there was one. The outer \<open>None\<close> is a scanner that does
  not come to the end of the text.
\<close>

section \<open>The program\<close>

record generator_args =
  ga_input_file :: string
  ga_target_namespace :: string
  ga_output_dir :: string
  ga_library_name :: string
  ga_verbose :: bool

record generator_exit =
  gx_status :: int
  gx_cout :: "string list"
  gx_cerr :: "string list"
  gx_run :: "generator_run option"

definition when_verbose :: "generator_args \<Rightarrow> string list \<Rightarrow> string list" where
  "when_verbose a ls = (if ga_verbose a then ls else [])"

definition fail_with :: "string list \<Rightarrow> string list \<Rightarrow> generator_run option \<Rightarrow> generator_exit" where
  "fail_with log errors r = \<lparr>gx_status = 1, gx_cout = [], gx_cerr = log @ errors, gx_run = r\<rparr>"

text \<open>From the analysed protocol on: the generator is run, and its errors are printed when it fails.\<close>

definition run_generator ::
  "string option \<Rightarrow> (string \<Rightarrow> file_outcome) \<Rightarrow> generator_args \<Rightarrow> string list \<Rightarrow> protocol \<Rightarrow> generator_exit" where
  "run_generator directory_error outcome a log pr =
     (let log = log @ when_verbose a
            ([''Analysis complete'', ''Generating C++ code...'', ''  Namespace: '' @ ga_target_namespace a,
              ''  Output directory: '' @ ga_output_dir a]
             @ (if ga_library_name a = [] then [] else [''  Library name: '' @ ga_library_name a]));
          r = generate directory_error outcome
            \<lparr>cg_ctx = \<lparr>target_namespace = ga_target_namespace a\<rparr>, cg_info = protocol_info pr,
             cg_target_directory = ga_output_dir a, cg_library_name = ga_library_name a\<rparr> in
      if \<not> gr_success r then
        fail_with log (''Error: Code generation failed'' # map (\<lambda>e. ''  '' @ e) (gr_errors r)) (Some r)
      else
        \<lparr>gx_status = 0,
         gx_cout = (if ga_verbose a then [] else [''Generated C++ code in: '' @ ga_output_dir a]),
         gx_cerr = log @ when_verbose a [''Code generation complete'', ''Generated files in: '' @ ga_output_dir a],
         gx_run = Some r\<rparr>)"

definition protocol_generator ::
  "lookup \<Rightarrow> int + generator_args \<Rightarrow> string option \<Rightarrow> string option \<Rightarrow> (string \<Rightarrow> file_outcome) \<Rightarrow> generator_exit option" where
  "protocol_generator lookup command_line contents directory_error outcome =
     (case command_line of
        Inl status \<Rightarrow> Some \<lparr>gx_status = status, gx_cout = [], gx_cerr = [], gx_run = None\<rparr>
      | Inr a \<Rightarrow>
          (let log = when_verbose a [''Reading: '' @ ga_input_file a] in
           case contents of
             None \<Rightarrow> Some (fail_with log [''Error: Could not open input file: '' @ ga_input_file a] None)
           | Some content \<Rightarrow>
               (let log = log @ when_verbose a
                      [''Read '' @ decimal_nat (length content) @ '' bytes'', ''Tokenizing...''] in
                case tokenize lookup content of
                  None \<Rightarrow> None
                | Some None \<Rightarrow> Some (fail_with log [''Error: Failed to tokenize input file''] None)
                | Some (Some tokens) \<Rightarrow>
                    (let log = log @ when_verbose a
                           [''Tokenized '' @ decimal_nat (length tokens) @ '' tokens'', ''Parsing...''] in
                     case parse tokens of
                       None \<Rightarrow> Some (fail_with log [''Error: Failed to parse input file''] None)
                     | Some ast \<Rightarrow>
                         (let log = log @ when_verbose a
                                [''Parsed '' @ decimal_nat (length ast) @ '' messages'', ''Analyzing...''] in
                          case analyze ast of
                            None \<Rightarrow> Some (fail_with log [''Error: Semantic analysis failed''] None)
                          | Some pr \<Rightarrow> Some (run_generator directory_error outcome a log pr))))))"

section \<open>Its stages\<close>

text \<open>The generator of a run for some arguments.\<close>

definition generator_of :: "generator_args \<Rightarrow> protocol \<Rightarrow> cpp_generator" where
  "generator_of a pr =
     \<lparr>cg_ctx = \<lparr>target_namespace = ga_target_namespace a\<rparr>, cg_info = protocol_info pr,
      cg_target_directory = ga_output_dir a, cg_library_name = ga_library_name a\<rparr>"

lemma run_generator_result:
  "gx_run (run_generator directory_error outcome a log pr) = Some (generate directory_error outcome (generator_of a pr))"
  "gx_status (run_generator directory_error outcome a log pr) =
     (if gr_success (generate directory_error outcome (generator_of a pr)) then 0 else 1)"
  by (simp_all add: run_generator_def generator_of_def fail_with_def Let_def)

lemma run_generator_quiet:
  assumes "\<not> ga_verbose a" and "gr_success (generate directory_error outcome (generator_of a pr))"
  shows "gx_cerr (run_generator directory_error outcome a [] pr) = []"
  using assms by (simp add: run_generator_def generator_of_def when_verbose_def Let_def)

text \<open>On the text of a protocol only the generator itself can fail.\<close>

lemma protocol_generator_source:
  assumes "scanner lookup" and "wf_protocol p" and "\<forall>t \<in> set (tokens_of_protocol p). lexable t" and "analyze p = Some pr"
  shows "\<exists>log. (\<not> ga_verbose a \<longrightarrow> log = [])
    \<and> protocol_generator lookup (Inr a) (Some (source_of_protocol p)) directory_error outcome =
        Some (run_generator directory_error outcome a log pr)"
  using scanner.tokenize_source [OF assms(1,3)] parse_printed [OF assms(2)] assms(4)
  by (auto simp: protocol_generator_def source_of_protocol_def when_verbose_def)

section \<open>From the text to the files\<close>


definition mail_args :: generator_args where
  "mail_args = \<lparr>ga_input_file = ''mail.protocol'', ga_target_namespace = ''mail'', ga_output_dir = ''out'',
     ga_library_name = ''mail'', ga_verbose = False\<rparr>"


end
