(* ===== verification/WorkQueue.thy ===== *)
theory WorkQueue
  imports Queues "HOL-Library.Sublist"
begin

text \<open>
  The work queue of the event loop (\<open>networkprotocoldsl_uv/asyncworkqueue.cpp\<close>): threads push closures
  under a mutex and signal the loop through an async handle of libuv, whose callback performs all of them.
  A closure is a value that a function given to \<open>process\<close> interprets.
\<close>

section \<open>The operations\<close>

datatype 'w queue_item = Work 'w | CloseAsyncHandle

record 'w work_queue =
  wq_items :: "'w queue_item mutex_queue"
  wq_signalled :: bool
  wq_shutdown_called :: bool
  wq_future_retrieved :: bool
  wq_close_calls :: nat

definition init_work_queue :: "'w work_queue" where
  "init_work_queue = \<lparr>wq_items = [], wq_signalled = False, wq_shutdown_called = False, wq_future_retrieved = False, wq_close_calls = 0\<rparr>"

datatype work_error = PushAfterShutdown | FutureAlreadyRetrieved

definition push_item :: "'w queue_item \<Rightarrow> 'w work_queue \<Rightarrow> work_error + 'w work_queue" where
  "push_item x q =
     (if wq_shutdown_called q then Inl PushAfterShutdown
      else Inr (q\<lparr>wq_items := queue_push_back (wq_items q) x, wq_signalled := True\<rparr>))"

definition push_work :: "'w \<Rightarrow> 'w work_queue \<Rightarrow> work_error + 'w work_queue" where
  "push_work w = push_item (Work w)"

text \<open>The first call of \<open>get_future\<close> answers, a second one throws.\<close>

definition shutdown :: "'w work_queue \<Rightarrow> work_error + 'w work_queue" where
  "shutdown q =
     (case (if wq_shutdown_called q then Inr q else push_item CloseAsyncHandle q) of
        Inl e \<Rightarrow> Inl e
      | Inr q \<Rightarrow>
          if wq_future_retrieved q then Inl FutureAlreadyRetrieved
          else Inr (q\<lparr>wq_future_retrieved := True\<rparr>))"

definition destroy :: "'w work_queue \<Rightarrow> work_error + 'w work_queue" where
  "destroy q = (if wq_shutdown_called q then Inr q else shutdown q)"

text \<open>\<open>process\<close>, for closures that do not push work themselves: \<open>run\<close> may fail.\<close>

fun process_items :: "('w \<Rightarrow> 's \<Rightarrow> 'e + 's) \<Rightarrow> 'w queue_item mutex_queue \<Rightarrow> 'w work_queue \<Rightarrow> 's \<Rightarrow> 'e + 'w work_queue \<times> 's" where
  "process_items run [] q s = Inr (q, s)"
| "process_items run (Work w # items) q s =
     (case run w s of Inl e \<Rightarrow> Inl e | Inr s \<Rightarrow> process_items run items q s)"
| "process_items run (CloseAsyncHandle # items) q s =
     process_items run items (q\<lparr>wq_close_calls := wq_close_calls q + 1, wq_shutdown_called := True\<rparr>) s"

definition process :: "('w \<Rightarrow> 's \<Rightarrow> 'e + 's) \<Rightarrow> 'w work_queue \<Rightarrow> 's \<Rightarrow> 'e + 'w work_queue \<times> 's" where
  "process run q s = process_items run (wq_items q) (q\<lparr>wq_items := [], wq_signalled := False\<rparr>) s"

lemma process_items_append:
  "process_items run (xs @ ys) q s =
     (case process_items run xs q s of Inl e \<Rightarrow> Inl e | Inr (q, s) \<Rightarrow> process_items run ys q s)"
  by (induction run xs q s rule: process_items.induct) (simp_all split: sum.split)

section \<open>Threads and the loop\<close>

text \<open>
  The steps of \<open>push_work\<close> and of the loop, as threads interleave them: a pusher has passed the test of
  \<open>shutdown_called_\<close>, has put its item into the queue, and has sent the signal; the loop takes the signal and
  pops until it finds nothing. \<open>ls_pushed\<close> and \<open>ls_done\<close> are the works in the order of \<open>push_back\<close> and of
  their execution.
\<close>

record 'w loop_system =
  ls_queue :: "'w work_queue"
  ls_checked :: "'w queue_item list"
  ls_to_signal :: nat
  ls_processing :: bool
  ls_pushed :: "'w queue_item list"
  ls_done :: "'w queue_item list"

definition loop_start :: "'w loop_system" where
  "loop_start = \<lparr>ls_queue = init_work_queue, ls_checked = [], ls_to_signal = 0, ls_processing = False, ls_pushed = [], ls_done = []\<rparr>"

definition loop_check :: "'w queue_item \<Rightarrow> 'w loop_system \<Rightarrow> 'w loop_system" where
  "loop_check x l = (if wq_shutdown_called (ls_queue l) then l else l\<lparr>ls_checked := x # ls_checked l\<rparr>)"

definition loop_enqueue :: "'w queue_item \<Rightarrow> 'w loop_system \<Rightarrow> 'w loop_system" where
  "loop_enqueue x l =
     l\<lparr>ls_queue := (ls_queue l)\<lparr>wq_items := queue_push_back (wq_items (ls_queue l)) x\<rparr>, ls_checked := remove1 x (ls_checked l),
       ls_to_signal := ls_to_signal l + 1, ls_pushed := ls_pushed l @ [x]\<rparr>"

definition loop_signal :: "'w loop_system \<Rightarrow> 'w loop_system" where
  "loop_signal l = l\<lparr>ls_queue := (ls_queue l)\<lparr>wq_signalled := True\<rparr>, ls_to_signal := ls_to_signal l - 1\<rparr>"

definition loop_awake :: "'w loop_system \<Rightarrow> 'w loop_system" where
  "loop_awake l = l\<lparr>ls_queue := (ls_queue l)\<lparr>wq_signalled := False\<rparr>, ls_processing := True\<rparr>"

definition loop_pop :: "'w loop_system \<Rightarrow> 'w loop_system" where
  "loop_pop l =
     (case queue_pop (wq_items (ls_queue l)) of
        (None, items) \<Rightarrow> l\<lparr>ls_processing := False\<rparr>
      | (Some x, items) \<Rightarrow>
          (let q = (ls_queue l)\<lparr>wq_items := items\<rparr> in
           l\<lparr>ls_queue := (if x = CloseAsyncHandle then q\<lparr>wq_close_calls := wq_close_calls q + 1, wq_shutdown_called := True\<rparr> else q),
             ls_done := ls_done l @ [x]\<rparr>))"

text \<open>An async handle that is closed calls back no more.\<close>

inductive loop_step :: "'w loop_system \<Rightarrow> 'w loop_system \<Rightarrow> bool" where
  step_check: "loop_step l (loop_check x l)"
| step_enqueue: "x \<in> set (ls_checked l) \<Longrightarrow> loop_step l (loop_enqueue x l)"
| step_signal: "0 < ls_to_signal l \<Longrightarrow> loop_step l (loop_signal l)"
| step_awake: "wq_signalled (ls_queue l) \<Longrightarrow> \<not> ls_processing l \<Longrightarrow> wq_close_calls (ls_queue l) = 0 \<Longrightarrow> loop_step l (loop_awake l)"
| step_pop: "ls_processing l \<Longrightarrow> loop_step l (loop_pop l)"

lemmas loop_defs = loop_check_def loop_enqueue_def loop_signal_def loop_awake_def loop_pop_def queue_push_back_def queue_pop_def

definition loop_ok :: "'w loop_system \<Rightarrow> bool" where
  "loop_ok l \<longleftrightarrow>
     ls_done l @ wq_items (ls_queue l) = ls_pushed l
     \<and> wq_close_calls (ls_queue l) = length (filter (\<lambda>x. x = CloseAsyncHandle) (ls_done l))
     \<and> (wq_shutdown_called (ls_queue l) \<longleftrightarrow> 0 < wq_close_calls (ls_queue l))
     \<and> (wq_items (ls_queue l) \<noteq> [] \<longrightarrow> 0 < ls_to_signal l \<or> wq_signalled (ls_queue l) \<or> ls_processing l)"

lemma loop_step_ok: "loop_step l l' \<Longrightarrow> loop_ok l \<Longrightarrow> loop_ok l'"
  by (induction rule: loop_step.induct)
    (auto simp: loop_ok_def loop_defs Let_def split: list.splits if_splits)

lemma loop_reachable_ok:
  assumes "loop_step\<^sup>*\<^sup>* loop_start l"
  shows "loop_ok l"
  using assms
proof (induction rule: rtranclp_induct)
  case base
  show ?case by (simp add: loop_ok_def loop_start_def init_work_queue_def)
qed (rule loop_step_ok)

lemma loop_run:
  assumes "ls_processing l" and "wq_items (ls_queue l) = xs" and "CloseAsyncHandle \<notin> set xs"
  shows "\<exists>l'. loop_step\<^sup>*\<^sup>* l l' \<and> ls_done l' = ls_done l @ xs"
  using assms
proof (induction xs arbitrary: l)
  case Nil
  then show ?case by auto
next
  case (Cons x xs)
  have "loop_step l (loop_pop l)" by (rule step_pop [OF Cons.prems(1)])
  moreover have "\<exists>l'. loop_step\<^sup>*\<^sup>* (loop_pop l) l' \<and> ls_done l' = ls_done (loop_pop l) @ xs"
    by (rule Cons.IH) (use Cons.prems in \<open>simp_all add: loop_pop_def queue_pop_def Let_def\<close>)
  moreover have "ls_done (loop_pop l) = ls_done l @ [x]" using Cons.prems by (simp add: loop_pop_def queue_pop_def Let_def)
  ultimately show ?case by (auto intro: converse_rtranclp_into_rtranclp)
qed

text \<open>What a thread has pushed is done, unless the handle is being closed.\<close>

lemma loop_serves:
  assumes "loop_ok l" and "CloseAsyncHandle \<notin> set (ls_pushed l)"
  shows "\<exists>l'. loop_step\<^sup>*\<^sup>* l l' \<and> ls_done l' = ls_pushed l"
proof -
  have "ls_done l @ wq_items (ls_queue l) = ls_pushed l" using assms(1) by (simp add: loop_ok_def)
  moreover from this [symmetric] have "CloseAsyncHandle \<notin> set (wq_items (ls_queue l))" "CloseAsyncHandle \<notin> set (ls_done l)"
    using assms(2) by simp_all
  ultimately have items: "ls_done l @ wq_items (ls_queue l) = ls_pushed l" "CloseAsyncHandle \<notin> set (wq_items (ls_queue l))"
    and "CloseAsyncHandle \<notin> set (ls_done l)" by simp_all
  from this(3) have open_handle: "wq_close_calls (ls_queue l) = 0" using assms(1) by (auto simp: loop_ok_def filter_empty_conv)
  have awake: "\<exists>l'. loop_step\<^sup>*\<^sup>* l0 l' \<and> ls_done l' = ls_pushed l"
    if "wq_signalled (ls_queue l0)" "\<not> ls_processing l0" "wq_items (ls_queue l0) = wq_items (ls_queue l)" "ls_done l0 = ls_done l"
      "wq_close_calls (ls_queue l0) = 0" for l0
  proof -
    have "\<exists>l'. loop_step\<^sup>*\<^sup>* (loop_awake l0) l' \<and> ls_done l' = ls_done (loop_awake l0) @ wq_items (ls_queue l)"
      by (rule loop_run) (use that(3) items(2) in \<open>simp_all add: loop_awake_def\<close>)
    with step_awake [OF that(1,2,5)] that(4) items(1) show ?thesis
      by (auto simp: loop_awake_def intro: converse_rtranclp_into_rtranclp)
  qed
  show ?thesis
  proof (cases "ls_processing l \<or> wq_items (ls_queue l) = []")
    case True
    then show ?thesis using loop_run [OF _ refl items(2)] items(1) by auto
  next
    case False
    show ?thesis
    proof (cases "wq_signalled (ls_queue l)")
      case True
      with awake [of l] False open_handle show ?thesis by simp
    next
      case not_signalled: False
      with False assms(1) have "0 < ls_to_signal l" by (auto simp: loop_ok_def)
      then have "loop_step l (loop_signal l)" by (rule step_signal)
      moreover have "\<exists>l'. loop_step\<^sup>*\<^sup>* (loop_signal l) l' \<and> ls_done l' = ls_pushed l"
        by (rule awake) (use False open_handle in \<open>simp_all add: loop_signal_def\<close>)
      ultimately show ?thesis by (blast intro: converse_rtranclp_into_rtranclp)
    qed
  qed
qed

text \<open>After the handle is closed the loop is awake no more.\<close>

lemma closed_loop_step:
  assumes "loop_step l l'" and "0 < wq_close_calls (ls_queue l)" and "\<not> ls_processing l"
  shows "0 < wq_close_calls (ls_queue l') \<and> \<not> ls_processing l' \<and> ls_done l' = ls_done l"
  using assms by (induction rule: loop_step.induct) (auto simp: loop_defs)

lemma closed_loop:
  assumes "loop_step\<^sup>*\<^sup>* l l'" and "0 < wq_close_calls (ls_queue l)" and "\<not> ls_processing l"
  shows "0 < wq_close_calls (ls_queue l') \<and> \<not> ls_processing l' \<and> ls_done l' = ls_done l"
  using assms by (induction rule: rtranclp_induct) (use closed_loop_step in auto)

section \<open>Properties\<close>



text \<open>A thread that has passed the test of \<open>shutdown_called_\<close> before the shutdown runs may still put its
  work into the queue after it, without an error: that work is never done.\<close>

theorem late_work_lost:
  assumes "0 < wq_close_calls (ls_queue l)" and "\<not> ls_processing l" and "x \<in> set (ls_checked l)"
    and "loop_step\<^sup>*\<^sup>* (loop_enqueue x l) l'"
  shows "loop_step l (loop_enqueue x l) \<and> ls_pushed (loop_enqueue x l) = ls_pushed l @ [x] \<and> ls_done l' = ls_done l"
  using closed_loop [OF assms(4)] assms(1,2) step_enqueue [OF assms(3)] by (simp add: loop_enqueue_def)

definition closing_loop :: "nat loop_system" where
  "closing_loop = loop_pop (loop_pop (loop_awake (loop_signal (loop_enqueue CloseAsyncHandle
     (loop_check (Work 7) (loop_check CloseAsyncHandle loop_start))))))"

theorem late_work_lost_witness:
  "loop_step\<^sup>*\<^sup>* loop_start closing_loop
   \<and> loop_step closing_loop (loop_enqueue (Work 7) closing_loop)
   \<and> ls_done (loop_signal (loop_enqueue (Work 7) closing_loop)) = [CloseAsyncHandle]"
proof -
  note d = closing_loop_def loop_defs loop_start_def init_work_queue_def
  let ?a = "loop_enqueue CloseAsyncHandle (loop_check (Work 7) (loop_check CloseAsyncHandle loop_start)) :: nat loop_system"
  have "loop_step\<^sup>*\<^sup>* loop_start (loop_check (Work 7) (loop_check CloseAsyncHandle loop_start) :: nat loop_system)"
    by (blast intro: step_check converse_rtranclp_into_rtranclp)
  also have "loop_step\<^sup>*\<^sup>* (loop_check (Work 7) (loop_check CloseAsyncHandle loop_start)) ?a"
    by (rule r_into_rtranclp, rule step_enqueue) (simp add: d)
  also have "loop_step\<^sup>*\<^sup>* ?a (loop_signal ?a)" by (rule r_into_rtranclp, rule step_signal) (simp add: d)
  also have "loop_step\<^sup>*\<^sup>* (loop_signal ?a) (loop_awake (loop_signal ?a))"
    by (rule r_into_rtranclp, rule step_awake) (simp_all add: d)
  also have "loop_step\<^sup>*\<^sup>* (loop_awake (loop_signal ?a)) (loop_pop (loop_awake (loop_signal ?a)))"
    by (rule r_into_rtranclp, rule step_pop) (simp add: d)
  also have "loop_step\<^sup>*\<^sup>* (loop_pop (loop_awake (loop_signal ?a))) closing_loop"
    unfolding closing_loop_def by (rule r_into_rtranclp, rule step_pop) (simp add: d Let_def)
  finally have reached: "loop_step\<^sup>*\<^sup>* loop_start closing_loop" .
  have e: "0 < wq_close_calls (ls_queue closing_loop)" "\<not> ls_processing closing_loop" "Work 7 \<in> set (ls_checked closing_loop)"
      "ls_done closing_loop = [CloseAsyncHandle]"
    by (simp_all add: d Let_def)
  have "loop_step\<^sup>*\<^sup>* (loop_enqueue (Work 7) closing_loop) (loop_signal (loop_enqueue (Work 7) closing_loop))"
    by (rule r_into_rtranclp, rule step_signal) (simp add: loop_enqueue_def)
  from late_work_lost [OF e(1-3) this] reached e(4) show ?thesis by simp
qed

text \<open>The destructor of a queue whose shutdown was asked for but has not run retrieves the future again.\<close>

lemma shutdown_then_destroy:
  assumes "\<not> wq_shutdown_called q" and "\<not> wq_future_retrieved q"
  shows "\<exists>q'. shutdown q = Inr q' \<and> destroy q' = Inl FutureAlreadyRetrieved"
  using assms by (simp add: shutdown_def destroy_def push_item_def)

end
