(* ===== verification/LibuvServerRunner.thy ===== *)
theory LibuvServerRunner
  imports Runner WorkQueue ServerWrapper
begin

text \<open>
  The server for interpreted programs (\<open>networkprotocoldsl_uv/libuvserverrunner.cpp\<close>): the callbacks of
  libuv on the loop thread, which feed the interpreters of the collection, and the thread that moves the
  output of the interpreters to the loop. What the functions of libuv answer is an argument, and what is
  asked of libuv a list of calls. The objects that libuv's handles point to live in a store; the interpreter
  contexts are those of the collection manager.
\<close>

section \<open>State\<close>

text \<open>\<open>uc_data_set\<close>: whether the \<open>data\<close> of the handle points to the object.\<close>

record uv_connection =
  uc_fd :: int
  uc_close_request_sent :: bool
  uc_data_set :: bool

datatype uv_work = WriteWork nat octets | CloseWork nat | CloseListenerWork

record server_runner =
  sr_manager :: manager
  sr_additional_data :: "nat \<Rightarrow> nat"
  sr_objects :: "nat \<Rightarrow> uv_connection option"
  sr_next :: nat
  sr_listener :: "nat option"
  sr_work :: "uv_work work_queue"
  sr_exit_when_done :: bool
  sr_pusher_started :: bool
  sr_server_stopped :: bool
  sr_calls :: "uv_call list"

type_synonym runner_result = "server_fault + server_runner"

definition init_server_runner :: server_runner where
  "init_server_runner =
     \<lparr>sr_manager = \<lparr>mg_store = [], mg_collection = \<lparr>interpreters = [], signals_of = new_signals\<rparr>\<rparr>, sr_additional_data = (\<lambda>_. 0),
      sr_objects = Map.empty, sr_next = 0, sr_listener = None, sr_work = init_work_queue, sr_exit_when_done = False, sr_pusher_started = False,
      sr_server_stopped = False, sr_calls = []\<rparr>"

definition with_object :: "nat \<Rightarrow> server_runner \<Rightarrow> (uv_connection \<Rightarrow> server_fault + 'a) \<Rightarrow> server_fault + 'a" where
  "with_object c s f = (case sr_objects s c of None \<Rightarrow> Inl Dangling | Some u \<Rightarrow> f u)"

definition put_object :: "nat \<Rightarrow> uv_connection \<Rightarrow> server_runner \<Rightarrow> server_runner" where
  "put_object c u s = s\<lparr>sr_objects := (sr_objects s)(c \<mapsto> u)\<rparr>"

definition call_uv :: "uv_call list \<Rightarrow> server_runner \<Rightarrow> server_runner" where
  "call_uv calls s = s\<lparr>sr_calls := sr_calls s @ calls\<rparr>"

definition find_interpreter :: "int \<Rightarrow> server_runner \<Rightarrow> nat option" where
  "find_interpreter fd s = map_of (interpreters (mg_collection (sr_manager s))) fd"

definition update_signals :: "(interpreter_signals \<Rightarrow> interpreter_signals) \<Rightarrow> server_runner \<Rightarrow> server_runner" where
  "update_signals f s =
     s\<lparr>sr_manager := (sr_manager s)\<lparr>mg_collection := (mg_collection (sr_manager s))
        \<lparr>signals_of := f (signals_of (mg_collection (sr_manager s)))\<rparr>\<rparr>\<rparr>"

definition update_context :: "nat \<Rightarrow> (interpreter_context \<Rightarrow> interpreter_context) \<Rightarrow> server_runner \<Rightarrow> server_runner" where
  "update_context a f s =
     s\<lparr>sr_manager := (sr_manager s)\<lparr>mg_store := (mg_store (sr_manager s))[a := f (mg_store (sr_manager s) ! a)]\<rparr>\<rparr>"

text \<open>An exception of \<open>push_work\<close> ends the thread that calls it, and the process.\<close>

definition push_server_work :: "uv_work \<Rightarrow> server_runner \<Rightarrow> runner_result" where
  "push_server_work w s =
     (case push_work w (sr_work s) of Inl e \<Rightarrow> Inl NoReturn | Inr q \<Rightarrow> Inr (s\<lparr>sr_work := q\<rparr>))"

section \<open>The callbacks of libuv\<close>

definition on_close_cb :: "nat \<Rightarrow> server_runner \<Rightarrow> runner_result" where
  "on_close_cb c s =
     with_object c s (\<lambda>u.
       if uc_data_set u then Inr ((update_signals notify_everything s)\<lparr>sr_objects := (sr_objects s)(c := None)\<rparr>) else Inl Dangling)"

definition on_write_completed :: "nat \<Rightarrow> int \<Rightarrow> server_runner \<Rightarrow> runner_result" where
  "on_write_completed c status s =
     with_object c s (\<lambda>u.
       case find_interpreter (uc_fd u) s of
         Some a \<Rightarrow>
           if status < 0 then
             Inr (call_uv [UvReadStop c] (update_signals notify_interpreter (update_context a (\<lambda>x. x\<lparr>cx_eof := True\<rparr>) s)))
           else Inr s
       | None \<Rightarrow> Inr s)"

definition server_on_read_cb :: "nat \<Rightarrow> int \<Rightarrow> octets \<Rightarrow> server_runner \<Rightarrow> runner_result" where
  "server_on_read_cb c nread data s =
     with_object c s (\<lambda>u.
       case find_interpreter (uc_fd u) s of
         None \<Rightarrow> Inr (call_uv [UvReadStop c, UvClose c] s)
       | Some a \<Rightarrow>
           if nread > 0 then
             Inr (update_signals (notify_interpreter \<circ> notify_input)
               (update_context a (\<lambda>x. x\<lparr>cx_input_buffer := queue_push_back (cx_input_buffer x) data\<rparr>) s))
           else if nread < 0 then
             Inr (update_signals (notify_interpreter \<circ> notify_input) (update_context a (\<lambda>x. x\<lparr>cx_eof := True\<rparr>) s))
           else Inr s)"

text \<open>A descriptor whose interpreter has not exited makes the insertion throw.\<close>

definition on_new_connection_cb :: "optree \<Rightarrow> bool \<Rightarrow> int \<Rightarrow> int \<Rightarrow> int option \<Rightarrow> server_runner \<Rightarrow> runner_result" where
  "on_new_connection_cb program erange status accepted fileno s =
     (if status \<noteq> 0 then Inr s
      else
        (let c = sr_next s;
             s = put_object c \<lparr>uc_fd = -1, uc_close_request_sent = False, uc_data_set = False\<rparr> (s\<lparr>sr_next := c + 1\<rparr>) in
         case (if accepted = 0 then fileno else None) of
           None \<Rightarrow> Inr (call_uv [UvClose c] s)
         | Some fd \<Rightarrow>
             (let s = put_object c \<lparr>uc_fd = fd, uc_close_request_sent = False, uc_data_set = True\<rparr> s in
              case insert_interpreter fd program erange None (sr_manager s) of
                Inr (True, mg) \<Rightarrow>
                  Inr (update_signals notify_everything (call_uv [UvReadStart c]
                    (s\<lparr>sr_manager := mg, sr_additional_data := (sr_additional_data s)(length (mg_store (sr_manager s)) := c)\<rparr>)))
              | _ \<Rightarrow> Inl NoReturn)))"

section \<open>The work of the loop\<close>

fun run_work :: "uv_work \<Rightarrow> server_runner \<Rightarrow> runner_result" where
  "run_work (WriteWork c data) s = with_object c s (\<lambda>u. Inr (call_uv [UvWrite c data] s))"
| "run_work (CloseWork c) s = with_object c s (\<lambda>u. Inr (call_uv [UvClose c] s))"
| "run_work CloseListenerWork s = (case sr_listener s of None \<Rightarrow> Inl Dangling | Some c \<Rightarrow> Inr (call_uv [UvClose c] s))"

definition process_work :: "server_runner \<Rightarrow> runner_result" where
  "process_work s = map_sum id (\<lambda>(q, s). s\<lparr>sr_work := q\<rparr>) (process run_work (sr_work s) s)"

section \<open>The pusher thread\<close>

text \<open>The inner loop takes the buffers one by one; the result counts them.\<close>

fun pusher_drain :: "nat \<Rightarrow> octets mutex_queue \<Rightarrow> nat \<Rightarrow> server_runner \<Rightarrow> server_fault + nat \<times> server_runner" where
  "pusher_drain c [] n s = Inr (n, s)"
| "pusher_drain c (output # q) n s =
     (case push_server_work (WriteWork c output) (update_signals notify_interpreter s) of
        Inl e \<Rightarrow> Inl e
      | Inr s \<Rightarrow> pusher_drain c q (n + 1) s)"

record pusher_counters =
  pc_active_interpreters :: nat
  pc_blocked_interpreters :: nat
  pc_pending_close :: nat
  pc_any_exited :: bool

definition pusher_entry :: "nat \<Rightarrow> pusher_counters \<Rightarrow> server_runner \<Rightarrow> server_fault + pusher_counters \<times> server_runner" where
  "pusher_entry a n s =
     (let context = mg_store (sr_manager s) ! a; c = sr_additional_data s a in
      if cx_exited context then
        with_object c s (\<lambda>u.
          let n = n\<lparr>pc_any_exited := True\<rparr> in
          if uc_close_request_sent u then Inr (n, s)
          else
            map_sum id (Pair (n\<lparr>pc_pending_close := pc_pending_close n + 1\<rparr>))
              (push_server_work (CloseWork c)
                ((put_object c (u\<lparr>uc_close_request_sent := True\<rparr>) s)\<lparr>sr_manager := remove_interpreter (uc_fd u) (sr_manager s)\<rparr>)))
      else
        map_sum id (\<lambda>(k, s). (n\<lparr>pc_active_interpreters := pc_active_interpreters n + 1,
            pc_blocked_interpreters := pc_blocked_interpreters n + k\<rparr>, s))
          (pusher_drain c (cx_output_buffer context) 0 (update_context a (\<lambda>x. x\<lparr>cx_output_buffer := []\<rparr>) s)))"

fun pusher_entries :: "(int \<times> nat) list \<Rightarrow> pusher_counters \<Rightarrow> server_runner \<Rightarrow> server_fault + pusher_counters \<times> server_runner" where
  "pusher_entries [] n s = Inr (n, s)"
| "pusher_entries ((fd, a) # entries) n s =
     (case pusher_entry a n s of Inl e \<Rightarrow> Inl e | Inr (n, s) \<Rightarrow> pusher_entries entries n s)"

text \<open>A turn of \<open>pusher_thread_loop_all\<close>. \<open>same\<close> is whether the manager still has the collection the turn went through.\<close>

definition pusher_round :: "bool \<Rightarrow> server_runner \<Rightarrow> server_fault + loop_decision \<times> server_runner" where
  "pusher_round same s =
     (case pusher_entries (interpreters (mg_collection (sr_manager s)))
         \<lparr>pc_active_interpreters = 0, pc_blocked_interpreters = 0, pc_pending_close = 0, pc_any_exited = False\<rparr> s of
        Inl e \<Rightarrow> Inl e
      | Inr (n, s) \<Rightarrow>
          if sr_exit_when_done s \<and> pc_active_interpreters n = 0 then Inr (LoopBreak, s\<lparr>sr_server_stopped := True\<rparr>)
          else if pc_blocked_interpreters n = 0 \<and> pc_pending_close n = 0 \<and> \<not> pc_any_exited n
            \<and> same \<and> \<not> sr_exit_when_done s then Inr (LoopWait, s)
          else Inr (LoopAgain, s))"

section \<open>Starting and stopping\<close>

definition stop_accepting :: "server_runner \<Rightarrow> runner_result" where
  "stop_accepting s =
     (if sr_exit_when_done s then Inr s
      else push_server_work CloseListenerWork (update_signals notify_output (s\<lparr>sr_exit_when_done := True\<rparr>)))"

text \<open>The work of the constructor: what binding, \<open>uv_tcp_getsockname\<close> and \<open>uv_fileno\<close> answer are arguments.\<close>

definition bind_work :: "(int \<Rightarrow> string) \<Rightarrow> int \<Rightarrow> int \<Rightarrow> nat \<Rightarrow> int option \<Rightarrow> server_runner \<Rightarrow> (string + nat \<times> int) \<times> server_runner" where
  "bind_work uv_strerror bind_rc name_rc port fileno s =
     (let c = sr_next s;
          s = put_object c \<lparr>uc_fd = -1, uc_close_request_sent = False, uc_data_set = True\<rparr>
            (s\<lparr>sr_next := c + 1, sr_listener := Some c\<rparr>) in
      if bind_rc \<noteq> 0 then (Inl (uv_strerror bind_rc), s)
      else if name_rc \<noteq> 0 then (Inl (uv_strerror name_rc), s)
      else case fileno of
        None \<Rightarrow> (Inl ''Failed to get file descriptor after binding.'', s)
      | Some fd \<Rightarrow> (Inr (port, fd), s\<lparr>sr_pusher_started := True\<rparr>))"

section \<open>The wrapper\<close>

text \<open>
  \<open>LibuvServerWrapper\<close> owns the manager, the runner and the threads of the interpreter loop and the callback
  loop. \<open>sw_exit_when_done\<close> is the flag of these loops. \<open>wrapper_stop\<close> goes as far as the joins and the wait
  for \<open>server_stopped\<close>; without a runner it dereferences a null pointer there.
\<close>

record server_wrapper =
  sw_runner :: "server_runner option"
  sw_loops_running :: bool
  sw_exit_when_done :: bool

definition new_server_wrapper :: server_wrapper where
  "new_server_wrapper = \<lparr>sw_runner = None, sw_loops_running = False, sw_exit_when_done = False\<rparr>"

definition wrapper_start :: "server_wrapper \<Rightarrow> server_wrapper" where
  "wrapper_start w = w\<lparr>sw_runner := Some init_server_runner, sw_loops_running := True\<rparr>"

definition wrapper_stop :: "server_wrapper \<Rightarrow> server_fault + server_wrapper" where
  "wrapper_stop w =
     (case sw_runner w of
        None \<Rightarrow> Inl Dangling
      | Some s \<Rightarrow>
          map_sum id (\<lambda>s. w\<lparr>sw_runner := Some (update_signals notify_everything s), sw_exit_when_done := True\<rparr>) (stop_accepting s))"

definition stop_returns :: "server_wrapper \<Rightarrow> bool" where
  "stop_returns w = (case sw_runner w of None \<Rightarrow> False | Some s \<Rightarrow> sr_server_stopped s)"

text \<open>The destructor of a wrapper that was never started calls \<open>stop\<close>.\<close>

lemma destroyed_unstarted: "wrapper_stop new_server_wrapper = Inl Dangling"
  by (simp add: wrapper_stop_def new_server_wrapper_def)

end
