(* ===== verification/LibuvTheorems.thy ===== *)
theory LibuvTheorems
  imports LibuvServerRunner RunnerTheorems
begin

text \<open>
  What becomes of the output of an interpreter between its output buffer and libuv, what closes a
  connection, and when the server stops.
\<close>

section \<open>Steps\<close>

definition interpreter_serves :: "nat \<Rightarrow> server_runner \<Rightarrow> runner_result" where
  "interpreter_serves a s =
     (case serve_interpreter (mg_store (sr_manager s) ! a) (signals_of (mg_collection (sr_manager s))) of
        Inl e \<Rightarrow> Inl NoReturn
      | Inr (x, context, signals) \<Rightarrow> Inr (update_signals (\<lambda>_. signals) (update_context a (\<lambda>_. context) s)))"

text \<open>The callbacks of libuv, the work of the loop, the rounds of the pusher thread, and the interpreter
  thread serving one interpreter, in any order.\<close>

inductive runner_step :: "optree \<Rightarrow> bool \<Rightarrow> server_runner \<Rightarrow> server_runner \<Rightarrow> bool" for program erange where
  step_read: "server_on_read_cb c nread data s = Inr s' \<Longrightarrow> runner_step program erange s s'"
| step_written: "on_write_completed c status s = Inr s' \<Longrightarrow> runner_step program erange s s'"
| step_closed: "on_close_cb c s = Inr s' \<Longrightarrow> runner_step program erange s s'"
| step_connection: "on_new_connection_cb program erange status accepted fileno s = Inr s' \<Longrightarrow> runner_step program erange s s'"
| step_process: "process_work s = Inr s' \<Longrightarrow> runner_step program erange s s'"
| step_stop: "stop_accepting s = Inr s' \<Longrightarrow> runner_step program erange s s'"
| step_interpreter: "interpreter_serves a s = Inr s' \<Longrightarrow> runner_step program erange s s'"
| step_pusher: "sr_pusher_started s \<Longrightarrow> pusher_round same s = Inr (d, s') \<Longrightarrow> runner_step program erange s s'"

lemmas server_runner_defs = with_object_def put_object_def call_uv_def update_signals_def update_context_def

lemma with_object_Inr: "with_object c s f = Inr x \<longleftrightarrow> (\<exists>u. sr_objects s c = Some u \<and> f u = Inr x)"
  by (simp add: with_object_def split: option.splits)

lemma push_server_work_Inr:
  "push_server_work w s = Inr s' \<longleftrightarrow>
     \<not> wq_shutdown_called (sr_work s) \<and>
     s' = s\<lparr>sr_work := (sr_work s)\<lparr>wq_items := wq_items (sr_work s) @ [Work w], wq_signalled := True\<rparr>\<rparr>"
  by (auto simp: push_server_work_def push_work_def push_item_def queue_push_back_def)

section \<open>What is written to a connection\<close>

definition written_to :: "nat \<Rightarrow> uv_call list \<Rightarrow> octets" where
  "written_to c calls = concat (map (\<lambda>x. case x of UvWrite d data \<Rightarrow> if d = c then data else [] | _ \<Rightarrow> []) calls)"

definition queued_for :: "nat \<Rightarrow> uv_work queue_item list \<Rightarrow> octets" where
  "queued_for c items = concat (map (\<lambda>x. case x of Work (WriteWork d data) \<Rightarrow> if d = c then data else [] | _ \<Rightarrow> []) items)"

definition on_the_way :: "nat \<Rightarrow> server_runner \<Rightarrow> octets" where
  "on_the_way c s = written_to c (sr_calls s) @ queued_for c (wq_items (sr_work s))"

lemma written_to_simps [simp]:
  "written_to c [] = []" "written_to c (xs @ ys) = written_to c xs @ written_to c ys"
  "written_to c [UvWrite d data] = (if d = c then data else [])" "written_to c [UvClose d] = []"
  "written_to c [UvReadStart d] = []" "written_to c [UvReadStop d] = []" "written_to c [UvReadStop d, UvClose e] = []"
  by (simp_all add: written_to_def)

lemma queued_for_simps [simp]:
  "queued_for c [] = []" "queued_for c (xs @ ys) = queued_for c xs @ queued_for c ys"
  "queued_for c [Work (WriteWork d data)] = (if d = c then data else [])" "queued_for c [Work (CloseWork d)] = []"
  "queued_for c [Work CloseListenerWork] = []" "queued_for c [CloseAsyncHandle] = []"
  by (simp_all add: queued_for_def)

lemma queued_for_Cons: "queued_for c (x # xs) = queued_for c [x] @ queued_for c xs"
  by (simp add: queued_for_def)

text \<open>Performing the work of the loop hands the writes to libuv, in order.\<close>

lemma run_work_frame:
  "run_work w s = Inr s' \<Longrightarrow> written_to c (sr_calls s') = written_to c (sr_calls s) @ queued_for c [Work w]
     \<and> sr_manager s' = sr_manager s \<and> sr_additional_data s' = sr_additional_data s \<and> sr_next s' = sr_next s
     \<and> sr_objects s' = sr_objects s \<and> sr_server_stopped s' = sr_server_stopped s \<and> sr_pusher_started s' = sr_pusher_started s"
  by (cases w) (auto simp: with_object_Inr call_uv_def split: option.splits)

lemma process_items_frame:
  "process_items run_work items q s = Inr (q', s') \<Longrightarrow>
     written_to c (sr_calls s') = written_to c (sr_calls s) @ queued_for c items \<and> wq_items q' = wq_items q
     \<and> sr_manager s' = sr_manager s \<and> sr_additional_data s' = sr_additional_data s \<and> sr_next s' = sr_next s
     \<and> sr_objects s' = sr_objects s \<and> sr_server_stopped s' = sr_server_stopped s \<and> sr_pusher_started s' = sr_pusher_started s"
proof (induction items arbitrary: q s)
  case (Cons x items)
  show ?case
  proof (cases x)
    case (Work w)
    with Cons.prems obtain s1 where s1: "run_work w s = Inr s1" "process_items run_work items q s1 = Inr (q', s')"
      by (auto split: sum.splits)
    from run_work_frame [OF s1(1), of c] Cons.IH [OF s1(2)] Work show ?thesis by (simp add: queued_for_Cons [of c "Work w" items])
  next
    case CloseAsyncHandle
    with Cons.prems have "process_items run_work items (q\<lparr>wq_close_calls := wq_close_calls q + 1, wq_shutdown_called := True\<rparr>) s = Inr (q', s')"
      by simp
    from Cons.IH [OF this] CloseAsyncHandle show ?thesis by (simp add: queued_for_Cons [of c CloseAsyncHandle items])
  qed
qed simp

lemma process_work_frame:
  assumes "process_work s = Inr s'"
  shows "written_to c (sr_calls s') = on_the_way c s" and "wq_items (sr_work s') = []"
    and "sr_manager s' = sr_manager s" and "sr_additional_data s' = sr_additional_data s" and "sr_next s' = sr_next s"
    and "sr_objects s' = sr_objects s" and "sr_server_stopped s' = sr_server_stopped s" and "sr_pusher_started s' = sr_pusher_started s"
proof -
  from assms obtain q s1 where p: "process_items run_work (wq_items (sr_work s)) ((sr_work s)\<lparr>wq_items := [], wq_signalled := False\<rparr>) s = Inr (q, s1)"
      "s' = s1\<lparr>sr_work := q\<rparr>"
    by (auto simp: process_work_def process_def map_sum_def split: sum.splits)
  note process_items_frame [OF p(1), of c]
  then show "written_to c (sr_calls s') = on_the_way c s" and "wq_items (sr_work s') = []"
    and "sr_manager s' = sr_manager s" and "sr_additional_data s' = sr_additional_data s" and "sr_next s' = sr_next s"
    and "sr_objects s' = sr_objects s" and "sr_server_stopped s' = sr_server_stopped s" and "sr_pusher_started s' = sr_pusher_started s"
    by (simp_all add: p(2) on_the_way_def)
qed

text \<open>A drain takes all buffers, in order, for one connection.\<close>

lemma pusher_drain_frame:
  "pusher_drain d q n s = Inr (n', s') \<Longrightarrow>
     on_the_way c s' = on_the_way c s @ (if d = c then concat q else [])
     \<and> mg_store (sr_manager s') = mg_store (sr_manager s)
     \<and> interpreters (mg_collection (sr_manager s')) = interpreters (mg_collection (sr_manager s))
     \<and> sr_additional_data s' = sr_additional_data s \<and> sr_next s' = sr_next s \<and> sr_objects s' = sr_objects s
     \<and> sr_server_stopped s' = sr_server_stopped s \<and> sr_pusher_started s' = sr_pusher_started s \<and> sr_calls s' = sr_calls s"
proof (induction d q n s rule: pusher_drain.induct)
  case (2 d out q n s)
  then obtain s1 where s1: "push_server_work (WriteWork d out) (update_signals notify_interpreter s) = Inr s1"
      "pusher_drain d q (n + 1) s1 = Inr (n', s')" by (auto split: sum.splits)
  from s1(1) "2.IH" [OF s1] show ?case by (auto simp: push_server_work_Inr on_the_way_def update_signals_def)
qed simp

section \<open>The output of one interpreter\<close>

definition store_of :: "server_runner \<Rightarrow> context_store" where
  "store_of s = mg_store (sr_manager s)"

definition entries_of :: "server_runner \<Rightarrow> (int \<times> nat) list" where
  "entries_of s = interpreters (mg_collection (sr_manager s))"

definition in_transit :: "nat \<Rightarrow> nat \<Rightarrow> server_runner \<Rightarrow> octets" where
  "in_transit c a s = on_the_way c s @ concat (cx_output_buffer (store_of s ! a))"

text \<open>The interpreter at \<open>a\<close> is the one, now and later, that writes to the connection \<open>c\<close>.\<close>

definition routed :: "nat \<Rightarrow> nat \<Rightarrow> server_runner \<Rightarrow> bool" where
  "routed c a s \<longleftrightarrow> a < length (store_of s) \<and> sr_additional_data s a = c \<and> c < sr_next s
     \<and> (\<forall>b < length (store_of s). sr_additional_data s b = c \<longrightarrow> b = a)
     \<and> (\<forall>e \<in> set (entries_of s). snd e < length (store_of s))"

text \<open>What a step does that does not serve the interpreter at \<open>a\<close>: the output moves, in order, or stays;
  and it moves only while the interpreter runs.\<close>

definition carries :: "nat \<Rightarrow> nat \<Rightarrow> server_runner \<Rightarrow> server_runner \<Rightarrow> bool" where
  "carries c a s s' \<longleftrightarrow> in_transit c a s' = in_transit c a s \<and> routed c a s'
     \<and> cx_exited (store_of s' ! a) = cx_exited (store_of s ! a)
     \<and> (cx_exited (store_of s ! a) \<longrightarrow> on_the_way c s' = on_the_way c s)"

lemma carries_trans: "carries c a s s' \<Longrightarrow> carries c a s' s'' \<Longrightarrow> carries c a s s''"
  by (simp add: carries_def)

lemma carries_same:
  assumes "routed c a s" and "on_the_way c s' = on_the_way c s" and "sr_additional_data s' = sr_additional_data s"
    and "sr_next s \<le> sr_next s'" and "length (store_of s') = length (store_of s)" and "set (entries_of s') \<subseteq> set (entries_of s)"
    and "cx_output_buffer (store_of s' ! a) = cx_output_buffer (store_of s ! a)" and "cx_exited (store_of s' ! a) = cx_exited (store_of s ! a)"
  shows "carries c a s s'"
  using assms unfolding carries_def routed_def in_transit_def by (auto 0 3)

lemma store_simps [simp]:
  "store_of (update_signals f s) = store_of s" "store_of (call_uv calls s) = store_of s" "store_of (put_object d u s) = store_of s"
  "store_of (update_context b g s) = (store_of s)[b := g (store_of s ! b)]"
  "entries_of (update_signals f s) = entries_of s" "entries_of (call_uv calls s) = entries_of s"
  "entries_of (put_object d u s) = entries_of s" "entries_of (update_context b g s) = entries_of s"
  "sr_additional_data (update_signals f s) = sr_additional_data s" "sr_additional_data (call_uv calls s) = sr_additional_data s"
  "sr_additional_data (put_object d u s) = sr_additional_data s" "sr_additional_data (update_context b g s) = sr_additional_data s"
  "sr_next (update_signals f s) = sr_next s" "sr_next (call_uv calls s) = sr_next s"
  "sr_next (put_object d u s) = sr_next s" "sr_next (update_context b g s) = sr_next s"
  "on_the_way c (update_signals f s) = on_the_way c s" "on_the_way c (put_object d u s) = on_the_way c s"
  "on_the_way c (update_context b g s) = on_the_way c s"
  by (simp_all add: store_of_def entries_of_def on_the_way_def server_runner_defs)

lemma on_the_way_call: "written_to c calls = [] \<Longrightarrow> on_the_way c (call_uv calls s) = on_the_way c s"
  by (simp add: on_the_way_def call_uv_def)

lemma pusher_drain_carried:
  assumes "pusher_drain d q n s = Inr (n', s')"
  shows "on_the_way c s' = on_the_way c s @ (if d = c then concat q else [])" and "store_of s' = store_of s"
    and "entries_of s' = entries_of s" and "sr_additional_data s' = sr_additional_data s" and "sr_next s' = sr_next s"
  using pusher_drain_frame [OF assms, of c] by (simp_all add: store_of_def entries_of_def)

lemma pusher_entry_carries:
  assumes "routed c a s" and "b < length (store_of s)" and "pusher_entry b n s = Inr (n', s')"
  shows "carries c a s s'"
    and "b = a \<Longrightarrow> \<not> cx_exited (store_of s ! a) \<Longrightarrow> cx_output_buffer (store_of s' ! a) = []"
    and "cx_output_buffer (store_of s ! a) = [] \<Longrightarrow> cx_output_buffer (store_of s' ! a) = []"
proof -
  have l: "a < length (store_of s)" "sr_additional_data s a = c" "sr_additional_data s b = c \<longleftrightarrow> b = a"
    using assms(1,2) by (auto simp: routed_def)
  show "carries c a s s'" and "b = a \<Longrightarrow> \<not> cx_exited (store_of s ! a) \<Longrightarrow> cx_output_buffer (store_of s' ! a) = []"
    and "cx_output_buffer (store_of s ! a) = [] \<Longrightarrow> cx_output_buffer (store_of s' ! a) = []"
  proof (atomize (full), cases "cx_exited (store_of s ! b)")
    case True
    with assms(3) have s': "s' = s \<or> (\<exists>u. push_server_work (CloseWork (sr_additional_data s b)) ((put_object (sr_additional_data s b)
        (u\<lparr>uc_close_request_sent := True\<rparr>) s)\<lparr>sr_manager := remove_interpreter (uc_fd u) (sr_manager s)\<rparr>) = Inr s')"
      by (auto simp: pusher_entry_def Let_def with_object_Inr store_of_def map_sum_def split: if_splits sum.splits)
    have "on_the_way c s' = on_the_way c s" "sr_additional_data s' = sr_additional_data s" "sr_next s' = sr_next s"
        "store_of s' = store_of s" "set (entries_of s') \<subseteq> set (entries_of s)"
      using s' by (auto simp: push_server_work_Inr on_the_way_def store_of_def entries_of_def put_object_def remove_interpreter_def
          remove_function_def do_transaction_def mg_notify_def erase_fd_def)
    with carries_same [OF assms(1)] True show "carries c a s s' \<and>
        (b = a \<longrightarrow> \<not> cx_exited (store_of s ! a) \<longrightarrow> cx_output_buffer (store_of s' ! a) = []) \<and>
        (cx_output_buffer (store_of s ! a) = [] \<longrightarrow> cx_output_buffer (store_of s' ! a) = [])"
      by auto
  next
    case False
    with assms(3) obtain k where d: "pusher_drain (sr_additional_data s b) (cx_output_buffer (store_of s ! b)) 0
        (update_context b (\<lambda>x. x\<lparr>cx_output_buffer := []\<rparr>) s) = Inr (k, s')"
      by (auto simp: pusher_entry_def Let_def store_of_def map_sum_def split: sum.splits)
    note f = pusher_drain_carried(1) [OF d, where c = c, simplified] pusher_drain_carried(2-) [OF d, simplified]
    have "in_transit c a s' = in_transit c a s"
      using l assms(2) by (cases "b = a") (simp_all add: in_transit_def f)
    moreover have "routed c a s'" using assms(1) by (simp add: routed_def f)
    moreover have "cx_exited (store_of s' ! a) = cx_exited (store_of s ! a)" using l(1) assms(2) by (cases "b = a") (simp_all add: f)
    moreover have "cx_exited (store_of s ! a) \<longrightarrow> on_the_way c s' = on_the_way c s" using False l by (cases "b = a") (simp_all add: f)
    moreover have "cx_output_buffer (store_of s' ! a) = (if b = a then [] else cx_output_buffer (store_of s ! a))" using l(1) by (simp add: f)
    ultimately show "carries c a s s' \<and>
        (b = a \<longrightarrow> \<not> cx_exited (store_of s ! a) \<longrightarrow> cx_output_buffer (store_of s' ! a) = []) \<and>
        (cx_output_buffer (store_of s ! a) = [] \<longrightarrow> cx_output_buffer (store_of s' ! a) = [])"
      by (simp add: carries_def)
  qed
qed

lemma pusher_entry_length:
  assumes "pusher_entry b n s = Inr (n', s')"
  shows "length (store_of s') = length (store_of s)"
  using assms
  by (auto simp: pusher_entry_def Let_def with_object_Inr map_sum_def push_server_work_Inr split: if_splits sum.splits
      dest!: pusher_drain_carried(2)) (simp add: store_of_def remove_interpreter_def mg_notify_def)

lemma pusher_entries_carry:
  assumes "pusher_entries es n s = Inr (n', s')" and "routed c a s" and "\<forall>e \<in> set es. snd e < length (store_of s)"
  shows "carries c a s s' \<and> (a \<in> snd ` set es \<or> cx_output_buffer (store_of s ! a) = [] \<longrightarrow> \<not> cx_exited (store_of s ! a) \<longrightarrow>
    cx_output_buffer (store_of s' ! a) = [])"
  using assms
proof (induction es n s rule: pusher_entries.induct)
  case (1 n s)
  then show ?case using carries_same [of c a s s] by auto
next
  case (2 fd b es n s)
  then obtain n1 s1 where s1: "pusher_entry b n s = Inr (n1, s1)" "pusher_entries es n1 s1 = Inr (n', s')"
    by (auto split: sum.splits)
  have b: "b < length (store_of s)" using "2.prems"(3) by simp
  note e = pusher_entry_carries [OF "2.prems"(2) b s1(1)]
  have len: "length (store_of s1) = length (store_of s)" using pusher_entry_length [OF s1(1)] .
  have r: "routed c a s1" using e(1) by (simp add: carries_def)
  from "2.IH" [OF s1(1) refl s1(2) r] "2.prems"(3) len
  have "carries c a s1 s'" "a \<in> snd ` set es \<or> cx_output_buffer (store_of s1 ! a) = [] \<longrightarrow> \<not> cx_exited (store_of s1 ! a) \<longrightarrow>
      cx_output_buffer (store_of s' ! a) = []" by auto
  with e carries_trans [OF e(1)] show ?case by (auto simp: carries_def)
qed

lemma pusher_round_carries:
  assumes "routed c a s" and "pusher_round same s = Inr (d, s')"
  shows "carries c a s s'"
    and "a \<in> snd ` set (entries_of s) \<Longrightarrow> \<not> cx_exited (store_of s ! a) \<Longrightarrow> cx_output_buffer (store_of s' ! a) = []"
proof -
  obtain n n' s1 where e: "pusher_entries (entries_of s) n s = Inr (n', s1)" "s' = s1 \<or> s' = s1\<lparr>sr_server_stopped := True\<rparr>"
    using assms(2) by (auto simp: pusher_round_def entries_of_def split: sum.splits if_splits)
  have "carries c a s1 s'"
    if "routed c a s1" by (rule carries_same [OF that]) (use e(2) in \<open>auto simp: on_the_way_def store_of_def entries_of_def\<close>)
  moreover have same: "store_of s' = store_of s1" using e(2) by (auto simp: store_of_def)
  have "\<forall>e \<in> set (entries_of s). snd e < length (store_of s)" using assms(1) by (simp add: routed_def)
  note c = pusher_entries_carry [OF e(1) assms(1) this]
  then have "routed c a s1" by (simp add: carries_def)
  ultimately show "carries c a s s'"
    and "a \<in> snd ` set (entries_of s) \<Longrightarrow> \<not> cx_exited (store_of s ! a) \<Longrightarrow> cx_output_buffer (store_of s' ! a) = []"
    using c carries_trans [of c a s s1 s'] by (simp_all add: same)
qed

lemma process_work_carries:
  assumes "routed c a s" and "process_work s = Inr s'"
  shows "carries c a s s'"
proof (rule carries_same [OF assms(1)])
  show "on_the_way c s' = on_the_way c s"
    using process_work_frame(1,2) [OF assms(2)] by (simp add: on_the_way_def)
qed (use process_work_frame(3-) [OF assms(2)] in \<open>simp_all add: store_of_def entries_of_def\<close>)

text \<open>Serving an interpreter adds to its output, and an interpreter that has exited stays so.\<close>

lemma handle_read_output:
  assumes "handle_read x signals = Inr (r, x', signals')"
  shows "cx_output_buffer x' = cx_output_buffer x \<and> cx_exited x' = cx_exited x"
proof (cases "cx_input_buffer x")
  case Nil
  show ?thesis
  proof (cases "cx_eof x")
    case True
    with Nil assms show ?thesis by (auto simp: handle_read_def queue_pop_def chk_bind_eq_Inr)
  next
    case False
    with Nil assms show ?thesis by (auto simp: handle_read_def queue_pop_def)
  qed
next
  case (Cons b rest)
  with assms obtain k m where k: "in_handle_read (cx_interpreter x) b = Inr (k, m)"
    by (cases "in_handle_read (cx_interpreter x) b") (auto simp: handle_read_def queue_pop_def)
  show ?thesis
  proof (cases "k = 0")
    case True
    with assms Cons k obtain y where y: "read_join m rest b False = Inr y"
      by (cases "read_join m rest b False") (simp_all add: handle_read_def queue_pop_def)
    obtain r1 m1 q1 where "y = (r1, m1, q1)" by (cases y)
    with True assms Cons k y show ?thesis by (auto simp: handle_read_def queue_pop_def)
  next
    case False
    with assms Cons k show ?thesis by (auto simp: handle_read_def queue_pop_def)
  qed
qed

lemma handle_output:
  "handle_write x signals = Inr (r, x', signals') \<Longrightarrow> (\<exists>new. cx_output_buffer x' = cx_output_buffer x @ new) \<and> cx_exited x' = cx_exited x"
  "handle_start_callback x signals = Inr (r, x', signals') \<Longrightarrow> cx_output_buffer x' = cx_output_buffer x \<and> cx_exited x' = cx_exited x"
  "handle_finish_callback x signals = Inr (r, x', signals') \<Longrightarrow> cx_output_buffer x' = cx_output_buffer x \<and> cx_exited x' = cx_exited x"
  subgoal by (cases "cx_eof x") (auto simp: handle_write_def queue_push_back_def chk_bind_eq_Inr)
  subgoal by (auto simp: handle_start_callback_def chk_bind_eq_Inr)
  subgoal by (cases "cx_callback_response_queue x") (auto simp: handle_finish_callback_def queue_pop_def chk_bind_eq_Inr)
  done

lemma handle_blocked_output:
  assumes "handle_blocked_interpreter x signals = Inr (r, x', signals')"
  shows "(\<exists>new. cx_output_buffer x' = cx_output_buffer x @ new) \<and> cx_exited x' = cx_exited x"
proof -
  from assms obtain res where res: "in_get_result (cx_interpreter x) = Inr res"
    by (auto simp: handle_blocked_interpreter_def chk_bind_eq_Inr)
  show ?thesis
  proof (cases res)
    case (ResBlocked b)
    with assms res handle_read_output handle_output show ?thesis
      by (cases b) (auto simp: handle_blocked_interpreter_def)
  qed (use assms res in \<open>simp add: handle_blocked_interpreter_def\<close>)
qed

lemma serve_interpreter_output:
  assumes "serve_interpreter x signals = Inr (r, x', signals')"
  shows "(\<exists>new. cx_output_buffer x' = cx_output_buffer x @ new) \<and> (cx_exited x \<longrightarrow> x' = x)"
proof (cases "cx_exited x")
  case False
  with assms obtain st m where step: "interpreter_step (cx_interpreter x) = Inr (st, m)"
    by (auto simp: serve_interpreter_def chk_bind_eq_Inr)
  let ?x = "x\<lparr>cx_interpreter := m\<rparr>"
  show ?thesis
  proof (cases st)
    case Blocked
    with assms False step obtain k where "handle_blocked_interpreter ?x signals = Inr (k, x', signals')"
      by (auto simp: serve_interpreter_def chk_bind_eq_Inr)
    from handle_blocked_output [OF this] False show ?thesis by simp
  next
    case Exited
    with assms False step show ?thesis by (auto simp: serve_interpreter_def chk_bind_eq_Inr)
  qed (use assms False step in \<open>auto simp: serve_interpreter_def\<close>)
qed (use assms in \<open>simp add: serve_interpreter_def\<close>)

lemma interpreter_serves_output:
  assumes "routed c a s" and "interpreter_serves b s = Inr s'"
  shows "routed c a s' \<and> prefix (in_transit c a s) (in_transit c a s') \<and> (cx_exited (store_of s ! a) \<longrightarrow> cx_exited (store_of s' ! a))
    \<and> on_the_way c s' = on_the_way c s"
proof -
  obtain r x' signals where x: "serve_interpreter (store_of s ! b) (signals_of (mg_collection (sr_manager s))) = Inr (r, x', signals)"
      "s' = update_signals (\<lambda>_. signals) (update_context b (\<lambda>_. x') s)"
    using assms(2) by (auto simp: interpreter_serves_def store_of_def split: sum.splits)
  obtain new where new: "cx_output_buffer x' = cx_output_buffer (store_of s ! b) @ new"
    using serve_interpreter_output [OF x(1)] by blast
  have "prefix (in_transit c a s) (in_transit c a s')"
    using assms(1) by (cases "b = a") (simp_all add: in_transit_def x(2) new routed_def)
  moreover have "cx_exited (store_of s ! a) \<longrightarrow> cx_exited (store_of s' ! a)"
    using serve_interpreter_output [OF x(1)] assms(1) by (cases "b = a") (simp_all add: x(2) routed_def)
  moreover have "routed c a s'" using assms(1) by (simp add: routed_def x(2))
  ultimately show ?thesis by (simp add: x(2))
qed

section \<open>The other steps\<close>

lemma callback_carries:
  assumes "routed c a s"
  shows "server_on_read_cb k nread data s = Inr s' \<Longrightarrow> carries c a s s'"
    and "on_write_completed k status s = Inr s' \<Longrightarrow> carries c a s s'"
    and "on_close_cb k s = Inr s' \<Longrightarrow> carries c a s s'"
    and "stop_accepting s = Inr s' \<Longrightarrow> carries c a s s'"
proof -
  have a: "a < length (store_of s)" using assms by (simp add: routed_def)
  have keep: "carries c a s (update_signals f (update_context b g s))"
    if "\<And>x. cx_output_buffer (g x) = cx_output_buffer x" "\<And>x. cx_exited (g x) = cx_exited x" for f b g
    by (rule carries_same [OF assms]) (use a that in \<open>cases "b = a"; simp\<close>)+
  have call: "carries c a s (call_uv calls s')" if "carries c a s s'" "written_to c calls = []" for calls s'
    by (rule carries_trans [OF that(1) carries_same]) (use that in \<open>simp_all add: carries_def on_the_way_call\<close>)
  have same: "carries c a s s" by (rule carries_same [OF assms]) simp_all
  show "carries c a s s'" if r: "server_on_read_cb k nread data s = Inr s'"
  proof -
    obtain u where u: "sr_objects s k = Some u" using r by (cases "sr_objects s k") (simp_all add: server_on_read_cb_def with_object_def)
    show ?thesis
    proof (cases "find_interpreter (uc_fd u) s")
      case None
      with r u have "s' = call_uv [UvReadStop k, UvClose k] s" by (simp add: server_on_read_cb_def with_object_def)
      with same show ?thesis by (simp add: call)
    next
      case (Some b)
      with r u same show ?thesis
        by (auto simp: server_on_read_cb_def with_object_def intro!: keep split: if_split_asm)
    qed
  qed
  show "carries c a s s'" if r: "on_write_completed k status s = Inr s'"
  proof -
    obtain u where u: "sr_objects s k = Some u" using r by (cases "sr_objects s k") (simp_all add: on_write_completed_def with_object_def)
    show ?thesis
    proof (cases "find_interpreter (uc_fd u) s")
      case (Some b)
      with r u same show ?thesis
        by (auto simp: on_write_completed_def with_object_def intro!: keep call split: if_split_asm)
    qed (use r u same in \<open>simp add: on_write_completed_def with_object_def\<close>)
  qed
  show "on_close_cb k s = Inr s' \<Longrightarrow> carries c a s s'"
    by (rule carries_same [OF assms])
      (auto simp: on_close_cb_def with_object_Inr on_the_way_def store_of_def entries_of_def update_signals_def split: if_splits)
  show "stop_accepting s = Inr s' \<Longrightarrow> carries c a s s'"
    by (rule carries_same [OF assms])
      (auto simp: stop_accepting_def push_server_work_Inr on_the_way_def store_of_def entries_of_def update_signals_def split: if_splits)
qed

lemma insert_interpreter_store:
  assumes "insert_interpreter fd program erange arglist mg = Inr (True, mg')"
  shows "(\<exists>x. mg_store mg' = mg_store mg @ [x])
    \<and> set (interpreters (mg_collection mg')) \<subseteq> insert (fd, length (mg_store mg)) (set (interpreters (mg_collection mg)))"
  using assms
  by (auto simp: insert_interpreter_def chk_bind_eq_Inr Let_def do_transaction_def insert_function_def mg_notify_def erase_fd_def
      split: option.splits if_splits)

lemma connection_carries:
  assumes "routed c a s" and "on_new_connection_cb program erange status accepted fileno s = Inr s'"
  shows "carries c a s s'"
proof (cases "status \<noteq> 0")
  case True
  with assms(2) have "s' = s" by (simp add: on_new_connection_cb_def)
  with carries_same [OF assms(1), of s] show ?thesis by simp
next
  case False
  let ?n = "sr_next s"
  let ?s = "\<lambda>fd b. put_object ?n \<lparr>uc_fd = fd, uc_close_request_sent = False, uc_data_set = b\<rparr> (s\<lparr>sr_next := ?n + 1\<rparr>)"
  show ?thesis
  proof (cases "if accepted = 0 then fileno else None")
    case None
    with assms(2) False have s': "s' = call_uv [UvClose ?n] (?s (-1) False)"
      by (simp add: on_new_connection_cb_def Let_def put_object_def)
    show ?thesis
      by (rule carries_same [OF assms(1)])
        (simp_all add: s' on_the_way_def call_uv_def put_object_def store_of_def entries_of_def)
  next
    case (Some fd)
    from assms(2) False Some obtain mg where mg: "insert_interpreter fd program erange None (sr_manager s) = Inr (True, mg)"
        "s' = update_signals notify_everything (call_uv [UvReadStart ?n]
          ((?s fd True)\<lparr>sr_manager := mg, sr_additional_data := (sr_additional_data s)(length (store_of s) := ?n)\<rparr>))"
      by (auto simp: on_new_connection_cb_def Let_def put_object_def store_of_def split: sum.splits prod.splits bool.splits)
    from insert_interpreter_store [OF mg(1)] obtain x where x: "mg_store mg = store_of s @ [x]"
        "set (interpreters (mg_collection mg)) \<subseteq> insert (fd, length (store_of s)) (set (entries_of s))"
      by (auto simp: store_of_def entries_of_def)
    have s': "store_of s' = store_of s @ [x]" "set (entries_of s') \<subseteq> insert (fd, length (store_of s)) (set (entries_of s))"
        "sr_additional_data s' = (sr_additional_data s)(length (store_of s) := ?n)" "sr_next s' = ?n + 1" "on_the_way c s' = on_the_way c s"
      using x by (simp_all add: mg(2) store_of_def entries_of_def on_the_way_def server_runner_defs)
    let ?l = "length (store_of s)"
    have e: "snd e < Suc ?l" if "e \<in> set (entries_of s')" for e
    proof -
      from that s'(2) have "e = (fd, ?l) \<or> e \<in> set (entries_of s)" by blast
      with assms(1) show ?thesis by (auto simp: routed_def less_Suc_eq)
    qed
    have a: "a < ?l" "sr_additional_data s a = c" "c < ?n" using assms(1) by (simp_all add: routed_def)
    have only: "b = a" if "b < Suc ?l" "((sr_additional_data s)(?l := ?n)) b = c" for b
      using that a(3) assms(1) by (cases "b = ?l") (simp_all add: routed_def)
    have "routed c a s'"
      unfolding routed_def s'(1,3,4)
    proof (intro conjI ballI allI impI)
      show "((sr_additional_data s)(?l := ?n)) a = c" using a by simp
    qed (use a only e in simp_all)
    moreover have "store_of s' ! a = store_of s ! a" using assms(1) by (simp add: s' routed_def nth_append)
    ultimately show ?thesis by (simp add: carries_def in_transit_def s'(5))
  qed
qed

text \<open>Every step.\<close>

lemma runner_step_output:
  assumes "runner_step program erange s s'" and "routed c a s"
  shows "routed c a s' \<and> prefix (in_transit c a s) (in_transit c a s') \<and> (cx_exited (store_of s ! a) \<longrightarrow> cx_exited (store_of s' ! a))
    \<and> (cx_exited (store_of s ! a) \<longrightarrow> on_the_way c s' = on_the_way c s)"
proof -
  have "carries c a s s' \<or> (\<exists>b. interpreter_serves b s = Inr s')"
    using assms(1)
  proof cases
    case (step_connection status accepted fileno)
    then show ?thesis using connection_carries [OF assms(2)] by blast
  next
    case step_process
    then show ?thesis using process_work_carries [OF assms(2)] by blast
  next
    case (step_pusher same d)
    then show ?thesis using pusher_round_carries(1) [OF assms(2)] by blast
  qed (use callback_carries [OF assms(2)] in blast)+
  then show ?thesis
    using interpreter_serves_output [OF assms(2)] by (auto simp: carries_def)
qed

lemma runner_steps_output:
  assumes "(runner_step program erange)\<^sup>*\<^sup>* s s'" and "routed c a s"
  shows "routed c a s' \<and> prefix (in_transit c a s) (in_transit c a s') \<and> (cx_exited (store_of s ! a) \<longrightarrow> cx_exited (store_of s' ! a))
    \<and> (cx_exited (store_of s ! a) \<longrightarrow> on_the_way c s' = on_the_way c s)"
  using assms(1)
proof (induction rule: rtranclp_induct)
  case base
  with assms(2) show ?case by simp
next
  case (step s1 s2)
  with runner_step_output [OF step.hyps(2), of c a] show ?case by (auto intro: prefix_order.trans)
qed

section \<open>A farewell\<close>

text \<open>An interpreter that writes three octets and exits.\<close>

definition farewell :: optree where
  "farewell = OpTree (OpTreeNode (Op_WriteStaticOctets ''BYE'') [])"

definition farewell_start :: interpreter where
  "farewell_start = (blocked_machine (Op_WriteStaticOctets ''BYE'') (CtxIO init_io) WaitingForWrite)
     \<lparr>in_stack := [new_continuation farewell 0]\<rparr>"

abbreviation farewell_blocked :: "nat \<Rightarrow> interpreter" where
  "farewell_blocked it \<equiv> blocked_machine (Op_WriteStaticOctets ''BYE'') (CtxIO (init_io\<lparr>io_buffer := ''BYE'', io_it := it\<rparr>)) WaitingForWrite"

abbreviation farewell_written :: interpreter_context where
  "farewell_written \<equiv> (new_context (farewell_blocked 3))\<lparr>cx_output_buffer := [''BYE'']\<rparr>"

lemma farewell_instance: "get_instance farewell False None = Inr farewell_start"
  by (simp add: get_instance_def farewell_start_def blocked_machine_def new_continuation_def new_frame_def alloc_pad_def)

lemma farewell_first_step: "interpreter_step farewell_start = Inr (Blocked, farewell_blocked 0)"
  by (simp add: farewell_start_def farewell_def blocked_machine_def interpreter_step_def continuation_step_def new_continuation_def
      prepare_def has_arguments_ready_def execute_def stack_top_def new_frame_def on_io_def write_static_run_def write_wait_def
      init_io_def in_ctx_def initialize_context_def)

lemma farewell_last_step: "\<exists>m v. interpreter_step (farewell_blocked 3) = Inr (Exited, m) \<and> in_get_result m = Inr (ResValue v)"
  by (simp add: blocked_machine_def interpreter_step_def continuation_step_def in_get_result_def
      prepare_def has_arguments_ready_def execute_def stack_top_def new_frame_def on_io_def write_static_run_def write_wait_def
      init_io_def in_ctx_def)

lemma farewell_served:
  "serve_interpreter (new_context farewell_start) sg = Inr (ServedBlocked Unblocked, farewell_written, notify_output sg)"
  by (simp add: serve_interpreter_def new_context_def farewell_first_step handle_blocked_interpreter_def handle_write_def
      on_io_def write_get_buffer_def write_static_handle_write_def advance_it_eq queue_push_back_def init_io_def numeral_3_eq_3)

lemma farewell_exits:
  "\<exists>x sg'. serve_interpreter farewell_written sg = Inr (ServedExited, x, sg') \<and> cx_exited x \<and> cx_output_buffer x = [''BYE'']"
  using farewell_last_step by (auto simp: serve_interpreter_def new_context_def)

definition farewell_server :: "interpreter_context \<Rightarrow> interpreter_signals \<Rightarrow> server_runner" where
  "farewell_server x sg =
     \<lparr>sr_manager = \<lparr>mg_store = [x], mg_collection = \<lparr>interpreters = [(7, 0)], signals_of = sg\<rparr>\<rparr>, sr_additional_data = (\<lambda>_. 0),
      sr_objects = [0 \<mapsto> \<lparr>uc_fd = 7, uc_close_request_sent = False, uc_data_set = True\<rparr>], sr_next = 1, sr_listener = None,
      sr_work = init_work_queue, sr_exit_when_done = False, sr_pusher_started = True, sr_server_stopped = False, sr_calls = [UvReadStart 0]\<rparr>"

lemma farewell_routed: "routed 0 0 (farewell_server x sg)"
  by (simp add: routed_def farewell_server_def store_of_def entries_of_def)

lemma farewell_connects:
  "\<exists>sg. on_new_connection_cb farewell False 0 0 (Some 7) (init_server_runner\<lparr>sr_pusher_started := True\<rparr>) =
     Inr (farewell_server (new_context farewell_start) sg)"
  by (simp add: on_new_connection_cb_def init_server_runner_def Let_def put_object_def insert_interpreter_def farewell_instance
      do_transaction_def insert_function_def mg_notify_def update_signals_def call_uv_def farewell_server_def fun_upd_idem)

lemma farewell_serve:
  assumes "serve_interpreter x sg = Inr (r, y, sg')"
  shows "interpreter_serves 0 (farewell_server x sg) = Inr (farewell_server y sg')"
  using assms by (simp add: interpreter_serves_def farewell_server_def server_runner_defs)

lemma farewell_drained:
  assumes "cx_output_buffer x = [''BYE'']" and "\<not> cx_exited x"
  shows "\<exists>d s s'. pusher_round same (farewell_server x sg) = Inr (d, s) \<and> process_work s = Inr s'"
  using assms
  by (simp add: pusher_round_def pusher_entry_def farewell_server_def Let_def push_server_work_def push_work_def push_item_def
      init_work_queue_def queue_push_back_def server_runner_defs process_work_def process_def)

lemma farewell_closed:
  assumes "cx_exited x"
  shows "\<exists>d s s'. pusher_round same (farewell_server x sg) = Inr (d, s) \<and> process_work s = Inr s' \<and> sr_calls s' = [UvReadStart 0, UvClose 0]"
  using assms
  by (simp add: pusher_round_def pusher_entry_def farewell_server_def Let_def push_server_work_def push_work_def push_item_def
      init_work_queue_def queue_push_back_def server_runner_defs process_work_def process_def)

lemma farewell_written_reached:
  "\<exists>sg. (runner_step farewell False)\<^sup>*\<^sup>* (init_server_runner\<lparr>sr_pusher_started := True\<rparr>) (farewell_server (new_context farewell_start) sg)
     \<and> runner_step farewell False (farewell_server (new_context farewell_start) sg) (farewell_server farewell_written (notify_output sg))"
proof -
  obtain sg where c: "on_new_connection_cb farewell False 0 0 (Some 7) (init_server_runner\<lparr>sr_pusher_started := True\<rparr>) =
      Inr (farewell_server (new_context farewell_start) sg)"
    using farewell_connects by blast
  have "runner_step farewell False (farewell_server (new_context farewell_start) sg) (farewell_server farewell_written (notify_output sg))"
    by (rule step_interpreter, rule farewell_serve, rule farewell_served)
  with step_connection [OF c] show ?thesis by blast
qed

lemma farewell_exit_reached:
  "\<exists>x sg. (runner_step farewell False)\<^sup>*\<^sup>* (init_server_runner\<lparr>sr_pusher_started := True\<rparr>) (farewell_server x sg)
     \<and> cx_exited x \<and> cx_output_buffer x = [''BYE'']"
proof -
  obtain sg where w: "(runner_step farewell False)\<^sup>*\<^sup>* (init_server_runner\<lparr>sr_pusher_started := True\<rparr>)
      (farewell_server (new_context farewell_start) sg)"
    "runner_step farewell False (farewell_server (new_context farewell_start) sg) (farewell_server farewell_written (notify_output sg))"
    using farewell_written_reached by blast
  obtain x sg' where x: "serve_interpreter farewell_written (notify_output sg) = Inr (ServedExited, x, sg')" "cx_exited x"
      "cx_output_buffer x = [''BYE'']"
    using farewell_exits by blast
  have "runner_step farewell False (farewell_server farewell_written (notify_output sg)) (farewell_server x sg')"
    by (rule step_interpreter, rule farewell_serve, rule x(1))
  with w have "(runner_step farewell False)\<^sup>*\<^sup>* (init_server_runner\<lparr>sr_pusher_started := True\<rparr>) (farewell_server x sg')"
    by (blast intro: rtranclp.rtrancl_into_rtrancl)
  with x show ?thesis by blast
qed

section \<open>Properties\<close>

text \<open>C11: What an interpreter has put into its output buffer is given to libuv for its connection, all of it
  and in order, by a round of the pusher thread and the work of the loop, whatever happened in between, as
  long as the interpreter has not exited.\<close>

theorem output_reaches_libuv:
  assumes "routed c a s" and "(runner_step program erange)\<^sup>*\<^sup>* s s1"
    and "a \<in> snd ` set (entries_of s1)" and "\<not> cx_exited (store_of s1 ! a)"
    and "pusher_round same s1 = Inr (d, s2)" and "process_work s2 = Inr s3"
  shows "prefix (in_transit c a s) (written_to c (sr_calls s3)) \<and> written_to c (sr_calls s3) = in_transit c a s1"
proof -
  note r = runner_steps_output [OF assms(2,1)]
  note p = pusher_round_carries [OF conjunct1 [OF r] assms(5)]
  have "in_transit c a s1 = on_the_way c s2"
    using p(1) p(2) [OF assms(3,4)] by (simp add: carries_def in_transit_def)
  with r show ?thesis by (simp add: process_work_frame(1) [OF assms(6)])
qed

theorem output_reaches_libuv_witness:
  "\<exists>sg d s2 s3. (runner_step farewell False)\<^sup>*\<^sup>* (init_server_runner\<lparr>sr_pusher_started := True\<rparr>) (farewell_server farewell_written sg)
     \<and> pusher_round True (farewell_server farewell_written sg) = Inr (d, s2) \<and> process_work s2 = Inr s3
     \<and> written_to 0 (sr_calls s3) = ''BYE''"
proof -
  obtain sg where r: "(runner_step farewell False)\<^sup>*\<^sup>* (init_server_runner\<lparr>sr_pusher_started := True\<rparr>)
      (farewell_server (new_context farewell_start) sg)"
    "runner_step farewell False (farewell_server (new_context farewell_start) sg) (farewell_server farewell_written (notify_output sg))"
    using farewell_written_reached by blast
  let ?s1 = "farewell_server farewell_written (notify_output sg)"
  obtain d s2 s3 where p: "pusher_round True ?s1 = Inr (d, s2)" "process_work s2 = Inr s3"
    using farewell_drained [of farewell_written True "notify_output sg"] by (auto simp: new_context_def)
  have w: "written_to 0 (sr_calls s3) = in_transit 0 0 ?s1"
    using output_reaches_libuv [OF farewell_routed r_into_rtranclp [where r = "runner_step farewell False", OF r(2)] _ _ p]
    by (simp add: farewell_server_def entries_of_def store_of_def new_context_def)
  have "in_transit 0 0 ?s1 = ''BYE''"
    by (simp add: in_transit_def on_the_way_def farewell_server_def store_of_def init_work_queue_def)
  moreover have "(runner_step farewell False)\<^sup>*\<^sup>* (init_server_runner\<lparr>sr_pusher_started := True\<rparr>) ?s1"
    using r by (blast intro: rtranclp.rtrancl_into_rtrancl)
  ultimately show ?thesis using p w by auto
qed

text \<open>When an interpreter exits with output in its buffer, that output is never written: the pusher
  thread closes the connection instead.\<close>

theorem output_lost_on_exit:
  assumes "routed c a s" and "cx_exited (store_of s ! a)" and "(runner_step program erange)\<^sup>*\<^sup>* s s'"
  shows "prefix (written_to c (sr_calls s')) (on_the_way c s)"
proof -
  have "on_the_way c s' = on_the_way c s" using runner_steps_output [OF assms(3,1)] assms(2) by simp
  then show ?thesis by (metis on_the_way_def prefixI)
qed

theorem output_lost_on_exit_witness:
  "\<exists>s d s1 s2. (runner_step farewell False)\<^sup>*\<^sup>* (init_server_runner\<lparr>sr_pusher_started := True\<rparr>) s \<and> in_transit 0 0 s = ''BYE''
     \<and> pusher_round True s = Inr (d, s1) \<and> process_work s1 = Inr s2 \<and> sr_calls s2 = [UvReadStart 0, UvClose 0] \<and> written_to 0 (sr_calls s2) = []"
proof -
  obtain x sg' where reach: "(runner_step farewell False)\<^sup>*\<^sup>* (init_server_runner\<lparr>sr_pusher_started := True\<rparr>) (farewell_server x sg')"
    and x: "cx_exited x" "cx_output_buffer x = [''BYE'']"
    using farewell_exit_reached by blast
  let ?s2 = "farewell_server x sg'"
  obtain d s1 s2 where p: "pusher_round True ?s2 = Inr (d, s1)" "process_work s1 = Inr s2" "sr_calls s2 = [UvReadStart 0, UvClose 0]"
    using farewell_closed [OF x(1)] by blast
  have started: "sr_pusher_started ?s2" by (simp add: farewell_server_def)
  have "(runner_step farewell False)\<^sup>*\<^sup>* ?s2 s2"
    using step_pusher [OF started p(1)] step_process [OF p(2)] by (blast intro: converse_rtranclp_into_rtranclp)
  from output_lost_on_exit [OF farewell_routed _ this] x(1) have "written_to 0 (sr_calls s2) = []"
    by (simp add: farewell_server_def store_of_def on_the_way_def init_work_queue_def)
  moreover have "in_transit 0 0 ?s2 = ''BYE''"
    using x(2) by (simp add: in_transit_def on_the_way_def farewell_server_def store_of_def init_work_queue_def)
  ultimately show ?thesis using reach p by blast
qed

section \<open>Closing\<close>

definition closes_of :: "nat \<Rightarrow> uv_call list \<Rightarrow> nat" where
  "closes_of c calls = length (filter (\<lambda>x. x = UvClose c) calls)"

lemma process_items_closes:
  "process_items run_work items q s = Inr (q', s') \<Longrightarrow>
     closes_of c (sr_calls s) + length (filter (\<lambda>x. x = Work (CloseWork c)) items) \<le> closes_of c (sr_calls s')"
proof (induction items arbitrary: q s)
  case (Cons x items)
  show ?case
  proof (cases x)
    case (Work w)
    with Cons.prems obtain s1 where s1: "run_work w s = Inr s1" "process_items run_work items q s1 = Inr (q', s')"
      by (auto split: sum.splits)
    have "closes_of c (sr_calls s) + (if w = CloseWork c then 1 else 0) \<le> closes_of c (sr_calls s1)"
      using s1(1) by (cases w) (auto simp: with_object_Inr call_uv_def closes_of_def split: option.splits)
    with Cons.IH [OF s1(2)] Work show ?thesis by (auto split: if_splits)
  next
    case CloseAsyncHandle
    with Cons.prems have "process_items run_work items (q\<lparr>wq_close_calls := wq_close_calls q + 1, wq_shutdown_called := True\<rparr>) s = Inr (q', s')"
      by simp
    from Cons.IH [OF this] CloseAsyncHandle show ?thesis by simp
  qed
qed simp

text \<open>The pusher thread removes an interpreter that has exited before the loop has closed its
  connection. When data arrives in between, the read callback closes the connection, and the work of the
  pusher closes it again, which libuv does not allow.\<close>

theorem connection_closed_twice:
  assumes "cx_exited (store_of s ! a)" and "sr_additional_data s a = c" and "sr_objects s c = Some u" and "\<not> uc_close_request_sent u"
    and "pusher_entry a n s = Inr (n', s1)" and "server_on_read_cb c nread data s1 = Inr s2" and "process_work s2 = Inr s3"
  shows "2 \<le> closes_of c (sr_calls s3)"
proof -
  have s1: "push_server_work (CloseWork c) ((put_object c (u\<lparr>uc_close_request_sent := True\<rparr>) s)
      \<lparr>sr_manager := remove_interpreter (uc_fd u) (sr_manager s)\<rparr>) = Inr s1"
    using assms(1-5) by (auto simp: pusher_entry_def Let_def with_object_def store_of_def map_sum_def split: sum.splits)
  then have q: "wq_items (sr_work s1) = wq_items (sr_work s) @ [Work (CloseWork c)]"
      "sr_objects s1 c = Some (u\<lparr>uc_close_request_sent := True\<rparr>)" "find_interpreter (uc_fd u) s1 = None"
    by (auto simp: push_server_work_Inr put_object_def find_interpreter_def remove_interpreter_def remove_function_def
        do_transaction_def map_of_erase_fd)
  then have s2: "s2 = call_uv [UvReadStop c, UvClose c] s1"
    using assms(6) by (simp add: server_on_read_cb_def with_object_def)
  from assms(7) obtain q' s' where p: "process_items run_work (wq_items (sr_work s2)) ((sr_work s2)\<lparr>wq_items := [], wq_signalled := False\<rparr>) s2 = Inr (q', s')"
      "s3 = s'\<lparr>sr_work := q'\<rparr>"
    by (auto simp: process_work_def process_def map_sum_def split: sum.splits)
  from process_items_closes [OF p(1), of c] show ?thesis
    by (simp add: p(2) s2 q(1) call_uv_def closes_of_def)
qed

theorem connection_closed_twice_witness:
  "\<exists>s x n' s1 s2 s3. (runner_step farewell False)\<^sup>*\<^sup>* (init_server_runner\<lparr>sr_pusher_started := True\<rparr>) s
     \<and> pusher_entry 0 x s = Inr (n', s1) \<and> server_on_read_cb 0 1 ''x'' s1 = Inr s2 \<and> process_work s2 = Inr s3
     \<and> 2 \<le> closes_of 0 (sr_calls s3)"
proof -
  obtain s x sg where s: "(runner_step farewell False)\<^sup>*\<^sup>* (init_server_runner\<lparr>sr_pusher_started := True\<rparr>) s"
    and x: "s = farewell_server x sg" "cx_exited x"
    using farewell_exit_reached by blast
  let ?n = "\<lparr>pc_active_interpreters = 0, pc_blocked_interpreters = 0, pc_pending_close = 0, pc_any_exited = False\<rparr>"
  let ?u = "\<lparr>uc_fd = 7, uc_close_request_sent = False, uc_data_set = True\<rparr>"
  obtain n' s1 s2 s3 where p: "pusher_entry 0 ?n s = Inr (n', s1)" "server_on_read_cb 0 1 ''x'' s1 = Inr s2" "process_work s2 = Inr s3"
    using x by (auto simp: pusher_entry_def farewell_server_def Let_def push_server_work_def push_work_def push_item_def
        init_work_queue_def queue_push_back_def server_runner_defs process_work_def process_def server_on_read_cb_def
        find_interpreter_def remove_interpreter_def remove_function_def do_transaction_def erase_fd_def)
  have "2 \<le> closes_of 0 (sr_calls s3)"
    by (rule connection_closed_twice [OF _ _ _ _ p, where u = ?u]) (use x in \<open>simp_all add: farewell_server_def store_of_def\<close>)
  with s p show ?thesis by blast
qed

section \<open>Stopping\<close>

lemma step_not_stopped:
  assumes "runner_step program erange s s'" and "\<not> sr_pusher_started s" and "\<not> sr_server_stopped s"
  shows "\<not> sr_pusher_started s' \<and> \<not> sr_server_stopped s'"
  using assms(1)
proof cases
  case (step_read c nread data)
  then show ?thesis using assms(2,3)
    by (auto simp: server_on_read_cb_def server_runner_defs split: option.split_asm if_split_asm)
next
  case (step_written c status)
  then show ?thesis using assms(2,3)
    by (auto simp: on_write_completed_def server_runner_defs split: option.split_asm if_split_asm)
next
  case (step_closed c)
  then show ?thesis using assms(2,3) by (auto simp: on_close_cb_def server_runner_defs split: option.split_asm if_split_asm)
next
  case (step_connection status accepted fileno)
  then show ?thesis using assms(2,3)
    by (auto simp: on_new_connection_cb_def server_runner_defs Let_def split: option.split_asm if_split_asm sum.split_asm prod.split_asm bool.split_asm)
next
  case step_process
  then show ?thesis using process_work_frame(7,8) assms(2,3) by simp
next
  case step_stop
  then show ?thesis using assms(2,3) by (auto simp: stop_accepting_def push_server_work_Inr server_runner_defs split: if_split_asm)
next
  case (step_interpreter a)
  then show ?thesis using assms(2,3) by (auto simp: interpreter_serves_def server_runner_defs split: sum.split_asm)
qed (use assms in simp)

text \<open>When the server cannot bind, the pusher thread is not started: nothing that happens afterwards
  sets \<open>server_stopped\<close>, for which \<open>stop\<close> and the destructor of the wrapper wait.\<close>

theorem failed_bind_never_stops:
  assumes "bind_work uv_strerror bind_rc name_rc port fileno s = (Inl e, s')" and "\<not> sr_pusher_started s" and "\<not> sr_server_stopped s"
    and "(runner_step program erange)\<^sup>*\<^sup>* s' s''"
  shows "\<not> sr_server_stopped s''"
proof -
  have "\<not> sr_pusher_started s' \<and> \<not> sr_server_stopped s'"
    using assms(1-3) by (auto simp: bind_work_def Let_def put_object_def split: if_splits option.splits)
  with assms(4) have "\<not> sr_pusher_started s'' \<and> \<not> sr_server_stopped s''"
    by (induction rule: rtranclp_induct) (use step_not_stopped in blast)+
  then show ?thesis by simp
qed

theorem failed_bind_never_stops_witness:
  "\<exists>s s'. bind_work (\<lambda>_. ''EADDRINUSE'') (- 98) 0 0 None init_server_runner = (Inl ''EADDRINUSE'', s)
     \<and> runner_step farewell False s s' \<and> sr_exit_when_done s' \<and> \<not> sr_server_stopped s'"
proof -
  obtain s where s: "bind_work (\<lambda>_. ''EADDRINUSE'') (- 98) 0 0 None init_server_runner = (Inl ''EADDRINUSE'', s)"
      "sr_work s = init_work_queue" "\<not> sr_exit_when_done s"
    by (simp add: bind_work_def Let_def put_object_def init_server_runner_def)
  obtain s' where s': "stop_accepting s = Inr s'" "sr_exit_when_done s'"
    using s(2,3) by (simp add: stop_accepting_def push_server_work_def push_work_def push_item_def init_work_queue_def update_signals_def)
  have "runner_step farewell False s s'" by (rule step_stop [OF s'(1)])
  moreover from failed_bind_never_stops [OF s(1) _ _ r_into_rtranclp [where r = "runner_step farewell False", OF this]]
  have "\<not> sr_server_stopped s'" by (simp add: init_server_runner_def)
  ultimately show ?thesis using s(1) s'(2) by blast
qed

end
