(* ===== verification/LibuvClientRunner.thy ===== *)
theory LibuvClientRunner
  imports LibuvTheorems
begin

text \<open>
  The client for interpreted programs (\<open>networkprotocoldsl_uv/libuvclientrunner.cpp\<close>): one connection,
  with a pusher thread of its own. The connection object and its context are deleted together by the close
  callback; what runs after that reads memory that is gone.
\<close>

section \<open>State\<close>

datatype client_work = ClientConnect | ClientWrite octets | ClientClose

record client_runner =
  cl_manager :: manager
  cl_alive :: bool
  cl_connecting :: bool
  cl_data_set :: bool
  cl_fd :: int
  cl_context :: "nat option"
  cl_connection_result :: "(string + int) option"
  cl_client_result :: "(string + op_result) option"
  cl_work :: "client_work work_queue"
  cl_pusher_started :: bool
  cl_calls :: "uv_call list"

type_synonym client_result = "server_fault + client_runner"

definition init_client_runner :: client_runner where
  "init_client_runner =
     \<lparr>cl_manager = \<lparr>mg_store = [], mg_collection = \<lparr>interpreters = [], signals_of = new_signals\<rparr>\<rparr>, cl_alive = True, cl_connecting = False, cl_data_set = False,
      cl_fd = 0, cl_context = None, cl_connection_result = None, cl_client_result = None, cl_work = init_work_queue,
      cl_pusher_started = False, cl_calls = []\<rparr>"

text \<open>The one connection of a client is the object 0.\<close>

definition cl_call :: "uv_call list \<Rightarrow> client_runner \<Rightarrow> client_runner" where
  "cl_call calls k = k\<lparr>cl_calls := cl_calls k @ calls\<rparr>"

definition cl_find :: "client_runner \<Rightarrow> nat option" where
  "cl_find k = map_of (interpreters (mg_collection (cl_manager k))) (cl_fd k)"

definition cl_signal :: "(interpreter_signals \<Rightarrow> interpreter_signals) \<Rightarrow> client_runner \<Rightarrow> client_runner" where
  "cl_signal f k =
     k\<lparr>cl_manager := (cl_manager k)\<lparr>mg_collection := (mg_collection (cl_manager k))
        \<lparr>signals_of := f (signals_of (mg_collection (cl_manager k)))\<rparr>\<rparr>\<rparr>"

definition cl_update :: "nat \<Rightarrow> (interpreter_context \<Rightarrow> interpreter_context) \<Rightarrow> client_runner \<Rightarrow> client_runner" where
  "cl_update a f k = k\<lparr>cl_manager := (cl_manager k)\<lparr>mg_store := (mg_store (cl_manager k))[a := f (mg_store (cl_manager k) ! a)]\<rparr>\<rparr>"

definition cl_push :: "client_work \<Rightarrow> client_runner \<Rightarrow> client_result" where
  "cl_push w k = (case push_work w (cl_work k) of Inl e \<Rightarrow> Inl NoReturn | Inr q \<Rightarrow> Inr (k\<lparr>cl_work := q\<rparr>))"

text \<open>The constructor schedules the attempt to connect, for the loop to make.\<close>

definition connect_client :: "client_runner \<Rightarrow> client_result" where
  "connect_client k = cl_push ClientConnect k"

text \<open>Setting a promise that is set throws.\<close>

definition set_connection_result :: "string + int \<Rightarrow> client_runner \<Rightarrow> client_result" where
  "set_connection_result x k = (if cl_connection_result k = None then Inr (k\<lparr>cl_connection_result := Some x\<rparr>) else Inl NoReturn)"

definition set_client_result :: "string + op_result \<Rightarrow> client_runner \<Rightarrow> client_result" where
  "set_client_result x k = (if cl_client_result k = None then Inr (k\<lparr>cl_client_result := Some x\<rparr>) else Inl NoReturn)"

definition while_alive :: "client_runner \<Rightarrow> client_result \<Rightarrow> client_result" where
  "while_alive k r = (if cl_alive k then r else Inl Dangling)"

definition and_then :: "client_result \<Rightarrow> (client_runner \<Rightarrow> client_result) \<Rightarrow> client_result" where
  "and_then r f = (case r of Inl e \<Rightarrow> Inl e | Inr k \<Rightarrow> f k)"

section \<open>The callbacks of libuv\<close>

definition unified_close_cb :: "client_runner \<Rightarrow> client_result" where
  "unified_close_cb k =
     while_alive k (Inr (if cl_data_set k then k\<lparr>cl_alive := False\<rparr> else k))"

definition client_on_read_cb :: "int \<Rightarrow> octets \<Rightarrow> client_runner \<Rightarrow> client_result" where
  "client_on_read_cb nread data k =
     while_alive k
       (case cl_find k of
          None \<Rightarrow> Inr (cl_call [UvReadStop 0, UvClose 0] k)
        | Some a \<Rightarrow>
            if nread > 0 then
              Inr (cl_signal (notify_interpreter \<circ> notify_input)
                (cl_update a (\<lambda>x. x\<lparr>cx_input_buffer := queue_push_back (cx_input_buffer x) data\<rparr>) k))
            else if nread < 0 then
              Inr (cl_signal (notify_interpreter \<circ> notify_input) (cl_update a (\<lambda>x. x\<lparr>cx_eof := True\<rparr>) k))
            else Inr k)"

definition client_on_write_completed :: "int \<Rightarrow> client_runner \<Rightarrow> client_result" where
  "client_on_write_completed status k =
     while_alive k
       (case cl_find k of
          Some a \<Rightarrow>
            if status < 0 then
              Inr (cl_call [UvReadStop 0, UvClose 0]
                (cl_signal (notify_interpreter \<circ> notify_output) (cl_update a (\<lambda>x. x\<lparr>cx_eof := True\<rparr>) k)))
            else Inr k
        | None \<Rightarrow> Inr k)"

definition on_connect_client_cb :: "(int \<Rightarrow> string) \<Rightarrow> optree \<Rightarrow> bool \<Rightarrow> int \<Rightarrow> int option \<Rightarrow> client_runner \<Rightarrow> client_result" where
  "on_connect_client_cb uv_strerror program erange status fileno k =
     while_alive k
       (if status < 0 then
          and_then (set_connection_result (Inl (uv_strerror status)) k) (\<lambda>k.
          and_then (set_client_result (Inl (uv_strerror status)) k) (\<lambda>k.
            Inr (cl_call [UvClose 0] (k\<lparr>cl_data_set := True\<rparr>))))
        else
          (let k = k\<lparr>cl_data_set := True\<rparr> in
           case fileno of
             Some fd \<Rightarrow>
               (let k = k\<lparr>cl_fd := fd\<rparr> in
                case insert_interpreter fd program erange None (cl_manager k) of
                  Inr (True, mg) \<Rightarrow>
                    and_then (set_connection_result (Inr fd) (k\<lparr>cl_manager := mg, cl_context := Some (length (mg_store (cl_manager k)))\<rparr>)) (\<lambda>k.
                      Inr ((cl_call [UvReadStart 0] k)\<lparr>cl_pusher_started := True\<rparr>))
                | _ \<Rightarrow> Inl NoReturn)
           | None \<Rightarrow>
               and_then (set_connection_result (Inl ''Connection did not provide a valid file descriptor.'') k) (\<lambda>k.
               and_then (set_client_result (Inl ''Connection did not provide a valid file descriptor.'') k) (\<lambda>k.
                 Inr (cl_call [UvClose 0] k)))))"

section \<open>The work of the loop\<close>

fun client_run_work :: "client_work \<Rightarrow> client_runner \<Rightarrow> client_result" where
  "client_run_work ClientConnect k = while_alive k (Inr (k\<lparr>cl_connecting := True\<rparr>))"
| "client_run_work (ClientWrite data) k = while_alive k (Inr (cl_call [UvWrite 0 data] k))"
| "client_run_work ClientClose k = while_alive k (Inr (cl_call [UvReadStop 0, UvClose 0] k))"

definition client_process_work :: "client_runner \<Rightarrow> client_result" where
  "client_process_work k = map_sum id (\<lambda>(q, k). k\<lparr>cl_work := q\<rparr>) (process client_run_work (cl_work k) k)"

section \<open>The pusher thread\<close>

fun client_drain :: "octets mutex_queue \<Rightarrow> client_runner \<Rightarrow> client_result" where
  "client_drain [] k = Inr k"
| "client_drain (out # q) k = and_then (cl_push (ClientWrite out) k) (client_drain q)"

text \<open>\<open>interpreter_result_future.get()\<close> waits until the interpreter has a result.\<close>

definition propagate_result :: "client_runner \<Rightarrow> client_result" where
  "propagate_result k =
     (case cl_context k of
        None \<Rightarrow> Inr k
      | Some a \<Rightarrow>
          (case cx_interpreter_result (mg_store (cl_manager k) ! a) of
             None \<Rightarrow> Inl NoReturn
           | Some r \<Rightarrow> set_client_result (Inr r) (k\<lparr>cl_context := None\<rparr>)))"

text \<open>A turn of \<open>pusher_thread_loop\<close>; \<open>same\<close> as in the server.\<close>

definition client_pusher_round :: "bool \<Rightarrow> client_runner \<Rightarrow> server_fault + loop_decision \<times> client_runner" where
  "client_pusher_round same k =
     (if \<not> cl_alive k then Inl Dangling
      else case cl_find k of
        Some a \<Rightarrow>
          (let context = mg_store (cl_manager k) ! a in
           if cx_exited context then map_sum id (Pair LoopBreak) (and_then (cl_push (ClientClose) k) propagate_result)
           else
             map_sum id (Pair (if cx_output_buffer context = [] \<and> same then LoopWait else LoopAgain))
               (client_drain (cx_output_buffer context) (cl_update a (\<lambda>x. x\<lparr>cx_output_buffer := []\<rparr>) k)))
      | None \<Rightarrow> map_sum id (Pair LoopBreak) (and_then (cl_push (ClientClose) k) propagate_result))"

section \<open>Properties\<close>

text \<open>Whatever the attempt to connect gives, the caller gets an answer, and a failure is an answer to
  \<open>client_result\<close> too.\<close>

theorem connection_answered:
  assumes "cl_alive k" and "cl_connection_result k = None" and "cl_client_result k = None"
    and "on_connect_client_cb uv_strerror program erange status fileno k = Inr k'"
  shows "\<exists>x. cl_connection_result k' = Some x \<and> (case x of
      Inl e \<Rightarrow> cl_client_result k' = Some (Inl e) \<and> \<not> (cl_pusher_started k' \<and> \<not> cl_pusher_started k)
    | Inr fd \<Rightarrow> cl_pusher_started k' \<and> cl_find k' = Some (length (mg_store (cl_manager k))))"
proof (cases "status < 0")
  case True
  with assms show ?thesis
    by (auto simp: on_connect_client_cb_def while_alive_def and_then_def set_connection_result_def set_client_result_def cl_call_def)
next
  case False
  show ?thesis
  proof (cases fileno)
    case None
    with assms False show ?thesis
      by (auto simp: on_connect_client_cb_def while_alive_def and_then_def set_connection_result_def set_client_result_def
          cl_call_def Let_def)
  next
    case (Some fd)
    with assms False obtain mg where mg: "insert_interpreter fd program erange None (cl_manager k) = Inr (True, mg)"
        "k' = (cl_call [UvReadStart 0] (k\<lparr>cl_data_set := True, cl_fd := fd, cl_manager := mg,
            cl_context := Some (length (mg_store (cl_manager k))), cl_connection_result := Some (Inr fd)\<rparr>))\<lparr>cl_pusher_started := True\<rparr>"
      by (auto simp: on_connect_client_cb_def while_alive_def and_then_def set_connection_result_def Let_def
          split: sum.splits prod.splits bool.splits)
    have "map_of (interpreters (mg_collection mg)) fd = Some (length (mg_store (cl_manager k)))"
      using mg(1) by (auto simp: insert_interpreter_def chk_bind_eq_Inr Let_def do_transaction_def insert_function_def
          mg_notify_def split: option.splits if_splits)
    with mg(2) show ?thesis by (simp add: cl_call_def cl_find_def)
  qed
qed

text \<open>When a write of the client fails, the callback closes the connection, and closing it deletes
  the object the pusher thread still works on: its next turn, whenever it comes and whatever has
  happened to the interpreters, reads memory that is gone.\<close>

theorem client_write_error_dangles:
  assumes "cl_alive k" and "cl_data_set k" and "cl_find k = Some a" and "status < 0"
  shows "\<exists>k1 k2. client_on_write_completed status k = Inr k1 \<and> UvClose 0 \<in> set (cl_calls k1) \<and> unified_close_cb k1 = Inr k2
    \<and> (\<forall>mg same. client_pusher_round same (k2\<lparr>cl_manager := mg\<rparr>) = Inl Dangling)"
proof -
  obtain k1 where k1: "client_on_write_completed status k = Inr k1" "cl_alive k1" "cl_data_set k1" "UvClose 0 \<in> set (cl_calls k1)"
    using assms by (simp add: client_on_write_completed_def while_alive_def cl_call_def cl_signal_def cl_update_def)
  then have "unified_close_cb k1 = Inr (k1\<lparr>cl_alive := False\<rparr>)" by (simp add: unified_close_cb_def while_alive_def)
  with k1 show ?thesis by (auto simp: client_pusher_round_def)
qed

text \<open>A client that is connected under the descriptor 7.\<close>

lemma farewell_client:
  "\<exists>k. on_connect_client_cb (\<lambda>_. []) farewell False 0 (Some 7) init_client_runner = Inr k
     \<and> cl_alive k \<and> cl_data_set k \<and> cl_find k = Some 0 \<and> cl_pusher_started k"
  by (simp add: on_connect_client_cb_def init_client_runner_def while_alive_def and_then_def set_connection_result_def Let_def
      insert_interpreter_def farewell_instance do_transaction_def insert_function_def mg_notify_def cl_call_def cl_find_def)

theorem client_write_error_dangles_witness:
  "\<exists>k k1 k2. on_connect_client_cb (\<lambda>_. []) farewell False 0 (Some 7) init_client_runner = Inr k \<and> cl_pusher_started k
     \<and> client_on_write_completed (- 32) k = Inr k1 \<and> unified_close_cb k1 = Inr k2 \<and> client_pusher_round True k2 = Inl Dangling"
proof -
  obtain k where k: "on_connect_client_cb (\<lambda>_. []) farewell False 0 (Some 7) init_client_runner = Inr k" "cl_pusher_started k"
      "cl_alive k" "cl_data_set k" "cl_find k = Some 0"
    using farewell_client by blast
  from client_write_error_dangles [OF k(3-5), of "- 32"] obtain k1 k2 where
    k2: "client_on_write_completed (- 32) k = Inr k1" "unified_close_cb k1 = Inr k2"
      "\<forall>mg same. client_pusher_round same (k2\<lparr>cl_manager := mg\<rparr>) = Inl Dangling"
    by auto
  have "client_pusher_round True (k2\<lparr>cl_manager := cl_manager k2\<rparr>) = Inl Dangling" using k2(3) by blast
  then have "client_pusher_round True k2 = Inl Dangling" by simp
  with k k2 show ?thesis by blast
qed

end
