(* ===== verification/LibuvClientWrapper.thy ===== *)
theory LibuvClientWrapper
  imports LibuvClientRunner
begin

text \<open>
  The client with its threads (\<open>networkprotocoldsl_uv/libuvclientwrapper.cpp\<close>): a runner of one
  connection, and the threads of the interpreter loop and of the callback loop, which end when
  nothing is left to run and \<open>exit_when_done\<close> is set.
\<close>

section \<open>State\<close>

datatype loop_thread = NotStarted | LoopRunning | LoopEnded

text \<open>\<open>cw_started\<close>: \<open>uv_client_runner_\<close> is there. The manager is the one of \<open>cw_client\<close>.\<close>

record client_wrapper =
  cw_client :: client_runner
  cw_started :: bool
  cw_exit_when_done :: bool
  cw_interpreter_thread :: loop_thread
  cw_callback_thread :: loop_thread

definition new_client_wrapper :: client_wrapper where
  "new_client_wrapper =
     \<lparr>cw_client = init_client_runner, cw_started = False, cw_exit_when_done = False,
      cw_interpreter_thread = NotStarted, cw_callback_thread = NotStarted\<rparr>"

text \<open>Assigning to a thread that is joinable terminates the program.\<close>

definition client_start :: "client_wrapper \<Rightarrow> server_fault + client_wrapper" where
  "client_start w =
     (if cw_interpreter_thread w \<noteq> NotStarted then Inl NoReturn
      else map_sum id (\<lambda>k. w\<lparr>cw_client := k, cw_started := True, cw_interpreter_thread := LoopRunning,
             cw_callback_thread := LoopRunning\<rparr>)
        (connect_client (cw_client w)))"

definition wake_everything :: "client_wrapper \<Rightarrow> client_wrapper" where
  "wake_everything w = w\<lparr>cw_exit_when_done := True, cw_client := cl_signal notify_everything (cw_client w)\<rparr>"

text \<open>The future of a runner that is not there is a reference through a null pointer.\<close>

definition client_result_of :: "client_wrapper \<Rightarrow> server_fault + client_wrapper" where
  "client_result_of w = (if cw_started w then Inr (wake_everything w) else Inl Dangling)"

text \<open>The destructor as far as its joins, and whether they return.\<close>

definition client_destroy :: "client_wrapper \<Rightarrow> client_wrapper" where
  "client_destroy w = wake_everything w"

definition client_joined :: "client_wrapper \<Rightarrow> bool" where
  "client_joined w \<longleftrightarrow> cw_interpreter_thread w \<noteq> LoopRunning \<and> cw_callback_thread w \<noteq> LoopRunning"

section \<open>The threads\<close>

text \<open>A turn of each loop, which ends its thread when the loop breaks.\<close>

definition update_collection :: "context_store \<Rightarrow> interpreter_signals \<Rightarrow> client_runner \<Rightarrow> client_runner" where
  "update_collection store signals k =
     k\<lparr>cl_manager := (cl_manager k)\<lparr>mg_store := store, mg_collection := (mg_collection (cl_manager k))\<lparr>signals_of := signals\<rparr>\<rparr>\<rparr>"

definition interpreter_turn :: "client_wrapper \<Rightarrow> client_wrapper checked" where
  "interpreter_turn w =
     (let mg = cl_manager (cw_client w) in
      if cw_interpreter_thread w \<noteq> LoopRunning then Inr w
      else map_sum id (\<lambda>(d, store, signals).
          w\<lparr>cw_client := update_collection store signals (cw_client w),
            cw_interpreter_thread := (if d = LoopBreak then LoopEnded else LoopRunning)\<rparr>)
        (interpreter_round (cw_exit_when_done w) True (interpreters (mg_collection mg)) (mg_store mg)
          (signals_of (mg_collection mg))))"

definition callback_turn :: "callback_map \<Rightarrow> client_wrapper \<Rightarrow> client_wrapper" where
  "callback_turn callbacks w =
     (let mg = cl_manager (cw_client w) in
      if cw_callback_thread w \<noteq> LoopRunning then w
      else case callback_round callbacks (cw_exit_when_done w) True (interpreters (mg_collection mg)) (mg_store mg)
          (signals_of (mg_collection mg)) of
        (d, store, signals) \<Rightarrow>
          w\<lparr>cw_client := update_collection store signals (cw_client w),
            cw_callback_thread := (if d = LoopBreak then LoopEnded else LoopRunning)\<rparr>)"

text \<open>
  What happens to a client: libuv calls back, the loop does its work, the pusher thread and the
  two loops take their turns.
\<close>

inductive client_step :: "callback_map \<Rightarrow> client_wrapper \<Rightarrow> client_wrapper \<Rightarrow> bool" for callbacks :: callback_map where
  input: "client_on_read_cb n data (cw_client w) = Inr k \<Longrightarrow> client_step callbacks w (w\<lparr>cw_client := k\<rparr>)"
| written: "client_on_write_completed status (cw_client w) = Inr k \<Longrightarrow> client_step callbacks w (w\<lparr>cw_client := k\<rparr>)"
| closed: "unified_close_cb (cw_client w) = Inr k \<Longrightarrow> client_step callbacks w (w\<lparr>cw_client := k\<rparr>)"
| work: "client_process_work (cw_client w) = Inr k \<Longrightarrow> client_step callbacks w (w\<lparr>cw_client := k\<rparr>)"
| push: "client_pusher_round same (cw_client w) = Inr (d, k) \<Longrightarrow> client_step callbacks w (w\<lparr>cw_client := k\<rparr>)"
| interpreted: "interpreter_turn w = Inr w' \<Longrightarrow> client_step callbacks w w'"
| callback: "client_step callbacks w (callback_turn callbacks w)"
| destroy: "client_step callbacks w (client_destroy w)"

section \<open>A result that is asked for before the connection\<close>

text \<open>A client whose loops have ended and whose interpreter, at \<open>a\<close>, has not run to its end.\<close>

definition unserved :: "nat \<Rightarrow> client_wrapper \<Rightarrow> bool" where
  "unserved a w \<longleftrightarrow> cw_interpreter_thread w = LoopEnded \<and> cw_callback_thread w = LoopEnded
     \<and> cl_find (cw_client w) = Some a \<and> a < length (mg_store (cl_manager (cw_client w)))
     \<and> \<not> cx_exited (mg_store (cl_manager (cw_client w)) ! a) \<and> cl_client_result (cw_client w) = None"

text \<open>What a step of the loop thread or of the pusher keeps of the runner.\<close>

definition keeps :: "client_runner \<Rightarrow> client_runner \<Rightarrow> bool" where
  "keeps k k' \<longleftrightarrow> cl_find k' = cl_find k \<and> cl_client_result k' = cl_client_result k
     \<and> length (mg_store (cl_manager k')) = length (mg_store (cl_manager k))
     \<and> (\<forall>a. a < length (mg_store (cl_manager k)) \<longrightarrow>
          cx_exited (mg_store (cl_manager k') ! a) = cx_exited (mg_store (cl_manager k) ! a))"

lemma keeps_refl [simp]: "keeps k k"
  by (simp add: keeps_def)

lemma keeps_trans: "keeps k k' \<Longrightarrow> keeps k' k'' \<Longrightarrow> keeps k k''"
  by (simp add: keeps_def)

lemma keeps_simps [simp]:
  "keeps k (cl_call calls k)" "keeps k (cl_signal f k)" "keeps k (k\<lparr>cl_work := q\<rparr>)" "keeps k (k\<lparr>cl_connecting := b\<rparr>)"
  "keeps k (k\<lparr>cl_alive := b\<rparr>)"
  by (simp_all add: keeps_def cl_call_def cl_signal_def cl_find_def)

lemma keeps_update: "(\<And>x. cx_exited (f x) = cx_exited x) \<Longrightarrow> keeps k (cl_update a f k)"
proof -
  assume f: "\<And>x. cx_exited (f x) = cx_exited x"
  have "cx_exited (xs[a := f (xs ! a)] ! b) = cx_exited (xs ! b)" if "b < length xs" for xs b
    using that f by (cases "a = b") simp_all
  then show ?thesis by (simp add: keeps_def cl_update_def cl_find_def)
qed

lemma keeps_signalled: "(\<And>x. cx_exited (f x) = cx_exited x) \<Longrightarrow> keeps k (cl_signal g (cl_update a f k))"
  by (rule keeps_trans [OF keeps_update keeps_simps(2)])

lemma keeps_called: "(\<And>x. cx_exited (f x) = cx_exited x) \<Longrightarrow> keeps k (cl_call calls (cl_signal g (cl_update a f k)))"
  by (rule keeps_trans [OF keeps_signalled keeps_simps(1)])

lemma keeps_push: "cl_push x k = Inr k' \<Longrightarrow> keeps k k'"
  by (auto simp: cl_push_def split: sum.splits)

lemma keeps_read: "client_on_read_cb n data k = Inr k' \<Longrightarrow> keeps k k'"
  by (auto simp: client_on_read_cb_def while_alive_def split: option.splits if_splits intro!: keeps_signalled)

lemma keeps_written: "client_on_write_completed status k = Inr k' \<Longrightarrow> keeps k k'"
  by (auto simp: client_on_write_completed_def while_alive_def split: option.splits if_splits intro!: keeps_called)

lemma keeps_closed: "unified_close_cb k = Inr k' \<Longrightarrow> keeps k k'"
  by (auto simp: unified_close_cb_def while_alive_def split: if_splits)

lemma keeps_run_work: "client_run_work x k = Inr k' \<Longrightarrow> keeps k k'"
  by (cases x) (auto simp: while_alive_def split: if_splits)

lemma keeps_process_items: "process_items client_run_work xs q k = Inr (q', k') \<Longrightarrow> keeps k k'"
proof (induction client_run_work xs q k rule: process_items.induct)
  case (2 w items q k)
  then show ?case by (auto split: sum.splits intro: keeps_trans [OF keeps_run_work])
qed auto

lemma keeps_work: "client_process_work k = Inr k' \<Longrightarrow> keeps k k'"
  by (auto simp: client_process_work_def process_def map_sum_def split: sum.splits
      intro: keeps_trans [OF keeps_process_items keeps_simps(3)])

lemma keeps_drain: "client_drain q k = Inr k' \<Longrightarrow> keeps k k'"
  by (induction q k rule: client_drain.induct)
     (auto simp: and_then_def split: sum.splits intro: keeps_trans [OF keeps_push])

text \<open>The pusher thread passes a result on only when the interpreter has exited.\<close>

lemma keeps_pusher:
  assumes "client_pusher_round same k = Inr (d, k')" and "cl_find k = Some a" and "\<not> cx_exited (mg_store (cl_manager k) ! a)"
  shows "keeps k k'"
proof -
  from assms have "client_drain (cx_output_buffer (mg_store (cl_manager k) ! a))
      (cl_update a (\<lambda>x. x\<lparr>cx_output_buffer := []\<rparr>) k) = Inr k'"
    by (auto simp: client_pusher_round_def Let_def map_sum_def split: if_splits sum.splits)
  then have "keeps (cl_update a (\<lambda>x. x\<lparr>cx_output_buffer := []\<rparr>) k) k'" by (rule keeps_drain)
  with keeps_update [of "\<lambda>x. x\<lparr>cx_output_buffer := []\<rparr>" k a] show ?thesis by (simp add: keeps_trans)
qed

lemma unserved_keeps: "unserved a w \<Longrightarrow> keeps (cw_client w) k \<Longrightarrow> unserved a (w\<lparr>cw_client := k\<rparr>)"
  by (simp add: unserved_def keeps_def)

lemma unserved_step:
  assumes "client_step callbacks w w'" and "unserved a w"
  shows "unserved a w'"
  using assms
proof cases
  case (push same d k)
  then show ?thesis using assms(2) keeps_pusher by (auto simp: unserved_def keeps_def)
next
  case interpreted
  with assms(2) show ?thesis by (simp add: interpreter_turn_def unserved_def)
next
  case callback
  with assms(2) show ?thesis by (simp add: callback_turn_def unserved_def)
next
  case destroy
  with assms(2) show ?thesis
    by (simp add: client_destroy_def wake_everything_def unserved_def cl_signal_def cl_find_def)
qed (auto intro: unserved_keeps [OF assms(2)] keeps_read keeps_written keeps_closed keeps_work)


text \<open>
  \<open>result\<close> is called after \<open>start\<close> and before the connection is there: the loops find nothing to
  run and end. The connection that comes then has an interpreter that nobody runs, and the
  caller, who was told that the connection stands, waits for a result that never comes.
\<close>

lemma loops_end:
  assumes "cw_exit_when_done w" and "interpreters (mg_collection (cl_manager (cw_client w))) = []"
    and "cw_interpreter_thread w = LoopRunning" and "cw_callback_thread w = LoopRunning"
  shows "\<exists>w1. interpreter_turn w = Inr w1 \<and> cw_interpreter_thread (callback_turn callbacks w1) = LoopEnded
    \<and> cw_callback_thread (callback_turn callbacks w1) = LoopEnded"
  using assms by (simp add: interpreter_turn_def callback_turn_def interpreter_round_def callback_round_def chk_bind_def
      update_collection_def Let_def)

theorem early_result_never_comes:
  assumes loops: "cw_interpreter_thread w = LoopEnded" "cw_callback_thread w = LoopEnded"
    and pending: "cl_alive (cw_client w)" "cl_connection_result (cw_client w) = None" "cl_client_result (cw_client w) = None"
    and connected: "on_connect_client_cb uv_strerror program erange status fileno (cw_client w) = Inr k"
      "cl_connection_result k = Some (Inr fd)"
    and later: "(client_step callbacks)\<^sup>*\<^sup>* (w\<lparr>cw_client := k\<rparr>) w'"
  shows "cl_client_result (cw_client w') = None \<and> client_joined w'"
proof -
  let ?a = "length (mg_store (cl_manager (cw_client w)))"
  have "unserved ?a (w\<lparr>cw_client := k\<rparr>)"
    using connected pending loops
    by (auto simp: unserved_def on_connect_client_cb_def while_alive_def and_then_def set_connection_result_def
        set_client_result_def cl_call_def cl_find_def Let_def insert_interpreter_def chk_bind_eq_Inr do_transaction_def
        insert_function_def mg_notify_def new_context_def nth_append split: if_splits option.splits sum.splits prod.splits bool.splits)
  with later have "unserved ?a w'"
    by (induction rule: rtranclp_induct) (auto intro: unserved_step)
  then show ?thesis by (simp add: unserved_def client_joined_def)
qed

end
