(* ===== verification/SmtpProtocol.thy ===== *)
theory SmtpProtocol
  imports ParseTree
begin

text \<open>
  The protocol of the SMTP servers of \<open>src/examples\<close>, \<open>smtpserver/smtp.networkprotocoldsl\<close>, as the
  parse tree of its text: its messages in the order of the file.
\<close>

section \<open>Types and parts\<close>

definition plain_type :: "string \<Rightarrow> ptype" where
  "plain_type n = Type (IdentifierReference n None) []"

definition ascii_str :: "int32 \<Rightarrow> ptype" where
  "ascii_str n = Type (IdentifierReference ''str'' None)
     (map_of_pairs [(''encoding'', TypeValue (plain_type ''Ascii7Bit'')), (''sizing'', TypeValue (plain_type ''Dynamic'')),
        (''max_length'', IntegerLiteral n)])"

definition ascii_int8 :: ptype where
  "ascii_int8 = Type (IdentifierReference ''int'' None)
     (map_of_pairs [(''encoding'', TypeValue (plain_type ''AsciiInt'')), (''unsigned'', BooleanLiteral True),
        (''bits'', IntegerLiteral 8)])"

definition recipient_strings :: ptype where
  "recipient_strings = Type (IdentifierReference ''array'' None) (map_of_pairs [(''element_type'', TypeValue (ascii_str 32768))])"

definition recipient_tuples :: ptype where
  "recipient_tuples = Type (IdentifierReference ''array'' None)
     (map_of_pairs [(''element_type'', TypeValue (Type (IdentifierReference ''tuple'' None)
          (map_of_pairs [(''recipient'', TypeValue (ascii_str 32768)), (''parameters'', TypeValue (ascii_str 32768))]))),
        (''sizing'', TypeValue (plain_type ''Dynamic'')), (''max_length'', IntegerLiteral 100)])"

definition crlf :: string where
  "crlf = [CHR 0x0D, CHR 0x0A]"

definition field :: "string \<Rightarrow> token_part" where
  "field n = TokenIdentifier (IdentifierReference n None)"

definition tokens :: "token_part list \<Rightarrow> message_part" where
  "tokens ps = PartTokens \<lparr>ts_tokens = ps, ts_terminator = None, ts_escape = None\<rparr>"

definition tokens_until :: "string \<Rightarrow> string \<Rightarrow> string \<Rightarrow> token_part list \<Rightarrow> message_part" where
  "tokens_until t c s ps =
     PartTokens \<lparr>ts_tokens = ps, ts_terminator = Some t, ts_escape = Some \<lparr>er_character = c, er_sequence = s\<rparr>\<rparr>"

definition smtp_message ::
  "string \<Rightarrow> string \<Rightarrow> string \<Rightarrow> string \<Rightarrow> (string \<times> ptype) list \<Rightarrow> message_part list \<Rightarrow> message" where
  "smtp_message n w t a d ps =
     \<lparr>msg_name = n, msg_when = IdentifierReference w None, msg_then = IdentifierReference t None,
      msg_agent = IdentifierReference a None, msg_data = map_of_pairs d, msg_parts = ps\<rparr>"

section \<open>Messages\<close>

definition smtp_server_greeting :: message where
  "smtp_server_greeting = smtp_message ''SMTP Server Greeting'' ''Open'' ''ClientSendEHLO'' ''Server''
     [(''code_tens'', ascii_int8), (''msg'', ascii_str 1024)]
     [tokens [TokenString ''2'', field ''code_tens'', TokenString '' '', field ''msg''], PartTerminator crlf]"

definition smtp_ehlo_command :: message where
  "smtp_ehlo_command = smtp_message ''SMTP EHLO Command'' ''ClientSendEHLO'' ''AwaitServerEHLOResponse'' ''Client''
     [(''client_domain'', ascii_str 256)]
     [tokens [TokenString ''EHLO '', field ''client_domain''], PartTerminator crlf]"

definition smtp_ehlo_success_response :: message where
  "smtp_ehlo_success_response = smtp_message ''SMTP EHLO Success Response''
     ''AwaitServerEHLOResponse'' ''ClientSendCommand'' ''Server''
     [(''client_domain'', ascii_str 256), (''code_tens'', ascii_int8), (''msg'', ascii_str 1024)]
     [tokens [TokenString ''2'', field ''code_tens''], PartTerminator '' '', tokens [field ''msg''], PartTerminator crlf]"

definition smtp_ehlo_failure_response :: message where
  "smtp_ehlo_failure_response = smtp_message ''SMTP EHLO Failure Response''
     ''AwaitServerEHLOResponse'' ''ClientSendEHLO'' ''Server''
     [(''code_tens'', ascii_int8), (''msg'', ascii_str 1024)]
     [tokens [TokenString ''5'', field ''code_tens''], PartTerminator '' '', tokens [field ''msg''], PartTerminator crlf]"

definition smtp_mail_from_command :: message where
  "smtp_mail_from_command = smtp_message ''SMTP MAIL FROM Command''
     ''ClientSendCommand'' ''AwaitServerMAILFROMResponse'' ''Client''
     [(''client_domain'', ascii_str 256), (''sender'', ascii_str 320)]
     [tokens [TokenString ''MAIL FROM:<'', field ''sender'', TokenString ''>''], PartTerminator crlf]"

definition smtp_mail_from_success_response :: message where
  "smtp_mail_from_success_response = smtp_message ''SMTP MAIL FROM Success Response''
     ''AwaitServerMAILFROMResponse'' ''ClientSendFirstRCPTTO'' ''Server''
     [(''client_domain'', ascii_str 256), (''sender'', ascii_str 320), (''code_tens'', ascii_int8),
      (''msg'', ascii_str 1024)]
     [tokens [TokenString ''2'', field ''code_tens''], PartTerminator '' '', tokens [field ''msg''], PartTerminator crlf]"

definition smtp_mail_from_failure_response :: message where
  "smtp_mail_from_failure_response = smtp_message ''SMTP MAIL FROM Failure Response''
     ''AwaitServerMAILFROMResponse'' ''ClientSendCommand'' ''Server''
     [(''client_domain'', ascii_str 256), (''code_tens'', ascii_int8), (''msg'', ascii_str 1024)]
     [tokens [TokenString ''5'', field ''code_tens''], PartTerminator '' '', tokens [field ''msg''], PartTerminator crlf]"

definition smtp_rcpt_to_command :: message where
  "smtp_rcpt_to_command = smtp_message ''SMTP RCPT TO Command''
     ''ClientSendFirstRCPTTO'' ''AwaitServerRCPTTOResponse'' ''Client''
     [(''client_domain'', ascii_str 256), (''sender'', ascii_str 320), (''recipient'', ascii_str 320),
      (''rcpt_to_params'', ascii_str 256),
      (''recipient_list'', recipient_strings)]
     [tokens [TokenString ''RCPT TO:<'', field ''recipient'', TokenString ''>''], PartTerminator crlf]"

definition smtp_rcpt_to_success_response :: message where
  "smtp_rcpt_to_success_response = smtp_message ''SMTP RCPT TO Success Response''
     ''AwaitServerRCPTTOResponse'' ''ClientSendMoreRCPTTOorDATA'' ''Server''
     [(''client_domain'', ascii_str 256), (''sender'', ascii_str 320), (''mail_from_params'', ascii_str 256),
      (''recipient_list'', recipient_tuples), (''code_tens'', ascii_int8), (''msg'', ascii_str 1024)]
     [tokens [TokenString ''2'', field ''code_tens''], PartTerminator '' '', tokens [field ''msg''], PartTerminator crlf]"

definition smtp_additional_rcpt_to_command :: message where
  "smtp_additional_rcpt_to_command = smtp_message ''Additional SMTP RCPT TO Command''
     ''ClientSendMoreRCPTTOorDATA'' ''AwaitServerRCPTTOResponse'' ''Client''
     [(''client_domain'', ascii_str 256), (''sender'', ascii_str 320), (''mail_from_params'', ascii_str 256),
      (''recipient'', ascii_str 320), (''rcpt_to_params'', ascii_str 256),
      (''recipient_list'', recipient_tuples)]
     [tokens [TokenString ''RCPT TO:<'', field ''recipient'', TokenString ''>'', field ''rcpt_to_params''], PartTerminator crlf]"

definition smtp_rcpt_to_failure_response :: message where
  "smtp_rcpt_to_failure_response = smtp_message ''SMTP RCPT TO Failure Response''
     ''AwaitServerRCPTTOResponse'' ''ClientSendMoreRCPTTOorDATA'' ''Server''
     [(''client_domain'', ascii_str 256), (''sender'', ascii_str 320),
      (''recipient_list'', recipient_strings), (''code_tens'', ascii_int8), (''msg'', ascii_str 1024)]
     [tokens [TokenString ''5'', field ''code_tens''], PartTerminator '' '', tokens [field ''msg''], PartTerminator crlf]"

definition smtp_data_command :: message where
  "smtp_data_command = smtp_message ''SMTP DATA Command''
     ''ClientSendMoreRCPTTOorDATA'' ''AwaitServerDATAResponse'' ''Client''
     [(''client_domain'', ascii_str 256), (''sender'', ascii_str 320),
      (''recipient_list'', recipient_strings)]
     [tokens [TokenString ''DATA''], PartTerminator crlf]"

definition smtp_data_response :: message where
  "smtp_data_response = smtp_message ''SMTP DATA Response''
     ''AwaitServerDATAResponse'' ''ClientSendDATAContent'' ''Server''
     [(''client_domain'', ascii_str 256), (''sender'', ascii_str 320),
      (''recipient_list'', recipient_strings), (''code_tens'', ascii_int8), (''msg'', ascii_str 1024)]
     [tokens [TokenString ''3'', field ''code_tens''], PartTerminator '' '', tokens [field ''msg''], PartTerminator crlf]"

definition smtp_data_failure_response :: message where
  "smtp_data_failure_response = smtp_message ''SMTP DATA Failure Response''
     ''AwaitServerDATAResponse'' ''ClientSendMoreRCPTTOorDATA'' ''Server''
     [(''client_domain'', ascii_str 256), (''sender'', ascii_str 320),
      (''recipient_list'', recipient_strings), (''code_tens'', ascii_int8), (''msg'', ascii_str 1024)]
     [tokens [TokenString ''3'', field ''code_tens''], PartTerminator '' '', tokens [field ''msg''], PartTerminator crlf]"

definition smtp_data_content :: message where
  "smtp_data_content = smtp_message ''SMTP DATA Content''
     ''ClientSendDATAContent'' ''AwaitServerDATAContentResponse'' ''Client''
     [(''client_domain'', ascii_str 256), (''sender'', ascii_str 320),
      (''recipient_list'', recipient_strings), (''content'', ascii_str 65536)]
     [tokens_until (crlf @ [CHR 0x2E] @ crlf) (crlf @ [CHR 0x2E]) (crlf @ [CHR 0x2E, CHR 0x2E]) [field ''content'']]"

definition smtp_data_written :: message where
  "smtp_data_written = smtp_message ''SMTP DATA Written''
     ''AwaitServerDATAContentResponse'' ''ClientSendCommand'' ''Server''
     [(''client_domain'', ascii_str 256), (''code_tens'', ascii_int8), (''msg'', ascii_str 1024)]
     [tokens [TokenString ''2'', field ''code_tens''], PartTerminator '' '', tokens [field ''msg''], PartTerminator crlf]"

definition smtp_quit_command_from_ehlo :: message where
  "smtp_quit_command_from_ehlo = smtp_message ''SMTP QUIT Command from EHLO''
     ''ClientSendEHLO'' ''AwaitServerQUITResponse'' ''Client''
     [(''client_domain'', ascii_str 256)]
     [tokens [TokenString ''QUIT''], PartTerminator crlf]"

definition smtp_quit_command :: message where
  "smtp_quit_command = smtp_message ''SMTP QUIT Command'' ''ClientSendCommand'' ''AwaitServerQUITResponse'' ''Client''
     [(''client_domain'', ascii_str 256)]
     [tokens [TokenString ''QUIT''], PartTerminator crlf]"

definition smtp_quit_command_from_first_rcptto :: message where
  "smtp_quit_command_from_first_rcptto = smtp_message ''SMTP QUIT Command from First RCPTTO''
     ''ClientSendFirstRCPTTO'' ''AwaitServerQUITResponse'' ''Client''
     [(''client_domain'', ascii_str 256)]
     [tokens [TokenString ''QUIT''], PartTerminator crlf]"

definition smtp_quit_command_from_rcptto_or_data :: message where
  "smtp_quit_command_from_rcptto_or_data = smtp_message ''SMTP QUIT Command from RCPTTO or DATA''
     ''ClientSendMoreRCPTTOorDATA'' ''AwaitServerQUITResponse'' ''Client''
     [(''client_domain'', ascii_str 256)]
     [tokens [TokenString ''QUIT''], PartTerminator crlf]"

definition smtp_quit_response :: message where
  "smtp_quit_response = smtp_message ''SMTP QUIT Response'' ''AwaitServerQUITResponse'' ''Closed'' ''Server''
     [(''code_tens'', ascii_int8), (''msg'', ascii_str 1024)]
     [tokens [TokenString ''2'', field ''code_tens''], PartTerminator '' '', tokens [field ''msg''], PartTerminator crlf]"

definition smtp_messages :: "message list" where
  "smtp_messages =
     [smtp_server_greeting, smtp_ehlo_command, smtp_ehlo_success_response, smtp_ehlo_failure_response,
      smtp_mail_from_command, smtp_mail_from_success_response, smtp_mail_from_failure_response,
      smtp_rcpt_to_command, smtp_rcpt_to_success_response, smtp_additional_rcpt_to_command,
      smtp_rcpt_to_failure_response, smtp_data_command, smtp_data_response, smtp_data_failure_response,
      smtp_data_content, smtp_data_written, smtp_quit_command_from_ehlo, smtp_quit_command,
      smtp_quit_command_from_first_rcptto, smtp_quit_command_from_rcptto_or_data, smtp_quit_response]"

definition smtp_protocol :: protocol_description where
  "smtp_protocol = map_of_pairs (map (\<lambda>m. (msg_name m, m)) smtp_messages)"

lemmas smtp_message_defs =
  smtp_server_greeting_def smtp_ehlo_command_def smtp_ehlo_success_response_def
  smtp_ehlo_failure_response_def smtp_mail_from_command_def smtp_mail_from_success_response_def
  smtp_mail_from_failure_response_def smtp_rcpt_to_command_def smtp_rcpt_to_success_response_def
  smtp_additional_rcpt_to_command_def smtp_rcpt_to_failure_response_def smtp_data_command_def
  smtp_data_response_def smtp_data_failure_response_def smtp_data_content_def smtp_data_written_def
  smtp_quit_command_from_ehlo_def smtp_quit_command_def smtp_quit_command_from_first_rcptto_def
  smtp_quit_command_from_rcptto_or_data_def smtp_quit_response_def

end
