(* ===== verification/SmtpServer.thy ===== *)
theory SmtpServer
  imports Runner SmtpProtocol
begin

text \<open>
  The interpreted SMTP server of \<open>src/examples/smtpserver\<close>: the callbacks that
  \<open>server_processor.cpp\<close> gives to the interpreter, a function of the arguments for each state
  that the server sends from, and the configuration they look at (\<open>server_core.cpp\<close>). The clock
  and what opening a file comes to are arguments. An exception is a value of \<open>callback_error\<close>:
  nothing catches it, so the program ends.
\<close>

section \<open>Configuration\<close>

record server_configuration =
  sc_server_name :: string
  sc_valid_recipients :: "string \<rightharpoonup> string set"
  sc_blocked_senders :: "string \<rightharpoonup> string set"
  sc_blocked_client_domains :: "string set"
  sc_maildir :: string

datatype callback_error = InvalidArgument | OutOfRange | BadVariantAccess | NoArgument | ValidationError

text \<open>Monadic composition of what may throw.\<close>

definition or_throw :: "callback_error + 'a \<Rightarrow> ('a \<Rightarrow> callback_error + 'b) \<Rightarrow> callback_error + 'b" where
  "or_throw m f = (case m of Inl e \<Rightarrow> Inl e | Inr x \<Rightarrow> f x)"

lemma or_throw_simps [simp]: "or_throw (Inl e) f = Inl e" "or_throw (Inr x) f = f x"
  by (simp_all add: or_throw_def)

lemma or_throw_eq_Inr: "or_throw m f = Inr y \<longleftrightarrow> (\<exists>x. m = Inr x \<and> f x = Inr y)"
  by (cases m) simp_all

text \<open>\<open>find('@')\<close> and the two halves.\<close>

definition split_at_sign :: "string \<Rightarrow> (string \<times> string) option" where
  "split_at_sign email =
     (if CHR ''@'' \<in> set email
      then Some (takeWhile (\<lambda>c. c \<noteq> CHR ''@'') email, tl (dropWhile (\<lambda>c. c \<noteq> CHR ''@'') email))
      else None)"

definition split_email :: "string \<Rightarrow> callback_error + string \<times> string" where
  "split_email email = (case split_at_sign email of None \<Rightarrow> Inl InvalidArgument | Some p \<Rightarrow> Inr p)"

text \<open>\<open>map[domain].insert(user)\<close>.\<close>

definition insert_user :: "string \<Rightarrow> string \<Rightarrow> (string \<rightharpoonup> string set) \<Rightarrow> (string \<rightharpoonup> string set)" where
  "insert_user d u m = m(d \<mapsto> insert u (case m d of None \<Rightarrow> {} | Some us \<Rightarrow> us))"

definition parse_email_list :: "string \<Rightarrow> (string \<rightharpoonup> string set) \<Rightarrow> callback_error + (string \<rightharpoonup> string set)" where
  "parse_email_list str m =
     (case split_at_sign str of None \<Rightarrow> Inl ValidationError | Some (u, d) \<Rightarrow> Inr (insert_user d u m))"

definition has_user :: "(string \<rightharpoonup> string set) \<Rightarrow> string \<times> string \<Rightarrow> bool" where
  "has_user m p = (case m (snd p) of None \<Rightarrow> False | Some us \<Rightarrow> fst p \<in> us)"

text \<open>What \<open>main_server\<close> starts from, before the command line.\<close>

definition sample_configuration :: server_configuration where
  "sample_configuration =
     \<lparr>sc_server_name = ''testsrv'',
      sc_valid_recipients = insert_user ''other.com'' ''user3'' (insert_user ''example.com'' ''user2''
        (insert_user ''example.com'' ''user1'' Map.empty)),
      sc_blocked_senders = insert_user ''bad.com'' ''user'' Map.empty,
      sc_blocked_client_domains = {''bad.com''},
      sc_maildir = ''./maildir/''\<rparr>"

section \<open>Values\<close>

definition first_argument :: "value list \<Rightarrow> callback_error + value" where
  "first_argument args = (case args of [] \<Rightarrow> Inl NoArgument | v # vs \<Rightarrow> Inr v)"

definition get_dictionary :: "value \<Rightarrow> callback_error + dictionary" where
  "get_dictionary v = (case v of VDictionary d \<Rightarrow> Inr d | _ \<Rightarrow> Inl BadVariantAccess)"

definition get_octets :: "value \<Rightarrow> callback_error + octets" where
  "get_octets v = (case v of VOctets s \<Rightarrow> Inr s | _ \<Rightarrow> Inl BadVariantAccess)"

definition get_dynamic_list :: "value \<Rightarrow> callback_error + value list" where
  "get_dynamic_list v = (case v of VDynamicList vs \<Rightarrow> Inr vs | _ \<Rightarrow> Inl BadVariantAccess)"

definition member_at :: "dictionary \<Rightarrow> string \<Rightarrow> callback_error + value" where
  "member_at d k = (case d k of None \<Rightarrow> Inl OutOfRange | Some v \<Rightarrow> Inr v)"

definition octets_at :: "dictionary \<Rightarrow> string \<Rightarrow> callback_error + octets" where
  "octets_at d k = or_throw (member_at d k) get_octets"

definition message_dictionary :: "value list \<Rightarrow> callback_error + dictionary" where
  "message_dictionary args = or_throw (first_argument args) get_dictionary"

text \<open>The name of a message and its data.\<close>

definition answer_with :: "string \<Rightarrow> (string \<times> value) list \<Rightarrow> value" where
  "answer_with n kvs = VDynamicList [VOctets n, VDictionary (map_of kvs)]"

section \<open>The callbacks\<close>

definition on_open :: "server_configuration \<Rightarrow> value list \<Rightarrow> callback_error + value" where
  "on_open config args =
     Inr (answer_with ''SMTP Server Greeting''
       [(''code_tens'', VInt 22), (''msg'', VOctets ''Welcome to the SMTP server'')])"

definition on_await_ehlo :: "server_configuration \<Rightarrow> value list \<Rightarrow> callback_error + value" where
  "on_await_ehlo config args =
     or_throw (message_dictionary args) (\<lambda>d.
     or_throw (member_at d ''client_domain'') (\<lambda>client_domain_member.
     or_throw (get_octets client_domain_member) (\<lambda>client_domain.
       Inr (if client_domain \<in> sc_blocked_client_domains config
            then answer_with ''SMTP EHLO Failure Response''
              [(''client_domain'', client_domain_member), (''code_tens'', VInt 55), (''msg'', VOctets ''Bad client, go away!'')]
            else answer_with ''SMTP EHLO Success Response''
              [(''client_domain'', client_domain_member), (''code_tens'', VInt 50),
               (''msg'', VOctets ''Hello, pleased to meet you'')]))))"

definition on_await_mail_from :: "server_configuration \<Rightarrow> value list \<Rightarrow> callback_error + value" where
  "on_await_mail_from config args =
     or_throw (message_dictionary args) (\<lambda>d.
     or_throw (member_at d ''client_domain'') (\<lambda>client_domain.
     or_throw (octets_at d ''sender'') (\<lambda>sender.
     or_throw (split_email sender) (\<lambda>p.
       Inr (if has_user (sc_blocked_senders config) p
            then answer_with ''SMTP MAIL FROM Failure Response''
              [(''client_domain'', client_domain), (''sender'', VOctets sender), (''code_tens'', VInt 55),
               (''msg'', VOctets ''Blocked sender'')]
            else answer_with ''SMTP MAIL FROM Success Response''
              [(''client_domain'', client_domain), (''sender'', VOctets sender), (''code_tens'', VInt 50),
               (''msg'', VOctets ''Sender OK'')])))))"

text \<open>The list with the new recipient: a member that is no list is replaced.\<close>

definition add_recipient :: "dictionary \<Rightarrow> octets \<Rightarrow> value" where
  "add_recipient d recipient =
     (case d ''recipient_list'' of
        Some (VDynamicList vs) \<Rightarrow> VDynamicList (vs @ [VOctets recipient])
      | _ \<Rightarrow> VDynamicList [VOctets recipient])"

definition on_await_rcpt_to :: "server_configuration \<Rightarrow> value list \<Rightarrow> callback_error + value" where
  "on_await_rcpt_to config args =
     or_throw (message_dictionary args) (\<lambda>d.
     or_throw (member_at d ''client_domain'') (\<lambda>client_domain.
     or_throw (member_at d ''sender'') (\<lambda>sender.
     or_throw (octets_at d ''recipient'') (\<lambda>recipient.
     or_throw (split_email recipient) (\<lambda>p.
       Inr (if \<not> has_user (sc_valid_recipients config) p
            then answer_with ''SMTP RCPT TO Failure Response''
              [(''client_domain'', client_domain), (''sender'', sender), (''code_tens'', VInt 55),
               (''msg'', VOctets ''Invalid recipient'')]
            else answer_with ''SMTP RCPT TO Success Response''
              [(''client_domain'', client_domain), (''sender'', sender), (''recipient_list'', add_recipient d recipient),
               (''code_tens'', VInt 50), (''msg'', VOctets ''Recipient OK'')]))))))"

definition on_await_data :: "server_configuration \<Rightarrow> value list \<Rightarrow> callback_error + value" where
  "on_await_data config args =
     or_throw (message_dictionary args) (\<lambda>d.
     or_throw (member_at d ''client_domain'') (\<lambda>client_domain.
     or_throw (member_at d ''sender'') (\<lambda>sender.
     or_throw (member_at d ''recipient_list'') (\<lambda>recipient_list.
       Inr (answer_with ''SMTP DATA Response''
         [(''client_domain'', client_domain), (''sender'', sender), (''recipient_list'', recipient_list),
          (''code_tens'', VInt 54), (''msg'', VOctets ''Start mail input; end with <CRLF>.<CRLF>'')])))))"

definition on_await_quit :: "server_configuration \<Rightarrow> value list \<Rightarrow> callback_error + value" where
  "on_await_quit config args =
     Inr (answer_with ''SMTP QUIT Response''
       [(''code_tens'', VInt 21), (''msg'', VOctets ''Closing connection, goodbye'')])"

definition on_closed :: "server_configuration \<Rightarrow> value list \<Rightarrow> callback_error + value" where
  "on_closed config args = Inr (answer_with ''Closed'' [])"

section \<open>Delivery\<close>

text \<open>
  The directories and files of the mail store. \<open>opens\<close> is whether a path can be opened for writing;
  opening truncates a file that is there. Creating a directory is taken to succeed.
\<close>

record mail_store =
  ms_directories :: "string set"
  ms_files :: "string \<rightharpoonup> string"

definition ensure_directory :: "string \<Rightarrow> mail_store \<Rightarrow> mail_store" where
  "ensure_directory path st = st\<lparr>ms_directories := insert path (ms_directories st)\<rparr>"

text \<open>The accumulation over the parts of a path.\<close>

fun make_maildir :: "string \<Rightarrow> string list \<Rightarrow> mail_store \<Rightarrow> string \<times> mail_store" where
  "make_maildir acc [] st = (acc, st)"
| "make_maildir acc (part # parts) st =
     (let target = acc @ ''/'' @ part in make_maildir target parts (ensure_directory target (ensure_directory acc st)))"

definition mail_file :: "server_configuration \<Rightarrow> nat \<Rightarrow> string \<times> string \<Rightarrow> string" where
  "mail_file config now_ms p =
     sc_maildir config @ ''/'' @ snd p @ ''/'' @ fst p @ ''/new/'' @ decimal_nat now_ms @ ''.mail''"

definition received_content :: "octets \<Rightarrow> octets \<Rightarrow> nat \<Rightarrow> octets \<Rightarrow> octets" where
  "received_content sender client_domain now_time content =
     ''Received: from '' @ sender @ '' by '' @ client_domain @ '' with SMTP; '' @ decimal_nat now_time @ [CHR 0x0A] @ content"

text \<open>The loop over the recipients, as far as it gets: the store, and whether every file was written.\<close>

fun deliver ::
  "server_configuration \<Rightarrow> (string \<Rightarrow> bool) \<Rightarrow> nat \<Rightarrow> octets \<Rightarrow> value list \<Rightarrow> mail_store \<Rightarrow> mail_store \<times> (callback_error + bool)" where
  "deliver config opens now_ms content [] st = (st, Inr True)"
| "deliver config opens now_ms content (r # rs) st =
     (case or_throw (get_octets r) split_email of
        Inl e \<Rightarrow> (st, Inl e)
      | Inr p \<Rightarrow>
          (let (dir, st) = make_maildir (sc_maildir config) [snd p, fst p, ''new''] st;
               path = dir @ ''/'' @ decimal_nat now_ms @ ''.mail'' in
           if \<not> opens path then (st, Inr False)
           else deliver config opens now_ms content rs (st\<lparr>ms_files := (ms_files st)(path \<mapsto> content)\<rparr>)))"

text \<open>What the callback for the content of a message extracts before it delivers.\<close>

definition content_of ::
  "value list \<Rightarrow> callback_error + value \<times> octets \<times> octets \<times> value list \<times> octets" where
  "content_of args =
     or_throw (message_dictionary args) (\<lambda>d.
     or_throw (member_at d ''client_domain'') (\<lambda>client_domain_member.
     or_throw (member_at d ''sender'') (\<lambda>sender_member.
     or_throw (or_throw (member_at d ''recipient_list'') get_dynamic_list) (\<lambda>recipients.
     or_throw (octets_at d ''content'') (\<lambda>content.
     or_throw (get_octets sender_member) (\<lambda>sender.
     or_throw (get_octets client_domain_member) (\<lambda>client_domain.
       Inr (client_domain_member, client_domain, sender, recipients, content))))))))"

definition on_await_data_content ::
  "server_configuration \<Rightarrow> (string \<Rightarrow> bool) \<Rightarrow> nat \<Rightarrow> nat \<Rightarrow> value list \<Rightarrow> mail_store \<Rightarrow> mail_store \<times> (callback_error + value)" where
  "on_await_data_content config opens now_ms now_time args st =
     (case content_of args of
        Inl e \<Rightarrow> (st, Inl e)
      | Inr (client_domain_member, client_domain, sender, recipients, content) \<Rightarrow>
          (case deliver config opens now_ms (received_content sender client_domain now_time content) recipients st of
             (st, Inl e) \<Rightarrow> (st, Inl e)
           | (st, Inr written) \<Rightarrow>
               (st, Inr (if written
                 then answer_with ''SMTP DATA Written''
                   [(''client_domain'', client_domain_member), (''code_tens'', VInt 50), (''msg'', VOctets ''Message accepted for delivery'')]
                 else answer_with ''SMTP DATA Write Error'' [(''client_domain'', client_domain_member)]))))"

text \<open>\<open>get_sever_callbacks\<close>: the callback of a state, on the store; \<open>None\<close> for a state without one.\<close>

definition smtp_callback ::
  "server_configuration \<Rightarrow> (string \<Rightarrow> bool) \<Rightarrow> nat \<Rightarrow> nat \<Rightarrow> string
     \<Rightarrow> (value list \<Rightarrow> mail_store \<Rightarrow> mail_store \<times> (callback_error + value)) option" where
  "smtp_callback config opens now_ms now_time state =
     (let pure = (\<lambda>f. Some (\<lambda>args st. (st, f config args))) in
      if state = ''Open'' then pure on_open
      else if state = ''AwaitServerEHLOResponse'' then pure on_await_ehlo
      else if state = ''AwaitServerMAILFROMResponse'' then pure on_await_mail_from
      else if state = ''AwaitServerRCPTTOResponse'' then pure on_await_rcpt_to
      else if state = ''AwaitServerDATAResponse'' then pure on_await_data
      else if state = ''AwaitServerDATAContentResponse'' then Some (on_await_data_content config opens now_ms now_time)
      else if state = ''AwaitServerQUITResponse'' then pure on_await_quit
      else if state = ''Closed'' then pure on_closed
      else None)"

end
