(* ===== verification/SmtpHandler.thy ===== *)
theory SmtpHandler
  imports SmtpServer
begin

text \<open>
  The SMTP server for generated code, \<open>src/examples/smtpserver_generated/smtp_handler.cpp\<close>: the
  methods of \<open>SMTPHandler\<close>. The records are the structs that the generator writes for the
  messages of the protocol (\<open>SmtpProtocol\<close>), with the members the methods use; the overloads of a
  method are told apart by the message they get. The configuration has the members of the
  interpreted server. A path is a POSIX path; creating directories is taken to succeed.
\<close>

section \<open>Messages of the client\<close>

record mail_from_command =
  mf_client_domain :: string
  mf_sender :: string

record rcpt_to_command =
  rc_client_domain :: string
  rc_sender :: string
  rc_recipient :: string
  rc_recipient_list :: "string list"

text \<open>The element of the lists of tuples.\<close>

record recipient_element =
  re_recipient :: string
  re_parameters :: string

record additional_rcpt_to_command =
  ar_client_domain :: string
  ar_sender :: string
  ar_recipient :: string
  ar_recipient_list :: "recipient_element list"

record data_command =
  dc_client_domain :: string
  dc_sender :: string
  dc_recipient_list :: "string list"

record data_content =
  ct_client_domain :: string
  ct_sender :: string
  ct_recipient_list :: "string list"
  ct_content :: string

section \<open>Messages of the server\<close>

record reply =
  code_tens :: int
  msg :: string

record domain_reply = reply +
  client_domain :: string

record sender_reply = domain_reply +
  sender :: string

record 'r recipients_reply = sender_reply +
  recipient_list :: "'r list"

text \<open>The variants \<open>AwaitServer...ResponseOutput\<close>.\<close>

datatype ehlo_output = EHLOSuccess domain_reply | EHLOFailure reply

datatype mail_from_output = MAILFROMSuccess sender_reply | MAILFROMFailure domain_reply

datatype rcpt_to_output = RCPTTOSuccess "recipient_element recipients_reply" | RCPTTOFailure "string recipients_reply"

section \<open>Addresses\<close>

definition handler_split_email :: "string \<Rightarrow> string \<times> string" where
  "handler_split_email email = (case split_at_sign email of None \<Rightarrow> ([], email) | Some p \<Rightarrow> p)"

definition is_sender_blocked :: "server_configuration \<Rightarrow> string \<Rightarrow> bool" where
  "is_sender_blocked config email = has_user (sc_blocked_senders config) (handler_split_email email)"

definition is_recipient_valid :: "server_configuration \<Rightarrow> string \<Rightarrow> bool" where
  "is_recipient_valid config email = has_user (sc_valid_recipients config) (handler_split_email email)"

section \<open>The methods\<close>

definition handler_on_Open :: "server_configuration \<Rightarrow> reply" where
  "handler_on_Open config = \<lparr>code_tens = 22, msg = ''Welcome to '' @ sc_server_name config\<rparr>"

definition handler_on_ehlo :: "server_configuration \<Rightarrow> string \<Rightarrow> ehlo_output" where
  "handler_on_ehlo config domain =
     (if domain \<in> sc_blocked_client_domains config
      then EHLOFailure \<lparr>code_tens = 55, msg = ''Bad client, go away!''\<rparr>
      else EHLOSuccess \<lparr>code_tens = 50, msg = ''Hello, pleased to meet you'', client_domain = domain\<rparr>)"

definition handler_on_mail_from :: "server_configuration \<Rightarrow> mail_from_command \<Rightarrow> mail_from_output" where
  "handler_on_mail_from config cmd =
     (if is_sender_blocked config (mf_sender cmd)
      then MAILFROMFailure \<lparr>code_tens = 55, msg = ''Blocked sender'', client_domain = mf_client_domain cmd\<rparr>
      else MAILFROMSuccess \<lparr>code_tens = 50, msg = ''Sender OK'', client_domain = mf_client_domain cmd, sender = mf_sender cmd\<rparr>)"

text \<open>The first recipient: the list of the answer has this one only.\<close>

definition handler_on_rcpt_to :: "server_configuration \<Rightarrow> rcpt_to_command \<Rightarrow> rcpt_to_output" where
  "handler_on_rcpt_to config cmd =
     (if \<not> is_recipient_valid config (rc_recipient cmd)
      then RCPTTOFailure \<lparr>code_tens = 55, msg = ''Invalid recipient'', client_domain = rc_client_domain cmd,
             sender = rc_sender cmd, recipient_list = rc_recipient_list cmd\<rparr>
      else RCPTTOSuccess \<lparr>code_tens = 50, msg = ''Recipient OK'', client_domain = rc_client_domain cmd, sender = rc_sender cmd,
             recipient_list = [\<lparr>re_recipient = rc_recipient cmd, re_parameters = []\<rparr>]\<rparr>)"

definition handler_on_additional_rcpt_to :: "server_configuration \<Rightarrow> additional_rcpt_to_command \<Rightarrow> rcpt_to_output" where
  "handler_on_additional_rcpt_to config cmd =
     (if \<not> is_recipient_valid config (ar_recipient cmd)
      then RCPTTOFailure \<lparr>code_tens = 55, msg = ''Invalid recipient'', client_domain = ar_client_domain cmd,
             sender = ar_sender cmd, recipient_list = map re_recipient (ar_recipient_list cmd)\<rparr>
      else RCPTTOSuccess \<lparr>code_tens = 50, msg = ''Recipient OK'', client_domain = ar_client_domain cmd, sender = ar_sender cmd,
             recipient_list = map (\<lambda>r. \<lparr>re_recipient = re_recipient r, re_parameters = re_parameters r\<rparr>) (ar_recipient_list cmd)
               @ [\<lparr>re_recipient = ar_recipient cmd, re_parameters = []\<rparr>]\<rparr>)"

definition handler_on_data :: "data_command \<Rightarrow> string recipients_reply" where
  "handler_on_data cmd =
     \<lparr>code_tens = 54, msg = ''Start mail input; end with <CRLF>.<CRLF>'', client_domain = dc_client_domain cmd,
      sender = dc_sender cmd, recipient_list = dc_recipient_list cmd\<rparr>"

text \<open>Each of the four commands to quit.\<close>

definition handler_on_quit :: reply where
  "handler_on_quit = \<lparr>code_tens = 21, msg = ''Closing connection, goodbye''\<rparr>"

section \<open>Delivery\<close>

text \<open>\<open>operator/=\<close> of \<open>std::filesystem::path\<close>: an absolute path replaces, and a separator is added
  after a file name.\<close>

definition path_append :: "string \<Rightarrow> string \<Rightarrow> string" where
  "path_append p q =
     (if q \<noteq> [] \<and> hd q = CHR ''/'' then q
      else if p \<noteq> [] \<and> last p \<noteq> CHR ''/'' then p @ ''/'' @ q else p @ q)"

definition handler_maildir :: "server_configuration \<Rightarrow> string \<times> string \<Rightarrow> string" where
  "handler_maildir config p = path_append (path_append (path_append (sc_maildir config) (snd p)) (fst p)) ''new''"

definition handler_mail_file :: "server_configuration \<Rightarrow> nat \<Rightarrow> string \<times> string \<Rightarrow> string" where
  "handler_mail_file config now_ms p = path_append (handler_maildir config p) (decimal_nat now_ms @ ''.mail'')"

definition create_directories :: "string \<Rightarrow> mail_store \<Rightarrow> mail_store" where
  "create_directories path st =
     ensure_directory path (fold (\<lambda>i. ensure_directory (take i path)) (filter (\<lambda>i. path ! i = CHR ''/'') [1..<length path]) st)"

text \<open>One recipient: a file that cannot be opened is only reported on the error stream.\<close>

definition handler_write :: "server_configuration \<Rightarrow> (string \<Rightarrow> bool) \<Rightarrow> nat \<Rightarrow> string \<Rightarrow> string \<Rightarrow> mail_store \<Rightarrow> mail_store" where
  "handler_write config opens now_ms content recipient st =
     (let p = handler_split_email recipient;
          st = create_directories (handler_maildir config p) st;
          filename = handler_mail_file config now_ms p in
      if opens filename then st\<lparr>ms_files := (ms_files st)(filename \<mapsto> content)\<rparr> else st)"

definition handler_on_data_content ::
  "server_configuration \<Rightarrow> (string \<Rightarrow> bool) \<Rightarrow> nat \<Rightarrow> nat \<Rightarrow> data_content \<Rightarrow> mail_store \<Rightarrow> mail_store \<times> domain_reply" where
  "handler_on_data_content config opens now_ms now_time ct st =
     (fold (handler_write config opens now_ms (received_content (ct_sender ct) (ct_client_domain ct) now_time (ct_content ct)))
        (ct_recipient_list ct) st,
      \<lparr>code_tens = 50, msg = ''Message accepted for delivery'', client_domain = ct_client_domain ct\<rparr>)"

section \<open>Every answer is one\<close>

lemma files_ensure_directory [simp]: "ms_files (ensure_directory path st) = ms_files st"
  by (simp add: ensure_directory_def)

lemma files_create_directories [simp]: "ms_files (create_directories path st) = ms_files st"
proof -
  have "ms_files (fold (\<lambda>i. ensure_directory (take i path)) is st) = ms_files st" for "is" :: "nat list"
    by (induction "is" arbitrary: st) simp_all
  then show ?thesis by (simp add: create_directories_def)
qed

lemma files_handler_write:
  "ms_files (handler_write config opens now_ms content r st) =
     (let filename = handler_mail_file config now_ms (handler_split_email r) in
      if opens filename then (ms_files st)(filename \<mapsto> content) else ms_files st)"
  by (simp add: handler_write_def Let_def)

lemma files_handler_writes:
  "ms_files (fold (handler_write config opens now_ms content) rs st) path =
     (if opens path \<and> path \<in> (\<lambda>r. handler_mail_file config now_ms (handler_split_email r)) ` set rs
      then Some content else ms_files st path)"
  by (induction rs arbitrary: st) (auto simp: files_handler_write Let_def)

end
