(* ===== verification/SmtpTheorems.thy ===== *)
theory SmtpTheorems
  imports SmtpServer
begin

text \<open>
  Sessions of the interpreted SMTP server: the states and the data that the state machine of the
  protocol hands to the callbacks, for any client. The data of a message are its declared members:
  what the client's message carries, and for the others what the data had before, \<open>false\<close> for a
  member that was not there (\<open>state_machine_transition\<close>). Every callback of a session answers
  with a message of its state, but for the exceptions that are named, and mail is only written for
  the valid recipients of the configuration.
\<close>

section \<open>Sessions\<close>

definition smtp_named :: "string \<Rightarrow> message option" where
  "smtp_named n = find (\<lambda>m. msg_name m = n) smtp_messages"

fun part_fields :: "message_part \<Rightarrow> string list" where
  "part_fields (PartTokens s) =
     concat (map (\<lambda>t. case t of TokenIdentifier i \<Rightarrow> [id_name i] | TokenString _ \<Rightarrow> []) (ts_tokens s))"
| "part_fields _ = []"

definition wire_fields :: "message \<Rightarrow> string list" where
  "wire_fields m = concat (map part_fields (msg_parts m))"

definition sent_by :: "string \<Rightarrow> message \<Rightarrow> bool" where
  "sent_by agent m \<longleftrightarrow> id_name (msg_agent m) = agent"

text \<open>The data after a message, \<open>w\<close> the text of the members on the wire.\<close>

definition data_after :: "message \<Rightarrow> (string \<Rightarrow> octets) \<Rightarrow> dictionary \<Rightarrow> dictionary" where
  "data_after m w d k =
     (if map_of (msg_data m) k = None then None
      else if sent_by ''Client'' m \<and> k \<in> set (wire_fields m) then Some (VOctets (w k))
      else Some (case d k of None \<Rightarrow> VBool False | Some v \<Rightarrow> v))"

inductive smtp_session :: "server_configuration \<Rightarrow> mail_store \<Rightarrow> string \<Rightarrow> dictionary \<Rightarrow> mail_store \<Rightarrow> bool"
  for config :: server_configuration and st0 :: mail_store where
  opened: "smtp_session config st0 ''Open'' Map.empty st0"
| sent: "smtp_session config st0 s d st \<Longrightarrow> smtp_callback config opens now_ms now_time s = Some f
     \<Longrightarrow> f [VDictionary d] st = (st', Inr (VDynamicList [VOctets n, VDictionary d']))
     \<Longrightarrow> smtp_named n = Some m \<Longrightarrow> id_name (msg_when m) = s \<Longrightarrow> sent_by ''Server'' m
     \<Longrightarrow> smtp_session config st0 (id_name (msg_then m)) (data_after m w d') st'"
| received: "smtp_session config st0 s d st \<Longrightarrow> m \<in> set smtp_messages \<Longrightarrow> id_name (msg_when m) = s \<Longrightarrow> sent_by ''Client'' m
     \<Longrightarrow> smtp_session config st0 (id_name (msg_then m)) (data_after m w d) st"

section \<open>What holds of the data in each state\<close>

definition has_octets :: "dictionary \<Rightarrow> string \<Rightarrow> bool" where
  "has_octets d k \<longleftrightarrow> (\<exists>s. d k = Some (VOctets s))"

definition needed_members :: "string \<Rightarrow> string list" where
  "needed_members s =
     (if s \<in> {''AwaitServerEHLOResponse'', ''ClientSendCommand''} then [''client_domain'']
      else if s \<in> {''AwaitServerMAILFROMResponse'', ''ClientSendFirstRCPTTO'', ''ClientSendMoreRCPTTOorDATA'',
             ''AwaitServerDATAResponse'', ''ClientSendDATAContent''} then [''client_domain'', ''sender'']
      else if s = ''AwaitServerRCPTTOResponse'' then [''client_domain'', ''sender'', ''recipient'']
      else if s = ''AwaitServerDATAContentResponse'' then [''client_domain'', ''sender'', ''content'']
      else [])"

definition valid_address :: "server_configuration \<Rightarrow> value \<Rightarrow> bool" where
  "valid_address config v \<longleftrightarrow>
     (\<exists>email p. v = VOctets email \<and> split_at_sign email = Some p \<and> has_user (sc_valid_recipients config) p)"

definition recipients_ok :: "server_configuration \<Rightarrow> value option \<Rightarrow> bool" where
  "recipients_ok config r \<longleftrightarrow> r = None \<or> r = Some (VBool False) \<or> (\<exists>vs. r = Some (VDynamicList vs) \<and> list_all (valid_address config) vs)"

definition lists_recipients :: "string \<Rightarrow> bool" where
  "lists_recipients s \<longleftrightarrow> s \<in> {''AwaitServerDATAResponse'', ''ClientSendDATAContent'', ''AwaitServerDATAContentResponse''}"

definition session_ok :: "server_configuration \<Rightarrow> string \<Rightarrow> dictionary \<Rightarrow> bool" where
  "session_ok config s d \<longleftrightarrow> list_all (has_octets d) (needed_members s) \<and> recipients_ok config (d ''recipient_list'')
     \<and> (lists_recipients s \<longrightarrow> d ''recipient_list'' \<noteq> None)"

text \<open>What a message has to declare so that the data after it are what its target state needs.\<close>

definition declares :: "message \<Rightarrow> string \<Rightarrow> bool" where
  "declares m k \<longleftrightarrow> k \<in> set (map fst (msg_data m))"

definition client_message_ok :: "message \<Rightarrow> bool" where
  "client_message_ok m \<longleftrightarrow>
     list_all (\<lambda>k. declares m k \<and> (k \<in> set (wire_fields m) \<or> k \<in> set (needed_members (id_name (msg_when m)))))
       (needed_members (id_name (msg_then m)))
     \<and> ''recipient_list'' \<notin> set (wire_fields m)
     \<and> (lists_recipients (id_name (msg_then m)) \<longrightarrow> declares m ''recipient_list'')"

lemma client_messages_ok: "list_all (\<lambda>m. sent_by ''Client'' m \<longrightarrow> client_message_ok m) smtp_messages"
  by code_simp

lemma map_of_declares: "map_of (msg_data m) k = None \<longleftrightarrow> \<not> declares m k"
  by (simp add: declares_def map_of_eq_None_iff)

lemma session_received:
  assumes "session_ok config s d" and "m \<in> set smtp_messages" and "id_name (msg_when m) = s" and "sent_by ''Client'' m"
  shows "session_ok config (id_name (msg_then m)) (data_after m w d)"
proof -
  have ok: "client_message_ok m" using client_messages_ok assms(2,4) by (auto simp: list_all_iff)
  have "has_octets (data_after m w d) k" if "k \<in> set (needed_members (id_name (msg_then m)))" for k
  proof (cases "k \<in> set (wire_fields m)")
    case True
    with ok that assms(4) show ?thesis
      by (auto simp: client_message_ok_def list_all_iff has_octets_def data_after_def map_of_declares)
  next
    case False
    with ok that have "declares m k" "k \<in> set (needed_members s)"
      using assms(3) by (auto simp: client_message_ok_def list_all_iff)
    moreover from this(2) assms(1) have "has_octets d k" by (simp add: session_ok_def list_all_iff)
    ultimately show ?thesis using False by (auto simp: has_octets_def data_after_def map_of_declares)
  qed
  moreover have "recipients_ok config (data_after m w d ''recipient_list'')"
    using assms(1) ok by (auto simp: session_ok_def client_message_ok_def recipients_ok_def data_after_def)
  moreover have "lists_recipients (id_name (msg_then m)) \<longrightarrow> data_after m w d ''recipient_list'' \<noteq> None"
    using ok by (auto simp: client_message_ok_def data_after_def map_of_declares)
  ultimately show ?thesis by (simp add: session_ok_def list_all_iff)
qed

section \<open>The answers of the callbacks\<close>

lemma answer_with_eq [simp]: "answer_with n kvs = VDynamicList [VOctets n', VDictionary d'] \<longleftrightarrow> n' = n \<and> d' = map_of kvs"
  by (auto simp: answer_with_def)

lemmas callback_defs = on_open_def on_await_ehlo_def on_await_mail_from_def on_await_rcpt_to_def on_await_data_def
  on_await_quit_def on_closed_def octets_at_def member_at_def get_octets_def get_dictionary_def message_dictionary_def
  first_argument_def

lemma smtp_named_simps:
  "smtp_named ''SMTP Server Greeting'' = Some smtp_server_greeting"
  "smtp_named ''SMTP EHLO Success Response'' = Some smtp_ehlo_success_response"
  "smtp_named ''SMTP EHLO Failure Response'' = Some smtp_ehlo_failure_response"
  "smtp_named ''SMTP MAIL FROM Success Response'' = Some smtp_mail_from_success_response"
  "smtp_named ''SMTP MAIL FROM Failure Response'' = Some smtp_mail_from_failure_response"
  "smtp_named ''SMTP RCPT TO Success Response'' = Some smtp_rcpt_to_success_response"
  "smtp_named ''SMTP RCPT TO Failure Response'' = Some smtp_rcpt_to_failure_response"
  "smtp_named ''SMTP DATA Response'' = Some smtp_data_response"
  "smtp_named ''SMTP DATA Written'' = Some smtp_data_written"
  "smtp_named ''SMTP DATA Write Error'' = None"
  "smtp_named ''SMTP QUIT Response'' = Some smtp_quit_response"
  "smtp_named ''Closed'' = None"
  by code_simp+

text \<open>The states and the members of the messages of the server.\<close>

lemma server_messages:
  "list_all (\<lambda>(m, w, t, ks). sent_by ''Server'' m \<and> id_name (msg_when m) = w \<and> id_name (msg_then m) = t \<and> list_all (declares m) ks)
     [(smtp_server_greeting, ''Open'', ''ClientSendEHLO'', []),
      (smtp_ehlo_success_response, ''AwaitServerEHLOResponse'', ''ClientSendCommand'', [''client_domain'']),
      (smtp_ehlo_failure_response, ''AwaitServerEHLOResponse'', ''ClientSendEHLO'', []),
      (smtp_mail_from_success_response, ''AwaitServerMAILFROMResponse'', ''ClientSendFirstRCPTTO'', [''client_domain'', ''sender'']),
      (smtp_mail_from_failure_response, ''AwaitServerMAILFROMResponse'', ''ClientSendCommand'', [''client_domain'']),
      (smtp_rcpt_to_success_response, ''AwaitServerRCPTTOResponse'', ''ClientSendMoreRCPTTOorDATA'', [''client_domain'', ''sender'']),
      (smtp_rcpt_to_failure_response, ''AwaitServerRCPTTOResponse'', ''ClientSendMoreRCPTTOorDATA'', [''client_domain'', ''sender'']),
      (smtp_data_response, ''AwaitServerDATAResponse'', ''ClientSendDATAContent'', [''client_domain'', ''sender'', ''recipient_list'']),
      (smtp_data_written, ''AwaitServerDATAContentResponse'', ''ClientSendCommand'', [''client_domain'']),
      (smtp_quit_response, ''AwaitServerQUITResponse'', ''Closed'', [])]"
  by code_simp

lemma not_client: "sent_by ''Server'' m \<Longrightarrow> \<not> sent_by ''Client'' m"
  by (simp add: sent_by_def)

lemma data_after_server:
  "sent_by ''Server'' m \<Longrightarrow> data_after m w d k =
     (if declares m k then Some (case d k of None \<Rightarrow> VBool False | Some v \<Rightarrow> v) else None)"
  by (simp add: data_after_def map_of_declares not_client)

lemma recipients_after_server:
  "sent_by ''Server'' m \<Longrightarrow> recipients_ok config (d ''recipient_list'') \<Longrightarrow>
     recipients_ok config (data_after m w d ''recipient_list'')"
  by (auto simp: data_after_server recipients_ok_def split: option.split)

lemma session_ok_after:
  assumes "sent_by ''Server'' m" and "recipients_ok config (d' ''recipient_list'')"
    and "list_all (\<lambda>k. declares m k \<and> has_octets d' k) (needed_members (id_name (msg_then m)))"
    and "lists_recipients (id_name (msg_then m)) \<Longrightarrow> declares m ''recipient_list''"
  shows "session_ok config (id_name (msg_then m)) (data_after m w d')"
  using assms(3,4) recipients_after_server [of m config d' w, OF assms(1,2)]
  by (auto simp: session_ok_def list_all_iff has_octets_def data_after_server [OF assms(1)])

lemma recipients_ok_added:
  assumes "recipients_ok config (d ''recipient_list'')" and "split_at_sign email = Some p" and "has_user (sc_valid_recipients config) p"
  shows "recipients_ok config (Some (add_recipient d email))"
  using assms by (cases p) (auto simp: recipients_ok_def add_recipient_def valid_address_def)

text \<open>An answer that is a message of its state, with the data that the next state needs.\<close>

definition good_message :: "server_configuration \<Rightarrow> string \<Rightarrow> string \<Rightarrow> dictionary \<Rightarrow> bool" where
  "good_message config s n d' \<longleftrightarrow>
     (\<exists>m. smtp_named n = Some m \<and> id_name (msg_when m) = s \<and> sent_by ''Server'' m
        \<and> list_all (\<lambda>k. declares m k \<and> has_octets d' k) (needed_members (id_name (msg_then m)))
        \<and> recipients_ok config (d' ''recipient_list'')
        \<and> (lists_recipients (id_name (msg_then m)) \<longrightarrow> declares m ''recipient_list''))"

definition good_answer :: "server_configuration \<Rightarrow> string \<Rightarrow> value \<Rightarrow> bool" where
  "good_answer config s v \<longleftrightarrow>
     (\<exists>n d'. v = VDynamicList [VOctets n, VDictionary d'] \<and>
        (good_message config s n d' \<or> s = ''AwaitServerDATAContentResponse'' \<and> n = ''SMTP DATA Write Error'' \<or> s = ''Closed'' \<and> n = ''Closed''))"

lemma good_answer_with:
  "good_answer config s (answer_with n kvs) \<longleftrightarrow>
     good_message config s n (map_of kvs) \<or> s = ''AwaitServerDATAContentResponse'' \<and> n = ''SMTP DATA Write Error''
     \<or> s = ''Closed'' \<and> n = ''Closed''"
  by (simp add: good_answer_def answer_with_def)

text \<open>The exceptions a callback may throw in a session: an address without \<open>@\<close>, and a list of
  recipients that is none.\<close>

definition expected_error :: "string \<Rightarrow> dictionary \<Rightarrow> callback_error \<Rightarrow> bool" where
  "expected_error s d e \<longleftrightarrow>
     e = InvalidArgument \<and> (s = ''AwaitServerMAILFROMResponse'' \<and> (\<exists>a. d ''sender'' = Some (VOctets a) \<and> CHR ''@'' \<notin> set a)
       \<or> s = ''AwaitServerRCPTTOResponse'' \<and> (\<exists>a. d ''recipient'' = Some (VOctets a) \<and> CHR ''@'' \<notin> set a))
     \<or> e = BadVariantAccess \<and> s = ''AwaitServerDATAContentResponse'' \<and> d ''recipient_list'' = Some (VBool False)"

definition behaves :: "server_configuration \<Rightarrow> string \<Rightarrow> dictionary \<Rightarrow> callback_error + value \<Rightarrow> bool" where
  "behaves config s d r = (case r of Inl e \<Rightarrow> expected_error s d e | Inr v \<Rightarrow> good_answer config s v)"

lemma behaves_simps [simp]:
  "behaves config s d (Inl e) \<longleftrightarrow> expected_error s d e" "behaves config s d (Inr v) \<longleftrightarrow> good_answer config s v"
  by (simp_all add: behaves_def)

lemmas server_message_facts = server_messages [simplified]

lemmas needed = needed_members_def lists_recipients_def has_octets_def

lemmas session_defs = session_ok_def needed

lemma no_recipients [simp]: "recipients_ok config None"
  by (simp add: recipients_ok_def)

lemma open_behaves: "behaves config ''Open'' d (on_open config args)"
  by (simp add: on_open_def good_answer_with good_message_def smtp_named_simps server_message_facts needed)

lemma quit_behaves: "behaves config ''AwaitServerQUITResponse'' d (on_await_quit config args)"
  by (simp add: on_await_quit_def good_answer_with good_message_def smtp_named_simps server_message_facts needed)

lemma closed_behaves: "behaves config ''Closed'' d (on_closed config args)"
  by (simp add: on_closed_def good_answer_with)

lemma ehlo_behaves:
  assumes "session_ok config ''AwaitServerEHLOResponse'' d"
  shows "behaves config ''AwaitServerEHLOResponse'' d (on_await_ehlo config [VDictionary d])"
proof -
  obtain c where "d ''client_domain'' = Some (VOctets c)" using assms by (auto simp: session_defs)
  then show ?thesis
    by (simp add: callback_defs good_answer_with good_message_def smtp_named_simps server_message_facts needed)
qed

lemma mail_from_behaves:
  assumes "session_ok config ''AwaitServerMAILFROMResponse'' d"
  shows "behaves config ''AwaitServerMAILFROMResponse'' d (on_await_mail_from config [VDictionary d])"
proof -
  obtain c a where "d ''client_domain'' = Some (VOctets c)" "d ''sender'' = Some (VOctets a)"
    using assms by (auto simp: session_defs)
  then show ?thesis
    by (simp add: callback_defs split_email_def split_at_sign_def expected_error_def good_answer_with good_message_def
        smtp_named_simps server_message_facts needed)
qed

lemma rcpt_to_behaves:
  assumes "session_ok config ''AwaitServerRCPTTOResponse'' d"
  shows "behaves config ''AwaitServerRCPTTOResponse'' d (on_await_rcpt_to config [VDictionary d])"
proof -
  obtain c a r where d: "d ''client_domain'' = Some (VOctets c)" "d ''sender'' = Some (VOctets a)" "d ''recipient'' = Some (VOctets r)"
    using assms by (auto simp: session_defs)
  have "recipients_ok config (d ''recipient_list'')" using assms by (simp add: session_ok_def)
  note added = recipients_ok_added [of config d, OF this]
  show ?thesis
  proof (cases "split_at_sign r")
    case None
    then have "CHR ''@'' \<notin> set r" by (simp add: split_at_sign_def split: if_splits)
    with None d show ?thesis by (simp add: callback_defs split_email_def expected_error_def)
  next
    case (Some p)
    with d added [OF Some] show ?thesis
      by (simp add: callback_defs split_email_def good_answer_with good_message_def smtp_named_simps
          server_message_facts needed)
  qed
qed

lemma data_behaves:
  assumes "session_ok config ''AwaitServerDATAResponse'' d"
  shows "behaves config ''AwaitServerDATAResponse'' d (on_await_data config [VDictionary d])"
proof -
  obtain c a r where d: "d ''client_domain'' = Some (VOctets c)" "d ''sender'' = Some (VOctets a)" "d ''recipient_list'' = Some r"
    using assms by (auto simp: session_defs)
  have "recipients_ok config (d ''recipient_list'')" using assms by (simp add: session_ok_def)
  with d show ?thesis
    by (simp add: callback_defs good_answer_with good_message_def smtp_named_simps server_message_facts needed)
qed

section \<open>Delivery\<close>

lemma make_maildir_path:
  "make_maildir (sc_maildir config) [snd p, fst p, ''new''] st = (dir, st') \<Longrightarrow>
     dir @ ''/'' @ decimal_nat now_ms @ ''.mail'' = mail_file config now_ms p \<and> ms_files st' = ms_files st"
  by (auto simp: Let_def mail_file_def ensure_directory_def)

text \<open>To valid addresses every step of the loop writes one file or ends it; no address throws.\<close>

lemma deliver_valid:
  assumes "list_all (valid_address config) vs" and "deliver config opens now_ms content vs st = (st', r)"
  shows "(\<exists>b. r = Inr b) \<and> (\<forall>path. ms_files st' path \<noteq> ms_files st path \<longrightarrow>
    (\<exists>p. has_user (sc_valid_recipients config) p \<and> path = mail_file config now_ms p))"
  using assms
proof (induction vs arbitrary: st)
  case (Cons v vs)
  obtain email p where v: "v = VOctets email" "split_at_sign email = Some p" "has_user (sc_valid_recipients config) p"
    using Cons.prems(1) by (auto simp: valid_address_def)
  obtain dir st1 where dir: "make_maildir (sc_maildir config) [snd p, fst p, ''new''] st = (dir, st1)" by fastforce
  note path = make_maildir_path [OF dir, of now_ms]
  let ?path = "mail_file config now_ms p"
  show ?case
  proof (cases "opens ?path")
    case False
    with Cons.prems(2) v dir path have "st' = st1" "r = Inr False"
      by (simp_all add: get_octets_def split_email_def Let_def del: make_maildir.simps)
    with path show ?thesis by auto
  next
    case True
    with Cons.prems(2) v dir path
    have "deliver config opens now_ms content vs (st1\<lparr>ms_files := (ms_files st1)(?path \<mapsto> content)\<rparr>) = (st', r)"
      by (simp add: get_octets_def split_email_def Let_def del: make_maildir.simps)
    from Cons.IH [OF _ this] Cons.prems(1) have ih: "\<exists>b. r = Inr b"
      "\<And>q. ms_files st' q \<noteq> ((ms_files st)(?path \<mapsto> content)) q \<Longrightarrow>
        \<exists>p. has_user (sc_valid_recipients config) p \<and> q = mail_file config now_ms p"
      using path by simp_all
    have "\<exists>p. has_user (sc_valid_recipients config) p \<and> q = mail_file config now_ms p" if "ms_files st' q \<noteq> ms_files st q" for q
    proof (cases "q = ?path")
      case True
      with v(3) show ?thesis by blast
    next
      case False
      with that show ?thesis by (intro ih(2)) simp
    qed
    with ih(1) show ?thesis by blast
  qed
qed auto

text \<open>The content of a message, when its list of recipients is one.\<close>

lemma data_content_behaves:
  assumes "session_ok config ''AwaitServerDATAContentResponse'' d"
    and "on_await_data_content config opens now_ms now_time [VDictionary d] st = (st', r)"
  shows "behaves config ''AwaitServerDATAContentResponse'' d r \<and> (\<forall>path. ms_files st' path \<noteq> ms_files st path \<longrightarrow>
    (\<exists>p. has_user (sc_valid_recipients config) p \<and> path = mail_file config now_ms p))"
proof -
  obtain c a x rs where d: "d ''client_domain'' = Some (VOctets c)" "d ''sender'' = Some (VOctets a)"
      "d ''content'' = Some (VOctets x)" "d ''recipient_list'' = Some rs"
    using assms(1) by (auto simp: session_defs)
  have "recipients_ok config (Some rs)" using assms(1) d(4) by (simp add: session_ok_def)
  then consider "rs = VBool False" | vs where "rs = VDynamicList vs" "list_all (valid_address config) vs"
    by (auto simp: recipients_ok_def)
  then show ?thesis
  proof cases
    case 1
    with assms(2) d show ?thesis
      by (auto simp: on_await_data_content_def content_of_def get_dynamic_list_def callback_defs expected_error_def)
  next
    case (2 vs)
    let ?content = "received_content a c now_time x"
    obtain st1 b where dl: "deliver config opens now_ms ?content vs st = (st1, b)" by fastforce
    from deliver_valid [OF 2(2) dl] obtain w where w: "b = Inr w"
      "\<forall>path. ms_files st1 path \<noteq> ms_files st path \<longrightarrow>
        (\<exists>p. has_user (sc_valid_recipients config) p \<and> path = mail_file config now_ms p)" by auto
    have "content_of [VDictionary d] = Inr (VOctets c, c, a, vs, x)"
      using d 2(1) by (simp add: content_of_def get_dynamic_list_def callback_defs)
    with assms(2) dl w(1) have "st' = st1" and r: "r = Inr (if w
         then answer_with ''SMTP DATA Written''
           [(''client_domain'', VOctets c), (''code_tens'', VInt 50), (''msg'', VOctets ''Message accepted for delivery'')]
         else answer_with ''SMTP DATA Write Error'' [(''client_domain'', VOctets c)])"
      by (simp_all add: on_await_data_content_def)
    moreover have "behaves config ''AwaitServerDATAContentResponse'' d r"
      unfolding r by (simp add: good_answer_with good_message_def smtp_named_simps server_message_facts needed)
    ultimately show ?thesis using w(2) by simp
  qed
qed

section \<open>What holds in every session\<close>

lemma callback_behaves:
  assumes "session_ok config s d" and "smtp_callback config opens now_ms now_time s = Some f" and "f [VDictionary d] st = (st', r)"
  shows "behaves config s d r \<and> (\<forall>path. ms_files st' path \<noteq> ms_files st path \<longrightarrow>
    (\<exists>p. has_user (sc_valid_recipients config) p \<and> path = mail_file config now_ms p))"
  using assms open_behaves quit_behaves closed_behaves ehlo_behaves mail_from_behaves rcpt_to_behaves data_behaves
    data_content_behaves
  by (auto simp: smtp_callback_def Let_def split: if_splits)

lemma session_sent:
  assumes "session_ok config s d" and "smtp_callback config opens now_ms now_time s = Some f"
    and "f [VDictionary d] st = (st', Inr (VDynamicList [VOctets n, VDictionary d']))"
    and "smtp_named n = Some m" and "sent_by ''Server'' m"
  shows "session_ok config (id_name (msg_then m)) (data_after m w d')"
proof -
  from callback_behaves [OF assms(1-3)] assms(4) have "good_message config s n d'"
    by (auto simp: good_answer_def smtp_named_simps)
  with assms(4) show ?thesis
    by (auto simp: good_message_def list_all_iff intro!: session_ok_after)
qed

lemma session_invariant:
  "smtp_session config st0 s d st \<Longrightarrow> session_ok config s d \<and> (\<forall>path. ms_files st path \<noteq> ms_files st0 path \<longrightarrow>
    (\<exists>p t. has_user (sc_valid_recipients config) p \<and> path = mail_file config t p))"
proof (induction rule: smtp_session.induct)
  case opened
  then show ?case by (simp add: session_defs)
next
  case (sent s d st opens now_ms now_time f st' n d' m w)
  then show ?case using session_sent callback_behaves by metis
next
  case (received s d st m w)
  then show ?case using session_received by blast
qed


end
