(* ===== verification/SmtpSessions.thy ===== *)
theory SmtpSessions
  imports SmtpTheorems
begin

text \<open>
  Two sessions of the interpreted SMTP server with one recipient, step by step from the greeting:
  the mail to a valid recipient is written to its directory; a recipient that is refused takes the
  recipients before it out of the session, and the content that follows throws.
\<close>

section \<open>The messages of a client\<close>

lemma client_messages:
  "list_all (\<lambda>(m, w, t, ws, ks). m \<in> set smtp_messages \<and> sent_by ''Client'' m \<and> id_name (msg_when m) = w
        \<and> id_name (msg_then m) = t \<and> wire_fields m = ws \<and> list_all (declares m) ks)
     [(smtp_ehlo_command, ''ClientSendEHLO'', ''AwaitServerEHLOResponse'', [''client_domain''], [''client_domain'']),
      (smtp_mail_from_command, ''ClientSendCommand'', ''AwaitServerMAILFROMResponse'', [''sender''], [''client_domain'', ''sender'']),
      (smtp_rcpt_to_command, ''ClientSendFirstRCPTTO'', ''AwaitServerRCPTTOResponse'', [''recipient''],
        [''client_domain'', ''sender'', ''recipient'', ''recipient_list'']),
      (smtp_data_command, ''ClientSendMoreRCPTTOorDATA'', ''AwaitServerDATAResponse'', [],
        [''client_domain'', ''sender'', ''recipient_list'']),
      (smtp_data_content, ''ClientSendDATAContent'', ''AwaitServerDATAContentResponse'', [''content''],
        [''client_domain'', ''sender'', ''recipient_list'', ''content''])]
   \<and> declares smtp_rcpt_to_failure_response ''recipient_list'' \<and> declares smtp_rcpt_to_success_response ''recipient_list''
   \<and> \<not> declares smtp_mail_from_success_response ''recipient_list''"
  by code_simp

lemmas client_message_facts = client_messages [simplified]

lemma data_after_client:
  "sent_by ''Client'' m \<Longrightarrow> declares m k \<Longrightarrow> data_after m w d k =
     (if k \<in> set (wire_fields m) then Some (VOctets (w k)) else Some (case d k of None \<Rightarrow> VBool False | Some v \<Rightarrow> v))"
  by (simp add: data_after_def map_of_declares)

lemmas data_facts = data_after_client data_after_server client_message_facts server_message_facts smtp_named_simps

text \<open>One answer of a callback that leaves the mail alone.\<close>

lemma session_answer:
  assumes "smtp_session config st0 s d st" and "smtp_callback config (\<lambda>p. True) 0 0 s = Some (\<lambda>args st. (st, f config args))"
    and "f config [VDictionary d] = Inr (answer_with n kvs)" and "smtp_named n = Some m" and "id_name (msg_when m) = s"
    and "sent_by ''Server'' m"
  shows "smtp_session config st0 (id_name (msg_then m)) (data_after m w (map_of kvs)) st"
  using smtp_session.sent [OF assms(1,2) _ assms(4-6), of st "map_of kvs" w] assms(3) by (simp add: answer_with_def)

lemma recipient_named:
  fixes config st0
  assumes "c \<notin> sc_blocked_client_domains config" and "split_at_sign a = Some p" and "\<not> has_user (sc_blocked_senders config) p"
  shows "\<exists>d. smtp_session config st0 ''AwaitServerRCPTTOResponse'' d st0 \<and> d ''client_domain'' = Some (VOctets c)
    \<and> d ''sender'' = Some (VOctets a) \<and> d ''recipient'' = Some (VOctets r) \<and> d ''recipient_list'' = Some (VBool False)"
proof -
  let ?w = "\<lambda>k. if k = ''client_domain'' then c else if k = ''sender'' then a else r"
  have "\<exists>d. smtp_session config st0 ''ClientSendEHLO'' d st0"
    using session_answer [OF smtp_session.opened, of config on_open "''SMTP Server Greeting''" _ smtp_server_greeting st0]
    by (auto simp: smtp_callback_def on_open_def data_facts)
  then obtain d1 where "smtp_session config st0 ''ClientSendEHLO'' d1 st0" by blast
  from smtp_session.received [OF this, of smtp_ehlo_command ?w] obtain d2 where
    d2: "smtp_session config st0 ''AwaitServerEHLOResponse'' d2 st0" "d2 ''client_domain'' = Some (VOctets c)"
    by (auto simp: data_facts)
  from session_answer [OF d2(1), of on_await_ehlo "''SMTP EHLO Success Response''"
      "[(''client_domain'', VOctets c), (''code_tens'', VInt 50), (''msg'', VOctets ''Hello, pleased to meet you'')]" smtp_ehlo_success_response ?w] d2(2) assms(1)
  obtain d3 where d3: "smtp_session config st0 ''ClientSendCommand'' d3 st0" "d3 ''client_domain'' = Some (VOctets c)"
    by (auto simp: smtp_callback_def callback_defs data_facts)
  from smtp_session.received [OF d3(1), of smtp_mail_from_command ?w] d3(2) obtain d4 where
    d4: "smtp_session config st0 ''AwaitServerMAILFROMResponse'' d4 st0" "d4 ''client_domain'' = Some (VOctets c)"
      "d4 ''sender'' = Some (VOctets a)"
    by (auto simp: data_facts)
  from session_answer [OF d4(1), of on_await_mail_from "''SMTP MAIL FROM Success Response''"
      "[(''client_domain'', VOctets c), (''sender'', VOctets a), (''code_tens'', VInt 50), (''msg'', VOctets ''Sender OK'')]" smtp_mail_from_success_response ?w]
    d4(2,3) assms(2,3)
  obtain d5 where d5: "smtp_session config st0 ''ClientSendFirstRCPTTO'' d5 st0" "d5 ''client_domain'' = Some (VOctets c)"
      "d5 ''sender'' = Some (VOctets a)" "d5 ''recipient_list'' = None"
    by (auto simp: smtp_callback_def callback_defs split_email_def data_facts)
  from smtp_session.received [OF d5(1), of smtp_rcpt_to_command ?w] d5(2-) show ?thesis
    by (auto simp: data_facts)
qed

section \<open>The answer for a recipient\<close>

lemma recipient_accepted:
  assumes "smtp_session config st0 ''AwaitServerRCPTTOResponse'' d st" and "d ''client_domain'' = Some (VOctets c)"
    and "d ''sender'' = Some (VOctets a)" and "d ''recipient'' = Some (VOctets r)"
    and "split_at_sign r = Some q" and "has_user (sc_valid_recipients config) q"
  shows "\<exists>d'. smtp_session config st0 ''ClientSendMoreRCPTTOorDATA'' d' st \<and> d' ''client_domain'' = Some (VOctets c)
    \<and> d' ''sender'' = Some (VOctets a) \<and> d' ''recipient_list'' = Some (add_recipient d r)"
  using session_answer [OF assms(1), of on_await_rcpt_to "''SMTP RCPT TO Success Response''"
      "[(''client_domain'', VOctets c), (''sender'', VOctets a), (''recipient_list'', add_recipient d r),
        (''code_tens'', VInt 50), (''msg'', VOctets ''Recipient OK'')]" smtp_rcpt_to_success_response "\<lambda>k. []"] assms(2-)
  by (auto simp: smtp_callback_def callback_defs split_email_def data_facts)

lemma recipient_refused:
  assumes "smtp_session config st0 ''AwaitServerRCPTTOResponse'' d st" and "d ''client_domain'' = Some (VOctets c)"
    and "d ''sender'' = Some (VOctets a)" and "d ''recipient'' = Some (VOctets r)"
    and "split_at_sign r = Some q" and "\<not> has_user (sc_valid_recipients config) q"
  shows "\<exists>d'. smtp_session config st0 ''ClientSendMoreRCPTTOorDATA'' d' st \<and> d' ''client_domain'' = Some (VOctets c)
    \<and> d' ''sender'' = Some (VOctets a) \<and> d' ''recipient_list'' = Some (VBool False)"
  using session_answer [OF assms(1), of on_await_rcpt_to "''SMTP RCPT TO Failure Response''"
      "[(''client_domain'', VOctets c), (''sender'', VOctets a), (''code_tens'', VInt 55), (''msg'', VOctets ''Invalid recipient'')]"
      smtp_rcpt_to_failure_response "\<lambda>k. []"] assms(2-)
  by (auto simp: smtp_callback_def callback_defs split_email_def data_facts)


section \<open>The content\<close>

lemma content_received:
  assumes "smtp_session config st0 ''ClientSendMoreRCPTTOorDATA'' d st" and "d ''client_domain'' = Some (VOctets c)"
    and "d ''sender'' = Some (VOctets a)" and "d ''recipient_list'' = Some rs"
  shows "\<exists>d'. smtp_session config st0 ''AwaitServerDATAContentResponse'' d' st \<and> d' ''client_domain'' = Some (VOctets c)
    \<and> d' ''sender'' = Some (VOctets a) \<and> d' ''recipient_list'' = Some rs \<and> d' ''content'' = Some (VOctets x)"
proof -
  from smtp_session.received [OF assms(1), of smtp_data_command "\<lambda>k. []"] assms(2-) obtain d1 where
    d1: "smtp_session config st0 ''AwaitServerDATAResponse'' d1 st" "d1 ''client_domain'' = Some (VOctets c)"
      "d1 ''sender'' = Some (VOctets a)" "d1 ''recipient_list'' = Some rs"
    by (auto simp: data_facts)
  from session_answer [OF d1(1), of on_await_data "''SMTP DATA Response''"
      "[(''client_domain'', VOctets c), (''sender'', VOctets a), (''recipient_list'', rs), (''code_tens'', VInt 54),
        (''msg'', VOctets ''Start mail input; end with <CRLF>.<CRLF>'')]" smtp_data_response "\<lambda>k. []"] d1(2-)
  obtain d2 where d2: "smtp_session config st0 ''ClientSendDATAContent'' d2 st" "d2 ''client_domain'' = Some (VOctets c)"
      "d2 ''sender'' = Some (VOctets a)" "d2 ''recipient_list'' = Some rs"
    by (auto simp: smtp_callback_def callback_defs data_facts)
  from smtp_session.received [OF d2(1), of smtp_data_content "\<lambda>k. x"] d2(2-) show ?thesis
    by (auto simp: data_facts)
qed

section \<open>Mail is delivered\<close>



section \<open>A recipient that is refused\<close>

text \<open>The data after a recipient that is not valid hold \<open>false\<close> in the place of the recipients, those
  that were accepted before it included; the content of the message then throws.\<close>

lemma content_after_refusal_throws:
  assumes "smtp_session config st0 ''AwaitServerRCPTTOResponse'' d st" and "d ''client_domain'' = Some (VOctets c)"
    and "d ''sender'' = Some (VOctets a)" and "d ''recipient'' = Some (VOctets r)"
    and "split_at_sign r = Some q" and "\<not> has_user (sc_valid_recipients config) q"
  shows "\<exists>d'. smtp_session config st0 ''AwaitServerDATAContentResponse'' d' st \<and> d' ''content'' = Some (VOctets x)
    \<and> on_await_data_content config opens now_ms now_time [VDictionary d'] st = (st, Inl BadVariantAccess)"
proof -
  from recipient_refused [OF assms] obtain d1 where
    d1: "smtp_session config st0 ''ClientSendMoreRCPTTOorDATA'' d1 st" "d1 ''client_domain'' = Some (VOctets c)"
      "d1 ''sender'' = Some (VOctets a)" "d1 ''recipient_list'' = Some (VBool False)" by blast
  from content_received [OF d1, of x] show ?thesis
    by (auto simp: on_await_data_content_def content_of_def get_dynamic_list_def callback_defs)
qed

end
