(* ===== verification/SmtpHandlerTheorems.thy ===== *)
theory SmtpHandlerTheorems
  imports IoProps SmtpHandler SmtpSessions
begin

text \<open>
  The two SMTP servers compared: on addresses with an \<open>@\<close> the handler for generated code decides
  as the callbacks of the interpreted server, with the same answers on the wire and the same data
  for what follows, and both write the same mail. They differ in the greeting, in addresses
  without \<open>@\<close>, in a recipient that is refused, and in files that cannot be written.
\<close>

section \<open>Answers\<close>

text \<open>The name of an answer and the members that its record and the data of the interpreter share.\<close>

definition reply_members :: "'a reply_scheme \<Rightarrow> (string \<times> value) list" where
  "reply_members r = [(''code_tens'', VInt (word_of_int (code_tens r))), (''msg'', VOctets (msg r))]"

definition domain_members :: "'a domain_reply_scheme \<Rightarrow> (string \<times> value) list" where
  "domain_members r = (''client_domain'', VOctets (client_domain r)) # reply_members r"

definition sender_members :: "'a sender_reply_scheme \<Rightarrow> (string \<times> value) list" where
  "sender_members r = (''sender'', VOctets (sender r)) # domain_members r"

fun ehlo_answer :: "ehlo_output \<Rightarrow> string \<times> (string \<times> value) list" where
  "ehlo_answer (EHLOSuccess r) = (''SMTP EHLO Success Response'', domain_members r)"
| "ehlo_answer (EHLOFailure r) = (''SMTP EHLO Failure Response'', reply_members r)"

fun mail_from_answer :: "mail_from_output \<Rightarrow> string \<times> (string \<times> value) list" where
  "mail_from_answer (MAILFROMSuccess r) = (''SMTP MAIL FROM Success Response'', sender_members r)"
| "mail_from_answer (MAILFROMFailure r) = (''SMTP MAIL FROM Failure Response'', domain_members r)"

fun rcpt_to_answer :: "rcpt_to_output \<Rightarrow> string \<times> (string \<times> value) list" where
  "rcpt_to_answer (RCPTTOSuccess r) = (''SMTP RCPT TO Success Response'',
     (''recipient_list'', VDynamicList (map (\<lambda>e. VOctets (re_recipient e)) (recipient_list r))) # sender_members r)"
| "rcpt_to_answer (RCPTTOFailure r) = (''SMTP RCPT TO Failure Response'', sender_members r)"

definition data_answer :: "string recipients_reply \<Rightarrow> string \<times> (string \<times> value) list" where
  "data_answer r = (''SMTP DATA Response'',
     (''recipient_list'', VDynamicList (map VOctets (recipient_list r))) # sender_members r)"

definition same_answer :: "string \<times> (string \<times> value) list \<Rightarrow> callback_error + value \<Rightarrow> bool" where
  "same_answer a v \<longleftrightarrow>
     (\<exists>d. v = Inr (VDynamicList [VOctets (fst a), VDictionary d]) \<and> list_all (\<lambda>(k, x). d k = Some x) (snd a))"

lemma same_answer_with [simp]: "same_answer a (Inr (answer_with n kvs)) \<longleftrightarrow>
    fst a = n \<and> list_all (\<lambda>(k, x). map_of kvs k = Some x) (snd a)"
  by (auto simp: same_answer_def answer_with_def)

lemmas member_defs = sender_members_def domain_members_def reply_members_def

lemma split_with_at: "CHR ''@'' \<in> set email \<Longrightarrow> split_email email = Inr (handler_split_email email)"
  by (simp add: split_email_def handler_split_email_def split_at_sign_def)



section \<open>Mail\<close>

text \<open>A part of a path that names a directory.\<close>

definition directory_part :: "string \<Rightarrow> bool" where
  "directory_part s \<longleftrightarrow> s \<noteq> [] \<and> hd s \<noteq> CHR ''/'' \<and> last s \<noteq> CHR ''/''"

lemma path_append_plain: "p \<noteq> [] \<Longrightarrow> last p \<noteq> CHR ''/'' \<Longrightarrow> q \<noteq> [] \<Longrightarrow> hd q \<noteq> CHR ''/'' \<Longrightarrow> path_append p q = p @ ''/'' @ q"
  by (simp add: path_append_def)

lemma decimal_nat_plain: "decimal_nat n \<noteq> [] \<and> hd (decimal_nat n) \<noteq> CHR ''/''"
proof -
  have "hd (decimal_nat n) \<in> set (decimal_nat n)" by (simp add: decimal_nat_nonempty)
  then have "is_digit (hd (decimal_nat n))" using decimal_nat_digits by blast
  then show ?thesis by (auto simp: decimal_nat_nonempty is_digit_def)
qed

lemma same_mail_file:
  assumes "sc_maildir config \<noteq> []" and "last (sc_maildir config) \<noteq> CHR ''/''" and "directory_part (fst p)" and "directory_part (snd p)"
  shows "handler_mail_file config now_ms p = mail_file config now_ms p"
  using assms decimal_nat_plain [of now_ms]
  by (simp add: handler_mail_file_def handler_maildir_def mail_file_def directory_part_def path_append_plain last_append)

lemma deliver_all:
  assumes "list_all (\<lambda>r. CHR ''@'' \<in> set r \<and> opens (mail_file config now_ms (handler_split_email r))) rs"
  shows "\<exists>st'. deliver config opens now_ms content (map VOctets rs) st = (st', Inr True) \<and>
    (\<forall>path. ms_files st' path = (if path \<in> (\<lambda>r. mail_file config now_ms (handler_split_email r)) ` set rs
       then Some content else ms_files st path))"
  using assms
proof (induction rs arbitrary: st)
  case (Cons r rs)
  let ?p = "handler_split_email r"
  obtain dir st1 where dir: "make_maildir (sc_maildir config) [snd ?p, fst ?p, ''new''] st = (dir, st1)" by fastforce
  note path = make_maildir_path [OF dir, of now_ms]
  let ?path = "mail_file config now_ms ?p"
  from Cons.prems dir path have "deliver config opens now_ms content (map VOctets (r # rs)) st =
      deliver config opens now_ms content (map VOctets rs) (st1\<lparr>ms_files := (ms_files st1)(?path \<mapsto> content)\<rparr>)"
    by (simp add: get_octets_def split_with_at Let_def del: make_maildir.simps)
  with Cons.IH [of "st1\<lparr>ms_files := (ms_files st1)(?path \<mapsto> content)\<rparr>"] Cons.prems path show ?case
    by auto
qed simp


text \<open>One recipient of the sample configuration, with the mail in \<open>/var/mail\<close>.\<close>

definition var_mail_configuration :: server_configuration where
  "var_mail_configuration = sample_configuration\<lparr>sc_maildir := ''/var/mail''\<rparr>"


text \<open>The file of a recipient that cannot be opened: the interpreted server answers with a message the
  protocol does not declare, the handler that the message is accepted.\<close>

lemma unwritten_mail_accepted:
  "ms_files (fst (handler_on_data_content config (\<lambda>path. False) now_ms now_time ct st)) = ms_files st
   \<and> code_tens (snd (handler_on_data_content config (\<lambda>path. False) now_ms now_time ct st)) = 50"
  by (simp add: handler_on_data_content_def fun_eq_iff files_handler_writes)

text \<open>Two messages to a recipient in the same millisecond: the second takes the place of the first.\<close>

lemma mail_overwritten:
  assumes "CHR ''@'' \<in> set r" and "opens (mail_file config now_ms (handler_split_email r))"
  shows "\<exists>st1 st2. deliver config opens now_ms first_content [VOctets r] st = (st1, Inr True)
    \<and> deliver config opens now_ms second_content [VOctets r] st1 = (st2, Inr True)
    \<and> ms_files st2 = (ms_files st)(mail_file config now_ms (handler_split_email r) \<mapsto> second_content)"
proof -
  have "list_all (\<lambda>r. CHR ''@'' \<in> set r \<and> opens (mail_file config now_ms (handler_split_email r))) [r]" using assms by simp
  note all = deliver_all [OF this, simplified]
  obtain st1 where st1: "deliver config opens now_ms first_content [VOctets r] st = (st1, Inr True)"
    "\<And>path. ms_files st1 path = (if path = mail_file config now_ms (handler_split_email r) then Some first_content else ms_files st path)"
    using all [where content = first_content and st = st] by auto
  obtain st2 where "deliver config opens now_ms second_content [VOctets r] st1 = (st2, Inr True)"
    "\<And>path. ms_files st2 path = (if path = mail_file config now_ms (handler_split_email r) then Some second_content else ms_files st1 path)"
    using all [where content = second_content and st = st1] by auto
  with st1 show ?thesis by (auto simp: fun_eq_iff)
qed

end
