(* ===== verification/SmtpProgram.thy ===== *)
theory SmtpProgram
  imports SourceTheorems SmtpServer WorkQueue
begin

text \<open>
  The program of the interpreted SMTP server (\<open>src/examples/smtpserver/interpreted_program.cpp\<close>): the
  text of the protocol, which the build embeds, becomes the tree of the server, and every state in
  which the tree calls back the application has a callback of \<open>server_processor.cpp\<close>.
\<close>

definition load_interpreted_program :: "lookup \<Rightarrow> string \<Rightarrow> optree generated option" where
  "load_interpreted_program lookup source_code = generate_server_from_source lookup source_code"

text \<open>The states of a generated tree, and the callbacks they ask for.\<close>

definition machine_states :: "optree \<Rightarrow> state_map" where
  "machine_states t = (case node_operation (optree_root t) of Op_StateMachineOperation m \<Rightarrow> m | _ \<Rightarrow> [])"

definition callback_keys :: "state_info \<Rightarrow> string list" where
  "callback_keys i = (case node_operation (optree_root (si_callback_optree i)) of Op_UnaryCallback k \<Rightarrow> [k] | _ \<Rightarrow> [])"

definition program_callbacks :: "optree \<Rightarrow> string list" where
  "program_callbacks t = concat (map (\<lambda>(s, i). callback_keys i) (machine_states t))"

definition smtp_states_that_call_back :: "string list" where
  "smtp_states_that_call_back =
     [''AwaitServerRCPTTOResponse'', ''AwaitServerDATAResponse'', ''AwaitServerDATAContentResponse'',
      ''AwaitServerEHLOResponse'', ''AwaitServerMAILFROMResponse'', ''AwaitServerQUITResponse'', ''Closed'', ''Open'']"

definition calls_back_in :: "protocol option \<Rightarrow> string list \<Rightarrow> bool" where
  "calls_back_in p ks =
     (case p of None \<Rightarrow> False | Some pr \<Rightarrow>
        (case generate_server pr of Inr (Some t) \<Rightarrow> program_callbacks t = ks | _ \<Rightarrow> False))"

lemma smtp_generated: "calls_back_in (analyze smtp_protocol) smtp_states_that_call_back"
  by code_simp

section \<open>The protocol can be written\<close>

lemma ball_map_of_pairs: "\<forall>p \<in> set qs. P p \<Longrightarrow> \<forall>p \<in> set (map_of_pairs qs). P p"
  using set_map_of_pairs by blast

lemma ordered_empty: "ordered []"
  by (simp add: ordered_def)

lemma smtp_types_wf: "wf_type (ascii_str n)" "wf_type ascii_int8" "wf_type recipient_strings" "wf_type recipient_tuples"
  by (auto simp: ascii_str_def ascii_int8_def recipient_strings_def recipient_tuples_def plain_type_def
      map_of_pairs_ordered ordered_empty intro!: ball_map_of_pairs)

text \<open>A message of the language: what it takes to be written.\<close>

lemma smtp_message_wf:
  assumes "ds \<noteq> []" and "ps \<noteq> []" and "\<forall>(k, t) \<in> set ds. wf_type t" and "\<forall>p \<in> set ps. wf_part p"
  shows "wf_message (smtp_message n w t a ds ps)"
proof -
  have "map_of_pairs ds \<noteq> []" using assms(1) by (rule map_of_pairs_nonempty)
  then show ?thesis
    using assms(2-4) ball_map_of_pairs [of ds "\<lambda>(k, t). wf_type t"]
    by (simp add: wf_message_def smtp_message_def map_of_pairs_ordered)
qed

lemma smtp_messages_wf: "\<forall>m \<in> set smtp_messages. wf_message m"
  by (simp add: smtp_messages_def smtp_message_defs smtp_message_wf smtp_types_wf tokens_def tokens_until_def)

lemma smtp_wf: "wf_protocol smtp_protocol"
proof -
  have "\<forall>(n, m) \<in> set smtp_protocol. msg_name m = n \<and> wf_message m"
    unfolding smtp_protocol_def by (rule ball_map_of_pairs) (use smtp_messages_wf in auto)
  moreover have "smtp_protocol \<noteq> []" by (simp add: smtp_protocol_def smtp_messages_def map_of_pairs_nonempty)
  ultimately show ?thesis by (simp add: wf_protocol_def smtp_protocol_def map_of_pairs_ordered)
qed

text \<open>The identifiers and numbers of the text.\<close>

definition smtp_identifiers :: "string list" where
  "smtp_identifiers =
     [''when'', ''then'', ''agent'', ''data'', ''int'', ''str'', ''array'', ''tuple'', ''encoding'', ''sizing'', ''max_length'', ''unsigned'',
      ''bits'', ''element_type'', ''escape'', ''replace'', ''AsciiInt'', ''Ascii7Bit'', ''Dynamic'', ''Client'', ''Server'',
      ''Open'', ''Closed'', ''ClientSendEHLO'', ''ClientSendCommand'', ''ClientSendFirstRCPTTO'', ''ClientSendMoreRCPTTOorDATA'',
      ''ClientSendDATAContent'', ''AwaitServerEHLOResponse'', ''AwaitServerMAILFROMResponse'', ''AwaitServerRCPTTOResponse'',
      ''AwaitServerDATAResponse'', ''AwaitServerDATAContentResponse'', ''AwaitServerQUITResponse'', ''client_domain'', ''sender'',
      ''recipient'', ''parameters'', ''rcpt_to_params'', ''mail_from_params'', ''recipient_list'', ''content'', ''code_tens'', ''msg'']"

lemma smtp_identifiers_lexable: "list_all (\<lambda>n. lexable (T_Identifier n)) smtp_identifiers"
  by (simp add: smtp_identifiers_def is_letter_def is_word_char_def is_digit_def less_eq_char_def words_def)

lemmas lexable_identifiers = smtp_identifiers_lexable [unfolded smtp_identifiers_def list.pred_inject]

definition lexable_type :: "ptype \<Rightarrow> bool" where
  "lexable_type t \<longleftrightarrow> list_all lexable (tokens_of_type t)"

lemma lexable_separated:
  "lexable c \<Longrightarrow> \<forall>x \<in> set xs. list_all lexable (f x) \<Longrightarrow> list_all lexable (separated c f xs)"
  by (induction c f xs rule: separated.induct) (auto simp: list_all_iff)

lemma lexable_typeI:
  assumes "lexable (T_Identifier n)" and "\<forall>p \<in> set ps. lexable (T_Identifier (fst p)) \<and> list_all lexable (tokens_of_value (snd p))"
  shows "lexable_type (Type (IdentifierReference n None) (map_of_pairs ps))"
proof -
  have "list_all lexable (separated T_Comma (\<lambda>(k, v). T_Identifier k # T_Equal # tokens_of_value v) (map_of_pairs ps))"
    by (rule lexable_separated) (use ball_map_of_pairs [OF assms(2)] in \<open>auto simp del: lexable.simps(1)\<close>)
  with assms(1) show ?thesis by (simp add: lexable_type_def del: lexable.simps(1))
qed

lemma plain_type_lexable: "lexable_type (plain_type n) \<longleftrightarrow> lexable (T_Identifier n)"
  by (simp add: lexable_type_def plain_type_def del: lexable.simps(1))

lemma ascii_str_lexable: "0 \<le> sint n \<Longrightarrow> lexable_type (ascii_str n)"
  using lexable_identifiers unfolding ascii_str_def
  by (intro lexable_typeI) (simp_all add: plain_type_lexable lexable_type_def [symmetric] del: lexable.simps(1))

lemma smtp_type_lexable:
  "lexable_type ascii_int8" "lexable_type recipient_strings" "lexable_type recipient_tuples"
proof -
  note facts = lexable_identifiers ascii_str_lexable [of 32768]
  have tuple: "lexable_type (Type (IdentifierReference ''tuple'' None)
      (map_of_pairs [(''recipient'', TypeValue (ascii_str 32768)), (''parameters'', TypeValue (ascii_str 32768))]))"
    using facts by (intro lexable_typeI) (simp_all add: lexable_type_def del: lexable.simps(1))
  show "lexable_type ascii_int8" "lexable_type recipient_strings"
    unfolding ascii_int8_def recipient_strings_def using facts
    by (intro lexable_typeI; simp add: plain_type_lexable lexable_type_def [symmetric] del: lexable.simps(1))+
  show "lexable_type recipient_tuples"
    unfolding recipient_tuples_def using facts tuple
    by (intro lexable_typeI)
      (simp_all add: plain_type_lexable lexable_type_def [symmetric] del: lexable.simps(1) tokens_of_type.simps)
qed

lemma smtp_message_lexable:
  assumes "list_all (\<lambda>n. lexable (T_Identifier n)) [w, t, a]" and "list_all (\<lambda>(k, ty). lexable (T_Identifier k) \<and> lexable_type ty) ds"
    and "list_all (\<lambda>p. list_all lexable (tokens_of_part p)) ps"
  shows "\<forall>x \<in> set (tokens_of_message (smtp_message n w t a ds ps)). lexable x"
proof -
  have "\<forall>p \<in> set (map_of_pairs ds). lexable (T_Identifier (fst p)) \<and> lexable_type (snd p)"
    by (rule ball_map_of_pairs) (use assms(2) in \<open>auto simp: list_all_iff\<close>)
  with assms(1,3) lexable_identifiers show ?thesis
    by (auto simp: tokens_of_message_def smtp_message_def tokens_of_data_pair_def lexable_type_def list_all_iff simp del: lexable.simps(1))
qed

lemma smtp_messages_lexable: "\<forall>m \<in> set smtp_messages. \<forall>x \<in> set (tokens_of_message m). lexable x"
  unfolding smtp_messages_def smtp_message_defs list.set ball_simps
  using lexable_identifiers
  by (intro conjI smtp_message_lexable) (simp_all add: smtp_type_lexable ascii_str_lexable tokens_def tokens_until_def field_def
      tokens_of_token_sequence_def token_options_def tokens_of_options_def tokens_of_option_def option_name_token_def
      del: lexable.simps(1))

lemma smtp_lexable: "\<forall>t \<in> set (tokens_of_protocol smtp_protocol). lexable t"
proof -
  have "\<forall>p \<in> set smtp_protocol. \<forall>x \<in> set (tokens_of_message (snd p)). lexable x"
    unfolding smtp_protocol_def by (rule ball_map_of_pairs) (use smtp_messages_lexable in auto)
  then show ?thesis by (auto simp: tokens_of_protocol_def)
qed

section \<open>The program\<close>

text \<open>C9: From the protocol of the example, written as a text of its tokens, the lexer, the parser, the
  analysis and the generator make the program of the server, and it calls back the application in
  exactly the states for which the server registers a callback.\<close>

theorem smtp_program_loads:
  assumes "scanner lookup"
  shows "\<exists>t. load_interpreted_program lookup (source_of_protocol smtp_protocol) = Some (Inr (Some t))
    \<and> (\<forall>k. k \<in> set (program_callbacks t) \<longleftrightarrow> smtp_callback config opens now_ms now_time k \<noteq> None)"
proof -
  obtain pr t where pr: "analyze smtp_protocol = Some pr" and t: "generate_server pr = Inr (Some t)"
    and calls: "program_callbacks t = smtp_states_that_call_back"
    using smtp_generated by (auto simp: calls_back_in_def split: option.splits sum.splits)
  have "load_interpreted_program lookup (source_of_protocol smtp_protocol) = Some (Inr (Some t))"
    using parse_source [OF assms smtp_wf smtp_lexable] pr t
    by (simp add: load_interpreted_program_def generate_server_from_source_def)
  moreover have "k \<in> set smtp_states_that_call_back \<longleftrightarrow> smtp_callback config opens now_ms now_time k \<noteq> None" for k
    by (auto simp: smtp_states_that_call_back_def smtp_callback_def Let_def)
  ultimately show ?thesis using calls by auto
qed

theorem smtp_program_loads_witness:
  "\<exists>t. load_interpreted_program derivative_lookup (source_of_protocol smtp_protocol) = Some (Inr (Some t))
    \<and> ''AwaitServerDATAResponse'' \<in> set (program_callbacks t)"
  using smtp_program_loads [OF derivative.scanner_axioms, of sample_configuration "\<lambda>path. True" 0 0]
  by (auto simp: smtp_callback_def)

section \<open>After the loop has ended\<close>

text \<open>
  What threads still do to a work queue when its loop runs no more, as at the end of
  \<open>smtpserver_generated/main.cpp\<close>: they push and signal, and nothing is done. The queue is destroyed
  there without having been shut down, so its destructor waits for a close that never comes.
\<close>

inductive push_step :: "'w loop_system \<Rightarrow> 'w loop_system \<Rightarrow> bool" where
  push_check: "push_step l (loop_check x l)"
| push_enqueue: "x \<in> set (ls_checked l) \<Longrightarrow> push_step l (loop_enqueue x l)"
| push_signal: "0 < ls_to_signal l \<Longrightarrow> push_step l (loop_signal l)"

lemma ended_loop_does_nothing:
  assumes "push_step\<^sup>*\<^sup>* l l'"
  shows "ls_done l' = ls_done l \<and> wq_close_calls (ls_queue l') = wq_close_calls (ls_queue l)"
  using assms
proof (induction rule: rtranclp_induct)
  case (step l1 l2)
  from step.hyps(2) have "ls_done l2 = ls_done l1 \<and> wq_close_calls (ls_queue l2) = wq_close_calls (ls_queue l1)"
    by cases (auto simp: loop_defs)
  with step.IH show ?case by simp
qed simp

end
