(* ===== verification/PrintTree.thy ===== *)
theory PrintTree
  imports PureOps
begin

text \<open>
  Printing of operation trees: \<open>stringify\<close> of every operation, and \<open>print_optreenode\<close>, whose
  output is the text it puts into the stream. The two call each other, since an operation may
  carry trees. Every tree an operation carries is there, so the branches that print
  \<open><None>\<close> are not taken; every operation can be printed.
\<close>

section \<open>Text\<close>

definition text_line :: "string \<Rightarrow> string" where
  "text_line s = s @ [CHR 0x0A]"

definition quoted :: "string \<Rightarrow> string" where
  "quoted s = [CHR 0x22] @ s @ [CHR 0x22]"

text \<open>The lines \<open>std::getline\<close> reads: nothing after the last line feed is no line.\<close>

fun getline_lines :: "string \<Rightarrow> string list" where
  "getline_lines [] = []"
| "getline_lines (c # cs) =
     (if c = CHR 0x0A then [] # getline_lines cs
      else case getline_lines cs of [] \<Rightarrow> [[c]] | l # ls \<Rightarrow> (c # l) # ls)"

text \<open>The elements with a comma and a blank between them.\<close>

fun comma_separated :: "string list \<Rightarrow> string" where
  "comma_separated [] = []"
| "comma_separated [s] = s"
| "comma_separated (s # ss) = s @ '', '' @ comma_separated ss"

section \<open>Operations that carry no tree\<close>

fun condition_to_string :: "transition_condition \<Rightarrow> string" where
  "condition_to_string EOFCondition = ''EOF''"
| "condition_to_string (MatchUntilTerminator t) = ''MatchUntilTerminator('' @ t @ '')''"
| "condition_to_string (StaticString s) = ''StaticString('' @ s @ '')''"

definition transition_lookahead_text :: "(transition_condition \<times> string) list \<Rightarrow> string" where
  "transition_lookahead_text conditions =
     ''TransitionLookahead('' @ comma_separated (map (\<lambda>(c, t). condition_to_string c @ '' -> '' @ t) conditions) @ '')''"

definition read_until_text :: "octets \<Rightarrow> (octets \<times> octets) option \<Rightarrow> string" where
  "read_until_text terminator escape =
     ''ReadOctetsUntilTerminator{terminator: '' @ quoted terminator
       @ (case escape of None \<Rightarrow> [] | Some (c, s) \<Rightarrow> '', escape_char: '' @ quoted c @ '', escape_sequence: '' @ quoted s) @ ''}''"

definition for_each_text :: "bool \<Rightarrow> string" where
  "for_each_text element_is_single_argument =
     (if element_is_single_argument then ''FunctionCallForEach{element_is_single_argument: true}''
      else ''FunctionCallForEach{element_is_single_argument: false}'')"

definition write_escaped_text :: "octets \<Rightarrow> octets \<Rightarrow> string" where
  "write_escaped_text c s = ''WriteOctetsWithEscape{escape_char: '' @ quoted c @ '', escape_sequence: '' @ quoted s @ ''}''"

definition int32_literal_text :: "int32 \<Rightarrow> string" where
  "int32_literal_text i = ''Int32Literal{int32_v: '' @ decimal_int (sint i) @ ''}''"

section \<open>Operations that carry trees\<close>

text \<open>The arguments that are functions print the trees, from the prefixes of the first line and the others.\<close>

type_synonym tree_printer = "string \<Rightarrow> string \<Rightarrow> string"

definition bar :: string where
  "bar = [CHR 0xE2, CHR 0x94, CHR 0x82, CHR '' '']"

definition argument_names_text :: "string list \<Rightarrow> string" where
  "argument_names_text ns = comma_separated (map quoted ns)"

definition static_callable_text :: "tree_printer \<Rightarrow> string list \<Rightarrow> bool \<Rightarrow> string" where
  "static_callable_text tree ns inherits =
     text_line ''StaticCallable{'' @ text_line ('' inherits_lexical_pad: '' @ (if inherits then ''1'' else ''0''))
       @ text_line ('' argument_names: ['' @ argument_names_text ns @ '']'') @ text_line '' optree: ''
       @ tree (''  '' @ bar) (''  '' @ bar) @ ''}''"

definition transition_text :: "string \<Rightarrow> tree_printer \<Rightarrow> string list \<Rightarrow> string \<Rightarrow> string" where
  "transition_text name tree ns target_state =
     text_line (''      Transition: '' @ name @ '' -> '' @ target_state)
       @ text_line (''        Argument Names: ['' @ argument_names_text ns @ '']'')
       @ text_line ''        Callback Optree:'' @ tree (''         '' @ bar) (''         '' @ bar)"

definition state_text :: "string \<Rightarrow> tree_printer \<Rightarrow> string \<Rightarrow> string" where
  "state_text name tree transitions =
     text_line (''  State: '' @ name) @ text_line ''    Callback Optree:'' @ tree (''     '' @ bar) (''     '' @ bar)
       @ text_line ''    Transitions:'' @ transitions"

definition state_machine_text :: "string list \<Rightarrow> string" where
  "state_machine_text states = text_line ''StateMachineOperation{'' @ concat states @ ''}''"

section \<open>Nodes\<close>

text \<open>The text of the operation of a node, line by line.\<close>

definition print_operation :: "string \<Rightarrow> string \<Rightarrow> string \<Rightarrow> string" where
  "print_operation first others s =
     (case getline_lines s of [] \<Rightarrow> [] | l # ls \<Rightarrow> text_line (first @ l) @ concat (map (\<lambda>l. text_line (others @ l)) ls))"

definition connector :: "bool \<Rightarrow> string" where
  "connector is_last =
     '' '' @ (if is_last then [CHR 0xE2, CHR 0x94, CHR 0x94] else [CHR 0xE2, CHR 0x94, CHR 0x9C])
       @ [CHR 0xE2, CHR 0x94, CHR 0x80, CHR 0xE2, CHR 0x94, CHR 0x80] @ '' ''"

definition continuation_prefix :: "bool \<Rightarrow> string" where
  "continuation_prefix is_last = (if is_last then ''     '' else '' '' @ [CHR 0xE2, CHR 0x94, CHR 0x82] @ ''   '')"

fun print_children :: "string \<Rightarrow> tree_printer list \<Rightarrow> string" where
  "print_children others [] = []"
| "print_children others (child # rest) =
     child (others @ connector (rest = [])) (others @ continuation_prefix (rest = [])) @ print_children others rest"

primrec stringify :: "operation \<Rightarrow> string"
  and print_optreenode :: "optree_node \<Rightarrow> string \<Rightarrow> string \<Rightarrow> string"
  and print_root :: "optree \<Rightarrow> string \<Rightarrow> string \<Rightarrow> string"
  and print_transition_info :: "transition_info \<Rightarrow> string \<Rightarrow> string"
  and print_state_info :: "state_info \<Rightarrow> string \<Rightarrow> string" where
  "stringify Op_Add = ''Add{}''"
| "stringify Op_DynamicList = ''DynamicList{}''"
| "stringify Op_Eq = ''Eq{}''"
| "stringify Op_FunctionCall = ''FunctionCall{}''"
| "stringify (Op_FunctionCallForEach b) = for_each_text b"
| "stringify Op_GenerateList = ''GenerateList{}''"
| "stringify Op_If = ''If{}''"
| "stringify (Op_Int32Literal i) = int32_literal_text i"
| "stringify Op_IntToAscii = ''IntToAscii{}''"
| "stringify Op_LesserEqual = ''LesserEqual{}''"
| "stringify (Op_LexicalPadGet n) = ''LexicalPadGet{name: '' @ quoted n @ ''}''"
| "stringify (Op_LexicalPadInitialize n) = ''LexicalPadInitialize{name: '' @ quoted n @ ''}''"
| "stringify (Op_LexicalPadInitializeGlobal n) = ''LexicalPadInitializeGlobal{name: '' @ quoted n @ ''}''"
| "stringify (Op_LexicalPadSet n) = ''LexicalPadSet{name: '' @ quoted n @ ''}''"
| "stringify Op_Multiply = ''Multiply{}''"
| "stringify Op_OpSequence = ''OpSequence{}''"
| "stringify Op_ReadInt32Native = ''ReadInt32Native{}''"
| "stringify Op_ReadIntFromAscii = ''ReadIntFromAscii{}''"
| "stringify (Op_ReadOctetsUntilTerminator t e) = read_until_text t e"
| "stringify (Op_ReadStaticOctets t) = ''ReadStaticOctets{contents: '' @ quoted t @ ''}''"
| "stringify (Op_StaticCallable t ns i) = static_callable_text (print_root t) ns i"
| "stringify Op_Subtract = ''Subtract{}''"
| "stringify (Op_TerminateListIfReadAhead t) = ''TerminateListIfReadAhead{terminator: '' @ quoted t @ ''}''"
| "stringify (Op_UnaryCallback k) = ''UnaryCallback{key: '' @ quoted k @ ''}''"
| "stringify Op_WriteInt32Native = ''WriteInt32Native{}''"
| "stringify Op_WriteOctets = ''WriteOctets{}''"
| "stringify (Op_WriteOctetsWithEscape c s) = write_escaped_text c s"
| "stringify (Op_WriteStaticOctets c) = ''WriteStaticOctets{contents: '' @ quoted c @ ''}''"
| "stringify Op_DictionaryInitialize = ''DictionaryInitialize{}''"
| "stringify (Op_DictionarySet k) = ''DictionarySet(key: '' @ quoted k @ '')''"
| "stringify (Op_DictionaryGet k) = ''DictionaryGet{key: '' @ quoted k @ ''}''"
| "stringify Op_LexicalPadAsDict = ''LexicalPadAsDict{}''"
| "stringify (Op_TransitionLookahead cs) = transition_lookahead_text cs"
| "stringify (Op_StateMachineOperation m) =
     state_machine_text (map (\<lambda>(n, text). text n) (map (map_prod (\<lambda>n. n) print_state_info) m))"
| "print_optreenode (OpTreeNode op cs) =
     (\<lambda>first others. print_operation first others (stringify op) @ print_children others (map print_optreenode cs))"
| "print_root (OpTree r) = print_optreenode r"
| "print_transition_info (TransitionInfo t ns tgt) = (\<lambda>name. transition_text name (print_root t) ns tgt)"
| "print_state_info (StateInfo t ts) =
     (\<lambda>name. state_text name (print_root t) (concat (map (\<lambda>(n, text). text n) (map (map_prod (\<lambda>n. n) print_transition_info) ts))))"

section \<open>Layout\<close>

text \<open>The lines of a tree, without the prefixes of where it is printed.\<close>

fun prefixed :: "string \<Rightarrow> string \<Rightarrow> string list \<Rightarrow> string list" where
  "prefixed p q [] = []"
| "prefixed p q (l # ls) = (p @ l) # map (\<lambda>l. q @ l) ls"

fun children_lines :: "string list list \<Rightarrow> string list" where
  "children_lines [] = []"
| "children_lines (ls # rest) = prefixed (connector (rest = [])) (continuation_prefix (rest = [])) ls @ children_lines rest"

primrec node_lines :: "optree_node \<Rightarrow> string list" where
  "node_lines (OpTreeNode op cs) = getline_lines (stringify op) @ children_lines (map node_lines cs)"

definition written :: "string list \<Rightarrow> string" where
  "written ls = concat (map text_line ls)"

lemma written_append [simp]: "written [] = []" "written (xs @ ys) = written xs @ written ys"
  by (simp_all add: written_def)

lemma getline_lines_empty [simp]: "getline_lines s = [] \<longleftrightarrow> s = []"
  by (cases s) (auto split: list.split)

text \<open>Every operation prints something.\<close>

lemma stringify_not_empty: "stringify op \<noteq> []"
  by (cases op) (simp_all add: for_each_text_def int32_literal_text_def read_until_text_def static_callable_text_def
      write_escaped_text_def transition_lookahead_text_def state_machine_text_def text_line_def)

lemma print_operation_written: "print_operation p q s = written (prefixed p q (getline_lines s))"
  by (simp add: print_operation_def written_def comp_def split: list.split)

lemma prefixed_append: "xs \<noteq> [] \<Longrightarrow> prefixed p q (xs @ ys) = prefixed p q xs @ map (\<lambda>l. q @ l) ys"
  by (cases xs) simp_all

lemma prefixed_prefixed: "map (\<lambda>l. r @ l) (prefixed p q ls) = prefixed (r @ p) (r @ q) ls"
  by (cases ls) simp_all

lemma print_children_written:
  assumes "\<And>c p q. c \<in> set cs \<Longrightarrow> print_optreenode c p q = written (prefixed p q (node_lines c))"
  shows "print_children q (map print_optreenode cs) = written (map (\<lambda>l. q @ l) (children_lines (map node_lines cs)))"
  using assms by (induction cs) (simp_all add: prefixed_prefixed)

lemma child_smaller: "c \<in> set cs \<Longrightarrow> size c < size (OpTreeNode op cs)"
  by (induction cs) auto

text \<open>Printing with prefixes puts them before the lines: the first one before the first line, the
  other before all others.\<close>

lemma print_layout: "print_optreenode n p q = written (prefixed p q (node_lines n))"
proof (induction n arbitrary: p q rule: measure_induct_rule [where f = size])
  case (less n)
  obtain op cs where n: "n = OpTreeNode op cs" by (cases n)
  have "print_children q (map print_optreenode cs) = written (map (\<lambda>l. q @ l) (children_lines (map node_lines cs)))"
    by (rule print_children_written) (use less child_smaller n in blast)
  then show ?case
    by (simp add: n print_operation_written prefixed_append stringify_not_empty)
qed

section \<open>Every node has a line\<close>

primrec node_count :: "optree_node \<Rightarrow> nat" where
  "node_count (OpTreeNode op cs) = Suc (sum_list (map node_count cs))"

lemma length_prefixed [simp]: "length (prefixed p q ls) = length ls"
  by (cases ls) simp_all

lemma length_children_lines: "length (children_lines lss) = sum_list (map length lss)"
  by (induction lss) simp_all

lemma node_lines_count: "node_count n \<le> length (node_lines n)"
proof (induction n rule: measure_induct_rule [where f = size])
  case (less n)
  obtain op cs where n: "n = OpTreeNode op cs" by (cases n)
  have "sum_list (map node_count cs) \<le> sum_list (map (length \<circ> node_lines) cs)"
    using less child_smaller n by (intro sum_list_mono) simp
  moreover have "getline_lines (stringify op) \<noteq> []" by (simp add: stringify_not_empty)
  then have "1 \<le> length (getline_lines (stringify op))" by (cases "getline_lines (stringify op)") simp_all
  ultimately show ?case by (simp add: n length_children_lines)
qed

end
