(* ===== verification/Spec2Isabelle.thy ===== *)
theory Spec2Isabelle
  imports PadProps IoTheorems MachineTheorems RunnerTheorems FrontEndTheorems GrammarTheorems EngineTheorems SourceTheorems
    CodegenTheorems GeneratedClaims GeneratedDispatch ServerTheorems GeneratorProgram WorkQueue LibuvTheorems LibuvClientWrapper
    SmtpHandlerTheorems SmtpProgram PrintTree
begin

text \<open>
  A model of the network protocol DSL: a language in which a protocol between a client and a server is
  written down once, as its messages, the states they lead from and to, and their layout on the wire.
  A description becomes a running side of the protocol in two ways. The interpreter
  (\<open>src/src/networkprotocoldsl\<close>) turns it into a tree of operations that an abstract machine runs, one machine
  for each connection; the code generator (\<open>src/src/networkprotocoldsl/codegen\<close>) writes C++ classes for it. Both
  are driven by libuv (\<open>src/src/networkprotocoldsl_uv\<close>).

  \<^bold>\<open>Parts, and how they interact.\<close>

  \<^item> From text to tree. \<open>Lexer\<close> (\<open>lexer/tokenize.cpp\<close>) makes tokens of the text, \<open>Grammar\<close>
    (\<open>parser/grammar\<close>) the parse tree of \<open>ParseTree\<close> (\<open>parser/tree\<close>), with the overload resolution of the
    engine done by hand; \<open>ParserEngine\<close> (\<open>parser/support/recursiveparser.hpp\<close>) is the engine itself, for any
    tables of overloads, and \<open>GrammarClasses\<close> the tables of \<open>parser/grammar\<close>.
    \<open>Sema\<close> (\<open>sema\<close>) makes the states of the two agents, each message a list of actions, and \<open>Generate\<close>
    (\<open>generate.cpp\<close>) the operation tree of an agent; \<open>InterpretedProgram\<close> composes them
    (\<open>interpretedprogram.cpp\<close>).
  \<^item> The machine. \<open>Values\<close> has the trees and values (\<open>operation.hpp\<close>, \<open>value.hpp\<close>), \<open>LexicalPad\<close> the
    environments (\<open>lexicalpad.cpp\<close>), \<open>PureOps\<close>, \<open>ReadOps\<close>, \<open>WriteOps\<close> and \<open>ControlFlow\<close> the operations
    (\<open>operation\<close>), \<open>Frames\<close>, \<open>Continuation\<close> and \<open>Interpreter\<close> the stacks that run them
    (\<open>executionstackframe.cpp\<close>, \<open>continuation.cpp\<close>, \<open>interpreter.hpp\<close>). An operation that cannot go on answers that
    it is blocked, and an event from outside lets it go on.
  \<^item> Many machines. \<open>Queues\<close> has the containers threads share (\<open>support\<close>), \<open>Runner\<close> the loops that run the
    interpreters of a collection, answer their callbacks and insert and remove them
    (\<open>interpreterrunner.cpp\<close>, \<open>interpretercollectionmanager.cpp\<close>).
  \<^item> The generator. \<open>ProtocolInfo\<close> collects what the generators need (\<open>codegen/protocolinfo.cpp\<close>), \<open>CppText\<close>
    and \<open>TypeMapping\<close> are their vocabulary, \<open>GenerateTypes\<close>, \<open>GenerateSerializer\<close>, \<open>GenerateParser\<close>,
    \<open>GenerateDispatch\<close>, \<open>GenerateStateMachine\<close> and \<open>GenerateRunner\<close> the text of each file, \<open>CppGenerator\<close> a run
    (\<open>codegen/cppgenerator.cpp\<close>) and \<open>GeneratorProgram\<close> the program (\<open>codegen/protocol_generator.cpp\<close>).
  \<^item> The generated code. What those texts do when they run: \<open>GeneratedSerializer\<close>, \<open>GeneratedParser\<close>,
    \<open>GeneratedDispatch\<close> and \<open>GeneratedMachine\<close>, as functions of the same description of a message.
  \<^item> The event loop. \<open>WorkQueue\<close> (\<open>asyncworkqueue.cpp\<close>) brings work from other threads to it; \<open>ServerWrapper\<close>
    (\<open>generatedserverwrapper.cpp\<close>) serves generated sides, \<open>LibuvServerRunner\<close> and \<open>LibuvClientRunner\<close> serve and
    run interpreted programs (\<open>libuvserverrunner.cpp\<close>, \<open>libuvclientrunner.cpp\<close>), \<open>LibuvClientWrapper\<close> a client with its
    threads (\<open>libuvclientwrapper.cpp\<close>).
  \<^item> Two programs on top (\<open>src/examples\<close>). \<open>SmtpProtocol\<close> is the protocol of an SMTP server as a parse tree,
    \<open>SmtpServer\<close> the callbacks of the interpreted server (\<open>smtpserver/server_processor.cpp\<close>), \<open>SmtpHandler\<close> the
    handler of the generated one (\<open>smtpserver_generated/smtp_handler.cpp\<close>), \<open>SmtpProgram\<close> the loading of the
    program (\<open>smtpserver/interpreted_program.cpp\<close>). An exception is a value of
    \<open>callback_error\<close>; the mail directory is a map from paths to contents.

  \<^bold>\<open>Correspondence.\<close> A class is a record or a datatype with the names of its members, an operation of it
  a definition with the name of the member function; a suffix tells overloads apart. Objects that are shared
  are addresses into a store: pads, interpreter contexts, connections. Failures of C++ are values: \<open>Inl\<close> of a
  fault for an assertion, a bad cast, an access beyond a container or to an object that is gone; \<open>None\<close> for
  \<open>std::nullopt\<close>; and where a loop may not end, \<open>partial_function\<close>, with \<open>None\<close> for a call that does not
  return. An \<open>int32_t\<close> is a 32-bit word, an octet string a list of characters. An \<open>unordered_map\<close> is an
  association list in the order of iteration, a \<open>std::map\<close> one that is sorted. Nothing uses fuel.

  \<^bold>\<open>Threads.\<close> A member function that holds a lock is one step; a handler, a round of a loop for one
  interpreter, a callback of libuv and a round of the pusher thread are steps too. The protocols whose
  correctness is the interleaving itself are split further: the signal and its queue (\<open>handshake_step\<close>), the
  compare-and-exchange loop (\<open>tc_step\<close>), and the work queue with its async handle (\<open>loop_step\<close>).

  \<^bold>\<open>What is not under \<open>src\<close>.\<close> The scanner that lexertl generates is an argument of \<open>tokenize\<close>; the locale \<open>scanner\<close>
  states its documented contract, the longest match of the first rule, and a matcher by derivatives is an
  instance. What libuv answers is an argument of the callbacks, and what they ask of it a list of calls.
  The handler of a generated side, the callbacks of an interpreted program, the creation of directories,
  the writing of files and the clock are arguments.

  \<^bold>\<open>Interfaces.\<close> \<open>scoped_environment\<close> (\<open>LexicalPad\<close>) is what the operations rely on in a pad; \<open>int_operation\<close>
  (\<open>PureOps\<close>), \<open>read_operation\<close>, \<open>write_operation\<close> and \<open>control_flow_operation\<close> what the machine relies on in an
  operation of each kind; \<open>buffer_queue\<close> (\<open>Queues\<close>) what the handlers of the runner rely on in a queue of
  buffers; \<open>item_parser\<close> (\<open>GrammarLemmas\<close>) what the loops of the parser rely on in an item; \<open>scanner\<close> (\<open>Lexer\<close>)
  what \<open>tokenize\<close> relies on; \<open>connection_runner\<close> (\<open>ServerLemmas\<close>) what the server relies on in a generated
  side. Each is interpreted on the definitions of the component that provides it.

  \<^bold>\<open>What the lemmas show.\<close>

  \<^item> \<open>LexerLemmas\<close>, \<open>GrammarTheorems\<close>, \<open>SourceTheorems\<close>: the languages of the rules, that \<open>tokenize\<close> ends with
    the tokens of the longest lexemes, and that a protocol that is printed, with any blanks and comments, is
    read back and analysed.
  \<^item> \<open>EngineLemmas\<close>, \<open>EngineTheorems\<close>: the engine run on the tables of the grammar ends on every input and finds what
    the parser of \<open>Grammar\<close> finds, class by class.
  \<^item> \<open>SemaLemmas\<close>, \<open>FrontEndTheorems\<close>: the two agents of a protocol mirror each other, analysis keeps exactly the
    messages, and the tree that is generated for an agent has its states and runs without faults.
  \<^item> \<open>MachineInvariant\<close>, \<open>MachineSemantics\<close>, \<open>MachineTheorems\<close>: an invariant of the machine from which it follows
    that no reachable machine fails an assertion, and that the stack machine computes recursive evaluation.
  \<^item> \<open>PrintTree\<close>: the printing of operation trees (\<open>print_optreenode.cpp\<close> and \<open>stringify\<close>), the layout of its
    lines, and that every node has one.
  \<^item> \<open>PadProps\<close>, \<open>IoProps\<close>, \<open>IoTheorems\<close>: pads refine environments; reading inverts writing, in any fragmentation.
  \<^item> \<open>RunnerLemmas\<close>, \<open>RunnerTheorems\<close>: no octet is lost between the queues and a machine, no wake-up is lost,
    transactions are serialisable, and a loop waits only when nothing can go on.
  \<^item> \<open>ProtocolInfoLemmas\<close>, \<open>BalancedCode\<close>, \<open>BalancedParser\<close>, \<open>BalancedMachine\<close>, \<open>BalancedRunner\<close>,
    \<open>CodegenTheorems\<close>: what the generators work on is the protocol, every file they write is balanced, and
    literals have the value they were written for.
  \<^item> \<open>SerializerTheorems\<close>, \<open>ParserTheorems\<close>, \<open>GeneratedTheorems\<close>, \<open>GeneratedClaims\<close>: the generated serializer agrees
    with the interpreter, the generated parser stays within its input and returns, a message that is sent is
    received, and a machine only holds messages of its state; and where the code does not do what it
    means to, a theorem that says so.
  \<^item> \<open>ServerLemmas\<close>, \<open>ServerTheorems\<close>: an invariant of the server for generated code under every event libuv
    may deliver, with what breaks when a descriptor is used again or messages arrive together.
  \<^item> \<open>GeneratorProgram\<close>: from the text of a protocol to the files of its library, and the errors that are not shown.
  \<^item> \<open>WorkQueue\<close>, \<open>LibuvTheorems\<close>, \<open>LibuvClientRunner\<close>, \<open>LibuvClientWrapper\<close>: work is done in order and no signal is lost; the output
    of an interpreter reaches libuv completely and in order while it runs, and is lost when it exits; what
    is closed twice or read after it was deleted, when stopping does not end, and that a result asked for too early never comes.
  \<^item> \<open>SmtpProgram\<close>, \<open>SmtpTheorems\<close>, \<open>SmtpSessions\<close>, \<open>SmtpHandlerTheorems\<close>: that the program of the interpreted server is
    generated and its callbacks are the registered ones; an invariant of the data in every session of the
    interpreted server, so that its callbacks answer with messages of their states but for named
    exceptions; a session that delivers mail and one that ends the server; and that the two servers decide
    and deliver alike.

  \<^bold>\<open>Not modelled.\<close> The tracer of the parser only serves debugging. Freeing of memory is modelled where something
  else may still use it. The main programs of \<open>src/examples\<close> parse a command line with CLI11 and wait for a
  signal; \<open>src/tests\<close> are tests. What is left of the headers is declarations.
\<close>

end
